(* ===== verification/Circuit.thy ===== *)
theory Circuit
  imports Prelude
begin

text \<open>
  The circuit breaker (apps/server/src/engine/circuit-breaker.ts): the three states, the calls
  it lets through or rejects, and the registry of breakers by name.  \<open>Date.now()\<close> is an
  argument, one instant per synchronous method; the operation of a call is a function of the
  outside world, so that a rejected call is one that leaves the world as it is.
\<close>

section \<open>State\<close>

datatype cstate = Closed | Open | HalfOpen

record circuit_options =
  co_threshold :: nat
  co_open_ms :: int
  co_half_ms :: int

definition default_circuit :: circuit_options where
  "default_circuit = \<lparr> co_threshold = 5, co_open_ms = 30000, co_half_ms = 10000 \<rparr>"

record circuit =
  c_name :: string
  c_opts :: circuit_options
  c_state :: cstate
  c_failures :: nat
  c_opened_at :: int
  c_half_at :: int

definition new_circuit :: "string \<Rightarrow> circuit_options \<Rightarrow> circuit" where
  "new_circuit name opts = \<lparr> c_name = name, c_opts = opts, c_state = Closed, c_failures = 0,
     c_opened_at = 0, c_half_at = 0 \<rparr>"

section \<open>Operations\<close>

definition c_open :: "int \<Rightarrow> circuit \<Rightarrow> circuit" where
  "c_open now c = c\<lparr> c_state := Open, c_opened_at := now, c_failures := 0 \<rparr>"

definition c_get_state :: "int \<Rightarrow> circuit \<Rightarrow> circuit" where
  "c_get_state now c =
     (let c1 = (if c_state c = Open \<and> now - c_opened_at c \<ge> co_open_ms (c_opts c)
                then c\<lparr> c_state := HalfOpen, c_half_at := now \<rparr> else c)
      in if c_state c1 = HalfOpen \<and> now - c_half_at c1 > co_half_ms (c_opts c1)
         then c_open now c1 else c1)"

definition c_on_success :: "circuit \<Rightarrow> circuit" where
  "c_on_success c = c\<lparr> c_failures := 0, c_state := Closed \<rparr>"

definition c_on_failure :: "int \<Rightarrow> circuit \<Rightarrow> circuit" where
  "c_on_failure now c =
     (let c1 = c\<lparr> c_failures := c_failures c + 1 \<rparr>
      in if c_state c1 = HalfOpen then c_open now c1
         else if c_failures c1 \<ge> co_threshold (c_opts c1) then c_open now c1 else c1)"

definition c_call :: "int \<Rightarrow> int \<Rightarrow> ('w \<Rightarrow> 'a res \<times> 'w) \<Rightarrow> circuit \<Rightarrow> 'w \<Rightarrow> 'a res \<times> circuit \<times> 'w" where
  "c_call now done_at operation c w =
     (let c1 = c_get_state now c in
      if c_state c1 = Open then (Inl (JsError (''Circuito abierto para '' @ c_name c1)), c1, w)
      else (case operation w of
          (Inr x, w') \<Rightarrow> (Inr x, c_on_success c1, w')
        | (Inl e, w') \<Rightarrow> (Inl e, c_on_failure done_at c1, w')))"

definition client_error :: "nat option \<Rightarrow> bool" where
  "client_error status = (case status of None \<Rightarrow> False
     | Some s \<Rightarrow> 400 \<le> s \<and> s < 500 \<and> s \<noteq> 408 \<and> s \<noteq> 429)"

definition c_record_failure :: "int \<Rightarrow> err \<Rightarrow> circuit \<Rightarrow> circuit" where
  "c_record_failure now e c = (if client_error (err_status e) then c else c_on_failure now c)"

definition c_reset :: "circuit \<Rightarrow> circuit" where
  "c_reset c = c\<lparr> c_state := Closed, c_failures := 0, c_opened_at := 0, c_half_at := 0 \<rparr>"

definition registry_get :: "string \<Rightarrow> circuit_options option \<Rightarrow> (string \<times> circuit) list \<Rightarrow> circuit \<times> (string \<times> circuit) list" where
  "registry_get name opts reg = (case map_of reg name of
     Some c \<Rightarrow> (c, reg)
   | None \<Rightarrow> (let c = new_circuit name (case opts of Some x \<Rightarrow> x | None \<Rightarrow> default_circuit)
             in (c, AList.update name c reg)))"

definition registry_all :: "(string \<times> circuit) list \<Rightarrow> circuit list" where
  "registry_all reg = map snd reg"

section \<open>Events of concurrent calls\<close>

text \<open>A call is admitted at its start and reports when its operation ends; between the two, other calls
  may start and report, so a history is a list of these events in any order.\<close>

datatype cevent = Started int | Succeeded | Failed int | Recorded int err | WasReset

fun c_event :: "cevent \<Rightarrow> circuit \<Rightarrow> circuit" where
  "c_event (Started now) c = c_get_state now c"
| "c_event Succeeded c = c_on_success c"
| "c_event (Failed now) c = c_on_failure now c"
| "c_event (Recorded now e) c = c_record_failure now e c"
| "c_event WasReset c = c_reset c"

definition c_run :: "cevent list \<Rightarrow> circuit \<Rightarrow> circuit" where
  "c_run es c = fold c_event es c"

lemma c_run_append: "c_run (es @ fs) c = c_run fs (c_run es c)"
  by (simp add: c_run_def)

definition circuit_ok :: "circuit \<Rightarrow> bool" where
  "circuit_ok c \<longleftrightarrow> c_failures c < co_threshold (c_opts c)"

lemmas circuit_defs = c_open_def c_get_state_def c_on_success_def c_on_failure_def
  c_record_failure_def c_reset_def

lemma c_event_opts [simp]: "c_opts (c_event e c) = c_opts c"
  by (cases e) (auto simp: circuit_defs Let_def)

lemma circuit_ok_event: "circuit_ok c \<Longrightarrow> circuit_ok (c_event e c)"
  by (cases e) (auto simp: circuit_ok_def circuit_defs Let_def)

lemma circuit_ok_run: "circuit_ok c \<Longrightarrow> circuit_ok (c_run es c)"
  unfolding c_run_def by (induction es arbitrary: c) (auto intro: circuit_ok_event)

lemma circuit_ok_new: "0 < co_threshold opts \<Longrightarrow> circuit_ok (new_circuit name opts)"
  by (simp add: circuit_ok_def new_circuit_def)

lemma failures_below:
  assumes "c_state c = Closed" "c_failures c + length ts < co_threshold (c_opts c)"
  shows "fold c_on_failure ts c = c\<lparr> c_failures := c_failures c + length ts \<rparr>"
  using assms by (induction ts arbitrary: c) (auto simp: c_on_failure_def Let_def)

lemma failure_trips:
  assumes "c_state c = Closed" "Suc (c_failures c) = co_threshold (c_opts c)"
  shows "c_on_failure t c = c_open t (c\<lparr> c_failures := Suc (c_failures c) \<rparr>)"
  using assms by (simp add: c_on_failure_def Let_def)

lemma open_rejects:
  assumes "c_state c = Open" "now - c_opened_at c < co_open_ms (c_opts c)"
  shows "c_call now t f c w = (Inl (JsError (''Circuito abierto para '' @ c_name c)), c, w)"
  using assms by (simp add: c_call_def c_get_state_def)

section \<open>Properties\<close>

lemma circuit_trips_parts:
  assumes "c_state c = Closed" "c_failures c = 0"
  shows "length ts < co_threshold (c_opts c) \<Longrightarrow>
      fold c_on_failure ts c = c\<lparr> c_failures := length ts \<rparr>"
    and "length ts + 1 = co_threshold (c_opts c) \<Longrightarrow> now - t < co_open_ms (c_opts c) \<Longrightarrow>
      c_call now later f (fold c_on_failure (ts @ [t]) c) w =
        (Inl (JsError (''Circuito abierto para '' @ c_name c)), fold c_on_failure (ts @ [t]) c, w)"
proof -
  show "length ts < co_threshold (c_opts c) \<Longrightarrow> fold c_on_failure ts c = c\<lparr> c_failures := length ts \<rparr>"
    using assms by (simp add: failures_below)
  assume len: "length ts + 1 = co_threshold (c_opts c)" and soon: "now - t < co_open_ms (c_opts c)"
  have "fold c_on_failure ts c = c\<lparr> c_failures := length ts \<rparr>"
    using assms len by (simp add: failures_below)
  then have tripped: "fold c_on_failure (ts @ [t]) c = c_open t (c\<lparr> c_failures := Suc (length ts) \<rparr>)"
    using assms len by (simp add: failure_trips)
  show "c_call now later f (fold c_on_failure (ts @ [t]) c) w =
        (Inl (JsError (''Circuito abierto para '' @ c_name c)), fold c_on_failure (ts @ [t]) c, w)"
    unfolding tripped using soon
    by (subst open_rejects) (simp_all add: c_open_def)
qed

text \<open>A closed breaker trips after exactly \<open>failureThreshold\<close> failures in a row: fewer leave it
  closed with their number counted, that many open it at the instant of the last one, and from then on
  every call that starts within \<open>openMs\<close> is rejected without running its operation.\<close>
theorem circuit_trips:
  assumes "c_state c = Closed" "c_failures c = 0"
  shows "(length ts < co_threshold (c_opts c) \<longrightarrow> fold c_on_failure ts c = c\<lparr> c_failures := length ts \<rparr>)
    \<and> (length ts + 1 = co_threshold (c_opts c) \<and> now - t < co_open_ms (c_opts c) \<longrightarrow>
        c_call now later f (fold c_on_failure (ts @ [t]) c) w =
          (Inl (JsError (''Circuito abierto para '' @ c_name c)), fold c_on_failure (ts @ [t]) c, w))"
  by (intro conjI impI circuit_trips_parts [OF assms]) blast+

theorem circuit_trips_witness:
  "c_call 1004 2000 (\<lambda>w. (Inr (), Suc w)) (fold c_on_failure ([1, 2, 3, 4] @ [5]) (new_circuit ''google'' default_circuit)) 7
   = (Inl (JsError (''Circuito abierto para '' @ c_name (new_circuit ''google'' default_circuit))),
      fold c_on_failure ([1, 2, 3, 4] @ [5]) (new_circuit ''google'' default_circuit), 7)"
  by (rule circuit_trips [THEN conjunct2, THEN mp]) (simp_all add: new_circuit_def default_circuit_def)

lemma half_open_admits_all_parts:
  assumes "c_state c = Open" "co_open_ms (c_opts c) \<le> t - c_opened_at c" "0 \<le> co_half_ms (c_opts c)"
    and "list_all (\<lambda>u. t \<le> u \<and> u - t \<le> co_half_ms (c_opts c)) us"
  shows "c_state (c_run (map Started (t # us)) c) = HalfOpen"
    and "c_state (c_run (map Started (t # us) @ [Succeeded]) c) = Closed"
    and "u - v < co_open_ms (c_opts c) \<Longrightarrow>
         c_state (c_run (map Started (t # us) @ [Failed v, Started u]) c) = Open"
proof -
  have first: "c_get_state t c = c\<lparr> c_state := HalfOpen, c_half_at := t \<rparr>"
    using assms by (simp add: c_get_state_def Let_def)
  have stay: "fold c_event (map Started us) (c\<lparr> c_state := HalfOpen, c_half_at := t \<rparr>)
      = c\<lparr> c_state := HalfOpen, c_half_at := t \<rparr>"
    using assms(4) by (induction us) (auto simp: c_get_state_def Let_def)
  have run: "c_run (map Started (t # us)) c = c\<lparr> c_state := HalfOpen, c_half_at := t \<rparr>"
    by (simp add: c_run_def first stay)
  show "c_state (c_run (map Started (t # us)) c) = HalfOpen"
    by (simp only: run) simp
  show "c_state (c_run (map Started (t # us) @ [Succeeded]) c) = Closed"
    by (simp only: c_run_append run) (simp add: c_run_def c_on_success_def)
  show "u - v < co_open_ms (c_opts c) \<Longrightarrow>
        c_state (c_run (map Started (t # us) @ [Failed v, Started u]) c) = Open"
    by (simp only: c_run_append run)
      (simp add: c_run_def c_on_failure_def c_open_def c_get_state_def Let_def)
qed

text \<open>After the cooldown the breaker is half-open, but it does not admit a single trial: any number
  of calls that start within \<open>halfOpenTimeoutMs\<close> of the first one is admitted before one of them reports.
  One failure then opens it for a full new cooldown, one success closes it.\<close>
theorem half_open_admits_all:
  assumes "c_state c = Open" "co_open_ms (c_opts c) \<le> t - c_opened_at c" "0 \<le> co_half_ms (c_opts c)"
    and "list_all (\<lambda>u. t \<le> u \<and> u - t \<le> co_half_ms (c_opts c)) us"
  shows "c_state (c_run (map Started (t # us)) c) = HalfOpen
    \<and> c_state (c_run (map Started (t # us) @ [Succeeded]) c) = Closed
    \<and> (u - v < co_open_ms (c_opts c) \<longrightarrow> c_state (c_run (map Started (t # us) @ [Failed v, Started u]) c) = Open)"
  using half_open_admits_all_parts [OF assms] by blast

theorem half_open_admits_all_witness:
  "c_state (c_run (map Started [30005, 30005, 30006])
     (c_open 5 (new_circuit ''google'' default_circuit))) = HalfOpen"
  using half_open_admits_all [of "c_open 5 (new_circuit ''google'' default_circuit)" 30005 "[30005, 30006]"]
  by (simp add: c_open_def new_circuit_def default_circuit_def)

text \<open>Whatever calls start, report, fail and are recorded in whatever order, the failure counter of a
  breaker stays below its threshold, and an error the client caused (4xx other than 408 and 429)
  recorded from outside changes nothing.\<close>
theorem circuit_counter_bounded:
  "0 < co_threshold opts \<longrightarrow>
     c_failures (c_run es (new_circuit name opts)) < co_threshold opts
   \<and> (400 \<le> st \<and> st < 500 \<and> st \<noteq> 408 \<and> st \<noteq> 429 \<longrightarrow>
        c_run (es @ [Recorded now (AppError msg st)]) (new_circuit name opts)
        = c_run es (new_circuit name opts))"
proof -
  have "c_opts (c_run es c) = c_opts c" for c
    unfolding c_run_def by (induction es arbitrary: c) auto
  then show ?thesis
    using circuit_ok_run [OF circuit_ok_new, of opts es name]
    by (auto simp: circuit_ok_def new_circuit_def c_run_def c_record_failure_def client_error_def)
qed

theorem circuit_counter_bounded_witness:
  "c_failures (c_run [Started 0, Failed 1, Failed 2] (new_circuit ''stripe'' default_circuit)) < 5"
  using circuit_counter_bounded [of default_circuit "[Started 0, Failed 1, Failed 2]" "''stripe''"]
  by (simp add: default_circuit_def)

end
