(* ===== verification/RateLimit.thy ===== *)
theory RateLimit
  imports Prelude
begin

text \<open>
  The in-memory rate limiter (apps/server/src/rate-limit.ts): fixed windows per key, kept in an
  insertion-ordered map that never grows past \<open>maxKeys\<close>.
\<close>

section \<open>State and operations\<close>

record bucket =
  b_count :: nat
  b_reset :: int

record rl_result =
  rl_allowed :: bool
  rl_retry_after :: int

record limiter =
  rl_limit :: nat
  rl_window :: int
  rl_max :: nat
  rl_buckets :: "(string \<times> bucket) list"

definition drop_expired :: "int \<Rightarrow> (string \<times> bucket) list \<Rightarrow> (string \<times> bucket) list" where
  "drop_expired now bs = filter (\<lambda>kb. \<not> b_reset (snd kb) \<le> now) bs"

fun drop_oldest :: "nat \<Rightarrow> (string \<times> bucket) list \<Rightarrow> (string \<times> bucket) list" where
  "drop_oldest n [] = []"
| "drop_oldest n (b # bs) = (if length (b # bs) \<ge> n then drop_oldest n bs else b # bs)"

definition rl_prune :: "int \<Rightarrow> nat \<Rightarrow> (string \<times> bucket) list \<Rightarrow> (string \<times> bucket) list" where
  "rl_prune now maxk bs = (if length bs < maxk then bs else drop_oldest maxk (drop_expired now bs))"

definition rl_take :: "int \<Rightarrow> string \<Rightarrow> limiter \<Rightarrow> rl_result \<times> limiter" where
  "rl_take now key l =
     (let fresh = (\<lparr> rl_allowed = True, rl_retry_after = 0 \<rparr>,
            l\<lparr> rl_buckets := AList.update key \<lparr> b_count = 1, b_reset = now + rl_window l \<rparr>
                 (rl_prune now (rl_max l) (rl_buckets l)) \<rparr>)
      in case map_of (rl_buckets l) key of
        None \<Rightarrow> fresh
      | Some b \<Rightarrow>
          if b_reset b \<le> now then fresh
          else if b_count b \<ge> rl_limit l
            then (\<lparr> rl_allowed = False, rl_retry_after = b_reset b - now \<rparr>, l)
          else (\<lparr> rl_allowed = True, rl_retry_after = 0 \<rparr>,
            l\<lparr> rl_buckets := AList.update key (b\<lparr> b_count := b_count b + 1 \<rparr>) (rl_buckets l) \<rparr>))"

definition take_for_tenant :: "int \<Rightarrow> string \<Rightarrow> string \<Rightarrow> string \<Rightarrow> limiter \<Rightarrow> rl_result \<times> limiter" where
  "take_for_tenant now tenant user action = rl_take now (tenant @ '':'' @ user @ '':'' @ action)"

definition take_for_user :: "int \<Rightarrow> string \<Rightarrow> string \<Rightarrow> limiter \<Rightarrow> rl_result \<times> limiter" where
  "take_for_user now user action = rl_take now (''user:'' @ user @ '':'' @ action)"

definition rl_reset_key :: "string \<Rightarrow> limiter \<Rightarrow> limiter" where
  "rl_reset_key key l = l\<lparr> rl_buckets := AList.delete key (rl_buckets l) \<rparr>"

definition rl_timer :: "int \<Rightarrow> limiter \<Rightarrow> limiter" where
  "rl_timer now l = l\<lparr> rl_buckets := drop_expired now (rl_buckets l) \<rparr>"

text \<open>A history of takes; \<open>allowed_of\<close> counts those of one key that were let through.\<close>

fun allowed_of :: "string \<Rightarrow> (int \<times> string) list \<Rightarrow> limiter \<Rightarrow> nat" where
  "allowed_of k [] l = 0"
| "allowed_of k ((now, k') # ts) l = (let (r, l') = rl_take now k' l
     in (if k' = k \<and> rl_allowed r then 1 else 0) + allowed_of k ts l')"

section \<open>Pruning\<close>

lemma length_drop_oldest: "length (drop_oldest n bs) \<le> n - 1"
  by (induction bs) auto

lemma drop_oldest_suffix: "\<exists>as. bs = as @ drop_oldest n bs"
proof (induction bs)
  case (Cons b bs)
  then obtain as where "bs = as @ drop_oldest n bs" by blast
  then show ?case by (auto intro: exI [of _ "b # as"] exI [of _ "[]"])
qed simp

lemma distinct_drop_oldest: "distinct (map fst bs) \<Longrightarrow> distinct (map fst (drop_oldest n bs))"
  by (induction bs) auto

lemma length_prune: "length (rl_prune now n bs) \<le> n - 1"
  using length_drop_oldest [of n "drop_expired now bs"] by (auto simp: rl_prune_def)

lemma distinct_prune: "distinct (map fst bs) \<Longrightarrow> distinct (map fst (rl_prune now n bs))"
  by (simp add: rl_prune_def drop_expired_def distinct_drop_oldest distinct_filter_keys)

lemma rl_take_frame [simp]: "rl_limit (snd (rl_take now k l)) = rl_limit l"
  "rl_window (snd (rl_take now k l)) = rl_window l" "rl_max (snd (rl_take now k l)) = rl_max l"
  by (auto simp: rl_take_def Let_def split: option.splits)

definition limiter_ok :: "limiter \<Rightarrow> bool" where
  "limiter_ok l \<longleftrightarrow> distinct (map fst (rl_buckets l)) \<and> length (rl_buckets l) \<le> max 1 (rl_max l)"

lemma limiter_ok_take: "limiter_ok l \<Longrightarrow> limiter_ok (snd (rl_take now k l))"
  using length_prune [of now "rl_max l" "rl_buckets l"]
  by (auto simp: limiter_ok_def rl_take_def Let_def length_update distinct_prune dom_map_of_conv_image_fst [symmetric]
      split: option.splits)

lemma limiter_ok_ops:
  "limiter_ok l \<Longrightarrow> limiter_ok (rl_reset_key k l)" "limiter_ok l \<Longrightarrow> limiter_ok (rl_timer now l)"
  by (auto simp: limiter_ok_def rl_reset_key_def rl_timer_def drop_expired_def distinct_filter_keys
      intro: order_trans [OF length_delete_le] order_trans [OF length_filter_le])

section \<open>Without eviction a bucket belongs to its key alone\<close>

definition roomy :: "string set \<Rightarrow> limiter \<Rightarrow> bool" where
  "roomy ks l \<longleftrightarrow> distinct (map fst (rl_buckets l)) \<and> finite ks
     \<and> fst ` set (rl_buckets l) \<subseteq> ks \<and> card ks < rl_max l"

lemma roomy_no_prune: "roomy ks l \<Longrightarrow> rl_prune now (rl_max l) (rl_buckets l) = rl_buckets l"
proof -
  assume r: "roomy ks l"
  then have "length (rl_buckets l) = card (fst ` set (rl_buckets l))"
    unfolding roomy_def by (metis distinct_card length_map list.set_map)
  also have "\<dots> \<le> card ks" using r by (auto simp: roomy_def intro: card_mono)
  finally show ?thesis using r by (simp add: rl_prune_def roomy_def)
qed

lemma roomy_take: "\<lbrakk> roomy ks l; k \<in> ks \<rbrakk> \<Longrightarrow> roomy ks (snd (rl_take now k l))"
  using roomy_no_prune [of ks l now]
  by (auto simp: rl_take_def roomy_def Let_def dom_update split: option.splits)

lemma take_other: "\<lbrakk> roomy ks l; k' \<noteq> k \<rbrakk> \<Longrightarrow>
   map_of (rl_buckets (snd (rl_take now k' l))) k = map_of (rl_buckets l) k"
  using roomy_no_prune [of ks l now] by (auto simp: rl_take_def Let_def split: option.splits)

lemma take_own:
  assumes "map_of (rl_buckets l) k = Some b" "now < b_reset b"
  shows "rl_allowed (fst (rl_take now k l)) \<longleftrightarrow> b_count b < rl_limit l"
    and "map_of (rl_buckets (snd (rl_take now k l))) k =
         Some (b\<lparr> b_count := (if b_count b < rl_limit l then b_count b + 1 else b_count b) \<rparr>)"
  using assms by (auto simp: rl_take_def Let_def)

lemma allowed_of_window:
  assumes "roomy ks l" "snd ` set ts \<subseteq> ks" "map_of (rl_buckets l) k = Some b"
    and "\<forall>t\<in>fst ` set ts. t < b_reset b"
  shows "allowed_of k ts l = min (rl_limit l - b_count b) (length (filter (\<lambda>t. snd t = k) ts))"
  using assms
proof (induction ts arbitrary: l b)
  case (Cons t ts)
  obtain now k' where t: "t = (now, k')" by force
  let ?l = "snd (rl_take now k' l)"
  have r: "roomy ks ?l" using Cons.prems t by (auto intro: roomy_take)
  show ?case
  proof (cases "k' = k")
    case True
    have own: "now < b_reset b" using Cons.prems t by simp
    let ?b = "b\<lparr> b_count := (if b_count b < rl_limit l then b_count b + 1 else b_count b) \<rparr>"
    have "map_of (rl_buckets ?l) k = Some ?b"
      using take_own(2) [OF Cons.prems(3) own] True by simp
    then have "allowed_of k ts ?l = min (rl_limit l - b_count ?b) (length (filter (\<lambda>t. snd t = k) ts))"
      using Cons.IH [OF r, of ?b] Cons.prems by auto
    then show ?thesis using take_own(1) [OF Cons.prems(3) own] True t
      by (auto simp: case_prod_beta Let_def)
  next
    case False
    have "map_of (rl_buckets ?l) k = Some b"
      using take_other [OF Cons.prems(1) False] Cons.prems by simp
    then have "allowed_of k ts ?l = min (rl_limit l - b_count b) (length (filter (\<lambda>t. snd t = k) ts))"
      using Cons.IH [OF r, of b] Cons.prems by auto
    then show ?thesis using False t by (simp add: case_prod_beta Let_def)
  qed
qed simp

lemma take_opens: "\<lbrakk> roomy ks l; map_of (rl_buckets l) k = None \<rbrakk> \<Longrightarrow>
   rl_allowed (fst (rl_take now k l)) \<and>
   map_of (rl_buckets (snd (rl_take now k l))) k = Some \<lparr> b_count = 1, b_reset = now + rl_window l \<rparr>"
  by (auto simp: rl_take_def Let_def roomy_no_prune)

section \<open>With eviction a key is let through more often, never less\<close>

lemma map_of_drop_oldest: "distinct (map fst bs) \<Longrightarrow> map_of (drop_oldest n bs) k \<in> {map_of bs k, None}"
proof (induction bs)
  case (Cons b bs)
  have "fst b = k \<Longrightarrow> map_of (drop_oldest n bs) k = None"
    using Cons drop_oldest_suffix [of bs n] by (fastforce simp: map_of_eq_None_iff)
  then show ?case using Cons by (cases b) auto
qed simp

lemma map_of_prune: "distinct (map fst bs) \<Longrightarrow> map_of (rl_prune now n bs) k \<in> {map_of bs k, None}"
proof -
  assume d: "distinct (map fst bs)"
  have "map_of (drop_expired now bs) k \<in> {map_of bs k, None}"
    using d by (induction bs) (auto simp: drop_expired_def map_of_eq_None_iff)
  moreover have "distinct (map fst (drop_expired now bs))" using d by (simp add: drop_expired_def distinct_filter_keys)
  ultimately show ?thesis using map_of_drop_oldest [of "drop_expired now bs" n k] by (auto simp: rl_prune_def)
qed

lemma take_other_evicts:
  assumes "distinct (map fst (rl_buckets l))" "k' \<noteq> k"
  shows "map_of (rl_buckets (snd (rl_take now k' l))) k \<in> {map_of (rl_buckets l) k, None}"
  using assms map_of_prune [OF assms(1), of now "rl_max l" k] by (auto simp: rl_take_def Let_def split: option.splits)

definition used_up :: "string \<Rightarrow> limiter \<Rightarrow> nat" where
  "used_up k l = (case map_of (rl_buckets l) k of None \<Rightarrow> 0 | Some b \<Rightarrow> b_count b)"

lemma allowed_of_least:
  assumes "distinct (map fst (rl_buckets l))" "1 \<le> rl_limit l"
  shows "min (rl_limit l - used_up k l) (length (filter (\<lambda>t. snd t = k) ts)) \<le> allowed_of k ts l"
  using assms
proof (induction ts arbitrary: l)
  case (Cons t ts)
  obtain now k' where t: "t = (now, k')" by force
  let ?l = "snd (rl_take now k' l)" and ?n = "length (filter (\<lambda>t. snd t = k) ts)"
  have "distinct (map fst (rl_buckets ?l))" using Cons.prems(1)
    by (auto simp: rl_take_def Let_def distinct_prune distinct_update split: option.splits)
  then have ih: "min (rl_limit l - used_up k ?l) ?n \<le> allowed_of k ts ?l" using Cons.IH [of ?l] Cons.prems(2) by simp
  show ?case
  proof (cases "k' = k")
    case True
    have "rl_allowed (fst (rl_take now k l)) \<and> used_up k ?l \<le> used_up k l + 1
       \<or> used_up k ?l = used_up k l \<and> rl_limit l \<le> used_up k l"
      using True by (auto simp: rl_take_def Let_def used_up_def split: option.splits)
    then show ?thesis using ih True t by (auto simp: case_prod_beta Let_def)
  next
    case False
    have "used_up k ?l \<le> used_up k l"
      using take_other_evicts [OF Cons.prems(1) False, of now] by (auto simp: used_up_def split: option.split)
    then show ?thesis using ih False t by (auto simp: case_prod_beta Let_def)
  qed
qed simp

section \<open>Properties\<close>

text \<open>C32: within one window a key gets at least its limit, and exactly its limit while the table has room.
  Of the takes of a key that has no bucket, whatever takes of other keys come between them, the
  limiter allows the limit or all of them; and when the keys in play are fewer than \<open>maxKeys\<close>,
  so that none is evicted, the first take opens the window and of the takes in it no more than
  \<open>limit\<close> are allowed.  With more keys it may be more: \<open>flood_reopens_window\<close>.\<close>
theorem window_limit_exact:
  assumes "distinct (map fst (rl_buckets l))" "1 \<le> rl_limit l" "map_of (rl_buckets l) k = None"
  shows "min (rl_limit l) (1 + length (filter (\<lambda>t. snd t = k) ts)) \<le> allowed_of k ((t0, k) # ts) l
     \<and> (roomy ks l \<and> k \<in> ks \<and> snd ` set ts \<subseteq> ks \<and> (\<forall>t\<in>fst ` set ts. t < t0 + rl_window l) \<longrightarrow>
         allowed_of k ((t0, k) # ts) l = min (rl_limit l) (1 + length (filter (\<lambda>t. snd t = k) ts)))"
proof (intro conjI impI)
  show "min (rl_limit l) (1 + length (filter (\<lambda>t. snd t = k) ts)) \<le> allowed_of k ((t0, k) # ts) l"
    using allowed_of_least [OF assms(1,2), of k "(t0, k) # ts"] assms(3) by (simp add: used_up_def del: allowed_of.simps)
  assume r: "roomy ks l \<and> k \<in> ks \<and> snd ` set ts \<subseteq> ks \<and> (\<forall>t\<in>fst ` set ts. t < t0 + rl_window l)"
  let ?l = "snd (rl_take t0 k l)"
  have o: "rl_allowed (fst (rl_take t0 k l))"
      "map_of (rl_buckets ?l) k = Some \<lparr> b_count = 1, b_reset = t0 + rl_window l \<rparr>"
    using take_opens [of ks l k t0] r assms(3) by auto
  have "allowed_of k ts ?l = min (rl_limit l - 1) (length (filter (\<lambda>t. snd t = k) ts))"
    using allowed_of_window [OF roomy_take [of ks l k t0] _ o(2), of ts] r by simp
  then show "allowed_of k ((t0, k) # ts) l = min (rl_limit l) (1 + length (filter (\<lambda>t. snd t = k) ts))"
    using o(1) assms(2) by (simp add: case_prod_beta Let_def)
qed

theorem window_limit_exact_witness:
  "allowed_of ''a'' ((0, ''a'') # [(1, ''a''), (2, ''b''), (3, ''a'')])
     \<lparr> rl_limit = 2, rl_window = 60, rl_max = 10, rl_buckets = [] \<rparr> = 2"
  using window_limit_exact [of "\<lparr> rl_limit = 2, rl_window = 60, rl_max = 10, rl_buckets = [] \<rparr>"
      "''a''" "[(1, ''a''), (2, ''b''), (3, ''a'')]" 0 "{''a'', ''b''}"]
  by (simp add: roomy_def)

text \<open>A flood of other keys gives a key a window of its own choice: with as many of them as the table
  holds, its bucket is the oldest and is dropped, whatever it had counted.\<close>

lemma flood_reopens_window:
  assumes "rl_buckets l = (k, b) # bs" "length bs + 1 = rl_max l" "k \<notin> fst ` set bs" "distinct (map fst bs)"
    and "\<forall>e\<in>set ((k, b) # bs). now < b_reset (snd e)" "k' \<notin> insert k (fst ` set bs)"
  shows "rl_allowed (fst (rl_take now k (snd (rl_take now k' l))))"
proof -
  have n: "map_of (rl_buckets l) k' = None" using assms(1,6) by (auto simp: map_of_eq_None_iff)
  have e: "drop_expired now (rl_buckets l) = (k, b) # bs" using assms(1,5) by (auto simp: drop_expired_def filter_id_conv)
  have "drop_oldest (rl_max l) bs = bs" using assms(2) by (cases bs) auto
  then have "rl_prune now (rl_max l) (rl_buckets l) = bs" using e assms(1,2) by (simp add: rl_prune_def)
  then have "rl_buckets (snd (rl_take now k' l)) = AList.update k' \<lparr> b_count = 1, b_reset = now + rl_window l \<rparr> bs"
    using n by (simp add: rl_take_def Let_def)
  moreover have "map_of bs k = None" "k' \<noteq> k" using assms(3,6) by (auto simp: map_of_eq_None_iff)
  ultimately have "map_of (rl_buckets (snd (rl_take now k' l))) k = None" by simp
  then show ?thesis by (simp add: rl_take_def Let_def)
qed

lemma limiter_bounded_and_honest_parts:
  assumes "limiter_ok l"
  shows "limiter_ok (snd (rl_take now k l)) \<and> limiter_ok (rl_reset_key k l) \<and> limiter_ok (rl_timer now l)"
    and "\<not> rl_allowed (fst (rl_take now k l)) \<Longrightarrow> 0 < rl_retry_after (fst (rl_take now k l))
       \<and> rl_allowed (fst (rl_take (now + rl_retry_after (fst (rl_take now k l))) k (snd (rl_take now k l))))"
  using limiter_ok_take [OF assms] limiter_ok_ops [OF assms]
  by (auto simp: rl_take_def Let_def split: option.splits if_splits)

text \<open>The limiter's memory is bounded and a refusal is honest.  From a state of at most \<open>maxKeys\<close>
  buckets no operation exceeds them, and a denied take reports a positive wait after which a take of
  the same key is allowed.\<close>
theorem limiter_bounded_and_honest:
  assumes "limiter_ok l"
  shows "limiter_ok (snd (rl_take now k l)) \<and> limiter_ok (rl_reset_key k l) \<and> limiter_ok (rl_timer now l)
    \<and> (\<not> rl_allowed (fst (rl_take now k l)) \<longrightarrow> 0 < rl_retry_after (fst (rl_take now k l))
       \<and> rl_allowed (fst (rl_take (now + rl_retry_after (fst (rl_take now k l))) k (snd (rl_take now k l)))))"
  using limiter_bounded_and_honest_parts [OF assms] by blast

theorem limiter_bounded_and_honest_witness:
  "rl_allowed (fst (rl_take (5 + 55) ''a'' \<lparr> rl_limit = 1, rl_window = 60, rl_max = 2,
      rl_buckets = [(''a'', \<lparr> b_count = 1, b_reset = 60 \<rparr>)] \<rparr>))"
  using limiter_bounded_and_honest [of "\<lparr> rl_limit = 1, rl_window = 60, rl_max = 2,
      rl_buckets = [(''a'', \<lparr> b_count = 1, b_reset = 60 \<rparr>)] \<rparr>" 5 "''a''"]
  by (simp add: limiter_ok_def rl_take_def)

end
