(* ===== verification/Retry.thy ===== *)
theory Retry
  imports Prelude
begin

text \<open>
  Retries with exponential backoff and full jitter (apps/server/src/engine/retry.ts).  The
  operation is a function of the outside world; each attempt also consumes what the environment
  gives for it: the clock when the attempt starts, whether the abort signal has fired by then or
  fires during the wait, and the random number.  The waits made are part of the result.
\<close>

section \<open>Errors worth a retry\<close>

record failure =
  f_is_error :: bool
  f_name :: string
  f_status :: "nat option"
  f_message :: string
  f_outcome_unknown :: bool

definition lower :: "string \<Rightarrow> string" where
  "lower s = map (\<lambda>c. let n = (of_char c :: nat) in if 65 \<le> n \<and> n \<le> 90 then char_of (n + 32) else c) s"

fun has_infix :: "string \<Rightarrow> string \<Rightarrow> bool" where
  "has_infix p [] = (p = [])"
| "has_infix p (c # s) = (str_starts p (c # s) \<or> has_infix p s)"

definition network_words :: "string list" where
  "network_words = [''timeout'', ''econn'', ''enotfound'', ''eai_again'', ''socket'', ''network'',
     ''aborted'', ''fetch failed'']"

definition default_is_retryable :: "failure \<Rightarrow> bool" where
  "default_is_retryable e =
     (if \<not> f_is_error e then False
      else if f_name e = ''AbortError'' then False
      else (let by_message = list_ex (\<lambda>w. has_infix w (lower (f_message e))) network_words
        in case f_status e of
          None \<Rightarrow> by_message
        | Some st \<Rightarrow> if 400 \<le> st \<and> st < 500 \<and> st \<noteq> 408 \<and> st \<noteq> 429 then False
            else if 500 \<le> st \<or> st = 408 \<or> st = 429 then True else by_message))"

section \<open>The loop\<close>

record retry_options =
  ro_max_attempts :: nat
  ro_base_ms :: rat
  ro_max_ms :: rat
  ro_max_total :: "int option"

record attempt_env =
  ae_now :: int
  ae_aborted :: bool
  ae_random :: rat
  ae_abort_in_wait :: bool

datatype 'e stop = Threw 'e | NothingThrown | TotalTimeExceeded | Aborted | AbortedInWait

definition with_full_jitter :: "rat \<Rightarrow> rat \<Rightarrow> int" where
  "with_full_jitter random delay = \<lfloor>random * delay\<rfloor>"

definition backoff_cap :: "retry_options \<Rightarrow> nat \<Rightarrow> rat" where
  "backoff_cap ro attempt = min (ro_max_ms ro) (ro_base_ms ro * 2 ^ (attempt - 1))"

definition out_of_time :: "retry_options \<Rightarrow> int \<Rightarrow> int \<Rightarrow> bool" where
  "out_of_time ro started now = (case ro_max_total ro of None \<Rightarrow> False | Some m \<Rightarrow> now - started > m)"

fun retry_loop :: "('e \<Rightarrow> bool) \<Rightarrow> retry_options \<Rightarrow> int \<Rightarrow> (nat \<Rightarrow> attempt_env) \<Rightarrow> ('w \<Rightarrow> ('e + 'a) \<times> 'w)
    \<Rightarrow> nat \<Rightarrow> nat \<Rightarrow> 'e option \<Rightarrow> 'w \<Rightarrow> ('e stop + 'a) \<times> int list \<times> 'w" where
  "retry_loop is_retryable ro started env operation attempt 0 lst w =
     (Inl (case lst of Some e \<Rightarrow> Threw e | None \<Rightarrow> NothingThrown), [], w)"
| "retry_loop is_retryable ro started env operation attempt (Suc remaining) lst w =
     (let ae = env attempt in
      if out_of_time ro started (ae_now ae)
        then (Inl (case lst of Some e \<Rightarrow> Threw e | None \<Rightarrow> TotalTimeExceeded), [], w)
      else if ae_aborted ae then (Inl Aborted, [], w)
      else (case operation w of
          (Inr x, w') \<Rightarrow> (Inr x, [], w')
        | (Inl e, w') \<Rightarrow>
            if remaining = 0 \<or> \<not> is_retryable e then (Inl (Threw e), [], w')
            else (let delay = with_full_jitter (ae_random ae) (backoff_cap ro attempt) in
              if ae_abort_in_wait ae then (Inl AbortedInWait, [delay], w')
              else (let (r, ds, w'') = retry_loop is_retryable ro started env operation (attempt + 1) remaining (Some e) w'
                    in (r, delay # ds, w'')))))"

definition retry_with_backoff :: "('e \<Rightarrow> bool) \<Rightarrow> retry_options \<Rightarrow> int \<Rightarrow> (nat \<Rightarrow> attempt_env)
    \<Rightarrow> ('w \<Rightarrow> ('e + 'a) \<times> 'w) \<Rightarrow> 'w \<Rightarrow> ('e stop + 'a) \<times> int list \<times> 'w" where
  "retry_with_backoff is_retryable ro started env operation w =
     retry_loop is_retryable ro started env operation 1 (ro_max_attempts ro) None w"

section \<open>Attempts, waits and the error that comes out\<close>

text \<open>An operation wrapped so that the world counts its runs and keeps its last failure.\<close>

definition counted :: "('w \<Rightarrow> ('e + 'a) \<times> 'w) \<Rightarrow> (nat \<times> 'w) \<Rightarrow> ('e + 'a) \<times> (nat \<times> 'w)" where
  "counted f nw = (let (r, w') = f (snd nw) in (r, Suc (fst nw), w'))"

lemma counted_apply: "f w = (r, w') \<Longrightarrow> counted f (n, w) = (r, Suc n, w')"
  by (simp add: counted_def)

lemma retry_loop_counts:
  "retry_loop P ro st env (counted f) a n l (c, w) = (r, ds, c', w') \<Longrightarrow> c \<le> c' \<and> c' \<le> c + n"
proof (induction n arbitrary: a l c w r ds c' w')
  case (Suc n)
  obtain q w1 where f: "f w = (q, w1)" by force
  show ?case
  proof (cases q)
    case (Inl e)
    obtain r1 ds1 c1 w2
      where rec: "retry_loop P ro st env (counted f) (a + 1) n (Some e) (Suc c, w1) = (r1, ds1, c1, w2)"
      by (metis prod_cases3)
    show ?thesis using Suc.prems Suc.IH [OF rec] rec f Inl
      by (auto simp: counted_apply Let_def split: if_splits)
  next
    case (Inr x)
    then show ?thesis using Suc.prems f by (auto simp: counted_apply Let_def split: if_splits)
  qed
qed simp

lemma jitter_bounds: "\<lbrakk> 0 \<le> u; u < 1; 0 \<le> d \<rbrakk> \<Longrightarrow> 0 \<le> with_full_jitter u d \<and> of_int (with_full_jitter u d) \<le> d"
proof -
  assume u: "0 \<le> u" "u < 1" "0 \<le> d"
  have "u * d \<le> d" using u by (simp add: mult_left_le_one_le)
  then have "of_int \<lfloor>u * d\<rfloor> \<le> d" by linarith
  moreover have "0 \<le> \<lfloor>u * d\<rfloor>" using u by simp
  ultimately show ?thesis by (simp add: with_full_jitter_def)
qed

definition good_env :: "(nat \<Rightarrow> attempt_env) \<Rightarrow> bool" where
  "good_env env \<longleftrightarrow> (\<forall>n. 0 \<le> ae_random (env n) \<and> ae_random (env n) < 1)"

lemma retry_loop_delays:
  assumes "good_env env" "0 \<le> ro_base_ms ro" "0 \<le> ro_max_ms ro"
  shows "retry_loop P ro st env f a n l w = (r, ds, w') \<Longrightarrow>
     length ds \<le> n - 1 \<and> (\<forall>i<length ds. 0 \<le> ds ! i \<and> of_int (ds ! i) \<le> backoff_cap ro (a + i))"
proof (induction n arbitrary: a l w r ds w')
  case (Suc n)
  have cap: "0 \<le> backoff_cap ro m" for m using assms by (simp add: backoff_cap_def)
  have d: "0 \<le> with_full_jitter (ae_random (env a)) (backoff_cap ro a)
       \<and> of_int (with_full_jitter (ae_random (env a)) (backoff_cap ro a)) \<le> backoff_cap ro a"
    using assms(1) cap by (intro jitter_bounds) (auto simp: good_env_def)
  show ?case
  proof (cases "f w")
    case (Pair q w1)
    show ?thesis
    proof (cases "\<exists>e. q = Inl e \<and> n \<noteq> 0 \<and> P e \<and> \<not> out_of_time ro st (ae_now (env a)) \<and> \<not> ae_aborted (env a)
        \<and> \<not> ae_abort_in_wait (env a)")
      case True
      then obtain e where e: "q = Inl e" "n \<noteq> 0" "P e" "\<not> out_of_time ro st (ae_now (env a))"
        "\<not> ae_aborted (env a)" "\<not> ae_abort_in_wait (env a)" by blast
      obtain r1 ds1 w2 where rec: "retry_loop P ro st env f (a + 1) n (Some e) w1 = (r1, ds1, w2)"
        by (metis prod_cases3)
      have ds: "ds = with_full_jitter (ae_random (env a)) (backoff_cap ro a) # ds1"
        using Suc.prems e rec Pair by (simp add: Let_def)
      then show ?thesis using Suc.IH [OF rec] d e(2) by (auto simp: nth_Cons' less_Suc_eq_0_disj)
    next
      case False
      then show ?thesis using Suc.prems Pair d
        by (auto simp: Let_def split: if_splits sum.splits)
    qed
  qed
qed simp

section \<open>Properties\<close>

lemma retry_bounded_parts:
  assumes "good_env env" "0 \<le> ro_base_ms ro" "0 \<le> ro_max_ms ro"
    and "retry_with_backoff P ro st env (counted f) (0, w) = (r, ds, c, w')"
  shows "c \<le> ro_max_attempts ro" "length ds \<le> ro_max_attempts ro - 1"
    and "i < length ds \<Longrightarrow> 0 \<le> ds ! i \<and> of_int (ds ! i) \<le> min (ro_max_ms ro) (ro_base_ms ro * 2 ^ i)"
  using retry_loop_counts [OF assms(4) [unfolded retry_with_backoff_def]]
    retry_loop_delays [OF assms(1-3) assms(4) [unfolded retry_with_backoff_def]]
  by (auto simp: backoff_cap_def)

text \<open>RetryWithBackoff runs its operation at most \<open>maxAttempts\<close> times, waits fewer times than that,
  and the i-th wait lies between 0 and min(maxMs, baseMs * 2^i).\<close>
theorem retry_bounded:
  assumes "good_env env" "0 \<le> ro_base_ms ro" "0 \<le> ro_max_ms ro"
    and "retry_with_backoff P ro st env (counted f) (0, w) = (r, ds, c, w')"
  shows "c \<le> ro_max_attempts ro \<and> length ds \<le> ro_max_attempts ro - 1
    \<and> (\<forall>i<length ds. 0 \<le> ds ! i \<and> of_int (ds ! i) \<le> min (ro_max_ms ro) (ro_base_ms ro * 2 ^ i))"
  using retry_bounded_parts [OF assms] by blast

definition sample_env :: "nat \<Rightarrow> attempt_env" where
  "sample_env n = \<lparr> ae_now = 0, ae_aborted = False, ae_random = 1 / 2, ae_abort_in_wait = False \<rparr>"

theorem retry_bounded_witness:
  "retry_with_backoff (\<lambda>e. True) \<lparr> ro_max_attempts = 3, ro_base_ms = 100, ro_max_ms = 150, ro_max_total = None \<rparr>
     0 sample_env (counted (\<lambda>w. (Inl ''down'' :: string + unit, w))) (0, ()) = (Inl (Threw ''down''), [50, 75], 3, ())
   \<and> (75 :: rat) \<le> min 150 (100 * 2 ^ 1)"
proof -
  have run: "retry_with_backoff (\<lambda>e. True) \<lparr> ro_max_attempts = 3, ro_base_ms = 100, ro_max_ms = 150, ro_max_total = None \<rparr>
     0 sample_env (counted (\<lambda>w. (Inl ''down'' :: string + unit, w))) (0, ()) = (Inl (Threw ''down''), [50, 75], 3, ())"
    by (simp add: retry_with_backoff_def numeral_3_eq_3 out_of_time_def sample_env_def counted_def
        with_full_jitter_def backoff_cap_def)
  show ?thesis
    using run retry_bounded [OF _ _ _ run] by (auto simp: good_env_def sample_env_def dest: spec [of _ 1])
qed

text \<open>A client error is never retried by default, and an error that is not retryable is thrown after
  the first run: the operation runs once, nothing is waited for, and that error comes out.\<close>
theorem no_retry_of_client_errors:
  assumes "f_is_error e" "f_status e = Some s" "400 \<le> s" "s < 500" "s \<noteq> 408" "s \<noteq> 429"
    and "f w = (Inl e, w')" "1 \<le> ro_max_attempts ro"
    and "\<not> out_of_time ro st (ae_now (env 1))" "\<not> ae_aborted (env 1)"
  shows "retry_with_backoff default_is_retryable ro st env (counted f) (0, w) = (Inl (Threw e), [], 1, w')"
proof -
  have "\<not> default_is_retryable e" using assms by (simp add: default_is_retryable_def)
  moreover obtain n where "ro_max_attempts ro = Suc n" using assms(8) by (cases "ro_max_attempts ro") auto
  ultimately show ?thesis using assms by (simp add: retry_with_backoff_def Let_def counted_def)
qed

theorem no_retry_of_client_errors_witness:
  "retry_with_backoff default_is_retryable \<lparr> ro_max_attempts = 3, ro_base_ms = 100, ro_max_ms = 150, ro_max_total = None \<rparr>
     0 sample_env (counted (\<lambda>w. (Inl \<lparr> f_is_error = True, f_name = ''Error'', f_status = Some 404,
        f_message = ''not found'', f_outcome_unknown = False \<rparr> :: failure + unit, Suc w))) (0, 4)
   = (Inl (Threw \<lparr> f_is_error = True, f_name = ''Error'', f_status = Some 404,
        f_message = ''not found'', f_outcome_unknown = False \<rparr>), [], 1, 5)"
  by (rule no_retry_of_client_errors [where s = 404]) (simp_all add: sample_env_def out_of_time_def)

end
