(* ===== verification/Presence.thy ===== *)
theory Presence
  imports Prelude
begin

text \<open>
  The two in-process coordination services of concurrent users: the edit lock
  (apps/server/src/engine/edit-lock.ts) and the presence service (engine/presence.ts), both maps
  keyed by \<open>resourceType:resourceId\<close> whose entries expire.
\<close>

definition resource_key :: "string \<Rightarrow> string \<Rightarrow> string" where
  "resource_key ty rid = ty @ '':'' @ rid"

section \<open>Edit lock\<close>

record lock =
  l_user :: string
  l_resource :: string
  l_at :: int

type_synonym locks = "(string \<times> lock) list"

definition lock_ttl :: int where "lock_ttl = 10000"

definition lock_gc :: "int \<Rightarrow> locks \<Rightarrow> locks" where
  "lock_gc now ls = filter (\<lambda>kl. \<not> now - l_at (snd kl) > lock_ttl) ls"

definition lock_acquire :: "int \<Rightarrow> string \<Rightarrow> string \<Rightarrow> string \<Rightarrow> locks \<Rightarrow> lock option \<times> locks" where
  "lock_acquire now user ty rid ls0 =
     (let ls = lock_gc now ls0; k = resource_key ty rid;
          mine = \<lparr> l_user = user, l_resource = rid, l_at = now \<rparr>
      in case map_of ls k of
        Some l \<Rightarrow> if l_user l \<noteq> user then (None, ls) else (Some mine, AList.update k mine ls)
      | None \<Rightarrow> (Some mine, AList.update k mine ls))"

definition lock_release :: "string \<Rightarrow> string \<Rightarrow> string \<Rightarrow> locks \<Rightarrow> locks" where
  "lock_release user ty rid ls = (case map_of ls (resource_key ty rid) of
     Some l \<Rightarrow> if l_user l = user then AList.delete (resource_key ty rid) ls else ls
   | None \<Rightarrow> ls)"

definition lock_clear :: "locks \<Rightarrow> locks" where
  "lock_clear ls = []"

datatype lock_op = Acquire int string string string | Release string string string

fun op_user :: "lock_op \<Rightarrow> string" where
  "op_user (Acquire _ u _ _) = u"
| "op_user (Release u _ _) = u"

fun op_time_ok :: "int \<Rightarrow> lock_op \<Rightarrow> bool" where
  "op_time_ok until (Acquire now _ _ _) = (now \<le> until)"
| "op_time_ok until (Release _ _ _) = True"

fun lock_step :: "lock_op \<Rightarrow> locks \<Rightarrow> locks" where
  "lock_step (Acquire now u ty rid) ls = snd (lock_acquire now u ty rid ls)"
| "lock_step (Release u ty rid) ls = lock_release u ty rid ls"

lemma distinct_lock_step: "distinct (map fst ls) \<Longrightarrow> distinct (map fst (lock_step e ls))"
  by (cases e) (auto simp: lock_acquire_def lock_release_def lock_gc_def Let_def distinct_filter_keys
      split: option.splits)

lemma lock_gc_keeps:
  "\<lbrakk> distinct (map fst ls); map_of ls k = Some l; now \<le> l_at l + lock_ttl \<rbrakk> \<Longrightarrow> map_of (lock_gc now ls) k = Some l"
  by (simp add: lock_gc_def map_of_filter_key)

lemma lock_kept:
  assumes "distinct (map fst ls)" "map_of ls k = Some l" "op_user e \<noteq> l_user l" "op_time_ok (l_at l + lock_ttl) e"
  shows "map_of (lock_step e ls) k = Some l"
  using assms
  by (cases e) (auto simp: lock_acquire_def lock_release_def lock_gc_keeps Let_def split: option.splits)

lemma lock_kept_run:
  assumes "distinct (map fst ls)" "map_of ls k = Some l"
    and "\<forall>e\<in>set es. op_user e \<noteq> l_user l \<and> op_time_ok (l_at l + lock_ttl) e"
  shows "map_of (fold lock_step es ls) k = Some l \<and> distinct (map fst (fold lock_step es ls))"
  using assms by (induction es arbitrary: ls) (auto intro: lock_kept distinct_lock_step)

section \<open>Presence\<close>

record presence =
  p_user :: string
  p_resource :: string
  p_type :: string
  p_seen :: int

type_synonym pbucket = "(string \<times> presence) list"
type_synonym presences = "(string \<times> pbucket) list"

definition presence_ttl :: int where "presence_ttl = 30000"

definition presence_gc :: "int \<Rightarrow> presences \<Rightarrow> presences" where
  "presence_gc now ps = filter (\<lambda>kb. snd kb \<noteq> [])
     (map (\<lambda>kb. (fst kb, filter (\<lambda>ue. \<not> now - p_seen (snd ue) > presence_ttl) (snd kb))) ps)"

definition presence_touch :: "int \<Rightarrow> string \<Rightarrow> string \<Rightarrow> string \<Rightarrow> presences \<Rightarrow> (string \<times> int) list \<times> presences" where
  "presence_touch now user ty rid ps0 =
     (let ps = presence_gc now ps0; k = resource_key ty rid;
          b0 = (case map_of ps k of Some b \<Rightarrow> b | None \<Rightarrow> []);
          b = AList.update user \<lparr> p_user = user, p_resource = rid, p_type = ty, p_seen = now \<rparr> b0;
          live = (\<lambda>ue. now - p_seen (snd ue) < presence_ttl)
      in (map (\<lambda>ue. (fst ue, p_seen (snd ue))) (filter (\<lambda>ue. fst ue \<noteq> user \<and> live ue) b),
          AList.update k (filter (\<lambda>ue. fst ue = user \<or> live ue) b) ps))"

definition presence_leave :: "string \<Rightarrow> string \<Rightarrow> string \<Rightarrow> presences \<Rightarrow> presences" where
  "presence_leave user ty rid ps = (let k = resource_key ty rid in case map_of ps k of
     None \<Rightarrow> ps
   | Some b \<Rightarrow> (let b' = AList.delete user b in if b' = [] then AList.delete k ps else AList.update k b' ps))"

definition presence_query :: "int \<Rightarrow> string \<Rightarrow> string \<Rightarrow> presences \<Rightarrow> (string \<times> int) list \<times> presences" where
  "presence_query now ty rid ps0 =
     (let ps = presence_gc now ps0 in case map_of ps (resource_key ty rid) of
        None \<Rightarrow> ([], ps)
      | Some b \<Rightarrow> (map (\<lambda>ue. (fst ue, p_seen (snd ue)))
                     (filter (\<lambda>ue. now - p_seen (snd ue) \<le> presence_ttl) b), ps))"

definition presence_clear :: "presences \<Rightarrow> presences" where
  "presence_clear ps = []"

definition last_seen :: "string \<Rightarrow> string \<Rightarrow> presences \<Rightarrow> int option" where
  "last_seen k u ps = (case map_of ps k of None \<Rightarrow> None | Some b \<Rightarrow> map_option p_seen (map_of b u))"

definition presences_ok :: "presences \<Rightarrow> bool" where
  "presences_ok ps \<longleftrightarrow> distinct (map fst ps) \<and> (\<forall>kb\<in>set ps. snd kb \<noteq> [] \<and> distinct (map fst (snd kb)))"

lemma presences_ok_gc: "presences_ok ps \<Longrightarrow> presences_ok (presence_gc now ps)"
proof -
  assume "presences_ok ps"
  moreover have "map fst (map (\<lambda>kb. (fst kb, g (snd kb))) ps) = map fst ps" for g :: "pbucket \<Rightarrow> pbucket"
    by simp
  ultimately show ?thesis
    by (auto simp: presences_ok_def presence_gc_def comp_def intro!: distinct_filter_keys)
qed

lemma map_of_gc:
  assumes "presences_ok ps"
  shows "map_of (presence_gc now ps) k = (case map_of ps k of None \<Rightarrow> None
     | Some b \<Rightarrow> let b' = filter (\<lambda>ue. \<not> now - p_seen (snd ue) > presence_ttl) b in if b' = [] then None else Some b')"
proof -
  let ?g = "\<lambda>b. filter (\<lambda>ue. \<not> now - p_seen (snd ue) > presence_ttl) b"
  have m: "map_of (map (\<lambda>kb. (fst kb, ?g (snd kb))) ps) k = map_option ?g (map_of ps k)"
    by (induction ps) auto
  have d: "distinct (map fst (map (\<lambda>kb. (fst kb, ?g (snd kb))) ps))"
    using assms by (simp add: presences_ok_def comp_def)
  show ?thesis unfolding presence_gc_def
    by (subst map_of_filter_key [OF d]) (auto simp: m Let_def split: option.splits)
qed

lemma bucket_distinct: "\<lbrakk> presences_ok ps; map_of ps k = Some b \<rbrakk> \<Longrightarrow> distinct (map fst b)"
  by (fastforce simp: presences_ok_def dest: map_of_SomeD)

lemma last_seen_gc:
  assumes "presences_ok ps"
  shows "last_seen k u (presence_gc now ps) = (case last_seen k u ps of None \<Rightarrow> None
     | Some t \<Rightarrow> if now - t > presence_ttl then None else Some t)"
proof (cases "map_of ps k")
  case (Some b)
  let ?g = "filter (\<lambda>ue. \<not> now - p_seen (snd ue) > presence_ttl) b"
  have f: "map_of ?g u = (case map_of b u of None \<Rightarrow> None
      | Some v \<Rightarrow> if \<not> now - p_seen v > presence_ttl then Some v else None)"
    by (auto simp: map_of_filter_key [OF bucket_distinct [OF assms Some]] split: option.splits)
  show ?thesis
  proof (cases "?g = []")
    case True
    then have "map_of ?g u = None" by simp
    then show ?thesis using True f Some by (auto simp: last_seen_def map_of_gc [OF assms] split: option.splits if_splits)
  next
    case False
    then show ?thesis using f Some
      by (auto simp: last_seen_def map_of_gc [OF assms] Let_def split: option.splits)
  qed
qed (simp add: last_seen_def map_of_gc [OF assms])

section \<open>Properties\<close>

text \<open>The edit lock excludes.  Once a user holds a resource, whatever other users acquire and release
  (any resources, in any order) up to ten seconds after the acquisition leaves the lock with its holder,
  and each of their attempts to acquire that resource in that time is refused.\<close>
theorem edit_lock_excludes:
  assumes "distinct (map fst ls)" "lock_acquire t user ty rid ls = (Some l, ls')"
    and "\<forall>e\<in>set es. op_user e \<noteq> user \<and> op_time_ok (t + lock_ttl) e" "other \<noteq> user" "now \<le> t + lock_ttl"
  shows "map_of (fold lock_step es ls') (resource_key ty rid) = Some l
     \<and> fst (lock_acquire now other ty rid (fold lock_step es ls')) = None"
proof -
  have l: "l = \<lparr> l_user = user, l_resource = rid, l_at = t \<rparr>" "map_of ls' (resource_key ty rid) = Some l"
    using assms(2) by (auto simp: lock_acquire_def Let_def split: option.splits if_splits)
  have d: "distinct (map fst ls')"
    using distinct_lock_step [OF assms(1), of "Acquire t user ty rid"] assms(2) by simp
  have kept: "map_of (fold lock_step es ls') (resource_key ty rid) = Some l"
      "distinct (map fst (fold lock_step es ls'))"
    using lock_kept_run [OF d l(2)] assms(3) l(1) by auto
  then have "map_of (lock_gc now (fold lock_step es ls')) (resource_key ty rid) = Some l"
    using assms(5) l(1) by (intro lock_gc_keeps) auto
  then show ?thesis using kept(1) l(1) assms(4) by (simp add: lock_acquire_def Let_def)
qed

theorem edit_lock_excludes_witness:
  "fst (lock_acquire 9000 ''bob'' ''project'' ''p1''
     (fold lock_step [Acquire 50 ''bob'' ''project'' ''p1'', Release ''bob'' ''project'' ''p1'']
        (snd (lock_acquire 0 ''ana'' ''project'' ''p1'' [])))) = None"
proof -
  have "\<exists>l ls'. lock_acquire 0 ''ana'' ''project'' ''p1'' [] = (Some l, ls')"
    by (simp add: lock_acquire_def lock_gc_def Let_def)
  then obtain l ls' where a: "lock_acquire 0 ''ana'' ''project'' ''p1'' [] = (Some l, ls')" by blast
  have es: "\<forall>e\<in>set [Acquire 50 ''bob'' ''project'' ''p1'', Release ''bob'' ''project'' ''p1''].
      op_user e \<noteq> ''ana'' \<and> op_time_ok (0 + lock_ttl) e"
    by (simp add: lock_ttl_def)
  show ?thesis
    using edit_lock_excludes [OF _ a es, of "''bob''" 9000] unfolding a snd_conv by (simp add: lock_ttl_def)
qed

text \<open>Presence queries answer the stored facts.  In a well-formed state a query lists a user of the
  resource exactly when the user's last touch is at most thirty seconds old, with its instant, and
  touching a resource makes the toucher listed without listing it among the others it returns.\<close>
theorem presence_query_exact:
  assumes "presences_ok ps"
  shows "(u, t) \<in> set (fst (presence_query now ty rid ps)) \<longleftrightarrow>
      last_seen (resource_key ty rid) u ps = Some t \<and> now - t \<le> presence_ttl"
    and "last_seen (resource_key ty rid) u (snd (presence_touch now u ty rid ps)) = Some now
      \<and> u \<notin> fst ` set (fst (presence_touch now u ty rid ps))"
proof -
  have ok: "presences_ok (presence_gc now ps)" using assms by (rule presences_ok_gc)
  show "(u, t) \<in> set (fst (presence_query now ty rid ps)) \<longleftrightarrow>
      last_seen (resource_key ty rid) u ps = Some t \<and> now - t \<le> presence_ttl"
  proof (cases "map_of (presence_gc now ps) (resource_key ty rid)")
    case None
    then have "last_seen (resource_key ty rid) u (presence_gc now ps) = None" by (simp add: last_seen_def)
    then show ?thesis using None last_seen_gc [OF assms, of "resource_key ty rid" u now]
      by (auto simp: presence_query_def split: option.splits if_splits)
  next
    case (Some b)
    have "(u, t) \<in> set (fst (presence_query now ty rid ps)) \<longleftrightarrow>
        (\<exists>e. (u, e) \<in> set b \<and> p_seen e = t \<and> now - t \<le> presence_ttl)"
      using Some by (force simp: presence_query_def)
    also have "\<dots> \<longleftrightarrow> map_option p_seen (map_of b u) = Some t \<and> now - t \<le> presence_ttl"
      using bucket_distinct [OF ok Some] by (auto simp: map_of_Some_iff)
    also have "map_option p_seen (map_of b u) = last_seen (resource_key ty rid) u (presence_gc now ps)"
      using Some by (simp add: last_seen_def)
    finally show ?thesis
      using last_seen_gc [OF assms, of "resource_key ty rid" u now] by (auto split: option.splits if_splits)
  qed
  have "distinct (map fst (case map_of (presence_gc now ps) (resource_key ty rid) of Some b \<Rightarrow> b | None \<Rightarrow> []))"
    using bucket_distinct [OF ok] by (auto split: option.splits)
  then show "last_seen (resource_key ty rid) u (snd (presence_touch now u ty rid ps)) = Some now
      \<and> u \<notin> fst ` set (fst (presence_touch now u ty rid ps))"
    by (auto simp: presence_touch_def last_seen_def Let_def map_of_filter_key)
qed

theorem presence_query_exact_witness:
  "(''ana'', 100) \<in> set (fst (presence_query 200 ''thread'' ''t1''
     [(''thread:t1'', [(''ana'', \<lparr> p_user = ''ana'', p_resource = ''t1'', p_type = ''thread'', p_seen = 100 \<rparr>)])]))"
  by (subst presence_query_exact(1))
    (simp_all add: presences_ok_def last_seen_def resource_key_def presence_ttl_def)

end
