(* ===== verification/Json.thy ===== *)
theory Json
  imports Prelude
begin

text \<open>
  The JSON values the program keeps in the \<open>data jsonb\<close> column of its one table, with
  the three operators its SQL applies to them: \<open>||\<close> (\<open>jmerge\<close>), \<open>@>\<close> (\<open>jcontains\<close>)
  and \<open>->>\<close> (\<open>jtext\<close>).  A number is a rational.  An instant that the code writes with
  \<open>toISOString()\<close> is \<open>JDate\<close> of its epoch milliseconds: the ISO text is compared and cast
  back to an instant, never taken apart.
\<close>

section \<open>Values and fields\<close>

datatype json = JNull | JBool bool | JNum rat | JStr string | JDate int
  | JArr "json list" | JObj "(string \<times> json) list"

fun jget :: "json \<Rightarrow> string \<Rightarrow> json option" where
  "jget (JObj fs) k = map_of fs k"
| "jget _ _ = None"

fun jset :: "string \<Rightarrow> json \<Rightarrow> json \<Rightarrow> json" where
  "jset k v (JObj fs) = JObj (AList.update k v fs)"
| "jset k v j = j"

fun jstr :: "json option \<Rightarrow> string option" where
  "jstr (Some (JStr s)) = Some s"
| "jstr _ = None"

fun jdate :: "json option \<Rightarrow> int option" where
  "jdate (Some (JDate t)) = Some t"
| "jdate _ = None"

fun jnum :: "json option \<Rightarrow> rat option" where
  "jnum (Some (JNum r)) = Some r"
| "jnum _ = None"

fun jarr :: "json option \<Rightarrow> json list" where
  "jarr (Some (JArr xs)) = xs"
| "jarr _ = []"

text \<open>\<open>Date.parse(x) <= now\<close>: false for a missing or unreadable date.\<close>

definition date_le :: "json option \<Rightarrow> int \<Rightarrow> bool" where
  "date_le d now \<longleftrightarrow> (case jdate d of None \<Rightarrow> False | Some t \<Rightarrow> t \<le> now)"

text \<open>The text of a field, as \<open>->>\<close> reads it: SQL NULL for a missing field and for JSON null.
  The fields the SQL reads so (status, taskId, connectionId) are written as strings only.\<close>

definition jtext :: "json \<Rightarrow> string \<Rightarrow> string option" where
  "jtext j k = jstr (jget j k)"

definition text_or_empty :: "json \<Rightarrow> string \<Rightarrow> string" where
  "text_or_empty j k = (case jtext j k of Some s \<Rightarrow> s | None \<Rightarrow> [])"

definition jid :: "json \<Rightarrow> string" where
  "jid j = (case jtext j ''id'' of Some s \<Rightarrow> s | None \<Rightarrow> [])"

definition jstatus :: "json \<Rightarrow> string option" where
  "jstatus j = jtext j ''status''"

definition is_obj :: "json \<Rightarrow> bool" where
  "is_obj j = (case j of JObj _ \<Rightarrow> True | _ \<Rightarrow> False)"

lemma is_obj_simps [simp]: "is_obj (JObj fs)"
  by (simp add: is_obj_def)

lemma jget_jset: "is_obj j \<Longrightarrow> jget (jset k v j) k' = (if k' = k then Some v else jget j k')"
  by (cases j) (auto simp: is_obj_def)

lemma is_obj_jset [simp]: "is_obj (jset k v j) = is_obj j"
  by (cases j) (auto simp: is_obj_def)

section \<open>Concatenation\<close>

definition fields_merge :: "(string \<times> json) list \<Rightarrow> (string \<times> json) list \<Rightarrow> (string \<times> json) list" where
  "fields_merge fs gs = foldl (\<lambda>acc kv. AList.update (fst kv) (snd kv) acc) fs gs"

definition jwrap :: "json \<Rightarrow> json list" where
  "jwrap j = (case j of JArr xs \<Rightarrow> xs | _ \<Rightarrow> [j])"

definition jmerge :: "json \<Rightarrow> json \<Rightarrow> json" where
  "jmerge a b = (case (a, b) of (JObj fs, JObj gs) \<Rightarrow> JObj (fields_merge fs gs)
     | _ \<Rightarrow> JArr (jwrap a @ jwrap b))"

lemma map_of_fields_merge:
  "distinct (map fst gs) \<Longrightarrow>
   map_of (fields_merge fs gs) k = (case map_of gs k of Some v \<Rightarrow> Some v | None \<Rightarrow> map_of fs k)"
proof (induction gs arbitrary: fs)
  case (Cons g gs)
  obtain k' v' where g: "g = (k', v')" by force
  have "map_of gs k' = None" using Cons.prems g by (simp add: map_of_eq_None_iff)
  then show ?case using Cons g by (auto simp: fields_merge_def split: option.splits)
qed (simp add: fields_merge_def)

lemma jmerge_obj [simp]: "jmerge (JObj fs) (JObj gs) = JObj (fields_merge fs gs)"
  by (simp add: jmerge_def)

lemma is_obj_jmerge [simp]: "is_obj a \<Longrightarrow> is_obj (jmerge a (JObj gs))"
  by (cases a) (auto simp: is_obj_def)

lemma jget_jmerge:
  "\<lbrakk> is_obj a; distinct (map fst gs) \<rbrakk> \<Longrightarrow>
   jget (jmerge a (JObj gs)) k = (case map_of gs k of Some v \<Rightarrow> Some v | None \<Rightarrow> jget a k)"
  by (cases a) (auto simp: is_obj_def map_of_fields_merge split: option.splits)

section \<open>Containment\<close>

lemma size_arr_elem: "v \<in> set b \<Longrightarrow> size v < size (JArr b)"
  by (induction b) auto

lemma size_obj_field: "kv \<in> set b \<Longrightarrow> size (snd kv) < size (JObj b)"
  by (induction b) auto

function jcontains :: "json \<Rightarrow> json \<Rightarrow> bool" where
  "jcontains (JObj a) y = (case y of
      JObj b \<Rightarrow> (\<forall>kv\<in>set b. case map_of a (fst kv) of None \<Rightarrow> False | Some w \<Rightarrow> jcontains w (snd kv))
    | _ \<Rightarrow> False)"
| "jcontains (JArr a) y = (case y of
      JArr b \<Rightarrow> (\<forall>v\<in>set b. \<exists>w\<in>set a. jcontains w v)
    | _ \<Rightarrow> False)"
| "jcontains JNull y = (y = JNull)"
| "jcontains (JBool x) y = (y = JBool x)"
| "jcontains (JNum x) y = (y = JNum x)"
| "jcontains (JStr x) y = (y = JStr x)"
| "jcontains (JDate x) y = (y = JDate x)"
  by pat_completeness auto
termination
  by (relation "measure (\<lambda>(x, y). size y)") (auto dest: size_arr_elem size_obj_field)

text \<open>A document whose objects carry each key once, at every level.\<close>

fun wf_json :: "json \<Rightarrow> bool" where
  "wf_json (JArr xs) = (\<forall>x\<in>set xs. wf_json x)"
| "wf_json (JObj fs) = (distinct (map fst fs) \<and> (\<forall>kv\<in>set fs. wf_json (snd kv)))"
| "wf_json _ = True"

lemma jcontains_refl: "wf_json j \<Longrightarrow> jcontains j j"
proof (induction j rule: wf_json.induct)
  case (2 fs)
  show ?case
  proof (simp, rule ballI)
    fix kv assume "kv \<in> set fs"
    moreover obtain k v where "kv = (k, v)" by force
    ultimately show "case map_of fs (fst kv) of None \<Rightarrow> False | Some w \<Rightarrow> jcontains w (snd kv)"
      using 2 by auto
  qed
qed auto

lemma jcontains_empty [simp]: "jcontains j (JObj []) \<longleftrightarrow> is_obj j"
  by (cases j) (auto simp: is_obj_def)

lemma jcontains_obj:
  "jcontains (JObj a) (JObj b) =
   (\<forall>kv\<in>set b. case map_of a (fst kv) of None \<Rightarrow> False | Some w \<Rightarrow> jcontains w (snd kv))"
  by simp

lemma jcontains_field:
  "\<lbrakk> jcontains j (JObj b); (k, v) \<in> set b \<rbrakk> \<Longrightarrow> \<exists>w. jget j k = Some w \<and> jcontains w v"
  by (cases j) (auto split: option.splits)

lemma jcontains_status:
  assumes "jcontains j (JObj b)" "(''status'', JStr s) \<in> set b"
  shows "jstatus j = Some s"
proof -
  obtain w where w: "jget j ''status'' = Some w" "jcontains w (JStr s)"
    using jcontains_field [OF assms] by blast
  then have "w = JStr s" by (cases w) auto
  then show ?thesis using w by (simp add: jstatus_def jtext_def)
qed

lemma jcontains_arr_superset:
  "set b \<subseteq> set a \<Longrightarrow> \<forall>x\<in>set b. wf_json x \<Longrightarrow> jcontains (JArr a) (JArr b)"
  using jcontains_refl by fastforce

section \<open>Texts, instants and objects\<close>

lemma jcontains_JStr: "jcontains w (JStr x) \<longleftrightarrow> w = JStr x"
  by (cases w) auto

lemma jcontains_JDate: "jcontains w (JDate x) \<longleftrightarrow> w = JDate x"
  by (cases w) auto

lemma jtext_Some: "jtext j k = Some x \<longleftrightarrow> jget j k = Some (JStr x)"
  by (cases "jget j k"; cases "the (jget j k)") (auto simp: jtext_def)

lemma jcontains_is_obj: "jcontains j (JObj e) \<Longrightarrow> is_obj j"
  by (cases j) (auto simp: is_obj_def)

lemma jtext_is_obj: "jtext j k = Some x \<Longrightarrow> is_obj j"
  by (cases j) (auto simp: jtext_def)

lemma jget_jset_text: "jget j k = Some (JStr x) \<Longrightarrow> jtext j k = Some x"
  by (simp add: jtext_def)

lemma jdate_Some: "jdate x = Some t \<longleftrightarrow> x = Some (JDate t)"
  by (cases x; cases "the x") auto

lemma date_le_iff: "date_le d now \<longleftrightarrow> (\<exists>t. d = Some (JDate t) \<and> t \<le> now)"
  by (auto simp: date_le_def jdate_Some split: option.splits)

lemma jcontains_fields: "jcontains j (JObj b) \<longleftrightarrow> is_obj j
   \<and> (\<forall>kv\<in>set b. case jget j (fst kv) of None \<Rightarrow> False | Some w \<Rightarrow> jcontains w (snd kv))"
  by (cases j) (auto simp: is_obj_def)

lemma jget_is_obj: "jget j k = Some v \<Longrightarrow> is_obj j"
  by (cases j) auto

end
