(* ===== verification/Records.thy ===== *)
theory Records
  imports Json
begin

text \<open>
  The \<open>Store\<close> class (apps/server/src/db.ts): one table \<open>records(owner, kind, id, data,
  updated_at)\<close> with primary key (owner, kind, id).  A table is an association list from keys
  to the row's data and its \<open>updated_at\<close>, an instant of the database clock in microseconds;
  the statements that stamp a row with \<open>now()\<close> take that instant as an argument.  Each method
  is one SQL statement, so one function of the table.  ORDER BY compares texts by character
  code and leaves ties in table order.

  The record \<open>store\<close> is the interface other components hold a \<open>Store\<close> by: the code passes
  either a \<open>Store\<close> or the \<open>TenantScopedStore\<close> wrapper of db-tenant.ts for it.
\<close>

section \<open>The table\<close>

type_synonym key = "string \<times> string \<times> string"
type_synonym row = "key \<times> json \<times> int"
type_synonym table = "row list"

abbreviation row_owner :: "row \<Rightarrow> string" where "row_owner r \<equiv> fst (fst r)"
abbreviation row_kind :: "row \<Rightarrow> string" where "row_kind r \<equiv> fst (snd (fst r))"
abbreviation row_id :: "row \<Rightarrow> string" where "row_id r \<equiv> snd (snd (fst r))"
abbreviation row_data :: "row \<Rightarrow> json" where "row_data r \<equiv> fst (snd r)"
abbreviation row_updated :: "row \<Rightarrow> int" where "row_updated r \<equiv> snd (snd r)"

definition table_ok :: "table \<Rightarrow> bool" where
  "table_ok d \<longleftrightarrow> distinct (map fst d)"

record list_options =
  lo_limit :: "nat option"
  lo_cursor :: "(int \<times> string) option"

definition no_options :: list_options where
  "no_options = \<lparr> lo_limit = None, lo_cursor = None \<rparr>"

section \<open>Single rows\<close>

definition st_get :: "string \<Rightarrow> string \<Rightarrow> string \<Rightarrow> table \<Rightarrow> json option" where
  "st_get ow k i d = map_option fst (map_of d (ow, k, i))"

definition st_put :: "int \<Rightarrow> string \<Rightarrow> string \<Rightarrow> json \<Rightarrow> table \<Rightarrow> table" where
  "st_put now ow k v d = AList.update (ow, k, jid v) (v, now) d"

definition st_remove :: "string \<Rightarrow> string \<Rightarrow> string \<Rightarrow> table \<Rightarrow> table" where
  "st_remove ow k i d = AList.delete (ow, k, i) d"

definition st_cas :: "int \<Rightarrow> string \<Rightarrow> string \<Rightarrow> string \<Rightarrow> json \<Rightarrow> json \<Rightarrow> table \<Rightarrow> json option \<times> table" where
  "st_cas now ow k i expected patch d = (case st_get ow k i d of
     None \<Rightarrow> (None, d)
   | Some j \<Rightarrow> if jcontains j expected
       then (Some (jmerge j patch), AList.update (ow, k, i) (jmerge j patch, now) d)
       else (None, d))"

definition st_insert :: "int \<Rightarrow> string \<Rightarrow> string \<Rightarrow> json \<Rightarrow> table \<Rightarrow> json option \<times> table" where
  "st_insert now ow k v d = (case st_get ow k (jid v) d of
     Some _ \<Rightarrow> (None, d)
   | None \<Rightarrow> (Some v, AList.update (ow, k, jid v) (v, now) d))"

definition st_take :: "string \<Rightarrow> string \<Rightarrow> string \<Rightarrow> table \<Rightarrow> json option \<times> table" where
  "st_take ow k i d = (st_get ow k i d, AList.delete (ow, k, i) d)"

definition update_credential :: "int \<Rightarrow> string \<Rightarrow> string \<Rightarrow> string \<Rightarrow> table \<Rightarrow> bool \<times> table" where
  "update_credential now ow connectionId secret d = (case st_get ow ''credentials'' ''google'' d of
     None \<Rightarrow> (False, d)
   | Some j \<Rightarrow> if jtext j ''connectionId'' = Some connectionId
       then (True, AList.update (ow, ''credentials'', ''google'') (jset ''secret'' (JStr secret) j, now) d)
       else (False, d))"

section \<open>Lists and scans\<close>

definition opt_take :: "nat option \<Rightarrow> 'a list \<Rightarrow> 'a list" where
  "opt_take n xs = (case n of None \<Rightarrow> xs | Some k \<Rightarrow> take k xs)"

definition after_cursor :: "(int \<times> string) option \<Rightarrow> row \<Rightarrow> bool" where
  "after_cursor c r = (case c of None \<Rightarrow> True
     | Some (u, i) \<Rightarrow> row_updated r < u \<or> (row_updated r = u \<and> row_id r > i))"

definition list_rows :: "string \<Rightarrow> string \<Rightarrow> (int \<times> string) option \<Rightarrow> table \<Rightarrow> row list" where
  "list_rows ow k c d = sort_key (\<lambda>r. (- row_updated r, row_id r))
     (filter (\<lambda>r. row_owner r = ow \<and> row_kind r = k \<and> after_cursor c r) d)"

definition st_list :: "string \<Rightarrow> string \<Rightarrow> list_options \<Rightarrow> table \<Rightarrow> json list" where
  "st_list ow k opts d = map row_data
     (take (case lo_limit opts of Some n \<Rightarrow> n | None \<Rightarrow> 1000) (list_rows ow k (lo_cursor opts) d))"

definition st_list_paged :: "string \<Rightarrow> string \<Rightarrow> list_options \<Rightarrow> table \<Rightarrow> (json \<times> int) list" where
  "st_list_paged ow k opts d =
     map (\<lambda>r. (row_data r, row_updated r)) (opt_take (lo_limit opts) (list_rows ow k (lo_cursor opts) d))"

definition st_count :: "string \<Rightarrow> string \<Rightarrow> table \<Rightarrow> nat" where
  "st_count ow k d = length (filter (\<lambda>r. row_owner r = ow \<and> row_kind r = k) d)"

definition scan_limit :: "int \<Rightarrow> nat" where
  "scan_limit limit = nat (min (max 1 limit) 50000)"

definition scan_rows :: "(row \<Rightarrow> bool) \<Rightarrow> nat \<Rightarrow> table \<Rightarrow> (string \<times> json) list" where
  "scan_rows P n d = map (\<lambda>r. (row_owner r, row_data r)) (take n (sort_key (\<lambda>r. row_updated r) (filter P d)))"

definition st_scan :: "string \<Rightarrow> int \<Rightarrow> table \<Rightarrow> (string \<times> json) list" where
  "st_scan k limit d = scan_rows (\<lambda>r. row_kind r = k) (scan_limit limit) d"

definition status_in :: "string list \<Rightarrow> row \<Rightarrow> bool" where
  "status_in statuses r = (case jstatus (row_data r) of None \<Rightarrow> False | Some s \<Rightarrow> s \<in> set statuses)"

definition st_scan_by_status :: "string \<Rightarrow> string list \<Rightarrow> nat \<Rightarrow> table \<Rightarrow> (string \<times> json) list" where
  "st_scan_by_status k statuses limit d = (if statuses = [] then []
     else scan_rows (\<lambda>r. row_kind r = k \<and> status_in statuses r) limit d)"

text \<open>The characters \<open>scanByOwnerPrefix\<close> refuses: quotes, backquote, semicolon, backslash and
  white space (the regular expression's \<open>\\s\<close>, on the 8-bit characters), and the two comment openers.\<close>

definition bad_char :: "char \<Rightarrow> bool" where
  "bad_char c \<longleftrightarrow> (of_char c :: nat) \<in> {34, 39, 96, 59, 92, 32, 9, 10, 11, 12, 13, 160}"

fun has_comment :: "string \<Rightarrow> bool" where
  "has_comment (a # b # s) =
     ((of_char a = (47 :: nat) \<and> of_char b = (42 :: nat)) \<or> (of_char a = (45 :: nat) \<and> of_char b = (45 :: nat))
      \<or> has_comment (b # s))"
| "has_comment _ = False"

definition bad_prefix :: "string \<Rightarrow> bool" where
  "bad_prefix p \<longleftrightarrow> (\<exists>c\<in>set p. bad_char c) \<or> has_comment p"

definition st_scan_by_prefix :: "string \<Rightarrow> string \<Rightarrow> int \<Rightarrow> table \<Rightarrow> (string \<times> json) list res" where
  "st_scan_by_prefix k p limit d =
     (if bad_prefix p then Inl (JsError (''Invalid owner prefix: '' @ take 40 p))
      else Inr (scan_rows (\<lambda>r. row_kind r = k \<and> str_starts p (row_owner r)) (scan_limit limit) d))"

definition st_scan_by_status_cursor ::
  "string \<Rightarrow> string list \<Rightarrow> nat \<Rightarrow> (int \<times> string) option \<Rightarrow> table \<Rightarrow> (string \<times> json \<times> int \<times> string) list" where
  "st_scan_by_status_cursor k statuses limit c d = (if statuses = [] then []
     else map (\<lambda>r. (row_owner r, row_data r, row_updated r, row_id r))
       (take limit (sort_key (\<lambda>r. (row_updated r, row_id r))
          (filter (\<lambda>r. row_kind r = k \<and> status_in statuses r
             \<and> (case c of None \<Rightarrow> True | Some ui \<Rightarrow> (row_updated r, row_id r) > ui)) d))))"

definition purge_older_than :: "int \<Rightarrow> string \<Rightarrow> nat \<Rightarrow> table \<Rightarrow> nat \<times> table" where
  "purge_older_than now k days d =
     (let old = (\<lambda>r :: row. row_kind r = k \<and> row_updated r < now - int days * 86400000000)
      in (length (filter old d), filter (\<lambda>r. \<not> old r) d))"

section \<open>Claims, recovery and transactions\<close>

text \<open>\<open>claim\<close>: the row must await review and not be expired; an execution also needs its task, when
  it names one, to be running or waiting for the approval.\<close>

definition claim_guard :: "string \<Rightarrow> string \<Rightarrow> int \<Rightarrow> json \<Rightarrow> table \<Rightarrow> bool" where
  "claim_guard ow status now j d \<longleftrightarrow>
     jstatus j = Some ''awaiting_review''
     \<and> (case jdate (jget j ''expiresAt'') of None \<Rightarrow> False | Some e \<Rightarrow> e > now)
     \<and> (status \<noteq> ''executing'' \<or>
        (case jtext j ''taskId'' of None \<Rightarrow> True
         | Some t \<Rightarrow> (case st_get ow ''tasks'' t d of None \<Rightarrow> False
             | Some task \<Rightarrow> jstatus task \<in> {Some ''running'', Some ''waiting_approval''})))"

definition st_claim :: "int \<Rightarrow> string \<Rightarrow> string \<Rightarrow> string \<Rightarrow> int \<Rightarrow> table \<Rightarrow> json option \<times> table" where
  "st_claim clock ow i status now d = (case st_get ow ''actions'' i d of
     None \<Rightarrow> (None, d)
   | Some j \<Rightarrow> if claim_guard ow status now j d
       then (let j' = jset ''status'' (JStr status) j
             in (Some j', AList.update (ow, ''actions'', i) (j', clock) d))
       else (None, d))"

definition interrupted_patch :: json where
  "interrupted_patch = JObj [(''status'', JStr ''outcome_unknown''), (''error'',
     JStr ''Server restarted during execution. Check the provider before creating another action.'')]"

definition recover_interrupted :: "table \<Rightarrow> table" where
  "recover_interrupted d = map (\<lambda>(k, j, u).
     if fst (snd k) = ''actions'' \<and> jstatus j = Some ''executing'' then (k, jmerge j interrupted_patch, u)
     else (k, j, u)) d"

text \<open>\<open>transaction\<close>: the callback gets the store again, that is the flag \<open>inTransaction\<close>; under the
  flag it runs inline, otherwise between BEGIN and COMMIT, or ROLLBACK when it throws.\<close>

definition st_transaction :: "(bool \<Rightarrow> table \<Rightarrow> 'a res \<times> table) \<Rightarrow> bool \<Rightarrow> table \<Rightarrow> 'a res \<times> table" where
  "st_transaction f in_tx d = (if in_tx then f True d
     else (case f True d of (Inr x, d') \<Rightarrow> (Inr x, d') | (Inl e, _) \<Rightarrow> (Inl e, d)))"

section \<open>Every statement keeps the primary key\<close>

lemmas table_ops = st_get_def st_put_def st_remove_def st_cas_def st_insert_def st_take_def
  update_credential_def st_claim_def

lemma table_ok_update: "table_ok d \<Longrightarrow> table_ok (AList.update k v d)"
  by (simp add: table_ok_def)

lemma table_ok_delete: "table_ok d \<Longrightarrow> table_ok (AList.delete k d)"
  by (simp add: table_ok_def)

lemma table_ok_filter: "table_ok d \<Longrightarrow> table_ok (filter P d)"
  by (simp add: table_ok_def distinct_filter_keys)

lemma keys_recover: "map fst (recover_interrupted d) = map fst d"
  by (auto simp: recover_interrupted_def)

lemma table_ok_recover: "table_ok d \<Longrightarrow> table_ok (recover_interrupted d)"
  by (simp add: table_ok_def keys_recover)

lemmas table_ok_intros = table_ok_update table_ok_delete table_ok_filter table_ok_recover

lemma table_ok_ops:
  assumes "table_ok d"
  shows "table_ok (st_put now ow k v d)" "table_ok (st_remove ow k i d)"
    "table_ok (snd (st_cas now ow k i e p d))" "table_ok (snd (st_insert now ow k v d))"
    "table_ok (snd (st_take ow k i d))" "table_ok (snd (update_credential now ow c sec d))"
    "table_ok (snd (st_claim now ow i s t d))" "table_ok (snd (purge_older_than now k n d))"
  using assms
  by (auto simp: table_ops purge_older_than_def Let_def intro!: table_ok_intros split: option.splits)

section \<open>Point lookups after each statement\<close>

lemma st_get_put: "st_get ow' k' i' (st_put now ow k v d) =
    (if ow' = ow \<and> k' = k \<and> i' = jid v then Some v else st_get ow' k' i' d)"
  by (simp add: table_ops)

lemma st_get_remove: "st_get ow' k' i' (st_remove ow k i d) =
    (if ow' = ow \<and> k' = k \<and> i' = i then None else st_get ow' k' i' d)"
  by (simp add: table_ops)

lemma st_cas_result: "fst (st_cas now ow k i e p d) =
    (case st_get ow k i d of None \<Rightarrow> None | Some j \<Rightarrow> if jcontains j e then Some (jmerge j p) else None)"
  by (simp add: table_ops split: option.splits)

lemma st_get_cas: "st_get ow' k' i' (snd (st_cas now ow k i e p d)) =
    (case fst (st_cas now ow k i e p d) of None \<Rightarrow> st_get ow' k' i' d
     | Some j' \<Rightarrow> if ow' = ow \<and> k' = k \<and> i' = i then Some j' else st_get ow' k' i' d)"
  by (simp add: table_ops split: option.splits)

lemma st_insert_result: "fst (st_insert now ow k v d) =
    (case st_get ow k (jid v) d of None \<Rightarrow> Some v | Some _ \<Rightarrow> None)"
  by (simp add: table_ops split: option.splits)

lemma st_get_insert: "st_get ow' k' i' (snd (st_insert now ow k v d)) =
    (if ow' = ow \<and> k' = k \<and> i' = jid v \<and> st_get ow k (jid v) d = None then Some v else st_get ow' k' i' d)"
  by (auto simp: table_ops split: option.splits)

lemma st_take_result: "fst (st_take ow k i d) = st_get ow k i d"
  by (simp add: table_ops)

lemma st_get_take: "st_get ow' k' i' (snd (st_take ow k i d)) =
    (if ow' = ow \<and> k' = k \<and> i' = i then None else st_get ow' k' i' d)"
  by (simp add: table_ops)

lemma st_list_row:
  assumes "j \<in> set (st_list ow k opts d)"
  shows "\<exists>i u. ((ow, k, i), j, u) \<in> set d"
proof -
  obtain r where "r \<in> set d" "row_owner r = ow" "row_kind r = k" "row_data r = j"
    using assms by (auto simp: st_list_def list_rows_def dest!: in_set_takeD)
  moreover from this have "r = ((ow, k, row_id r), j, row_updated r)" by (auto simp: prod_eq_iff)
  ultimately show ?thesis by metis
qed

section \<open>Ordering and paging\<close>

lemma filter_drop_strict:
  fixes f :: "'a \<Rightarrow> 'k::linorder"
  assumes "sorted_wrt (\<lambda>a b. f a < f b) xs" "m < length xs"
  shows "filter (\<lambda>x. f (xs ! m) < f x) xs = drop (Suc m) xs"
  using assms
proof (induction xs arbitrary: m)
  case (Cons x xs)
  show ?case
  proof (cases m)
    case 0
    have "\<forall>y\<in>set xs. f x < f y" using Cons.prems by simp
    then show ?thesis using 0 by (simp add: filter_id_conv)
  next
    case (Suc m')
    then have "f x < f (xs ! m')" using Cons.prems by simp
    then show ?thesis using Suc Cons by (simp add: not_less_iff_gr_or_eq)
  qed
qed simp

lemma sorted_strict_of_inj:
  fixes f :: "'a \<Rightarrow> 'k::linorder"
  assumes "inj_on f (set xs)" "distinct xs"
  shows "sorted_wrt (\<lambda>a b. f a < f b) (sort_key f xs)"
proof -
  have "distinct (map f (sort_key f xs))" using assms by (simp add: distinct_map)
  moreover have "sorted (map f (sort_key f xs))" by simp
  ultimately have "sorted_wrt (<) (map f (sort_key f xs))"
    by (simp add: strict_sorted_iff)
  then show ?thesis by (simp add: sorted_wrt_map)
qed

lemma page_after:
  fixes f :: "'a \<Rightarrow> 'k::linorder"
  assumes "inj_on f (set xs)" "distinct xs" "m < length xs"
  shows "filter (\<lambda>x. f (sort_key f xs ! m) < f x) (sort_key f xs) = drop (Suc m) (sort_key f xs)"
  using assms by (intro filter_drop_strict sorted_strict_of_inj) auto

lemma after_cursor_key:
  "after_cursor (Some (row_updated q, row_id q)) r \<longleftrightarrow>
   (- row_updated q, row_id q) < (- row_updated r, row_id r)"
  by (auto simp: after_cursor_def)

lemma list_rows_keys_inj:
  assumes "table_ok d"
  shows "inj_on (\<lambda>r. (- row_updated r, row_id r)) (set (filter (\<lambda>r. row_owner r = ow \<and> row_kind r = k) d))"
proof (rule inj_onI, simp)
  fix a b :: row
  assume "(a \<in> set d \<and> row_owner a = ow \<and> row_kind a = k)" "(b \<in> set d \<and> row_owner b = ow \<and> row_kind b = k)"
    "row_updated a = row_updated b \<and> row_id a = row_id b"
  then have "fst a = fst b" "a \<in> set d" "b \<in> set d" by (auto simp: prod_eq_iff)
  then show "a = b" using assms unfolding table_ok_def by (metis distinct_map inj_onD)
qed

lemma list_rows_page:
  assumes "table_ok d" "m < length (list_rows ow k None d)" "q = list_rows ow k None d ! m"
  shows "list_rows ow k (Some (row_updated q, row_id q)) d = drop (Suc m) (list_rows ow k None d)"
proof -
  let ?f = "\<lambda>r :: row. (- row_updated r, row_id r)"
  let ?xs = "filter (\<lambda>r. row_owner r = ow \<and> row_kind r = k) d"
  have all: "list_rows ow k None d = sort_key ?f ?xs"
    by (simp add: list_rows_def after_cursor_def)
  have "list_rows ow k (Some (row_updated q, row_id q)) d
      = sort_key ?f (filter (\<lambda>r. ?f q < ?f r) ?xs)"
    unfolding list_rows_def after_cursor_key by (simp add: conj_commute conj_left_commute)
  also have "\<dots> = filter (\<lambda>r. ?f q < ?f r) (sort_key ?f ?xs)"
    by (simp only: filter_sort)
  also have "\<dots> = drop (Suc m) (sort_key ?f ?xs)"
    unfolding assms(3) all using assms(1,2) all
    by (intro page_after list_rows_keys_inj) (auto simp: table_ok_def distinct_map)
  finally show ?thesis by (simp add: all)
qed

section \<open>Properties\<close>

definition sample_table :: table where
  "sample_table =
    [((''u1'', ''actions'', ''a1''), JObj [(''id'', JStr ''a1''), (''status'', JStr ''awaiting_review''),
        (''expiresAt'', JDate 500), (''taskId'', JStr ''t1'')], 10),
     ((''u1'', ''tasks'', ''t1''), JObj [(''id'', JStr ''t1''), (''status'', JStr ''running'')], 20),
     ((''u1'', ''tasks'', ''t2''), JObj [(''id'', JStr ''t2''), (''status'', JStr ''scheduled'')], 20),
     ((''u1'', ''tasks'', ''t3''), JObj [(''id'', JStr ''t3''), (''status'', JStr ''completed'')], 5)]"

text \<open>Keyset paging neither skips nor repeats a row.  When the first m + 1 rows of the full listing
  have been read, listPaged with the last row's updated_at and id as the cursor continues with
  exactly the rows that follow it, ties of updated_at included.\<close>
theorem paging_continues:
  assumes "table_ok d" "m < length (list_rows ow k None d)" "q = list_rows ow k None d ! m"
  shows "st_list_paged ow k \<lparr> lo_limit = Some n, lo_cursor = Some (row_updated q, row_id q) \<rparr> d
       = take n (drop (Suc m) (st_list_paged ow k no_options d))"
  using list_rows_page [OF assms]
  by (simp add: st_list_paged_def opt_take_def no_options_def take_map drop_map)

theorem paging_continues_witness:
  "st_list_paged ''u1'' ''tasks'' \<lparr> lo_limit = Some 2, lo_cursor = Some (20, ''t1'') \<rparr> sample_table
   = take 2 (drop 1 (st_list_paged ''u1'' ''tasks'' no_options sample_table))"
proof -
  let ?q = "((''u1'', ''tasks'', ''t1''), JObj [(''id'', JStr ''t1''), (''status'', JStr ''running'')], 20)"
  have ok: "table_ok sample_table" by code_simp
  have len: "0 < length (list_rows ''u1'' ''tasks'' None sample_table)" by code_simp
  have q: "?q = list_rows ''u1'' ''tasks'' None sample_table ! 0" by code_simp
  show ?thesis using paging_continues [OF ok len q, of 2] by simp
qed

lemma claim_gate_parts:
  assumes "st_claim clock ow i st now d = (Some j', d')"
  shows "\<exists>j e. st_get ow ''actions'' i d = Some j \<and> jstatus j = Some ''awaiting_review''
       \<and> jdate (jget j ''expiresAt'') = Some e \<and> now < e
       \<and> (st = ''executing'' \<longrightarrow> (\<forall>t. jtext j ''taskId'' = Some t \<longrightarrow>
            (\<exists>task. st_get ow ''tasks'' t d = Some task
               \<and> jstatus task \<in> {Some ''running'', Some ''waiting_approval''})))"
    and "jstatus j' = Some st \<and> st_get ow ''actions'' i d' = Some j'"
    and "st \<noteq> ''awaiting_review'' \<longrightarrow> fst (st_claim clock' ow i st' now' d') = None"
proof -
  obtain j where j: "st_get ow ''actions'' i d = Some j" "claim_guard ow st now j d"
    and j': "j' = jset ''status'' (JStr st) j" and d': "d' = AList.update (ow, ''actions'', i) (j', clock) d"
    using assms by (auto simp: st_claim_def Let_def split: option.splits if_splits)
  show "\<exists>j e. st_get ow ''actions'' i d = Some j \<and> jstatus j = Some ''awaiting_review''
       \<and> jdate (jget j ''expiresAt'') = Some e \<and> now < e
       \<and> (st = ''executing'' \<longrightarrow> (\<forall>t. jtext j ''taskId'' = Some t \<longrightarrow>
            (\<exists>task. st_get ow ''tasks'' t d = Some task
               \<and> jstatus task \<in> {Some ''running'', Some ''waiting_approval''})))"
    using j by (auto simp: claim_guard_def split: option.splits)
  have "is_obj j" using j(2) by (cases j) (auto simp: claim_guard_def jstatus_def jtext_def)
  then have st: "jstatus j' = Some st" by (simp add: j' jstatus_def jtext_def jget_jset)
  moreover have g: "st_get ow ''actions'' i d' = Some j'" by (simp add: d' st_get_def)
  ultimately show "jstatus j' = Some st \<and> st_get ow ''actions'' i d' = Some j'" by blast
  show "st \<noteq> ''awaiting_review'' \<longrightarrow> fst (st_claim clock' ow i st' now' d') = None"
    using st g by (auto simp: st_claim_def claim_guard_def)
qed

text \<open>C20: claim is a gate.  It succeeds only on an action that awaits review and has not expired (for
  an execution that names a task, only while that task is running or waiting for the approval), it
  writes the new status, and once it has moved the action on no later claim succeeds.\<close>
theorem claim_gate:
  assumes "st_claim clock ow i st now d = (Some j', d')"
  shows "(\<exists>j e. st_get ow ''actions'' i d = Some j \<and> jstatus j = Some ''awaiting_review''
       \<and> jdate (jget j ''expiresAt'') = Some e \<and> now < e
       \<and> (st = ''executing'' \<longrightarrow> (\<forall>t. jtext j ''taskId'' = Some t \<longrightarrow>
            (\<exists>task. st_get ow ''tasks'' t d = Some task
               \<and> jstatus task \<in> {Some ''running'', Some ''waiting_approval''}))))
    \<and> jstatus j' = Some st \<and> st_get ow ''actions'' i d' = Some j'
    \<and> (st \<noteq> ''awaiting_review'' \<longrightarrow> (\<forall>clock' st' now'. fst (st_claim clock' ow i st' now' d') = None))"
  using claim_gate_parts [OF assms] by simp

theorem claim_gate_witness:
  "fst (st_claim 60 ''u1'' ''a1'' ''denied'' 400
     (snd (st_claim 50 ''u1'' ''a1'' ''executing'' 400 sample_table))) = None"
proof -
  have "\<exists>j' d'. st_claim 50 ''u1'' ''a1'' ''executing'' 400 sample_table = (Some j', d')"
    by (simp add: st_claim_def claim_guard_def st_get_def sample_table_def jstatus_def jtext_def Let_def)
  then obtain j' d' where c: "st_claim 50 ''u1'' ''a1'' ''executing'' 400 sample_table = (Some j', d')"
    by blast
  show ?thesis using claim_gate [OF c] by (simp add: c)
qed

text \<open>A transaction is all or nothing.  At the outermost level a callback that throws leaves the
  table as it was and its error comes out; a callback that returns commits its table.  Started inside
  a transaction it runs inline, so what it wrote before throwing is still there for the caller.\<close>
theorem transaction_atomic:
  "st_transaction f False d = (case f True d of (Inr x, d') \<Rightarrow> (Inr x, d') | (Inl e, d') \<Rightarrow> (Inl e, d))
   \<and> st_transaction f True d = f True d
   \<and> st_transaction (\<lambda>b d. (Inr (fst (st_transaction (\<lambda>b d. (Inl e, st_put now ow k v d)) b d)),
        snd (st_transaction (\<lambda>b d. (Inl e :: unit res, st_put now ow k v d)) b d))) False d
     = (Inr (Inl e), st_put now ow k v d)"
  by (simp add: st_transaction_def)

end
