(* ===== verification/StoreContract.thy ===== *)
theory StoreContract
  imports Records
begin

text \<open>
  The \<open>Store\<close> interface as its clients hold it: the record \<open>store\<close> of the operations they
  call, and the locale \<open>record_store\<close> of the laws they rely on.  db.ts provides it directly
  (\<open>plain_store\<close>, interpreted here); db-tenant.ts provides it once more on prefixed owners
  (TenantStore).  The lemmas of the locale are about compare-and-swap and insert-if-absent as
  the two ways the code makes a write conditional.  \<open>s_raw\<close> is the table that SQL handed to
  \<open>select\<close> or \<open>rawQuery\<close> reads.
\<close>

section \<open>The interface\<close>

record 's store =
  s_get :: "string \<Rightarrow> string \<Rightarrow> string \<Rightarrow> 's \<Rightarrow> json option"
  s_put :: "int \<Rightarrow> string \<Rightarrow> string \<Rightarrow> json \<Rightarrow> 's \<Rightarrow> 's"
  s_remove :: "string \<Rightarrow> string \<Rightarrow> string \<Rightarrow> 's \<Rightarrow> 's"
  s_cas :: "int \<Rightarrow> string \<Rightarrow> string \<Rightarrow> string \<Rightarrow> json \<Rightarrow> json \<Rightarrow> 's \<Rightarrow> json option \<times> 's"
  s_insert :: "int \<Rightarrow> string \<Rightarrow> string \<Rightarrow> json \<Rightarrow> 's \<Rightarrow> json option \<times> 's"
  s_take :: "string \<Rightarrow> string \<Rightarrow> string \<Rightarrow> 's \<Rightarrow> json option \<times> 's"
  s_list :: "string \<Rightarrow> string \<Rightarrow> list_options \<Rightarrow> 's \<Rightarrow> json list"
  s_list_paged :: "string \<Rightarrow> string \<Rightarrow> list_options \<Rightarrow> 's \<Rightarrow> (json \<times> int) list"
  s_count :: "string \<Rightarrow> string \<Rightarrow> 's \<Rightarrow> nat"
  s_claim :: "int \<Rightarrow> string \<Rightarrow> string \<Rightarrow> string \<Rightarrow> int \<Rightarrow> 's \<Rightarrow> json option \<times> 's"
  s_raw :: "'s \<Rightarrow> table"

definition plain_store :: "table store" where
  "plain_store = \<lparr> s_get = st_get, s_put = st_put, s_remove = st_remove, s_cas = st_cas,
     s_insert = st_insert, s_take = st_take, s_list = st_list, s_list_paged = st_list_paged,
     s_count = st_count, s_claim = st_claim, s_raw = \<lambda>d. d \<rparr>"

lemma plain_store_sel [simp]:
  "s_get plain_store = st_get" "s_put plain_store = st_put" "s_remove plain_store = st_remove"
  "s_cas plain_store = st_cas" "s_insert plain_store = st_insert" "s_take plain_store = st_take"
  "s_list plain_store = st_list" "s_list_paged plain_store = st_list_paged"
  "s_count plain_store = st_count" "s_claim plain_store = st_claim" "s_raw plain_store d = d"
  by (simp_all add: plain_store_def)

section \<open>The laws\<close>

locale record_store =
  fixes S :: "'s store"
  assumes get_put: "s_get S ow' k' i' (s_put S now ow k v s) =
      (if ow' = ow \<and> k' = k \<and> i' = jid v then Some v else s_get S ow' k' i' s)"
    and get_remove: "s_get S ow' k' i' (s_remove S ow k i s) =
      (if ow' = ow \<and> k' = k \<and> i' = i then None else s_get S ow' k' i' s)"
    and cas_result: "fst (s_cas S now ow k i e p s) = (case s_get S ow k i s of None \<Rightarrow> None
      | Some j \<Rightarrow> if jcontains j e then Some (jmerge j p) else None)"
    and get_cas: "s_get S ow' k' i' (snd (s_cas S now ow k i e p s)) =
      (case fst (s_cas S now ow k i e p s) of None \<Rightarrow> s_get S ow' k' i' s
       | Some j' \<Rightarrow> if ow' = ow \<and> k' = k \<and> i' = i then Some j' else s_get S ow' k' i' s)"
    and insert_result: "fst (s_insert S now ow k v s) =
      (case s_get S ow k (jid v) s of None \<Rightarrow> Some v | Some _ \<Rightarrow> None)"
    and get_insert: "s_get S ow' k' i' (snd (s_insert S now ow k v s)) =
      (if ow' = ow \<and> k' = k \<and> i' = jid v \<and> s_get S ow k (jid v) s = None then Some v
       else s_get S ow' k' i' s)"
    and take_result: "fst (s_take S ow k i s) = s_get S ow k i s"
    and get_take: "s_get S ow' k' i' (snd (s_take S ow k i s)) =
      (if ow' = ow \<and> k' = k \<and> i' = i then None else s_get S ow' k' i' s)"
begin

lemmas reads = get_put get_remove get_cas get_insert get_take

lemma cas_SomeD:
  assumes "fst (s_cas S now ow k i e p s) = Some j'"
  obtains j where "s_get S ow k i s = Some j" "jcontains j e" "j' = jmerge j p"
  using assms by (auto simp: cas_result split: option.splits if_splits)

lemma cas_SomeI:
  "\<lbrakk> s_get S ow k i s = Some j; jcontains j e \<rbrakk> \<Longrightarrow> fst (s_cas S now ow k i e p s) = Some (jmerge j p)"
  by (simp add: cas_result)

lemma cas_get_own:
  "fst (s_cas S now ow k i e p s) = Some j' \<Longrightarrow> s_get S ow k i (snd (s_cas S now ow k i e p s)) = Some j'"
  by (simp add: get_cas)

lemma cas_NoneD:
  "fst (s_cas S now ow k i e p s) = None \<Longrightarrow>
   s_get S ow' k' i' (snd (s_cas S now ow k i e p s)) = s_get S ow' k' i' s"
  by (simp add: get_cas)

lemma cas_frame:
  "(ow', k', i') \<noteq> (ow, k, i) \<Longrightarrow>
   s_get S ow' k' i' (snd (s_cas S now ow k i e p s)) = s_get S ow' k' i' s"
  by (auto simp: get_cas split: option.splits)

text \<open>Two conditional updates that expect the same value of a field that the first one changes:
  the second fails.\<close>

lemma cas_once:
  assumes "fst (s_cas S now ow k i (JObj e) (JObj p) s) = Some j'"
    and "is_obj j'" "distinct (map fst p)" "map_of p f = Some new" "(f, old) \<in> set e" "\<not> jcontains new old"
  shows "fst (s_cas S now' ow k i (JObj e) q (snd (s_cas S now ow k i (JObj e) (JObj p) s))) = None"
proof -
  obtain j where j: "s_get S ow k i s = Some j" "jcontains j (JObj e)" "j' = jmerge j (JObj p)"
    using assms(1) by (rule cas_SomeD)
  have "is_obj j" using j(2) by (cases j) (auto simp: is_obj_def)
  then have "jget j' f = Some new" using j assms by (simp add: jget_jmerge)
  then have "\<not> jcontains j' (JObj e)" using jcontains_field [of j' e f old] assms by auto
  then show ?thesis using cas_get_own [OF assms(1)] by (simp add: cas_result)
qed

text \<open>Of two inserts of the same id exactly the first one writes, and its value stays.\<close>

lemma insert_once:
  assumes "fst (s_insert S now ow k v s) = Some v'" and "jid w = jid v"
  shows "v' = v \<and> fst (s_insert S now' ow k w (snd (s_insert S now ow k v s))) = None
     \<and> s_get S ow k (jid v) (snd (s_insert S now' ow k w (snd (s_insert S now ow k v s)))) = Some v"
  using assms by (auto simp: insert_result get_insert split: option.splits)

lemma insert_present: "s_get S ow k (jid v) s = Some w \<Longrightarrow>
   fst (s_insert S now ow k v s) = None \<and> s_get S ow' k' i' (snd (s_insert S now ow k v s)) = s_get S ow' k' i' s"
  by (simp add: insert_result get_insert)

lemma take_once: "s_get S ow k i (snd (s_take S ow k i s)) = None"
  by (simp add: get_take)

end

interpretation ps: record_store plain_store
  by unfold_locales (simp_all add: st_get_put st_get_remove st_cas_result st_get_cas
      st_insert_result st_get_insert st_take_result st_get_take cong: option.case_cong if_cong)

end
