(* ===== verification/TenantStore.thy ===== *)
theory TenantStore
  imports StoreContract
begin

text \<open>
  \<open>TenantScopedStore\<close> (apps/server/src/db-tenant.ts): every owner is written as
  \<open>tenant:owner\<close>, where the tenant is what the resolver gives for the owner (app.ts: the
  tenant of the request's scope, else the owner's membership), and every tenant resolved is
  remembered in \<open>tenantPrefixes\<close>, which the scans iterate over.

  \<open>scoped_store res\<close> is the wrapper as a \<open>store\<close>; its reads leave out the registration of the
  prefix, which \<open>ts_read\<close> states.  It is interpreted as a \<open>record_store\<close> for every resolver,
  so what is proved of a client once holds on both stores.
\<close>

section \<open>Keys\<close>

record tstate =
  t_table :: table
  t_prefixes :: "string list"

definition colon :: char where "colon = CHR '':''"

definition compose :: "string \<Rightarrow> string \<Rightarrow> string" where
  "compose tenant ow = tenant @ colon # ow"

definition peel :: "string \<Rightarrow> string" where
  "peel s = (case dropWhile (\<lambda>c. c \<noteq> colon) s of [] \<Rightarrow> s | _ # rest \<Rightarrow> rest)"

definition tenant_of_key :: "string \<Rightarrow> string option" where
  "tenant_of_key s = (let t = takeWhile (\<lambda>c. c \<noteq> colon) s
     in if t \<noteq> [] \<and> t \<noteq> s then Some t else None)"

definition ts_key :: "(string \<Rightarrow> string) \<Rightarrow> string \<Rightarrow> tstate \<Rightarrow> string \<times> tstate" where
  "ts_key res ow s = (compose (res ow) ow,
     s\<lparr> t_prefixes := (if res ow \<in> set (t_prefixes s) then t_prefixes s else t_prefixes s @ [res ow]) \<rparr>)"

section \<open>Delegated operations\<close>

definition ts_read :: "(string \<Rightarrow> table \<Rightarrow> 'a) \<Rightarrow> (string \<Rightarrow> string) \<Rightarrow> string \<Rightarrow> tstate \<Rightarrow> 'a \<times> tstate" where
  "ts_read f res ow s = (let (key, s') = ts_key res ow s in (f key (t_table s'), s'))"

definition ts_write :: "(string \<Rightarrow> table \<Rightarrow> 'a \<times> table) \<Rightarrow> (string \<Rightarrow> string) \<Rightarrow> string \<Rightarrow> tstate \<Rightarrow> 'a \<times> tstate" where
  "ts_write f res ow s = (let (key, s') = ts_key res ow s;
       (r, d) = f key (t_table s')
     in (r, s'\<lparr> t_table := d \<rparr>))"

definition scoped_store :: "(string \<Rightarrow> string) \<Rightarrow> tstate store" where
  "scoped_store res = \<lparr>
     s_get = \<lambda>ow k i s. fst (ts_read (\<lambda>key. st_get key k i) res ow s),
     s_put = \<lambda>now ow k v s. snd (ts_write (\<lambda>key d. ((), st_put now key k v d)) res ow s),
     s_remove = \<lambda>ow k i s. snd (ts_write (\<lambda>key d. ((), st_remove key k i d)) res ow s),
     s_cas = \<lambda>now ow k i e p. ts_write (\<lambda>key. st_cas now key k i e p) res ow,
     s_insert = \<lambda>now ow k v. ts_write (\<lambda>key. st_insert now key k v) res ow,
     s_take = \<lambda>ow k i. ts_write (\<lambda>key. st_take key k i) res ow,
     s_list = \<lambda>ow k opts s. fst (ts_read (\<lambda>key. st_list key k opts) res ow s),
     s_list_paged = \<lambda>ow k opts s. fst (ts_read (\<lambda>key. st_list_paged key k opts) res ow s),
     s_count = \<lambda>ow k s. fst (ts_read (\<lambda>key. st_count key k) res ow s),
     s_claim = \<lambda>clock ow i status now. ts_write (\<lambda>key. st_claim clock key i status now) res ow,
     s_raw = t_table \<rparr>"

definition ts_update_credential ::
  "(string \<Rightarrow> string) \<Rightarrow> int \<Rightarrow> string \<Rightarrow> string \<Rightarrow> string \<Rightarrow> tstate \<Rightarrow> bool \<times> tstate" where
  "ts_update_credential res now ow c secret = ts_write (\<lambda>key. update_credential now key c secret) res ow"

section \<open>Scans\<close>

definition peel_row :: "string \<times> json \<Rightarrow> string \<times> json" where
  "peel_row r = (peel (fst r), snd r)"

definition ts_scan_by_prefix :: "string \<Rightarrow> string \<Rightarrow> int \<Rightarrow> tstate \<Rightarrow> (string \<times> json) list res" where
  "ts_scan_by_prefix k tenant limit s =
     map_sum id (map peel_row) (st_scan_by_prefix k (tenant @ [colon]) limit (t_table s))"

text \<open>The rows of every prefix one after the other; the first prefix the store rejects makes the
  whole loop throw.\<close>

fun scan_prefixes :: "string \<Rightarrow> int \<Rightarrow> tstate \<Rightarrow> string list \<Rightarrow> (string \<times> json) list res" where
  "scan_prefixes k limit s [] = Inr []"
| "scan_prefixes k limit s (p # ps) = (case ts_scan_by_prefix k p limit s of
     Inl e \<Rightarrow> Inl e
   | Inr rows \<Rightarrow> map_sum id (\<lambda>more. rows @ more) (scan_prefixes k limit s ps))"

definition ts_scan :: "string \<Rightarrow> nat \<Rightarrow> tstate \<Rightarrow> (string \<times> json) list" where
  "ts_scan k limit s = (let fallback = map peel_row (st_scan k (int limit) (t_table s))
     in if t_prefixes s = [] then fallback
        else (case scan_prefixes k (int limit) s (t_prefixes s) of
          Inr out \<Rightarrow> take limit out | Inl _ \<Rightarrow> fallback))"

definition has_status :: "string list \<Rightarrow> json \<Rightarrow> bool" where
  "has_status statuses j = (case jstatus j of None \<Rightarrow> False | Some st \<Rightarrow> st \<noteq> [] \<and> st \<in> set statuses)"

fun prefix_loop :: "(string \<times> json \<Rightarrow> bool) \<Rightarrow> string \<Rightarrow> nat \<Rightarrow> tstate \<Rightarrow> string list
    \<Rightarrow> (string \<times> string \<times> json) list \<Rightarrow> (string \<times> string \<times> json) list res" where
  "prefix_loop P k limit s [] out = Inr out"
| "prefix_loop P k limit s (p # ps) out = (case ts_scan_by_prefix k p (int limit) s of
     Inl e \<Rightarrow> Inl e
   | Inr rows \<Rightarrow> (let out' = out @ map (\<lambda>r. (p, r)) (filter P rows)
       in if length out' \<ge> limit then Inr out' else prefix_loop P k limit s ps out'))"

definition ts_scan_by_status :: "string \<Rightarrow> string list \<Rightarrow> nat \<Rightarrow> tstate \<Rightarrow> (string \<times> json) list res" where
  "ts_scan_by_status k statuses limit s = (if t_prefixes s = []
     then Inr (map peel_row (st_scan_by_status k statuses limit (t_table s)))
     else map_sum id (\<lambda>out. take limit (map snd out))
       (prefix_loop (\<lambda>r. has_status statuses (snd r)) k limit s (t_prefixes s) []))"

definition scan_unscoped :: "string \<Rightarrow> string list \<Rightarrow> nat \<Rightarrow> tstate \<Rightarrow> (string option \<times> string \<times> json) list" where
  "scan_unscoped k statuses limit s = take limit
     (map (\<lambda>r. (tenant_of_key (fst r), peel_row r))
        (filter (\<lambda>r. has_status statuses (snd r)) (st_scan k (int limit) (t_table s))))"

definition ts_scan_by_status_tenant ::
  "string \<Rightarrow> string list \<Rightarrow> nat \<Rightarrow> tstate \<Rightarrow> (string option \<times> string \<times> json) list res" where
  "ts_scan_by_status_tenant k statuses limit s = (if t_prefixes s = []
     then Inr (scan_unscoped k statuses limit s)
     else map_sum id (\<lambda>out. if out \<noteq> [] then take limit (map (\<lambda>(t, r). (Some t, r)) out)
                            else scan_unscoped k statuses limit s)
       (prefix_loop (\<lambda>r. has_status statuses (snd r)) k limit s (t_prefixes s) []))"

definition ts_scan_by_status_cursor ::
  "string \<Rightarrow> string list \<Rightarrow> nat \<Rightarrow> (int \<times> string) option \<Rightarrow> tstate \<Rightarrow> (string \<times> json \<times> int \<times> string) list" where
  "ts_scan_by_status_cursor k statuses limit c s =
     map (\<lambda>r. (peel (fst r), snd r))
       (filter (\<lambda>r. t_prefixes s = [] \<or> (\<exists>p\<in>set (t_prefixes s). str_starts (p @ [colon]) (fst r)))
          (st_scan_by_status_cursor k statuses limit c (t_table s)))"

definition ts_purge :: "int \<Rightarrow> string \<Rightarrow> nat \<Rightarrow> tstate \<Rightarrow> nat \<times> tstate" where
  "ts_purge now k days s = (let (n, d) = purge_older_than now k days (t_table s) in (n, s\<lparr> t_table := d \<rparr>))"

definition ts_recover :: "tstate \<Rightarrow> tstate" where
  "ts_recover s = s\<lparr> t_table := recover_interrupted (t_table s) \<rparr>"

section \<open>Round trip of the composed key\<close>

lemma peel_compose: "colon \<notin> set t \<Longrightarrow> peel (compose t ow) = ow"
proof -
  assume "colon \<notin> set t"
  then have "dropWhile (\<lambda>c. c \<noteq> colon) (t @ colon # ow) = colon # ow"
    by (subst dropWhile_append2) auto
  then show ?thesis by (simp add: peel_def compose_def)
qed

lemma tenant_of_key_compose:
  assumes "colon \<notin> set t" "t \<noteq> []"
  shows "tenant_of_key (compose t ow) = Some t"
proof -
  have "takeWhile (\<lambda>c. c \<noteq> colon) (t @ colon # ow) = t"
    using assms by (subst takeWhile_append2) auto
  then show ?thesis using assms by (simp add: tenant_of_key_def compose_def Let_def)
qed

lemma compose_inj_tenant:
  "\<lbrakk> colon \<notin> set t; colon \<notin> set t'; compose t ow = compose t' ow' \<rbrakk> \<Longrightarrow> t = t' \<and> ow = ow'"
  unfolding compose_def by (rule append_Cons_inj)

lemma compose_inj_owner [simp]: "compose t ow = compose t ow' \<longleftrightarrow> ow = ow'"
  by (simp add: compose_def)

section \<open>The wrapper is a store again\<close>

lemma ts_key_sel [simp]:
  "fst (ts_key res ow s) = compose (res ow) ow" "t_table (snd (ts_key res ow s)) = t_table s"
  by (simp_all add: ts_key_def)

lemma ts_read_value [simp]: "fst (ts_read f res ow s) = f (compose (res ow) ow) (t_table s)"
  by (simp add: ts_read_def ts_key_def)

lemma ts_write_value [simp]: "fst (ts_write f res ow s) = fst (f (compose (res ow) ow) (t_table s))"
  by (simp add: ts_write_def ts_key_def split: prod.splits)

lemma ts_write_table [simp]: "t_table (snd (ts_write f res ow s)) = snd (f (compose (res ow) ow) (t_table s))"
  by (simp add: ts_write_def ts_key_def split: prod.splits)

lemma scoped_store_sel [simp]:
  "s_get (scoped_store res) ow k i s = st_get (compose (res ow) ow) k i (t_table s)"
  "s_put (scoped_store res) now ow k v s = snd (ts_write (\<lambda>key d. ((), st_put now key k v d)) res ow s)"
  "s_remove (scoped_store res) ow k i s = snd (ts_write (\<lambda>key d. ((), st_remove key k i d)) res ow s)"
  "s_cas (scoped_store res) now ow k i e p s = ts_write (\<lambda>key. st_cas now key k i e p) res ow s"
  "s_insert (scoped_store res) now ow k v s = ts_write (\<lambda>key. st_insert now key k v) res ow s"
  "s_take (scoped_store res) ow k i s = ts_write (\<lambda>key. st_take key k i) res ow s"
  "s_list (scoped_store res) ow k opts s = st_list (compose (res ow) ow) k opts (t_table s)"
  "s_list_paged (scoped_store res) ow k opts s = st_list_paged (compose (res ow) ow) k opts (t_table s)"
  "s_count (scoped_store res) ow k s = st_count (compose (res ow) ow) k (t_table s)"
  "s_claim (scoped_store res) clock ow i st now s = ts_write (\<lambda>key. st_claim clock key i st now) res ow s"
  "s_raw (scoped_store res) s = t_table s"
  by (simp_all add: scoped_store_def)

definition good_resolver :: "(string \<Rightarrow> string) \<Rightarrow> bool" where
  "good_resolver res \<longleftrightarrow> (\<forall>ow ow'. compose (res ow') ow' = compose (res ow) ow \<longrightarrow> ow' = ow)"

lemma good_resolver_no_colon: "(\<And>ow. colon \<notin> set (res ow)) \<Longrightarrow> good_resolver res"
  unfolding good_resolver_def by (metis compose_inj_tenant)

lemma compose_res_inj:
  "good_resolver res \<Longrightarrow> compose (res ow') ow' = compose (res ow) ow \<longleftrightarrow> ow' = ow"
  unfolding good_resolver_def by blast

locale scoped =
  fixes res :: "string \<Rightarrow> string"
  assumes good: "good_resolver res"

sublocale scoped \<subseteq> record_store "scoped_store res"
  using good
  by unfold_locales (simp_all add: compose_res_inj st_get_put st_get_remove st_cas_result st_get_cas
      st_insert_result st_get_insert st_take_result st_get_take cong: option.case_cong if_cong)

text \<open>app.ts: the request's scope decides, without one the owner's membership.  Inside a scope the
  resolver is constant, so the store of a request satisfies the contract whatever the tenant is.\<close>

definition request_resolver :: "string option \<Rightarrow> (string \<Rightarrow> string) \<Rightarrow> string \<Rightarrow> string" where
  "request_resolver scope member ow = (case scope of Some t \<Rightarrow> t | None \<Rightarrow> member ow)"

interpretation rt: scoped "request_resolver (Some t) member" for t member
  by unfold_locales (simp add: good_resolver_def request_resolver_def)

section \<open>What a tenant sees\<close>

definition tenant_view :: "string \<Rightarrow> table \<Rightarrow> table" where
  "tenant_view t d = filter (\<lambda>r. str_starts (t @ [colon]) (row_owner r)) d"

lemma filter_update_other: "\<not> P k \<Longrightarrow> filter (\<lambda>r. P (fst r)) (AList.update k v m) = filter (\<lambda>r. P (fst r)) m"
  by (induction m) auto

lemma filter_delete_other: "\<not> P k \<Longrightarrow> filter (\<lambda>r. P (fst r)) (AList.delete k m) = filter (\<lambda>r. P (fst r)) m"
  by (auto simp: AList.delete_eq intro!: filter_cong)

lemma starts_compose:
  "\<lbrakk> colon \<notin> set t; colon \<notin> set t' \<rbrakk> \<Longrightarrow> str_starts (t @ [colon]) (compose t' ow) \<longleftrightarrow> t = t'"
  by (auto simp: str_starts_iff compose_def dest: append_Cons_inj)

lemma tenant_view_update:
  "\<lbrakk> colon \<notin> set t; colon \<notin> set t'; t \<noteq> t' \<rbrakk> \<Longrightarrow>
   tenant_view t (AList.update (compose t' ow, k, i) v d) = tenant_view t d"
  unfolding tenant_view_def
  using filter_update_other [of "\<lambda>key. str_starts (t @ [colon]) (fst key)" "(compose t' ow, k, i)" v d]
  by (simp add: starts_compose)

lemma tenant_view_delete:
  "\<lbrakk> colon \<notin> set t; colon \<notin> set t'; t \<noteq> t' \<rbrakk> \<Longrightarrow>
   tenant_view t (AList.delete (compose t' ow, k, i) d) = tenant_view t d"
  unfolding tenant_view_def
  using filter_delete_other [of "\<lambda>key. str_starts (t @ [colon]) (fst key)" "(compose t' ow, k, i)" d]
  by (simp add: starts_compose)

lemma scan_prefix_rows: "scan_prefixes k limit s [p] = ts_scan_by_prefix k p limit s"
  by (cases "ts_scan_by_prefix k p limit s") auto

section \<open>Properties\<close>

definition sample_tenants :: tstate where
  "sample_tenants = \<lparr> t_table =
    [((''acme:u1'', ''tasks'', ''t0''), JObj [(''id'', JStr ''t0''), (''status'', JStr ''completed'')], 1),
     ((''acme:u1'', ''tasks'', ''t1''), JObj [(''id'', JStr ''t1''), (''status'', JStr ''scheduled'')], 2),
     ((''beta:u1'', ''tasks'', ''t1''), JObj [(''id'', JStr ''t1''), (''status'', JStr ''running'')], 3)],
    t_prefixes = [''acme''] \<rparr>"

lemma view_purge: "tenant_view t (snd (purge_older_than now k days d)) = snd (purge_older_than now k days (tenant_view t d))"
  by (simp add: purge_older_than_def tenant_view_def Let_def conj_commute)

lemma view_recover: "tenant_view t (recover_interrupted d) = recover_interrupted (tenant_view t d)"
  by (induction d) (auto simp: recover_interrupted_def tenant_view_def split: if_splits)

lemma view_get: "st_get (compose t ow) k i (tenant_view t d) = st_get (compose t ow) k i d"
  by (induction d) (auto simp: st_get_def tenant_view_def str_starts_iff compose_def)

lemma view_rows: "filter (\<lambda>r. row_owner r = compose t ow \<and> P r) (tenant_view t d) = filter (\<lambda>r. row_owner r = compose t ow \<and> P r) d"
  by (auto simp: tenant_view_def str_starts_iff compose_def intro!: filter_cong)

lemma view_list:
  "st_list (compose t ow) k opts (tenant_view t d) = st_list (compose t ow) k opts d"
  "st_list_paged (compose t ow) k opts (tenant_view t d) = st_list_paged (compose t ow) k opts d"
  "st_count (compose t ow) k (tenant_view t d) = st_count (compose t ow) k d"
  by (simp_all add: st_list_def st_list_paged_def st_count_def list_rows_def view_rows)

text \<open>C18: tenants are isolated in every operation that names an owner.  For tenant ids without a colon, no write
  made through the scoped store of one tenant that names an owner (put, remove, compareAndSwap, insertIfAbsent, take,
  claim, updateCredential) changes any row that another tenant can read, whatever owner, kind and id it
  names, and what a tenant reads (get, list, listPaged, count) depends on its own rows only.  The two maintenance
  writes name no owner and are not confined: purgeOlderThan and recoverInterruptedActions act on the rows
  of every tenant by the same rule.\<close>
theorem tenant_isolation:
  assumes "colon \<notin> set t" "colon \<notin> set t'" "t \<noteq> t'"
    and "S = scoped_store (request_resolver (Some t') member)" "R = scoped_store (request_resolver (Some t) member')"
    and "own = s\<lparr> t_table := tenant_view t (t_table s) \<rparr>"
  shows "tenant_view t (t_table (s_put S now ow k v s)) = tenant_view t (t_table s)
   \<and> tenant_view t (t_table (s_remove S ow k i s)) = tenant_view t (t_table s)
   \<and> tenant_view t (t_table (snd (s_cas S now ow k i e p s))) = tenant_view t (t_table s)
   \<and> tenant_view t (t_table (snd (s_insert S now ow k v s))) = tenant_view t (t_table s)
   \<and> tenant_view t (t_table (snd (s_take S ow k i s))) = tenant_view t (t_table s)
   \<and> tenant_view t (t_table (snd (s_claim S clock ow i st now s))) = tenant_view t (t_table s)
   \<and> tenant_view t (t_table (snd (ts_update_credential (request_resolver (Some t') member) now ow c sec s)))
       = tenant_view t (t_table s)
   \<and> s_get R ow k i s = s_get R ow k i own \<and> s_list R ow k opts s = s_list R ow k opts own
   \<and> s_list_paged R ow k opts s = s_list_paged R ow k opts own \<and> s_count R ow k s = s_count R ow k own
   \<and> tenant_view t (t_table (snd (ts_purge now k days s))) = snd (purge_older_than now k days (tenant_view t (t_table s)))
   \<and> tenant_view t (t_table (ts_recover s)) = recover_interrupted (tenant_view t (t_table s))"
proof -
  note no = assms(1-3)
  have reads: "s_get R ow k i s = s_get R ow k i own" "s_list R ow k opts s = s_list R ow k opts own"
      "s_list_paged R ow k opts s = s_list_paged R ow k opts own" "s_count R ow k s = s_count R ow k own"
    by (simp_all add: assms(5,6) request_resolver_def view_get view_list)
  have purge: "tenant_view t (t_table (snd (ts_purge now k days s))) = snd (purge_older_than now k days (tenant_view t (t_table s)))"
    using view_purge [of t now k days "t_table s"] by (cases "purge_older_than now k days (t_table s)") (simp add: ts_purge_def)
  have recover: "tenant_view t (t_table (ts_recover s)) = recover_interrupted (tenant_view t (t_table s))"
    by (simp add: ts_recover_def view_recover)
  show ?thesis
    by (intro conjI reads purge recover)
      (simp_all add: assms(4) ts_update_credential_def request_resolver_def table_ops tenant_view_update [OF no]
        tenant_view_delete [OF no] Let_def split: option.splits)
qed

theorem tenant_isolation_witness:
  "tenant_view ''beta'' (t_table (s_remove (scoped_store (request_resolver (Some ''acme'') id)) ''u1'' ''tasks'' ''t1'' sample_tenants))
   = tenant_view ''beta'' (t_table sample_tenants)"
  using tenant_isolation [OF _ _ _ refl refl refl, of "''beta''" "''acme''"] by (simp add: colon_def)

text \<open>The status scan of the scoped store can miss rows.  It reads the oldest \<open>limit\<close> rows of the
  kind under the prefix and filters the status afterwards, so when those rows all have another status it
  returns nothing, however many rows with the wanted status come after them.\<close>
theorem scan_by_status_starves:
  assumes "t_prefixes s = [p]" "\<not> bad_prefix (p @ [colon])" "1 \<le> limit" "limit \<le> 50000"
    and "\<forall>r \<in> set (take limit (sort_key (\<lambda>r. row_updated r)
            (filter (\<lambda>r. row_kind r = k \<and> str_starts (p @ [colon]) (row_owner r)) (t_table s)))).
          \<not> has_status statuses (row_data r)"
  shows "ts_scan_by_status k statuses limit s = Inr []"
proof -
  have lim: "scan_limit (int limit) = limit" using assms by (simp add: scan_limit_def)
  show ?thesis using assms(1,2,5)
    by (auto simp: ts_scan_by_status_def ts_scan_by_prefix_def st_scan_by_prefix_def scan_rows_def lim
        peel_row_def filter_empty_conv Let_def)
qed

theorem scan_by_status_starves_witness:
  "ts_scan_by_status ''tasks'' [''scheduled''] 1 sample_tenants = Inr []
   \<and> st_get ''acme:u1'' ''tasks'' ''t1'' (t_table sample_tenants)
       = Some (JObj [(''id'', JStr ''t1''), (''status'', JStr ''scheduled'')])"
proof -
  have "\<not> bad_prefix (''acme'' @ [colon])" by (simp add: bad_prefix_def bad_char_def colon_def)
  then have "ts_scan_by_status ''tasks'' [''scheduled''] 1 sample_tenants = Inr []"
    by (intro scan_by_status_starves)
      (auto simp: sample_tenants_def has_status_def jstatus_def jtext_def str_starts_def colon_def)
  then show ?thesis by (simp add: sample_tenants_def st_get_def)
qed

end
