(* ===== verification/StateMachine.thy ===== *)
theory StateMachine
  imports TenantStore
begin

text \<open>
  Declared state machines of entities (apps/server/src/engine/policy/state-machine.ts), their
  registry per owner (engine/state-machines.ts), the allowlist of a role
  (engine/policy/engine.ts) and the table of task status transitions
  (packages/domain/src/agent.ts).  What an operation emits on the bus is the list of events in
  its result, empty when it was built without a bus.
\<close>

section \<open>Machines\<close>

record transition =
  tr_from :: string
  tr_to :: string
  tr_action :: string
  tr_role :: "string option"

record machine =
  sm_id :: string
  sm_entity :: string
  sm_initial :: string
  sm_states :: "string list"
  sm_transitions :: "transition list"

definition len_ok :: "nat \<Rightarrow> nat \<Rightarrow> 'a list \<Rightarrow> bool" where
  "len_ok lo hi s \<longleftrightarrow> lo \<le> length s \<and> length s \<le> hi"

definition transition_schema :: "transition \<Rightarrow> bool" where
  "transition_schema t \<longleftrightarrow> len_ok 1 100 (tr_from t) \<and> len_ok 1 100 (tr_to t) \<and> len_ok 1 100 (tr_action t)
     \<and> (case tr_role t of None \<Rightarrow> True | Some r \<Rightarrow> length r \<le> 100)"

definition machine_schema :: "machine \<Rightarrow> bool" where
  "machine_schema m \<longleftrightarrow> len_ok 1 100 (sm_id m) \<and> len_ok 1 100 (sm_entity m) \<and> len_ok 1 100 (sm_initial m)
     \<and> len_ok 1 100 (sm_states m) \<and> (\<forall>s\<in>set (sm_states m). len_ok 1 100 s)
     \<and> length (sm_transitions m) \<le> 500 \<and> (\<forall>t\<in>set (sm_transitions m). transition_schema t)
     \<and> sm_initial m \<in> set (sm_states m)
     \<and> (\<forall>t\<in>set (sm_transitions m). tr_from t \<in> set (sm_states m) \<and> tr_to t \<in> set (sm_states m))"

record provider =
  ep_status :: "string \<Rightarrow> string \<Rightarrow> string option"
  ep_type :: "(string \<Rightarrow> string \<Rightarrow> string option) option"

datatype sm_event =
    TransitionDenied string string string string string
  | StateChanged string string string string

datatype tr_result = TrResult string string string

section \<open>A transition\<close>

definition type_mismatch :: "provider option \<Rightarrow> machine \<Rightarrow> string \<Rightarrow> string \<Rightarrow> string option" where
  "type_mismatch entities m owner e = (case entities of None \<Rightarrow> None
     | Some p \<Rightarrow> (case ep_type p of None \<Rightarrow> None
       | Some getType \<Rightarrow> if sm_entity m = [] then None
           else (case getType owner e of None \<Rightarrow> None
             | Some ty \<Rightarrow> if ty \<noteq> sm_entity m then Some ty else None)))"

definition status_mismatch :: "provider option \<Rightarrow> string \<Rightarrow> string \<Rightarrow> string \<Rightarrow> string option" where
  "status_mismatch entities owner e from = (case entities of None \<Rightarrow> None
     | Some p \<Rightarrow> (case ep_status p owner e of None \<Rightarrow> None
       | Some st \<Rightarrow> if st \<noteq> from then Some st else None))"

definition find_transition :: "machine \<Rightarrow> string \<Rightarrow> string \<Rightarrow> transition option" where
  "find_transition m from to = find (\<lambda>t. tr_from t = from \<and> tr_to t = to) (sm_transitions m)"

definition role_blocked :: "transition \<Rightarrow> string option \<Rightarrow> bool" where
  "role_blocked t role \<longleftrightarrow> (case tr_role t of None \<Rightarrow> False | Some r \<Rightarrow> r \<noteq> [] \<and> Some r \<noteq> role)"

definition sm_transition :: "bool \<Rightarrow> provider option \<Rightarrow> string \<Rightarrow> machine \<Rightarrow> string \<Rightarrow> string \<Rightarrow> string \<Rightarrow> string option
    \<Rightarrow> tr_result res \<times> sm_event list" where
  "sm_transition bus entities owner m e from to role =
     (let emit = (\<lambda>ev. if bus then [ev] else []);
          actor = (case role of Some r \<Rightarrow> r | None \<Rightarrow> ''anonymous'')
      in case type_mismatch entities m owner e of
        Some ty \<Rightarrow> (Inl (AppError (''Entity '' @ e @ '' is type '' @ ty @ '', not '' @ sm_entity m) 409),
          emit (TransitionDenied e (sm_id m) from to
            (''Entity type '' @ ty @ '' does not match machine entityType '' @ sm_entity m)))
      | None \<Rightarrow> (case status_mismatch entities owner e from of
        Some st \<Rightarrow> (Inl (AppError (''Entity '' @ e @ '' is in '' @ st @ '', not '' @ from) 409),
          emit (TransitionDenied e (sm_id m) st to (''Entity is in '' @ st @ '', not '' @ from)))
      | None \<Rightarrow> (case find_transition m from to of
        None \<Rightarrow> (Inl (AppError (''Transition '' @ from @ '' -> '' @ to @ '' not allowed by '' @ sm_id m) 409),
          emit (TransitionDenied e (sm_id m) from to (''Transition '' @ from @ '' -> '' @ to @ '' is not allowed'')))
      | Some t \<Rightarrow> if role_blocked t role
          then (Inl (AppError (''Role '' @ actor @ '' cannot execute '' @ from @ '' -> '' @ to) 403),
            emit (TransitionDenied e (sm_id m) from to (''Role '' @ actor
              @ '' cannot execute this transition (requires '' @ (case tr_role t of Some r \<Rightarrow> r | None \<Rightarrow> []) @ '')'')))
          else (Inr (TrResult from to (tr_action t)), emit (StateChanged e (sm_id m) from to)))))"

section \<open>The registry\<close>

text \<open>The stored form of a machine is JSON; \<open>enc\<close> and \<open>dec\<close> stand for its serialisation, and a value
  the schema refuses makes \<open>parse\<close> throw.\<close>

definition smr_get :: "'s store \<Rightarrow> (json \<Rightarrow> machine) \<Rightarrow> string \<Rightarrow> string \<Rightarrow> 's \<Rightarrow> machine option" where
  "smr_get S dec owner i s = map_option dec (s_get S owner ''state-machines'' i s)"

definition smr_list :: "'s store \<Rightarrow> (json \<Rightarrow> machine) \<Rightarrow> string \<Rightarrow> 's \<Rightarrow> machine list" where
  "smr_list S dec owner s = map dec (s_list S owner ''state-machines'' no_options s)"

definition smr_upsert :: "'s store \<Rightarrow> (machine \<Rightarrow> json) \<Rightarrow> int \<Rightarrow> string \<Rightarrow> machine \<Rightarrow> 's \<Rightarrow> machine res \<times> 's" where
  "smr_upsert S enc clock owner m s =
     (if machine_schema m then (Inr m, s_put S clock owner ''state-machines'' (enc m) s)
      else (Inl (JsError ''ZodError''), s))"

definition smr_remove :: "'s store \<Rightarrow> string \<Rightarrow> string \<Rightarrow> 's \<Rightarrow> unit res \<times> 's" where
  "smr_remove S owner i s = (case s_get S owner ''state-machines'' i s of
     None \<Rightarrow> (Inl (AppError ''State machine not found'' 404), s)
   | Some _ \<Rightarrow> (Inr (), s_remove S owner ''state-machines'' i s))"

definition smr_apply :: "'s store \<Rightarrow> (json \<Rightarrow> machine) \<Rightarrow> bool \<Rightarrow> provider option \<Rightarrow> string \<Rightarrow> string \<Rightarrow> string
    \<Rightarrow> string \<Rightarrow> string \<Rightarrow> string option \<Rightarrow> 's \<Rightarrow> tr_result res \<times> sm_event list" where
  "smr_apply S dec bus entities owner mid e from to role s = (case smr_get S dec owner mid s of
     None \<Rightarrow> (Inl (AppError (''State machine not found: '' @ mid) 404), [])
   | Some m \<Rightarrow> sm_transition bus entities owner m e from to role)"

section \<open>The allowlist of a role\<close>

datatype policy_action = Read | Create | Update | Delete | Approve | Export | Assign | Escalate | Execute

record permission =
  pm_resource :: string
  pm_actions :: "policy_action list"

record policy_role =
  pr_id :: string
  pr_permissions :: "permission list option"

datatype policy_event = PolicyEvaluated string policy_action bool | PolicyDenied string policy_action string

definition allowlist_can :: "bool \<Rightarrow> policy_role \<Rightarrow> (policy_action \<Rightarrow> string) \<Rightarrow> string \<Rightarrow> policy_action
    \<Rightarrow> (bool \<times> string option) \<times> policy_event list" where
  "allowlist_can bus role name resource action =
     (let emit = (\<lambda>evs. if bus then evs else []);
          open_role = (case pr_permissions role of None \<Rightarrow> True | Some ps \<Rightarrow> ps = [])
      in if open_role then ((True, None), emit [PolicyEvaluated (pr_id role) action True])
         else (let ps = (case pr_permissions role of None \<Rightarrow> [] | Some ps \<Rightarrow> ps);
                   allowed = (case find (\<lambda>p. pm_resource p = resource) ps of None \<Rightarrow> False
                              | Some p \<Rightarrow> action \<in> set (pm_actions p));
                   reason = ''Role '' @ pr_id role @ '' cannot '' @ name action @ '' on '' @ resource
               in if allowed then ((True, None), emit [PolicyEvaluated (pr_id role) action True])
                  else ((False, Some reason),
                    emit [PolicyEvaluated (pr_id role) action False, PolicyDenied (pr_id role) action reason])))"

section \<open>Task statuses\<close>

datatype task_status = Queued | Running | WaitingApproval | WaitingInput | Scheduled | Paused
  | Succeeded | Failed | Cancelled

fun allowed_task_transitions :: "task_status \<Rightarrow> task_status list" where
  "allowed_task_transitions Queued = [Running, Cancelled, Paused]"
| "allowed_task_transitions Running = [Succeeded, Failed, WaitingInput, WaitingApproval, Paused, Cancelled]"
| "allowed_task_transitions WaitingInput = [Queued, Cancelled]"
| "allowed_task_transitions WaitingApproval = [Queued, Succeeded, Failed, Cancelled]"
| "allowed_task_transitions Scheduled = [Running, Paused, Cancelled]"
| "allowed_task_transitions Paused = [Queued, Cancelled]"
| "allowed_task_transitions Succeeded = []"
| "allowed_task_transitions Failed = [Queued]"
| "allowed_task_transitions Cancelled = []"

definition can_transition_task :: "task_status \<Rightarrow> task_status \<Rightarrow> bool" where
  "can_transition_task from to \<longleftrightarrow> to \<in> set (allowed_task_transitions from)"

fun status_text :: "task_status \<Rightarrow> string" where
  "status_text Queued = ''queued''"
| "status_text Running = ''running''"
| "status_text WaitingApproval = ''waiting_approval''"
| "status_text WaitingInput = ''waiting_input''"
| "status_text Scheduled = ''scheduled''"
| "status_text Paused = ''paused''"
| "status_text Succeeded = ''succeeded''"
| "status_text Failed = ''failed''"
| "status_text Cancelled = ''cancelled''"

lemma status_text_inj [simp]: "status_text a = status_text b \<longleftrightarrow> a = b"
  by (cases a; cases b) auto

section \<open>Life of an entity\<close>

text \<open>An entity whose status is moved only by transitions that succeed, each asked for by some role and
  checked against the status the entity really has.\<close>

inductive entity_step :: "machine \<Rightarrow> string \<Rightarrow> string option \<Rightarrow> string \<Rightarrow> bool" for m where
  move: "\<lbrakk> entities = Some p; ep_status p owner e = Some st;
           fst (sm_transition bus entities owner m e from to role) = Inr (TrResult from' to' action) \<rbrakk>
         \<Longrightarrow> entity_step m st role to'"

inductive_cases entity_stepE: "entity_step m st role st'"

inductive entity_reachable :: "machine \<Rightarrow> string \<Rightarrow> bool" for m where
  start: "entity_reachable m (sm_initial m)"
| step: "\<lbrakk> entity_reachable m st; entity_step m st role st' \<rbrakk> \<Longrightarrow> entity_reachable m st'"

lemma find_transition_SomeD:
  "find_transition m from to = Some t \<Longrightarrow> t \<in> set (sm_transitions m) \<and> tr_from t = from \<and> tr_to t = to"
  by (auto simp: find_transition_def find_Some_iff)

lemma transition_okD:
  assumes "fst (sm_transition bus entities owner m e from to role) = Inr (TrResult f t a)"
  shows "\<exists>tr\<in>set (sm_transitions m). tr_from tr = from \<and> tr_to tr = to \<and> tr_action tr = a
       \<and> f = from \<and> t = to \<and> \<not> role_blocked tr role"
    and "status_mismatch entities owner e from = None" "type_mismatch entities m owner e = None"
  using assms
  by (auto simp: sm_transition_def Let_def dest!: find_transition_SomeD split: option.splits if_splits)

lemma entity_stepD:
  assumes "entity_step m st role st'"
  shows "\<exists>tr\<in>set (sm_transitions m). tr_from tr = st \<and> tr_to tr = st' \<and> \<not> role_blocked tr role"
  using assms
proof cases
  case (move entities p owner e bus src dst f a)
  have "st = src" using transition_okD(2) [OF move(3)] move(1,2)
    by (auto simp: status_mismatch_def split: if_splits)
  then show ?thesis using transition_okD(1) [OF move(3)] by blast
qed

lemma machine_states_closed:
  "\<lbrakk> machine_schema m; tr \<in> set (sm_transitions m) \<rbrakk> \<Longrightarrow> tr_to tr \<in> set (sm_states m)"
  by (simp add: machine_schema_def)

section \<open>Properties\<close>

lemma entity_stays_in_machine_parts:
  assumes "machine_schema m" "entity_reachable m st"
  shows "st \<in> set (sm_states m)"
    and "entity_step m st role st' \<Longrightarrow> \<exists>tr\<in>set (sm_transitions m). tr_from tr = st \<and> tr_to tr = st'
         \<and> (\<forall>r. tr_role tr = Some r \<and> r \<noteq> [] \<longrightarrow> role = Some r)"
proof -
  show "st \<in> set (sm_states m)" using assms(2,1)
    by (induction) (auto simp: machine_schema_def dest!: entity_stepD)
  show "entity_step m st role st' \<Longrightarrow> \<exists>tr\<in>set (sm_transitions m). tr_from tr = st \<and> tr_to tr = st'
         \<and> (\<forall>r. tr_role tr = Some r \<and> r \<noteq> [] \<longrightarrow> role = Some r)"
    by (drule entity_stepD) (auto simp: role_blocked_def split: option.splits)
qed

text \<open>C25: an entity never leaves its machine.  For a machine the schema accepts, every status reachable
  from the initial one by transitions that succeed against the entity's real status is a declared
  state, and each move is a declared transition from the status the entity really had, whose role, if
  it names one, is the role of the caller: without a role it is refused.\<close>
theorem entity_stays_in_machine:
  assumes "machine_schema m" "entity_reachable m st"
  shows "st \<in> set (sm_states m)
    \<and> (\<forall>role st'. entity_step m st role st' \<longrightarrow> (\<exists>tr\<in>set (sm_transitions m). tr_from tr = st \<and> tr_to tr = st'
         \<and> (\<forall>r. tr_role tr = Some r \<and> r \<noteq> [] \<longrightarrow> role = Some r)))"
  using entity_stays_in_machine_parts [OF assms] by blast

definition sample_machine :: machine where
  "sample_machine = \<lparr> sm_id = ''invoice-flow'', sm_entity = ''invoice'', sm_initial = ''draft'',
     sm_states = [''draft'', ''sent'', ''paid''], sm_transitions =
      [\<lparr> tr_from = ''draft'', tr_to = ''sent'', tr_action = ''send'', tr_role = None \<rparr>,
       \<lparr> tr_from = ''sent'', tr_to = ''paid'', tr_action = ''collect'', tr_role = Some ''finance'' \<rparr>] \<rparr>"

theorem entity_stays_in_machine_witness:
  "''sent'' \<in> set (sm_states sample_machine)"
proof (rule entity_stays_in_machine [THEN conjunct1])
  show "machine_schema sample_machine" by (simp add: machine_schema_def sample_machine_def len_ok_def transition_schema_def)
  let ?p = "\<lparr> ep_status = \<lambda>_ _. Some ''draft'', ep_type = None \<rparr>"
  have "fst (sm_transition True (Some ?p) ''u1'' sample_machine ''i1'' ''draft'' ''sent'' None)
      = Inr (TrResult ''draft'' ''sent'' ''send'')"
    by (simp add: sm_transition_def type_mismatch_def status_mismatch_def find_transition_def
        sample_machine_def role_blocked_def Let_def)
  then have "entity_step sample_machine ''draft'' None ''sent''"
    by (rule move [OF refl, rotated]) simp
  then show "entity_reachable sample_machine ''sent''"
    using entity_reachable.start [of sample_machine] by (auto simp: sample_machine_def intro: entity_reachable.step)
qed

text \<open>Every refusal of a transition is announced.  With a bus, each call emits exactly one event: a
  state.changed when it succeeds and a state.transition_denied otherwise, and the refusals have status
  409, or 403 when the transition exists and only the role is wrong.\<close>
theorem transition_outcomes:
  "case sm_transition True entities owner m e from to role of
     (Inr r, evs) \<Rightarrow> evs = [StateChanged e (sm_id m) from to]
   | (Inl err, evs) \<Rightarrow> (\<exists>st why. evs = [TransitionDenied e (sm_id m) st to why])
       \<and> (err_status err = Some 403 \<longleftrightarrow> type_mismatch entities m owner e = None
            \<and> status_mismatch entities owner e from = None \<and> find_transition m from to \<noteq> None)
       \<and> (err_status err = Some 403 \<or> err_status err = Some 409)"
  by (auto simp: sm_transition_def Let_def split: option.splits)

end
