(* ===== verification/Authz.thy ===== *)
theory Authz
  imports StateMachine
begin

text \<open>
  Authorisation (apps/server/src/engine/authz): the decision point over declared policies
  (pdp.ts), the policies a role gives rise to (policies.ts), the redaction of classified fields
  (field-filter.ts) and the read and write wrappers of the routes (with-read.ts, with-write.ts),
  with the vocabulary of packages/domain/src/policy.ts and classification.ts.

  The role lookup and the allowlist engine the decision point is built with are functions; the
  audit entries a wrapper appends are the list in its result.
\<close>

section \<open>Vocabulary\<close>

datatype effect = Allow | Deny

datatype actor_kind = Human | Agent

record actor =
  ac_kind :: actor_kind
  ac_id :: string
  ac_roles :: "string list"
  ac_role_id :: "string option"

record pcontext =
  cx_tenant :: string
  cx_actor :: actor

record target =
  tg_owner :: "string option"
  tg_scope :: "string option"
  tg_assigned_by :: "string option"
  tg_class :: "string option"

datatype condition_kind = OwnedBy | InTaskScope | AssignedBy | HasClassification

record policy =
  po_id :: string
  po_actor :: "string option"
  po_role :: "string option"
  po_kind :: "actor_kind option"
  po_action :: policy_action
  po_resource :: string
  po_effect :: effect
  po_field :: "string option"
  po_condition :: "(condition_kind \<times> string option) option"
  po_tenant :: "string option"

record pdp =
  dp_policies :: "policy list"
  dp_engine :: "(string \<Rightarrow> policy_role \<Rightarrow> string \<Rightarrow> policy_action \<Rightarrow> bool) option"
  dp_get_role :: "(string \<Rightarrow> string \<Rightarrow> policy_role option) option"

definition policy_resources :: "string list" where
  "policy_resources = [''task'', ''goal'', ''monitor'', ''memory'', ''artifact'', ''sop'', ''role'',
     ''action'', ''computer'', ''file'', ''rag'', ''audit'', ''presence'', ''lock'', ''notification'',
     ''thread'', ''project'']"

section \<open>The decision point\<close>

text \<open>An absent and an empty string are the same to the truth tests of the source.\<close>

definition given :: "string option \<Rightarrow> bool" where
  "given x = (case x of None \<Rightarrow> False | Some s \<Rightarrow> s \<noteq> [])"

definition subject_matches :: "policy \<Rightarrow> actor \<Rightarrow> bool" where
  "subject_matches p a =
     (if given (po_actor p) \<and> po_actor p \<noteq> Some (ac_id a) then False
      else if po_kind p \<noteq> None \<and> po_kind p \<noteq> Some (ac_kind a) then False
      else if given (po_role p) \<and> the (po_role p) \<notin> set (ac_roles a) then False
      else True)"

definition field_matches :: "string option \<Rightarrow> string option \<Rightarrow> bool" where
  "field_matches pf f =
     (if \<not> given pf then True
      else if \<not> given f then False
      else pf = f \<or> pf = Some ''*'')"

definition eval_condition :: "condition_kind \<times> string option \<Rightarrow> pcontext \<Rightarrow> target \<Rightarrow> bool" where
  "eval_condition c cx tg = (case fst c of
     OwnedBy \<Rightarrow> tg_owner tg = Some (ac_id (cx_actor cx))
   | InTaskScope \<Rightarrow> tg_scope tg = snd c
   | AssignedBy \<Rightarrow> tg_assigned_by tg = snd c
   | HasClassification \<Rightarrow> tg_class tg = snd c)"

definition decide :: "policy \<Rightarrow> pcontext \<Rightarrow> target \<Rightarrow> effect" where
  "decide p cx tg = (case po_condition p of
     None \<Rightarrow> po_effect p
   | Some c \<Rightarrow> if eval_condition c cx tg then po_effect p
              else (if po_effect p = Allow then Deny else Allow))"

definition applicable :: "pcontext \<Rightarrow> policy_action \<Rightarrow> string \<Rightarrow> string option \<Rightarrow> policy \<Rightarrow> bool" where
  "applicable cx action resource field p \<longleftrightarrow>
     po_resource p = resource \<and> po_action p = action
     \<and> (po_tenant p = None \<or> po_tenant p = Some (cx_tenant cx))
     \<and> subject_matches p (cx_actor cx) \<and> field_matches (po_field p) field"

fun fold_policies :: "pcontext \<Rightarrow> target \<Rightarrow> policy list \<Rightarrow> bool \<Rightarrow> bool option" where
  "fold_policies cx tg [] saw = Some saw"
| "fold_policies cx tg (p # ps) saw = (if decide p cx tg = Deny then None
     else fold_policies cx tg ps True)"

definition agent_check :: "pdp \<Rightarrow> pcontext \<Rightarrow> policy_action \<Rightarrow> string \<Rightarrow> bool" where
  "agent_check d cx action resource =
     (case (ac_kind (cx_actor cx), ac_role_id (cx_actor cx)) of
        (Agent, Some rid) \<Rightarrow> (case dp_get_role d of
            None \<Rightarrow> False
          | Some getRole \<Rightarrow> (case getRole (cx_tenant cx) rid of
              None \<Rightarrow> False
            | Some role \<Rightarrow> (case dp_engine d of
                None \<Rightarrow> True
              | Some can \<Rightarrow> can (ac_id (cx_actor cx)) role resource action)))
      | _ \<Rightarrow> True)"

definition pdp_can :: "pdp \<Rightarrow> pcontext \<Rightarrow> policy_action \<Rightarrow> string \<Rightarrow> string option \<Rightarrow> target \<Rightarrow> effect" where
  "pdp_can d cx action resource field tg =
     (case fold_policies cx tg (filter (applicable cx action resource field) (dp_policies d)) False of
        None \<Rightarrow> Deny
      | Some saw \<Rightarrow> if \<not> agent_check d cx action resource then Deny
                    else if saw then Allow else Deny)"

section \<open>Policies of a role\<close>

definition role_policies :: "string \<Rightarrow> (policy_action \<Rightarrow> string) \<Rightarrow> string \<Rightarrow> permission list \<Rightarrow> string list \<Rightarrow> policy list" where
  "role_policies tenant name role perms tools =
     concat (map (\<lambda>pm. map (\<lambda>a. \<lparr>
         po_id = tenant @ '':'' @ role @ '':'' @ pm_resource pm @ '':'' @ name a, po_actor = None,
         po_role = Some ''agent'', po_kind = Some Agent, po_action = a, po_resource = pm_resource pm,
         po_effect = Allow, po_field = None, po_condition = None, po_tenant = Some tenant \<rparr>)
       (pm_actions pm)) perms)
     @ map (\<lambda>tool. \<lparr> po_id = tenant @ '':'' @ role @ '':tool:'' @ tool, po_actor = None,
         po_role = Some ''agent'', po_kind = Some Agent, po_action = Execute, po_resource = ''action'',
         po_effect = Allow, po_field = None, po_condition = None, po_tenant = Some tenant \<rparr>) tools"

definition default_policies :: "policy list" where
  "default_policies = [\<lparr> po_id = ''default:deny:secret:read'', po_actor = None, po_role = None,
     po_kind = Some Human, po_action = Read, po_resource = ''task'', po_effect = Deny,
     po_field = Some ''outcome'', po_condition = Some (HasClassification, Some ''secret''), po_tenant = None \<rparr>]"

section \<open>Field filter\<close>

type_synonym classification = "(string \<times> (string \<times> string) list) list"

definition default_classification :: classification where
  "default_classification =
    [(''user'', [(''email'', ''internal''), (''name'', ''internal''), (''setup'', ''confidential'')]),
     (''agentRole'', [(''permissions'', ''restricted''), (''memories'', ''confidential''), (''allowedTools'', ''restricted'')]),
     (''agentTask'', [(''prompt'', ''confidential''), (''plan'', ''internal''), (''outcome'', ''internal'')]),
     (''agentMemory'', [(''text'', ''confidential'')]),
     (''businessEntity'', [(''properties'', ''internal'')]),
     (''sop'', [(''steps'', ''internal'')])]"

definition redacted :: json where "redacted = JStr ''[REDACTED]''"

definition filter_field :: "pdp \<Rightarrow> pcontext \<Rightarrow> string \<Rightarrow> target \<Rightarrow> string \<times> string \<Rightarrow> json \<Rightarrow> json" where
  "filter_field d cx resource tg fc out = (case fc of (field, cls) \<Rightarrow>
     if jget out field = None then out
     else if cls = ''public'' \<or> cls = ''internal'' then out
     else if pdp_can d cx Read resource (Some field) (tg\<lparr> tg_class := Some cls \<rparr>) = Deny
       then jset field redacted out else out)"

definition field_filter :: "pdp \<Rightarrow> classification \<Rightarrow> pcontext \<Rightarrow> string \<Rightarrow> json \<Rightarrow> target \<Rightarrow> json" where
  "field_filter d classes cx resource r tg = (case map_of classes resource of
     None \<Rightarrow> r
   | Some m \<Rightarrow> fold (filter_field d cx resource tg) m r)"

definition filter_list :: "pdp \<Rightarrow> classification \<Rightarrow> pcontext \<Rightarrow> string \<Rightarrow> json list \<Rightarrow> target \<Rightarrow> json list" where
  "filter_list d classes cx resource rs tg = map (\<lambda>r. field_filter d classes cx resource r tg) rs"

section \<open>Guarded reads and writes\<close>

datatype audit_note = Note string string

definition actor_owner :: "pcontext \<Rightarrow> string" where
  "actor_owner cx = cx_tenant cx @ '':'' @ ac_id (cx_actor cx)"

definition own_target :: "pcontext \<Rightarrow> target" where
  "own_target cx = \<lparr> tg_owner = Some (ac_id (cx_actor cx)), tg_scope = None, tg_assigned_by = None, tg_class = None \<rparr>"

text \<open>The callback of a wrapper runs while other requests do: it is given the store and returns it.\<close>

definition with_read :: "'s store \<Rightarrow> pdp \<Rightarrow> classification \<Rightarrow> pcontext \<Rightarrow> string \<Rightarrow> string
    \<Rightarrow> (json \<Rightarrow> 's \<Rightarrow> json res \<times> 's) \<Rightarrow> 's \<Rightarrow> json res \<times> 's \<times> audit_note list" where
  "with_read S d classes cx kind i f s = (case s_get S (actor_owner cx) kind i s of
     None \<Rightarrow> (Inl (AppError ''Not found'' 404), s, [])
   | Some r \<Rightarrow> if pdp_can d cx Read kind None (own_target cx) = Deny
       then (Inl (AppError ''Forbidden'' 403), s, [Note ''read.denied'' kind])
       else (let (res, s') = f (field_filter d classes cx kind r (own_target cx)) s in (res, s', [])))"

definition with_write :: "'s store \<Rightarrow> pdp \<Rightarrow> int \<Rightarrow> pcontext \<Rightarrow> string \<Rightarrow> string
    \<Rightarrow> (json option \<Rightarrow> 's \<Rightarrow> json res \<times> 's) \<Rightarrow> bool \<Rightarrow> 's \<Rightarrow> json res \<times> 's \<times> audit_note list" where
  "with_write S d now cx kind i f use_cas s =
     (let ow = actor_owner cx in
      if pdp_can d cx Update kind None (own_target cx) = Deny
      then (Inl (AppError ''Forbidden'' 403), s, [Note ''write.denied'' kind])
      else (case f (s_get S ow kind i s) s of
          (Inl e, s1) \<Rightarrow> (Inl e, s1, [])
        | (Inr new, s1) \<Rightarrow>
            if use_cas then (case s_cas S now ow kind i (JObj []) new s1 of
                (None, s2) \<Rightarrow> (Inl (AppError ''Conflict'' 409), s2, [])
              | (Some _, s2) \<Rightarrow> (Inr new, s2, [Note ''write.ok'' kind]))
            else (Inr new, s_put S now ow kind new s1, [Note ''write.ok'' kind])))"

section \<open>Decisions as sets of policies\<close>

lemma fold_policies_iff:
  "fold_policies cx tg ps saw = (if \<exists>p\<in>set ps. decide p cx tg = Deny then None
     else Some (saw \<or> ps \<noteq> []))"
  by (induction ps arbitrary: saw) auto

lemma effect_not [simp]: "e \<noteq> Deny \<longleftrightarrow> e = Allow"
  by (cases e) auto

lemma effect_eqI: "(a = Allow \<longleftrightarrow> b = Allow) \<Longrightarrow> a = (b :: effect)"
  by (cases a; cases b) auto

lemma pdp_can_Allow_iff:
  "pdp_can d cx action resource field tg = Allow \<longleftrightarrow>
     (\<exists>p\<in>set (dp_policies d). applicable cx action resource field p)
   \<and> (\<forall>p\<in>set (dp_policies d). applicable cx action resource field p \<longrightarrow> decide p cx tg = Allow)
   \<and> agent_check d cx action resource"
  by (auto simp: pdp_can_def fold_policies_iff filter_empty_conv split: if_splits)

lemma agent_check_policies [simp]: "agent_check (d\<lparr> dp_policies := ps \<rparr>) cx a r = agent_check d cx a r"
  by (simp add: agent_check_def cong: actor_kind.case_cong option.case_cong)

lemma filter_field_other: "is_obj out \<Longrightarrow> k \<noteq> fst fc \<Longrightarrow> jget (filter_field d cx resource tg fc out) k = jget out k"
  by (auto simp: filter_field_def jget_jset split: prod.splits)

lemma filter_field_obj [simp]: "is_obj (filter_field d cx resource tg fc out) = is_obj out"
  by (auto simp: filter_field_def split: prod.splits)

lemma fold_filter_other:
  "\<lbrakk> is_obj out; k \<notin> fst ` set m \<rbrakk> \<Longrightarrow> jget (fold (filter_field d cx resource tg) m out) k = jget out k"
  by (induction m arbitrary: out) (auto simp: filter_field_other)

lemma filter_field_own:
  assumes "is_obj out" "jget out field = Some v"
  shows "jget (filter_field d cx resource tg (field, cls) out) field =
    Some (if cls \<noteq> ''public'' \<and> cls \<noteq> ''internal''
             \<and> pdp_can d cx Read resource (Some field) (tg\<lparr> tg_class := Some cls \<rparr>) = Deny
          then redacted else v)"
  using assms by (auto simp: filter_field_def jget_jset)

lemma fold_filter_get:
  assumes "distinct (map fst m)" "is_obj out" "jget out field = Some v" "map_of m field = Some cls"
  shows "jget (fold (filter_field d cx resource tg) m out) field =
    Some (if cls \<noteq> ''public'' \<and> cls \<noteq> ''internal''
             \<and> pdp_can d cx Read resource (Some field) (tg\<lparr> tg_class := Some cls \<rparr>) = Deny
          then redacted else v)"
  using assms
proof (induction m arbitrary: out)
  case (Cons fc m)
  obtain f c where fc: "fc = (f, c)" by force
  show ?case
  proof (cases "f = field")
    case True
    then have "c = cls" "field \<notin> fst ` set m" using Cons.prems fc by auto
    then show ?thesis using filter_field_own [OF Cons.prems(2,3)] Cons.prems fc True
      by (simp add: fold_filter_other)
  next
    case False
    then show ?thesis using Cons fc by (simp add: filter_field_other)
  qed
qed simp

section \<open>Properties\<close>

definition sample_actor :: actor where
  "sample_actor = \<lparr> ac_kind = Human, ac_id = ''u1'', ac_roles = [''employee''], ac_role_id = None \<rparr>"

definition sample_cx :: pcontext where
  "sample_cx = \<lparr> cx_tenant = ''acme'', cx_actor = sample_actor \<rparr>"

definition sample_policy :: policy where
  "sample_policy = \<lparr> po_id = ''p1'', po_actor = None, po_role = Some ''employee'', po_kind = None,
     po_action = Update, po_resource = ''task'', po_effect = Allow, po_field = None,
     po_condition = None, po_tenant = Some ''acme'' \<rparr>"

text \<open>The decision written out: which policies concern a request, whether the condition of one holds, and what the
  role of an agent must allow.  A policy permits when it allows under a condition that holds, and also when
  it denies under one that does not.\<close>

lemma given_iff: "given x \<longleftrightarrow> x \<notin> {None, Some []}"
  by (cases x) (simp_all add: given_def)

lemma subject_iff:
  "subject_matches p a \<longleftrightarrow> po_actor p \<in> {None, Some [], Some (ac_id a)} \<and> po_kind p \<in> {None, Some (ac_kind a)}
     \<and> (po_role p \<in> {None, Some []} \<or> the (po_role p) \<in> set (ac_roles a))"
  unfolding subject_matches_def given_iff by simp

lemma field_iff:
  "field_matches pf f \<longleftrightarrow> pf \<in> {None, Some []} \<or> f \<notin> {None, Some []} \<and> pf \<in> {f, Some ''*''}"
  unfolding field_matches_def given_iff by (cases pf; cases f) simp_all

lemma applicable_iff:
  "applicable cx action resource field p \<longleftrightarrow> po_resource p = resource \<and> po_action p = action
     \<and> po_tenant p \<in> {None, Some (cx_tenant cx)}
     \<and> po_actor p \<in> {None, Some [], Some (ac_id (cx_actor cx))} \<and> po_kind p \<in> {None, Some (ac_kind (cx_actor cx))}
     \<and> (po_role p \<in> {None, Some []} \<or> the (po_role p) \<in> set (ac_roles (cx_actor cx)))
     \<and> (po_field p \<in> {None, Some []} \<or> field \<notin> {None, Some []} \<and> po_field p \<in> {field, Some ''*''})"
  unfolding applicable_def subject_iff field_iff by simp

lemma decide_iff:
  "decide p cx tg = Allow \<longleftrightarrow> (po_effect p = Allow) = (case po_condition p of None \<Rightarrow> True
     | Some (OwnedBy, v) \<Rightarrow> tg_owner tg = Some (ac_id (cx_actor cx)) | Some (InTaskScope, v) \<Rightarrow> tg_scope tg = v
     | Some (AssignedBy, v) \<Rightarrow> tg_assigned_by tg = v | Some (HasClassification, v) \<Rightarrow> tg_class tg = v)"
  by (auto simp: decide_def eval_condition_def split: option.splits condition_kind.splits)

lemma agent_check_iff:
  "agent_check d cx action resource \<longleftrightarrow> (\<forall>rid. ac_kind (cx_actor cx) = Agent \<and> ac_role_id (cx_actor cx) = Some rid \<longrightarrow>
     (\<exists>lookup role. dp_get_role d = Some lookup \<and> lookup (cx_tenant cx) rid = Some role
        \<and> (\<forall>can. dp_engine d = Some can \<longrightarrow> can (ac_id (cx_actor cx)) role resource action)))"
  by (auto simp: agent_check_def split: actor_kind.splits option.splits)

text \<open>C15: what the decision point decides, in terms of the fields of its policies.  A request is allowed
  exactly when some policy concerns it (the same resource and action, no tenant or the request's, the actor, its
  kind and one of its roles where the policy names them, the field or all fields), every such policy permits it,
  and the role of an agent is found and allows the action.  A policy permits when its effect is allow and its
  condition, if any, holds, or when its effect is deny and its condition does not hold: a denial with a condition
  that fails counts as a permission (\<open>deny_policy_grants\<close>).  So nothing is allowed without a policy, one
  policy that does not permit refuses the request whatever the others say, and neither the order of the
  policies nor those of other tenants matter.\<close>
theorem pdp_decides:
  assumes "R = {p \<in> set (dp_policies d). po_resource p = resource \<and> po_action p = action
     \<and> po_tenant p \<in> {None, Some (cx_tenant cx)}
     \<and> po_actor p \<in> {None, Some [], Some (ac_id (cx_actor cx))} \<and> po_kind p \<in> {None, Some (ac_kind (cx_actor cx))}
     \<and> (po_role p \<in> {None, Some []} \<or> the (po_role p) \<in> set (ac_roles (cx_actor cx)))
     \<and> (po_field p \<in> {None, Some []} \<or> field \<notin> {None, Some []} \<and> po_field p \<in> {field, Some ''*''})}"
  shows "(pdp_can d cx action resource field tg = Allow \<longleftrightarrow> R \<noteq> {}
       \<and> (\<forall>p\<in>R. (po_effect p = Allow) = (case po_condition p of None \<Rightarrow> True
            | Some (OwnedBy, v) \<Rightarrow> tg_owner tg = Some (ac_id (cx_actor cx)) | Some (InTaskScope, v) \<Rightarrow> tg_scope tg = v
            | Some (AssignedBy, v) \<Rightarrow> tg_assigned_by tg = v | Some (HasClassification, v) \<Rightarrow> tg_class tg = v))
       \<and> (\<forall>rid. ac_kind (cx_actor cx) = Agent \<and> ac_role_id (cx_actor cx) = Some rid \<longrightarrow>
            (\<exists>lookup role. dp_get_role d = Some lookup \<and> lookup (cx_tenant cx) rid = Some role
               \<and> (\<forall>can. dp_engine d = Some can \<longrightarrow> can (ac_id (cx_actor cx)) role resource action))))
     \<and> (set ps = {p \<in> set (dp_policies d). po_tenant p \<in> {None, Some (cx_tenant cx)}} \<longrightarrow>
          pdp_can (d\<lparr> dp_policies := ps \<rparr>) cx action resource field tg = pdp_can d cx action resource field tg)"
proof (intro conjI impI)
  have R: "R = {p \<in> set (dp_policies d). applicable cx action resource field p}"
    unfolding assms applicable_iff by simp
  show "pdp_can d cx action resource field tg = Allow \<longleftrightarrow> R \<noteq> {}
       \<and> (\<forall>p\<in>R. (po_effect p = Allow) = (case po_condition p of None \<Rightarrow> True
            | Some (OwnedBy, v) \<Rightarrow> tg_owner tg = Some (ac_id (cx_actor cx)) | Some (InTaskScope, v) \<Rightarrow> tg_scope tg = v
            | Some (AssignedBy, v) \<Rightarrow> tg_assigned_by tg = v | Some (HasClassification, v) \<Rightarrow> tg_class tg = v))
       \<and> (\<forall>rid. ac_kind (cx_actor cx) = Agent \<and> ac_role_id (cx_actor cx) = Some rid \<longrightarrow>
            (\<exists>lookup role. dp_get_role d = Some lookup \<and> lookup (cx_tenant cx) rid = Some role
               \<and> (\<forall>can. dp_engine d = Some can \<longrightarrow> can (ac_id (cx_actor cx)) role resource action)))"
    unfolding pdp_can_Allow_iff decide_iff [symmetric] agent_check_iff [symmetric] R by blast
  assume ps: "set ps = {p \<in> set (dp_policies d). po_tenant p \<in> {None, Some (cx_tenant cx)}}"
  have "applicable cx action resource field p \<Longrightarrow> po_tenant p \<in> {None, Some (cx_tenant cx)}" for p
    by (simp add: applicable_iff)
  then have "(\<exists>p\<in>set ps. applicable cx action resource field p \<and> P p) \<longleftrightarrow> (\<exists>p\<in>set (dp_policies d). applicable cx action resource field p \<and> P p)" for P
    unfolding ps by blast
  note ex = this [of "\<lambda>p. True"] this [of "\<lambda>p. decide p cx tg \<noteq> Allow"]
  show "pdp_can (d\<lparr> dp_policies := ps \<rparr>) cx action resource field tg = pdp_can d cx action resource field tg"
    using ex by (intro effect_eqI) (auto simp: pdp_can_Allow_iff)
qed

theorem pdp_decides_witness:
  "pdp_can (\<lparr> dp_policies = [sample_policy, sample_policy], dp_engine = None, dp_get_role = None \<rparr>)
     sample_cx Update ''task'' None (own_target sample_cx) = Allow"
proof -
  let ?d = "\<lparr> dp_policies = [sample_policy\<lparr> po_effect := Deny, po_tenant := Some ''beta'' \<rparr>, sample_policy], dp_engine = None, dp_get_role = None \<rparr>"
  have e: "set [sample_policy, sample_policy] = {p \<in> set (dp_policies ?d). po_tenant p \<in> {None, Some (cx_tenant sample_cx)}}"
    unfolding set_filter [symmetric] by (simp add: sample_policy_def sample_cx_def)
  have "pdp_can ?d sample_cx Update ''task'' None (own_target sample_cx) = Allow"
    by (simp add: pdp_can_Allow_iff sample_policy_def sample_cx_def sample_actor_def applicable_def subject_matches_def
        field_matches_def given_def decide_def agent_check_def)
  then show ?thesis
    using pdp_decides [where resource = "''task''" and action = Update and field = None and tg = "own_target sample_cx",
        THEN conjunct2, THEN mp, OF refl e] by simp
qed

lemma deny_policy_grants_parts:
  assumes "ac_kind (cx_actor cx) = Human" "tg_class tg \<noteq> Some ''secret''"
  shows "pdp_can \<lparr> dp_policies = default_policies, dp_engine = e, dp_get_role = g \<rparr> cx Read ''task''
      (Some ''outcome'') tg = Allow"
    and "\<forall>p\<in>set default_policies. po_effect p = Deny"
  using assms by (auto simp: pdp_can_Allow_iff default_policies_def applicable_def subject_matches_def
      field_matches_def given_def decide_def eval_condition_def agent_check_def)

text \<open>A policy set of denials alone can grant access.  A conditional denial whose condition does not
  hold counts as an allow, so the default policies, whose only entry denies humans to read a secret task
  outcome, let every human read that field at every other classification.\<close>
theorem deny_policy_grants:
  assumes "ac_kind (cx_actor cx) = Human" "tg_class tg \<noteq> Some ''secret''"
  shows "pdp_can \<lparr> dp_policies = default_policies, dp_engine = e, dp_get_role = g \<rparr> cx Read ''task''
      (Some ''outcome'') tg = Allow \<and> list_all (\<lambda>p. po_effect p = Deny) default_policies"
  using deny_policy_grants_parts [OF assms] by (simp add: list_all_iff)

theorem deny_policy_grants_witness:
  "pdp_can \<lparr> dp_policies = default_policies, dp_engine = None, dp_get_role = None \<rparr> sample_cx Read ''task''
     (Some ''outcome'') \<lparr> tg_owner = None, tg_scope = None, tg_assigned_by = None, tg_class = Some ''restricted'' \<rparr> = Allow"
  by (rule deny_policy_grants [THEN conjunct1]) (simp_all add: sample_cx_def sample_actor_def)

text \<open>The field filter redacts what the decision point denies and nothing else.  A field with a
  class above internal reads \<open>[REDACTED]\<close> exactly when reading it is denied at that class; public,
  internal and unclassified fields, and allowed ones, keep their value.\<close>
theorem field_filter_exact:
  assumes "is_obj r" "map_of classes resource = Some m" "distinct (map fst m)" "jget r field = Some v"
  shows "jget (field_filter d classes cx resource r tg) field =
    Some (case map_of m field of None \<Rightarrow> v
      | Some cls \<Rightarrow> if cls \<noteq> ''public'' \<and> cls \<noteq> ''internal''
             \<and> pdp_can d cx Read resource (Some field) (tg\<lparr> tg_class := Some cls \<rparr>) = Deny
          then redacted else v)"
proof (cases "map_of m field")
  case None
  then have "field \<notin> fst ` set m" by (simp add: map_of_eq_None_iff)
  then show ?thesis using None
    by (simp add: field_filter_def assms(2,4) fold_filter_other [OF assms(1)])
next
  case (Some cls)
  then show ?thesis
    by (simp only: field_filter_def assms(2) fold_filter_get [OF assms(3,1,4) Some] option.case)
qed

theorem field_filter_exact_witness:
  "jget (field_filter \<lparr> dp_policies = [], dp_engine = None, dp_get_role = None \<rparr> default_classification sample_cx
     ''agentMemory'' (JObj [(''id'', JStr ''m1''), (''text'', JStr ''x'')]) (own_target sample_cx)) ''text''
   = Some redacted"
  using field_filter_exact [of "JObj [(''id'', JStr ''m1''), (''text'', JStr ''x'')]" default_classification
      "''agentMemory''" "[(''text'', ''confidential'')]" "''text''" "JStr ''x''"]
  by (simp add: default_classification_def pdp_can_def)

text \<open>With the default classification the filter hides nothing.  Its map is keyed by agentTask,
  agentMemory and the like, and none of the resources a policy can name carries a field above internal
  there, so for each of them every record comes out as it went in.\<close>
theorem default_classes_miss_resources:
  "\<forall>resource\<in>set policy_resources. field_filter d default_classification cx resource r tg = r"
  by (simp add: policy_resources_def field_filter_def default_classification_def filter_field_def)

theorem default_classes_miss_resources_witness:
  "field_filter \<lparr> dp_policies = [], dp_engine = None, dp_get_role = None \<rparr> default_classification sample_cx ''task''
     (JObj [(''prompt'', JStr ''secret plan'')]) (own_target sample_cx) = JObj [(''prompt'', JStr ''secret plan'')]"
  using default_classes_miss_resources by (simp add: policy_resources_def)

text \<open>A denied write does nothing.  When the decision point denies the update, withWrite answers
  403, leaves the store as it was, never runs its callback and audits the denial; a denied read of an
  existing record likewise.\<close>
theorem denied_write_is_inert:
  assumes "pdp_can d cx Update kind None (own_target cx) = Deny"
  shows "with_write S d now cx kind i f use_cas s = (Inl (AppError ''Forbidden'' 403), s, [Note ''write.denied'' kind])
    \<and> (pdp_can d cx Read kind None (own_target cx) = Deny \<and> s_get S (actor_owner cx) kind i s \<noteq> None \<longrightarrow>
      with_read S d classes cx kind i g s = (Inl (AppError ''Forbidden'' 403), s, [Note ''read.denied'' kind]))"
  using assms by (auto simp: with_write_def with_read_def Let_def)

theorem denied_write_is_inert_witness:
  "with_write plain_store \<lparr> dp_policies = [], dp_engine = None, dp_get_role = None \<rparr> 9 sample_cx ''task'' ''t1''
     (\<lambda>r d. (Inr JNull, [])) True sample_table
   = (Inl (AppError ''Forbidden'' 403), sample_table, [Note ''write.denied'' ''task''])"
  by (rule denied_write_is_inert [THEN conjunct1]) (simp add: pdp_can_def)

text \<open>The compare-and-swap of withWrite does not detect a concurrent update.  Its expected document
  is empty, so whatever another request wrote to the record while the callback ran, the write succeeds
  and every field it carries replaces the other request's value.\<close>
theorem with_write_loses_update:
  assumes "pdp_can d cx Update kind None (own_target cx) = Allow"
    and "f (st_get (actor_owner cx) kind i s) s = (Inr (JObj new), s1)"
    and "st_get (actor_owner cx) kind i s1 = Some other" "is_obj other"
    and "distinct (map fst new)" "map_of new fld = Some mine"
  shows "\<exists>s2 j. with_write plain_store d now cx kind i f True s = (Inr (JObj new), s2, [Note ''write.ok'' kind])
     \<and> st_get (actor_owner cx) kind i s2 = Some j \<and> jget j fld = Some mine"
proof -
  let ?c = "st_cas now (actor_owner cx) kind i (JObj []) (JObj new) s1"
  have cas: "fst ?c = Some (jmerge other (JObj new))"
    using assms(3,4) by (simp add: st_cas_result)
  have "st_get (actor_owner cx) kind i (snd ?c) = Some (jmerge other (JObj new))"
    by (simp add: st_get_cas cas)
  moreover have "jget (jmerge other (JObj new)) fld = Some mine"
    using assms(4-6) by (simp add: jget_jmerge)
  moreover have "with_write plain_store d now cx kind i f True s = (Inr (JObj new), snd ?c, [Note ''write.ok'' kind])"
    using assms(1,2) cas by (cases ?c) (simp add: with_write_def Let_def)
  ultimately show ?thesis by blast
qed

theorem with_write_loses_update_witness:
  "\<exists>s2 j. with_write plain_store \<lparr> dp_policies = [sample_policy], dp_engine = None, dp_get_role = None \<rparr> 9 sample_cx ''task'' ''t1''
     (\<lambda>r d. (Inr (JObj [(''id'', JStr ''t1''), (''count'', JNum 1)]),
        st_put 5 ''acme:u1'' ''task'' (JObj [(''id'', JStr ''t1''), (''count'', JNum 7)]) d)) True []
     = (Inr (JObj [(''id'', JStr ''t1''), (''count'', JNum 1)]), s2, [Note ''write.ok'' ''task''])
   \<and> st_get (actor_owner sample_cx) ''task'' ''t1'' s2 = Some j \<and> jget j ''count'' = Some (JNum 1)"
proof (rule with_write_loses_update)
  show "pdp_can \<lparr> dp_policies = [sample_policy], dp_engine = None, dp_get_role = None \<rparr> sample_cx Update ''task'' None
      (own_target sample_cx) = Allow"
    by (simp add: pdp_can_Allow_iff sample_policy_def sample_cx_def sample_actor_def applicable_def
        subject_matches_def field_matches_def given_def decide_def agent_check_def)
  show "st_get (actor_owner sample_cx) ''task'' ''t1''
      (st_put 5 ''acme:u1'' ''task'' (JObj [(''id'', JStr ''t1''), (''count'', JNum 7)]) [])
      = Some (JObj [(''id'', JStr ''t1''), (''count'', JNum 7)])"
    by (simp add: st_get_put actor_owner_def sample_cx_def sample_actor_def jid_def jtext_def)
qed auto

end
