(* ===== verification/Ulid.thy ===== *)
theory Ulid
  imports Prelude
begin

text \<open>
  Event ids (apps/server/src/engine/events/ulid.ts): ten base-32 digits of the epoch
  milliseconds and sixteen random ones.  The random bytes are an argument.
\<close>

section \<open>Encoding and decoding\<close>

definition alphabet :: string where
  "alphabet = ''0123456789ABCDEFGHJKMNPQRSTVWXYZ''"

fun ulid_time :: "nat \<Rightarrow> nat \<Rightarrow> string \<Rightarrow> string" where
  "ulid_time 0 ts time = time"
| "ulid_time (Suc n) ts time = ulid_time n (ts div 32) (alphabet ! (ts mod 32) # time)"

definition ulid :: "nat \<Rightarrow> nat list \<Rightarrow> string" where
  "ulid now bytes = ulid_time 10 now [] @ map (\<lambda>b. alphabet ! (b mod 32)) (take 16 bytes)"

fun index_of :: "char \<Rightarrow> string \<Rightarrow> nat option" where
  "index_of c [] = None"
| "index_of c (d # s) = (if c = d then Some 0 else map_option Suc (index_of c s))"

fun decode_time :: "string \<Rightarrow> nat \<Rightarrow> nat" where
  "decode_time [] ts = ts"
| "decode_time (c # s) ts = (case index_of c alphabet of None \<Rightarrow> 0 | Some i \<Rightarrow> decode_time s (ts * 32 + i))"

definition timestamp_of :: "string \<Rightarrow> nat" where
  "timestamp_of i = (if length i < 10 \<or> 26 < length i then 0 else decode_time (take 10 i) 0)"

section \<open>Digits\<close>

lemma alphabet_index: "i < 32 \<Longrightarrow> index_of (alphabet ! i) alphabet = Some i"
proof -
  have "\<forall>i\<in>set [0..<32]. index_of (alphabet ! i) alphabet = Some i" by code_simp
  then show "i < 32 \<Longrightarrow> index_of (alphabet ! i) alphabet = Some i" by simp
qed

lemma alphabet_mono: "\<lbrakk> i < j; j < 32 \<rbrakk> \<Longrightarrow> alphabet ! i < alphabet ! j"
proof -
  have "\<forall>i\<in>set [0..<32]. \<forall>j\<in>set [0..<32]. i < j \<longrightarrow> alphabet ! i < alphabet ! j" by code_simp
  then show "\<lbrakk> i < j; j < 32 \<rbrakk> \<Longrightarrow> alphabet ! i < alphabet ! j" by simp
qed

lemma ulid_time_append: "ulid_time n ts time = ulid_time n ts [] @ time"
proof (induction n arbitrary: ts time)
  case (Suc n)
  show ?case
    using Suc [of "ts div 32" "alphabet ! (ts mod 32) # time"] Suc [of "ts div 32" "[alphabet ! (ts mod 32)]"]
    by simp
qed simp

lemma length_ulid_time [simp]: "length (ulid_time n ts time) = n + length time"
  by (induction n arbitrary: ts time) auto

definition digits_ok :: "string \<Rightarrow> bool" where
  "digits_ok s \<longleftrightarrow> (\<forall>c\<in>set s. index_of c alphabet \<noteq> None)"

lemma digits_ok_time: "digits_ok (ulid_time n ts [])"
  by (induction n arbitrary: ts)
    (simp_all add: digits_ok_def ulid_time_append [of _ _ "[_]"] alphabet_index)

lemma decode_snoc:
  "\<lbrakk> digits_ok s; i < 32 \<rbrakk> \<Longrightarrow> decode_time (s @ [alphabet ! i]) v = decode_time s v * 32 + i"
  by (induction s arbitrary: v) (auto simp: digits_ok_def alphabet_index)

lemma decode_ulid_time: "ts < 32 ^ n \<Longrightarrow> decode_time (ulid_time n ts []) 0 = ts"
proof (induction n arbitrary: ts)
  case (Suc n)
  then have "ts div 32 < 32 ^ n" by (simp add: less_mult_imp_div_less mult.commute)
  then show ?case using Suc.IH
    by (simp add: ulid_time_append [of _ _ "[_]"] decode_snoc digits_ok_time)
qed simp

lemma mod_power_div: "(ts mod 32 ^ Suc m) div 32 = (ts div 32) mod (32 ^ m :: nat)"
  by (simp add: mod_mult2_eq)

lemma ulid_time_msd: "ulid_time (Suc n) ts [] = alphabet ! ((ts div 32 ^ n) mod 32) # ulid_time n (ts mod 32 ^ n) []"
proof (induction n arbitrary: ts)
  case (Suc n)
  have "ulid_time (Suc (Suc n)) ts [] = ulid_time (Suc n) (ts div 32) [] @ [alphabet ! (ts mod 32)]"
    by (subst ulid_time.simps) (rule ulid_time_append)
  also have "\<dots> = (alphabet ! ((ts div 32 div 32 ^ n) mod 32) # ulid_time n (ts div 32 mod 32 ^ n) []) @ [alphabet ! (ts mod 32)]"
    by (simp only: Suc.IH)
  finally have 1: "ulid_time (Suc (Suc n)) ts [] =
    (alphabet ! ((ts div 32 div 32 ^ n) mod 32) # ulid_time n (ts div 32 mod 32 ^ n) []) @ [alphabet ! (ts mod 32)]" .
  have 2: "ulid_time n (ts div 32 mod 32 ^ n) [] @ [alphabet ! (ts mod 32)] = ulid_time (Suc n) (ts mod 32 ^ Suc n) []"
  proof -
    have "ts mod 32 ^ Suc n mod 32 = ts mod 32" by (simp add: mod_mod_cancel)
    then show ?thesis
      by (simp only: ulid_time.simps mod_power_div ulid_time_append [of n _ "[_]"])
  qed
  show ?case unfolding 1 append_Cons 2 by (simp only: div_mult2_eq power_Suc)
qed simp

lemma ulid_time_less:
  "\<lbrakk> ts < ts'; ts' < 32 ^ n \<rbrakk> \<Longrightarrow> ulid_time n ts [] < ulid_time n ts' []"
proof (induction n arbitrary: ts ts')
  case (Suc n)
  let ?d = "ts div 32 ^ n" and ?d' = "ts' div 32 ^ n"
  have small: "?d < 32" "?d' < 32"
    using Suc.prems by (auto simp: less_mult_imp_div_less)
  have "?d \<le> ?d'" using Suc.prems by (simp add: div_le_mono)
  then consider "?d < ?d'" | "?d = ?d'" "ts mod 32 ^ n < ts' mod 32 ^ n"
    using Suc.prems(1) by (metis div_mult_mod_eq le_neq_implies_less nat_add_left_cancel_less)
  then show ?case
  proof cases
    case 1
    then show ?thesis unfolding ulid_time_msd using small by (simp add: alphabet_mono)
  next
    case 2
    then show ?thesis unfolding ulid_time_msd using Suc.IH by simp
  qed
qed simp

lemma append_less: "\<lbrakk> s < t; length s = length t \<rbrakk> \<Longrightarrow> s @ u < t @ (v :: string)"
proof (induction s arbitrary: t)
  case (Cons a s)
  then show ?case by (cases t) auto
qed simp

section \<open>Properties\<close>

lemma ulid_roundtrip_and_order_parts:
  assumes "now < 32 ^ 10"
  shows "timestamp_of (ulid now bytes) = now"
    and "before < now \<Longrightarrow> ulid before bytes' < ulid now bytes"
proof -
  have "length (map (\<lambda>b. alphabet ! (b mod 32)) (take 16 bytes)) \<le> 16" by simp
  then show "timestamp_of (ulid now bytes) = now"
    using decode_ulid_time [OF assms] by (simp add: timestamp_of_def ulid_def)
  show "before < now \<Longrightarrow> ulid before bytes' < ulid now bytes"
    unfolding ulid_def using assms by (intro append_less ulid_time_less) auto
qed

text \<open>C30: an event id carries its instant and sorts by it.  For instants below 32 ^ 10 milliseconds
  (the year 37648), timestampOf reads back the instant the id was made at, and of two ids the one
  made at the earlier instant is the smaller string, whatever their random parts.\<close>
theorem ulid_roundtrip_and_order:
  assumes "now < 32 ^ 10"
  shows "timestamp_of (ulid now bytes) = now
    \<and> (\<forall>before<now. \<forall>bytes'. ulid before bytes' < ulid now bytes)"
  using ulid_roundtrip_and_order_parts [OF assms] by blast

theorem ulid_roundtrip_and_order_witness:
  "ulid 1700000000000 (replicate 16 255) < ulid 1700000000001 (replicate 16 0)"
  using ulid_roundtrip_and_order [of 1700000000001 "replicate 16 0"] by simp

end
