(* ===== verification/EventBus.thy ===== *)
theory EventBus
  imports TenantStore Ulid
begin

text \<open>
  The event bus (apps/server/src/engine/events): emit with its optional deduplication (bus.ts),
  the sink and the query over the records table (sinks/store.ts), replay (replay.ts), live
  subscribers (subscriber.ts) and retention (retention.ts, retention-purge.ts).

  The payload schemas of schemas.ts are a function of type and payload that gives the parsed
  payload or none.  Between the read and the conditional write of one attempt at recording a
  deduplication key other processes may act on the store: that is the argument \<open>others\<close>.
\<close>

section \<open>Events and their sink\<close>

record emit_options =
  eo_correlation :: "string option"
  eo_causation :: "string option"
  eo_dedupe :: "string option"
  eo_tenant :: "string option"
  eo_notify :: "(string \<times> string \<times> string) option"

definition plain_options :: emit_options where
  "plain_options = \<lparr> eo_correlation = None, eo_causation = None, eo_dedupe = None, eo_tenant = None, eo_notify = None \<rparr>"

record emit_env =
  ee_now :: int
  ee_clock :: int
  ee_id :: string
  ee_log_correlation :: "string option"

definition opt_field :: "string \<Rightarrow> string option \<Rightarrow> (string \<times> json) list" where
  "opt_field k v = (case v of None \<Rightarrow> [] | Some s \<Rightarrow> if s = [] then [] else [(k, JStr s)])"

definition event_json :: "emit_env \<Rightarrow> string \<Rightarrow> string \<Rightarrow> string \<times> string \<Rightarrow> json \<Rightarrow> emit_options \<Rightarrow> json" where
  "event_json env owner ty source parsed opts = JObj
     ([(''id'', JStr (ee_id env)), (''schemaVersion'', JStr ''1.0''),
       (''tenantId'', JStr (case eo_tenant opts of Some t \<Rightarrow> t | None \<Rightarrow> owner)),
       (''owner'', JStr owner), (''type'', JStr ty), (''emittedAt'', JDate (ee_now env)),
       (''source'', JObj [(''kind'', JStr (fst source)), (''id'', JStr (snd source))])]
      @ opt_field ''correlationId'' (case eo_correlation opts of Some c \<Rightarrow> Some c | None \<Rightarrow> ee_log_correlation env)
      @ opt_field ''causationId'' (eo_causation opts)
      @ [(''payload'', parsed)])"

definition sink_write :: "'s store \<Rightarrow> int \<Rightarrow> json \<Rightarrow> 's \<Rightarrow> 's" where
  "sink_write S clock ev s =
     snd (s_insert S clock (case jtext ev ''owner'' of Some ow \<Rightarrow> ow | None \<Rightarrow> []) ''system-events'' ev s)"

section \<open>Deduplication\<close>

definition dedupe_ttl :: int where "dedupe_ttl = 60000"
definition dedupe_max :: nat where "dedupe_max = 64"

type_synonym seen = "(string \<times> int) list"

fun seen_entry :: "json \<Rightarrow> (string \<times> int) option" where
  "seen_entry j = (case (jtext j ''key'', jdate (jget j ''at'')) of (Some k, Some t) \<Rightarrow> Some (k, t) | _ \<Rightarrow> None)"

definition seen_json :: "string \<times> int \<Rightarrow> json" where
  "seen_json e = JObj [(''key'', JStr (fst e)), (''at'', JDate (snd e))]"

definition seen_of :: "json \<Rightarrow> seen" where
  "seen_of j = List.map_filter seen_entry (jarr (jget j ''seen''))"

definition lru_json :: "seen \<Rightarrow> json" where
  "lru_json xs = JObj [(''id'', JStr ''lru''), (''seen'', JArr (map seen_json xs))]"

record 's bus =
  bus_store :: 's
  bus_memory :: "(string \<times> int) list"
  bus_negative :: "(string \<times> int) list"

definition is_duplicate :: "'s store \<Rightarrow> int \<Rightarrow> string \<Rightarrow> string \<Rightarrow> 's bus \<Rightarrow> bool \<times> 's bus" where
  "is_duplicate S now owner key b =
     (let negative = (case map_of (bus_negative b) (owner @ '':'' @ key) of
            None \<Rightarrow> False | Some t \<Rightarrow> t \<noteq> 0 \<and> now - t < 5000);
          hit = (case s_get S owner ''dedupe-state'' ''lru'' (bus_store b) of None \<Rightarrow> False
            | Some st \<Rightarrow> (\<exists>e\<in>set (seen_of st). fst e = key \<and> now - snd e < dedupe_ttl));
          cached = (case map_of (bus_memory b) key of None \<Rightarrow> False
            | Some t \<Rightarrow> t \<noteq> 0 \<and> now - t < dedupe_ttl)
      in if negative then (False, b)
         else if hit then (True, b\<lparr> bus_memory := AList.update key now (bus_memory b) \<rparr>)
         else (cached, b))"

definition remember_key :: "int \<Rightarrow> string \<Rightarrow> (string \<times> int) list \<Rightarrow> (string \<times> int) list" where
  "remember_key now key m =
     (let m1 = AList.update key now m
      in if length m1 > dedupe_max
         then (case sort_key snd m1 of [] \<Rightarrow> m1 | oldest # _ \<Rightarrow> AList.delete (fst oldest) m1)
         else m1)"

definition fresh_seen :: "int \<Rightarrow> seen \<Rightarrow> seen" where
  "fresh_seen now xs = filter (\<lambda>e. now - snd e < dedupe_ttl) xs"

definition last_n :: "nat \<Rightarrow> 'a list \<Rightarrow> 'a list" where
  "last_n n xs = drop (length xs - n) xs"

fun record_attempts :: "'s store \<Rightarrow> int \<Rightarrow> int \<Rightarrow> (nat \<Rightarrow> 's \<Rightarrow> 's) \<Rightarrow> string \<Rightarrow> string \<Rightarrow> nat \<Rightarrow> 's \<Rightarrow> bool \<times> 's" where
  "record_attempts S clock now others owner key 0 s = (False, s)"
| "record_attempts S clock now others owner key (Suc n) s =
     (let state = s_get S owner ''dedupe-state'' ''lru'' s;
          filtered = fresh_seen now (case state of None \<Rightarrow> [] | Some st \<Rightarrow> seen_of st);
          trimmed = last_n dedupe_max (filtered @ [(key, now)]);
          s1 = others n s
      in if \<exists>e\<in>set filtered. fst e = key then (True, s)
         else (case (case state of
             None \<Rightarrow> s_insert S clock owner ''dedupe-state'' (lru_json trimmed) s1
           | Some st \<Rightarrow> s_cas S clock owner ''dedupe-state'' ''lru''
               (JObj ((''id'', JStr ''lru'') # (case jget st ''seen'' of Some v \<Rightarrow> [(''seen'', v)] | None \<Rightarrow> [])))
               (JObj [(''seen'', JArr (map seen_json trimmed))]) s1) of
           (Some _, s2) \<Rightarrow> (True, s2)
         | (None, s2) \<Rightarrow> record_attempts S clock now others owner key n s2))"

definition record_dedupe :: "'s store \<Rightarrow> int \<Rightarrow> int \<Rightarrow> (nat \<Rightarrow> 's \<Rightarrow> 's) \<Rightarrow> string \<Rightarrow> string \<Rightarrow> 's bus \<Rightarrow> 's bus" where
  "record_dedupe S clock now others owner key b =
     b\<lparr> bus_memory := remember_key now key (bus_memory b),
        bus_store := snd (record_attempts S clock now others owner key 3 (bus_store b)) \<rparr>"

section \<open>Emit\<close>

definition notify_json :: "(string \<Rightarrow> string) \<Rightarrow> int \<Rightarrow> string \<times> string \<Rightarrow> string \<times> string \<times> string \<Rightarrow> json" where
  "notify_json sha256 now source n = (case n of (title, body, key) \<Rightarrow> JObj
     ([(''id'', JStr (sha256 key))]
      @ (if fst source = ''task'' then [(''taskId'', JStr (snd source))] else [])
      @ [(''title'', JStr (take 200 title)), (''body'', JStr (take 2000 body)),
         (''createdAt'', JDate now), (''read'', JBool False)]))"

definition emit_notify :: "'s store \<Rightarrow> (string \<Rightarrow> string) \<Rightarrow> emit_env \<Rightarrow> string \<Rightarrow> string \<Rightarrow> string \<times> string
    \<Rightarrow> emit_options \<Rightarrow> 's \<Rightarrow> 's" where
  "emit_notify S sha256 env owner ty source opts s = (case eo_notify opts of
     None \<Rightarrow> s
   | Some n \<Rightarrow>
      (let disabled = (case s_get S owner ''notification-prefs'' ''default'' s of
             None \<Rightarrow> [] | Some p \<Rightarrow> jarr (jget p ''disabled''))
       in if JStr ty \<in> set disabled then s
          else snd (s_insert S (ee_clock env) owner ''notifications'' (notify_json sha256 (ee_now env) source n) s)))"

definition emit :: "'s store \<Rightarrow> (string \<Rightarrow> json \<Rightarrow> json option) \<Rightarrow> (string \<Rightarrow> string) \<Rightarrow> (nat \<Rightarrow> 's \<Rightarrow> 's) \<Rightarrow> emit_env
    \<Rightarrow> string \<Rightarrow> string \<Rightarrow> string \<times> string \<Rightarrow> json \<Rightarrow> emit_options \<Rightarrow> 's bus \<Rightarrow> json list \<times> 's bus" where
  "emit S parse sha256 others env owner ty source payload opts b =
     (case parse ty payload of
        None \<Rightarrow> ([], b)
      | Some parsed \<Rightarrow>
         (let (dup, b1) = (case eo_dedupe opts of None \<Rightarrow> (False, b)
                | Some key \<Rightarrow> is_duplicate S (ee_now env) owner key b)
          in if dup then ([], b1)
             else (let ev = event_json env owner ty source parsed opts;
                       b2 = b1\<lparr> bus_store := sink_write S (ee_clock env) ev (bus_store b1) \<rparr>;
                       b3 = (case eo_dedupe opts of None \<Rightarrow> b2
                              | Some key \<Rightarrow> record_dedupe S (ee_clock env) (ee_now env) others owner key b2)
                   in ([ev], b3\<lparr> bus_store := emit_notify S sha256 env owner ty source opts (bus_store b3) \<rparr>))))"

section \<open>Queries and replay\<close>

record event_filter =
  ef_types :: "string list option"
  ef_since :: "int option"
  ef_until :: "int option"
  ef_limit :: "nat option"
  ef_source :: "string option"
  ef_project :: "string option"
  ef_since_id :: "string option"

definition no_filter :: event_filter where
  "no_filter = \<lparr> ef_types = None, ef_since = None, ef_until = None, ef_limit = None, ef_source = None,
     ef_project = None, ef_since_id = None \<rparr>"

definition sub_text :: "json \<Rightarrow> string \<Rightarrow> string \<Rightarrow> string option" where
  "sub_text j k k' = (case jget j k of None \<Rightarrow> None | Some x \<Rightarrow> jtext x k')"

definition filter_limit :: "event_filter \<Rightarrow> nat" where
  "filter_limit f = min (case ef_limit f of Some n \<Rightarrow> n | None \<Rightarrow> 100) 200"

definition some_text :: "string option \<Rightarrow> string option" where
  "some_text x = (case x of Some s \<Rightarrow> if s = [] then None else Some s | None \<Rightarrow> None)"

definition matches_filter :: "event_filter \<Rightarrow> json \<Rightarrow> bool" where
  "matches_filter f j \<longleftrightarrow>
     (case ef_since f of None \<Rightarrow> True | Some t \<Rightarrow> (case jdate (jget j ''emittedAt'') of None \<Rightarrow> False | Some u \<Rightarrow> t \<le> u))
   \<and> (case ef_until f of None \<Rightarrow> True | Some t \<Rightarrow> (case jdate (jget j ''emittedAt'') of None \<Rightarrow> False | Some u \<Rightarrow> u \<le> t))
   \<and> (case some_text (ef_source f) of None \<Rightarrow> True | Some i \<Rightarrow> sub_text j ''source'' ''id'' = Some i)
   \<and> (case some_text (ef_project f) of None \<Rightarrow> True | Some i \<Rightarrow> sub_text j ''payload'' ''projectId'' = Some i)
   \<and> (case ef_types f of None \<Rightarrow> True | Some ts \<Rightarrow> ts = [] \<or> (case jtext j ''type'' of None \<Rightarrow> False | Some t \<Rightarrow> t \<in> set ts))"

definition newest_first :: "row \<Rightarrow> int \<times> string" where
  "newest_first r = (case jdate (jget (row_data r) ''emittedAt'') of Some t \<Rightarrow> t | None \<Rightarrow> 0, row_id r)"

definition recent :: "'s store \<Rightarrow> string \<Rightarrow> event_filter \<Rightarrow> 's \<Rightarrow> json list" where
  "recent S owner f s = map row_data (take (filter_limit f) (rev (sort_key newest_first
     (filter (\<lambda>r. row_owner r = owner \<and> row_kind r = ''system-events'' \<and> matches_filter f (row_data r)) (s_raw S s)))))"

definition aggregate :: "'s store \<Rightarrow> int \<Rightarrow> string \<Rightarrow> int \<Rightarrow> 's \<Rightarrow> (string \<times> nat) list" where
  "aggregate S now owner hours s =
     (let rows = filter (\<lambda>r. row_owner r = owner \<and> row_kind r = ''system-events''
            \<and> (case jdate (jget (row_data r) ''emittedAt'') of None \<Rightarrow> False | Some t \<Rightarrow> now - hours * 3600000 \<le> t)) (s_raw S s);
          types = List.map_filter (\<lambda>r. jtext (row_data r) ''type'') rows
      in rev (sort_key snd (map (\<lambda>t. (t, length (filter ((=) t) types))) (rev (remdups types)))))"

record replay_options =
  rp_from :: "int option"
  rp_to :: "int option"
  rp_types :: "string list option"
  rp_limit :: "nat option"

definition replay_events :: "(event_filter \<Rightarrow> json list) \<Rightarrow> replay_options \<Rightarrow> json list \<times> bool" where
  "replay_events query opts =
     (let limit = min (case rp_limit opts of Some n \<Rightarrow> n | None \<Rightarrow> 1000) 10000;
          events = query \<lparr> ef_types = (case rp_types opts of Some [t] \<Rightarrow> Some [t] | _ \<Rightarrow> None),
             ef_since = rp_from opts, ef_until = rp_to opts, ef_limit = Some limit, ef_source = None,
             ef_project = None, ef_since_id = None \<rparr>;
          filtered = (case rp_types opts of
             Some (t # u # ts) \<Rightarrow> filter (\<lambda>e. case jtext e ''type'' of None \<Rightarrow> False | Some x \<Rightarrow> x \<in> set (t # u # ts)) events
           | _ \<Rightarrow> events)
      in (filtered, length events \<ge> limit))"

section \<open>Subscribers\<close>

record subscriber =
  sub_id :: nat
  sub_owner :: string
  sub_types :: "string list option"

definition deliveries :: "subscriber list \<Rightarrow> json \<Rightarrow> nat list" where
  "deliveries subs ev = map sub_id (filter (\<lambda>x. Some (sub_owner x) = jtext ev ''owner''
     \<and> (case sub_types x of None \<Rightarrow> True | Some ts \<Rightarrow> (case jtext ev ''type'' of None \<Rightarrow> False | Some t \<Rightarrow> t \<in> set ts))) subs)"

definition subscribe :: "string \<Rightarrow> string list option \<Rightarrow> nat \<times> subscriber list \<Rightarrow> nat \<times> (nat \<times> subscriber list)" where
  "subscribe owner types st = (let n = Suc (fst st)
     in (n, (n, snd st @ [\<lparr> sub_id = n, sub_owner = owner, sub_types = types \<rparr>])))"

definition unsubscribe :: "nat \<Rightarrow> nat \<times> subscriber list \<Rightarrow> nat \<times> subscriber list" where
  "unsubscribe n st = (fst st, filter (\<lambda>x. sub_id x \<noteq> n) (snd st))"

definition subscriber_count :: "string option \<Rightarrow> nat \<times> subscriber list \<Rightarrow> nat" where
  "subscriber_count owner st = (case owner of
     Some ow \<Rightarrow> if ow = [] then length (snd st) else length (filter (\<lambda>x. sub_owner x = ow) (snd st))
   | None \<Rightarrow> length (snd st))"

section \<open>Retention\<close>

definition retention_rules :: "(string \<times> nat) list" where
  "retention_rules = [(''auth.'', 365), (''policy.'', 365), (''state.'', 365), (''task.'', 90), (''sop.'', 90),
     (''action.'', 90), (''agent.'', 90), (''context.'', 30), (''entity.'', 180), (''relation.'', 180),
     (''monitor.'', 30), (''system.maintenance'', 7), (''system.startup'', 30), (''system.error'', 180),
     (''system.google_disconnected'', 30), (''view.'', 7)]"

definition rule_matches :: "string \<Rightarrow> string \<Rightarrow> bool" where
  "rule_matches pattern ty \<longleftrightarrow>
     (let prefix = (if pattern \<noteq> [] \<and> last pattern = last ''.'' then pattern else pattern @ ''.'')
      in ty = pattern \<or> str_starts prefix ty)"

definition retention_days_for :: "string \<Rightarrow> nat" where
  "retention_days_for ty = (case find (\<lambda>r. rule_matches (fst r) ty) retention_rules of
     Some r \<Rightarrow> snd r | None \<Rightarrow> 90)"

definition group_by_retention :: "string list \<Rightarrow> (nat \<times> string list) list" where
  "group_by_retention types = fold (\<lambda>ty m. let d = retention_days_for ty
     in AList.update d ((case map_of m d of Some xs \<Rightarrow> xs | None \<Rightarrow> []) @ [ty]) m) types []"

definition purge_type :: "int \<Rightarrow> string \<Rightarrow> nat \<Rightarrow> table \<Rightarrow> table" where
  "purge_type now ty days d = filter (\<lambda>r. \<not> (row_kind r = ''system-events'' \<and> jtext (row_data r) ''type'' = Some ty
     \<and> row_updated r < now - int days * 86400000000)) d"

text \<open>The turn of the maintenance loop that purges the events: everything older than ninety days, then
  each type with a shorter retention.\<close>

definition purge_events :: "int \<Rightarrow> string list \<Rightarrow> table \<Rightarrow> table" where
  "purge_events now types d =
     fold (\<lambda>(days, tys) d1. if days \<ge> 90 then d1 else fold (\<lambda>ty. purge_type now ty days) tys d1)
       (group_by_retention types) (snd (purge_older_than now ''system-events'' 90 d))"

definition kernel_kinds :: "string list" where
  "kernel_kinds = [''kernel-thought-index'', ''kernel-turn-index'', ''kernel-audit-index'', ''meta-hints'', ''dead-letter'']"

definition purge_kernel_retention :: "int \<Rightarrow> (string \<times> nat) list \<Rightarrow> table \<Rightarrow> (string \<times> nat \<times> nat) list \<times> table" where
  "purge_kernel_retention now extra d = fold (\<lambda>k (rep, d1).
       let days = (case map_of extra k of Some n \<Rightarrow> n | None \<Rightarrow> 90);
           (n, d2) = purge_older_than now k days d1
       in (rep @ [(k, days, n)], d2)) kernel_kinds ([], d)"

section \<open>The recorded keys\<close>

lemma seen_entry_of [simp]: "seen_entry (seen_json e) = Some e"
  by (simp add: seen_json_def jtext_def)

declare seen_entry.simps [simp del]

lemma seen_of_lru [simp]: "seen_of (lru_json xs) = xs"
  by (induction xs) (simp_all add: seen_of_def lru_json_def map_filter_simps)

lemma seen_of_set: "seen_of (JObj [(''id'', i), (''seen'', JArr (map seen_json xs))]) = xs"
  using seen_of_lru [of xs] by (simp add: seen_of_def lru_json_def)

lemma jid_lru [simp]: "jid (lru_json xs) = ''lru''"
  by (simp add: lru_json_def jid_def jtext_def)

lemma entry_contains [simp]: "jcontains (seen_json e) (seen_json e') \<longleftrightarrow> e = e'"
  by (cases e; cases e') (auto simp: seen_json_def)

lemma lru_contains:
  "set xs \<subseteq> set ys \<Longrightarrow>
   jcontains (lru_json ys) (JObj [(''id'', JStr ''lru''), (''seen'', JArr (map seen_json xs))])"
  by (auto simp: lru_json_def)

lemma lru_merge: "jmerge (lru_json ys) (JObj [(''seen'', JArr (map seen_json xs))]) = lru_json xs"
  by (simp add: lru_json_def fields_merge_def)

lemma last_n_snoc: "0 < n \<Longrightarrow> x \<in> set (last_n n (xs @ [x]))"
  by (cases n) (auto simp: last_n_def)

lemma last_n_short: "length xs \<le> n \<Longrightarrow> last_n n xs = xs"
  by (simp add: last_n_def)

definition lru_state :: "'s store \<Rightarrow> string \<Rightarrow> 's \<Rightarrow> seen option \<Rightarrow> bool" where
  "lru_state S owner s x \<longleftrightarrow> s_get S owner ''dedupe-state'' ''lru'' s = map_option lru_json x"

definition seen_list :: "seen option \<Rightarrow> seen" where
  "seen_list x = (case x of None \<Rightarrow> [] | Some xs \<Rightarrow> xs)"

context record_store
begin

text \<open>One attempt, when what the store holds at the conditional write still contains what was read.\<close>

lemma attempt_writes:
  assumes "lru_state S owner s (Some xs)" "lru_state S owner (others n s) (Some ys)" "set xs \<subseteq> set ys"
    and "\<forall>e\<in>set (fresh_seen now xs). fst e \<noteq> key"
  shows "\<exists>s2. record_attempts S clock now others owner key (Suc n) s = (True, s2)
     \<and> lru_state S owner s2 (Some (last_n dedupe_max (fresh_seen now xs @ [(key, now)])))
     \<and> (\<forall>k i. k \<noteq> ''dedupe-state'' \<longrightarrow> s_get S owner k i s2 = s_get S owner k i (others n s))"
proof -
  let ?t = "last_n dedupe_max (fresh_seen now xs @ [(key, now)])"
  let ?e = "JObj [(''id'', JStr ''lru''), (''seen'', JArr (map seen_json xs))]"
  let ?c = "s_cas S clock owner ''dedupe-state'' ''lru'' ?e (JObj [(''seen'', JArr (map seen_json ?t))]) (others n s)"
  have get: "s_get S owner ''dedupe-state'' ''lru'' s = Some (lru_json xs)"
      "s_get S owner ''dedupe-state'' ''lru'' (others n s) = Some (lru_json ys)"
    using assms(1,2) by (simp_all add: lru_state_def)
  have cas: "fst ?c = Some (lru_json ?t)"
    using cas_SomeI [OF get(2) lru_contains [OF assms(3)]] by (simp add: lru_merge)
  have e: "jget (lru_json xs) ''seen'' = Some (JArr (map seen_json xs))" by (simp add: lru_json_def)
  have "record_attempts S clock now others owner key (Suc n) s = (True, snd ?c)"
    using get(1) cas assms(4) e by (cases ?c) (auto simp: Let_def)
  moreover have "lru_state S owner (snd ?c) (Some ?t)"
    using cas_get_own [OF cas] by (simp add: lru_state_def)
  ultimately show ?thesis by (auto simp: cas_frame)
qed

lemma attempt_inserts:
  assumes "lru_state S owner s None" "others n s = s"
  shows "\<exists>s2. record_attempts S clock now others owner key (Suc n) s = (True, s2)
     \<and> lru_state S owner s2 (Some [(key, now)])
     \<and> (\<forall>k i. k \<noteq> ''dedupe-state'' \<longrightarrow> s_get S owner k i s2 = s_get S owner k i s)"
proof -
  let ?c = "s_insert S clock owner ''dedupe-state'' (lru_json [(key, now)]) s"
  have get: "s_get S owner ''dedupe-state'' ''lru'' s = None" using assms(1) by (simp add: lru_state_def)
  have "fst ?c = Some (lru_json [(key, now)])" using get by (simp add: insert_result)
  then have "record_attempts S clock now others owner key (Suc n) s = (True, snd ?c)"
    using get assms(2) by (cases ?c) (simp add: fresh_seen_def last_n_def dedupe_max_def Let_def)
  then show ?thesis using get by (auto simp: get_insert lru_state_def)
qed

lemma attempt_alone:
  assumes "lru_state S owner s x" "\<forall>n s. others n s = s" "\<forall>e\<in>set (fresh_seen now (seen_list x)). fst e \<noteq> key"
  shows "\<exists>xs. lru_state S owner (snd (record_attempts S clock now others owner key (Suc n) s)) (Some xs) \<and> (key, now) \<in> set xs"
proof (cases x)
  case None
  then show ?thesis using attempt_inserts [of owner s others n clock now key] assms by (auto simp: exI [of _ "[(key, now)]"])
next
  case (Some xs)
  have "\<exists>s2. record_attempts S clock now others owner key (Suc n) s = (True, s2)
     \<and> lru_state S owner s2 (Some (last_n dedupe_max (fresh_seen now xs @ [(key, now)])))
     \<and> (\<forall>k i. k \<noteq> ''dedupe-state'' \<longrightarrow> s_get S owner k i s2 = s_get S owner k i (others n s))"
    using assms Some by (intro attempt_writes [where ys = xs]) (simp_all add: seen_list_def)
  then show ?thesis using last_n_snoc [of dedupe_max "(key, now)" "fresh_seen now xs"]
    by (auto simp: dedupe_max_def)
qed

lemma lru_state_sink: "lru_state S owner (sink_write S clock ev s) x = lru_state S owner s x"
  by (simp add: lru_state_def sink_write_def get_insert)

lemma lru_state_notify: "lru_state S owner (emit_notify S sha env owner ty src opts s) x = lru_state S owner s x"
  by (auto simp: lru_state_def emit_notify_def get_insert Let_def split: option.splits)

lemma duplicate_of_lru:
  assumes "bus_negative b = []" "lru_state S owner (bus_store b) (Some xs)" "(key, t) \<in> set xs" "now - t < dedupe_ttl"
  shows "fst (is_duplicate S now owner key b)" "bus_store (snd (is_duplicate S now owner key b)) = bus_store b"
  using assms by (auto simp: is_duplicate_def lru_state_def Let_def)

lemma not_duplicate_fresh:
  assumes "bus_negative b = []" "lru_state S owner (bus_store b) x" "\<not> fst (is_duplicate S now owner key b)"
  shows "\<forall>e\<in>set (fresh_seen now (seen_list x)). fst e \<noteq> key" "snd (is_duplicate S now owner key b) = b"
  using assms by (auto simp: is_duplicate_def lru_state_def Let_def fresh_seen_def seen_list_def
      split: option.splits if_splits)

lemma emit_records:
  assumes "bus_negative b = []" "lru_state S owner (bus_store b) x" "\<forall>n s. others n s = s"
    and "eo_dedupe opts = Some key" "emit S parse sha others env owner ty src payload opts b = ([ev], b')"
  shows "bus_negative b' = [] \<and> (\<exists>xs. lru_state S owner (bus_store b') (Some xs) \<and> (key, ee_now env) \<in> set xs)"
proof -
  obtain parsed where p: "parse ty payload = Some parsed"
    using assms(5) by (auto simp: emit_def split: option.splits)
  have nd: "\<not> fst (is_duplicate S (ee_now env) owner key b)"
    using assms(4,5) p by (auto simp: emit_def Let_def split: prod.splits)
  note fresh = not_duplicate_fresh [OF assms(1,2) nd]
  have b1: "is_duplicate S (ee_now env) owner key b = (False, b)"
    using nd fresh(2) by (simp add: prod_eq_iff)
  let ?ev = "event_json env owner ty src parsed opts"
  let ?s = "sink_write S (ee_clock env) ?ev (bus_store b)"
  have b': "b' = b\<lparr> bus_memory := remember_key (ee_now env) key (bus_memory b),
      bus_store := emit_notify S sha env owner ty src opts
        (snd (record_attempts S (ee_clock env) (ee_now env) others owner key 3 ?s)) \<rparr>"
    using assms(4,5) p b1 by (auto simp: emit_def record_dedupe_def Let_def)
  have "lru_state S owner ?s x" using assms(2) by (simp add: lru_state_sink)
  from attempt_alone [OF this assms(3) fresh(1), of "ee_clock env" 2] show ?thesis
    by (auto simp: b' lru_state_notify assms(1) numeral_3_eq_3 numeral_2_eq_2)
qed

lemma emit_suppressed:
  assumes "bus_negative b = []" "lru_state S owner (bus_store b) (Some xs)" "(key, t) \<in> set xs"
    and "ee_now env - t < dedupe_ttl" "eo_dedupe opts = Some key"
  shows "fst (emit S parse sha others env owner ty src payload opts b) = []
     \<and> bus_store (snd (emit S parse sha others env owner ty src payload opts b)) = bus_store b"
  using duplicate_of_lru [OF assms(1-4)] assms(5)
  by (cases "is_duplicate S (ee_now env) owner key b") (auto simp: emit_def split: option.splits)

end

section \<open>Properties\<close>

definition sample_emit_env :: "int \<Rightarrow> string \<Rightarrow> emit_env" where
  "sample_emit_env t i = \<lparr> ee_now = t, ee_clock = t * 1000, ee_id = i, ee_log_correlation = None \<rparr>"

definition sample_bus :: "table bus" where
  "sample_bus = \<lparr> bus_store = [], bus_memory = [], bus_negative = [] \<rparr>"

definition keyed :: "string \<Rightarrow> emit_options" where
  "keyed k = plain_options\<lparr> eo_dedupe := Some k \<rparr>"

text \<open>A deduplication key holds for its window.  When an emission with a key has been written and
  no other process interfered, an emission of the same owner with the same key less than sixty
  seconds after it writes nothing and leaves the store as it was, whatever its type and payload.\<close>
theorem dedupe_window:
  assumes "bus_negative b = []" "lru_state plain_store owner (bus_store b) x" "\<forall>n s. others n s = s"
    and "eo_dedupe opts = Some key" "eo_dedupe opts' = Some key"
    and "emit plain_store parse sha others env owner ty src payload opts b = ([ev], b')"
    and "ee_now env' - ee_now env < dedupe_ttl"
  shows "fst (emit plain_store parse sha others' env' owner ty' src' payload' opts' b') = []
     \<and> bus_store (snd (emit plain_store parse sha others' env' owner ty' src' payload' opts' b')) = bus_store b'"
proof -
  have "bus_negative b' = [] \<and> (\<exists>xs. lru_state plain_store owner (bus_store b') (Some xs) \<and> (key, ee_now env) \<in> set xs)"
    by (rule ps.emit_records [OF assms(1-4,6)])
  then show ?thesis using ps.emit_suppressed [of b' owner _ key "ee_now env" env' opts'] assms(5,7) by blast
qed

theorem dedupe_window_witness:
  "fst (emit plain_store (\<lambda>ty j. Some j) id (\<lambda>n s. s) (sample_emit_env 59999 ''B'') ''u1'' ''sop.step_started''
      (''sop'', ''s1'') (JObj []) (keyed ''k'')
      (snd (emit plain_store (\<lambda>ty j. Some j) id (\<lambda>n s. s) (sample_emit_env 1000 ''A'') ''u1'' ''sop.step_started''
         (''sop'', ''s1'') (JObj []) (keyed ''k'') sample_bus))) = []"
proof -
  have 1: "bus_negative sample_bus = []" by (simp add: sample_bus_def)
  have 2: "lru_state plain_store ''u1'' (bus_store sample_bus) None"
    by (simp add: lru_state_def sample_bus_def st_get_def)
  have "\<exists>ev b'. emit plain_store (\<lambda>ty j. Some j) id (\<lambda>n s. s) (sample_emit_env 1000 ''A'') ''u1'' ''sop.step_started''
         (''sop'', ''s1'') (JObj []) (keyed ''k'') sample_bus = ([ev], b')"
    by (simp add: emit_def keyed_def plain_options_def is_duplicate_def sample_bus_def st_get_def Let_def)
  then obtain ev b' where e: "emit plain_store (\<lambda>ty j. Some j) id (\<lambda>n s. s) (sample_emit_env 1000 ''A'') ''u1'' ''sop.step_started''
         (''sop'', ''s1'') (JObj []) (keyed ''k'') sample_bus = ([ev], b')" by blast
  show ?thesis unfolding e snd_conv
    by (rule dedupe_window [OF 1 2 _ _ _ e, THEN conjunct1]) (simp_all add: keyed_def sample_emit_env_def dedupe_ttl_def)
qed

text \<open>The in-process part of the deduplication is not per owner.  After one owner's emission with a
  key, the first emission ever of another owner with the same key within the window is dropped: nothing
  is written for that owner.\<close>
theorem dedupe_crosses_owners:
  assumes "map_of (bus_memory b) key = Some t" "t \<noteq> 0" "ee_now env - t < dedupe_ttl"
    and "bus_negative b = []" "st_get other ''dedupe-state'' ''lru'' (bus_store b) = None" "eo_dedupe opts = Some key"
  shows "emit plain_store parse sha others env other ty src payload opts b = ([], b)"
  using assms by (auto simp: emit_def is_duplicate_def Let_def split: option.splits)

theorem dedupe_crosses_owners_witness:
  "emit plain_store (\<lambda>ty j. Some j) id (\<lambda>n s. s) (sample_emit_env 30000 ''B'') ''other-company'' ''sop.step_started''
     (''sop'', ''s1'') (JObj []) (keyed ''k'')
     \<lparr> bus_store = [], bus_memory = remember_key 1000 ''k'' [], bus_negative = [] \<rparr>
   = ([], \<lparr> bus_store = [], bus_memory = remember_key 1000 ''k'' [], bus_negative = [] \<rparr>)"
  by (rule dedupe_crosses_owners [where key = "''k''" and t = 1000])
    (simp_all add: remember_key_def dedupe_max_def sample_emit_env_def dedupe_ttl_def st_get_def keyed_def)

text \<open>Recording a key can lose the key of a concurrent process.  The compare-and-swap expects the list
  it read, but containment of arrays also accepts any list that has more in it: when another process
  added its keys between the read and the write, the write still succeeds at the first attempt and the
  stored list is the one read plus the own key, without the others.\<close>
theorem dedupe_update_lost:
  assumes "lru_state plain_store owner s (Some xs)" "lru_state plain_store owner (others 2 s) (Some ys)"
    and "set xs \<subseteq> set ys" "(k2, t2) \<in> set ys" "k2 \<notin> fst ` set xs" "k2 \<noteq> key"
    and "\<forall>e\<in>set (fresh_seen now xs). fst e \<noteq> key" "length xs < dedupe_max"
  shows "\<exists>zs. lru_state plain_store owner
      (bus_store (record_dedupe plain_store clock now others owner key (b\<lparr> bus_store := s \<rparr>))) (Some zs)
    \<and> k2 \<notin> fst ` set zs"
proof -
  have "length (fresh_seen now xs @ [(key, now)]) \<le> dedupe_max"
    using le_less_trans [OF length_filter_le assms(8), of "\<lambda>e. now - snd e < dedupe_ttl"]
    by (simp add: fresh_seen_def Suc_le_eq)
  then have short: "last_n dedupe_max (fresh_seen now xs @ [(key, now)]) = fresh_seen now xs @ [(key, now)]"
    by (rule last_n_short)
  have three: "(3 :: nat) = Suc 2" by simp
  obtain s2 where "record_attempts plain_store clock now others owner key 3 s = (True, s2)"
      "lru_state plain_store owner s2 (Some (fresh_seen now xs @ [(key, now)]))"
    using ps.attempt_writes [of owner s xs others 2 ys now key clock, OF assms(1,2,3,7)]
    unfolding short three by blast
  then show ?thesis using assms(5,6)
    by (intro exI [of _ "fresh_seen now xs @ [(key, now)]"]) (auto simp: record_dedupe_def fresh_seen_def)
qed

theorem dedupe_update_lost_witness:
  "\<exists>zs. lru_state plain_store ''u1'' (bus_store (record_dedupe plain_store 9 500
      (\<lambda>n d. st_put 8 ''u1'' ''dedupe-state'' (lru_json [(''a'', 100), (''b'', 400)]) d) ''u1'' ''c''
      (sample_bus\<lparr> bus_store := st_put 7 ''u1'' ''dedupe-state'' (lru_json [(''a'', 100)]) [] \<rparr>))) (Some zs)
    \<and> ''b'' \<notin> fst ` set zs"
  by (rule dedupe_update_lost [where xs = "[(''a'', 100)]" and ys = "[(''a'', 100), (''b'', 400)]" and ?t2.0 = 400])
    (simp_all add: lru_state_def st_get_put fresh_seen_def dedupe_ttl_def dedupe_max_def)

text \<open>On the tenant-scoped store, which app.ts builds the bus with, the event queries find nothing.
  The sink writes under the composed owner and the query selects the plain owner, so as long as every
  row was written under a composed owner and the caller's owner has no colon, every query and every
  aggregate is empty, the event just written included.\<close>
theorem scoped_queries_empty:
  assumes "\<forall>r\<in>set (t_table s). \<exists>t ow. row_owner r = compose t ow" "colon \<notin> set owner"
    and "jtext ev ''owner'' = Some owner"
    and "st_get (compose (res owner) owner) ''system-events'' (jid ev) (t_table s) = None"
  shows "st_get (compose (res owner) owner) ''system-events'' (jid ev) (t_table (sink_write (scoped_store res) clock ev s)) = Some ev
    \<and> recent (scoped_store res) owner f (sink_write (scoped_store res) clock ev s) = []
    \<and> aggregate (scoped_store res) now owner hours (sink_write (scoped_store res) clock ev s) = []"
proof -
  let ?d = "t_table (sink_write (scoped_store res) clock ev s)"
  have d: "?d = snd (st_insert clock (compose (res owner) owner) ''system-events'' ev (t_table s))"
    using assms(3) by (simp add: sink_write_def)
  have rows: "row_owner r \<noteq> owner" if r: "r \<in> set ?d" for r
  proof -
    have "r \<in> set (t_table s) \<or> row_owner r = compose (res owner) owner"
      using r set_update_subset by (fastforce simp: d st_insert_def split: option.splits)
    then obtain t ow where "row_owner r = compose t ow" using assms(1) by blast
    then show ?thesis using assms(2) by (auto simp: compose_def)
  qed
  have "filter (\<lambda>r. row_owner r = owner \<and> P r) ?d = []" for P
    using rows by (auto simp: filter_empty_conv)
  then show ?thesis using assms(4)
    by (simp add: recent_def aggregate_def d st_get_insert map_filter_simps)
qed

theorem scoped_queries_empty_witness:
  "recent (scoped_store (request_resolver (Some ''acme'') id)) ''u1'' no_filter
     (sink_write (scoped_store (request_resolver (Some ''acme'') id)) 5
        (event_json (sample_emit_env 1000 ''A'') ''u1'' ''task.created'' (''task'', ''t1'') (JObj []) plain_options)
        \<lparr> t_table = [], t_prefixes = [] \<rparr>) = []"
  using scoped_queries_empty [of "\<lparr> t_table = [], t_prefixes = [] \<rparr>" "''u1''"
      "event_json (sample_emit_env 1000 ''A'') ''u1'' ''task.created'' (''task'', ''t1'') (JObj []) plain_options"
      "request_resolver (Some ''acme'') id" 5 no_filter]
  by (simp add: colon_def event_json_def jtext_def st_get_def)

text \<open>Replay never reports truncation at its default limit.  The query behind it returns at most two
  hundred events, so for every limit above that, the default of a thousand included, the
  \<open>truncated\<close> flag is false however many events there are.\<close>
theorem replay_never_truncated:
  assumes "case rp_limit opts of None \<Rightarrow> True | Some n \<Rightarrow> 200 < n"
  shows "snd (replay_events (\<lambda>f. recent S owner f s) opts) = False"
proof -
  have "length (recent S owner f s) \<le> 200" for f
    by (simp add: recent_def filter_limit_def)
  then have "\<not> n \<le> length (recent S owner f s)" if "200 < n" for n f
    using that by (meson less_le_trans not_le)
  then show ?thesis using assms by (auto simp: replay_events_def Let_def split: option.splits)
qed

theorem replay_never_truncated_witness:
  "snd (replay_events (\<lambda>f. recent plain_store ''u1'' f
      (map (\<lambda>n. ((''u1'', ''system-events'', replicate n (CHR ''A'')), JObj [(''type'', JStr ''task.created'')], 0)) [0..<500]))
      \<lparr> rp_from = None, rp_to = None, rp_types = None, rp_limit = None \<rparr>) = False"
  by (rule replay_never_truncated) simp

text \<open>The retention of a year is not honoured.  The table of retention rules keeps authentication,
  policy and state events for 365 days, but the maintenance purge first deletes every event older than
  ninety days, so no such event survives it whatever its type.\<close>
theorem purge_ignores_long_retention:
  "retention_days_for ''auth.login'' = 365 \<and> retention_days_for ''policy.denied'' = 365
   \<and> retention_days_for ''state.changed'' = 365
   \<and> (\<forall>r\<in>set (purge_events now types d).
        \<not> (row_kind r = ''system-events'' \<and> row_updated r < now - 90 * 86400000000))"
proof -
  have type: "set (purge_type now ty days d1) \<subseteq> set d1" for ty days d1 by (auto simp: purge_type_def)
  have tys: "set (fold (\<lambda>ty. purge_type now ty days) tys d1) \<subseteq> set d1" for days tys d1
    using type by (induction tys arbitrary: d1) fastforce+
  have groups: "set (fold (\<lambda>(days, tys) d1. if days \<ge> 90 then d1 else fold (\<lambda>ty. purge_type now ty days) tys d1) gs d1) \<subseteq> set d1"
    for gs :: "(nat \<times> string list) list" and d1
  proof (induction gs arbitrary: d1)
    case (Cons g gs)
    show ?case using Cons [of d1] Cons [of "fold (\<lambda>ty. purge_type now ty (fst g)) (snd g) d1"] tys [of "fst g" "snd g" d1]
      by (auto simp: case_prod_beta)
  qed simp
  have "set (purge_events now types d) \<subseteq> set (snd (purge_older_than now ''system-events'' 90 d))"
    unfolding purge_events_def by (rule groups)
  then have "\<forall>r\<in>set (purge_events now types d).
        \<not> (row_kind r = ''system-events'' \<and> row_updated r < now - 90 * 86400000000)"
    by (auto simp: purge_older_than_def Let_def)
  moreover have "retention_days_for ''auth.login'' = 365" "retention_days_for ''policy.denied'' = 365"
    "retention_days_for ''state.changed'' = 365" by code_simp+
  ultimately show ?thesis by blast
qed

theorem purge_ignores_long_retention_witness:
  "purge_events 100000000000000 [''auth.login''] [((''u1'', ''system-events'', ''A''),
      JObj [(''id'', JStr ''A''), (''type'', JStr ''auth.login'')], 100000000000000 - 91 * 86400000000)] = []"
proof (rule ccontr)
  let ?d = "[((''u1'', ''system-events'', ''A''), JObj [(''id'', JStr ''A''), (''type'', JStr ''auth.login'')],
      100000000000000 - 91 * 86400000000)]"
  assume "purge_events 100000000000000 [''auth.login''] ?d \<noteq> []"
  moreover have "set (purge_events 100000000000000 [''auth.login''] ?d) \<subseteq> set ?d"
    by (simp add: purge_events_def purge_older_than_def Let_def group_by_retention_def purge_type_def case_prod_beta)
  ultimately have "?d ! 0 \<in> set (purge_events 100000000000000 [''auth.login''] ?d)"
    by (cases "purge_events 100000000000000 [''auth.login''] ?d") auto
  then show False
    using purge_ignores_long_retention [of 100000000000000 "[''auth.login'']" ?d] by auto
qed

end
