(* ===== verification/AuditTrail.thy ===== *)
theory AuditTrail
  imports TenantStore
begin

text \<open>
  The kernel's audit trail (apps/server/src/kernel/audit): the entry schema (entry.ts), the
  hash chain in memory (in-memory-store.ts) and on the Store with its anchor row (store-store.ts).

  The hash of an entry is \<open>hashf\<close> of the JSON object the code hashes; it stands for SHA-256 of
  the serialised object, canonicalised first in the Store version.  Where other processes may
  act between two awaits of an append, the arguments \<open>others1\<close> and \<open>others2\<close> act on the store.
\<close>

section \<open>Entries\<close>

record audit_input =
  ai_tenant :: string
  ai_owner :: string
  ai_action :: string
  ai_actor :: "string \<times> string"
  ai_payload :: json

record audit_entry =
  ae_id :: string
  ae_input :: audit_input
  ae_prev :: "string option"
  ae_hash :: string
  ae_time :: int

definition audit_actions :: "string list" where
  "audit_actions = [''turn.opened'', ''turn.closed'', ''turn.promoted'', ''thought.appended'', ''thought.promoted'',
     ''thought.discarded'', ''cromo.created'', ''cromo.updated'', ''cromo.deleted'', ''field.recalculated'',
     ''promotion.executed'', ''build.applied'', ''state.changed'', ''read.denied'', ''write.denied'', ''write.ok'',
     ''audit.read.denied'']"

definition payload_ok :: "json \<Rightarrow> bool" where
  "payload_ok p \<longleftrightarrow> is_obj p
     \<and> (case jget p ''field'' of None \<Rightarrow> True | Some v \<Rightarrow> v = JNull \<or> jstr (Some v) \<noteq> None)
     \<and> (case jget p ''classification'' of None \<Rightarrow> True
        | Some v \<Rightarrow> v = JNull \<or> v \<in> set (map JStr [''public'', ''internal'', ''confidential'', ''restricted'', ''secret'']))
     \<and> (case jget p ''allowed'' of None \<Rightarrow> True | Some v \<Rightarrow> v \<in> {JBool True, JBool False})"

definition audit_schema :: "audit_entry \<Rightarrow> bool" where
  "audit_schema e \<longleftrightarrow> len_in 1 100 (ae_id e) \<and> len_in 1 100 (ai_tenant (ae_input e))
     \<and> len_in 1 200 (ai_owner (ae_input e)) \<and> ai_action (ae_input e) \<in> set audit_actions
     \<and> len_in 1 50 (fst (ai_actor (ae_input e))) \<and> len_in 1 200 (snd (ai_actor (ae_input e)))
     \<and> payload_ok (ai_payload (ae_input e))
     \<and> (case ae_prev e of None \<Rightarrow> True | Some h \<Rightarrow> length h = 64) \<and> length (ae_hash e) = 64"

definition actor_json :: "string \<times> string \<Rightarrow> json" where
  "actor_json a = JObj [(''kind'', JStr (fst a)), (''id'', JStr (snd a))]"

definition hash_input :: "string \<Rightarrow> audit_input \<Rightarrow> int \<Rightarrow> string option \<Rightarrow> json" where
  "hash_input i inp t prev = JObj [(''id'', JStr i), (''tenantId'', JStr (ai_tenant inp)), (''owner'', JStr (ai_owner inp)),
     (''action'', JStr (ai_action inp)), (''actor'', actor_json (ai_actor inp)), (''payload'', ai_payload inp),
     (''timestamp'', JDate t), (''previousHash'', case prev of Some h \<Rightarrow> JStr h | None \<Rightarrow> JNull)]"

definition entry_input :: "audit_entry \<Rightarrow> json" where
  "entry_input e = hash_input (ae_id e) (ae_input e) (ae_time e) (ae_prev e)"

definition make_entry :: "(json \<Rightarrow> string) \<Rightarrow> string \<Rightarrow> int \<Rightarrow> string option \<Rightarrow> audit_input \<Rightarrow> audit_entry" where
  "make_entry hashf uuid now prev inp = \<lparr> ae_id = uuid, ae_input = inp, ae_prev = prev,
     ae_hash = hashf (hash_input uuid inp now prev), ae_time = now \<rparr>"

section \<open>The chain in memory\<close>

type_synonym chains = "(string \<times> audit_entry list) list"

definition chain_of :: "string \<Rightarrow> chains \<Rightarrow> audit_entry list" where
  "chain_of tenant m = (case map_of m tenant of Some xs \<Rightarrow> xs | None \<Rightarrow> [])"

fun split_colon :: "string \<Rightarrow> string list" where
  "split_colon [] = [[]]"
| "split_colon (c # s) = (if c = colon then [] # split_colon s
     else (case split_colon s of [] \<Rightarrow> [[c]] | p # ps \<Rightarrow> (c # p) # ps))"

definition last_hash :: "audit_entry list \<Rightarrow> string option" where
  "last_hash xs = (if xs = [] then None else Some (ae_hash (last xs)))"

definition mem_append :: "(json \<Rightarrow> string) \<Rightarrow> string \<Rightarrow> int \<Rightarrow> audit_input \<Rightarrow> chains \<Rightarrow> audit_entry res \<times> chains" where
  "mem_append hashf uuid now inp m =
     (if ai_tenant inp = [] then (Inl (JsError ''AuditStore.append requiere tenantId''), m)
      else if length (split_colon (ai_owner inp)) = 2 \<and> hd (split_colon (ai_owner inp)) \<noteq> ai_tenant inp
        then (Inl (JsError (''AuditStore.append: owner '' @ ai_owner inp @ '' no pertenece al tenant '' @ ai_tenant inp)), m)
      else (let xs = chain_of (ai_tenant inp) m; e = make_entry hashf uuid now (last_hash xs) inp
        in if audit_schema e then (Inr e, AList.update (ai_tenant inp) (xs @ [e]) m)
           else (Inl (JsError ''ZodError''), m)))"

definition mem_list :: "string \<Rightarrow> nat \<Rightarrow> chains \<Rightarrow> audit_entry list" where
  "mem_list tenant limit m = (let xs = chain_of tenant m in if limit = 0 then xs else drop (length xs - limit) xs)"

fun verify_from :: "(json \<Rightarrow> string) \<Rightarrow> string option \<Rightarrow> audit_entry list \<Rightarrow> bool" where
  "verify_from hashf previous [] = True"
| "verify_from hashf previous (e # es) =
     (if previous \<noteq> None \<and> ae_prev e \<noteq> previous then False
      else if hashf (entry_input e) \<noteq> ae_hash e then False
      else verify_from hashf (Some (ae_hash e)) es)"

definition mem_verify :: "(json \<Rightarrow> string) \<Rightarrow> string \<Rightarrow> chains \<Rightarrow> bool" where
  "mem_verify hashf tenant m = verify_from hashf None (chain_of tenant m)"

section \<open>The chain on the Store\<close>

definition audit_kind :: string where "audit_kind = ''audit-entries''"
definition anchor_id :: string where "anchor_id = ''__audit_anchor__''"

definition entry_json :: "audit_entry \<Rightarrow> json" where
  "entry_json e = JObj ([(''id'', JStr (ae_id e)), (''tenantId'', JStr (ai_tenant (ae_input e))),
       (''owner'', JStr (ai_owner (ae_input e))), (''action'', JStr (ai_action (ae_input e))),
       (''actor'', actor_json (ai_actor (ae_input e))), (''payload'', ai_payload (ae_input e))]
     @ (case ae_prev e of Some h \<Rightarrow> [(''previousHash'', JStr h)] | None \<Rightarrow> [])
     @ [(''hash'', JStr (ae_hash e)), (''timestamp'', JDate (ae_time e))])"

definition entry_of :: "json \<Rightarrow> audit_entry" where
  "entry_of j = \<lparr> ae_id = text_or_empty j ''id'',
     ae_input = \<lparr> ai_tenant = text_or_empty j ''tenantId'', ai_owner = text_or_empty j ''owner'',
       ai_action = text_or_empty j ''action'',
       ai_actor = (case jget j ''actor'' of Some a \<Rightarrow> (text_or_empty a ''kind'', text_or_empty a ''id'') | None \<Rightarrow> ([], [])),
       ai_payload = (case jget j ''payload'' of Some p \<Rightarrow> p | None \<Rightarrow> JNull) \<rparr>,
     ae_prev = jtext j ''previousHash'', ae_hash = text_or_empty j ''hash'',
     ae_time = (case jdate (jget j ''timestamp'') of Some t \<Rightarrow> t | None \<Rightarrow> 0) \<rparr>"

definition anchor_hash :: "'s store \<Rightarrow> string \<Rightarrow> 's \<Rightarrow> string option" where
  "anchor_hash S tenant s = (case s_get S tenant audit_kind anchor_id s of None \<Rightarrow> None | Some a \<Rightarrow> jtext a ''hash'')"

definition store_last_hash :: "'s store \<Rightarrow> string \<Rightarrow> 's \<Rightarrow> string option" where
  "store_last_hash S tenant s = (case anchor_hash S tenant s of
     Some h \<Rightarrow> if h \<noteq> [] then Some h
       else (case s_list S tenant audit_kind \<lparr> lo_limit = Some 1, lo_cursor = None \<rparr> s of [] \<Rightarrow> None | j # _ \<Rightarrow> jtext j ''hash'')
   | None \<Rightarrow> (case s_list S tenant audit_kind \<lparr> lo_limit = Some 1, lo_cursor = None \<rparr> s of [] \<Rightarrow> None | j # _ \<Rightarrow> jtext j ''hash''))"

datatype attempt = Appended audit_entry | Retry string | Rejected err

definition append_attempt :: "'s store \<Rightarrow> (json \<Rightarrow> string) \<Rightarrow> int \<Rightarrow> string \<Rightarrow> int \<Rightarrow> ('s \<Rightarrow> 's) \<Rightarrow> ('s \<Rightarrow> 's)
    \<Rightarrow> audit_input \<Rightarrow> 's \<Rightarrow> attempt \<times> 's" where
  "append_attempt S hashf clock uuid now others1 others2 inp s =
     (let tenant = ai_tenant inp; e = make_entry hashf uuid now (store_last_hash S tenant s) inp in
      if \<not> audit_schema e then (Rejected (JsError ''ZodError''), s)
      else (let s1 = others1 s; anchor = s_get S tenant audit_kind anchor_id s1; h = anchor_hash S tenant s1 in
        if h \<noteq> ae_prev e then (Retry ''Audit chain advanced during append'', s1)
        else (let s2 = others2 s1 in
          case (case anchor of
              None \<Rightarrow> s_insert S clock tenant audit_kind (JObj [(''id'', JStr anchor_id), (''hash'', JStr (ae_hash e))]) s2
            | Some _ \<Rightarrow> s_cas S clock tenant audit_kind anchor_id
                (JObj (case h of Some x \<Rightarrow> [(''hash'', JStr x)] | None \<Rightarrow> [])) (JObj [(''hash'', JStr (ae_hash e))]) s2) of
            (None, s3) \<Rightarrow> (Retry ''Audit anchor CAS failed'', s3)
          | (Some _, s3) \<Rightarrow> (Appended e, s_put S clock tenant audit_kind (entry_json e) s3))))"

fun store_append :: "'s store \<Rightarrow> (json \<Rightarrow> string) \<Rightarrow> int \<Rightarrow> (nat \<Rightarrow> string) \<Rightarrow> (nat \<Rightarrow> int) \<Rightarrow> (nat \<Rightarrow> 's \<Rightarrow> 's) \<Rightarrow> (nat \<Rightarrow> 's \<Rightarrow> 's)
    \<Rightarrow> audit_input \<Rightarrow> nat \<Rightarrow> string \<Rightarrow> 's \<Rightarrow> audit_entry res \<times> 's" where
  "store_append S hashf clock uuid now o1 o2 inp 0 why s = (Inl (JsError why), s)"
| "store_append S hashf clock uuid now o1 o2 inp (Suc n) why s =
     (case append_attempt S hashf clock (uuid n) (now n) (o1 n) (o2 n) inp s of
        (Appended e, s') \<Rightarrow> (Inr e, s')
      | (Rejected err, s') \<Rightarrow> (Inl err, s')
      | (Retry msg, s') \<Rightarrow> store_append S hashf clock uuid now o1 o2 inp n msg s')"

definition audit_append where
  "audit_append S hashf shared clock uuid now o1 o2 inp s =
     (if shared \<and> ai_tenant inp = ''default'' then (Inl (JsError ''TENANT_ID_HARDCODED_V2''), s)
      else store_append S hashf clock uuid now o1 o2 inp 8 ''Audit append failed after retries'' s)"

definition real_entries :: "(json \<times> int) list \<Rightarrow> audit_entry list" where
  "real_entries page = map entry_of (filter (\<lambda>j. jid j \<noteq> anchor_id) (map fst page))"

definition store_audit_list :: "'s store \<Rightarrow> nat \<Rightarrow> string \<Rightarrow> nat \<Rightarrow> 's \<Rightarrow> audit_entry list" where
  "store_audit_list S max_list tenant limit s =
     (let capped = min (max 1 limit) max_list;
          page = s_list_paged S tenant audit_kind \<lparr> lo_limit = Some (capped + 1), lo_cursor = None \<rparr> s
      in rev (take capped (real_entries page)))"

definition list_by_action :: "'s store \<Rightarrow> nat \<Rightarrow> string \<Rightarrow> string \<Rightarrow> nat \<Rightarrow> 's \<Rightarrow> audit_entry list" where
  "list_by_action S max_list tenant action limit s =
     (let xs = filter (\<lambda>e. ai_action (ae_input e) = action) (store_audit_list S max_list tenant (min (limit * 10) 10000) s)
      in if limit = 0 then xs else drop (length xs - limit) xs)"

text \<open>One page of \<open>verify\<close>: the entries oldest first, the hash carried from the page before.\<close>

fun verify_page :: "(json \<Rightarrow> string) \<Rightarrow> string option \<Rightarrow> audit_entry list \<Rightarrow> string option option" where
  "verify_page hashf previous [] = Some previous"
| "verify_page hashf previous (e # es) =
     (if previous \<noteq> None \<and> ae_prev e \<noteq> previous then None
      else if hashf (entry_input e) \<noteq> ae_hash e then None
      else verify_page hashf (Some (ae_hash e)) es)"

text \<open>The loop over the pages of a listing, each of at most \<open>page\<close> rows; the pages are those keyset paging
  gives, consecutive blocks of the full listing (\<open>paging_continues\<close> in the theory of the table).\<close>

function verify_pages :: "(json \<Rightarrow> string) \<Rightarrow> nat \<Rightarrow> string option \<Rightarrow> (json \<times> int) list \<Rightarrow> bool" where
  "verify_pages hashf page previous rows =
     (if rows = [] \<or> page = 0 then True
      else (case verify_page hashf previous (rev (real_entries (take page rows))) of
          None \<Rightarrow> False
        | Some previous' \<Rightarrow> if length rows < page then True
                            else verify_pages hashf page previous' (drop page rows)))"
  by pat_completeness auto
termination by (relation "measure (\<lambda>(_, _, _, rows). length rows)") auto

declare verify_pages.simps [simp del]

definition store_verify :: "'s store \<Rightarrow> (json \<Rightarrow> string) \<Rightarrow> nat \<Rightarrow> string \<Rightarrow> 's \<Rightarrow> bool" where
  "store_verify S hashf page tenant s = verify_pages hashf page None (s_list_paged S tenant audit_kind no_options s)"

section \<open>Chains\<close>

lemma entry_roundtrip: "entry_of (entry_json e) = e"
  by (cases e; cases "ae_input e")
    (auto simp: entry_of_def entry_json_def text_or_empty_def jtext_def actor_json_def split: option.splits)

lemma verify_from_snoc:
  "verify_from hashf p (xs @ [e]) \<longleftrightarrow> verify_from hashf p xs
     \<and> (let q = (if xs = [] then p else Some (ae_hash (last xs))) in q = None \<or> ae_prev e = q)
     \<and> hashf (entry_input e) = ae_hash e"
  by (induction xs arbitrary: p) (auto simp: Let_def)

lemma verify_from_append:
  "verify_from hashf p (xs @ ys) \<Longrightarrow> verify_from hashf p xs \<and> verify_from hashf None ys"
proof (induction xs arbitrary: p)
  case Nil
  then show ?case by (cases ys) (auto split: if_splits)
qed (auto split: if_splits)

lemma make_entry_valid: "hashf (entry_input (make_entry hashf u t prev inp)) = ae_hash (make_entry hashf u t prev inp)"
  by (simp add: make_entry_def entry_input_def)

definition chains_valid :: "(json \<Rightarrow> string) \<Rightarrow> chains \<Rightarrow> bool" where
  "chains_valid hashf m \<longleftrightarrow> (\<forall>tenant. mem_verify hashf tenant m)"

lemma chains_valid_append: "chains_valid hashf m \<Longrightarrow> chains_valid hashf (snd (mem_append hashf u t inp m))"
  by (auto simp: chains_valid_def mem_verify_def mem_append_def Let_def chain_of_def last_hash_def
      verify_from_snoc make_entry_valid) (auto simp: make_entry_def)

definition mem_run :: "(json \<Rightarrow> string) \<Rightarrow> (string \<times> int \<times> audit_input) list \<Rightarrow> chains \<Rightarrow> chains" where
  "mem_run hashf ops m = fold (\<lambda>(u, t, inp) m. snd (mem_append hashf u t inp m)) ops m"

lemma chains_valid_run: "chains_valid hashf m \<Longrightarrow> chains_valid hashf (mem_run hashf ops m)"
  unfolding mem_run_def by (induction ops arbitrary: m) (auto intro: chains_valid_append)

lemma entry_eqI: "\<lbrakk> entry_input e = entry_input e'; ae_hash e = ae_hash e' \<rbrakk> \<Longrightarrow> e = (e' :: audit_entry)"
  by (cases e; cases e'; cases "ae_input e"; cases "ae_input e'")
    (auto simp: entry_input_def hash_input_def actor_json_def prod_eq_iff split: option.splits)

definition collision_free :: "(json \<Rightarrow> string) \<Rightarrow> audit_entry list \<Rightarrow> bool" where
  "collision_free hashf es \<longleftrightarrow> inj_on hashf (entry_input ` set es)"

lemma chain_determined:
  assumes "length xs = length ys" "collision_free hashf (xs @ ys)" "verify_from hashf None xs" "verify_from hashf None ys"
    and "xs \<noteq> [] \<Longrightarrow> ae_hash (last xs) = ae_hash (last ys)"
  shows "xs = ys"
  using assms
proof (induction xs arbitrary: ys rule: rev_induct)
  case (snoc e xs)
  then obtain ys' e' where ys: "ys = ys' @ [e']" by (cases ys rule: rev_cases) auto
  have h: "ae_hash e = ae_hash e'" using snoc.prems(5) ys by simp
  have eq: "hashf (entry_input e) = hashf (entry_input e')"
    using snoc.prems(3,4) h ys by (simp add: verify_from_snoc)
  have inj: "inj_on hashf (entry_input ` set ((xs @ [e]) @ ys))"
    using snoc.prems(2) by (simp only: collision_free_def)
  have "entry_input e = entry_input e'"
    by (rule inj_onD [OF inj eq]) (simp_all add: ys)
  then have e: "e = e'" using h by (rule entry_eqI)
  have len: "length xs = length ys'" using snoc.prems(1) ys by simp
  have vx: "verify_from hashf None xs" "xs \<noteq> [] \<Longrightarrow> ae_prev e = Some (ae_hash (last xs))"
    using snoc.prems(3) by (simp_all add: verify_from_snoc)
  have vy: "verify_from hashf None ys'" "ys' \<noteq> [] \<Longrightarrow> ae_prev e' = Some (ae_hash (last ys'))"
    using snoc.prems(4) ys by (simp_all add: verify_from_snoc)
  have last: "ae_hash (last xs) = ae_hash (last ys')" if "xs \<noteq> []"
  proof -
    have "ys' \<noteq> []" using that len by auto
    then show ?thesis using vx(2) vy(2) that e by simp
  qed
  have free: "collision_free hashf (xs @ ys')"
    unfolding collision_free_def by (rule inj_on_subset [OF inj]) (auto simp: ys)
  show ?case using snoc.IH [OF len free vx(1) vy(1) last] ys e by simp
qed simp

lemma verify_page_result:
  "verify_page hashf p es = (if verify_from hashf p es then Some (if es = [] then p else Some (ae_hash (last es))) else None)"
  by (induction es arbitrary: p) auto

lemma chain_links:
  assumes "verify_from hashf None xs" "xs \<noteq> []" "ae_prev (hd xs) = None" "e \<in> set xs"
  shows "ae_prev e = None \<or> (\<exists>e'\<in>set (butlast xs). ae_prev e = Some (ae_hash e'))"
  using assms
proof (induction xs rule: rev_induct)
  case (snoc x xs)
  show ?case
  proof (cases "xs = []")
    case False
    then show ?thesis using snoc
      by (auto simp: verify_from_snoc Let_def hd_append dest: in_set_butlastD)
  qed (use snoc in auto)
qed simp

lemma newest_hash_unique:
  "\<lbrakk> xs \<noteq> []; distinct (map ae_hash xs); e \<in> set (butlast xs) \<rbrakk> \<Longrightarrow> ae_hash e \<noteq> ae_hash (last xs)"
  by (cases xs rule: rev_cases) (auto, metis imageI)

section \<open>The anchor\<close>

lemma anchor_cas:
  assumes "fst (st_cas clock tenant audit_kind anchor_id (JObj [(''hash'', JStr h)]) p s) = Some j"
  shows "anchor_hash plain_store tenant s = Some h"
proof -
  obtain a where "st_get tenant audit_kind anchor_id s = Some a" "jcontains a (JObj [(''hash'', JStr h)])"
    using assms by (auto simp: st_cas_result split: option.splits if_splits)
  moreover from this(2) obtain w where "jget a ''hash'' = Some w" "jcontains w (JStr h)"
    using jcontains_field [of a "[(''hash'', JStr h)]" "''hash''" "JStr h"] by auto
  ultimately show ?thesis by (cases w) (auto simp: anchor_hash_def jtext_def)
qed

definition anchored :: "string \<Rightarrow> table \<Rightarrow> bool" where
  "anchored tenant s \<longleftrightarrow> (\<forall>a. st_get tenant audit_kind anchor_id s = Some a \<longrightarrow> is_obj a \<and> jtext a ''hash'' \<noteq> None)"

section \<open>Properties\<close>

text \<open>The chain in memory always verifies.  After any sequence of appends by any tenants, accepted or
  refused, starting from the empty store, verify is true for every tenant.\<close>
theorem memory_chain_verifies:
  "mem_verify hashf tenant (mem_run hashf ops [])"
  using chains_valid_run [of hashf "[]" ops] by (simp add: chains_valid_def mem_verify_def chain_of_def)

text \<open>C6: the chain is tamper-evident.  Two chains of the same length that both verify and end in the
  same hash are the same entry by entry, as long as the hash has no collision among their entries: no
  entry can be changed or exchanged without changing the last hash.\<close>
theorem chain_tamper_evident:
  assumes "length xs = length ys" "xs \<noteq> []" "collision_free hashf (xs @ ys)"
    and "verify_from hashf None xs" "verify_from hashf None ys" "ae_hash (last xs) = ae_hash (last ys)"
  shows "xs = ys"
  using chain_determined [OF assms(1,3-5)] assms(6) by simp

definition toy_hash :: "json \<Rightarrow> string" where
  "toy_hash j = text_or_empty j ''id'' @ ''/'' @ text_or_empty j ''previousHash''"

definition sample_input :: audit_input where
  "sample_input = \<lparr> ai_tenant = ''acme'', ai_owner = ''u1'', ai_action = ''write.ok'', ai_actor = (''human'', ''u1''), ai_payload = JObj [] \<rparr>"

definition sample_chain :: "audit_entry list" where
  "sample_chain = [make_entry toy_hash ''a'' 1 None sample_input, make_entry toy_hash ''b'' 2 (Some ''a/'') sample_input,
     make_entry toy_hash ''c'' 3 (Some ''b/a/'') sample_input]"

lemma sample_chain_verifies: "verify_from toy_hash None sample_chain"
  by (simp add: sample_chain_def make_entry_valid)
    (simp add: make_entry_def entry_input_def toy_hash_def text_or_empty_def hash_input_def jtext_def)

theorem chain_tamper_evident_witness:
  "sample_chain = map (\<lambda>e. entry_of (entry_json e)) sample_chain"
proof (rule chain_tamper_evident [where hashf = toy_hash])
  show "collision_free toy_hash (sample_chain @ map (\<lambda>e. entry_of (entry_json e)) sample_chain)"
    by (auto simp: entry_roundtrip collision_free_def inj_on_def sample_chain_def make_entry_def entry_input_def
        toy_hash_def text_or_empty_def hash_input_def jtext_def)
qed (simp_all add: entry_roundtrip sample_chain_verifies, simp add: sample_chain_def)

lemma truncation_undetected_parts:
  assumes "verify_from hashf None xs"
  shows "verify_from hashf None (drop n xs)" "verify_from hashf None (take n xs)"
  using verify_from_append [of hashf None "take n xs" "drop n xs"] assms by simp_all

text \<open>What the chain does not detect.  Dropping any number of the oldest entries, or of the newest,
  from a chain that verifies leaves a chain that verifies.\<close>
theorem truncation_undetected:
  assumes "verify_from hashf None xs"
  shows "verify_from hashf None (drop n xs) \<and> verify_from hashf None (take n xs)"
  using truncation_undetected_parts [OF assms] by blast

theorem truncation_undetected_witness: "verify_from toy_hash None (drop 2 sample_chain)"
  using truncation_undetected [OF sample_chain_verifies] by blast

lemma append_moves_anchor_parts:
  assumes "append_attempt plain_store hashf clock uuid now others1 others2 inp s = (Appended e, s')"
    and "anchored (ai_tenant inp) (others1 s)" "anchored (ai_tenant inp) (others2 (others1 s))" "uuid \<noteq> anchor_id"
  shows "anchor_hash plain_store (ai_tenant inp) (others2 (others1 s)) = ae_prev e"
    and "anchor_hash plain_store (ai_tenant inp) s' = Some (ae_hash e)"
    and "st_get (ai_tenant inp) audit_kind uuid s' = Some (entry_json e)"
proof -
  let ?t = "ai_tenant inp" and ?s1 = "others1 s" and ?s2 = "others2 (others1 s)"
  let ?w = "case st_get ?t audit_kind anchor_id ?s1 of
      None \<Rightarrow> st_insert clock ?t audit_kind (JObj [(''id'', JStr anchor_id), (''hash'', JStr (ae_hash e))]) ?s2
    | Some _ \<Rightarrow> st_cas clock ?t audit_kind anchor_id (JObj (case ae_prev e of Some x \<Rightarrow> [(''hash'', JStr x)] | None \<Rightarrow> []))
        (JObj [(''hash'', JStr (ae_hash e))]) ?s2"
  have prev: "anchor_hash plain_store ?t ?s1 = ae_prev e"
    and e: "e = make_entry hashf uuid now (store_last_hash plain_store ?t s) inp"
    using assms(1) by (auto simp: append_attempt_def Let_def split: if_splits option.splits prod.splits)
  obtain j s3 where w: "?w = (Some j, s3)" and s': "s' = st_put clock ?t audit_kind (entry_json e) s3"
    using assms(1) prev e by (auto simp: append_attempt_def Let_def split: if_splits option.splits prod.splits)
  have jid: "jid (entry_json e) = uuid" by (simp add: e entry_json_def make_entry_def jid_def jtext_def)
  have both: "anchor_hash plain_store ?t ?s2 = ae_prev e \<and> anchor_hash plain_store ?t s3 = Some (ae_hash e)"
  proof (cases "st_get ?t audit_kind anchor_id ?s1")
    case None
    then have ins: "st_insert clock ?t audit_kind (JObj [(''id'', JStr anchor_id), (''hash'', JStr (ae_hash e))]) ?s2 = (Some j, s3)"
      using w by simp
    have i: "jid (JObj [(''id'', JStr anchor_id), (''hash'', JStr (ae_hash e))]) = anchor_id"
      by (simp add: jid_def jtext_def)
    have none: "st_get ?t audit_kind anchor_id ?s2 = None"
      using ins i st_insert_result [of clock ?t audit_kind "JObj [(''id'', JStr anchor_id), (''hash'', JStr (ae_hash e))]" ?s2]
      by (auto split: option.splits)
    have "st_get ?t audit_kind anchor_id s3 = Some (JObj [(''id'', JStr anchor_id), (''hash'', JStr (ae_hash e))])"
      using none i st_get_insert [of ?t audit_kind anchor_id clock ?t audit_kind "JObj [(''id'', JStr anchor_id), (''hash'', JStr (ae_hash e))]" ?s2] ins
      by simp
    then show ?thesis using none None prev by (simp add: anchor_hash_def jtext_def)
  next
    case (Some a)
    then obtain h where h: "ae_prev e = Some h" using assms(2) prev by (auto simp: anchored_def anchor_hash_def)
    have cas: "st_cas clock ?t audit_kind anchor_id (JObj [(''hash'', JStr h)]) (JObj [(''hash'', JStr (ae_hash e))]) ?s2 = (Some j, s3)"
      using w Some h by simp
    have before: "anchor_hash plain_store ?t ?s2 = Some h" using anchor_cas cas by (metis fst_conv)
    obtain a2 where a2: "st_get ?t audit_kind anchor_id ?s2 = Some a2" "j = jmerge a2 (JObj [(''hash'', JStr (ae_hash e))])"
      using cas st_cas_result [of clock ?t audit_kind anchor_id "JObj [(''hash'', JStr h)]" "JObj [(''hash'', JStr (ae_hash e))]" ?s2]
      by (auto split: option.splits if_splits)
    then have "is_obj a2" using assms(3) by (auto simp: anchored_def)
    moreover have "st_get ?t audit_kind anchor_id s3 = Some j"
      using st_get_cas [of ?t audit_kind anchor_id clock ?t audit_kind anchor_id "JObj [(''hash'', JStr h)]" "JObj [(''hash'', JStr (ae_hash e))]" ?s2] cas
      by simp
    ultimately show ?thesis using before h a2 by (simp add: anchor_hash_def jtext_def jget_jmerge)
  qed
  then show "anchor_hash plain_store ?t ?s2 = ae_prev e" by simp
  show "anchor_hash plain_store ?t s' = Some (ae_hash e)"
    using both assms(4) by (simp add: s' anchor_hash_def st_get_put jid)
  show "st_get ?t audit_kind uuid s' = Some (entry_json e)" by (simp add: s' st_get_put jid)
qed

text \<open>C5: an append on the Store that returns has moved the anchor from its previous hash to its own in
  one step.  Whatever other processes do before and between its steps, at the moment of its conditional
  write the anchor held exactly the entry's previousHash (or did not exist, for a first entry), and
  after it the anchor holds the entry's hash and the entry is stored: the chain never forks.\<close>
theorem append_moves_anchor:
  assumes "append_attempt plain_store hashf clock uuid now others1 others2 inp s = (Appended e, s')"
    and "anchored (ai_tenant inp) (others1 s)" "anchored (ai_tenant inp) (others2 (others1 s))" "uuid \<noteq> anchor_id"
  shows "anchor_hash plain_store (ai_tenant inp) (others2 (others1 s)) = ae_prev e
    \<and> anchor_hash plain_store (ai_tenant inp) s' = Some (ae_hash e)
    \<and> st_get (ai_tenant inp) audit_kind uuid s' = Some (entry_json e)"
  using append_moves_anchor_parts [OF assms] by blast

definition const_hash :: "json \<Rightarrow> string" where
  "const_hash j = replicate 64 (CHR ''a'')"

theorem append_moves_anchor_witness:
  "anchor_hash plain_store ''acme''
     (snd (append_attempt plain_store const_hash 5 ''e1'' 1 (\<lambda>d. d) (\<lambda>d. d) sample_input [])) = Some (const_hash JNull)"
proof -
  have "\<exists>s'. append_attempt plain_store const_hash 5 ''e1'' 1 (\<lambda>d. d) (\<lambda>d. d) sample_input []
      = (Appended (make_entry const_hash ''e1'' 1 None sample_input), s')"
    by (simp add: append_attempt_def store_last_hash_def anchor_hash_def st_get_def st_list_def list_rows_def
        audit_schema_def make_entry_def sample_input_def len_in_def payload_ok_def audit_actions_def const_hash_def
        st_insert_def Let_def)
  then obtain s' where a: "append_attempt plain_store const_hash 5 ''e1'' 1 (\<lambda>d. d) (\<lambda>d. d) sample_input []
      = (Appended (make_entry const_hash ''e1'' 1 None sample_input), s')" by blast
  have ok: "anchored (ai_tenant sample_input) []" by (simp add: anchored_def st_get_def)
  show ?thesis
    using append_moves_anchor [OF a ok ok] unfolding a
    by (simp add: anchor_id_def make_entry_def const_hash_def sample_input_def)
qed

text \<open>Verify rejects intact chains longer than one page.  It reads the newest page first and carries
  its newest hash into the next, older page, whose oldest entry cannot link to it: for an intact chain
  with distinct hashes, listed newest first, verify is false as soon as a second page has an entry (the
  code's page is 1000 rows).\<close>
theorem verify_rejects_long_chains:
  assumes "verify_from hashf None xs" "ae_prev (hd xs) = None" "distinct (map ae_hash xs)"
    and "real_entries (s_list_paged S tenant audit_kind no_options s) = rev xs"
    and "0 < page" "real_entries (take page (s_list_paged S tenant audit_kind no_options s)) \<noteq> []"
    and "real_entries (take page (drop page (s_list_paged S tenant audit_kind no_options s))) \<noteq> []"
  shows "store_verify S hashf page tenant s = False"
proof -
  let ?rows = "s_list_paged S tenant audit_kind no_options s"
  let ?p1 = "real_entries (take page ?rows)" and ?p2 = "real_entries (take page (drop page ?rows))"
  have split: "real_entries (as @ bs) = real_entries as @ real_entries bs" for as bs
    by (simp add: real_entries_def)
  have rows: "?rows = take page ?rows @ take page (drop page ?rows) @ drop page (drop page ?rows)"
    by (metis append_take_drop_id)
  have "rev xs = ?p1 @ ?p2 @ real_entries (drop page (drop page ?rows))"
    using split rows assms(4) by metis
  then have xs: "xs = rev (real_entries (drop page (drop page ?rows))) @ rev ?p2 @ rev ?p1"
    by (metis append.assoc rev_append rev_rev_ident)
  have long: "page \<le> length ?rows"
    using assms(7) by (cases "page \<le> length ?rows") (auto simp: real_entries_def)
  have newest: "last (rev ?p1) = last xs" "xs \<noteq> []" using assms(6) xs by auto
  have rest: "drop page ?rows \<noteq> []" using assms(7) by (auto simp: real_entries_def)
  obtain e es where e: "rev ?p2 = e # es" using assms(7) by (cases "rev ?p2") auto
  have "e \<in> set xs" using e xs by (metis list.set_intros(1) Un_iff set_append)
  from chain_links [OF assms(1) newest(2) assms(2) this]
  have "ae_prev e \<noteq> Some (ae_hash (last xs))"
    using newest_hash_unique [OF newest(2) assms(3)] by auto
  then have second: "verify_page hashf (Some (ae_hash (last xs))) (rev ?p2) = None" using e by simp
  have step2: "verify_pages hashf page (Some (ae_hash (last xs))) (drop page ?rows) = False"
    using rest assms(5) second by (subst verify_pages.simps) simp
  have first: "verify_page hashf None (rev ?p1) \<in> {None, Some (Some (ae_hash (last xs)))}"
    using assms(6) newest(1) by (simp add: verify_page_result)
  show ?thesis unfolding store_verify_def
    using first step2 long assms(5) rest by (subst verify_pages.simps) auto
qed

theorem verify_rejects_long_chains_witness:
  "store_verify plain_store toy_hash 1 ''acme''
     (map (\<lambda>e. ((''acme'', audit_kind, ae_id e), entry_json e, ae_time e)) sample_chain) = False"
proof -
  let ?d = "map (\<lambda>e. ((''acme'', audit_kind, ae_id e), entry_json e, ae_time e)) sample_chain"
  have rows: "s_list_paged plain_store ''acme'' audit_kind no_options ?d = map (\<lambda>e. (entry_json e, ae_time e)) (rev sample_chain)"
    by (simp add: sample_chain_def make_entry_def st_list_paged_def list_rows_def after_cursor_def no_options_def opt_take_def)
  have ids: "jid (entry_json e) = ae_id e" for e by (simp add: entry_json_def jid_def jtext_def)
  show ?thesis
  proof (rule verify_rejects_long_chains)
    show "verify_from toy_hash None sample_chain" by (rule sample_chain_verifies)
  qed (simp_all only: rows, simp_all add: sample_chain_def real_entries_def make_entry_def entry_roundtrip ids anchor_id_def
      hash_input_def toy_hash_def text_or_empty_def jtext_def)
qed

end
