(* ===== verification/Idempotency.thy ===== *)
theory Idempotency
  imports TenantStore "HOL-Library.Multiset"
begin

text \<open>
  What makes a repeated operation harmless: the idempotency keys of external effects
  (engine/idempotency.ts), the insert-or-read and the remembered result of engine/transaction.ts,
  and the dead-letter queue (engine/dead-letter.ts).  The last two are clients of the \<open>Store\<close>:
  their laws are proved once in the locale \<open>record_store\<close> and hold on the plain store and on the
  store of a request's tenant.
\<close>

section \<open>Idempotency keys\<close>

function canonicalize :: "json \<Rightarrow> json" where
  "canonicalize (JObj fs) = JObj (sort_key fst (map (\<lambda>kv. (fst kv, canonicalize (snd kv))) fs))"
| "canonicalize (JArr xs) = JArr (map canonicalize xs)"
| "canonicalize JNull = JNull"
| "canonicalize (JBool b) = JBool b"
| "canonicalize (JNum r) = JNum r"
| "canonicalize (JStr s) = JStr s"
| "canonicalize (JDate t) = JDate t"
  by pat_completeness auto
termination by (relation "measure size") (auto dest: size_arr_elem size_obj_field)

definition make_idempotency_key :: "(json \<Rightarrow> string) \<Rightarrow> (string \<Rightarrow> string) \<Rightarrow> string \<Rightarrow> json \<Rightarrow> string" where
  "make_idempotency_key stringify sha256 scope payload =
     take 32 (sha256 (scope @ '':'' @ stringify (canonicalize payload)))"

text \<open>The same payload with the fields of its objects in another order, at any depth.\<close>

inductive reordered :: "json \<Rightarrow> json \<Rightarrow> bool" where
  same: "reordered j j"
| arr: "list_all2 reordered xs ys \<Longrightarrow> reordered (JArr xs) (JArr ys)"
| obj: "\<lbrakk> list_all2 (\<lambda>x y. fst x = fst y \<and> reordered (snd x) (snd y)) fs gs;
         mset gs = mset hs; distinct (map fst gs) \<rbrakk> \<Longrightarrow> reordered (JObj fs) (JObj hs)"

inductive_cases reordered_objE: "reordered (JObj fs) j"

lemma sort_fields_perm:
  assumes "mset gs = mset hs" "distinct (map fst gs)"
  shows "sort_key fst (map (\<lambda>kv. (fst kv, f (snd kv))) gs) = sort_key fst (map (\<lambda>kv. (fst kv, f (snd kv))) hs)"
proof (rule sort_key_inj_key_eq)
  show "mset (map (\<lambda>kv. (fst kv, f (snd kv))) gs) = mset (sort_key fst (map (\<lambda>kv. (fst kv, f (snd kv))) hs))"
    using assms(1) by simp
  show "inj_on fst (set (map (\<lambda>kv. (fst kv, f (snd kv))) gs))"
    using assms(2) by (auto simp: inj_on_def distinct_map)
qed simp

lemma reordered_canonical: "reordered j j' \<Longrightarrow> canonicalize j = canonicalize j'"
proof (induction rule: reordered.induct)
  case (arr xs ys)
  then show ?case by (auto simp: list_all2_conv_all_nth intro: nth_equalityI)
next
  case (obj fs gs hs)
  have "map (\<lambda>kv. (fst kv, canonicalize (snd kv))) fs = map (\<lambda>kv. (fst kv, canonicalize (snd kv))) gs"
    using obj(1) by (auto simp: list_all2_conv_all_nth intro!: nth_equalityI)
  then show ?case using sort_fields_perm [OF obj(2,3)] by simp
qed simp

section \<open>Insert or read, and remembered results\<close>

definition upsert_idempotent :: "'s store \<Rightarrow> int \<Rightarrow> string \<Rightarrow> string \<Rightarrow> json \<Rightarrow> 's \<Rightarrow> json res \<times> 's" where
  "upsert_idempotent S now ow k v s = (case s_insert S now ow k v s of
     (Some inserted, s') \<Rightarrow> (Inr inserted, s')
   | (None, s') \<Rightarrow> (case s_get S ow k (jid v) s' of
       None \<Rightarrow> (Inl (AppError (''Record '' @ k @ ''/'' @ jid v
                   @ '' desaparecio despues de un conflicto de insercion'') 500), s')
     | Some existing \<Rightarrow> (Inr existing, s')))"

text \<open>A stored record without a \<open>result\<close> reads as undefined, here null.\<close>

definition with_idempotency ::
  "'s store \<Rightarrow> int \<Rightarrow> int \<Rightarrow> string \<Rightarrow> string \<Rightarrow> string \<Rightarrow> ('s \<Rightarrow> json res \<times> 's) \<Rightarrow> 's \<Rightarrow> json res \<times> 's" where
  "with_idempotency S clock now ow kind key f s =
     (let i = kind @ '':'' @ key in case s_get S ow ''idempotency'' i s of
        Some e \<Rightarrow> (Inr (case jget e ''result'' of Some r \<Rightarrow> r | None \<Rightarrow> JNull), s)
      | None \<Rightarrow> (case f s of
          (Inl err, s') \<Rightarrow> (Inl err, s')
        | (Inr r, s') \<Rightarrow> (Inr r, snd (s_insert S clock ow ''idempotency''
             (JObj [(''id'', JStr i), (''result'', r), (''createdAt'', JDate now)]) s'))))"

section \<open>Dead letters\<close>

definition copy_field :: "string \<Rightarrow> string \<Rightarrow> json \<Rightarrow> (string \<times> json) list" where
  "copy_field k' k j = (case jget j k of None \<Rightarrow> [] | Some v \<Rightarrow> [(k', v)])"

definition jslice :: "nat \<Rightarrow> json \<Rightarrow> json" where
  "jslice n v = (case v of JStr s \<Rightarrow> JStr (take n s) | _ \<Rightarrow> v)"

definition dead_letter_id :: "json \<Rightarrow> string" where
  "dead_letter_id task = ''dl-'' @ jid task"

definition dead_letter_entry :: "int \<Rightarrow> json \<Rightarrow> string \<Rightarrow> string \<Rightarrow> json" where
  "dead_letter_entry now task error owner = JObj
     ([(''id'', JStr (dead_letter_id task)), (''taskId'', JStr (jid task))]
      @ copy_field ''tenantId'' ''tenantId'' task
      @ [(''owner'', JStr owner)]
      @ map (\<lambda>(k, v). (k, jslice 200 v)) (copy_field ''title'' ''title'' task)
      @ copy_field ''kind'' ''kind'' task
      @ [(''error'', JStr (take 2000 error))]
      @ copy_field ''attempts'' ''attempts'' task
      @ [(''addedAt'', JDate now)])"

definition dl_enqueue :: "'s store \<Rightarrow> int \<Rightarrow> int \<Rightarrow> json \<Rightarrow> string \<Rightarrow> string \<Rightarrow> 's \<Rightarrow> json \<times> 's" where
  "dl_enqueue S clock now task error owner s =
     (let i = dead_letter_id task in case s_get S owner ''dead-letter'' i s of
        Some existing \<Rightarrow> (existing, s)
      | None \<Rightarrow> (let entry = dead_letter_entry now task error owner;
                     s' = snd (s_insert S clock owner ''dead-letter'' entry s)
                 in ((case s_get S owner ''dead-letter'' i s' of Some saved \<Rightarrow> saved | None \<Rightarrow> entry), s')))"

definition dl_list :: "'s store \<Rightarrow> string \<Rightarrow> nat \<Rightarrow> 's \<Rightarrow> json list" where
  "dl_list S owner limit s = s_list S owner ''dead-letter'' \<lparr> lo_limit = Some limit, lo_cursor = None \<rparr> s"

definition dl_resolve :: "'s store \<Rightarrow> int \<Rightarrow> int \<Rightarrow> string \<Rightarrow> string \<Rightarrow> string \<Rightarrow> 's \<Rightarrow> json option \<times> 's" where
  "dl_resolve S clock now owner i resolvedBy s = (case s_get S owner ''dead-letter'' i s of
     None \<Rightarrow> (None, s)
   | Some existing \<Rightarrow> (let updated = jset ''resolvedBy'' (JStr resolvedBy) (jset ''resolvedAt'' (JDate now) existing)
       in (Some updated, s_put S clock owner ''dead-letter'' updated s)))"

definition dl_remove :: "'s store \<Rightarrow> string \<Rightarrow> string \<Rightarrow> 's \<Rightarrow> 's" where
  "dl_remove S owner i s = s_remove S owner ''dead-letter'' i s"

definition reset_for_requeue :: "string \<Rightarrow> int \<Rightarrow> json \<Rightarrow> json" where
  "reset_for_requeue uuid now task = fold (\<lambda>(k, v). jset k v)
     [(''id'', JStr uuid), (''status'', JStr ''queued''), (''attempts'', JNum 0), (''error'', JNull),
      (''leaseId'', JNull), (''leaseUntil'', JNull), (''actionId'', JNull), (''updatedAt'', JDate now)] task"

lemma jid_entry [simp]: "jid (dead_letter_entry now task error owner) = dead_letter_id task"
  by (simp add: dead_letter_entry_def jid_def jtext_def)

section \<open>On every store\<close>

context record_store
begin

lemma upsert_result:
  "fst (upsert_idempotent S now ow k v s) =
     Inr (case s_get S ow k (jid v) s of Some w \<Rightarrow> w | None \<Rightarrow> v)
   \<and> s_get S ow k (jid v) (snd (upsert_idempotent S now ow k v s)) =
     Some (case s_get S ow k (jid v) s of Some w \<Rightarrow> w | None \<Rightarrow> v)"
proof (cases "s_insert S now ow k v s")
  case (Pair r s')
  then show ?thesis
    using insert_result [of now ow k v s] get_insert [of ow k "jid v" now ow k v s]
    by (auto simp: upsert_idempotent_def split: option.splits)
qed

lemma remembered:
  assumes "with_idempotency S c t ow kind key f s = (Inr r, s')"
    and "s_get S ow ''idempotency'' (kind @ '':'' @ key) s = None \<Longrightarrow>
         s_get S ow ''idempotency'' (kind @ '':'' @ key) (snd (f s)) = None"
  shows "with_idempotency S c' t' ow kind key g s' = (Inr r, s')"
proof (cases "s_get S ow ''idempotency'' (kind @ '':'' @ key) s")
  case (Some e)
  then show ?thesis using assms(1) by (auto simp: with_idempotency_def Let_def)
next
  case None
  let ?row = "JObj [(''id'', JStr (kind @ '':'' @ key)), (''result'', r), (''createdAt'', JDate t)]"
  obtain s1 where f: "f s = (Inr r, s1)" and s': "s' = snd (s_insert S c ow ''idempotency'' ?row s1)"
    using assms(1) None by (auto simp: with_idempotency_def Let_def split: prod.splits sum.splits)
  have i: "jid ?row = kind @ '':'' @ key" by (simp add: jid_def jtext_def)
  have "s_get S ow ''idempotency'' (kind @ '':'' @ key) s' = Some ?row"
    unfolding s' using assms(2) [OF None] f i by (subst get_insert) simp
  then show ?thesis by (simp add: with_idempotency_def)
qed

lemma enqueue_get:
  "s_get S ow ''dead-letter'' (dead_letter_id task) (snd (dl_enqueue S c t task e ow s))
   = Some (fst (dl_enqueue S c t task e ow s))"
  by (auto simp: dl_enqueue_def Let_def get_insert split: option.splits)

lemma enqueue_again:
  "dl_enqueue S c' t' task e' ow (snd (dl_enqueue S c t task e ow s)) = dl_enqueue S c t task e ow s"
  using enqueue_get [of ow task c t e s]
  by (subst dl_enqueue_def) (simp add: Let_def)

lemma resolve_remove:
  assumes "s_get S ow ''dead-letter'' i s = Some e" "jid e = i" "is_obj e"
  shows "s_get S ow ''dead-letter'' i (snd (dl_resolve S c t ow i who s)) =
      Some (jset ''resolvedBy'' (JStr who) (jset ''resolvedAt'' (JDate t) e))"
    and "s_get S ow ''dead-letter'' i (dl_remove S ow i s) = None"
  using assms by (auto simp: dl_resolve_def dl_remove_def get_put get_remove jid_def jtext_def jget_jset Let_def)

end

section \<open>Properties\<close>

text \<open>An idempotency key depends on the payload and not on the order of its fields: payloads that
  differ only in the order of the fields of their objects, at any depth, have the same key.\<close>
theorem idempotency_key_stable:
  assumes "reordered p p'"
  shows "make_idempotency_key stringify sha256 scope p = make_idempotency_key stringify sha256 scope p'"
  by (simp add: make_idempotency_key_def reordered_canonical [OF assms])

theorem idempotency_key_stable_witness:
  "make_idempotency_key (\<lambda>j. case j of JObj fs \<Rightarrow> concat (map fst fs) | _ \<Rightarrow> []) rev ''gmail''
     (JObj [(''to'', JStr ''a''), (''body'', JArr [JNum 1])])
   = make_idempotency_key (\<lambda>j. case j of JObj fs \<Rightarrow> concat (map fst fs) | _ \<Rightarrow> []) rev ''gmail''
     (JObj [(''body'', JArr [JNum 1]), (''to'', JStr ''a'')])"
proof (rule idempotency_key_stable, rule obj)
  show "list_all2 (\<lambda>x y. fst x = fst y \<and> reordered (snd x) (snd y))
      [(''to'', JStr ''a''), (''body'', JArr [JNum 1])] [(''to'', JStr ''a''), (''body'', JArr [JNum 1])]"
    by (simp add: same)
qed auto

text \<open>On the store of a request's tenant, creating a record twice keeps the first.  upsertIdempotent
  always returns, what it returns is what the store then holds, and that is the record that was there,
  or its own value when there was none; its error for a vanished record is never reached.\<close>
theorem upsert_keeps_first:
  "fst (upsert_idempotent (scoped_store (request_resolver (Some t) member)) now ow k v s) =
     Inr (case st_get (compose t ow) k (jid v) (t_table s) of Some w \<Rightarrow> w | None \<Rightarrow> v)
   \<and> st_get (compose t ow) k (jid v)
       (t_table (snd (upsert_idempotent (scoped_store (request_resolver (Some t) member)) now ow k v s)))
     = Some (case st_get (compose t ow) k (jid v) (t_table s) of Some w \<Rightarrow> w | None \<Rightarrow> v)"
  using rt.upsert_result [of t member now ow k v s] by (simp add: request_resolver_def)

text \<open>WithIdempotency runs its callback once per key.  When a call has returned a result and its
  callback did not write that key itself, every later call with the key returns the same result
  and changes nothing, whatever callback it is given.\<close>
theorem idempotent_result_remembered:
  assumes "with_idempotency plain_store c t ow kind key f s = (Inr r, s')"
    and "st_get ow ''idempotency'' (kind @ '':'' @ key) s = None \<longrightarrow>
         st_get ow ''idempotency'' (kind @ '':'' @ key) (snd (f s)) = None"
  shows "with_idempotency plain_store c' t' ow kind key g s' = (Inr r, s')"
  using ps.remembered [OF assms(1)] assms(2) by simp

theorem idempotent_result_remembered_witness:
  "with_idempotency plain_store 2 9 ''u1'' ''task'' ''k1'' (\<lambda>d. (Inr (JNum 7), []))
     (snd (with_idempotency plain_store 1 8 ''u1'' ''task'' ''k1'' (\<lambda>d. (Inr (JNum 5), d)) []))
   = (Inr (JNum 5), [((''u1'', ''idempotency'', ''task:k1''),
        JObj [(''id'', JStr ''task:k1''), (''result'', JNum 5), (''createdAt'', JDate 8)], 1)])"
proof -
  have run: "with_idempotency plain_store 1 8 ''u1'' ''task'' ''k1'' (\<lambda>d. (Inr (JNum 5), d)) []
     = (Inr (JNum 5), [((''u1'', ''idempotency'', ''task:k1''),
        JObj [(''id'', JStr ''task:k1''), (''result'', JNum 5), (''createdAt'', JDate 8)], 1)])"
    by (simp add: with_idempotency_def table_ops jid_def jtext_def Let_def)
  show ?thesis unfolding run snd_conv
    by (rule idempotent_result_remembered [OF run]) (simp add: st_get_def)
qed

text \<open>A task is in the dead-letter queue once.  Enqueueing it again, with another error or later,
  returns the first entry and changes nothing; and the entry is there for the operator.\<close>
theorem dead_letter_once:
  "dl_enqueue plain_store c' t' task e' ow (snd (dl_enqueue plain_store c t task e ow s))
     = dl_enqueue plain_store c t task e ow s
   \<and> st_get ow ''dead-letter'' (dead_letter_id task) (snd (dl_enqueue plain_store c t task e ow s))
     = Some (fst (dl_enqueue plain_store c t task e ow s))"
  using ps.enqueue_again ps.enqueue_get by simp

end
