(* ===== verification/Worker.thy ===== *)
theory Worker
  imports StateMachine Idempotency
begin

text \<open>
  The durable task worker (apps/server/src/engine/worker.ts): which tasks a tick takes, the claim
  of a task by compare-and-swap with a fresh lease, the writes a run makes under its lease
  (checkpoint, heartbeat, events, finish), and its error paths.

  A task is its JSON row of kind \<open>tasks\<close>.  \<open>worker_run\<close> is one run from claim to settlement, with
  the handler, and everything other processes do while it runs, as one function of the store.
  For the lease protocol itself the steps are interleaved freely: \<open>lease_step\<close> is the step
  relation of any number of workers and users over one task row.
\<close>

section \<open>Selection\<close>

definition task_due :: "int \<Rightarrow> string list \<Rightarrow> json \<Rightarrow> bool" where
  "task_due now active t \<longleftrightarrow> jid t \<notin> set active \<and>
     (jstatus t = Some ''queued''
      \<or> (jstatus t = Some ''scheduled'' \<and> date_le (jget t ''nextRunAt'') now)
      \<or> (jstatus t = Some ''running'' \<and> date_le (jget t ''leaseUntil'') now)
      \<or> jstatus t = Some ''waiting_approval'')"

definition action_of :: "'s store \<Rightarrow> string \<Rightarrow> json \<Rightarrow> 's \<Rightarrow> json option" where
  "action_of S owner t s = (case jtext t ''actionId'' of None \<Rightarrow> None
     | Some i \<Rightarrow> if i = [] then None else s_get S owner ''actions'' i s)"

text \<open>A task that waits for an approval: its expired action is marked, a live one holds it back.\<close>

definition approval_gate :: "'s store \<Rightarrow> int \<Rightarrow> int \<Rightarrow> string \<Rightarrow> json \<Rightarrow> 's \<Rightarrow> bool \<times> 's" where
  "approval_gate S clock now owner t s = (if jstatus t \<noteq> Some ''waiting_approval'' then (True, s)
     else (case action_of S owner t s of
        None \<Rightarrow> (True, s)
      | Some a \<Rightarrow> if jstatus a = Some ''awaiting_review'' \<and> date_le (jget a ''expiresAt'') now
          then (True, snd (s_cas S clock owner ''actions'' (text_or_empty t ''actionId'')
                 (JObj ([(''status'', JStr ''awaiting_review'')] @ copy_field ''expiresAt'' ''expiresAt'' a))
                 (JObj [(''status'', JStr ''expired'')]) s))
          else (jstatus a \<notin> {Some ''awaiting_review'', Some ''executing''}, s)))"

type_synonym task_row = "string option \<times> string \<times> json"

definition count_of :: "string \<Rightarrow> (string \<times> nat) list \<Rightarrow> nat" where
  "count_of ow counts = (case map_of counts ow of Some n \<Rightarrow> n | None \<Rightarrow> 0)"

fun select_tasks :: "(string option \<Rightarrow> 's store) \<Rightarrow> nat \<Rightarrow> int \<Rightarrow> int \<Rightarrow> task_row list \<Rightarrow> (string \<times> nat) list
    \<Rightarrow> task_row list \<Rightarrow> 's \<Rightarrow> task_row list \<times> 's" where
  "select_tasks S quota clock now [] counts eligible s = (eligible, s)"
| "select_tasks S quota clock now (r # rs) counts eligible s =
     (let (pass, s1) = approval_gate (S (fst r)) clock now (fst (snd r)) (snd (snd r)) s;
          n = count_of (fst (snd r)) counts
      in if \<not> pass \<or> n \<ge> quota then select_tasks S quota clock now rs counts eligible s1
         else (let eligible' = eligible @ [r]
           in if length eligible' = 20 then (eligible', s1)
              else select_tasks S quota clock now rs (AList.update (fst (snd r)) (n + 1) counts) eligible' s1))"

definition tick_tasks :: "(string option \<Rightarrow> 's store) \<Rightarrow> nat \<Rightarrow> nat \<Rightarrow> int \<Rightarrow> int \<Rightarrow> string list \<Rightarrow> task_row list \<Rightarrow> 's
    \<Rightarrow> task_row list \<times> 's" where
  "tick_tasks S quota max_active clock now active rows s =
     (let (eligible, s') = select_tasks S quota clock now (filter (\<lambda>r. task_due now active (snd (snd r))) rows) [] [] s
      in (take (max_active - length active) eligible, s'))"

section \<open>Writes under a lease\<close>

definition claim_expected :: "json \<Rightarrow> json" where
  "claim_expected prev = JObj (copy_field ''status'' ''status'' prev
     @ [(''leaseId'', case jget prev ''leaseId'' of Some v \<Rightarrow> v | None \<Rightarrow> JNull)]
     @ (if jstatus prev = Some ''running'' then copy_field ''leaseUntil'' ''leaseUntil'' prev else []))"

definition claim_patch :: "int \<Rightarrow> int \<Rightarrow> string \<Rightarrow> json \<Rightarrow> json" where
  "claim_patch now leaseMs lease prev = JObj [(''status'', JStr ''running''), (''leaseId'', JStr lease),
     (''leaseUntil'', JDate (now + leaseMs)), (''updatedAt'', JDate now),
     (''attempts'', case jnum (jget prev ''attempts'') of Some n \<Rightarrow> JNum (n + 1) | None \<Rightarrow> JNull)]"

definition claim_task :: "'s store \<Rightarrow> int \<Rightarrow> int \<Rightarrow> int \<Rightarrow> string \<Rightarrow> string \<Rightarrow> json \<Rightarrow> 's \<Rightarrow> json option \<times> 's" where
  "claim_task S clock now leaseMs lease owner prev =
     s_cas S clock owner ''tasks'' (jid prev) (claim_expected prev) (claim_patch now leaseMs lease prev)"

definition held :: "string \<Rightarrow> json" where
  "held lease = JObj [(''leaseId'', JStr lease), (''status'', JStr ''running'')]"

definition lease_write :: "'s store \<Rightarrow> int \<Rightarrow> string \<Rightarrow> string \<Rightarrow> string \<Rightarrow> json \<Rightarrow> 's \<Rightarrow> json option \<times> 's" where
  "lease_write S clock owner tid lease patch = s_cas S clock owner ''tasks'' tid (held lease) patch"

definition heartbeat :: "'s store \<Rightarrow> int \<Rightarrow> int \<Rightarrow> int \<Rightarrow> string \<Rightarrow> string \<Rightarrow> string \<Rightarrow> 's \<Rightarrow> bool \<times> 's" where
  "heartbeat S clock now leaseMs owner tid lease s =
     (let (r, s') = lease_write S clock owner tid lease (JObj [(''leaseUntil'', JDate (now + leaseMs))]) s
      in (r = None, s'))"

datatype run_error = LostLease | HandlerFailed string

definition checkpoint :: "'s store \<Rightarrow> int \<Rightarrow> int \<Rightarrow> bool \<Rightarrow> string \<Rightarrow> string \<Rightarrow> string \<Rightarrow> (string \<times> json) list \<Rightarrow> 's
    \<Rightarrow> (run_error + json) \<times> 's" where
  "checkpoint S clock now aborted owner tid lease patch s = (if aborted then (Inl LostLease, s)
     else (case lease_write S clock owner tid lease (JObj (AList.update ''updatedAt'' (JDate now) patch)) s of
        (None, s') \<Rightarrow> (Inl LostLease, s')
      | (Some t, s') \<Rightarrow> (Inr t, s')))"

text \<open>What a run keeps in memory: its lease, the instant of the last guard that read the row (zero after a
  heartbeat or a checkpoint), and the recent events by kind and title.\<close>

record run_local =
  rn_owner :: string
  rn_task :: string
  rn_lease :: string
  rn_aborted :: bool
  rn_guard_at :: int
  rn_recent :: "(string \<times> string \<times> int \<times> nat) list"

definition guard :: "'s store \<Rightarrow> int \<Rightarrow> int \<Rightarrow> run_local \<Rightarrow> 's \<Rightarrow> bool \<times> run_local" where
  "guard S wall cache_ms rn s = (if rn_aborted rn then (False, rn)
     else if wall - rn_guard_at rn < cache_ms then (True, rn)
     else ((case s_get S (rn_owner rn) ''tasks'' (rn_task rn) s of None \<Rightarrow> False
            | Some t \<Rightarrow> jtext t ''leaseId'' = Some (rn_lease rn) \<and> jstatus t = Some ''running''),
           rn\<lparr> rn_guard_at := wall \<rparr>))"

definition recent_json :: "string \<times> string \<times> int \<times> nat \<Rightarrow> json" where
  "recent_json e = (case e of (k, i, d, n) \<Rightarrow> JObj [(''key'', JStr k), (''id'', JStr i), (''date'', JDate d), (''count'', JNum (of_nat n))])"

definition remember_event :: "string \<Rightarrow> string \<Rightarrow> int \<Rightarrow> (string \<times> string \<times> int \<times> nat) list \<Rightarrow> (string \<times> string \<times> int \<times> nat) list" where
  "remember_event key uuid now m = (let m1 = AList.update key (uuid, now, 1) m
     in if length m1 > 100
        then (case sort_key (\<lambda>e. fst (snd (snd e))) m1 of [] \<Rightarrow> m1 | oldest # _ \<Rightarrow> AList.delete (fst oldest) m1)
        else m1)"

definition write_event :: "'s store \<Rightarrow> int \<Rightarrow> int \<Rightarrow> string \<Rightarrow> (string \<times> json) list \<Rightarrow> string \<Rightarrow> string \<Rightarrow> string \<Rightarrow> string
    \<Rightarrow> run_local \<Rightarrow> 's \<Rightarrow> bool \<times> run_local \<times> 's" where
  "write_event S clock now uuid state key kind title detail rn s =
     (let recent = remember_event key uuid now (rn_recent rn);
          kept = drop (length recent - 64) recent;
          s1 = snd (lease_write S clock (rn_owner rn) (rn_task rn) (rn_lease rn)
                 (JObj [(''state'', JObj (AList.update ''recentEvents'' (JArr (map recent_json kept)) state))]) s)
      in (True, rn\<lparr> rn_recent := recent \<rparr>,
          s_put S clock (rn_owner rn) ''run-events'' (JObj [(''id'', JStr uuid), (''taskId'', JStr (rn_task rn)),
            (''date'', JDate now), (''kind'', JStr kind), (''title'', JStr title), (''detail'', JStr detail)]) s1))"

definition run_event :: "'s store \<Rightarrow> (nat \<Rightarrow> string) \<Rightarrow> int \<Rightarrow> int \<Rightarrow> int \<Rightarrow> int \<Rightarrow> string \<Rightarrow> (string \<times> json) list \<Rightarrow> string \<Rightarrow> string
    \<Rightarrow> string \<Rightarrow> run_local \<Rightarrow> 's \<Rightarrow> bool \<times> run_local \<times> 's" where
  "run_event S show_nat clock wall cache_ms now uuid state kind title detail rn s =
     (case guard S wall cache_ms rn s of
        (False, rn1) \<Rightarrow> (False, rn1, s)
      | (True, rn1) \<Rightarrow>
         (let key = kind @ '':'' @ title in
          case map_of (rn_recent rn1) key of
            Some (i, d, n) \<Rightarrow> if now - d < 60000
              then (True, rn1\<lparr> rn_recent := AList.update key (i, now, n + 1) (rn_recent rn1) \<rparr>,
                    snd (s_cas S clock (rn_owner rn1) ''run-events'' i (JObj [(''id'', JStr i)])
                      (JObj [(''detail'', JStr (if detail \<noteq> [] then detail else show_nat (n + 1) @ '' ocurrencias''))]) s))
              else write_event S clock now uuid state key kind title detail rn1 s
          | None \<Rightarrow> write_event S clock now uuid state key kind title detail rn1 s))"

section \<open>A run\<close>

record run_env =
  re_clock :: int
  re_lease :: string
  re_lease_ms :: int
  re_now :: int
  re_end :: int
  re_wall_end :: int
  re_duration :: int
  re_cache_ms :: int
  re_event_id :: string

definition fields_of :: "json option \<Rightarrow> (string \<times> json) list" where
  "fields_of j = (case j of Some (JObj fs) \<Rightarrow> fs | _ \<Rightarrow> [])"

definition task_state :: "json \<Rightarrow> (string \<times> json) list" where
  "task_state t = fields_of (jget t ''state'')"

fun recent_entry :: "json \<Rightarrow> (string \<times> string \<times> int \<times> nat) option" where
  "recent_entry j = (case (jtext j ''key'', jtext j ''id'', jdate (jget j ''date''), jnum (jget j ''count'')) of
     (Some k, Some i, Some d, Some n) \<Rightarrow> Some (k, i, d, nat \<lfloor>n\<rfloor>) | _ \<Rightarrow> None)"

definition recent_of :: "json \<Rightarrow> (string \<times> string \<times> int \<times> nat) list" where
  "recent_of t = fold (\<lambda>e m. AList.update (fst e) (snd e) m)
     (List.map_filter recent_entry (jarr (map_of (task_state t) ''recentEvents''))) []"

definition meta_fields :: "json \<Rightarrow> (string \<times> json) list" where
  "meta_fields t = concat (map (\<lambda>k. case map_of (task_state t) k of Some (JStr x) \<Rightarrow> [(k, JStr x)] | _ \<Rightarrow> [])
     [''roleId'', ''runtimeId'', ''entityId''])"

definition run_meta :: "run_env \<Rightarrow> json \<Rightarrow> json" where
  "run_meta env t = JObj ([(''id'', JStr (re_lease env)), (''taskId'', JStr (jid t)), (''startedAt'', JDate (re_now env)),
     (''status'', JStr ''running'')] @ meta_fields t)"

fun status_of_text :: "string \<Rightarrow> task_status option" where
  "status_of_text s = find (\<lambda>st. status_text st = s)
     [Queued, Running, WaitingApproval, WaitingInput, Scheduled, Paused, Succeeded, Failed, Cancelled]"

definition allowed_text :: "string \<Rightarrow> string \<Rightarrow> bool" where
  "allowed_text a b = (case (status_of_text a, status_of_text b) of
     (Some x, Some y) \<Rightarrow> can_transition_task x y | _ \<Rightarrow> False)"

text \<open>The status recorded for the run: the guard on the transition table compares the result's status
  with that of \<open>t\<close>, the task as the checkpoint left it.\<close>

definition finish_status :: "(string \<times> json) list \<Rightarrow> json \<Rightarrow> string" where
  "finish_status result t =
     (let now_status = text_or_empty t ''status'';
          new = (case map_of result ''status'' of Some (JStr x) \<Rightarrow> x | _ \<Rightarrow> now_status)
      in if new \<noteq> now_status \<and> \<not> allowed_text now_status new then now_status else new)"

definition finish_patch :: "(string \<times> json) list \<Rightarrow> json \<Rightarrow> int \<Rightarrow> (string \<times> json) list" where
  "finish_patch result t duration =
     AList.update ''state'' (JObj (AList.update ''lastRunDurationMs'' (JNum (of_int duration))
         (case map_of result ''state'' of Some (JObj fs) \<Rightarrow> fs | _ \<Rightarrow> task_state t)))
       (AList.update ''leaseUntil'' JNull (AList.update ''leaseId'' JNull result))"

definition finish_meta :: "run_env \<Rightarrow> (string \<times> json) list \<Rightarrow> json \<Rightarrow> json" where
  "finish_meta env result t = JObj ([(''id'', JStr (re_lease env)), (''taskId'', JStr (jid t))]
     @ copy_field ''startedAt'' ''updatedAt'' t
     @ [(''finishedAt'', JDate (re_end env)), (''status'', JStr (finish_status result t))] @ meta_fields t)"

definition requeue_patch :: json where
  "requeue_patch = JObj [(''status'', JStr ''queued''), (''leaseId'', JNull), (''leaseUntil'', JNull)]"

definition failed_patch :: "int \<Rightarrow> string \<Rightarrow> json" where
  "failed_patch now detail = JObj [(''status'', JStr ''failed''), (''error'', JStr detail), (''leaseId'', JNull),
     (''leaseUntil'', JNull), (''updatedAt'', JDate now)]"

definition run_failed :: "'s store \<Rightarrow> (nat \<Rightarrow> string) \<Rightarrow> run_env \<Rightarrow> string \<Rightarrow> json \<Rightarrow> run_local \<Rightarrow> 's \<Rightarrow> 's" where
  "run_failed S show_nat env detail t rn s =
     (case lease_write S (re_clock env) (rn_owner rn) (rn_task rn) (rn_lease rn) (failed_patch (re_end env) detail) s of
        (None, s1) \<Rightarrow> s1
      | (Some _, s1) \<Rightarrow>
         (let (_, rn1, s2) = run_event S show_nat (re_clock env) (re_wall_end env) (re_cache_ms env) (re_end env) (re_event_id env)
                (task_state t) ''error'' ''Task needs attention'' detail rn s1
          in case s_get S (rn_owner rn) ''tasks'' (rn_task rn) s2 of
               None \<Rightarrow> s2
             | Some latest \<Rightarrow> snd (dl_enqueue S (re_clock env) (re_end env) latest detail (rn_owner rn) s2)))"

definition run_error_path :: "'s store \<Rightarrow> (nat \<Rightarrow> string) \<Rightarrow> run_env \<Rightarrow> run_error \<Rightarrow> json \<Rightarrow> run_local \<Rightarrow> 's \<Rightarrow> 's" where
  "run_error_path S show_nat env e t rn s =
     (let s1 = (case (e, rn_aborted rn) of
            (HandlerFailed detail, False) \<Rightarrow> run_failed S show_nat env detail t rn s
          | _ \<Rightarrow> snd (lease_write S (re_clock env) (rn_owner rn) (rn_task rn) (rn_lease rn) requeue_patch s))
      in snd (s_cas S (re_clock env) (rn_owner rn) ''runs'' (rn_lease rn) (JObj [(''status'', JStr ''running'')])
            (JObj [(''status'', JStr (if rn_aborted rn then ''paused'' else ''failed'')), (''finishedAt'', JDate (re_end env))]) s1))"

definition known_statuses :: "string list" where
  "known_statuses = [''succeeded'', ''failed'', ''cancelled'', ''waiting_input'', ''waiting_approval'', ''scheduled'', ''paused'']"

type_synonym 's handler = "json \<Rightarrow> run_local \<Rightarrow> 's \<Rightarrow> (run_error + (string \<times> json) list) \<times> json \<times> run_local \<times> 's"

definition worker_run :: "'s store \<Rightarrow> (nat \<Rightarrow> string) \<Rightarrow> run_env \<Rightarrow> 's handler \<Rightarrow> string \<Rightarrow> json \<Rightarrow> 's \<Rightarrow> json option \<times> 's" where
  "worker_run S show_nat env handler owner prev s =
     (case claim_task S (re_clock env) (re_now env) (re_lease_ms env) (re_lease env) owner prev s of
        (None, s1) \<Rightarrow> (None, s1)
      | (Some task, s1) \<Rightarrow>
         (let rn0 = \<lparr> rn_owner = owner, rn_task = jid task, rn_lease = re_lease env, rn_aborted = False,
                      rn_guard_at = 0, rn_recent = recent_of task \<rparr>;
              s2 = s_put S (re_clock env) owner ''runs'' (run_meta env task) s1;
              (res, t, rn, s3) = handler task rn0 s2;
              s4 = (case res of
                  Inl e \<Rightarrow> run_error_path S show_nat env e t rn s3
                | Inr result \<Rightarrow>
                   (case checkpoint S (re_clock env) (re_end env) (rn_aborted rn) owner (rn_task rn) (rn_lease rn)
                           (finish_patch result t (re_duration env)) s3 of
                      (Inl e, s') \<Rightarrow> run_error_path S show_nat env e t rn s'
                    | (Inr t', s') \<Rightarrow> s_put S (re_clock env) owner ''runs'' (finish_meta env result t') s'));
              settled = s_get S owner ''tasks'' (jid task) s4
          in ((case settled of None \<Rightarrow> None
               | Some j \<Rightarrow> if (case jstatus j of None \<Rightarrow> False | Some st \<Rightarrow> st \<in> set known_statuses) then Some j else None), s4)))"

section \<open>Writes that expect a lease\<close>

lemma jcontains_held: "jcontains j (held l) \<longleftrightarrow> jtext j ''leaseId'' = Some l \<and> jstatus j = Some ''running''"
  unfolding held_def jstatus_def jtext_Some
  by (cases j) (auto simp: jcontains_JStr split: option.splits)

lemma distinct_claim_patch: "claim_patch now ms l prev = JObj p \<Longrightarrow> distinct (map fst p)"
  by (auto simp: claim_patch_def)

context record_store
begin

lemma lease_write_result: "fst (lease_write S clock ow tid l patch s) =
   (case s_get S ow ''tasks'' tid s of None \<Rightarrow> None
    | Some j \<Rightarrow> if jtext j ''leaseId'' = Some l \<and> jstatus j = Some ''running'' then Some (jmerge j patch) else None)"
  by (simp add: lease_write_def cas_result jcontains_held cong: option.case_cong)

lemma lease_write_get: "s_get S ow' k' i' (snd (lease_write S clock ow tid l patch s)) =
   (case fst (lease_write S clock ow tid l patch s) of None \<Rightarrow> s_get S ow' k' i' s
    | Some j \<Rightarrow> if ow' = ow \<and> k' = ''tasks'' \<and> i' = tid then Some j else s_get S ow' k' i' s)"
  by (simp add: lease_write_def get_cas)

lemma claim_SomeD:
  assumes "fst (claim_task S clock now ms l ow prev s) = Some j'"
  obtains j where "s_get S ow ''tasks'' (jid prev) s = Some j" "is_obj j" "jcontains j (claim_expected prev)"
    "j' = jmerge j (claim_patch now ms l prev)"
  using assms cas_SomeD [of clock ow "''tasks''" "jid prev" "claim_expected prev" "claim_patch now ms l prev" s j']
    jcontains_is_obj unfolding claim_task_def claim_expected_def by metis

lemma claim_holds:
  assumes "fst (claim_task S clock now ms l ow prev s) = Some j'"
  shows "s_get S ow ''tasks'' (jid prev) (snd (claim_task S clock now ms l ow prev s)) = Some j'
     \<and> jtext j' ''leaseId'' = Some l \<and> jstatus j' = Some ''running''
     \<and> jdate (jget j' ''leaseUntil'') = Some (now + ms)"
proof -
  have "is_obj j'" "jget j' ''leaseId'' = Some (JStr l)" "jget j' ''status'' = Some (JStr ''running'')"
      "jget j' ''leaseUntil'' = Some (JDate (now + ms))"
    using assms by (auto elim!: claim_SomeD simp: claim_patch_def jget_jmerge)
  then show ?thesis using cas_get_own assms by (simp add: claim_task_def jstatus_def jtext_def)
qed

lemma claim_once:
  assumes "fst (claim_task S clock now ms l ow prev s) = Some j'" "jtext prev ''leaseId'' \<noteq> Some l"
  shows "fst (claim_task S clock' now' ms' l' ow prev (snd (claim_task S clock now ms l ow prev s))) = None"
proof -
  obtain e where e: "claim_expected prev = JObj e"
    "(''leaseId'', case jget prev ''leaseId'' of Some v \<Rightarrow> v | None \<Rightarrow> JNull) \<in> set e"
    by (simp add: claim_expected_def)
  obtain p where p: "claim_patch now ms l prev = JObj p" "distinct (map fst p)" "map_of p ''leaseId'' = Some (JStr l)"
    by (simp add: claim_patch_def)
  have "is_obj j'" using assms(1) by (auto elim!: claim_SomeD simp: claim_patch_def)
  moreover have "\<not> jcontains (JStr l) (case jget prev ''leaseId'' of Some v \<Rightarrow> v | None \<Rightarrow> JNull)"
    using assms(2) by (auto simp: jtext_Some split: option.splits)
  ultimately show ?thesis
    using cas_once [of clock ow "''tasks''" "jid prev" e p s j' "''leaseId''" "JStr l" _ clock']
      assms(1) e p unfolding claim_task_def by auto
qed

lemma claim_needs_same:
  assumes "s_get S ow ''tasks'' (jid prev) s = Some j" "jstatus prev = Some ''running''"
    "jdate (jget prev ''leaseUntil'') = Some u" "jdate (jget j ''leaseUntil'') \<noteq> Some u"
  shows "fst (claim_task S clock now ms l ow prev s) = None"
proof (rule ccontr)
  assume "fst (claim_task S clock now ms l ow prev s) \<noteq> None"
  then obtain j' where "fst (claim_task S clock now ms l ow prev s) = Some j'" by blast
  then have "jcontains j (claim_expected prev)" using assms(1) by (auto elim!: claim_SomeD)
  moreover have u: "jget prev ''leaseUntil'' = Some (JDate u)"
    using assms(3) by (cases "jget prev ''leaseUntil''"; cases "the (jget prev ''leaseUntil'')") auto
  ultimately obtain w where "jget j ''leaseUntil'' = Some w" "jcontains w (JDate u)"
    using jcontains_field [of j _ "''leaseUntil''" "JDate u"] assms(2)
    by (fastforce simp: claim_expected_def copy_field_def)
  then show False using assms(4) by (simp add: jcontains_JDate)
qed

end

section \<open>The lease protocol\<close>

text \<open>The state is the set of leases drawn so far and the table.  A worker claims the task from any
  snapshot of its row with a lease that was never drawn before; whoever drew a lease writes under
  it (a checkpoint, the heartbeat, an event, the finish, the requeue and failure patches: none of
  them names another lease); and any other writer (a user who pauses, cancels or requeues the task)
  leaves the row's lease alone or clears it.\<close>

definition row_lease :: "string \<Rightarrow> string \<Rightarrow> table \<Rightarrow> string option" where
  "row_lease ow tid d = (case st_get ow ''tasks'' tid d of None \<Rightarrow> None | Some j \<Rightarrow> jtext j ''leaseId'')"

definition keeps_lease :: "(string \<times> json) list \<Rightarrow> bool" where
  "keeps_lease p \<longleftrightarrow> distinct (map fst p) \<and> map_of p ''leaseId'' \<in> {None, Some JNull}"

inductive lease_step :: "string \<Rightarrow> string \<Rightarrow> string set \<times> table \<Rightarrow> string set \<times> table \<Rightarrow> bool"
  for ow tid where
  claim: "\<lbrakk> l \<notin> used; jid prev = tid \<rbrakk> \<Longrightarrow> lease_step ow tid (used, d)
     (insert l used, snd (claim_task plain_store clock now ms l ow prev d))"
| lwrite: "\<lbrakk> l \<in> used; keeps_lease p \<rbrakk> \<Longrightarrow> lease_step ow tid (used, d)
     (used, snd (lease_write plain_store clock ow tid l (JObj p) d))"
| other: "row_lease ow tid d' \<in> {row_lease ow tid d, None} \<Longrightarrow> lease_step ow tid (used, d) (used, d')"

inductive lease_steps :: "string \<Rightarrow> string \<Rightarrow> string set \<times> table \<Rightarrow> string set \<times> table \<Rightarrow> bool"
  for ow tid where
  here: "lease_steps ow tid c c"
| step: "\<lbrakk> lease_steps ow tid c c'; lease_step ow tid c' c'' \<rbrakk> \<Longrightarrow> lease_steps ow tid c c''"

inductive_cases lease_stepE: "lease_step ow tid (used, d) (used', d')"

lemma row_lease_claim:
  assumes "jid prev = tid"
  shows "row_lease ow tid (snd (claim_task plain_store clock now ms l ow prev d)) \<in> {row_lease ow tid d, Some l}"
proof (cases "fst (claim_task plain_store clock now ms l ow prev d)")
  case None
  then show ?thesis using ps.cas_NoneD assms by (simp add: row_lease_def claim_task_def)
next
  case (Some j')
  then show ?thesis using ps.claim_holds [OF Some] assms by (simp add: row_lease_def)
qed

lemma row_lease_write:
  assumes "keeps_lease p"
  shows "row_lease ow tid (snd (lease_write plain_store clock ow tid l (JObj p) d)) \<in> {row_lease ow tid d, None}"
proof (cases "fst (lease_write plain_store clock ow tid l (JObj p) d)")
  case None
  then show ?thesis using ps.lease_write_get by (simp add: row_lease_def)
next
  case (Some j')
  then obtain j where j: "st_get ow ''tasks'' tid d = Some j" "is_obj j" "j' = jmerge j (JObj p)"
    by (auto simp: ps.lease_write_result dest: jtext_is_obj split: option.splits if_splits)
  then have "jtext j' ''leaseId'' \<in> {jtext j ''leaseId'', None}"
    using assms by (auto simp: keeps_lease_def jtext_def jget_jmerge)
  then show ?thesis using Some j(1) by (simp add: row_lease_def ps.lease_write_get [simplified])
qed

lemma lease_step_row:
  assumes "lease_step ow tid (used, d) (used', d')"
  shows "used \<subseteq> used' \<and> row_lease ow tid d' \<in> {row_lease ow tid d, None} \<union> Some ` (used' - used)"
  using assms
  apply (elim lease_stepE)
  subgoal for l prev clock now ms using row_lease_claim [of prev tid ow clock now ms l d] by auto
  subgoal for l p clock using row_lease_write [of p ow tid clock l d] by auto
  subgoal by auto
  done

lemma fenced_stays:
  assumes "lease_steps ow tid c c'" "l \<in> fst c" "row_lease ow tid (snd c) \<noteq> Some l"
  shows "l \<in> fst c' \<and> row_lease ow tid (snd c') \<noteq> Some l"
  using assms
proof (induction rule: lease_steps.induct)
  case (step c c' c'')
  have "lease_step ow tid (fst c', snd c') (fst c'', snd c'')" using step.hyps by simp
  from lease_step_row [OF this] show ?case using step by auto
qed auto

lemma lease_steps_used: "lease_steps ow tid c c' \<Longrightarrow> fst c \<subseteq> fst c'"
proof (induction rule: lease_steps.induct)
  case (step c c' c'')
  then show ?case using lease_step_row [of ow tid "fst c'" "snd c'" "fst c''" "snd c''"] by auto
qed simp

text \<open>A claim that succeeds found on the row the lease of its snapshot.\<close>

lemma claim_sees_lease:
  assumes "fst (claim_task plain_store clock now ms l ow prev d) = Some j" "row_lease ow (jid prev) d = Some l'"
  shows "jtext prev ''leaseId'' = Some l'"
proof -
  obtain r where r: "st_get ow ''tasks'' (jid prev) d = Some r" "jcontains r (claim_expected prev)"
    using assms(1) by (auto elim!: ps.claim_SomeD)
  have "jget r ''leaseId'' = Some (JStr l')" using assms(2) r(1) by (simp add: row_lease_def jtext_Some)
  moreover obtain w where "jget r ''leaseId'' = Some w" "jcontains w (case jget prev ''leaseId'' of Some v \<Rightarrow> v | None \<Rightarrow> JNull)"
    using r(2) jcontains_field [of r _ "''leaseId''" "case jget prev ''leaseId'' of Some v \<Rightarrow> v | None \<Rightarrow> JNull"]
    by (fastforce simp: claim_expected_def)
  ultimately show ?thesis by (auto simp: jtext_Some split: option.splits)
qed

lemma finish_keeps_lease:
  assumes "distinct (map fst result)"
  shows "keeps_lease (AList.update ''updatedAt'' (JDate now) (finish_patch result t duration))
     \<and> keeps_lease [(''status'', JStr ''queued''), (''leaseId'', JNull), (''leaseUntil'', JNull)]
     \<and> keeps_lease [(''leaseUntil'', JDate now)]"
  using assms by (simp add: keeps_lease_def finish_patch_def)

section \<open>Selection\<close>

definition gate_blocked :: "'s store \<Rightarrow> string \<Rightarrow> json \<Rightarrow> 's \<Rightarrow> bool" where
  "gate_blocked S owner t s \<longleftrightarrow> jstatus t = Some ''waiting_approval''
     \<and> (case action_of S owner t s of None \<Rightarrow> False
        | Some a \<Rightarrow> jstatus a \<in> {Some ''awaiting_review'', Some ''executing''})"

lemma select_subseq:
  "\<exists>taken. fst (select_tasks S quota clock now rows counts eligible s) = eligible @ taken \<and> subseq taken rows"
proof (induction S quota clock now rows counts eligible s rule: select_tasks.induct)
  case (2 S quota clock now r rs counts eligible s)
  obtain pass s1 where g: "approval_gate (S (fst r)) clock now (fst (snd r)) (snd (snd r)) s = (pass, s1)" by force
  let ?n = "count_of (fst (snd r)) counts"
  show ?case
  proof (cases "\<not> pass \<or> ?n \<ge> quota")
    case True
    then show ?thesis using 2(1) [OF refl g [symmetric] refl] g
      by (auto simp: Let_def)
  next
    case False
    show ?thesis
    proof (cases "length (eligible @ [r]) = 20")
      case True
      then show ?thesis using False g by (auto simp: Let_def intro!: exI [of _ "[r]"])
    next
      case ne: False
      obtain taken where "fst (select_tasks S quota clock now rs (AList.update (fst (snd r)) (?n + 1) counts) (eligible @ [r]) s1)
          = (eligible @ [r]) @ taken" "subseq taken rs"
        using 2(2) [OF refl g [symmetric] refl False refl ne] by blast
      then show ?thesis using False ne g by (auto simp: Let_def intro!: exI [of _ "r # taken"])
    qed
  qed
qed simp

definition per_owner :: "string \<Rightarrow> task_row list \<Rightarrow> nat" where
  "per_owner ow rows = length (filter (\<lambda>r. fst (snd r) = ow) rows)"

lemma select_bounds:
  assumes "length eligible < 20" "\<And>ow. count_of ow counts = per_owner ow eligible" "\<And>ow. per_owner ow eligible \<le> quota"
  shows "length (fst (select_tasks S quota clock now rows counts eligible s)) \<le> 20
     \<and> (\<forall>ow. per_owner ow (fst (select_tasks S quota clock now rows counts eligible s)) \<le> quota)"
  using assms
proof (induction S quota clock now rows counts eligible s rule: select_tasks.induct)
  case (2 S quota clock now r rs counts eligible s)
  obtain pass s1 where g: "approval_gate (S (fst r)) clock now (fst (snd r)) (snd (snd r)) s = (pass, s1)" by force
  let ?n = "count_of (fst (snd r)) counts"
  show ?case
  proof (cases "\<not> pass \<or> ?n \<ge> quota")
    case True
    then show ?thesis using 2(1) [OF refl g [symmetric] refl] 2(3-) g by (simp add: Let_def)
  next
    case False
    then have q: "\<And>ow. per_owner ow (eligible @ [r]) \<le> quota"
      using 2(4,5) by (auto simp: per_owner_def Suc_le_eq not_le)
    have c: "\<And>ow. count_of ow (AList.update (fst (snd r)) (?n + 1) counts) = per_owner ow (eligible @ [r])"
      using 2(4) by (auto simp: count_of_def per_owner_def)
    show ?thesis
    proof (cases "length (eligible @ [r]) = 20")
      case True
      then show ?thesis using False g q by (simp add: Let_def)
    next
      case ne: False
      then have "length (eligible @ [r]) < 20" using 2(3) by simp
      then show ?thesis using 2(2) [OF refl g [symmetric] refl False refl ne _ c q] False ne g by (simp add: Let_def)
    qed
  qed
qed simp

section \<open>Properties\<close>

definition queued_task :: "string \<Rightarrow> json" where
  "queued_task i = JObj [(''id'', JStr i), (''status'', JStr ''queued''), (''leaseId'', JNull), (''attempts'', JNum 0),
     (''updatedAt'', JDate 0), (''state'', JObj [])]"

definition one_task :: table where
  "one_task = [((''u1'', ''tasks'', ''t1''), queued_task ''t1'', 5)]"

definition claimed_task :: table where
  "claimed_task = snd (claim_task plain_store 10 100 60000 ''L1'' ''u1'' (queued_task ''t1'') one_task)"

lemma claimed_task_eq: "claimed_task = [((''u1'', ''tasks'', ''t1''), JObj [(''id'', JStr ''t1''),
     (''status'', JStr ''running''), (''leaseId'', JStr ''L1''), (''attempts'', JNum 1), (''updatedAt'', JDate 100),
     (''state'', JObj []), (''leaseUntil'', JDate 60100)], 10)]"
  by (simp add: claimed_task_def claim_task_def claim_expected_def claim_patch_def queued_task_def one_task_def
      table_ops jid_def jtext_def jstatus_def copy_field_def fields_merge_def)

text \<open>C4: leases fence.  Once an issued lease is no longer the lease of the task's row, no sequence of
  claims, lease writes and writes of other users ever makes it hold again: every later checkpoint
  under it is refused as a lost lease, every heartbeat under it tells the run to abort, and none of
  them changes the table.\<close>
theorem fenced_lease_never_writes:
  assumes "lease_steps ow tid c c'" "l \<in> fst c" "row_lease ow tid (snd c) \<noteq> Some l"
  shows "lease_write plain_store clock ow tid l p (snd c') = (None, snd c')
     \<and> checkpoint plain_store clock now aborted ow tid l fs (snd c') = (Inl LostLease, snd c')
     \<and> heartbeat plain_store clock now ms ow tid l (snd c') = (True, snd c')"
proof -
  have "row_lease ow tid (snd c') \<noteq> Some l" using fenced_stays [OF assms] by simp
  then have n: "lease_write plain_store clock ow tid l q (snd c') = (None, snd c')" for q
    by (auto simp: lease_write_def st_cas_def row_lease_def jcontains_held split: option.splits)
  then show ?thesis by (simp add: checkpoint_def heartbeat_def)
qed

theorem fenced_lease_never_writes_witness:
  "checkpoint plain_store 9 500 False ''u1'' ''t1'' ''L0'' [(''status'', JStr ''succeeded'')] claimed_task
     = (Inl LostLease, claimed_task)"
proof -
  have "lease_step ''u1'' ''t1'' ({''L0''}, one_task) (insert ''L1'' {''L0''}, claimed_task)"
    unfolding claimed_task_def by (rule claim) (simp_all add: queued_task_def jid_def jtext_def)
  then have s: "lease_steps ''u1'' ''t1'' ({''L0''}, one_task) (insert ''L1'' {''L0''}, claimed_task)"
    by (rule lease_steps.step [OF lease_steps.here])
  have l: "''L0'' \<in> fst ({''L0''}, one_task)" by simp
  have r: "row_lease ''u1'' ''t1'' (snd ({''L0''}, one_task)) \<noteq> Some ''L0''"
    by (simp add: row_lease_def one_task_def queued_task_def st_get_def jtext_def)
  show ?thesis using fenced_lease_never_writes [OF s l r, of 9 JNull 500 False "[(''status'', JStr ''succeeded'')]" 0] by simp
qed

text \<open>C12: two runs of a task never hold it together.  A claim that succeeds leaves the row running under its own
  lease until leaseMs after the claim.  Whatever claims, lease writes and writes of users follow, another claim
  with a lease of its own, prepared from any snapshot, the first claim's included, succeeds only when the row no longer
  bears the first lease, or when its snapshot was taken while the row bore it (the takeover of an
  expired run); and from then on every write of the first run is refused, for ever.\<close>
theorem one_run_at_a_time:
  assumes "claim_task plain_store clock now ms l ow prev d = (Some j, d1)" "tid = jid prev"
    and "lease_steps ow tid (insert l used, d1) (used2, d2)"
    and "claim_task plain_store clock2 now2 ms2 l2 ow prev2 d2 = (Some j2, d3)" "jid prev2 = tid" "l2 \<notin> used2"
    and "lease_steps ow tid (insert l2 used2, d3) (used4, d4)"
  shows "st_get ow ''tasks'' tid d1 = Some j \<and> jtext j ''leaseId'' = Some l \<and> jstatus j = Some ''running''
     \<and> jdate (jget j ''leaseUntil'') = Some (now + ms)
     \<and> (row_lease ow tid d2 \<noteq> Some l \<or> jtext prev2 ''leaseId'' = Some l)
     \<and> lease_write plain_store clock4 ow tid l p d4 = (None, d4)"
proof -
  have first: "st_get ow ''tasks'' tid d1 = Some j \<and> jtext j ''leaseId'' = Some l \<and> jstatus j = Some ''running''
     \<and> jdate (jget j ''leaseUntil'') = Some (now + ms)"
    using ps.claim_holds [of clock now ms l ow prev d j] assms(1,2) by simp
  have seen: "row_lease ow tid d2 \<noteq> Some l \<or> jtext prev2 ''leaseId'' = Some l"
    using claim_sees_lease [of clock2 now2 ms2 l2 ow prev2 d2 j2 l] assms(4,5) by auto
  have l: "l \<in> insert l2 used2" "l \<noteq> l2" using lease_steps_used [OF assms(3)] assms(6) by auto
  have "row_lease ow tid d3 = Some l2"
    using ps.claim_holds [of clock2 now2 ms2 l2 ow prev2 d2 j2] assms(4,5) by (simp add: row_lease_def)
  then have "row_lease ow tid (snd (used4, d4)) \<noteq> Some l"
    using fenced_stays [OF assms(7), of l] l by simp
  then have "lease_write plain_store clock4 ow tid l p d4 = (None, d4)"
    by (auto simp: lease_write_def st_cas_def row_lease_def jcontains_held split: option.splits)
  then show ?thesis using first seen by blast
qed

text \<open>The first run re-queues the task; the snapshot of the first claim is then good for a second one.\<close>

theorem one_run_at_a_time_witness:
  "\<exists>j2 d3. claim_task plain_store 12 300 60000 ''L2'' ''u1'' (queued_task ''t1'')
       (snd (lease_write plain_store 11 ''u1'' ''t1'' ''L1'' (JObj [(''status'', JStr ''queued''), (''leaseId'', JNull)]) claimed_task)) = (Some j2, d3)
     \<and> lease_write plain_store 13 ''u1'' ''t1'' ''L1'' (JObj [(''status'', JStr ''succeeded'')]) d3 = (None, d3)"
proof -
  let ?p = "[(''status'', JStr ''queued''), (''leaseId'', JNull)]"
  define d2 where "d2 = snd (lease_write plain_store 11 ''u1'' ''t1'' ''L1'' (JObj ?p) claimed_task)"
  obtain j where c: "claim_task plain_store 10 100 60000 ''L1'' ''u1'' (queued_task ''t1'') one_task = (Some j, claimed_task)"
    by (simp add: claimed_task_def claim_task_def claim_expected_def claim_patch_def queued_task_def one_task_def
        table_ops jid_def jtext_def jstatus_def copy_field_def)
  have "lease_step ''u1'' ''t1'' ({''L1''}, claimed_task) ({''L1''}, d2)"
    unfolding d2_def by (rule lwrite) (simp_all add: keeps_lease_def)
  then have s: "lease_steps ''u1'' ''t1'' (insert ''L1'' {}, claimed_task) ({''L1''}, d2)"
    by (rule lease_steps.step [OF lease_steps.here])
  obtain j2 d3 where c2: "claim_task plain_store 12 300 60000 ''L2'' ''u1'' (queued_task ''t1'') d2 = (Some j2, d3)"
    by (simp add: d2_def claimed_task_eq lease_write_def held_def claim_task_def claim_expected_def claim_patch_def queued_task_def
        table_ops jid_def jtext_def jstatus_def copy_field_def fields_merge_def)
  have "''t1'' = jid (queued_task ''t1'')" by (simp add: queued_task_def jid_def jtext_def)
  from one_run_at_a_time [OF c this s c2 this [symmetric] _ lease_steps.here] c2 show ?thesis by (auto simp: d2_def)
qed

text \<open>A heartbeat keeps the task.  After a heartbeat that succeeded the task is not due before the
  renewed lease ends, and a worker that saw the row running with another end of the lease, however
  long expired, can no longer claim it.\<close>
theorem heartbeat_keeps_task:
  assumes "heartbeat plain_store clock now ms ow tid l d = (False, d')" "st_get ow ''tasks'' tid d' = Some j"
    and "jid prev = tid" "jstatus prev = Some ''running''" "jdate (jget prev ''leaseUntil'') = Some u" "u \<noteq> now + ms"
  shows "(t < now + ms \<longrightarrow> \<not> task_due t active j)
     \<and> fst (claim_task plain_store clock' now' ms' l' ow prev d') = None"
proof -
  let ?p = "JObj [(''leaseUntil'', JDate (now + ms))]"
  obtain j0 where j0: "st_get ow ''tasks'' tid d = Some j0" "jtext j0 ''leaseId'' = Some l" "jstatus j0 = Some ''running''"
    and d': "d' = snd (lease_write plain_store clock ow tid l ?p d)"
    and r: "fst (lease_write plain_store clock ow tid l ?p d) = Some (jmerge j0 ?p)"
    using assms(1) by (auto simp: heartbeat_def ps.lease_write_result split: prod.splits option.splits if_splits)
       (auto simp: lease_write_def st_cas_def jcontains_held split: option.splits if_splits)
  have "st_get ow ''tasks'' tid d' = Some (jmerge j0 ?p)"
    unfolding d' using ps.lease_write_get [of ow "''tasks''" tid clock ow tid l ?p d] r by simp
  then have j: "j = jmerge j0 ?p" using assms(2) by simp
  have o: "is_obj j0" using j0(2) by (rule jtext_is_obj)
  have u: "jdate (jget j ''leaseUntil'') = Some (now + ms)" and st: "jstatus j = Some ''running''"
    using o j0(3) by (simp_all add: j jget_jmerge jstatus_def jtext_def)
  show ?thesis using ps.claim_needs_same [of ow prev d' j u] assms u st by (auto simp: task_due_def date_le_def)
qed

theorem heartbeat_keeps_task_witness:
  "fst (claim_task plain_store 30 70000 60000 ''L2'' ''u1''
     (JObj [(''id'', JStr ''t1''), (''status'', JStr ''running''), (''leaseId'', JStr ''L1''), (''leaseUntil'', JDate 60100)])
     (snd (heartbeat plain_store 20 20100 60000 ''u1'' ''t1'' ''L1'' claimed_task))) = None"
proof -
  let ?prev = "JObj [(''id'', JStr ''t1''), (''status'', JStr ''running''), (''leaseId'', JStr ''L1''), (''leaseUntil'', JDate 60100)]"
  let ?d = "snd (heartbeat plain_store 20 20100 60000 ''u1'' ''t1'' ''L1'' claimed_task)"
  have h: "heartbeat plain_store 20 20100 60000 ''u1'' ''t1'' ''L1'' claimed_task = (False, ?d)"
    by (simp add: claimed_task_eq heartbeat_def lease_write_def st_cas_def st_get_def jcontains_held jtext_def jstatus_def)
  obtain j where j: "st_get ''u1'' ''tasks'' ''t1'' ?d = Some j"
    by (simp add: claimed_task_eq heartbeat_def lease_write_def st_cas_def st_get_def jcontains_held jtext_def jstatus_def)
  show ?thesis
    using heartbeat_keeps_task [OF h j, of ?prev 60100] by (simp add: jid_def jtext_def jstatus_def)
qed

text \<open>A tick's choice.  The tasks a tick starts are due rows in the order of the scan, each at most
  once; with the ones already running they stay within maxActive; they are at most twenty, and at
  most the quota per owner.\<close>
theorem tick_choice:
  assumes "fst (tick_tasks S quota max_active clock now active rows s) = run"
  shows "subseq run rows \<and> (\<forall>r\<in>set run. task_due now active (snd (snd r)))
     \<and> length run + length active \<le> max max_active (length active) \<and> length run \<le> 20
     \<and> (\<forall>ow. length (filter (\<lambda>r. fst (snd r) = ow) run) \<le> quota)"
proof -
  let ?due = "filter (\<lambda>r. task_due now active (snd (snd r))) rows"
  let ?sel = "fst (select_tasks S quota clock now ?due [] [] s)"
  have run: "run = take (max_active - length active) ?sel"
    using assms by (simp add: tick_tasks_def split: prod.splits)
  obtain taken where "?sel = taken" "subseq taken ?due"
    using select_subseq [of S quota clock now ?due "[]" "[]" s] by auto
  then have sub: "subseq run ?due"
    unfolding run using subseq_order.trans [of "take (max_active - length active) ?sel" ?sel ?due]
    by (simp add: prefix_imp_subseq take_is_prefix)
  have "length ?sel \<le> 20 \<and> (\<forall>ow. per_owner ow ?sel \<le> quota)"
    by (rule select_bounds) (simp_all add: count_of_def per_owner_def)
  then have "length ?sel \<le> 20" and "\<And>ow. per_owner ow ?sel \<le> quota" by blast+
  then have "length run \<le> 20" and "\<forall>ow. length (filter (\<lambda>r. fst (snd r) = ow) run) \<le> quota"
    unfolding per_owner_def run by (simp_all only: length_filter_take length_take min.coboundedI1 simp_thms)
  moreover have "set run \<subseteq> set ?due" using sub by (auto elim: list_emb_set)
  moreover have "subseq run rows" by (rule subseq_order.trans [OF sub subseq_filter_left])
  moreover have "length run + length active \<le> max max_active (length active)" by (simp add: run)
  ultimately show ?thesis by auto
qed

theorem tick_choice_witness:
  "length (fst (tick_tasks (\<lambda>_. plain_store) 1 2 10 200 [''t9'']
     [(None, ''u1'', queued_task ''t1''), (None, ''u1'', queued_task ''t2''), (None, ''u2'', queued_task ''t3'')] one_task))
   + length [''t9''] \<le> max 2 (length [''t9''])"
  using tick_choice [OF refl, of "\<lambda>_. plain_store" 1 2 10 200 "[''t9'']"
     "[(None, ''u1'', queued_task ''t1''), (None, ''u1'', queued_task ''t2''), (None, ''u2'', queued_task ''t3'')]" one_task]
  by (elim conjE)

text \<open>The run's transition guard never refuses.  A run that finishes writes the handler's status to
  the task, and the status it records for the run is that same status, allowed by the table of task
  transitions or not.\<close>
theorem finish_guard_is_vacuous:
  assumes "checkpoint plain_store clock now aborted ow tid l (finish_patch result t duration) d = (Inr t', d')"
    and "distinct (map fst result)" "map_of result ''status'' = Some (JStr st)"
  shows "st_get ow ''tasks'' tid d' = Some t' \<and> jstatus t' = Some st \<and> jtext t' ''leaseId'' = None
     \<and> finish_status result t' = st"
proof -
  let ?p = "AList.update ''updatedAt'' (JDate now) (finish_patch result t duration)"
  have w: "lease_write plain_store clock ow tid l (JObj ?p) d = (Some t', d')"
    using assms(1) by (auto simp: checkpoint_def split: if_splits option.splits prod.splits)
  then obtain j where j: "is_obj j" "t' = jmerge j (JObj ?p)"
    using ps.lease_write_result [of clock ow tid l "JObj ?p" d] by (auto dest: jtext_is_obj split: option.splits if_splits)
  have "distinct (map fst ?p)" "map_of ?p ''status'' = Some (JStr st)" "map_of ?p ''leaseId'' = Some JNull"
    using assms(2,3) by (simp_all add: finish_patch_def)
  then have "jget t' ''status'' = Some (JStr st)" "jget t' ''leaseId'' = Some JNull"
    using j by (simp_all add: jget_jmerge)
  moreover have "st_get ow ''tasks'' tid d' = Some t'"
    using ps.lease_write_get [of ow "''tasks''" tid clock ow tid l "JObj ?p" d] w by simp
  ultimately show ?thesis using assms(3)
    by (simp add: jstatus_def jtext_def finish_status_def text_or_empty_def Let_def)
qed

theorem finish_guard_is_vacuous_witness:
  "\<exists>t' d'. checkpoint plain_store 20 300 False ''u1'' ''t1'' ''L1''
       (finish_patch [(''status'', JStr ''scheduled'')] (queued_task ''t1'') 5) claimed_task = (Inr t', d')
     \<and> finish_status [(''status'', JStr ''scheduled'')] t' = ''scheduled'' \<and> \<not> allowed_text ''running'' ''scheduled''"
proof -
  have "\<exists>t' d'. checkpoint plain_store 20 300 False ''u1'' ''t1'' ''L1''
       (finish_patch [(''status'', JStr ''scheduled'')] (queued_task ''t1'') 5) claimed_task = (Inr t', d')"
    by (simp add: claimed_task_eq checkpoint_def lease_write_def st_cas_def st_get_def jcontains_held jtext_def jstatus_def)
  then obtain t' d' where c: "checkpoint plain_store 20 300 False ''u1'' ''t1'' ''L1''
       (finish_patch [(''status'', JStr ''scheduled'')] (queued_task ''t1'') 5) claimed_task = (Inr t', d')" by blast
  have "\<not> allowed_text ''running'' ''scheduled''" by code_simp
  then show ?thesis using finish_guard_is_vacuous [OF c, of "''scheduled''"] c by auto
qed

lemma run_event_fenced:
  assumes "jtext (the (st_get (rn_owner rn) ''tasks'' (rn_task rn) d)) ''leaseId'' = None"
    and "cache_ms \<le> wall - rn_guard_at rn"
  shows "snd (snd (run_event plain_store show_nat clock wall cache_ms now uuid state kind title detail rn d)) = d"
  using assms by (auto simp: run_event_def guard_def split: option.splits prod.splits if_splits)

text \<open>A failing run leaves the task failed, its lease cleared, and the task in the dead-letter queue;
  but the run event that should tell the user is never written: once the task is failed the lease
  guard in front of the event refuses, unless it was cached within the guard's window.\<close>
theorem failed_run_settles:
  assumes "st_get (rn_owner rn) ''tasks'' (rn_task rn) d = Some j" "jtext j ''leaseId'' = Some (rn_lease rn)"
    and "jstatus j = Some ''running''" "jid j = rn_task rn" "re_cache_ms env \<le> re_wall_end env - rn_guard_at rn"
  shows "(\<exists>j'. st_get (rn_owner rn) ''tasks'' (rn_task rn) (run_failed plain_store show_nat env detail t rn d) = Some j'
         \<and> jstatus j' = Some ''failed'' \<and> jtext j' ''leaseId'' = None \<and> jtext j' ''error'' = Some detail)
     \<and> st_get (rn_owner rn) ''dead-letter'' (''dl-'' @ rn_task rn) (run_failed plain_store show_nat env detail t rn d) \<noteq> None
     \<and> (\<forall>i. st_get (rn_owner rn) ''run-events'' i (run_failed plain_store show_nat env detail t rn d)
            = st_get (rn_owner rn) ''run-events'' i d)"
proof -
  let ?p = "failed_patch (re_end env) detail" and ?tid = "rn_task rn" and ?ow = "rn_owner rn"
  let ?j = "jmerge j ?p" and ?w = "lease_write plain_store (re_clock env) ?ow ?tid (rn_lease rn) ?p d"
  have o: "is_obj j" using assms(2) by (rule jtext_is_obj)
  have r: "fst ?w = Some ?j" using assms by (simp add: ps.lease_write_result)
  have g: "st_get ?ow k i (snd ?w) = (if k = ''tasks'' \<and> i = ?tid then Some ?j else st_get ?ow k i d)" for k i
    using ps.lease_write_get [of ?ow k i "re_clock env" ?ow ?tid "rn_lease rn" ?p d] r by simp
  have fs: "jget ?j ''status'' = Some (JStr ''failed'')" "jget ?j ''leaseId'' = Some JNull" "jget ?j ''error'' = Some (JStr detail)"
      "jget ?j ''id'' = jget j ''id''"
    using o by (simp_all add: failed_patch_def jget_jmerge)
  let ?q = "dl_enqueue plain_store (re_clock env) (re_end env) ?j detail ?ow (snd ?w)"
  have e: "snd (snd (run_event plain_store show_nat (re_clock env) (re_wall_end env) (re_cache_ms env) (re_end env) (re_event_id env)
      (task_state t) ''error'' ''Task needs attention'' detail rn (snd ?w))) = snd ?w"
    by (rule run_event_fenced) (use g fs assms(5) in \<open>simp_all add: jtext_def\<close>)
  have run: "run_failed plain_store show_nat env detail t rn d = snd ?q"
    using r e g [of "''tasks''" ?tid] unfolding run_failed_def by (auto split: prod.splits)
  have q: "st_get ?ow k i (snd ?q) = st_get ?ow k i (snd ?w)" if "k \<noteq> ''dead-letter''" for k i
    using that by (simp add: dl_enqueue_def Let_def st_get_insert split: option.splits)
  have "st_get ?ow ''dead-letter'' (''dl-'' @ ?tid) (snd ?q) \<noteq> None"
    using ps.enqueue_get [of ?ow ?j "re_clock env" "re_end env" detail "snd ?w"] fs(4) assms(4)
    by (simp add: dead_letter_id_def jid_def jtext_def)
  then show ?thesis using fs unfolding run by (simp add: q g jstatus_def jtext_def)
qed

definition sample_run :: run_local where
  "sample_run = \<lparr> rn_owner = ''u1'', rn_task = ''t1'', rn_lease = ''L1'', rn_aborted = False, rn_guard_at = 0, rn_recent = [] \<rparr>"

definition sample_run_env :: run_env where
  "sample_run_env = \<lparr> re_clock = 30, re_lease = ''L1'', re_lease_ms = 60000, re_now = 100, re_end = 900, re_wall_end = 900,
     re_duration = 800, re_cache_ms = 100, re_event_id = ''e1'' \<rparr>"

theorem failed_run_settles_witness:
  "st_get ''u1'' ''dead-letter'' ''dl-t1'' (run_failed plain_store (\<lambda>n. []) sample_run_env ''boom'' (queued_task ''t1'') sample_run claimed_task) \<noteq> None
   \<and> st_get ''u1'' ''run-events'' ''e1'' (run_failed plain_store (\<lambda>n. []) sample_run_env ''boom'' (queued_task ''t1'') sample_run claimed_task)
     = st_get ''u1'' ''run-events'' ''e1'' claimed_task"
proof -
  let ?j = "JObj [(''id'', JStr ''t1''), (''status'', JStr ''running''), (''leaseId'', JStr ''L1''), (''attempts'', JNum 1),
     (''updatedAt'', JDate 100), (''state'', JObj []), (''leaseUntil'', JDate 60100)]"
  have j: "st_get (rn_owner sample_run) ''tasks'' (rn_task sample_run) claimed_task = Some ?j"
    by (simp add: claimed_task_eq st_get_def sample_run_def)
  show ?thesis
    using failed_run_settles [OF j, of sample_run_env "\<lambda>n. []" "''boom''" "queued_task ''t1''"]
    by (simp add: sample_run_def sample_run_env_def jtext_def jstatus_def jid_def)
qed

end
