(* ===== verification/WorkerLive.thy ===== *)
theory WorkerLive
  imports Worker
begin

text \<open>
  Progress of the task worker of apps/server/src/engine/worker.ts: a task whose run died with its lease
  is started again by a later tick.
\<close>

section \<open>The first due row of a tick\<close>

lemma select_hd:
  assumes "jstatus t = Some ''running''" "0 < quota"
  obtains taken where "fst (select_tasks S quota clock now ((ten, ow, t) # rows) [] [] s) = (ten, ow, t) # taken"
proof -
  obtain taken where "fst (select_tasks S quota clock now rows (AList.update ow 1 []) [(ten, ow, t)] s) = [(ten, ow, t)] @ taken"
    using select_subseq [of S quota clock now rows "AList.update ow 1 []" "[(ten, ow, t)]" s] by blast
  then show thesis using assms that by (simp add: approval_gate_def count_of_def)
qed

lemma tick_starts_first:
  assumes "task_due now active t" "jstatus t = Some ''running''" "\<forall>r\<in>set before. \<not> task_due now active (snd (snd r))"
    "length active < max_active" "0 < quota"
  shows "(ten, ow, t) \<in> set (fst (tick_tasks S quota max_active clock now active (before @ (ten, ow, t) # rest) s))"
proof -
  let ?due = "\<lambda>r. task_due now active (snd (snd r))"
  have due: "filter ?due (before @ (ten, ow, t) # rest) = (ten, ow, t) # filter ?due rest"
    using assms(1,3) by (simp add: filter_empty_conv)
  obtain taken where sel: "fst (select_tasks S quota clock now ((ten, ow, t) # filter ?due rest) [] [] s) = (ten, ow, t) # taken"
    using assms(2,5) by (rule select_hd)
  obtain k where "max_active - length active = Suc k" using assms(4) by (metis Suc_diff_Suc)
  then show ?thesis using sel unfolding tick_tasks_def due by (simp add: Let_def split_beta)
qed

context record_store
begin

lemma claim_dead_run:
  assumes "s_get S ow ''tasks'' (jid j) s = Some j" "is_obj j" "jstatus j = Some ''running''" "jtext j ''leaseId'' = Some l"
    "jdate (jget j ''leaseUntil'') = Some u"
  shows "fst (claim_task S clock now ms l' ow j s) = Some (jmerge j (claim_patch now ms l' j))"
proof -
  have f: "jget j ''status'' = Some (JStr ''running'')" "jget j ''leaseId'' = Some (JStr l)" "jget j ''leaseUntil'' = Some (JDate u)"
    using assms(3-5) by (auto simp: jstatus_def jtext_Some elim: jdate.elims)
  have "jcontains j (claim_expected j)"
    using assms(2,3) f by (simp add: claim_expected_def copy_field_def jcontains_fields)
  then show ?thesis using assms(1) by (simp add: claim_task_def cas_result)
qed

end

section \<open>Progress\<close>

text \<open>C7: no task is stuck with a worker that died.  Once the lease of a claim has ended and the row is as
  the claim left it, the tick that meets the row before any other due one, with room under maxActive,
  starts the task, and the claim it makes from the row it read succeeds under its own lease, whatever
  else was written meanwhile.\<close>
theorem dead_run_is_restarted:
  assumes "claim_task plain_store clock at_time ms l ow prev d = (Some j, d1)" "jid j = jid prev"
    and "st_get ow ''tasks'' (jid prev) d2 = st_get ow ''tasks'' (jid prev) d1" "at_time + ms \<le> now"
    and "\<forall>r\<in>set before. \<not> task_due now active (snd (snd r))" "jid j \<notin> set active" "length active < max_active" "0 < quota"
  shows "(ten, ow, j) \<in> set (fst (tick_tasks S quota max_active clock' now active (before @ (ten, ow, j) # rest) s))
    \<and> (\<exists>j' d3. claim_task plain_store clock' now ms' l' ow j d2 = (Some j', d3) \<and> st_get ow ''tasks'' (jid j) d3 = Some j'
        \<and> jtext j' ''leaseId'' = Some l' \<and> jstatus j' = Some ''running'' \<and> jdate (jget j' ''leaseUntil'') = Some (now + ms'))"
proof -
  have row: "st_get ow ''tasks'' (jid j) d2 = Some j" "jtext j ''leaseId'' = Some l" "jstatus j = Some ''running''"
      "jdate (jget j ''leaseUntil'') = Some (at_time + ms)"
    using ps.claim_holds [of clock at_time ms l ow prev d j] assms(1-3) by simp_all
  have "task_due now active j" using row assms(4,6) by (simp add: task_due_def date_le_def)
  then have t: "(ten, ow, j) \<in> set (fst (tick_tasks S quota max_active clock' now active (before @ (ten, ow, j) # rest) s))"
    by (rule tick_starts_first [OF _ row(3) assms(5,7,8)])
  have obj: "is_obj j" using row(2) by (rule jtext_is_obj)
  obtain j' d3 where c: "claim_task plain_store clock' now ms' l' ow j d2 = (Some j', d3)"
    using ps.claim_dead_run [of ow j d2 l "at_time + ms" clock' now ms' l'] row obj by (metis plain_store_sel(1) prod.collapse)
  then show ?thesis using t ps.claim_holds [of clock' now ms' l' ow j d2 j'] by simp
qed

theorem dead_run_is_restarted_witness:
  "\<exists>j j' d. claim_task plain_store 10 100 60000 ''L1'' ''u1'' (queued_task ''t1'') one_task = (Some j, claimed_task)
     \<and> (None, ''u1'', j) \<in> set (fst (tick_tasks (\<lambda>_. plain_store) 1 2 20 60100 [''t9''] [(None, ''u1'', j)] claimed_task))
     \<and> claim_task plain_store 20 60100 60000 ''L2'' ''u1'' j claimed_task = (Some j', d) \<and> jtext j' ''leaseId'' = Some ''L2''"
proof -
  obtain j where c: "claim_task plain_store 10 100 60000 ''L1'' ''u1'' (queued_task ''t1'') one_task = (Some j, claimed_task)"
      and i: "jid j = ''t1''"
    by (simp add: claimed_task_def claim_task_def claim_expected_def claim_patch_def queued_task_def one_task_def
        table_ops jid_def jtext_def jstatus_def copy_field_def fields_merge_def)
  have q: "jid j = jid (queued_task ''t1'')" "(100::int) + 60000 \<le> 60100" "jid j \<notin> set [''t9'']" "length [''t9''] < 2" "0 < (1::nat)"
    using i by (simp_all add: queued_task_def jid_def jtext_def)
  show ?thesis
    using dead_run_is_restarted [OF c q(1) refl q(2), of "[]" "[''t9'']" 2 1 None "\<lambda>_. plain_store" 20 "[]" claimed_task 60000 "''L2''"]
      c q(3-5) by auto
qed

end
