(* ===== verification/Deferred.thy ===== *)
theory Deferred
  imports StoreContract
begin

text \<open>
  Deferred actions (apps/server/src/actions-deferred.ts): an approved action collects its
  signatures, waits for a window in which a signer can cancel it, and is then run by a tick.

  \<open>DeferredStore\<close> is the interface: the locale \<open>deferred_store\<close> states its laws and proves the
  protocol once; both classes that implement it are interpretations, \<open>StoreDeferredStore\<close> over the
  records table and \<open>MemoryDeferredStore\<close> over a map.  \<open>deferred_step\<close> interleaves the reads
  and the writes of signatures, the cancellations and the parts of any number of ticks.
\<close>

section \<open>Records and the service\<close>

datatype deferred_status = Collecting | DScheduled | DRunning | Executed | DCancelled | DFailed

fun dstatus_text :: "deferred_status \<Rightarrow> string" where
  "dstatus_text Collecting = ''collecting''"
| "dstatus_text DScheduled = ''scheduled''"
| "dstatus_text DRunning = ''running''"
| "dstatus_text Executed = ''executed''"
| "dstatus_text DCancelled = ''cancelled''"
| "dstatus_text DFailed = ''failed''"

record deferred_rec =
  dr_action :: string
  dr_owner :: string
  dr_amount :: "rat option"
  dr_signers :: "string list"
  dr_needed :: nat
  dr_execute_at :: "int option"
  dr_status :: deferred_status

record 's deferred_ops =
  df_get :: "string \<Rightarrow> 's \<Rightarrow> deferred_rec option"
  df_put :: "deferred_rec \<Rightarrow> 's \<Rightarrow> 's"
  df_due :: "int \<Rightarrow> 's \<Rightarrow> deferred_rec list"
  df_claim :: "string \<Rightarrow> 's \<Rightarrow> bool \<times> 's"
  df_cancel :: "string \<Rightarrow> 's \<Rightarrow> bool \<times> 's"

record deferred_cfg =
  dc_window :: "int option"
  dc_dual_at :: "rat option"

datatype deferred_event = DeferredEv string "string list" nat "int option"
  | CancelledEv string string | ExecutedEv string | FailedEv string string

definition needed :: "deferred_cfg \<Rightarrow> rat option \<Rightarrow> nat" where
  "needed cfg amount = (case (dc_dual_at cfg, amount) of (Some d, Some a) \<Rightarrow> if a \<ge> d then 2 else 1 | _ \<Rightarrow> 1)"

definition fresh_rec :: "deferred_cfg \<Rightarrow> string \<Rightarrow> string \<Rightarrow> rat option \<Rightarrow> deferred_rec" where
  "fresh_rec cfg owner actionId amount = \<lparr> dr_action = actionId, dr_owner = owner, dr_amount = amount,
     dr_signers = [], dr_needed = needed cfg amount, dr_execute_at = None, dr_status = Collecting \<rparr>"

text \<open>\<open>sign\<close> is what decide does to the record it has read, before it writes it back.\<close>

definition sign :: "deferred_cfg \<Rightarrow> int \<Rightarrow> string \<Rightarrow> string \<Rightarrow> deferred_rec \<Rightarrow> deferred_rec res" where
  "sign cfg now owner user r =
     (if dr_owner r \<noteq> owner then Inl (JsError ''forbidden'')
      else if dr_status r \<noteq> Collecting then Inl (JsError (''estado invalido: '' @ dstatus_text (dr_status r)))
      else if user \<in> set (dr_signers r) then Inl (JsError ''ya has firmado'')
      else (let r' = r\<lparr> dr_signers := dr_signers r @ [user] \<rparr>
        in Inr (if length (dr_signers r') \<ge> needed cfg (dr_amount r')
          then r'\<lparr> dr_status := DScheduled,
                   dr_execute_at := Some (now + (case dc_window cfg of Some w \<Rightarrow> w | None \<Rightarrow> 8000)) \<rparr>
          else r')))"

definition df_read :: "'s deferred_ops \<Rightarrow> deferred_cfg \<Rightarrow> string \<Rightarrow> string \<Rightarrow> rat option \<Rightarrow> 's \<Rightarrow> deferred_rec" where
  "df_read D cfg owner actionId amount s = (case df_get D actionId s of Some r \<Rightarrow> r | None \<Rightarrow> fresh_rec cfg owner actionId amount)"

definition df_decide :: "'s deferred_ops \<Rightarrow> deferred_cfg \<Rightarrow> int \<Rightarrow> string \<Rightarrow> string \<Rightarrow> string \<Rightarrow> rat option \<Rightarrow> 's
    \<Rightarrow> (deferred_rec \<times> deferred_event list) res \<times> 's" where
  "df_decide D cfg now owner actionId user amount s =
     (case sign cfg now owner user (df_read D cfg owner actionId amount s) of
        Inl e \<Rightarrow> (Inl e, s)
      | Inr r \<Rightarrow> (Inr (r, [DeferredEv actionId (dr_signers r) (needed cfg (dr_amount r)) (dr_execute_at r)]), df_put D r s))"

definition df_cancel_action :: "'s deferred_ops \<Rightarrow> string \<Rightarrow> string \<Rightarrow> string \<Rightarrow> 's \<Rightarrow> deferred_event list res \<times> 's" where
  "df_cancel_action D owner actionId user s = (case df_get D actionId s of
       None \<Rightarrow> (Inl (JsError ''not found''), s)
     | Some r \<Rightarrow> if dr_owner r \<noteq> owner then (Inl (JsError ''not found''), s)
         else if user \<notin> set (dr_signers r) then (Inl (JsError ''solo un firmante puede cancelar''), s)
         else (case df_cancel D actionId s of
             (False, s') \<Rightarrow> (Inl (JsError ''ya no se puede cancelar''), s')
           | (True, s') \<Rightarrow> (Inr [CancelledEv actionId user], s')))"

text \<open>A tick takes its due records once, then claims, runs and settles them one by one; \<open>run\<close> is
  the outcome of the callback: the error text, when it throws.\<close>

definition settle :: "'s deferred_ops \<Rightarrow> deferred_rec \<Rightarrow> string option \<Rightarrow> 's \<Rightarrow> deferred_event \<times> 's" where
  "settle D r outcome s = (case outcome of
     None \<Rightarrow> (ExecutedEv (dr_action r), df_put D (r\<lparr> dr_status := Executed \<rparr>) s)
   | Some e \<Rightarrow> (FailedEv (dr_action r) e, df_put D (r\<lparr> dr_status := DFailed \<rparr>) s))"

fun tick_loop :: "'s deferred_ops \<Rightarrow> (string \<Rightarrow> string \<Rightarrow> string option) \<Rightarrow> deferred_rec list \<Rightarrow> 's \<Rightarrow> deferred_event list \<times> 's" where
  "tick_loop D run [] s = ([], s)"
| "tick_loop D run (r # rs) s = (case df_claim D (dr_action r) s of
     (False, s1) \<Rightarrow> tick_loop D run rs s1
   | (True, s1) \<Rightarrow> (let (ev, s2) = settle D r (run (dr_owner r) (dr_action r)) s1;
                        (evs, s3) = tick_loop D run rs s2 in (ev # evs, s3)))"

definition df_tick :: "'s deferred_ops \<Rightarrow> (string \<Rightarrow> string \<Rightarrow> string option) \<Rightarrow> int \<Rightarrow> 's \<Rightarrow> deferred_event list \<times> 's" where
  "df_tick D run now s = tick_loop D run (df_due D now s) s"

section \<open>MemoryDeferredStore\<close>

type_synonym mem_deferred = "(string \<times> deferred_rec) list"

definition due_rec :: "int \<Rightarrow> deferred_rec \<Rightarrow> bool" where
  "due_rec now r \<longleftrightarrow> dr_status r = DScheduled \<and> (case dr_execute_at r of None \<Rightarrow> False | Some t \<Rightarrow> t \<le> now)"

definition md_put :: "deferred_rec \<Rightarrow> mem_deferred \<Rightarrow> mem_deferred" where
  "md_put r m = AList.update (dr_action r) r m"

definition md_due :: "int \<Rightarrow> mem_deferred \<Rightarrow> deferred_rec list" where
  "md_due now m = filter (due_rec now) (map snd m)"

definition md_claim :: "string \<Rightarrow> mem_deferred \<Rightarrow> bool \<times> mem_deferred" where
  "md_claim i m = (case map_of m i of None \<Rightarrow> (False, m)
     | Some r \<Rightarrow> if dr_status r = DScheduled then (True, AList.update i (r\<lparr> dr_status := DRunning \<rparr>) m) else (False, m))"

definition md_cancel :: "string \<Rightarrow> mem_deferred \<Rightarrow> bool \<times> mem_deferred" where
  "md_cancel i m = (case map_of m i of None \<Rightarrow> (False, m)
     | Some r \<Rightarrow> if dr_status r \<in> {DScheduled, Collecting} then (True, AList.update i (r\<lparr> dr_status := DCancelled \<rparr>) m)
                 else (False, m))"

definition memory_deferred :: "mem_deferred deferred_ops" where
  "memory_deferred = \<lparr> df_get = \<lambda>i m. map_of m i, df_put = md_put, df_due = md_due, df_claim = md_claim, df_cancel = md_cancel \<rparr>"

section \<open>StoreDeferredStore\<close>

definition dstatus_of :: "string \<Rightarrow> deferred_status option" where
  "dstatus_of t = find (\<lambda>st. dstatus_text st = t) [Collecting, DScheduled, DRunning, Executed, DCancelled, DFailed]"

text \<open>The row of a record: its fields beside the row's id; an undefined amount is left out.\<close>

definition deferred_row :: "deferred_rec \<Rightarrow> json" where
  "deferred_row r = JObj ([(''id'', JStr (dr_action r)), (''actionId'', JStr (dr_action r)), (''owner'', JStr (dr_owner r))]
     @ (case dr_amount r of None \<Rightarrow> [] | Some a \<Rightarrow> [(''amount'', JNum a)])
     @ [(''signers'', JArr (map JStr (dr_signers r))), (''needed'', JNum (of_nat (dr_needed r))),
        (''executeAt'', case dr_execute_at r of None \<Rightarrow> JNull | Some t \<Rightarrow> JNum (of_int t)),
        (''status'', JStr (dstatus_text (dr_status r)))])"

definition row_deferred :: "json \<Rightarrow> deferred_rec option" where
  "row_deferred j = (case (jtext j ''actionId'', jtext j ''owner'', jnum (jget j ''needed''),
        Option.bind (jstatus j) dstatus_of) of
     (Some i, Some ow, Some n, Some st) \<Rightarrow>
       Some \<lparr> dr_action = i, dr_owner = ow, dr_amount = jnum (jget j ''amount''),
         dr_signers = List.map_filter (\<lambda>x. case x of JStr s \<Rightarrow> Some s | _ \<Rightarrow> None) (jarr (jget j ''signers'')),
         dr_needed = nat \<lfloor>n\<rfloor>, dr_execute_at = map_option floor (jnum (jget j ''executeAt'')), dr_status = st \<rparr>
   | _ \<Rightarrow> None)"

definition sd_get :: "string \<Rightarrow> table \<Rightarrow> deferred_rec option" where
  "sd_get i d = Option.bind (st_get ''system'' ''deferred-actions'' i d) row_deferred"

definition sd_put :: "int \<Rightarrow> deferred_rec \<Rightarrow> table \<Rightarrow> table" where
  "sd_put clock r d = st_put clock ''system'' ''deferred-actions'' (deferred_row r) d"

definition sd_due :: "int \<Rightarrow> table \<Rightarrow> deferred_rec list" where
  "sd_due now d = filter (due_rec now) (List.map_filter row_deferred (st_list ''system'' ''deferred-actions'' no_options d))"

definition status_patch :: "deferred_status \<Rightarrow> json" where
  "status_patch st = JObj [(''status'', JStr (dstatus_text st))]"

definition sd_claim :: "int \<Rightarrow> string \<Rightarrow> table \<Rightarrow> bool \<times> table" where
  "sd_claim clock i d = (case sd_get i d of None \<Rightarrow> (False, d)
     | Some r \<Rightarrow> if dr_status r \<noteq> DScheduled then (False, d)
         else (let (u, d') = st_cas clock ''system'' ''deferred-actions'' i (status_patch DScheduled) (status_patch DRunning) d
               in (u \<noteq> None, d')))"

definition sd_cancel :: "int \<Rightarrow> string \<Rightarrow> table \<Rightarrow> bool \<times> table" where
  "sd_cancel clock i d = (case sd_get i d of None \<Rightarrow> (False, d)
     | Some r \<Rightarrow> if dr_status r \<notin> {DScheduled, Collecting} then (False, d)
         else (let (u, d') = st_cas clock ''system'' ''deferred-actions'' i (status_patch (dr_status r)) (status_patch DCancelled) d
               in (u \<noteq> None, d')))"

definition store_deferred :: "int \<Rightarrow> table deferred_ops" where
  "store_deferred clock = \<lparr> df_get = sd_get, df_put = sd_put clock, df_due = sd_due, df_claim = sd_claim clock,
     df_cancel = sd_cancel clock \<rparr>"

definition sd_purge :: "int \<Rightarrow> nat \<Rightarrow> table \<Rightarrow> nat \<times> table" where
  "sd_purge now days d = purge_older_than now ''deferred-actions'' days d"

section \<open>The interface\<close>

locale deferred_store =
  fixes D :: "'s deferred_ops" and ok :: "'s \<Rightarrow> bool"
  assumes get_put: "df_get D i (df_put D r s) = (if i = dr_action r then Some r else df_get D i s)"
    and due_rec: "\<lbrakk> ok s; r \<in> set (df_due D now s) \<rbrakk> \<Longrightarrow> df_get D (dr_action r) s = Some r \<and> due_rec now r"
    and claim_result: "fst (df_claim D i s) \<longleftrightarrow> (\<exists>r. df_get D i s = Some r \<and> dr_status r = DScheduled)"
    and get_claim: "df_get D j (snd (df_claim D i s)) = (if j = i \<and> fst (df_claim D i s)
        then map_option (\<lambda>r. r\<lparr> dr_status := DRunning \<rparr>) (df_get D i s) else df_get D j s)"
    and cancel_result: "fst (df_cancel D i s) \<longleftrightarrow> (\<exists>r. df_get D i s = Some r \<and> dr_status r \<in> {DScheduled, Collecting})"
    and get_cancel: "df_get D j (snd (df_cancel D i s)) = (if j = i \<and> fst (df_cancel D i s)
        then map_option (\<lambda>r. r\<lparr> dr_status := DCancelled \<rparr>) (df_get D i s) else df_get D j s)"
    and get_action: "\<lbrakk> ok s; df_get D i s = Some r \<rbrakk> \<Longrightarrow> dr_action r = i"
    and ok_put: "ok s \<Longrightarrow> ok (df_put D r s)"
    and ok_claim: "ok s \<Longrightarrow> ok (snd (df_claim D i s))"
    and ok_cancel: "ok s \<Longrightarrow> ok (snd (df_cancel D i s))"

text \<open>Requests interleave at their awaits.  A signature reads the record in one step and writes it back whole in a
  later one; between the two \<open>ws\<close> holds the record that it will write.  The check of the signers that cancel
  makes first only decides whether it goes on, so a cancellation is its compare-and-swap.  A tick's claim and its
  settlement are steps of their own, with the record as the tick read it.

  The log names the signatures that read and wrote (with whether another one was in flight on the same action, and
  whether the write scheduled it), the claims, each of which hands the action to \<open>run\<close>, and the
  cancellations that took effect (with whether a signature was in flight).\<close>

datatype dlog = LRead string bool | LWrite string bool | LClaim string | LCancel string bool

definition in_flight :: "string \<Rightarrow> deferred_rec list \<Rightarrow> bool" where
  "in_flight i ws \<longleftrightarrow> i \<in> dr_action ` set ws"

inductive deferred_step :: "'s deferred_ops \<Rightarrow> deferred_cfg \<Rightarrow> dlog list \<times> deferred_rec list \<times> 's \<Rightarrow> dlog list \<times> deferred_rec list \<times> 's \<Rightarrow> bool"
  for D cfg where
  read: "sign cfg now owner user (df_read D cfg owner i amount s) = Inr r \<Longrightarrow>
     deferred_step D cfg (lg, ws, s) (lg @ [LRead i (in_flight i ws)], ws @ [r], s)"
| wrote: "r \<in> set ws \<Longrightarrow> deferred_step D cfg (lg, ws, s)
     (lg @ [LWrite (dr_action r) (dr_status r = DScheduled)], remove1 r ws, df_put D r s)"
| cancel: "df_cancel D i s = (True, s') \<Longrightarrow> deferred_step D cfg (lg, ws, s) (lg @ [LCancel i (in_flight i ws)], ws, s')"
| no_cancel: "df_cancel D i s = (False, s') \<Longrightarrow> deferred_step D cfg (lg, ws, s) (lg, ws, s')"
| claim: "df_claim D i s = (True, s') \<Longrightarrow> deferred_step D cfg (lg, ws, s) (lg @ [LClaim i], ws, s')"
| no_claim: "df_claim D i s = (False, s') \<Longrightarrow> deferred_step D cfg (lg, ws, s) (lg, ws, s')"
| settle: "LClaim (dr_action r) \<in> set lg \<Longrightarrow> deferred_step D cfg (lg, ws, s) (lg, ws, snd (settle D r outcome s))"

inductive deferred_steps :: "'s deferred_ops \<Rightarrow> deferred_cfg \<Rightarrow> dlog list \<times> deferred_rec list \<times> 's \<Rightarrow> dlog list \<times> deferred_rec list \<times> 's \<Rightarrow> bool"
  for D cfg where
  here: "deferred_steps D cfg c c"
| step: "\<lbrakk> deferred_steps D cfg c c'; deferred_step D cfg c' c'' \<rbrakk> \<Longrightarrow> deferred_steps D cfg c c''"

text \<open>What the log says of the record of an action: each claim used up a write that scheduled it; and, when no
  signature was read while another was in flight, a claim or a cancellation outside of a signature
  is for good.\<close>

definition now_status :: "'s deferred_ops \<Rightarrow> string \<Rightarrow> 's \<Rightarrow> deferred_status option" where
  "now_status D i s = map_option dr_status (df_get D i s)"

definition claims_paid :: "'s deferred_ops \<Rightarrow> nat \<Rightarrow> string \<Rightarrow> dlog list \<Rightarrow> 's \<Rightarrow> bool" where
  "claims_paid D k i lg s \<longleftrightarrow> count_list lg (LClaim i) + (if now_status D i s = Some DScheduled then 1 else 0)
     \<le> count_list lg (LWrite i True) + k"

definition log_agrees :: "'s deferred_ops \<Rightarrow> string \<Rightarrow> dlog list \<Rightarrow> deferred_rec list \<Rightarrow> 's \<Rightarrow> bool" where
  "log_agrees D i lg ws s \<longleftrightarrow> count_list (map dr_action ws) i \<le> 1
     \<and> count_list lg (LClaim i) \<le> 1 \<and> count_list lg (LCancel i False) \<le> 1
     \<and> (in_flight i ws \<longrightarrow> LClaim i \<notin> set lg \<and> LCancel i False \<notin> set lg
          \<and> now_status D i s \<in> {None, Some Collecting, Some DCancelled})
     \<and> (LClaim i \<in> set lg \<longrightarrow> LCancel i False \<notin> set lg \<and> now_status D i s \<in> {Some DRunning, Some Executed, Some DFailed})
     \<and> (LCancel i False \<in> set lg \<longrightarrow> now_status D i s = Some DCancelled)"

lemma count_remove1:
  "x \<in> set xs \<Longrightarrow> count_list (map f (remove1 x xs)) y = count_list (map f xs) y - (if f x = y then 1 else 0)"
proof (induction xs)
  case (Cons a xs)
  have "f x = y \<Longrightarrow> x \<in> set xs \<Longrightarrow> 0 < count_list (map f xs) y" by (auto simp: count_list_0_iff intro!: gr0I)
  then show ?case using Cons by auto
qed simp

lemma flight_count: "in_flight i ws \<longleftrightarrow> 0 < count_list (map dr_action ws) i"
  using count_list_0_iff [of "map dr_action ws" i] by (auto simp: in_flight_def)

lemma sign_ok: "sign cfg now owner user r = Inr r' \<Longrightarrow> dr_action r' = dr_action r \<and> dr_status r = Collecting"
  by (auto simp: sign_def Let_def split: if_splits)

context deferred_store
begin

lemma read_action: "ok s \<Longrightarrow> dr_action (df_read D cfg owner i amount s) = i"
  by (auto simp: df_read_def fresh_rec_def dest: get_action split: option.splits)

lemma status_put: "now_status D i (df_put D r s) = (if i = dr_action r then Some (dr_status r) else now_status D i s)"
  by (simp add: now_status_def get_put)

lemma status_settle: "\<exists>st\<in>{Executed, DFailed}. now_status D i (snd (settle D r outcome s)) = (if i = dr_action r then Some st else now_status D i s)"
  by (cases outcome) (auto simp: settle_def status_put)

lemma claim_found: "df_claim D j s = (True, s') \<Longrightarrow> now_status D j s = Some DScheduled"
  using claim_result [of j s] by (auto simp: now_status_def)

lemma status_claim: "df_claim D j s = (b, s') \<Longrightarrow> now_status D i s' = (if b \<and> i = j then Some DRunning else now_status D i s)"
  using claim_result [of j s] get_claim [of i j s] by (auto simp: now_status_def)

lemma cancel_found: "df_cancel D j s = (True, s') \<Longrightarrow> now_status D j s \<in> {Some DScheduled, Some Collecting}"
  using cancel_result [of j s] by (auto simp: now_status_def)

lemma status_cancel: "df_cancel D j s = (b, s') \<Longrightarrow> now_status D i s' = (if b \<and> i = j then Some DCancelled else now_status D i s)"
  using cancel_result [of j s] get_cancel [of i j s] by (auto simp: now_status_def)

lemma step_stays_ok: "\<lbrakk> deferred_step D cfg (lg, ws, s) (lg', ws', s'); ok s \<rbrakk> \<Longrightarrow> ok s'"
  by (erule deferred_step.cases) (auto simp: settle_def ok_put dest: ok_cancel ok_claim split: option.splits, (metis ok_cancel ok_claim snd_conv)+)

lemma step_paid: "\<lbrakk> deferred_step D cfg (lg, ws, s) (lg', ws', s'); claims_paid D k i lg s \<rbrakk> \<Longrightarrow> claims_paid D k i lg' s'"
proof (erule deferred_step.cases, goal_cases)
  case (7 r lg0 ws0 s0 outcome)
  then show ?case using status_settle [of i r outcome s0] by (auto simp: claims_paid_def split: if_splits)
qed (auto simp: claims_paid_def status_put status_claim status_cancel dest: claim_found split: if_splits)

lemma read_found:
  assumes "sign cfg now owner user (df_read D cfg owner j amount s) = Inr r" "ok s"
  shows "dr_action r = j" "now_status D j s \<in> {None, Some Collecting}"
  using sign_ok [OF assms(1)] read_action [OF assms(2), of cfg owner j amount]
  by (auto simp: df_read_def now_status_def split: option.splits)

lemma step_agrees:
  assumes "deferred_step D cfg (lg, ws, s) (lg', ws', s')" "log_agrees D i lg ws s" "ok s" "LRead i True \<notin> set lg'"
  shows "log_agrees D i lg' ws' s'"
  using assms(1)
proof (cases rule: deferred_step.cases)
  case (read now owner user j amount r)
  note f = read_found [OF read(4) assms(3)]
  show ?thesis
  proof (cases "j = i")
    case True
    then have "\<not> in_flight i ws" using read assms(4) by auto
    then show ?thesis using assms(2) f True read(1-3) by (auto simp: log_agrees_def flight_count)
  next
    case False
    then show ?thesis using assms(2) f read(1-3) by (auto simp: log_agrees_def flight_count)
  qed
next
  case (wrote r)
  have n: "count_list (map dr_action ws') i = count_list (map dr_action ws) i - (if dr_action r = i then 1 else 0)"
    using count_remove1 [OF wrote(4), of dr_action i] wrote(2) by simp
  have "dr_action r = i \<Longrightarrow> in_flight i ws" using wrote(4) by (auto simp: in_flight_def)
  then show ?thesis using assms(2) n wrote(1,3) by (auto simp: log_agrees_def flight_count status_put)
next
  case (cancel j)
  then show ?thesis using assms(2) cancel_found [OF cancel(3)] status_cancel [OF cancel(3), of i]
    by (auto simp: log_agrees_def count_list_0_iff)
next
  case (claim j)
  then show ?thesis using assms(2) claim_found [OF claim(3)] status_claim [OF claim(3), of i]
    by (auto simp: log_agrees_def count_list_0_iff)
next
  case (settle r outcome)
  then show ?thesis using assms(2) status_settle [of i r outcome s] by (auto simp: log_agrees_def split: if_splits)
qed (use assms(2) status_claim status_cancel in \<open>auto simp: log_agrees_def\<close>)

lemma steps_agree:
  assumes "deferred_steps D cfg c c'" "ok (snd (snd c))" "claims_paid D k i (fst c) (snd (snd c))"
    and "log_agrees D i (fst c) (fst (snd c)) (snd (snd c))"
  shows "ok (snd (snd c')) \<and> claims_paid D k i (fst c') (snd (snd c'))
     \<and> (LRead i True \<notin> set (fst c') \<longrightarrow> log_agrees D i (fst c') (fst (snd c')) (snd (snd c')))"
  using assms
proof (induction rule: deferred_steps.induct)
  case (step c c' c'')
  have st: "deferred_step D cfg (fst c', fst (snd c'), snd (snd c')) (fst c'', fst (snd c''), snd (snd c''))" using step.hyps(2) by simp
  have "set (fst c') \<subseteq> set (fst c'')" using st by (cases rule: deferred_step.cases) auto
  then show ?case using step step_stays_ok [OF st] step_paid [OF st, of k i] step_agrees [OF st, of i] by blast
qed simp

end

section \<open>Both stores provide it\<close>

definition mem_ok :: "mem_deferred \<Rightarrow> bool" where
  "mem_ok m \<longleftrightarrow> distinct (map fst m) \<and> (\<forall>kr\<in>set m. dr_action (snd kr) = fst kr)"

lemma mem_ok_update: "\<lbrakk> mem_ok m; dr_action r = i \<rbrakk> \<Longrightarrow> mem_ok (AList.update i r m)"
  using set_update_subset [of i r m] by (auto simp: mem_ok_def)

lemma mem_ok_get: "\<lbrakk> mem_ok m; map_of m i = Some r \<rbrakk> \<Longrightarrow> dr_action r = i"
  using map_of_SomeD [of m i r] by (fastforce simp: mem_ok_def)

interpretation md: deferred_store memory_deferred mem_ok
proof unfold_locales
  fix m now r assume "mem_ok m" "r \<in> set (df_due memory_deferred now m)"
  then show "df_get memory_deferred (dr_action r) m = Some r \<and> due_rec now r"
    by (auto simp: memory_deferred_def md_due_def mem_ok_def map_of_Some_iff)
qed (auto simp: memory_deferred_def md_put_def md_claim_def md_cancel_def mem_ok_update mem_ok_get split: option.splits)

lemma dstatus_of_text [simp]: "dstatus_of (dstatus_text st) = Some st"
  by (cases st) (simp_all add: dstatus_of_def)

lemma dstatus_of_Some: "dstatus_of t = Some st \<Longrightarrow> t = dstatus_text st"
  by (auto simp: dstatus_of_def split: if_splits)

lemma map_filter_JStr [simp]:
  "List.map_filter (\<lambda>x. case x of JStr s \<Rightarrow> Some s | _ \<Rightarrow> None) (map JStr xs) = xs"
  by (induction xs) (simp_all add: List.map_filter_simps)

lemma row_roundtrip: "row_deferred (deferred_row r) = Some r"
  by (cases r) (auto simp: row_deferred_def deferred_row_def jtext_def jstatus_def split: option.splits)

lemma jid_deferred_row [simp]: "jid (deferred_row r) = dr_action r"
  by (simp add: deferred_row_def jid_def jtext_def)

lemma row_deferred_SomeD:
  assumes "row_deferred j = Some r"
  shows "is_obj j \<and> jget j ''status'' = Some (JStr (dstatus_text (dr_status r)))"
  using assms by (auto simp: row_deferred_def jstatus_def jtext_Some bind_eq_Some_conv
      dest!: dstatus_of_Some dest: jget_is_obj split: option.splits)

lemma row_deferred_patch:
  assumes "row_deferred j = Some r"
  shows "row_deferred (jmerge j (status_patch st)) = Some (r\<lparr> dr_status := st \<rparr>)"
  using assms row_deferred_SomeD [OF assms]
  by (cases r) (auto simp: row_deferred_def status_patch_def jstatus_def jtext_def jget_jmerge bind_eq_Some_conv split: option.splits)

lemma jcontains_status_patch: "is_obj j \<Longrightarrow> jcontains j (status_patch st) \<longleftrightarrow> jget j ''status'' = Some (JStr (dstatus_text st))"
  by (cases j) (auto simp: status_patch_def is_obj_def jcontains_JStr split: option.splits)

definition sd_ok :: "table \<Rightarrow> bool" where
  "sd_ok d \<longleftrightarrow> table_ok d \<and> (\<forall>i j r. st_get ''system'' ''deferred-actions'' i d = Some j \<and> row_deferred j = Some r
     \<longrightarrow> dr_action r = i)"

lemma sd_get_cas:
  assumes "sd_get i d = Some r" "dr_status r = st0"
  shows "fst (st_cas clock ''system'' ''deferred-actions'' i (status_patch st0) (status_patch st) d) \<noteq> None
    \<and> sd_get j (snd (st_cas clock ''system'' ''deferred-actions'' i (status_patch st0) (status_patch st) d)) =
      (if j = i then Some (r\<lparr> dr_status := st \<rparr>) else sd_get j d)"
proof -
  obtain x where x: "st_get ''system'' ''deferred-actions'' i d = Some x" "row_deferred x = Some r"
    using assms(1) by (auto simp: sd_get_def bind_eq_Some_conv)
  then have "jcontains x (status_patch st0)"
    using row_deferred_SomeD [OF x(2)] assms(2) by (simp add: jcontains_status_patch)
  then show ?thesis using x row_deferred_patch [OF x(2), of st]
    by (simp add: sd_get_def st_cas_result st_get_cas)
qed

lemma sd_get_put: "sd_get i (sd_put clock r d) = (if i = dr_action r then Some r else sd_get i d)"
  by (simp add: sd_get_def sd_put_def st_get_put row_roundtrip)

lemma sd_get_ok: "\<lbrakk> sd_ok d; sd_get i d = Some r \<rbrakk> \<Longrightarrow> dr_action r = i"
  by (auto simp: sd_ok_def sd_get_def bind_eq_Some_conv)

lemma sd_okI: "\<lbrakk> table_ok d; \<And>i r. sd_get i d = Some r \<Longrightarrow> dr_action r = i \<rbrakk> \<Longrightarrow> sd_ok d"
  by (auto simp: sd_ok_def sd_get_def)

lemma sd_claim_cases:
  "fst (sd_claim clock i d) = (\<exists>r. sd_get i d = Some r \<and> dr_status r = DScheduled)"
  "sd_get j (snd (sd_claim clock i d)) = (if j = i \<and> fst (sd_claim clock i d)
     then map_option (\<lambda>r. r\<lparr> dr_status := DRunning \<rparr>) (sd_get i d) else sd_get j d)"
  using sd_get_cas [of i d _ DScheduled clock DRunning]
  by (cases "sd_get i d"; force simp: sd_claim_def split_beta)+

lemma sd_cancel_cases:
  "fst (sd_cancel clock i d) = (\<exists>r. sd_get i d = Some r \<and> dr_status r \<in> {DScheduled, Collecting})"
  "sd_get j (snd (sd_cancel clock i d)) = (if j = i \<and> fst (sd_cancel clock i d)
     then map_option (\<lambda>r. r\<lparr> dr_status := DCancelled \<rparr>) (sd_get i d) else sd_get j d)"
  using sd_get_cas [of i d _ _ clock DCancelled]
  by (cases "sd_get i d"; force simp: sd_cancel_def split_beta)+

lemma sd_due_rec:
  assumes "sd_ok d" "r \<in> set (sd_due now d)"
  shows "sd_get (dr_action r) d = Some r \<and> due_rec now r"
proof -
  obtain j where j: "j \<in> set (st_list ''system'' ''deferred-actions'' no_options d)" "row_deferred j = Some r" "due_rec now r"
    using assms(2) by (auto simp: sd_due_def map_filter_def)
  obtain i u where "((''system'', ''deferred-actions'', i), j, u) \<in> set d"
    using st_list_row [OF j(1)] by blast
  then have "st_get ''system'' ''deferred-actions'' i d = Some j"
    using assms(1) by (simp add: st_get_def sd_ok_def table_ok_def map_of_Some_iff)
  then have g: "sd_get i d = Some r" using j by (simp add: sd_get_def)
  then show ?thesis using sd_get_ok [OF assms(1) g] j by simp
qed

lemma table_ok_sd:
  assumes "table_ok d"
  shows "table_ok (sd_put clock r d)" "table_ok (snd (sd_claim clock i d))" "table_ok (snd (sd_cancel clock i d))"
  using assms
  by (simp_all add: sd_put_def sd_claim_def sd_cancel_def table_ok_ops split_beta split: option.split)

interpretation sd: deferred_store "store_deferred clock" sd_ok
proof unfold_locales
  fix d i r assume ok: "sd_ok d"
  then have t: "table_ok d" by (simp add: sd_ok_def)
  show "sd_ok (df_put (store_deferred clock) r d)"
    using t ok by (auto intro!: sd_okI simp: store_deferred_def sd_get_put table_ok_sd sd_get_ok split: if_splits)
  show "sd_ok (snd (df_claim (store_deferred clock) i d))"
    using t ok by (auto intro!: sd_okI simp: store_deferred_def sd_claim_cases(2) table_ok_sd sd_get_ok split: if_splits)
  show "sd_ok (snd (df_cancel (store_deferred clock) i d))"
    using t ok by (auto intro!: sd_okI simp: store_deferred_def sd_cancel_cases(2) table_ok_sd sd_get_ok split: if_splits)
qed (auto simp: store_deferred_def sd_get_put sd_claim_cases sd_cancel_cases sd_due_rec sd_get_ok)

section \<open>Properties\<close>

text \<open>C16: a deferred action is run at most once, and never once it was cancelled outside of a signature.  However the
  reads and writes of signatures, the cancellations, and the claims and settlements of any number of ticks interleave on the
  persistent store, an action is claimed for a run no more often than a signature scheduled it (or the first table
  had).  As long as no signature on the action is read while another one is in flight, which
  \<open>ActionService.decide\<close> ensures for an owner's action, for it signs between the claim of the action and its next write, it is
  claimed at most once, and after a cancellation that took effect while no signature was in flight it has not been
  and cannot be claimed.  A cancellation between the read and the write of a signature is lost
  (\<open>late_signature_undoes_cancel\<close>).\<close>
theorem deferred_runs_once:
  assumes "deferred_steps (store_deferred clock) cfg ([], [], d) (lg, ws, d')" "sd_ok d"
  shows "count_list lg (LClaim i) \<le> count_list lg (LWrite i True) + (if map_option dr_status (sd_get i d) = Some DScheduled then 1 else 0)
     \<and> (LRead i True \<notin> set lg \<longrightarrow> count_list lg (LClaim i) \<le> 1 \<and> count_list lg (LCancel i False) \<le> 1
          \<and> (LCancel i False \<in> set lg \<longrightarrow> LClaim i \<notin> set lg \<and> \<not> fst (sd_claim clock i d')))"
proof -
  let ?k = "if map_option dr_status (sd_get i d) = Some DScheduled then 1 else 0"
  have st: "now_status (store_deferred clock) i x = map_option dr_status (sd_get i x)" for x
    by (simp add: now_status_def store_deferred_def)
  have "claims_paid (store_deferred clock) ?k i [] d" "log_agrees (store_deferred clock) i [] [] d"
    by (simp_all add: claims_paid_def log_agrees_def in_flight_def st)
  then have a: "claims_paid (store_deferred clock) ?k i lg d'" "LRead i True \<notin> set lg \<longrightarrow> log_agrees (store_deferred clock) i lg ws d'"
    using sd.steps_agree [OF assms(1), of ?k i] assms(2) by simp_all
  have "\<not> fst (sd_claim clock i d')" if "map_option dr_status (sd_get i d') = Some DCancelled"
    using that by (auto simp: sd_claim_cases(1))
  then show ?thesis using a unfolding claims_paid_def log_agrees_def st by auto
qed

definition plain_cfg :: deferred_cfg where
  "plain_cfg = \<lparr> dc_window = Some 8000, dc_dual_at = None \<rparr>"

definition signed_table :: table where
  "signed_table = snd (df_decide (store_deferred 1) plain_cfg 100 ''u1'' ''a1'' ''u1'' None [])"

lemma signed_table_eq: "signed_table = [((''system'', ''deferred-actions'', ''a1''),
   deferred_row \<lparr> dr_action = ''a1'', dr_owner = ''u1'', dr_amount = None, dr_signers = [''u1''], dr_needed = 1,
     dr_execute_at = Some 8100, dr_status = DScheduled \<rparr>, 1)]"
  by (simp add: signed_table_def df_decide_def df_read_def store_deferred_def sd_get_def st_get_def fresh_rec_def
      sign_def needed_def plain_cfg_def sd_put_def st_put_def)

text \<open>A signature, and a cancellation within its window.\<close>

theorem deferred_runs_once_witness:
  "\<exists>d'. df_cancel_action (store_deferred 1) ''u1'' ''a1'' ''u1'' signed_table = (Inr [CancelledEv ''a1'' ''u1''], d')
     \<and> \<not> fst (sd_claim 1 ''a1'' d')"
proof -
  let ?r = "\<lparr> dr_action = ''a1'', dr_owner = ''u1'', dr_amount = None, dr_signers = [''u1''],
      dr_needed = 1, dr_execute_at = Some 8100, dr_status = DScheduled \<rparr>"
  have g: "sd_get ''a1'' signed_table = Some ?r"
    by (simp add: signed_table_eq sd_get_def st_get_def row_roundtrip)
  have "fst (sd_cancel 1 ''a1'' signed_table)" by (simp add: sd_cancel_cases(1) g)
  then obtain d' where d': "sd_cancel 1 ''a1'' signed_table = (True, d')" by (cases "sd_cancel 1 ''a1'' signed_table") simp
  then have c: "df_cancel_action (store_deferred 1) ''u1'' ''a1'' ''u1'' signed_table = (Inr [CancelledEv ''a1'' ''u1''], d')"
    using g by (simp add: df_cancel_action_def store_deferred_def)
  have "sign plain_cfg 100 ''u1'' ''u1'' (df_read (store_deferred 1) plain_cfg ''u1'' ''a1'' None []) = Inr ?r"
    by (simp add: df_read_def store_deferred_def sd_get_def st_get_def fresh_rec_def sign_def needed_def plain_cfg_def)
  from deferred_step.read [OF this, of "[]" "[]"]
  have s1: "deferred_step (store_deferred 1) plain_cfg ([], [], []) ([LRead ''a1'' False], [?r], [])" by (simp add: in_flight_def)
  have "signed_table = df_put (store_deferred 1) ?r []"
    by (simp add: signed_table_eq store_deferred_def sd_put_def st_put_def deferred_row_def jid_def jtext_def)
  then have s2: "deferred_step (store_deferred 1) plain_cfg ([LRead ''a1'' False], [?r], []) ([LRead ''a1'' False, LWrite ''a1'' True], [], signed_table)"
    using deferred_step.wrote [of ?r "[?r]" "store_deferred 1" plain_cfg "[LRead ''a1'' False]" "[]"] by simp
  have "df_cancel (store_deferred 1) ''a1'' signed_table = (True, d')" using d' by (simp add: store_deferred_def)
  from deferred_step.cancel [OF this, of plain_cfg "[LRead ''a1'' False, LWrite ''a1'' True]" "[]"]
  have s3: "deferred_step (store_deferred 1) plain_cfg ([LRead ''a1'' False, LWrite ''a1'' True], [], signed_table)
      ([LRead ''a1'' False, LWrite ''a1'' True, LCancel ''a1'' False], [], d')" by (simp add: in_flight_def)
  have "sd_ok []" by (simp add: sd_ok_def table_ok_def st_get_def)
  from deferred_runs_once [OF deferred_steps.step [OF deferred_steps.step [OF deferred_steps.step [OF deferred_steps.here s1] s2] s3] this, of "''a1''"]
  show ?thesis using c by auto
qed

text \<open>Signing.  A decision that is accepted adds the user to signers that were distinct, is the
  owner's, and schedules the action exactly when as many distinct users have signed as its amount
  needs, for the end of the window.\<close>
theorem signing_rule:
  assumes "sign cfg now owner user r = Inr r'" "distinct (dr_signers r)"
  shows "dr_owner r' = owner \<and> distinct (dr_signers r') \<and> set (dr_signers r') = insert user (set (dr_signers r))
     \<and> (dr_status r' = DScheduled \<longleftrightarrow> needed cfg (dr_amount r) \<le> card (set (dr_signers r')))
     \<and> (dr_status r' = DScheduled \<longrightarrow> dr_execute_at r' = Some (now + (case dc_window cfg of Some w \<Rightarrow> w | None \<Rightarrow> 8000)))"
  using assms by (auto simp: sign_def Let_def distinct_card split: if_splits)

theorem signing_rule_witness:
  "\<exists>r'. sign \<lparr> dc_window = None, dc_dual_at = Some 500 \<rparr> 10 ''o'' ''ann''
       (fresh_rec \<lparr> dc_window = None, dc_dual_at = Some 500 \<rparr> ''o'' ''a1'' (Some 800)) = Inr r'
     \<and> dr_status r' \<noteq> DScheduled"
proof -
  let ?cfg = "\<lparr> dc_window = None, dc_dual_at = Some 500 \<rparr>"
  have "\<exists>r'. sign ?cfg 10 ''o'' ''ann'' (fresh_rec ?cfg ''o'' ''a1'' (Some 800)) = Inr r'"
    by (simp add: sign_def fresh_rec_def Let_def)
  then obtain r' where s: "sign ?cfg 10 ''o'' ''ann'' (fresh_rec ?cfg ''o'' ''a1'' (Some 800)) = Inr r'" by blast
  show ?thesis using signing_rule [OF s] s by (auto simp: fresh_rec_def needed_def)
qed

text \<open>decide reads the record and writes it back whole, with other requests between the two: a cancellation
  that succeeded in between is overwritten, and the action is scheduled again.\<close>

lemma late_signature_undoes_cancel:
  assumes "sd_get i d = Some r" "sign cfg now owner user r = Inr r'" "dr_action r = i" "dr_status r' = DScheduled"
    and "df_cancel_action (store_deferred clock) owner i by_user d = (Inr evs, d')"
  shows "map_option dr_status (sd_get i d') = Some DCancelled
     \<and> map_option dr_status (sd_get i (sd_put clock' r' d')) = Some DScheduled
     \<and> fst (sd_claim clock'' i (sd_put clock' r' d'))"
proof -
  have c: "fst (sd_cancel clock i d)" "d' = snd (sd_cancel clock i d)"
    using assms(5) by (auto simp: df_cancel_action_def store_deferred_def split: option.splits if_splits prod.splits bool.splits)
  have "dr_action r' = i" using assms(2,3) by (auto simp: sign_def Let_def split: if_splits)
  then show ?thesis using c assms(1,4) by (simp add: sd_cancel_cases(2) sd_get_put sd_claim_cases(1))
qed

end
