(* ===== verification/Actions.thy ===== *)
theory Actions
  imports Deferred StateMachine Retry
begin

text \<open>
  Action proposals and their approval (apps/server/src/actions.ts): a proposal waits for review, is
  edited, approved, denied or expires, is executed once it is claimed, and can be retried.

  A proposal is its JSON row of kind \<open>actions\<close>.  The options of \<open>ActionService\<close>, the schema of a
  proposal, the clocks, identifiers and hashes are the record \<open>action_env\<close>.  \<open>decide\<close> awaits many
  times before it claims the action; \<open>ae_between\<close> is what other requests do to the store in that time.
\<close>

section \<open>The service's options\<close>

datatype exec_outcome = ExecDone string | ExecFailed string bool "nat option"

record prepared_input =
  pi_input :: json
  pi_target :: "json option"
  pi_version :: "string option"

record 's action_env =
  ae_clock :: int
  ae_now :: int
  ae_end :: int
  ae_wall :: int
  ae_uuid :: "nat \<Rightarrow> string"
  ae_digits :: "int \<Rightarrow> string"
  ae_quotes :: "string \<times> string"
  ae_sha256 :: "string \<Rightarrow> string"
  ae_stringify :: "json \<Rightarrow> string"
  ae_number :: "string \<Rightarrow> rat option"
  ae_expires_ms :: int
  ae_parse :: "json \<Rightarrow> json res"
  ae_prepare :: "(string \<Rightarrow> json \<Rightarrow> string option \<Rightarrow> 's \<Rightarrow> prepared_input res \<times> 's) option"
  ae_connected :: "string \<Rightarrow> 's \<Rightarrow> bool"
  ae_connection :: "(string \<Rightarrow> 's \<Rightarrow> (string \<times> string) option) option"
  ae_execute :: "string \<Rightarrow> json \<Rightarrow> string option \<Rightarrow> string option \<Rightarrow> 's \<Rightarrow> exec_outcome \<times> 's"
  ae_emit :: "string \<Rightarrow> string \<Rightarrow> string \<Rightarrow> json \<Rightarrow> 's \<Rightarrow> 's"
  ae_policy :: bool
  ae_deferred :: "('s deferred_ops \<times> deferred_cfg) option"
  ae_between :: "'s \<Rightarrow> 's"

definition field_or_null :: "string \<Rightarrow> json \<Rightarrow> json" where
  "field_or_null k j = (case jget j k of None \<Rightarrow> JNull | Some v \<Rightarrow> v)"

definition undef_field :: "string \<Rightarrow> json option \<Rightarrow> (string \<times> json) list" where
  "undef_field k v = (case v of None \<Rightarrow> [] | Some x \<Rightarrow> [(k, x)])"

definition truthy_text :: "json \<Rightarrow> string \<Rightarrow> string option" where
  "truthy_text j k = (case jtext j k of Some x \<Rightarrow> if x = [] then None else Some x | None \<Rightarrow> None)"

section \<open>Trail and activity\<close>

definition act_audit :: "'s store \<Rightarrow> 's action_env \<Rightarrow> string \<Rightarrow> json \<Rightarrow> string \<Rightarrow> string \<Rightarrow> 's \<Rightarrow> 's" where
  "act_audit S env owner a kind detail s = s_put S (ae_clock env) owner ''action-audit'' (JObj
     [(''id'', JStr (''audit-'' @ jid a @ ''-'' @ ae_digits env (ae_wall env))), (''actionId'', JStr (jid a)),
      (''taskId'', field_or_null ''taskId'' a), (''actorId'', JNull), (''kind'', JStr kind),
      (''detail'', JStr (take 2000 detail)), (''status'', field_or_null ''status'' a), (''hash'', field_or_null ''hash'' a),
      (''createdAt'', JDate (ae_wall env))]) s"

definition act_record :: "'s store \<Rightarrow> 's action_env \<Rightarrow> nat \<Rightarrow> int \<Rightarrow> string \<Rightarrow> json \<Rightarrow> string \<Rightarrow> 's \<Rightarrow> 's" where
  "act_record S env n date owner a detail s = s_put S (ae_clock env) owner ''activity'' (JObj
     [(''id'', JStr (ae_uuid env n)), (''actionId'', JStr (jid a)), (''title'', field_or_null ''title'' a),
      (''detail'', JStr detail), (''date'', JDate date), (''status'', field_or_null ''status'' a)]) s"

definition act_emit :: "'s action_env \<Rightarrow> string \<Rightarrow> string \<Rightarrow> json \<Rightarrow> (string \<times> json) list \<Rightarrow> 's \<Rightarrow> 's" where
  "act_emit env owner ty a extra s = ae_emit env owner ty (jid a)
     (JObj ([(''actionId'', JStr (jid a)), (''title'', JStr (take 300 (text_or_empty a ''title'')))] @ extra)) s"

section \<open>Edit and retry\<close>

definition act_edit :: "'s store \<Rightarrow> 's action_env \<Rightarrow> string \<Rightarrow> string \<Rightarrow> json \<Rightarrow> string \<Rightarrow> 's \<Rightarrow> json res \<times> 's" where
  "act_edit S env owner i new_data expected s = (case s_get S owner ''actions'' i s of
     None \<Rightarrow> (Inl (AppError ''Action not found'' 404), s)
   | Some a \<Rightarrow>
      if jstatus a \<noteq> Some ''awaiting_review'' then (Inl (AppError ''Only awaiting_review actions can be edited'' 409), s)
      else if jtext a ''hash'' \<noteq> Some expected then (Inl (AppError ''Action changed. Reload and retry.'' 409), s)
      else (let h = ae_sha256 env (ae_stringify env (JObj ([(''data'', new_data)] @ undef_field ''connectionId'' (jget a ''connectionId''))))
        in case s_cas S (ae_clock env) owner ''actions'' i
              (JObj [(''status'', JStr ''awaiting_review''), (''hash'', JStr expected)])
              (JObj [(''data'', new_data), (''hash'', JStr h)]) s of
            (None, s1) \<Rightarrow> (Inl (AppError ''Action changed. Reload and retry.'' 409), s1)
          | (Some u, s1) \<Rightarrow> (Inr u, act_audit S env owner u ''edited'' ''Edited by user'' s1)))"

definition uncertain_error :: "json \<Rightarrow> bool" where
  "uncertain_error a = (case truthy_text a ''error'' of None \<Rightarrow> False
     | Some e \<Rightarrow> has_infix ''outcome_unknown'' (lower e) \<or> has_infix ''uncertain'' (lower e))"

definition act_retry :: "'s store \<Rightarrow> 's action_env \<Rightarrow> string \<Rightarrow> string \<Rightarrow> 's \<Rightarrow> json res \<times> 's" where
  "act_retry S env owner i s = (case s_get S owner ''actions'' i s of
     None \<Rightarrow> (Inl (AppError ''Action not found'' 404), s)
   | Some a \<Rightarrow>
      if jstatus a \<notin> {Some ''failed'', Some ''denied''}
      then (Inl (AppError (''Only failed or denied actions can be retried (current: '' @ text_or_empty a ''status'' @ '')'') 409), s)
      else if uncertain_error a
      then (Inl (AppError ''Cannot retry an action with uncertain outcome. Reconcile it first.'' 409), s)
      else (case s_cas S (ae_clock env) owner ''actions'' i (JObj [(''status'', JStr (text_or_empty a ''status''))])
              (JObj [(''status'', JStr ''awaiting_review''), (''error'', JNull), (''result'', JNull)]) s of
            (None, s1) \<Rightarrow> (Inl (AppError ''Action changed; refresh and retry'' 409), s1)
          | (Some u, s1) \<Rightarrow> (Inr u, act_audit S env owner u ''retried'' ''Retried by user'' s1)))"

section \<open>Propose\<close>

definition act_title :: "string \<times> string \<Rightarrow> json \<Rightarrow> string" where
  "act_title q input =
     (let kind = text_or_empty input ''kind''; data = (case jget input ''data'' of Some d \<Rightarrow> d | None \<Rightarrow> JNull) in
      if kind = ''email.send'' then ''Send '' @ fst q @ text_or_empty data ''subject'' @ snd q
      else if kind = ''calendar.delete'' then ''Delete '' @ text_or_empty data ''title''
      else if kind = ''drive.trash'' then ''Move '' @ fst q @ text_or_empty data ''name'' @ snd q @ '' to trash''
      else if kind = ''drive.rename'' then ''Rename file to '' @ fst q @ text_or_empty data ''name'' @ snd q
      else (if kind = ''calendar.create'' then ''Create'' else ''Update'') @ '' '' @ text_or_empty data ''title'')"

definition connection_json :: "string \<times> string \<Rightarrow> json" where
  "connection_json c = JObj [(''id'', JStr (fst c)), (''account'', JStr (snd c))]"

definition act_proposal :: "'s action_env \<Rightarrow> string \<Rightarrow> string option \<Rightarrow> json \<Rightarrow> (string \<times> string) option
    \<Rightarrow> json option \<Rightarrow> string option \<Rightarrow> json" where
  "act_proposal env i taskId input conn target version = JObj
     ([(''id'', JStr i)] @ undef_field ''taskId'' (map_option JStr taskId)
      @ [(''title'', JStr (act_title (ae_quotes env) input)), (''kind'', field_or_null ''kind'' input), (''data'', field_or_null ''data'' input)]
      @ undef_field ''account'' (map_option (\<lambda>c. JStr (snd c)) conn) @ undef_field ''connectionId'' (map_option (\<lambda>c. JStr (fst c)) conn)
      @ undef_field ''target'' target @ undef_field ''targetVersion'' (map_option JStr version)
      @ [(''status'', JStr ''awaiting_review''),
         (''hash'', JStr (ae_sha256 env (ae_stringify env (JObj ([(''input'', input)]
             @ undef_field ''connection'' (map_option connection_json conn)
             @ undef_field ''target'' target @ undef_field ''targetVersion'' (map_option JStr version)))))),
         (''createdAt'', JDate (ae_now env)), (''expiresAt'', JDate (ae_now env + ae_expires_ms env))])"

definition act_prepare :: "'s action_env \<Rightarrow> string \<Rightarrow> json \<Rightarrow> 's \<Rightarrow> (json \<times> (string \<times> string) option \<times> json option \<times> string option) res \<times> 's" where
  "act_prepare env owner raw s = (case ae_parse env raw of
     Inl e \<Rightarrow> (Inl e, s)
   | Inr parsed \<Rightarrow>
      (let conn = (case ae_connection env of None \<Rightarrow> None | Some f \<Rightarrow> f owner s) in
       if ae_connection env \<noteq> None \<and> conn = None
       then (Inl (AppError ''Connect Google before preparing an action'' 409), s)
       else (case ae_prepare env of
          None \<Rightarrow> (map_sum id (\<lambda>input. (input, conn, None, None)) (ae_parse env parsed), s)
        | Some f \<Rightarrow> (case f owner parsed (map_option fst conn) s of
            (Inl e, s1) \<Rightarrow> (Inl e, s1)
          | (Inr p, s1) \<Rightarrow> (map_sum id (\<lambda>input. (input, conn, pi_target p, pi_version p)) (ae_parse env (pi_input p)), s1)))))"

definition proposal_id :: "'s action_env \<Rightarrow> string option \<Rightarrow> string" where
  "proposal_id env key = (case key of None \<Rightarrow> ae_uuid env 0 | Some k \<Rightarrow> ae_sha256 env k)"

definition act_save :: "'s store \<Rightarrow> 's action_env \<Rightarrow> string \<Rightarrow> string option \<Rightarrow> json \<Rightarrow> 's \<Rightarrow> json res \<times> 's" where
  "act_save S env owner key p s =
     (let (saved, s1) = (if key = None then (Some p, s_put S (ae_clock env) owner ''actions'' p s)
                         else s_insert S (ae_clock env) owner ''actions'' p s)
      in case saved of
           None \<Rightarrow> (case s_get S owner ''actions'' (jid p) s1 of
               None \<Rightarrow> (Inl (AppError ''Prepared action could not be loaded'' 409), s1)
             | Some existing \<Rightarrow> (Inr existing, s1))
         | Some sv \<Rightarrow>
            (let s2 = act_record S env 1 (ae_now env) owner sv ''Ready for your review'' s1;
                 s3 = act_audit S env owner sv ''proposed'' (''Ready for review: '' @ text_or_empty sv ''title'') s2
             in (Inr sv, act_emit env owner ''action.proposed'' sv [(''kind'', field_or_null ''kind'' sv)] s3)))"

definition act_propose :: "'s store \<Rightarrow> 's action_env \<Rightarrow> string \<Rightarrow> json \<Rightarrow> string option \<Rightarrow> string option \<Rightarrow> 's \<Rightarrow> json res \<times> 's" where
  "act_propose S env owner raw key taskId s =
     (case (if key = None then None else s_get S owner ''actions'' (proposal_id env key) s) of
        Some existing \<Rightarrow> (Inr existing, s)
      | None \<Rightarrow> (case act_prepare env owner raw s of
            (Inl e, s1) \<Rightarrow> (Inl e, s1)
          | (Inr (input, conn, target, version), s1) \<Rightarrow>
              act_save S env owner key (act_proposal env (proposal_id env key) taskId input conn target version) s1))"

section \<open>Decide: the checks before the claim\<close>

text \<open>A check either stops with the call's result (\<open>Inl\<close>) or passes the proposal on (\<open>Inr\<close>).\<close>

definition task_open :: "'s store \<Rightarrow> string \<Rightarrow> json \<Rightarrow> 's \<Rightarrow> bool" where
  "task_open S owner p s = (case truthy_text p ''taskId'' of None \<Rightarrow> True
     | Some t \<Rightarrow> (case s_get S owner ''tasks'' t s of None \<Rightarrow> False
         | Some task \<Rightarrow> jstatus task \<in> {Some ''running'', Some ''waiting_approval''}))"

definition connection_same :: "'s action_env \<Rightarrow> string \<Rightarrow> json \<Rightarrow> 's \<Rightarrow> bool" where
  "connection_same env owner p s = (case ae_connection env of None \<Rightarrow> True
     | Some f \<Rightarrow> (case f owner s of None \<Rightarrow> False
         | Some (ci, acc) \<Rightarrow> jtext p ''connectionId'' = Some ci \<and> jtext p ''account'' = Some acc))"

definition expire_review :: "'s store \<Rightarrow> 's action_env \<Rightarrow> string \<Rightarrow> string \<Rightarrow> string \<Rightarrow> json \<Rightarrow> 's \<Rightarrow> json res \<times> 's" where
  "expire_review S env owner i hash p s =
     (case s_cas S (ae_clock env) owner ''actions'' i
         (JObj ([(''status'', JStr ''awaiting_review''), (''hash'', JStr hash)] @ undef_field ''expiresAt'' (jget p ''expiresAt'')))
         (JObj [(''status'', JStr ''expired'')]) s of
        (Some _, s1) \<Rightarrow> (Inl (AppError ''This review expired. Create a fresh proposal.'' 409), s1)
      | (None, s1) \<Rightarrow> (case s_get S owner ''actions'' i s1 of
            None \<Rightarrow> (Inl (AppError ''Action not found'' 404), s1)
          | Some current \<Rightarrow> (Inr current, s1)))"

fun action_name :: "policy_action \<Rightarrow> string" where
  "action_name Read = ''read''"
| "action_name Create = ''create''"
| "action_name Update = ''update''"
| "action_name Delete = ''delete''"
| "action_name Approve = ''approve''"
| "action_name Export = ''export''"
| "action_name Assign = ''assign''"
| "action_name Escalate = ''escalate''"
| "action_name Execute = ''execute''"

definition action_of_name :: "string \<Rightarrow> policy_action option" where
  "action_of_name t = find (\<lambda>a. action_name a = t) [Read, Create, Update, Delete, Approve, Export, Assign, Escalate, Execute]"

definition role_of :: "json \<Rightarrow> policy_role" where
  "role_of j = \<lparr> pr_id = jid j, pr_permissions = (case jget j ''permissions'' of
     Some (JArr ps) \<Rightarrow> Some (map (\<lambda>q. \<lparr> pm_resource = text_or_empty q ''resource'',
        pm_actions = List.map_filter (\<lambda>x. case x of JStr t \<Rightarrow> action_of_name t | _ \<Rightarrow> None) (jarr (jget q ''actions'')) \<rparr>) ps)
   | _ \<Rightarrow> None) \<rparr>"

definition policy_event_json :: "policy_event \<Rightarrow> string \<times> json" where
  "policy_event_json ev = (case ev of
     PolicyEvaluated r a allow \<Rightarrow> (''policy.evaluated'', JObj [(''roleId'', JStr r), (''policyId'', JStr r),
        (''action'', JStr (action_name a)), (''decision'', JStr (if allow then ''allow'' else ''deny''))])
   | PolicyDenied r a reason \<Rightarrow> (''policy.denied'', JObj [(''roleId'', JStr r), (''policyId'', JStr r),
        (''action'', JStr (action_name a)), (''reason'', JStr reason)]))"

definition task_role :: "'s store \<Rightarrow> string \<Rightarrow> json \<Rightarrow> 's \<Rightarrow> json option" where
  "task_role S owner p s = (case truthy_text p ''taskId'' of None \<Rightarrow> None
     | Some t \<Rightarrow> (case s_get S owner ''tasks'' t s of None \<Rightarrow> None
         | Some task \<Rightarrow> (case jget task ''state'' of None \<Rightarrow> None
             | Some st \<Rightarrow> (case truthy_text st ''roleId'' of None \<Rightarrow> None
                 | Some r \<Rightarrow> s_get S owner ''agent-roles'' r s))))"

definition policy_gate :: "'s store \<Rightarrow> 's action_env \<Rightarrow> string \<Rightarrow> json \<Rightarrow> 's \<Rightarrow> (json res + json) \<times> 's" where
  "policy_gate S env owner p s = (case (if ae_policy env then task_role S owner p s else None) of
     None \<Rightarrow> (Inr p, s)
   | Some role \<Rightarrow>
      (let resource = ''action:'' @ text_or_empty p ''kind'';
           ((allowed, reason), evs) = allowlist_can True (role_of role) action_name resource Approve;
           s1 = fold (\<lambda>ev. case policy_event_json ev of (ty, payload) \<Rightarrow>
                  ae_emit env owner ty (jid role @ '':'' @ resource @ '':approve'') payload) evs s
       in if allowed then (Inr p, s1)
          else (Inl (Inl (AppError (case reason of Some r \<Rightarrow> r | None \<Rightarrow> ''Action denied by policy'') 403)), s1)))"

definition decide_gate :: "'s store \<Rightarrow> 's action_env \<Rightarrow> string \<Rightarrow> string \<Rightarrow> string \<Rightarrow> bool \<Rightarrow> 's \<Rightarrow> (json res + json) \<times> 's" where
  "decide_gate S env owner i hash approve s = (case s_get S owner ''actions'' i s of
     None \<Rightarrow> (Inl (Inl (AppError ''Action not found'' 404)), s)
   | Some p \<Rightarrow>
      if jtext p ''hash'' \<noteq> Some hash
      then (Inl (Inl (AppError ''This proposal changed. Open its latest review before deciding.'' 409)), s)
      else if jstatus p \<noteq> Some ''awaiting_review'' then (Inl (Inr p), s)
      else if approve \<and> \<not> task_open S owner p s
      then (Inl (Inl (AppError ''Resume the task before approving this action. Cancelled tasks cannot execute.'' 409)), s)
      else if date_le (jget p ''expiresAt'') (ae_now env) then apfst Inl (expire_review S env owner i hash p s)
      else if approve \<and> \<not> ae_connected env owner s
      then (Inl (Inl (AppError ''Google is disconnected. Reconnect before approving this action.'' 409)), s)
      else if approve \<and> \<not> connection_same env owner p s
      then (Inl (Inl (AppError ''Google account or connection changed. Prepare a new action for the connected account.'' 409)), s)
      else if approve then policy_gate S env owner p s else (Inr p, s))"

section \<open>Decide: the deferred branch and the execution\<close>

definition amount_of :: "'s action_env \<Rightarrow> json \<Rightarrow> rat option" where
  "amount_of env a = (case jget a ''data'' of None \<Rightarrow> None
     | Some d \<Rightarrow> (case (case jget d ''amount'' of Some (JNum n) \<Rightarrow> Some n | Some (JStr t) \<Rightarrow> ae_number env t
           | Some (JBool b) \<Rightarrow> Some (if b then 1 else 0) | _ \<Rightarrow> None) of
         Some n \<Rightarrow> if n = 0 then None else Some n | None \<Rightarrow> None))"

definition deferred_patch :: "string \<Rightarrow> deferred_rec \<Rightarrow> json \<Rightarrow> json \<Rightarrow> json" where
  "deferred_patch status r exec a = jset ''executeAt'' exec (jset ''needed'' (JNum (of_nat (dr_needed r)))
     (jset ''signers'' (JArr (map JStr (dr_signers r))) (jset ''status'' (JStr status) a)))"

definition put_and_read :: "'s store \<Rightarrow> 's action_env \<Rightarrow> string \<Rightarrow> json \<Rightarrow> json \<Rightarrow> 's \<Rightarrow> json res option \<times> 's" where
  "put_and_read S env owner a claimed s = (let s1 = s_put S (ae_clock env) owner ''actions'' a s
     in (Some (Inr (case s_get S owner ''actions'' (jid claimed) s1 of Some j \<Rightarrow> j | None \<Rightarrow> claimed)), s1))"

definition defer_step :: "'s store \<Rightarrow> 's action_env \<Rightarrow> string \<Rightarrow> string option \<Rightarrow> json \<Rightarrow> 's \<Rightarrow> json res option \<times> 's" where
  "defer_step S env owner user c s = (case ae_deferred env of None \<Rightarrow> (None, s)
     | Some (D, cfg) \<Rightarrow>
        (case df_decide D cfg (ae_now env) owner (jid c) (case user of Some u \<Rightarrow> u | None \<Rightarrow> owner) (amount_of env c) s of
           (Inl e, s1) \<Rightarrow> (Some (Inl e), s1)
         | (Inr (r, _), s1) \<Rightarrow>
             if dr_status r = DScheduled
             then put_and_read S env owner (deferred_patch ''scheduled'' r
                    (case dr_execute_at r of Some t \<Rightarrow> if t = 0 then JNull else JDate t | None \<Rightarrow> JNull) c) c s1
             else if dr_status r = Collecting
             then put_and_read S env owner (deferred_patch ''awaiting_review'' r JNull c) c s1
             else (None, s1)))"

fun err_message :: "err \<Rightarrow> string" where
  "err_message (AppError m _) = m"
| "err_message (JsError m) = m"

definition run_outcome :: "'s action_env \<Rightarrow> string \<Rightarrow> json \<Rightarrow> 's \<Rightarrow> exec_outcome \<times> 's" where
  "run_outcome env owner c s =
     (case ae_parse env (JObj [(''kind'', field_or_null ''kind'' c), (''data'', field_or_null ''data'' c)]) of
        Inl e \<Rightarrow> (ExecFailed (err_message e) False (err_status e), s)
      | Inr input \<Rightarrow> ae_execute env owner input (jtext c ''connectionId'') (jtext c ''targetVersion'') s)"

definition finished_row :: "json \<Rightarrow> exec_outcome \<Rightarrow> json" where
  "finished_row c out = (case out of
     ExecDone r \<Rightarrow> jset ''result'' (JStr r) (jset ''status'' (JStr ''succeeded'') c)
   | ExecFailed msg unknown st \<Rightarrow>
       (let f = jset ''error'' (JStr msg) (jset ''status'' (JStr (if unknown then ''outcome_unknown'' else ''failed'')) c)
        in if unknown then f
           else jset ''errorKind'' (JStr (case st of Some n \<Rightarrow> if 400 \<le> n \<and> n < 500 then ''business'' else ''infra''
                                          | None \<Rightarrow> ''infra'')) f))"

definition result_or_error :: "json \<Rightarrow> string option" where
  "result_or_error f = (case jtext f ''result'' of Some r \<Rightarrow> Some r | None \<Rightarrow> jtext f ''error'')"

definition sync_approval :: "'s store \<Rightarrow> 's action_env \<Rightarrow> string \<Rightarrow> json \<Rightarrow> 's \<Rightarrow> 's" where
  "sync_approval S env owner f s =
     (let base = (case s_get S owner ''approval-requests'' (jid f) s of Some j \<Rightarrow> j | None \<Rightarrow> JObj []);
          final = (if jstatus f = Some ''succeeded'' then ''approved''
                   else if jstatus f \<in> {Some ''failed'', Some ''outcome_unknown''} then ''rejected'' else ''pending'')
      in s_put S (ae_clock env) owner ''approval-requests'' (jmerge base (JObj
           [(''id'', JStr (jid f)), (''tenantId'', JStr owner), (''owner'', JStr owner), (''status'', JStr final),
            (''decidedAt'', JDate (ae_wall env)), (''decidedBy'', JStr owner),
            (''result'', case result_or_error f of Some x \<Rightarrow> JStr x | None \<Rightarrow> JNull)])) s)"

definition emit_finished :: "'s action_env \<Rightarrow> string \<Rightarrow> json \<Rightarrow> 's \<Rightarrow> 's" where
  "emit_finished env owner f s =
     (let extra = (\<lambda>k. case truthy_text f k of Some x \<Rightarrow> [(k, JStr (take 2000 x))] | None \<Rightarrow> []) in
      if jstatus f = Some ''succeeded'' then act_emit env owner ''action.executed'' f (extra ''result'') s
      else if jstatus f = Some ''outcome_unknown'' then act_emit env owner ''action.outcome_unknown'' f (extra ''error'') s
      else act_emit env owner ''action.failed'' f (extra ''error'') s)"

definition run_action :: "'s store \<Rightarrow> 's action_env \<Rightarrow> string \<Rightarrow> json \<Rightarrow> 's \<Rightarrow> json res \<times> 's" where
  "run_action S env owner c s =
     (let (out, s1) = run_outcome env owner c s;
          f = finished_row c out;
          s2 = s_put S (ae_clock env) owner ''actions'' f s1;
          s3 = emit_finished env owner f (sync_approval S env owner f s2)
      in (Inr f, act_record S env 3 (ae_end env) owner f
            (case result_or_error f of Some x \<Rightarrow> x | None \<Rightarrow> text_or_empty f ''status'') s3))"

definition act_decide :: "'s store \<Rightarrow> 's action_env \<Rightarrow> string \<Rightarrow> string \<Rightarrow> string \<Rightarrow> bool \<Rightarrow> string option \<Rightarrow> 's \<Rightarrow> json res \<times> 's" where
  "act_decide S env owner i hash approve user s =
     (case decide_gate S env owner i hash approve s of
        (Inl r, s1) \<Rightarrow> (r, s1)
      | (Inr _, s1) \<Rightarrow>
         (case s_claim S (ae_clock env) owner i (if approve then ''executing'' else ''denied'') (ae_now env) (ae_between env s1) of
            (None, s2) \<Rightarrow> (case s_get S owner ''actions'' i s2 of
                None \<Rightarrow> (Inl (AppError ''Action not found'' 404), s2)
              | Some current \<Rightarrow> (Inr current, s2))
          | (Some c, s2) \<Rightarrow>
             (let s3 = act_record S env 2 (ae_now env) owner c
                    (if approve then ''Approved; execution started'' else ''Declined; no changes made'') s2;
                  s4 = act_audit S env owner c (if approve then ''approve'' else ''deny'')
                    (if approve then ''Approved by user'' else ''Declined by user'') s3
              in if \<not> approve then (Inr c, act_emit env owner ''action.denied'' c [] s4)
                 else (case defer_step S env owner user c (act_emit env owner ''action.approved'' c [] s4) of
                     (Some r, s5) \<Rightarrow> (r, s5)
                   | (None, s5) \<Rightarrow> run_action S env owner c s5))))"

section \<open>The laws of claim\<close>

text \<open>What decide relies on beyond the laws of a store: a claim succeeds only on a live review and
  writes the status, and a failed one writes nothing.\<close>

locale action_store = record_store S for S :: "'s store" +
  assumes claim_SomeD: "fst (s_claim S clock ow i st now s) = Some j' \<Longrightarrow>
      \<exists>j. s_get S ow ''actions'' i s = Some j \<and> jstatus j = Some ''awaiting_review''
        \<and> \<not> date_le (jget j ''expiresAt'') now \<and> j' = jset ''status'' (JStr st) j"
    and get_claim: "s_get S ow' k' i' (snd (s_claim S clock ow i st now s)) =
      (case fst (s_claim S clock ow i st now s) of None \<Rightarrow> s_get S ow' k' i' s
       | Some j' \<Rightarrow> if ow' = ow \<and> k' = ''actions'' \<and> i' = i then Some j' else s_get S ow' k' i' s)"

lemma st_claim_SomeD:
  "fst (st_claim clock ow i st now d) = Some j' \<Longrightarrow>
      \<exists>j. st_get ow ''actions'' i d = Some j \<and> jstatus j = Some ''awaiting_review''
        \<and> \<not> date_le (jget j ''expiresAt'') now \<and> j' = jset ''status'' (JStr st) j"
  by (auto simp: st_claim_def claim_guard_def date_le_def Let_def split: option.splits if_splits)

lemma st_get_claim:
  "st_get ow' k' i' (snd (st_claim clock ow i st now d)) =
      (case fst (st_claim clock ow i st now d) of None \<Rightarrow> st_get ow' k' i' d
       | Some j' \<Rightarrow> if ow' = ow \<and> k' = ''actions'' \<and> i' = i then Some j' else st_get ow' k' i' d)"
  by (auto simp: st_claim_def st_get_def Let_def split: option.splits)

interpretation pa: action_store plain_store
  by unfold_locales (simp_all add: st_claim_SomeD st_get_claim cong: option.case_cong if_cong)

text \<open>The event bus and the trail write other kinds than actions.\<close>

definition quiet_bus :: "'s store \<Rightarrow> 's action_env \<Rightarrow> bool" where
  "quiet_bus S env \<longleftrightarrow> (\<forall>ow ty i pl s ow' i'. s_get S ow' ''actions'' i' (ae_emit env ow ty i pl s) = s_get S ow' ''actions'' i' s)"

definition quiet_deferred :: "'s store \<Rightarrow> 's action_env \<Rightarrow> bool" where
  "quiet_deferred S env \<longleftrightarrow> (\<forall>D cfg r s ow' i'. ae_deferred env = Some (D, cfg) \<longrightarrow>
     s_get S ow' ''actions'' i' (df_put D r s) = s_get S ow' ''actions'' i' s)"

lemma gate_ignores_executor [simp]:
  "decide_gate S (env\<lparr> ae_execute := f \<rparr>) owner i hash approve s = decide_gate S env owner i hash approve s"
  by (simp add: decide_gate_def expire_review_def connection_same_def policy_gate_def cong: option.case_cong if_cong)

lemma put_and_read_ignores_executor [simp]:
  "put_and_read S (env\<lparr> ae_execute := f \<rparr>) owner a c s = put_and_read S env owner a c s"
  "amount_of (env\<lparr> ae_execute := f \<rparr>) a = amount_of env a"
  by (simp_all add: put_and_read_def amount_of_def cong: option.case_cong json.case_cong)

lemma defer_ignores_executor [simp]:
  "defer_step S (env\<lparr> ae_execute := f \<rparr>) owner user c s = defer_step S env owner user c s"
  by (simp add: defer_step_def cong: option.case_cong sum.case_cong prod.case_cong if_cong)

lemma trail_ignores_executor [simp]:
  "act_record S (env\<lparr> ae_execute := f \<rparr>) n date owner a detail s = act_record S env n date owner a detail s"
  "act_audit S (env\<lparr> ae_execute := f \<rparr>) owner a kind detail s = act_audit S env owner a kind detail s"
  "act_emit (env\<lparr> ae_execute := f \<rparr>) owner ty a extra s = act_emit env owner ty a extra s"
  by (simp_all add: act_record_def act_audit_def act_emit_def)

lemma policy_gate_passes: "policy_gate S env owner p s = (Inr q, s') \<Longrightarrow> q = p"
  by (auto simp: policy_gate_def Let_def split: option.splits prod.splits if_splits)

lemma apfst_Inl: "apfst Inl x = (Inr q, s') \<longleftrightarrow> False"
  by (cases x) simp

lemma gate_passes:
  assumes "decide_gate S env owner i hash approve s = (Inr q, s')"
  shows "s_get S owner ''actions'' i s = Some q \<and> jtext q ''hash'' = Some hash \<and> jstatus q = Some ''awaiting_review''
     \<and> \<not> date_le (jget q ''expiresAt'') (ae_now env)
     \<and> (approve \<longrightarrow> task_open S owner q s \<and> ae_connected env owner s \<and> connection_same env owner q s)"
proof -
  obtain p where p: "s_get S owner ''actions'' i s = Some p"
    using assms by (cases "s_get S owner ''actions'' i s") (auto simp: decide_gate_def)
  show ?thesis using assms p policy_gate_passes [of S env owner p s q s']
    by (auto simp: decide_gate_def apfst_Inl split: if_splits)
qed

lemma gate_blocked_unless_open:
  "\<lbrakk> s_get S owner ''actions'' i s = Some p; jstatus p \<noteq> Some ''awaiting_review'' \<rbrakk> \<Longrightarrow>
   snd (decide_gate S env owner i hash approve s) = s
   \<and> fst (decide_gate S env owner i hash approve s)
     = Inl (if jtext p ''hash'' = Some hash then Inr p
            else Inl (AppError ''This proposal changed. Open its latest review before deciding.'' 409))"
  by (simp add: decide_gate_def)

lemma finished_status: "is_obj c \<Longrightarrow> jstatus (finished_row c out) \<in> {Some ''succeeded'', Some ''failed'', Some ''outcome_unknown''}
     \<and> jid (finished_row c out) = jid c"
  by (cases out) (auto simp: finished_row_def jstatus_def jtext_def jid_def jget_jset Let_def)

context action_store
begin

lemma put_other_kind:
  assumes "k \<noteq> ''actions''"
  shows "s_get S ow' ''actions'' i' (s_put S c ow k v s) = s_get S ow' ''actions'' i' s"
  using assms by (simp add: get_put)

lemma trail_keeps_actions [simp]:
  "s_get S ow' ''actions'' i' (act_record S env n date owner a detail s) = s_get S ow' ''actions'' i' s"
  "s_get S ow' ''actions'' i' (act_audit S env owner a kind detail s) = s_get S ow' ''actions'' i' s"
  "s_get S ow' ''actions'' i' (sync_approval S env owner f s) = s_get S ow' ''actions'' i' s"
  by (simp_all add: act_record_def act_audit_def sync_approval_def put_other_kind Let_def)

lemma emit_keeps_actions:
  assumes "quiet_bus S env"
  shows "s_get S ow' ''actions'' i' (act_emit env owner ty a extra s) = s_get S ow' ''actions'' i' s"
    and "s_get S ow' ''actions'' i' (emit_finished env owner f s) = s_get S ow' ''actions'' i' s"
  using assms by (simp_all add: quiet_bus_def act_emit_def emit_finished_def)

lemma run_action_row:
  assumes "quiet_bus S env" "run_action S env owner c s = (r, s')"
  shows "\<exists>out. r = Inr (finished_row c out) \<and> s_get S owner ''actions'' (jid (finished_row c out)) s' = Some (finished_row c out)"
  using assms by (auto simp: run_action_def Let_def emit_keeps_actions get_put split: prod.splits)

lemma patched_row: "is_obj c \<Longrightarrow> jstatus (deferred_patch st r x c) = Some st \<and> jid (deferred_patch st r x c) = jid c"
  by (simp add: deferred_patch_def jstatus_def jtext_def jid_def jget_jset)

lemma signed_status: "sign cfg now ow user r = Inr r' \<Longrightarrow> dr_status r' \<in> {DScheduled, Collecting}"
  by (auto simp: sign_def Let_def split: if_splits)

text \<open>With deferral a claimed action never reaches the executor: it is scheduled, waits for more signatures, or
  keeps the claimed row when the signature is refused.\<close>

lemma defer_outcome:
  assumes "ae_deferred env = Some (D, cfg)" "quiet_deferred S env" "s_get S ow ''actions'' (jid c) s = Some c" "is_obj c"
  shows "\<exists>r s' f. defer_step S env ow user c s = (Some r, s') \<and> s_get S ow ''actions'' (jid c) s' = Some f
     \<and> (r = Inr f \<and> jstatus f \<in> {Some ''scheduled'', Some ''awaiting_review''} \<or> (\<exists>e. r = Inl e) \<and> f = c)"
proof (cases "sign cfg (ae_now env) ow (case user of Some u \<Rightarrow> u | None \<Rightarrow> ow) (df_read D cfg ow (jid c) (amount_of env c) s)")
  case (Inl e)
  then show ?thesis using assms(1,3) by (simp add: defer_step_def df_decide_def)
next
  case (Inr r)
  have put: "put_and_read S env ow (deferred_patch st r x c) c s' = (Some (Inr (deferred_patch st r x c)), s_put S (ae_clock env) ow ''actions'' (deferred_patch st r x c) s')
     \<and> s_get S ow ''actions'' (jid c) (s_put S (ae_clock env) ow ''actions'' (deferred_patch st r x c) s') = Some (deferred_patch st r x c)" for st x s'
    using patched_row [OF assms(4)] by (simp add: put_and_read_def get_put)
  show ?thesis using Inr signed_status [OF Inr] assms(1) put patched_row [OF assms(4), of _ r]
    by (auto simp: defer_step_def df_decide_def)
qed

end

section \<open>Properties\<close>

definition review_row :: "json \<Rightarrow> string \<Rightarrow> json" where
  "review_row data h = JObj [(''id'', JStr ''a1''), (''title'', JStr ''Send''), (''kind'', JStr ''email.send''), (''data'', data),
     (''status'', JStr ''awaiting_review''), (''hash'', JStr h), (''expiresAt'', JDate 500)]"

definition review_table :: table where
  "review_table = [((''u1'', ''actions'', ''a1''), review_row (JObj [(''subject'', JStr ''hello'')]) ''h1'', 1)]"

definition sample_service :: "table action_env" where
  "sample_service = \<lparr> ae_clock = 10, ae_now = 100, ae_end = 120, ae_wall = 100, ae_uuid = (\<lambda>n. replicate n CHR ''x''),
     ae_digits = (\<lambda>n. ''0''), ae_quotes = ([], []), ae_sha256 = (\<lambda>t. CHR ''#'' # t), ae_stringify = (\<lambda>j. ''j''),
     ae_number = (\<lambda>t. None), ae_expires_ms = 1800000, ae_parse = Inr, ae_prepare = None,
     ae_connected = (\<lambda>ow d. True), ae_connection = None,
     ae_execute = (\<lambda>ow input ci tv d. (ExecDone (case jget input ''data'' of Some x \<Rightarrow> text_or_empty x ''subject'' | None \<Rightarrow> []), d)),
     ae_emit = (\<lambda>ow ty i pl d. d), ae_policy = False, ae_deferred = None, ae_between = (\<lambda>d. d) \<rparr>"

lemma sample_quiet: "quiet_bus plain_store sample_service" "quiet_bus plain_store (sample_service\<lparr> ae_between := g \<rparr>)"
  by (simp_all add: quiet_bus_def sample_service_def)

lemma sample_gate:
  "decide_gate plain_store sample_service ''u1'' ''a1'' ''h1'' True review_table
   = (Inr (review_row (JObj [(''subject'', JStr ''hello'')]) ''h1''), review_table)"
  "decide_gate plain_store (sample_service\<lparr> ae_between := g \<rparr>) ''u1'' ''a1'' ''h1'' True review_table
   = (Inr (review_row (JObj [(''subject'', JStr ''hello'')]) ''h1''), review_table)"
  by (simp_all add: decide_gate_def review_table_def st_get_def review_row_def jtext_def jstatus_def task_open_def
      truthy_text_def date_le_def sample_service_def connection_same_def policy_gate_def)

lemma sample_claim:
  "st_claim 10 ''u1'' ''a1'' ''executing'' 100 [((''u1'', ''actions'', ''a1''), review_row x h, u)]
   = (Some (jset ''status'' (JStr ''executing'') (review_row x h)),
      [((''u1'', ''actions'', ''a1''), jset ''status'' (JStr ''executing'') (review_row x h), 10)])"
  by (simp add: st_claim_def st_get_def claim_guard_def review_row_def jtext_def jstatus_def Let_def)

lemma decide_claimed:
  assumes "decide_gate plain_store env ow i h True d = (Inr p, d1)" "ae_deferred env = None"
    and "st_claim (ae_clock env) ow i ''executing'' (ae_now env) (ae_between env d1) = (Some c, d2)"
  shows "\<exists>d3. act_decide plain_store env ow i h True user d = run_action plain_store env ow c d3"
  using assms by (auto simp: act_decide_def defer_step_def Let_def)

lemma run_action_result: "fst (run_action S env ow c s) = Inr (finished_row c (fst (run_outcome env ow c s)))"
  by (simp add: run_action_def Let_def split: prod.splits)

lemma sample_decides:
  assumes "\<And>d. fst (run_outcome (sample_service\<lparr> ae_execute := f \<rparr>) ''u1''
      (jset ''status'' (JStr ''executing'') (review_row (JObj [(''subject'', JStr ''hello'')]) ''h1'')) d) = out"
  shows "fst (act_decide plain_store (sample_service\<lparr> ae_execute := f \<rparr>) ''u1'' ''a1'' ''h1'' True None review_table)
     = Inr (finished_row (jset ''status'' (JStr ''executing'') (review_row (JObj [(''subject'', JStr ''hello'')]) ''h1'')) out)"
proof -
  let ?env = "sample_service\<lparr> ae_execute := f \<rparr>"
  have g: "decide_gate plain_store ?env ''u1'' ''a1'' ''h1'' True review_table
     = (Inr (review_row (JObj [(''subject'', JStr ''hello'')]) ''h1''), review_table)"
    by (simp add: sample_gate)
  have n: "ae_deferred ?env = None" by (simp add: sample_service_def)
  have c: "st_claim (ae_clock ?env) ''u1'' ''a1'' ''executing'' (ae_now ?env) (ae_between ?env review_table)
     = (Some (jset ''status'' (JStr ''executing'') (review_row (JObj [(''subject'', JStr ''hello'')]) ''h1'')),
        [((''u1'', ''actions'', ''a1''), jset ''status'' (JStr ''executing'') (review_row (JObj [(''subject'', JStr ''hello'')]) ''h1''), 10)])"
    by (simp add: sample_service_def review_table_def sample_claim)
  show ?thesis using decide_claimed [OF g n c, of None] assms by (auto simp: run_action_result)
qed

text \<open>C1: nothing is executed without a live review.  Whether a decision calls the executor at all, that is
  whether its outcome or the table it leaves depends on the executor, requires an approval of a proposal
  that has the reviewed hash, still awaits review, has not expired, whose task is running or waits for the
  approval, and whose account is connected and the same as when it was proposed.\<close>
theorem execution_needs_review:
  assumes "act_decide plain_store (env\<lparr> ae_execute := f \<rparr>) ow i h approve user d \<noteq> act_decide plain_store env ow i h approve user d"
  shows "approve \<and> (\<exists>p. st_get ow ''actions'' i d = Some p \<and> jtext p ''hash'' = Some h \<and> jstatus p = Some ''awaiting_review''
     \<and> \<not> date_le (jget p ''expiresAt'') (ae_now env) \<and> task_open plain_store ow p d
     \<and> ae_connected env ow d \<and> connection_same env ow p d)"
proof -
  have "\<exists>p d1. decide_gate plain_store env ow i h approve d = (Inr p, d1)"
    using assms by (cases "decide_gate plain_store env ow i h approve d") (auto simp: act_decide_def split: sum.splits)
  then obtain p d1 where g: "decide_gate plain_store env ow i h approve d = (Inr p, d1)" by blast
  moreover have "approve"
    using assms g by (cases approve) (auto simp: act_decide_def Let_def split: prod.splits option.splits)
  ultimately show ?thesis using gate_passes [OF g] by simp
qed

theorem execution_needs_review_witness:
  "\<exists>p. st_get ''u1'' ''actions'' ''a1'' review_table = Some p \<and> jtext p ''hash'' = Some ''h1''"
proof -
  let ?f = "\<lambda>ow input ci tv d. (ExecDone ''other'', d)" and ?g = "\<lambda>ow input ci tv d. (ExecDone ''this'', d)"
  have "fst (act_decide plain_store (sample_service\<lparr> ae_execute := ?f \<rparr>) ''u1'' ''a1'' ''h1'' True None review_table)
     \<noteq> fst (act_decide plain_store (sample_service\<lparr> ae_execute := ?g \<rparr>) ''u1'' ''a1'' ''h1'' True None review_table)"
    using sample_decides [of ?f "ExecDone ''other''"] sample_decides [of ?g "ExecDone ''this''"]
    by (simp add: run_outcome_def sample_service_def finished_row_def review_row_def)
  then have "act_decide plain_store (sample_service\<lparr> ae_execute := ?g, ae_execute := ?f \<rparr>) ''u1'' ''a1'' ''h1'' True None review_table
     \<noteq> act_decide plain_store (sample_service\<lparr> ae_execute := ?g \<rparr>) ''u1'' ''a1'' ''h1'' True None review_table" by auto
  from execution_needs_review [OF this] show ?thesis by blast
qed

text \<open>The persistent store of the deferred records keeps the rows of the actions.\<close>

lemma store_deferred_quiet: "ae_deferred env = Some (store_deferred clock, cfg) \<Longrightarrow> quiet_deferred plain_store env"
  by (simp add: quiet_deferred_def store_deferred_def sd_put_def st_get_put)

text \<open>C8: an approval acts once.  Once an approval has claimed the action, whether approvals are deferred or not, the
  row it leaves is one of these.  Without deferral, as app.ts builds the service, the executor's outcome is on the row and in the
  answer: succeeded, failed or of unknown outcome.  With deferral the decision never calls the executor: the row is
  scheduled, or awaits review again until enough users have signed, or, when the signature is refused, stays
  executing.  Unless it awaits review again, no later decision, by whomever, in whatever service and with whatever
  hash, changes anything.  The bus and the deferred records are assumed to leave the rows of kind actions alone, and
  nothing else runs between the claim and the end of the decision; what does run there with a deferred signature
  is followed in the theory Deferred.\<close>
theorem approved_runs_once:
  assumes "decide_gate plain_store env ow i h True d = (Inr p, d1)" "quiet_bus plain_store env" "quiet_deferred plain_store env"
    and "st_claim (ae_clock env) ow i ''executing'' (ae_now env) (ae_between env d1) = (Some c, d2)" "jid c = i"
    and "act_decide plain_store env ow i h True user d = (r, d')"
  shows "\<exists>f. st_get ow ''actions'' i d' = Some f
     \<and> (if ae_deferred env = None then r = Inr f \<and> jstatus f \<in> {Some ''succeeded'', Some ''failed'', Some ''outcome_unknown''}
        else (\<forall>g. act_decide plain_store (env\<lparr> ae_execute := g \<rparr>) ow i h True user d = (r, d'))
          \<and> (r = Inr f \<and> jstatus f \<in> {Some ''scheduled'', Some ''awaiting_review''} \<or> (\<exists>e. r = Inl e) \<and> jstatus f = Some ''executing''))
     \<and> (jstatus f \<noteq> Some ''awaiting_review'' \<longrightarrow>
          (\<forall>env' h' approve user'. snd (act_decide plain_store env' ow i h' approve user' d') = d'))"
proof -
  have later: "snd (act_decide plain_store env' ow i h' approve user' d') = d'"
    if "st_get ow ''actions'' i d' = Some f" "jstatus f \<noteq> Some ''awaiting_review''" for f env' h' approve user'
    using gate_blocked_unless_open [of plain_store ow i d' f env' h' approve] that
    by (cases "decide_gate plain_store env' ow i h' approve d'") (auto simp: act_decide_def)
  have c: "is_obj c" "jstatus c = Some ''executing''"
    using st_claim_SomeD [of "ae_clock env" ow i "''executing''" "ae_now env" "ae_between env d1" c] assms(4)
    by (auto simp: jstatus_def jtext_def jget_jset dest: jtext_is_obj [of _ "''status''", unfolded jtext_def])
  show ?thesis
  proof (cases "ae_deferred env")
    case None
    obtain d3 where run: "run_action plain_store env ow c d3 = (r, d')"
      using decide_claimed [OF assms(1) None assms(4)] assms(6) by metis
    obtain out where f: "r = Inr (finished_row c out)" "st_get ow ''actions'' (jid (finished_row c out)) d' = Some (finished_row c out)"
      using pa.run_action_row [OF assms(2) run] by auto
    note st = finished_status [OF c(1), of out]
    then have get: "st_get ow ''actions'' i d' = Some (finished_row c out)" using f(2) assms(5) by simp
    then show ?thesis using f(1) st later [OF get] None by auto
  next
    case (Some x)
    obtain D cfg where D: "ae_deferred env = Some (D, cfg)" using Some by (cases x) simp
    let ?d = "act_emit env ow ''action.approved'' c [] (act_audit plain_store env ow c ''approve'' ''Approved by user''
        (act_record plain_store env 2 (ae_now env) ow c ''Approved; execution started'' d2))"
    have "st_get ow ''actions'' i d2 = Some c"
      using st_get_claim [of ow "''actions''" i "ae_clock env" ow i "''executing''" "ae_now env" "ae_between env d1"] assms(4) by simp
    then have "st_get ow ''actions'' (jid c) ?d = Some c"
      using pa.emit_keeps_actions(1) [OF assms(2)] pa.trail_keeps_actions assms(5) by simp
    from pa.defer_outcome [OF D assms(3) _ c(1), of ow ?d user] this obtain r' s' f where f:
      "defer_step plain_store env ow user c ?d = (Some r', s')" "st_get ow ''actions'' (jid c) s' = Some f"
      "r' = Inr f \<and> jstatus f \<in> {Some ''scheduled'', Some ''awaiting_review''} \<or> (\<exists>e. r' = Inl e) \<and> f = c" by auto
    have "act_decide plain_store (env\<lparr> ae_execute := g \<rparr>) ow i h True user d = (r', s')" for g
      using assms(1,4) f(1) by (simp add: act_decide_def Let_def)
    moreover have "act_decide plain_store env ow i h True user d = (r', s')"
      using assms(1,4) f(1) by (simp add: act_decide_def Let_def)
    ultimately show ?thesis using f(2,3) c(2) assms(5,6) D later [of f] by auto
  qed
qed

theorem approved_runs_once_witness:
  "\<exists>d'. act_decide plain_store sample_service ''u1'' ''a1'' ''h1'' True None review_table
      = (Inr (jset ''result'' (JStr ''hello'') (jset ''status'' (JStr ''succeeded'') (review_row (JObj [(''subject'', JStr ''hello'')]) ''h1''))), d')
     \<and> snd (act_decide plain_store sample_service ''u1'' ''a1'' ''h1'' False None d') = d'"
proof -
  have "sample_service = sample_service\<lparr> ae_execute := ae_execute sample_service \<rparr>" by simp
  then have "fst (act_decide plain_store sample_service ''u1'' ''a1'' ''h1'' True None review_table)
      = Inr (jset ''result'' (JStr ''hello'') (jset ''status'' (JStr ''succeeded'') (review_row (JObj [(''subject'', JStr ''hello'')]) ''h1'')))"
    using sample_decides [of "ae_execute sample_service" "ExecDone ''hello''"]
    by (simp add: run_outcome_def sample_service_def finished_row_def review_row_def field_or_null_def text_or_empty_def jtext_def)
  then obtain d' where r: "act_decide plain_store sample_service ''u1'' ''a1'' ''h1'' True None review_table
      = (Inr (jset ''result'' (JStr ''hello'') (jset ''status'' (JStr ''succeeded'') (review_row (JObj [(''subject'', JStr ''hello'')]) ''h1''))), d')"
    by (cases "act_decide plain_store sample_service ''u1'' ''a1'' ''h1'' True None review_table") simp
  have c: "st_claim (ae_clock sample_service) ''u1'' ''a1'' ''executing'' (ae_now sample_service) (ae_between sample_service review_table)
     = (Some (jset ''status'' (JStr ''executing'') (review_row (JObj [(''subject'', JStr ''hello'')]) ''h1'')),
        [((''u1'', ''actions'', ''a1''), jset ''status'' (JStr ''executing'') (review_row (JObj [(''subject'', JStr ''hello'')]) ''h1''), 10)])"
    by (simp add: sample_service_def review_table_def sample_claim)
  have n: "ae_deferred sample_service = None" by (simp add: sample_service_def)
  then have "quiet_deferred plain_store sample_service" by (simp add: quiet_deferred_def)
  from approved_runs_once [OF sample_gate(1) sample_quiet(1) this c _ r] show ?thesis using r n
    by (auto simp: review_row_def jid_def jtext_def)
qed

text \<open>What is executed is the row as the claim finds it.  The hash that the user reviewed is compared only
  before the checks that decide awaits; the claim looks at the status, the expiry and the task.  So the
  executor is given the data of whatever proposal is there at the claim: without a change in
  between the reviewed one, after an edit in between data that no one reviewed.\<close>
theorem claimed_row_is_executed:
  assumes "decide_gate plain_store env ow i h True d = (Inr p, d1)" "ae_deferred env = None"
    and "st_get ow ''actions'' i (ae_between env d1) = Some q" "claim_guard ow ''executing'' (ae_now env) q (ae_between env d1)"
  shows "\<exists>d3. fst (act_decide plain_store env ow i h True user d)
     = Inr (finished_row (jset ''status'' (JStr ''executing'') q) (fst (run_outcome env ow (jset ''status'' (JStr ''executing'') q) d3)))"
proof -
  have "st_claim (ae_clock env) ow i ''executing'' (ae_now env) (ae_between env d1)
     = (Some (jset ''status'' (JStr ''executing'') q), snd (st_claim (ae_clock env) ow i ''executing'' (ae_now env) (ae_between env d1)))"
    using assms(3,4) by (simp add: st_claim_def Let_def)
  from decide_claimed [OF assms(1,2) this, of user] run_action_result show ?thesis by metis
qed

definition edit_between :: "table \<Rightarrow> table" where
  "edit_between d = snd (act_edit plain_store sample_service ''u1'' ''a1'' (JObj [(''subject'', JStr ''bye'')]) ''h1'' d)"

theorem claimed_row_is_executed_witness:
  "jtext (review_row (JObj [(''subject'', JStr ''bye'')]) ''#j'') ''hash'' \<noteq> Some ''h1''
   \<and> (\<exists>f. fst (act_decide plain_store (sample_service\<lparr> ae_between := edit_between \<rparr>) ''u1'' ''a1'' ''h1'' True None review_table) = Inr f
        \<and> jtext f ''result'' = Some ''bye'' \<and> jtext f ''hash'' = Some ''#j'')"
proof -
  let ?env = "sample_service\<lparr> ae_between := edit_between \<rparr>"
  let ?q = "review_row (JObj [(''subject'', JStr ''bye'')]) ''#j''"
  have e: "st_get ''u1'' ''actions'' ''a1'' (edit_between review_table) = Some ?q"
    by (simp add: edit_between_def act_edit_def review_table_def review_row_def st_get_def st_cas_def jstatus_def jtext_def
        act_audit_def st_put_def sample_service_def fields_merge_def jid_def field_or_null_def undef_field_def Let_def)
  have g: "claim_guard ''u1'' ''executing'' (ae_now ?env) ?q (edit_between review_table)"
    by (simp add: claim_guard_def review_row_def jstatus_def jtext_def sample_service_def)
  have n: "ae_deferred ?env = None" by (simp add: sample_service_def)
  have b: "ae_between ?env review_table = edit_between review_table" by simp
  from claimed_row_is_executed [OF sample_gate(2) n, where q = ?q and user = None, unfolded b, OF e g]
  obtain d3 where "fst (act_decide plain_store ?env ''u1'' ''a1'' ''h1'' True None review_table)
     = Inr (finished_row (jset ''status'' (JStr ''executing'') ?q) (fst (run_outcome ?env ''u1'' (jset ''status'' (JStr ''executing'') ?q) d3)))"
    by blast
  then show ?thesis
    by (simp add: run_outcome_def sample_service_def finished_row_def review_row_def field_or_null_def text_or_empty_def jtext_def)
qed

text \<open>A retry keeps the old deadline.  It sends a failed or denied action back to review with its error
  cleared, under the same hash and the same expiry; once that has passed, every decision on it is
  refused, so it can never be approved again.\<close>
theorem retry_keeps_deadline:
  assumes "act_retry plain_store env ow i d = (Inr u, d')" "st_get ow ''actions'' i d = Some a"
  shows "jstatus u = Some ''awaiting_review'' \<and> jtext u ''error'' = None \<and> jget u ''hash'' = jget a ''hash''
     \<and> jget u ''expiresAt'' = jget a ''expiresAt''
     \<and> (date_le (jget a ''expiresAt'') (ae_now env') \<longrightarrow> (\<exists>e. fst (act_decide plain_store env' ow i h approve user d') = Inl e))"
proof -
  let ?p = "[(''status'', JStr ''awaiting_review''), (''error'', JNull), (''result'', JNull)]"
  obtain st d1 where c: "st_cas (ae_clock env) ow ''actions'' i (JObj [(''status'', JStr st)]) (JObj ?p) d = (Some u, d1)"
    and d': "d' = act_audit plain_store env ow u ''retried'' ''Retried by user'' d1"
    using assms by (auto simp: act_retry_def split: if_splits option.splits prod.splits)
  then have u: "u = jmerge a (JObj ?p)" "is_obj a"
    using assms(2) by (auto simp: st_cas_def dest: jcontains_is_obj split: option.splits if_splits)
  have "st_get ow ''actions'' i d1 = Some u" 
    using st_get_cas [of ow "''actions''" i "ae_clock env" ow "''actions''" i "JObj [(''status'', JStr st)]" "JObj ?p" d] c by simp
  then have get: "st_get ow ''actions'' i d' = Some u" using pa.trail_keeps_actions(2) by (simp add: d')
  have f: "jget u ''status'' = Some (JStr ''awaiting_review'')" "jget u ''error'' = Some JNull" "jget u ''hash'' = jget a ''hash''"
    "jget u ''expiresAt'' = jget a ''expiresAt''" using u by (simp_all add: jget_jmerge)
  have exp: "\<exists>e. fst (expire_review plain_store env' ow i h u d') = Inl e"
    if late: "date_le (jget u ''expiresAt'') (ae_now env')" and hash: "jtext u ''hash'' = Some h"
  proof -
    obtain t where "jget u ''expiresAt'' = Some (JDate t)"
      using late by (auto simp: date_le_iff)
    then have "jcontains u (JObj ([(''status'', JStr ''awaiting_review''), (''hash'', JStr h)] @ undef_field ''expiresAt'' (jget u ''expiresAt'')))"
      using jtext_is_obj [OF hash] hash f(1) by (simp add: jcontains_fields undef_field_def jtext_Some)
    then show ?thesis using get by (simp add: expire_review_def st_cas_def)
  qed
  have "\<exists>e. fst (act_decide plain_store env' ow i h approve user d') = Inl e" if "date_le (jget a ''expiresAt'') (ae_now env')"
    using that exp f get by (auto simp: act_decide_def decide_gate_def jstatus_def jtext_def apfst_def map_prod_def split: prod.splits)
  then show ?thesis using f by (simp add: jstatus_def jtext_def)
qed

definition failed_row :: json where
  "failed_row = JObj [(''id'', JStr ''a1''), (''status'', JStr ''failed''), (''error'', JStr ''timeout''), (''hash'', JStr ''h1''),
     (''expiresAt'', JDate 500)]"

theorem retry_keeps_deadline_witness:
  "\<exists>u d'. act_retry plain_store sample_service ''u1'' ''a1'' [((''u1'', ''actions'', ''a1''), failed_row, 1)] = (Inr u, d')
     \<and> (\<exists>e. fst (act_decide plain_store (sample_service\<lparr> ae_now := 501 \<rparr>) ''u1'' ''a1'' ''h1'' True None d') = Inl e)"
proof -
  let ?d = "[((''u1'', ''actions'', ''a1''), failed_row, 1)]"
  have a: "st_get ''u1'' ''actions'' ''a1'' ?d = Some failed_row" by (simp add: st_get_def)
  have "\<exists>u d'. act_retry plain_store sample_service ''u1'' ''a1'' ?d = (Inr u, d')"
    by (simp add: act_retry_def st_get_def st_cas_def failed_row_def jstatus_def jtext_def uncertain_error_def truthy_text_def
        lower_def str_starts_def text_or_empty_def Let_def)
  then obtain u d' where r: "act_retry plain_store sample_service ''u1'' ''a1'' ?d = (Inr u, d')" by blast
  have "date_le (jget failed_row ''expiresAt'') (ae_now (sample_service\<lparr> ae_now := 501 \<rparr>))"
    by (simp add: failed_row_def date_le_def)
  then show ?thesis using retry_keeps_deadline [OF r a] r by blast
qed

definition quiet_prepare :: "'s store \<Rightarrow> 's action_env \<Rightarrow> bool" where
  "quiet_prepare S env \<longleftrightarrow> (case ae_prepare env of None \<Rightarrow> True
     | Some f \<Rightarrow> \<forall>w x c s ow i. s_get S ow ''actions'' i (snd (f w x c s)) = s_get S ow ''actions'' i s)"

lemma prepare_keeps_actions:
  assumes "quiet_prepare S env" "act_prepare env ow raw s = (r, s')"
  shows "s_get S ow' ''actions'' i s' = s_get S ow' ''actions'' i s"
proof (cases "ae_prepare env")
  case None then show ?thesis using assms(2) by (auto simp: act_prepare_def Let_def split: sum.splits if_splits)
next
  case (Some f)
  then have "\<And>w x c s1 s2 z. f w x c s1 = (z, s2) \<Longrightarrow> s_get S ow' ''actions'' i s2 = s_get S ow' ''actions'' i s1"
    using assms(1) by (auto simp: quiet_prepare_def) (metis snd_conv)
  then show ?thesis using assms(2) Some
    by (auto simp: act_prepare_def Let_def split: sum.splits if_splits prod.splits)
qed

text \<open>Proposing with an idempotency key proposes once.  After a call with a key has returned a proposal, any
  later call with the key returns that row as it then is, prepares nothing and changes nothing.\<close>
theorem propose_once:
  assumes "act_propose plain_store env ow raw (Some key) t d = (Inr p, d')" "quiet_bus plain_store env"
    and "ae_sha256 env' key = ae_sha256 env key" "\<And>i q. st_get ow ''actions'' i d = Some q \<Longrightarrow> jid q = i"
    and "quiet_prepare plain_store env"
  shows "jid p = proposal_id env (Some key) \<and> act_propose plain_store env' ow raw' (Some key) t' d' = (Inr p, d')"
proof -
  let ?i = "proposal_id env (Some key)"
  have i': "proposal_id env' (Some key) = ?i" using assms(3) by (simp add: proposal_id_def)
  have "jid p = ?i \<and> st_get ow ''actions'' ?i d' = Some p"
  proof (cases "st_get ow ''actions'' ?i d")
    case (Some q) then show ?thesis using assms(1,4) by (auto simp: act_propose_def)
  next
    case None
    obtain input conn target version d1 where prep: "act_prepare env ow raw d = (Inr (input, conn, target, version), d1)"
      using assms(1) None by (auto simp: act_propose_def split: sum.splits prod.splits)
    have None1: "st_get ow ''actions'' ?i d1 = None"
      using None prepare_keeps_actions [OF assms(5) prep] by simp
    let ?q = "act_proposal env ?i t input conn target version"
    have q: "jid ?q = ?i" by (simp add: act_proposal_def jid_def jtext_def)
    have ins: "st_insert (ae_clock env) ow ''actions'' ?q d1 = (Some ?q, AList.update (ow, ''actions'', ?i) (?q, ae_clock env) d1)"
      using None1 q by (simp add: st_insert_def)
    have g: "st_get ow ''actions'' ?i (AList.update (ow, ''actions'', ?i) (?q, ae_clock env) d1) = Some ?q"
      by (simp add: st_get_def)
    have "p = ?q" and "st_get ow ''actions'' ?i d' = Some ?q"
      using assms(1) None prep ins q g pa.emit_keeps_actions(1) [OF assms(2)] pa.trail_keeps_actions
      by (auto simp: act_propose_def act_save_def Let_def)
    then show ?thesis using q by simp
  qed
  then show ?thesis using i' by (simp add: act_propose_def)
qed

theorem propose_once_witness:
  "\<exists>p d'. act_propose plain_store sample_service ''u1'' (JObj [(''kind'', JStr ''drive.trash'')]) (Some ''k'') None [] = (Inr p, d')
     \<and> act_propose plain_store sample_service ''u1'' JNull (Some ''k'') (Some ''t1'') d' = (Inr p, d')"
proof -
  have "\<exists>p d'. act_propose plain_store sample_service ''u1'' (JObj [(''kind'', JStr ''drive.trash'')]) (Some ''k'') None [] = (Inr p, d')"
    by (simp add: act_propose_def act_prepare_def act_save_def sample_service_def st_get_def st_insert_def Let_def)
  then obtain p d' where r: "act_propose plain_store sample_service ''u1'' (JObj [(''kind'', JStr ''drive.trash'')]) (Some ''k'') None [] = (Inr p, d')"
    by blast
  have n: "quiet_prepare plain_store sample_service" by (simp add: sample_service_def quiet_prepare_def)
  from propose_once [OF r sample_quiet(1) refl _ n] r show ?thesis by (auto simp: st_get_def)
qed

text \<open>A deferred record that refuses the signature throws after the claim: the action stays executing, which
  neither a decision nor a retry leaves.\<close>

lemma refused_signature_strands:
  assumes "decide_gate plain_store env ow i h True d = (Inr p, d1)" "ae_deferred env = Some (D, cfg)" "quiet_bus plain_store env"
    and "st_claim (ae_clock env) ow i ''executing'' (ae_now env) (ae_between env d1) = (Some c, d2)"
    and "\<And>s. df_decide D cfg (ae_now env) ow (jid c) ow (amount_of env c) s = (Inl e, s)"
  shows "\<exists>d'. act_decide plain_store env ow i h True None d = (Inl e, d') \<and> st_get ow ''actions'' i d' = Some c
     \<and> jstatus c = Some ''executing'' \<and> is_ok (fst (act_retry plain_store env' ow i d')) = False"
proof -
  have "st_get ow ''actions'' i d2 = Some c" using st_get_claim [of ow "''actions''" i "ae_clock env" ow i "''executing''" "ae_now env" "ae_between env d1"] assms(4) by simp
  moreover have st: "jstatus c = Some ''executing''"
    using st_claim_SomeD [of "ae_clock env" ow i "''executing''" "ae_now env" "ae_between env d1" c] assms(4)
    by (auto simp: jstatus_def jtext_def jget_jset dest: jtext_is_obj [of _ "''status''", unfolded jtext_def])
  ultimately show ?thesis using assms pa.emit_keeps_actions(1) [OF assms(3)] pa.trail_keeps_actions
    by (auto simp: act_decide_def defer_step_def act_retry_def Let_def)
qed

end
