(* ===== verification/Rows.thy ===== *)
theory Rows
  imports Json
begin

text \<open>
  Values that a zod schema reads from their JSON document: the readers of a field (required, optional,
  with a default), of the basic types, of lists and of enumerations, and the lemmas by which a row
  that the program wrote is read back.  Shared by Thoughts and Turns.
\<close>

section \<open>Readers\<close>

definition zod_error :: err where
  "zod_error = JsError ''ZodError''"

definition present :: "string \<Rightarrow> ('a \<Rightarrow> json) \<Rightarrow> 'a option \<Rightarrow> (string \<times> json) list" where
  "present k f v = (case v of None \<Rightarrow> [] | Some x \<Rightarrow> [(k, f x)])"

text \<open>Reading a field: \<open>None\<close> when the schema rejects it; a missing field is its default.\<close>

definition req :: "(json \<Rightarrow> 'a option) \<Rightarrow> string \<Rightarrow> json \<Rightarrow> 'a option" where
  "req f k j = Option.bind (jget j k) f"

definition opt :: "(json \<Rightarrow> 'a option) \<Rightarrow> string \<Rightarrow> json \<Rightarrow> 'a option option" where
  "opt f k j = (case jget j k of None \<Rightarrow> Some None | Some v \<Rightarrow> map_option Some (f v))"

definition dflt :: "'a \<Rightarrow> (json \<Rightarrow> 'a option) \<Rightarrow> string \<Rightarrow> json \<Rightarrow> 'a option" where
  "dflt d f k j = (case jget j k of None \<Rightarrow> Some d | Some v \<Rightarrow> f v)"

fun as_text :: "json \<Rightarrow> string option" where
  "as_text (JStr s) = Some s" | "as_text _ = None"

fun as_date :: "json \<Rightarrow> int option" where
  "as_date (JDate t) = Some t" | "as_date _ = None"

fun as_int :: "json \<Rightarrow> int option" where
  "as_int (JNum r) = (if of_int \<lfloor>r\<rfloor> = r then Some \<lfloor>r\<rfloor> else None)" | "as_int _ = None"

fun as_texts :: "json \<Rightarrow> string list option" where
  "as_texts (JArr xs) = those (map as_text xs)" | "as_texts _ = None"

definition as_enum :: "(string \<Rightarrow> 'a option) \<Rightarrow> json \<Rightarrow> 'a option" where
  "as_enum f j = Option.bind (as_text j) f"

fun as_num :: "json \<Rightarrow> rat option" where
  "as_num (JNum r) = Some r" | "as_num _ = None"

fun as_fields :: "json \<Rightarrow> (string \<times> json) list option" where
  "as_fields (JObj fs) = Some fs" | "as_fields _ = None"

fun as_list :: "(json \<Rightarrow> 'a option) \<Rightarrow> json \<Rightarrow> 'a list option" where
  "as_list f (JArr xs) = those (map f xs)" | "as_list f _ = None"

text \<open>An enumeration is given by its values and the text of each.\<close>

definition enum_of :: "('a \<Rightarrow> string) \<Rightarrow> 'a list \<Rightarrow> string \<Rightarrow> 'a option" where
  "enum_of text vals x = find (\<lambda>v. text v = x) vals"

text \<open>\<open>z.string().min(a).max(b)\<close>.\<close>

definition text_in :: "nat \<Rightarrow> nat \<Rightarrow> json \<Rightarrow> string option" where
  "text_in a b v = (case as_text v of None \<Rightarrow> None | Some s \<Rightarrow> if len_in a b s then Some s else None)"

text \<open>\<open>z.number().int().positive()\<close>.\<close>

definition positive_int :: "json \<Rightarrow> int option" where
  "positive_int v = (case as_int v of None \<Rightarrow> None | Some n \<Rightarrow> if 0 < n then Some n else None)"

text \<open>\<open>.strict()\<close>: no keys but these.\<close>

definition strict_keys :: "string list \<Rightarrow> json \<Rightarrow> bool" where
  "strict_keys ks j = (case j of JObj fs \<Rightarrow> \<forall>kv\<in>set fs. fst kv \<in> set ks | _ \<Rightarrow> False)"

definition is_blank :: "char \<Rightarrow> bool" where
  "is_blank c \<longleftrightarrow> (of_char c :: nat) \<in> {32, 9, 10, 11, 12, 13, 160}"

definition trim :: "string \<Rightarrow> string" where
  "trim s = rev (dropWhile is_blank (rev (dropWhile is_blank s)))"

text \<open>A number in a template string.\<close>

fun nat_text :: "nat \<Rightarrow> string" where
  "nat_text n = (if n < 10 then [char_of (48 + n)] else nat_text (n div 10) @ [char_of (48 + n mod 10)])"

declare nat_text.simps [simp del]

text \<open>An optional text of which the code asks only whether it is truthy.\<close>

definition given_text :: "string option \<Rightarrow> string option" where
  "given_text x = (if x = Some [] then None else x)"

text \<open>\<open>xs.map(x => schema.parse(x))\<close>: the first rejected element throws.\<close>

fun all_ok :: "'a res list \<Rightarrow> 'a list res" where
  "all_ok [] = Inr []"
| "all_ok (r # rs) = (case r of Inl e \<Rightarrow> Inl e | Inr x \<Rightarrow> (case all_ok rs of Inl e \<Rightarrow> Inl e | Inr xs \<Rightarrow> Inr (x # xs)))"

section \<open>Reading back what was written\<close>

lemma those_texts [simp]: "those (map (as_text \<circ> JStr) xs) = Some xs"
  by (induction xs) simp_all

text \<open>A field of a row is found in the first part of the row that has it.\<close>

lemma jget_append: "jget (JObj (xs @ ys)) k = (case jget (JObj xs) k of Some v \<Rightarrow> Some v | None \<Rightarrow> jget (JObj ys) k)"
  by (simp add: map_add_def split: option.splits)

lemma jget_present: "jget (JObj (present k' f v)) k = (if k = k' then map_option f v else None)"
  by (cases v) (auto simp: present_def)

lemma jget_Cons: "jget (JObj ((k', v) # xs)) k = (if k = k' then Some v else jget (JObj xs) k)"
  by simp

lemma jget_Nil: "jget (JObj []) k = None"
  by simp

lemmas row_fields = jget_append jget_present jget_Cons jget_Nil

lemma case_map_option_None [simp]: "(case map_option f v of Some x \<Rightarrow> Some x | None \<Rightarrow> None) = map_option f v"
  by (cases v) simp_all

lemma req_read: "\<lbrakk> jget j k = Some v; f v = Some x \<rbrakk> \<Longrightarrow> req f k j = Some x"
  by (simp add: req_def)

lemma dflt_read: "\<lbrakk> jget j k = Some v; f v = Some x \<rbrakk> \<Longrightarrow> dflt d f k j = Some x"
  by (simp add: dflt_def)

lemma opt_read: "\<lbrakk> jget j k = map_option g v; \<And>x. f (g x) = Some x \<rbrakk> \<Longrightarrow> opt f k j = Some v"
  by (cases v) (simp_all add: opt_def)

lemma opt_text_read: "jget j k = map_option JStr v \<Longrightarrow> opt as_text k j = Some v"
  by (erule opt_read) simp

lemma those_map_read: "(\<And>x. f (g x) = Some x) \<Longrightarrow> those (map (f \<circ> g) xs) = Some xs"
  by (induction xs) simp_all

lemma as_list_read: "(\<And>x. f (g x) = Some x) \<Longrightarrow> as_list f (JArr (map g xs)) = Some xs"
  by (simp add: those_map_read)

lemma as_texts_read: "as_texts (JArr (map JStr xs)) = Some xs"
  by simp

lemma strict_append: "strict_keys ks (JObj (xs @ ys)) \<longleftrightarrow> strict_keys ks (JObj xs) \<and> strict_keys ks (JObj ys)"
  by (auto simp: strict_keys_def)

lemma strict_present: "strict_keys ks (JObj (present k f v)) \<longleftrightarrow> v = None \<or> k \<in> set ks"
  by (cases v) (auto simp: strict_keys_def present_def)

lemma strict_Cons: "strict_keys ks (JObj ((k, v) # xs)) \<longleftrightarrow> k \<in> set ks \<and> strict_keys ks (JObj xs)"
  by (auto simp: strict_keys_def)

lemma strict_Nil: "strict_keys ks (JObj [])"
  by (simp add: strict_keys_def)

lemmas strict_fields = strict_append strict_present strict_Cons strict_Nil

lemma all_ok_Inr [simp]: "all_ok (map Inr xs) = Inr xs"
  by (induction xs) simp_all

lemma all_ok_iff: "all_ok rs = Inr xs \<longleftrightarrow> rs = map Inr xs"
proof
  show "all_ok rs = Inr xs \<Longrightarrow> rs = map Inr xs"
    by (induction rs arbitrary: xs) (auto split: sum.splits)
qed simp

lemma all_ok_bad: "Inl e \<in> set rs \<Longrightarrow> \<exists>e'. all_ok rs = Inl e'"
  by (cases "all_ok rs") (auto simp: all_ok_iff)

end
