(* ===== verification/Thoughts.thy ===== *)
theory Thoughts
  imports Rows
begin

text \<open>
  Thoughts of the cognitive kernel (apps/server/src/kernel/graph/thought.ts): the record of a thought
  with its attention vector, context, provenance and edges, the checks of \<open>thoughtSchema\<close>, and its
  JSON document.  A value of type \<open>thought\<close> is what the schema's parse returns, every default filled
  in; \<open>thought_schema\<close> is what parse checks of such a value, and \<open>read_thought\<close> is parse on a document.
\<close>

section \<open>The data\<close>

datatype attention_author = AuUser | AuFast | AuSlow | AuPresenter | AuWorker | AuSystem
datatype attention_scope = ScTurn | ScUser | ScTenant | ScGlobal
datatype thought_role = RoIntent | RoObservation | RoReasoning | RoResponse | RoAction | RoReflection | RoDisplay
  | RoDelegation | RoCritic | RoVerifier | RoQuery | RoConfirmation | RoCorrection
datatype thinker_kind = KdUser | KdFastLlm | KdSlowLlm | KdWorker | KdPresenter | KdSystem | KdAgent
datatype edge_kind = EkRefines | EkDecomposes | EkResolves | EkSynthesizes | EkContradicts | EkDependsOn | EkResponds | EkSupports
datatype content = CText string | CFields "(string \<times> json) list"

record thought_actor =
  ta_kind :: thinker_kind
  ta_id :: string
  ta_behalf :: "string option"
  ta_persona :: "string option"

record matched_node =
  mn_node :: string
  mn_weight :: rat
  mn_reason :: string
  mn_kind :: "string option"
  mn_meta :: "(string \<times> json) list"

record ignored_node =
  ig_node :: string
  ig_reason :: string
  ig_kind :: "string option"
  ig_meta :: "(string \<times> json) list"

record attention =
  av_id :: string
  av_author :: attention_author
  av_thought :: "string option"
  av_primary :: string
  av_secondary :: "string list"
  av_query :: string
  av_matched :: "matched_node list"
  av_ignored :: "ignored_node list"
  av_intent :: string
  av_confidence :: rat
  av_scope :: attention_scope
  av_time :: int
  av_meta :: "(string \<times> json) list"

record thought_edge =
  te_to :: string
  te_kind :: edge_kind
  te_weight :: rat
  te_confidence :: rat
  te_created :: int

record thought_context =
  tc_entities :: "string list"
  tc_policies :: "string list"
  tc_skills :: "string list"
  tc_prior :: "string list"

record provenance =
  pv_source :: string
  pv_time :: int
  pv_parent :: "string option"
  pv_correlation :: "string option"

record thought =
  th_id :: string
  th_tenant :: string
  th_turn :: string
  th_owner :: string
  th_actor :: thought_actor
  th_role :: thought_role
  th_content :: content
  th_attention :: attention
  th_context :: thought_context
  th_provenance :: provenance
  th_edges :: "thought_edge list"

section \<open>What the schema checks\<close>

definition opt_max :: "nat \<Rightarrow> string option \<Rightarrow> bool" where
  "opt_max n x = (case x of None \<Rightarrow> True | Some s \<Rightarrow> length s \<le> n)"

definition texts_max :: "nat \<Rightarrow> nat \<Rightarrow> string list \<Rightarrow> bool" where
  "texts_max count n xs \<longleftrightarrow> length xs \<le> count \<and> (\<forall>x\<in>set xs. length x \<le> n)"

definition unit_interval :: "rat \<Rightarrow> bool" where
  "unit_interval r \<longleftrightarrow> 0 \<le> r \<and> r \<le> 1"

definition actor_schema :: "thought_actor \<Rightarrow> bool" where
  "actor_schema a \<longleftrightarrow> len_in 1 200 (ta_id a) \<and> opt_max 200 (ta_behalf a)
     \<and> (case ta_persona a of None \<Rightarrow> True | Some p \<Rightarrow> len_in 1 80 p)"

definition matched_schema :: "matched_node \<Rightarrow> bool" where
  "matched_schema m \<longleftrightarrow> len_in 1 300 (mn_node m) \<and> unit_interval (mn_weight m) \<and> length (mn_reason m) \<le> 500
     \<and> opt_max 100 (mn_kind m)"

definition ignored_schema :: "ignored_node \<Rightarrow> bool" where
  "ignored_schema g \<longleftrightarrow> len_in 1 300 (ig_node g) \<and> length (ig_reason g) \<le> 500 \<and> opt_max 100 (ig_kind g)"

definition attention_schema :: "attention \<Rightarrow> bool" where
  "attention_schema v \<longleftrightarrow> len_in 1 100 (av_id v)
     \<and> (case av_thought v of None \<Rightarrow> True | Some t \<Rightarrow> len_in 1 100 t)
     \<and> len_in 1 300 (av_primary v) \<and> texts_max 50 300 (av_secondary v) \<and> len_in 1 500 (av_query v)
     \<and> length (av_matched v) \<le> 50 \<and> list_all matched_schema (av_matched v)
     \<and> length (av_ignored v) \<le> 50 \<and> list_all ignored_schema (av_ignored v)
     \<and> len_in 1 200 (av_intent v) \<and> unit_interval (av_confidence v)
     \<and> set (map mn_node (av_matched v)) \<inter> set (map ig_node (av_ignored v)) = {}
     \<and> distinct (map mn_node (av_matched v)) \<and> distinct (map ig_node (av_ignored v))"

definition edge_schema :: "thought_edge \<Rightarrow> bool" where
  "edge_schema e \<longleftrightarrow> len_in 1 100 (te_to e) \<and> unit_interval (te_weight e) \<and> unit_interval (te_confidence e)"

definition context_schema :: "thought_context \<Rightarrow> bool" where
  "context_schema c \<longleftrightarrow> texts_max 100 300 (tc_entities c) \<and> texts_max 100 300 (tc_policies c)
     \<and> texts_max 100 300 (tc_skills c) \<and> texts_max 100 100 (tc_prior c)"

definition provenance_schema :: "provenance \<Rightarrow> bool" where
  "provenance_schema p \<longleftrightarrow> len_in 1 300 (pv_source p) \<and> opt_max 100 (pv_parent p) \<and> opt_max 200 (pv_correlation p)"

definition content_schema :: "content \<Rightarrow> bool" where
  "content_schema c = (case c of CText s \<Rightarrow> length s \<le> 100000 | CFields _ \<Rightarrow> True)"

definition thought_schema :: "thought \<Rightarrow> bool" where
  "thought_schema t \<longleftrightarrow> len_in 1 100 (th_id t) \<and> len_in 1 100 (th_tenant t) \<and> len_in 1 100 (th_turn t)
     \<and> len_in 1 200 (th_owner t) \<and> actor_schema (th_actor t) \<and> content_schema (th_content t)
     \<and> attention_schema (th_attention t) \<and> context_schema (th_context t) \<and> provenance_schema (th_provenance t)
     \<and> length (th_edges t) \<le> 200 \<and> list_all edge_schema (th_edges t)"

definition check_thought :: "thought \<Rightarrow> thought res" where
  "check_thought t = (if thought_schema t then Inr t else Inl zod_error)"

section \<open>The enumerations\<close>

fun author_text :: "attention_author \<Rightarrow> string" where
  "author_text AuUser = ''user''" | "author_text AuFast = ''fast''" | "author_text AuSlow = ''slow''"
| "author_text AuPresenter = ''presenter''" | "author_text AuWorker = ''worker''" | "author_text AuSystem = ''system''"

fun scope_text :: "attention_scope \<Rightarrow> string" where
  "scope_text ScTurn = ''turn''" | "scope_text ScUser = ''user''" | "scope_text ScTenant = ''tenant''" | "scope_text ScGlobal = ''global''"

fun role_text :: "thought_role \<Rightarrow> string" where
  "role_text RoIntent = ''intent''" | "role_text RoObservation = ''observation''" | "role_text RoReasoning = ''reasoning''"
| "role_text RoResponse = ''response''" | "role_text RoAction = ''action''" | "role_text RoReflection = ''reflection''"
| "role_text RoDisplay = ''display''" | "role_text RoDelegation = ''delegation''" | "role_text RoCritic = ''critic''"
| "role_text RoVerifier = ''verifier''" | "role_text RoQuery = ''query''" | "role_text RoConfirmation = ''confirmation''"
| "role_text RoCorrection = ''correction''"

fun kind_text :: "thinker_kind \<Rightarrow> string" where
  "kind_text KdUser = ''user''" | "kind_text KdFastLlm = ''fast-llm''" | "kind_text KdSlowLlm = ''slow-llm''"
| "kind_text KdWorker = ''worker''" | "kind_text KdPresenter = ''presenter''" | "kind_text KdSystem = ''system''"
| "kind_text KdAgent = ''agent''"

fun edge_text :: "edge_kind \<Rightarrow> string" where
  "edge_text EkRefines = ''refines''" | "edge_text EkDecomposes = ''decomposes''" | "edge_text EkResolves = ''resolves''"
| "edge_text EkSynthesizes = ''synthesizes''" | "edge_text EkContradicts = ''contradicts''"
| "edge_text EkDependsOn = ''depends_on''" | "edge_text EkResponds = ''responds''" | "edge_text EkSupports = ''supports''"

definition "all_authors = [AuUser, AuFast, AuSlow, AuPresenter, AuWorker, AuSystem]"
definition "all_scopes = [ScTurn, ScUser, ScTenant, ScGlobal]"
definition "all_roles = [RoIntent, RoObservation, RoReasoning, RoResponse, RoAction, RoReflection, RoDisplay, RoDelegation,
  RoCritic, RoVerifier, RoQuery, RoConfirmation, RoCorrection]"
definition "all_kinds = [KdUser, KdFastLlm, KdSlowLlm, KdWorker, KdPresenter, KdSystem, KdAgent]"
definition "all_edges = [EkRefines, EkDecomposes, EkResolves, EkSynthesizes, EkContradicts, EkDependsOn, EkResponds, EkSupports]"

lemma enums_read [simp]:
  shows "as_enum (enum_of author_text all_authors) (JStr (author_text a)) = Some a"
    and "as_enum (enum_of scope_text all_scopes) (JStr (scope_text sc)) = Some sc"
    and "as_enum (enum_of role_text all_roles) (JStr (role_text ro)) = Some ro"
    and "as_enum (enum_of kind_text all_kinds) (JStr (kind_text kd)) = Some kd"
    and "as_enum (enum_of edge_text all_edges) (JStr (edge_text ek)) = Some ek"
  by (cases a; simp add: as_enum_def enum_of_def all_authors_def) (cases sc; simp add: as_enum_def enum_of_def all_scopes_def; fail
    | cases ro; simp add: as_enum_def enum_of_def all_roles_def; fail | cases kd; simp add: as_enum_def enum_of_def all_kinds_def; fail
    | cases ek; simp add: as_enum_def enum_of_def all_edges_def; fail)+

section \<open>The document\<close>

definition actor_row :: "thought_actor \<Rightarrow> json" where
  "actor_row a = JObj ([(''kind'', JStr (kind_text (ta_kind a))), (''id'', JStr (ta_id a))]
     @ present ''onBehalfOf'' JStr (ta_behalf a) @ present ''personaId'' JStr (ta_persona a))"

definition matched_row :: "matched_node \<Rightarrow> json" where
  "matched_row m = JObj ([(''node'', JStr (mn_node m)), (''weight'', JNum (mn_weight m)), (''reason'', JStr (mn_reason m))]
     @ present ''kind'' JStr (mn_kind m) @ [(''metadata'', JObj (mn_meta m))])"

definition ignored_row :: "ignored_node \<Rightarrow> json" where
  "ignored_row g = JObj ([(''node'', JStr (ig_node g)), (''reason'', JStr (ig_reason g))]
     @ present ''kind'' JStr (ig_kind g) @ [(''metadata'', JObj (ig_meta g))])"

definition attention_row :: "attention \<Rightarrow> json" where
  "attention_row v = JObj ([(''id'', JStr (av_id v)), (''author'', JStr (author_text (av_author v)))]
     @ present ''thoughtId'' JStr (av_thought v)
     @ [(''primary'', JStr (av_primary v)), (''secondary'', JArr (map JStr (av_secondary v))), (''query'', JStr (av_query v)),
        (''matched'', JArr (map matched_row (av_matched v))), (''ignored'', JArr (map ignored_row (av_ignored v))),
        (''intent'', JStr (av_intent v)), (''confidence'', JNum (av_confidence v)), (''scope'', JStr (scope_text (av_scope v))),
        (''timestamp'', JDate (av_time v)), (''metadata'', JObj (av_meta v))])"

definition edge_row :: "thought_edge \<Rightarrow> json" where
  "edge_row e = JObj [(''toThoughtId'', JStr (te_to e)), (''kind'', JStr (edge_text (te_kind e))),
     (''weight'', JNum (te_weight e)), (''confidence'', JNum (te_confidence e)), (''createdAt'', JDate (te_created e))]"

definition context_row :: "thought_context \<Rightarrow> json" where
  "context_row c = JObj [(''entities'', JArr (map JStr (tc_entities c))), (''policies'', JArr (map JStr (tc_policies c))),
     (''skills'', JArr (map JStr (tc_skills c))), (''priorThoughts'', JArr (map JStr (tc_prior c)))]"

definition provenance_row :: "provenance \<Rightarrow> json" where
  "provenance_row p = JObj ([(''source'', JStr (pv_source p)), (''timestamp'', JDate (pv_time p))]
     @ present ''parentId'' JStr (pv_parent p) @ present ''correlationId'' JStr (pv_correlation p))"

fun content_row :: "content \<Rightarrow> json" where
  "content_row (CText s) = JStr s"
| "content_row (CFields fs) = JObj fs"

definition thought_row :: "thought \<Rightarrow> json" where
  "thought_row t = JObj [(''id'', JStr (th_id t)), (''tenantId'', JStr (th_tenant t)), (''turnId'', JStr (th_turn t)),
     (''owner'', JStr (th_owner t)), (''actor'', actor_row (th_actor t)), (''role'', JStr (role_text (th_role t))),
     (''content'', content_row (th_content t)), (''attention'', attention_row (th_attention t)),
     (''context'', context_row (th_context t)), (''provenance'', provenance_row (th_provenance t)),
     (''edges'', JArr (map edge_row (th_edges t)))]"

section \<open>Parsing a document\<close>

definition read_actor :: "json \<Rightarrow> thought_actor option" where
  "read_actor j = 
    Option.bind (req (as_enum (enum_of kind_text all_kinds)) ''kind'' j) (\<lambda>k.     Option.bind (req as_text ''id'' j) (\<lambda>i.
    Option.bind (opt as_text ''onBehalfOf'' j) (\<lambda>b.     Option.bind (opt as_text ''personaId'' j) (\<lambda>p.
      Some \<lparr> ta_kind = k, ta_id = i, ta_behalf = b, ta_persona = p \<rparr>))))"

definition read_matched :: "json \<Rightarrow> matched_node option" where
  "read_matched j = (if \<not> strict_keys [''node'', ''weight'', ''reason'', ''kind'', ''metadata''] j then None else
    Option.bind (req as_text ''node'' j) (\<lambda>n.     Option.bind (req as_num ''weight'' j) (\<lambda>w.
    Option.bind (req as_text ''reason'' j) (\<lambda>r.     Option.bind (opt as_text ''kind'' j) (\<lambda>k.
    Option.bind (dflt [] as_fields ''metadata'' j) (\<lambda>m.
      Some \<lparr> mn_node = n, mn_weight = w, mn_reason = r, mn_kind = k, mn_meta = m \<rparr>))))))"

definition read_ignored :: "json \<Rightarrow> ignored_node option" where
  "read_ignored j = (if \<not> strict_keys [''node'', ''reason'', ''kind'', ''metadata''] j then None else
    Option.bind (req as_text ''node'' j) (\<lambda>n.     Option.bind (req as_text ''reason'' j) (\<lambda>r.
    Option.bind (opt as_text ''kind'' j) (\<lambda>k.     Option.bind (dflt [] as_fields ''metadata'' j) (\<lambda>m.
      Some \<lparr> ig_node = n, ig_reason = r, ig_kind = k, ig_meta = m \<rparr>)))))"

definition read_attention :: "json \<Rightarrow> attention option" where
  "read_attention j = (if \<not> strict_keys [''id'', ''author'', ''thoughtId'', ''primary'', ''secondary'', ''query'', ''matched'', ''ignored'', ''intent'', ''confidence'', ''scope'', ''timestamp'', ''metadata''] j then None else
    Option.bind (req as_text ''id'' j) (\<lambda>i.     Option.bind (req (as_enum (enum_of author_text all_authors)) ''author'' j) (\<lambda>a.
    Option.bind (opt as_text ''thoughtId'' j) (\<lambda>t.     Option.bind (req as_text ''primary'' j) (\<lambda>p.
    Option.bind (dflt [] as_texts ''secondary'' j) (\<lambda>s.     Option.bind (req as_text ''query'' j) (\<lambda>q.
    Option.bind (dflt [] (as_list read_matched) ''matched'' j) (\<lambda>m.     Option.bind (dflt [] (as_list read_ignored) ''ignored'' j) (\<lambda>g.
    Option.bind (req as_text ''intent'' j) (\<lambda>n.     Option.bind (req as_num ''confidence'' j) (\<lambda>c.
    Option.bind (dflt ScTurn (as_enum (enum_of scope_text all_scopes)) ''scope'' j) (\<lambda>e.     Option.bind (req as_date ''timestamp'' j) (\<lambda>d.
    Option.bind (dflt [] as_fields ''metadata'' j) (\<lambda>z.
      Some \<lparr> av_id = i, av_author = a, av_thought = t, av_primary = p, av_secondary = s, av_query = q, av_matched = m, av_ignored = g, av_intent = n, av_confidence = c, av_scope = e, av_time = d, av_meta = z \<rparr>))))))))))))))"

definition read_edge :: "json \<Rightarrow> thought_edge option" where
  "read_edge j = (if \<not> strict_keys [''toThoughtId'', ''kind'', ''weight'', ''confidence'', ''createdAt''] j then None else
    Option.bind (req as_text ''toThoughtId'' j) (\<lambda>t.     Option.bind (req (as_enum (enum_of edge_text all_edges)) ''kind'' j) (\<lambda>k.
    Option.bind (dflt 1 as_num ''weight'' j) (\<lambda>w.     Option.bind (dflt 1 as_num ''confidence'' j) (\<lambda>c.
    Option.bind (req as_date ''createdAt'' j) (\<lambda>d.
      Some \<lparr> te_to = t, te_kind = k, te_weight = w, te_confidence = c, te_created = d \<rparr>))))))"

definition read_context :: "json \<Rightarrow> thought_context option" where
  "read_context j = 
    Option.bind (dflt [] as_texts ''entities'' j) (\<lambda>e.     Option.bind (dflt [] as_texts ''policies'' j) (\<lambda>p.
    Option.bind (dflt [] as_texts ''skills'' j) (\<lambda>s.     Option.bind (dflt [] as_texts ''priorThoughts'' j) (\<lambda>t.
      Some \<lparr> tc_entities = e, tc_policies = p, tc_skills = s, tc_prior = t \<rparr>))))"

definition read_provenance :: "json \<Rightarrow> provenance option" where
  "read_provenance j = (if \<not> strict_keys [''source'', ''timestamp'', ''parentId'', ''correlationId''] j then None else
    Option.bind (req as_text ''source'' j) (\<lambda>s.     Option.bind (req as_date ''timestamp'' j) (\<lambda>t.
    Option.bind (opt as_text ''parentId'' j) (\<lambda>p.     Option.bind (opt as_text ''correlationId'' j) (\<lambda>c.
      Some \<lparr> pv_source = s, pv_time = t, pv_parent = p, pv_correlation = c \<rparr>)))))"

fun read_content :: "json \<Rightarrow> content option" where
  "read_content (JStr s) = Some (CText s)"
| "read_content (JObj fs) = Some (CFields fs)"
| "read_content _ = None"

definition empty_context :: thought_context where
  "empty_context = \<lparr> tc_entities = [], tc_policies = [], tc_skills = [], tc_prior = [] \<rparr>"

definition read_thought :: "json \<Rightarrow> thought option" where
  "read_thought j = (if \<not> strict_keys [''id'', ''tenantId'', ''turnId'', ''owner'', ''actor'', ''role'', ''content'', ''attention'', ''context'', ''provenance'', ''edges''] j then None else
    Option.bind (req as_text ''id'' j) (\<lambda>i.     Option.bind (req as_text ''tenantId'' j) (\<lambda>te.
    Option.bind (req as_text ''turnId'' j) (\<lambda>tu.     Option.bind (req as_text ''owner'' j) (\<lambda>ow.
    Option.bind (req read_actor ''actor'' j) (\<lambda>a.     Option.bind (req (as_enum (enum_of role_text all_roles)) ''role'' j) (\<lambda>r.
    Option.bind (req read_content ''content'' j) (\<lambda>c.     Option.bind (req read_attention ''attention'' j) (\<lambda>v.
    Option.bind (dflt empty_context read_context ''context'' j) (\<lambda>x.     Option.bind (req read_provenance ''provenance'' j) (\<lambda>p.
    Option.bind (dflt [] (as_list read_edge) ''edges'' j) (\<lambda>e.
      Some \<lparr> th_id = i, th_tenant = te, th_turn = tu, th_owner = ow, th_actor = a, th_role = r, th_content = c, th_attention = v, th_context = x, th_provenance = p, th_edges = e \<rparr>))))))))))))"

definition parse_thought :: "json \<Rightarrow> thought res" where
  "parse_thought j = (case read_thought j of None \<Rightarrow> Inl zod_error | Some t \<Rightarrow> check_thought t)"

section \<open>A written document is read back\<close>

lemma read_content_row [simp]: "read_content (content_row c) = Some c"
  by (cases c) simp_all

lemma read_actor_row [simp]: "read_actor (actor_row x) = Some x"
proof -
  have "req (as_enum (enum_of kind_text all_kinds)) ''kind'' (actor_row x) = Some (ta_kind x)"
    "req as_text ''id'' (actor_row x) = Some (ta_id x)"
    "opt as_text ''onBehalfOf'' (actor_row x) = Some (ta_behalf x)"
    "opt as_text ''personaId'' (actor_row x) = Some (ta_persona x)"
    unfolding actor_row_def by (rule opt_text_read req_read dflt_read, simp only: row_fields, simp split: option.split, (simp add: those_map_read; fail)?)+
  then show ?thesis by (simp add: read_actor_def)
qed

lemma read_matched_row [simp]: "read_matched (matched_row x) = Some x"
proof -
  have "req as_text ''node'' (matched_row x) = Some (mn_node x)"
    "req as_num ''weight'' (matched_row x) = Some (mn_weight x)"
    "req as_text ''reason'' (matched_row x) = Some (mn_reason x)"
    "opt as_text ''kind'' (matched_row x) = Some (mn_kind x)"
    "dflt [] as_fields ''metadata'' (matched_row x) = Some (mn_meta x)"
    unfolding matched_row_def by (rule opt_text_read req_read dflt_read, simp only: row_fields, simp split: option.split, (simp add: those_map_read; fail)?)+
  moreover have "strict_keys [''node'', ''weight'', ''reason'', ''kind'', ''metadata''] (matched_row x)"
    unfolding matched_row_def by (simp only: strict_fields) simp
  ultimately show ?thesis by (simp add: read_matched_def)
qed

lemma read_ignored_row [simp]: "read_ignored (ignored_row x) = Some x"
proof -
  have "req as_text ''node'' (ignored_row x) = Some (ig_node x)"
    "req as_text ''reason'' (ignored_row x) = Some (ig_reason x)"
    "opt as_text ''kind'' (ignored_row x) = Some (ig_kind x)"
    "dflt [] as_fields ''metadata'' (ignored_row x) = Some (ig_meta x)"
    unfolding ignored_row_def by (rule opt_text_read req_read dflt_read, simp only: row_fields, simp split: option.split, (simp add: those_map_read; fail)?)+
  moreover have "strict_keys [''node'', ''reason'', ''kind'', ''metadata''] (ignored_row x)"
    unfolding ignored_row_def by (simp only: strict_fields) simp
  ultimately show ?thesis by (simp add: read_ignored_def)
qed

lemma read_attention_row [simp]: "read_attention (attention_row x) = Some x"
proof -
  have "req as_text ''id'' (attention_row x) = Some (av_id x)"
    "req (as_enum (enum_of author_text all_authors)) ''author'' (attention_row x) = Some (av_author x)"
    "opt as_text ''thoughtId'' (attention_row x) = Some (av_thought x)"
    "req as_text ''primary'' (attention_row x) = Some (av_primary x)"
    "dflt [] as_texts ''secondary'' (attention_row x) = Some (av_secondary x)"
    "req as_text ''query'' (attention_row x) = Some (av_query x)"
    "dflt [] (as_list read_matched) ''matched'' (attention_row x) = Some (av_matched x)"
    "dflt [] (as_list read_ignored) ''ignored'' (attention_row x) = Some (av_ignored x)"
    "req as_text ''intent'' (attention_row x) = Some (av_intent x)"
    "req as_num ''confidence'' (attention_row x) = Some (av_confidence x)"
    "dflt ScTurn (as_enum (enum_of scope_text all_scopes)) ''scope'' (attention_row x) = Some (av_scope x)"
    "req as_date ''timestamp'' (attention_row x) = Some (av_time x)"
    "dflt [] as_fields ''metadata'' (attention_row x) = Some (av_meta x)"
    unfolding attention_row_def by (rule opt_text_read req_read dflt_read, simp only: row_fields, simp split: option.split, (simp add: those_map_read; fail)?)+
  moreover have "strict_keys [''id'', ''author'', ''thoughtId'', ''primary'', ''secondary'', ''query'', ''matched'', ''ignored'', ''intent'', ''confidence'', ''scope'', ''timestamp'', ''metadata''] (attention_row x)"
    unfolding attention_row_def by (simp only: strict_fields) simp
  ultimately show ?thesis by (simp add: read_attention_def)
qed

lemma read_edge_row [simp]: "read_edge (edge_row x) = Some x"
proof -
  have "req as_text ''toThoughtId'' (edge_row x) = Some (te_to x)"
    "req (as_enum (enum_of edge_text all_edges)) ''kind'' (edge_row x) = Some (te_kind x)"
    "dflt 1 as_num ''weight'' (edge_row x) = Some (te_weight x)"
    "dflt 1 as_num ''confidence'' (edge_row x) = Some (te_confidence x)"
    "req as_date ''createdAt'' (edge_row x) = Some (te_created x)"
    unfolding edge_row_def by (rule opt_text_read req_read dflt_read, simp only: row_fields, simp split: option.split, (simp add: those_map_read; fail)?)+
  moreover have "strict_keys [''toThoughtId'', ''kind'', ''weight'', ''confidence'', ''createdAt''] (edge_row x)"
    unfolding edge_row_def by (simp only: strict_fields) simp
  ultimately show ?thesis by (simp add: read_edge_def)
qed

lemma read_context_row [simp]: "read_context (context_row x) = Some x"
proof -
  have "dflt [] as_texts ''entities'' (context_row x) = Some (tc_entities x)"
    "dflt [] as_texts ''policies'' (context_row x) = Some (tc_policies x)"
    "dflt [] as_texts ''skills'' (context_row x) = Some (tc_skills x)"
    "dflt [] as_texts ''priorThoughts'' (context_row x) = Some (tc_prior x)"
    unfolding context_row_def by (rule opt_text_read req_read dflt_read, simp only: row_fields, simp split: option.split, (simp add: those_map_read; fail)?)+
  then show ?thesis by (simp add: read_context_def)
qed

lemma read_provenance_row [simp]: "read_provenance (provenance_row x) = Some x"
proof -
  have "req as_text ''source'' (provenance_row x) = Some (pv_source x)"
    "req as_date ''timestamp'' (provenance_row x) = Some (pv_time x)"
    "opt as_text ''parentId'' (provenance_row x) = Some (pv_parent x)"
    "opt as_text ''correlationId'' (provenance_row x) = Some (pv_correlation x)"
    unfolding provenance_row_def by (rule opt_text_read req_read dflt_read, simp only: row_fields, simp split: option.split, (simp add: those_map_read; fail)?)+
  moreover have "strict_keys [''source'', ''timestamp'', ''parentId'', ''correlationId''] (provenance_row x)"
    unfolding provenance_row_def by (simp only: strict_fields) simp
  ultimately show ?thesis by (simp add: read_provenance_def)
qed

lemma read_thought_row [simp]: "read_thought (thought_row x) = Some x"
proof -
  have "req as_text ''id'' (thought_row x) = Some (th_id x)"
    "req as_text ''tenantId'' (thought_row x) = Some (th_tenant x)"
    "req as_text ''turnId'' (thought_row x) = Some (th_turn x)"
    "req as_text ''owner'' (thought_row x) = Some (th_owner x)"
    "req read_actor ''actor'' (thought_row x) = Some (th_actor x)"
    "req (as_enum (enum_of role_text all_roles)) ''role'' (thought_row x) = Some (th_role x)"
    "req read_content ''content'' (thought_row x) = Some (th_content x)"
    "req read_attention ''attention'' (thought_row x) = Some (th_attention x)"
    "dflt empty_context read_context ''context'' (thought_row x) = Some (th_context x)"
    "req read_provenance ''provenance'' (thought_row x) = Some (th_provenance x)"
    "dflt [] (as_list read_edge) ''edges'' (thought_row x) = Some (th_edges x)"
    unfolding thought_row_def by (rule opt_text_read req_read dflt_read, simp only: row_fields, simp split: option.split, (simp add: those_map_read; fail)?)+
  moreover have "strict_keys [''id'', ''tenantId'', ''turnId'', ''owner'', ''actor'', ''role'', ''content'', ''attention'', ''context'', ''provenance'', ''edges''] (thought_row x)"
    unfolding thought_row_def by (simp only: strict_fields) simp
  ultimately show ?thesis by (simp add: read_thought_def)
qed

lemma parse_thought_row: "parse_thought (thought_row t) = check_thought t"
  by (simp add: parse_thought_def)

lemma check_thought_SomeD: "check_thought t = Inr p \<Longrightarrow> p = t \<and> thought_schema t"
  by (simp add: check_thought_def split: if_splits)

lemma jid_thought_row [simp]: "jid (thought_row t) = th_id t"
  by (simp add: jid_def jtext_def thought_row_def)

end
