(* ===== verification/Attention.thy ===== *)
theory Attention
  imports Thoughts
begin

text \<open>
  Scoring of attention vectors (apps/server/src/kernel/graph/attention.ts) and the rules that decide
  whether a thought survives its turn (rules.ts).

  Numbers are rationals.  A \<open>Record\<close> is an association list.  The properties: the overlap of two
  vectors is a symmetric number between 0 and 1, and the chain of rules is the decision table
  \<open>rule_table\<close>, in which two of the rules are never the one that applies.
\<close>

section \<open>Scores\<close>

definition top_matched :: "nat \<Rightarrow> attention \<Rightarrow> matched_node list" where
  "top_matched n v = take n (sort_key (\<lambda>m. - mn_weight m) (av_matched v))"

definition total_attention :: "attention \<Rightarrow> rat" where
  "total_attention v = sum_list (map mn_weight (av_matched v))"

definition normalized_weights :: "attention \<Rightarrow> (string \<times> rat) list" where
  "normalized_weights v = (if total_attention v \<le> 0 then []
     else fold (\<lambda>m. AList.update (mn_node m) (mn_weight m / total_attention v)) (av_matched v) [])"

definition match_score :: "attention \<Rightarrow> string \<Rightarrow> rat" where
  "match_score v node = (case find (\<lambda>m. mn_node m = node) (av_matched v) of None \<Rightarrow> 0 | Some m \<Rightarrow> mn_weight m)"

definition is_focused_on :: "attention \<Rightarrow> string \<Rightarrow> rat \<Rightarrow> bool" where
  "is_focused_on v node threshold \<longleftrightarrow> match_score v node \<ge> threshold"

definition weight_at :: "(string \<times> rat) list \<Rightarrow> string \<Rightarrow> rat" where
  "weight_at m k = (case map_of m k of None \<Rightarrow> 0 | Some w \<Rightarrow> w)"

definition attention_overlap :: "attention \<Rightarrow> attention \<Rightarrow> rat" where
  "attention_overlap a b =
     (let wa = normalized_weights a; wb = normalized_weights b;
          all = remdups (map fst wa @ map fst wb);
          num = sum_list (map (\<lambda>k. min (weight_at wa k) (weight_at wb k)) all);
          den = sum_list (map (\<lambda>k. max (weight_at wa k) (weight_at wb k)) all)
      in if wa = [] \<or> wb = [] then 0 else if den > 0 then num / den else 0)"

definition divergence :: "attention \<Rightarrow> attention \<Rightarrow> rat" where
  "divergence a b = 1 - attention_overlap a b"

definition to_metadata :: "attention \<Rightarrow> json" where
  "to_metadata v = JObj [(''attention'', JObj [(''id'', JStr (av_id v)), (''author'', JStr (author_text (av_author v))),
     (''primary'', JStr (av_primary v)), (''secondary'', JArr (map JStr (av_secondary v))), (''query'', JStr (av_query v)),
     (''intent'', JStr (av_intent v)), (''confidence'', JNum (av_confidence v)), (''scope'', JStr (scope_text (av_scope v))),
     (''timestamp'', JDate (av_time v)), (''matched'', JArr (map matched_row (av_matched v))),
     (''ignored'', JArr (map ignored_row (av_ignored v))), (''metadata'', JObj (av_meta v))])]"

text \<open>A value that is no object has no attention; an object without the field \<open>attention\<close>, or with a
  null there, is taken itself.\<close>

definition from_metadata :: "json \<Rightarrow> attention option" where
  "from_metadata j = (if \<not> (is_obj j \<or> (case j of JArr _ \<Rightarrow> True | _ \<Rightarrow> False)) then None
     else (let payload = (case jget j ''attention'' of None \<Rightarrow> j | Some JNull \<Rightarrow> j | Some v \<Rightarrow> v)
       in case read_attention payload of None \<Rightarrow> None
          | Some v \<Rightarrow> if attention_schema v then Some v else None))"

section \<open>Rules\<close>

definition has_content :: "thought \<Rightarrow> bool" where
  "has_content t = (case th_content t of CText s \<Rightarrow> trim s \<noteq> [] | CFields fs \<Rightarrow> fs \<noteq> [])"

definition survivor_roles :: "thought_role list" where
  "survivor_roles = [RoObservation, RoAction, RoResponse, RoReflection, RoConfirmation, RoCorrection, RoCritic, RoVerifier]"

type_synonym rule = "string \<times> (thought \<Rightarrow> bool)"

definition promotion_rules :: "rule list" where
  "promotion_rules = [
     (''survive_actionable_role_with_content'', \<lambda>t. has_content t \<and> th_role t \<in> set survivor_roles),
     (''survive_confirmation_with_target'', \<lambda>t. th_role t = RoConfirmation \<and> has_content t \<and> av_matched (th_attention t) \<noteq> []),
     (''survive_correction_with_target'', \<lambda>t. th_role t = RoCorrection \<and> has_content t \<and> av_matched (th_attention t) \<noteq> []),
     (''survive_high_confidence_primary'', \<lambda>t. has_content t \<and> av_confidence (th_attention t) \<ge> 9 / 10
        \<and> av_primary (th_attention t) \<in> set (map mn_node (av_matched (th_attention t)))),
     (''discard_delegation_internal'', \<lambda>t. th_role t = RoDelegation),
     (''discard_empty'', \<lambda>t. \<not> has_content t),
     (''survive_high_attention_focus'', \<lambda>t. has_content t
        \<and> list_ex (\<lambda>m. is_focused_on (th_attention t) (mn_node m) (7 / 10)) (top_matched 1 (th_attention t))),
     (''discard_reasoning_noise'', \<lambda>t. th_role t = RoReasoning \<and> av_matched (th_attention t) = [])]"

type_synonym outcome = "string \<times> bool"

definition classify :: "thought \<Rightarrow> outcome option" where
  "classify t = map_option (\<lambda>r. (fst r, str_starts ''survive_'' (fst r))) (find (\<lambda>r. snd r t) promotion_rules)"

text \<open>The tenant may be missing; a missing or empty one allows every thought.\<close>

definition check_tenant :: "thought \<Rightarrow> string option \<Rightarrow> string option" where
  "check_tenant t expected = (case expected of
     None \<Rightarrow> None
   | Some e \<Rightarrow> if e = [] \<or> th_tenant t = e then None
       else Some (''thought '' @ th_id t @ '' pertenece a tenant '' @ th_tenant t @ '', esperado '' @ e))"

definition classify_with_tenant :: "thought \<Rightarrow> string option \<Rightarrow> outcome option" where
  "classify_with_tenant t expected = (case check_tenant t expected of
     Some reason \<Rightarrow> Some (''discard_tenant_mismatch'', False)
   | None \<Rightarrow> classify t)"

section \<open>Lemmas\<close>

lemma weights_map_of:
  assumes "distinct (map mn_node ms)"
  shows "map_of (fold (\<lambda>m. AList.update (mn_node m) (f m)) ms acc) k =
    (case find (\<lambda>m. mn_node m = k) ms of None \<Rightarrow> map_of acc k | Some m \<Rightarrow> Some (f m))"
  using assms
proof (induction ms arbitrary: acc)
  case (Cons m ms)
  have "find (\<lambda>m'. mn_node m' = mn_node m) ms = None"
    using Cons.prems unfolding find_None_iff by (metis distinct.simps(2) image_eqI list.simps(9) set_map)
  then show ?case using Cons by (auto split: option.split)
qed simp

lemma find_node: "\<lbrakk> distinct (map mn_node ms); m \<in> set ms \<rbrakk> \<Longrightarrow> find (\<lambda>x. mn_node x = mn_node m) ms = Some m"
  by (induction ms) auto

lemma keys_weights: "fst ` set (fold (\<lambda>m. AList.update (mn_node m) (f m)) ms acc) = fst ` set acc \<union> mn_node ` set ms"
  by (induction ms arbitrary: acc) (auto simp: keys_update)

lemma weights_values:
  "(k, w) \<in> set (fold (\<lambda>m. AList.update (mn_node m) (f m)) ms acc) \<Longrightarrow> (k, w) \<in> set acc \<or> (\<exists>m\<in>set ms. w = f m)"
proof (induction ms arbitrary: acc)
  case (Cons m ms)
  then show ?case using set_update_subset [of "mn_node m" "f m" acc] by fastforce
qed simp

text \<open>Weights are not negative.\<close>

definition weights_ok :: "attention \<Rightarrow> bool" where
  "weights_ok v \<longleftrightarrow> (\<forall>m\<in>set (av_matched v). 0 \<le> mn_weight m)"

lemma schema_weights: "attention_schema v \<Longrightarrow> weights_ok v"
  by (auto simp: attention_schema_def weights_ok_def list_all_iff matched_schema_def unit_interval_def)

lemma weight_at_nonneg: "weights_ok v \<Longrightarrow> 0 \<le> weight_at (normalized_weights v) k"
proof (cases "map_of (normalized_weights v) k")
  case (Some w)
  assume ok: "weights_ok v"
  have t: "\<not> total_attention v \<le> 0" using Some by (auto simp: normalized_weights_def split: if_splits)
  have "(k, w) \<in> set (normalized_weights v)" using Some by (rule map_of_SomeD)
  then obtain m where "m \<in> set (av_matched v)" "w = mn_weight m / total_attention v"
    using t weights_values [of k w "\<lambda>m. mn_weight m / total_attention v" "av_matched v" "[]"] by (auto simp: normalized_weights_def)
  then show ?thesis using Some ok t by (auto simp: weight_at_def weights_ok_def)
qed (simp add: weight_at_def)

lemma sum_remdups: "sum_list (map f (remdups xs)) = (\<Sum>x\<in>set xs. f x)"
  by (simp add: sum_list_distinct_conv_sum_set)

lemma overlap_sums:
  "attention_overlap a b =
     (let wa = normalized_weights a; wb = normalized_weights b; K = fst ` set wa \<union> fst ` set wb;
          den = (\<Sum>k\<in>K. max (weight_at wa k) (weight_at wb k))
      in if wa = [] \<or> wb = [] then 0 else if den > 0 then (\<Sum>k\<in>K. min (weight_at wa k) (weight_at wb k)) / den else 0)"
  by (simp only: attention_overlap_def Let_def sum_remdups set_append set_map)

section \<open>Properties\<close>

text \<open>The overlap of two attention vectors that the schema accepts is a number between 0 and 1 and does
  not depend on their order, so \<open>divergence\<close> lies between 0 and 1 too; a vector overlaps itself
  completely when some node has a weight.\<close>

theorem overlap_is_similarity:
  assumes "attention_schema a" "attention_schema b"
  shows "0 \<le> attention_overlap a b \<and> attention_overlap a b \<le> 1 \<and> attention_overlap b a = attention_overlap a b
    \<and> 0 \<le> divergence a b \<and> divergence a b \<le> 1
    \<and> (if total_attention a > 0 then attention_overlap a a = 1 else attention_overlap a a = 0)"
proof -
  let ?wa = "weight_at (normalized_weights a)" and ?wb = "weight_at (normalized_weights b)"
  let ?K = "fst ` set (normalized_weights a) \<union> fst ` set (normalized_weights b)"
  have nn: "0 \<le> ?wa k" "0 \<le> ?wb k" for k using weight_at_nonneg assms schema_weights by blast+
  have le: "(\<Sum>k\<in>?K. min (?wa k) (?wb k)) \<le> (\<Sum>k\<in>?K. max (?wa k) (?wb k))" by (intro sum_mono) simp
  have ge: "0 \<le> (\<Sum>k\<in>?K. min (?wa k) (?wb k))" by (intro sum_nonneg) (simp add: nn)
  have bounds: "0 \<le> attention_overlap a b" "attention_overlap a b \<le> 1"
    using le ge by (auto simp: overlap_sums Let_def divide_le_eq_1)
  have sym: "attention_overlap b a = attention_overlap a b"
    by (simp add: overlap_sums Let_def Un_commute min.commute max.commute disj_commute)
  have self: "if total_attention a > 0 then attention_overlap a a = 1 else attention_overlap a a = 0"
  proof (cases "total_attention a > 0")
    case True
    let ?F = "fst ` set (normalized_weights a)"
    have ne: "av_matched a \<noteq> []" using True by (auto simp: total_attention_def)
    have F: "?F = mn_node ` set (av_matched a)"
      using True keys_weights [of "\<lambda>m. mn_weight m / total_attention a" "av_matched a" "[]"] by (simp add: normalized_weights_def)
    then have "normalized_weights a \<noteq> []" using ne by auto
    obtain m where m: "m \<in> set (av_matched a)" "0 < mn_weight m"
    proof (rule ccontr)
      assume "\<not> thesis"
      then have "\<forall>m\<in>set (av_matched a). mn_weight m = 0"
        using that schema_weights [OF assms(1)] unfolding weights_ok_def by (meson dual_order.order_iff_strict)
      then have "total_attention a = 0" by (simp add: total_attention_def cong: map_cong)
      then show False using True by simp
    qed
    have "distinct (map mn_node (av_matched a))" using assms(1) by (simp add: attention_schema_def)
    moreover from find_node [OF this m(1)] have "find (\<lambda>x. mn_node x = mn_node m) (av_matched a) = Some m" .
    ultimately have "map_of (normalized_weights a) (mn_node m) = Some (mn_weight m / total_attention a)"
      using True by (simp add: normalized_weights_def weights_map_of)
    then have "0 < ?wa (mn_node m)" using True m(2) by (simp add: weight_at_def)
    moreover have "mn_node m \<in> ?F" using F m(1) by simp
    ultimately have "0 < (\<Sum>k\<in>?F. ?wa k)" using nn(1) by (intro sum_pos2 [where i = "mn_node m"]) auto
    then show ?thesis using True \<open>normalized_weights a \<noteq> []\<close> by (simp add: overlap_sums Let_def)
  next
    case False
    then show ?thesis by (simp add: overlap_sums normalized_weights_def Let_def)
  qed
  show ?thesis using bounds sym self by (simp add: divergence_def)
qed

abbreviation ex_vector :: attention where
  "ex_vector \<equiv> \<lparr> av_id = ''v'', av_author = AuUser, av_thought = None, av_primary = ''p'', av_secondary = [], av_query = ''q'',
     av_matched = [\<lparr> mn_node = ''n'', mn_weight = 1 / 2, mn_reason = ''r'', mn_kind = None, mn_meta = [] \<rparr>],
     av_ignored = [], av_intent = ''i'', av_confidence = 1, av_scope = ScTurn, av_time = 0, av_meta = [] \<rparr>"

theorem overlap_is_similarity_witness:
  "attention_overlap ex_vector (ex_vector\<lparr> av_matched := [] \<rparr>) \<le> 1 \<and> attention_overlap ex_vector ex_vector = 1"
proof -
  have "attention_schema ex_vector" "attention_schema (ex_vector\<lparr> av_matched := [] \<rparr>)"
    by (simp_all add: attention_schema_def len_in_def texts_max_def matched_schema_def unit_interval_def opt_max_def)
  moreover have "total_attention ex_vector > 0" by (simp add: total_attention_def)
  ultimately show ?thesis using overlap_is_similarity [of ex_vector "ex_vector\<lparr> av_matched := [] \<rparr>"] by presburger
qed

text \<open>What the chain of rules comes to.  Roles decide first; of the other thoughts an empty one is
  discarded, delegation is discarded unless the attention is sure of its primary node, a thought
  whose heaviest match weighs enough survives, reasoning without a match is noise, and no rule
  speaks of the rest.\<close>

definition rule_table :: "thought \<Rightarrow> outcome option" where
  "rule_table t = (let v = th_attention t;
       sure = 9 / 10 \<le> av_confidence v \<and> av_primary v \<in> set (map mn_node (av_matched v));
       focused = (\<exists>m\<in>set (av_matched v). 7 / 10 \<le> mn_weight m) in
     if \<not> has_content t then (if th_role t = RoDelegation then Some (''discard_delegation_internal'', False) else Some (''discard_empty'', False))
     else if th_role t \<in> set survivor_roles then Some (''survive_actionable_role_with_content'', True)
     else if sure then Some (''survive_high_confidence_primary'', True)
     else if th_role t = RoDelegation then Some (''discard_delegation_internal'', False)
     else if focused then Some (''survive_high_attention_focus'', True)
     else if th_role t = RoReasoning \<and> av_matched v = [] then Some (''discard_reasoning_noise'', False)
     else None)"

lemma heaviest_first:
  assumes "distinct (map mn_node (av_matched v))"
  shows "list_ex (\<lambda>m. is_focused_on v (mn_node m) w) (top_matched 1 v) \<longleftrightarrow> (\<exists>m\<in>set (av_matched v). w \<le> mn_weight m)"
proof (cases "sort_key (\<lambda>m. - mn_weight m) (av_matched v)")
  case Nil then show ?thesis by (simp add: top_matched_def) (metis empty_iff list.set(1) set_sort)
next
  case (Cons m ms)
  have set: "set (av_matched v) = insert m (set ms)" using Cons by (metis list.simps(15) set_sort)
  have "sorted (map (\<lambda>m. - mn_weight m) (m # ms))" by (metis Cons sorted_sort_key)
  then have max: "\<forall>x\<in>set (av_matched v). mn_weight x \<le> mn_weight m" using set by auto
  have "find (\<lambda>x. mn_node x = mn_node m) (av_matched v) = Some m"
    using set by (intro find_node [OF assms]) simp
  then have "match_score v (mn_node m) = mn_weight m" by (simp add: match_score_def)
  then show ?thesis using Cons set max by (auto simp: top_matched_def is_focused_on_def intro: order_trans)
qed

text \<open>For a thought that the schema accepts, the eight rules applied in order give exactly the decision
  table; in particular \<open>survive_confirmation_with_target\<close> and \<open>survive_correction_with_target\<close> are
  never the rule that applies, so a confirmation or correction without any matched node survives.\<close>

theorem classify_is_table:
  assumes "thought_schema t"
  shows "classify t = rule_table t"
proof -
  have d: "distinct (map mn_node (av_matched (th_attention t)))"
    using assms by (simp add: thought_schema_def attention_schema_def)
  have h: "list_ex (\<lambda>m. is_focused_on (th_attention t) (mn_node m) (7 / 10)) (top_matched (Suc 0) (th_attention t))
      \<longleftrightarrow> (\<exists>m\<in>set (av_matched (th_attention t)). 7 \<le> mn_weight m * 10)"
    using heaviest_first [OF d, of "7 / 10"] by simp
  show ?thesis
    by (cases "has_content t"; cases "th_role t")
      (simp_all add: classify_def promotion_rules_def rule_table_def survivor_roles_def str_starts_def Let_def h)
qed

theorem classify_is_table_witness:
  "classify \<lparr> th_id = ''h'', th_tenant = ''te'', th_turn = ''t1'', th_owner = ''ow'',
     th_actor = \<lparr> ta_kind = KdUser, ta_id = ''a'', ta_behalf = None, ta_persona = None \<rparr>, th_role = RoConfirmation,
     th_content = CText ''yes'', th_attention = ex_vector\<lparr> av_matched := [] \<rparr>, th_context = empty_context,
     th_provenance = \<lparr> pv_source = ''s'', pv_time = 0, pv_parent = None, pv_correlation = None \<rparr>, th_edges = [] \<rparr>
   = Some (''survive_actionable_role_with_content'', True)" (is "classify ?t = _")
proof -
  have "thought_schema ?t"
    by (simp add: thought_schema_def len_in_def actor_schema_def opt_max_def content_schema_def attention_schema_def
        texts_max_def unit_interval_def context_schema_def empty_context_def provenance_schema_def)
  moreover have "has_content ?t" by (simp add: has_content_def trim_def is_blank_def)
  ultimately show ?thesis using classify_is_table [of ?t] by (simp add: rule_table_def survivor_roles_def Let_def)
qed

end
