(* ===== verification/Promote.thy ===== *)
theory Promote
  imports Attention
begin

text \<open>
  What becomes of a turn's thoughts: consolidation (apps/server/src/kernel/graph/consolidate.ts), which
  groups duplicates and finds textual negations, and the promoter (promote.ts), which classifies each
  thought, gives the survivors a destination and starts the writes.

  SHA-256 and \<open>JSON.stringify\<close> are arguments (\<open>sha\<close>, \<open>stringify\<close>).  The writes of the promoter are not
  awaited; they are its list of effects.
\<close>

section \<open>Normal forms of content\<close>

text \<open>\<open>toLowerCase\<close> on the characters up to code 255.\<close>

definition lower_char :: "char \<Rightarrow> char" where
  "lower_char c = (let n = of_char c :: nat in
     if (65 \<le> n \<and> n \<le> 90) \<or> (192 \<le> n \<and> n \<le> 222 \<and> n \<noteq> 215) then char_of (n + 32) else c)"

text \<open>\<open>replace(/\s+/g, " ")\<close>.\<close>

fun squeeze :: "string \<Rightarrow> string" where
  "squeeze [] = []"
| "squeeze [c] = [if is_blank c then CHR '' '' else c]"
| "squeeze (c # d # cs) = (if is_blank c \<and> is_blank d then squeeze (d # cs)
     else (if is_blank c then CHR '' '' else c) # squeeze (d # cs))"

definition normal_text :: "string \<Rightarrow> string" where
  "normal_text s = squeeze (map lower_char (trim s))"

definition normal_content :: "((string \<times> json) list \<Rightarrow> string) \<Rightarrow> content \<Rightarrow> string" where
  "normal_content stringify c = (case c of CText s \<Rightarrow> normal_text s | CFields fs \<Rightarrow> stringify fs)"

definition content_key :: "(string \<Rightarrow> string) \<Rightarrow> ((string \<times> json) list \<Rightarrow> string) \<Rightarrow> thought \<Rightarrow> string" where
  "content_key sha stringify t = take 32 (sha (role_text (th_role t) @ '':'' @ kind_text (ta_kind (th_actor t))
     @ '':'' @ normal_content stringify (th_content t)))"

definition strip_final_punctuation :: "string \<Rightarrow> string" where
  "strip_final_punctuation s = trim (rev (dropWhile (\<lambda>c. c \<in> set ''.,;:!?'') (rev s)))"

section \<open>Negations\<close>

definition negation_prefixes :: "string list" where
  "negation_prefixes = [''no '', ''not '', ''sin '', ''nunca '']"

definition negation_reason :: "string \<Rightarrow> string \<Rightarrow> string" where
  "negation_reason a b = ''negacion explicita: '' @ [CHR 0x22] @ a @ [CHR 0x22] @ '' vs '' @ [CHR 0x22] @ b @ [CHR 0x22]"

fun negation_by :: "string list \<Rightarrow> string \<Rightarrow> string \<Rightarrow> string option" where
  "negation_by [] ca cb = None"
| "negation_by (p # ps) ca cb = (if ca = p @ cb then Some (negation_reason ca cb)
     else if cb = p @ ca then Some (negation_reason cb ca) else negation_by ps ca cb)"

definition is_negation_pair :: "thought \<Rightarrow> thought \<Rightarrow> string option" where
  "is_negation_pair a b = (if th_role a \<noteq> th_role b then None
     else case (th_content a, th_content b) of
       (CText x, CText y) \<Rightarrow>
         (let ca = strip_final_punctuation (normal_text x); cb = strip_final_punctuation (normal_text y)
          in if ca = [] \<or> cb = [] then None else if ca = cb then None else negation_by negation_prefixes ca cb)
     | _ \<Rightarrow> None)"

section \<open>Consolidation\<close>

record dup_group =
  dg_key :: string
  dg_ids :: "string list"
  dg_survivor :: string
  dg_discarded :: "string list"
  dg_tenant :: string

record contradiction =
  ct_a :: string
  ct_b :: string
  ct_reason :: string
  ct_tenant :: string

record consolidation =
  cs_groups :: "dup_group list"
  cs_negations :: "contradiction list"
  cs_reason :: string
  cs_tenants :: "string list"

text \<open>Lists by key, in the order in which the keys first occur.\<close>

definition group_add :: "('a \<Rightarrow> string) \<Rightarrow> 'a \<Rightarrow> (string \<times> 'a list) list \<Rightarrow> (string \<times> 'a list) list" where
  "group_add f x m = AList.update (f x) ((case map_of m (f x) of None \<Rightarrow> [] | Some l \<Rightarrow> l) @ [x]) m"

definition group_by :: "('a \<Rightarrow> string) \<Rightarrow> 'a list \<Rightarrow> (string \<times> 'a list) list" where
  "group_by f xs = fold (group_add f) xs []"

definition dup_groups :: "(thought \<Rightarrow> string) \<Rightarrow> string \<Rightarrow> thought list \<Rightarrow> dup_group list" where
  "dup_groups key tenant ts = map (\<lambda>(k, l). \<lparr> dg_key = k, dg_ids = map th_id l, dg_survivor = th_id (hd l),
       dg_discarded = map th_id (tl l), dg_tenant = tenant \<rparr>)
     (filter (\<lambda>(k, l). 2 \<le> length l) (group_by key ts))"

text \<open>At most 200 thoughts of a tenant are compared with each other.\<close>

definition cmp_list :: "thought list \<Rightarrow> thought list" where
  "cmp_list ts = (let n = length ts; step = (n + 199) div 200 in
     if n > 200 then take 200 (map snd (filter (\<lambda>(i, t). i mod step = 0) (enumerate 0 (sort_key th_id ts)))) else ts)"

fun later_pairs :: "'a list \<Rightarrow> ('a \<times> 'a) list" where
  "later_pairs [] = []"
| "later_pairs (x # xs) = map (Pair x) xs @ later_pairs xs"

definition negations :: "string \<Rightarrow> thought list \<Rightarrow> contradiction list" where
  "negations tenant ts = List.map_filter (\<lambda>(a, b). map_option (\<lambda>r. \<lparr> ct_a = th_id a, ct_b = th_id b, ct_reason = r,
     ct_tenant = tenant \<rparr>) (is_negation_pair a b)) (later_pairs (cmp_list ts))"

definition consolidate :: "(thought \<Rightarrow> string) \<Rightarrow> thought list \<Rightarrow> consolidation" where
  "consolidate key ts = (let m = group_by th_tenant ts;
       groups = concat (map (\<lambda>(te, l). dup_groups key te l) m);
       negs = concat (map (\<lambda>(te, l). negations te l) m)
     in \<lparr> cs_groups = groups, cs_negations = negs,
          cs_reason = ''heuristica determinista: '' @ nat_text (length groups) @ '' grupos de duplicados, ''
            @ nat_text (length negs) @ '' pares con negacion explicita en '' @ nat_text (length m) @ '' tenant(s)'',
          cs_tenants = map fst m \<rparr>)"

section \<open>Promotion\<close>

datatype destination = ToResponse | ToMemory | ToGraph | ToAudit | ToDiscard

fun classify_destination :: "thought_role \<Rightarrow> destination" where
  "classify_destination RoResponse = ToResponse"
| "classify_destination RoConfirmation = ToResponse"
| "classify_destination RoCorrection = ToResponse"
| "classify_destination RoObservation = ToMemory"
| "classify_destination RoReflection = ToMemory"
| "classify_destination RoAction = ToGraph"
| "classify_destination RoCritic = ToAudit"
| "classify_destination RoVerifier = ToAudit"
| "classify_destination RoIntent = ToAudit"
| "classify_destination RoReasoning = ToDiscard"
| "classify_destination RoDelegation = ToDiscard"
| "classify_destination RoDisplay = ToDiscard"
| "classify_destination RoQuery = ToDiscard"

record promo_decision =
  pd_thought :: string
  pd_rule :: string
  pd_survives :: bool
  pd_dest :: destination

text \<open>The lists that the loop over the thoughts fills.\<close>

record promo =
  pm_counts :: "(thought_role \<times> nat) list"
  pm_survivors :: "string list"
  pm_discarded :: "string list"
  pm_decisions :: "promo_decision list"
  pm_response :: "string list"
  pm_memory :: "string list"
  pm_graph :: "string list"
  pm_audit :: "string list"

definition empty_promo :: promo where
  "empty_promo = \<lparr> pm_counts = map (\<lambda>r. (r, 0)) all_roles, pm_survivors = [], pm_discarded = [], pm_decisions = [],
     pm_response = [], pm_memory = [], pm_graph = [], pm_audit = [] \<rparr>"

definition count_role :: "thought_role \<Rightarrow> (thought_role \<times> nat) list \<Rightarrow> (thought_role \<times> nat) list" where
  "count_role r m = AList.update r (Suc (case map_of m r of None \<Rightarrow> 0 | Some n \<Rightarrow> n)) m"

definition to_dest :: "destination \<Rightarrow> string \<Rightarrow> promo \<Rightarrow> promo" where
  "to_dest d i p = (case d of
     ToResponse \<Rightarrow> p\<lparr> pm_response := pm_response p @ [i] \<rparr>
   | ToMemory \<Rightarrow> p\<lparr> pm_memory := pm_memory p @ [i] \<rparr>
   | ToGraph \<Rightarrow> p\<lparr> pm_graph := pm_graph p @ [i] \<rparr>
   | ToAudit \<Rightarrow> p\<lparr> pm_audit := pm_audit p @ [i] \<rparr>
   | ToDiscard \<Rightarrow> p)"

definition decision :: "string option \<Rightarrow> thought \<Rightarrow> promo_decision" where
  "decision tenant t = (case classify_with_tenant t tenant of
     None \<Rightarrow> \<lparr> pd_thought = th_id t, pd_rule = ''no_rule_matched'', pd_survives = False, pd_dest = ToDiscard \<rparr>
   | Some (r, s) \<Rightarrow> \<lparr> pd_thought = th_id t, pd_rule = r, pd_survives = s,
       pd_dest = if s then classify_destination (th_role t) else ToDiscard \<rparr>)"

definition promo_step :: "string option \<Rightarrow> thought \<Rightarrow> promo \<Rightarrow> promo" where
  "promo_step tenant t p = (let d = decision tenant t;
       p' = p\<lparr> pm_counts := count_role (th_role t) (pm_counts p), pm_decisions := pm_decisions p @ [d] \<rparr>
     in if pd_survives d then to_dest (pd_dest d) (th_id t) (p'\<lparr> pm_survivors := pm_survivors p @ [th_id t] \<rparr>)
        else p'\<lparr> pm_discarded := pm_discarded p @ [th_id t] \<rparr>)"

definition promo_of :: "string option \<Rightarrow> thought list \<Rightarrow> promo" where
  "promo_of tenant ts = fold (promo_step tenant) ts empty_promo"

definition thought_at :: "thought list \<Rightarrow> string \<Rightarrow> thought option" where
  "thought_at ts i = find (\<lambda>t. th_id t = i) ts"

text \<open>The survivors without repeated content; only their number is used.\<close>

definition dedup_key :: "((string \<times> json) list \<Rightarrow> string) \<Rightarrow> thought \<Rightarrow> string" where
  "dedup_key stringify t = role_text (th_role t) @ '':'' @ take 500 (normal_content stringify (th_content t))"

fun dedup_survivors :: "((string \<times> json) list \<Rightarrow> string) \<Rightarrow> thought list \<Rightarrow> string list \<Rightarrow> string list \<Rightarrow> string list" where
  "dedup_survivors stringify ts seen [] = []"
| "dedup_survivors stringify ts seen (i # is) = (case thought_at ts i of
     None \<Rightarrow> dedup_survivors stringify ts seen is
   | Some t \<Rightarrow> if dedup_key stringify t \<in> set seen then dedup_survivors stringify ts seen is
       else i # dedup_survivors stringify ts (dedup_key stringify t # seen) is)"

datatype promo_effect =
    CreateEntity string string string "(string \<times> json) list" string
  | Remember string string string
  | AuditExecuted string string nat nat "string list"
  | AuditPromoted string string string thought_role "string option"

definition text_field :: "(string \<times> json) list \<Rightarrow> string \<Rightarrow> string \<Rightarrow> string" where
  "text_field fs k d = (case map_of fs k of Some (JStr s) \<Rightarrow> s | _ \<Rightarrow> d)"

definition graph_effect :: "thought \<Rightarrow> promo_effect option" where
  "graph_effect t = (case th_content t of CText _ \<Rightarrow> None
     | CFields fs \<Rightarrow> Some (CreateEntity (th_owner t) (text_field fs ''type'' ''unknown'')
         (text_field fs ''name'' (''thought-'' @ th_id t)) fs (ta_id (th_actor t))))"

definition memory_effect :: "((string \<times> json) list \<Rightarrow> string) \<Rightarrow> thought \<Rightarrow> promo_effect option" where
  "memory_effect stringify t = (let x = (case th_content t of CText s \<Rightarrow> s | CFields fs \<Rightarrow> stringify fs)
     in if trim x = [] then None else Some (Remember (th_owner t) (take 500 x) (''kernel:'' @ th_id t)))"

text \<open>\<open>deps.graph\<close> and \<open>deps.memory\<close> are optional.\<close>

definition promo_effects :: "((string \<times> json) list \<Rightarrow> string) \<Rightarrow> bool \<Rightarrow> bool \<Rightarrow> thought list \<Rightarrow> consolidation \<Rightarrow> promo
    \<Rightarrow> promo_effect list" where
  "promo_effects stringify graph memory ts c p =
     (let found = List.map_filter (thought_at ts) in
       (if graph then List.map_filter graph_effect (found (pm_graph p)) else [])
     @ (if memory then List.map_filter (memory_effect stringify) (found (pm_memory p)) else [])
     @ [AuditExecuted (th_tenant (hd ts)) (th_owner (hd ts)) (length (cs_groups c)) (length (cs_negations c)) (cs_tenants c)]
     @ map (\<lambda>t. AuditPromoted (th_tenant t) (th_owner t) (th_id t) (th_role t) (Some ''response'')) (found (pm_response p))
     @ map (\<lambda>t. AuditPromoted (th_tenant t) (th_owner t) (th_id t) (th_role t) None) (found (pm_audit p)))"

record promotion =
  pr_turn :: string
  pr_tenant :: string
  pr_owner :: string
  pr_total :: nat
  pr_promo :: promo
  pr_consolidation :: consolidation
  pr_reason :: string

definition promote :: "(string \<Rightarrow> string) \<Rightarrow> ((string \<times> json) list \<Rightarrow> string) \<Rightarrow> bool \<Rightarrow> bool \<Rightarrow> string option \<Rightarrow> string
    \<Rightarrow> thought list \<Rightarrow> (promotion \<times> promo_effect list) option" where
  "promote sha stringify graph memory tenant turn ts = (if ts = [] then None
     else (let p = promo_of tenant ts;
               c = consolidate (content_key sha stringify) (filter (\<lambda>t. tenant = Some (th_tenant t)) ts);
               kept = dedup_survivors stringify ts [] (pm_survivors p)
       in Some (\<lparr> pr_turn = turn, pr_tenant = th_tenant (hd ts), pr_owner = th_owner (hd ts), pr_total = length ts,
            pr_promo = p, pr_consolidation = c,
            pr_reason = ''rules.ts aplicado en orden; '' @ nat_text (length kept) @ '' sobreviven (dedup) (''
              @ nat_text (length (pm_response p)) @ '' response, '' @ nat_text (length (pm_memory p)) @ '' memory, ''
              @ nat_text (length (pm_audit p)) @ '' audit), '' @ nat_text (length (pm_discarded p)) @ '' descartados'' \<rparr>,
          promo_effects stringify graph memory ts c p)))"

section \<open>Groups\<close>

definition first_seen :: "'a list \<Rightarrow> 'a list" where
  "first_seen xs = rev (remdups (rev xs))"

lemma first_seen_snoc: "first_seen (xs @ [x]) = (if x \<in> set xs then first_seen xs else first_seen xs @ [x])"
  by (simp add: first_seen_def)

lemma set_first_seen [simp]: "set (first_seen xs) = set xs"
  by (simp add: first_seen_def)

lemma distinct_first_seen [simp]: "distinct (first_seen xs)"
  by (simp add: first_seen_def)

lemma map_of_map_key: "map_of (map (\<lambda>k. (k, g k)) ks) k = (if k \<in> set ks then Some (g k) else None)"
  by (induction ks) auto

lemma update_map_key: "distinct ks \<Longrightarrow> AList.update k v (map (\<lambda>k. (k, g k)) ks) =
    (if k \<in> set ks then map (\<lambda>j. (j, if j = k then v else g j)) ks else map (\<lambda>k. (k, g k)) ks @ [(k, v)])"
  by (induction ks) auto

lemma group_by_reference:
  "group_by f xs = map (\<lambda>k. (k, filter (\<lambda>x. f x = k) xs)) (first_seen (map f xs))"
proof (induction xs rule: rev_induct)
  case Nil then show ?case by (simp add: group_by_def first_seen_def)
next
  case (snoc x xs)
  let ?ks = "first_seen (map f xs)" and ?g = "\<lambda>k. filter (\<lambda>x. f x = k) xs"
  have "group_by f (xs @ [x]) = group_add f x (map (\<lambda>k. (k, ?g k)) ?ks)"
    using snoc.IH by (simp add: group_by_def)
  also have "\<dots> = map (\<lambda>k. (k, filter (\<lambda>x. f x = k) (xs @ [x]))) (first_seen (map f (xs @ [x])))"
  proof (cases "f x \<in> set ?ks")
    case True
    then show ?thesis by (auto simp: group_add_def map_of_map_key update_map_key first_seen_snoc)
  next
    case False
    then have "?g (f x) = []" by (simp add: filter_empty_conv image_iff) metis
    then show ?thesis using False by (auto simp: group_add_def map_of_map_key update_map_key first_seen_snoc)
  qed
  finally show ?case .
qed

definition dup_group_of :: "string \<Rightarrow> string \<Rightarrow> thought list \<Rightarrow> dup_group" where
  "dup_group_of te k l = \<lparr> dg_key = k, dg_ids = map th_id l, dg_survivor = th_id (hd l), dg_discarded = map th_id (tl l), dg_tenant = te \<rparr>"

lemma dup_groups_reference:
  "dup_groups key te ts = map (\<lambda>k. dup_group_of te k (filter (\<lambda>t. key t = k) ts))
     (filter (\<lambda>k. 2 \<le> length (filter (\<lambda>t. key t = k) ts)) (first_seen (map key ts)))"
  by (simp add: dup_groups_def group_by_reference dup_group_of_def filter_map comp_def)

section \<open>The loop of the promoter\<close>

definition survives :: "string option \<Rightarrow> thought \<Rightarrow> bool" where
  "survives tenant t = pd_survives (decision tenant t)"

definition bound_for :: "string option \<Rightarrow> destination \<Rightarrow> thought list \<Rightarrow> string list" where
  "bound_for tenant d ts = map th_id (filter (\<lambda>t. survives tenant t \<and> classify_destination (th_role t) = d) ts)"

lemma survives_dest: "survives tenant t \<Longrightarrow> pd_dest (decision tenant t) = classify_destination (th_role t)"
  by (auto simp: survives_def decision_def split: option.splits)

lemma promo_fold:
  "fold (promo_step tenant) ts p = \<lparr> pm_counts = fold (\<lambda>t. count_role (th_role t)) ts (pm_counts p),
     pm_survivors = pm_survivors p @ map th_id (filter (survives tenant) ts),
     pm_discarded = pm_discarded p @ map th_id (filter (\<lambda>t. \<not> survives tenant t) ts),
     pm_decisions = pm_decisions p @ map (decision tenant) ts,
     pm_response = pm_response p @ bound_for tenant ToResponse ts, pm_memory = pm_memory p @ bound_for tenant ToMemory ts,
     pm_graph = pm_graph p @ bound_for tenant ToGraph ts, pm_audit = pm_audit p @ bound_for tenant ToAudit ts \<rparr>"
proof (induction ts arbitrary: p)
  case (Cons t ts)
  show ?case
  proof (cases "survives tenant t")
    case True
    then show ?thesis using survives_dest [OF True] Cons.IH
      by (cases "classify_destination (th_role t)")
        (simp_all add: promo_step_def Let_def survives_def to_dest_def bound_for_def)
  next
    case False
    then show ?thesis using Cons.IH by (simp add: promo_step_def Let_def survives_def bound_for_def)
  qed
qed (simp add: bound_for_def)

lemma promo_lists:
  "pm_response (promo_of tenant ts) = bound_for tenant ToResponse ts" "pm_memory (promo_of tenant ts) = bound_for tenant ToMemory ts"
  "pm_graph (promo_of tenant ts) = bound_for tenant ToGraph ts" "pm_audit (promo_of tenant ts) = bound_for tenant ToAudit ts"
  by (simp_all add: promo_of_def promo_fold empty_promo_def)

lemma counts_fold:
  "map_of (fold (\<lambda>t. count_role (th_role t)) ts m) r = (case map_of m r of
     None \<Rightarrow> if \<exists>t\<in>set ts. th_role t = r then Some (length (filter (\<lambda>t. th_role t = r) ts)) else None
   | Some n \<Rightarrow> Some (n + length (filter (\<lambda>t. th_role t = r) ts)))"
  by (induction ts arbitrary: m) (auto simp: count_role_def split: option.splits)

lemma counts_start: "map_of (map (\<lambda>r. (r, 0)) all_roles) r = Some 0"
  by (cases r) (simp_all add: all_roles_def)

lemma survivor_tenant: "\<lbrakk> survives (Some te) t; te \<noteq> [] \<rbrakk> \<Longrightarrow> th_tenant t = te"
  by (auto simp: survives_def decision_def classify_with_tenant_def check_tenant_def split: if_splits)

lemma thought_at_distinct: "\<lbrakk> distinct (map th_id ts); t \<in> set ts \<rbrakk> \<Longrightarrow> thought_at ts (th_id t) = Some t"
  unfolding thought_at_def by (induction ts) auto

lemma found_of:
  assumes "distinct (map th_id ts)"
  shows "List.map_filter (thought_at ts) (map th_id (filter P ts)) = filter P ts"
proof -
  have "List.map_filter (thought_at ts) (map th_id xs) = xs" if "set xs \<subseteq> set ts" for xs
    using that by (induction xs) (auto simp: List.map_filter_simps thought_at_distinct [OF assms])
  then show ?thesis by simp
qed

section \<open>Properties\<close>

text \<open>The promoter's loop is this partition of the turn's thoughts: every thought is decided once, in
  order; the survivors and the discarded are the two halves by that decision; a survivor goes to the
  one list of its role's destination, reasoning, delegation, display and query to none; and each role
  is counted exactly.  Repeated content is not removed from the lists.\<close>

theorem promotion_partition:
  "pm_decisions (promo_of tenant ts) = map (decision tenant) ts
   \<and> pm_survivors (promo_of tenant ts) = map th_id (filter (survives tenant) ts)
   \<and> pm_discarded (promo_of tenant ts) = map th_id (filter (\<lambda>t. \<not> survives tenant t) ts)
   \<and> pm_response (promo_of tenant ts) = bound_for tenant ToResponse ts
   \<and> pm_memory (promo_of tenant ts) = bound_for tenant ToMemory ts
   \<and> pm_graph (promo_of tenant ts) = bound_for tenant ToGraph ts
   \<and> pm_audit (promo_of tenant ts) = bound_for tenant ToAudit ts
   \<and> map_of (pm_counts (promo_of tenant ts)) r = Some (length (filter (\<lambda>t. th_role t = r) ts))"
  by (simp add: promo_of_def promo_fold empty_promo_def counts_fold counts_start)

definition write_of :: "((string \<times> json) list \<Rightarrow> string) \<Rightarrow> thought \<Rightarrow> promo_effect \<Rightarrow> bool" where
  "write_of stringify t e \<longleftrightarrow> graph_effect t = Some e \<or> memory_effect stringify t = Some e
     \<or> (\<exists>d. e = AuditPromoted (th_tenant t) (th_owner t) (th_id t) (th_role t) d)"

text \<open>Whatever list of thoughts it is given, the promoter starts no write for a thought of another tenant
  or for one that did not survive: every effect other than the summary in the audit trail is the write
  of one surviving thought of the context's tenant.\<close>

theorem promotion_writes_own_survivors:
  assumes "promote sha stringify graph memory (Some te) turn ts = Some (r, es)" "te \<noteq> []" "distinct (map th_id ts)"
    and "e \<in> set es"
  shows "(\<exists>t\<in>set ts. th_tenant t = te \<and> survives (Some te) t \<and> write_of stringify t e)
    \<or> (\<exists>n m tes. e = AuditExecuted (pr_tenant r) (pr_owner r) n m tes)"
proof -
  let ?p = "promo_of (Some te) ts"
  have found: "List.map_filter (thought_at ts) (bound_for (Some te) d ts)
      = filter (\<lambda>t. survives (Some te) t \<and> classify_destination (th_role t) = d) ts" for d
    unfolding bound_for_def by (rule found_of [OF assms(3)])
  obtain c where r: "pr_tenant r = th_tenant (hd ts)" "pr_owner r = th_owner (hd ts)"
    and es: "es = promo_effects stringify graph memory ts c ?p"
    using assms(1) by (auto simp: promote_def Let_def split: if_splits)
  show ?thesis using assms(4) r unfolding es promo_effects_def promo_lists found Let_def
    by (auto simp: map_filter_def write_of_def split: if_splits dest: survivor_tenant [OF _ assms(2)])
qed

text \<open>Consolidation finds exactly the duplicates: there is one group for each tenant and key that at least
  two thoughts of that tenant share, it lists those thoughts in the order of the turn, keeps the first
  and discards the others; thoughts of different tenants are never in one group.\<close>

theorem duplicate_groups_exact:
  "set (cs_groups (consolidate key ts)) = {dup_group_of te k (filter (\<lambda>t. th_tenant t = te \<and> key t = k) ts) | te k.
      2 \<le> length (filter (\<lambda>t. th_tenant t = te \<and> key t = k) ts)}
   \<and> distinct (map (\<lambda>g. (dg_tenant g, dg_key g)) (cs_groups (consolidate key ts)))
   \<and> cs_tenants (consolidate key ts) = first_seen (map th_tenant ts)"
proof (intro conjI)
  let ?of = "\<lambda>te. filter (\<lambda>t. th_tenant t = te) ts"
  have groups: "cs_groups (consolidate key ts) = concat (map (\<lambda>te. dup_groups key te (?of te)) (first_seen (map th_tenant ts)))"
    by (simp add: consolidate_def Let_def group_by_reference comp_def)
  have both: "filter (\<lambda>t. key t = k) (?of te) = filter (\<lambda>t. th_tenant t = te \<and> key t = k) ts" for te k
    by (simp add: filter_filter conj_commute)
  have some: "te \<in> th_tenant ` set ts \<and> k \<in> key ` set (?of te)"
    if two: "2 \<le> length (filter (\<lambda>t. th_tenant t = te \<and> key t = k) ts)" for te k
  proof -
    have "filter (\<lambda>t. th_tenant t = te \<and> key t = k) ts \<noteq> []" using two by auto
    then obtain t where "t \<in> set ts" "th_tenant t = te" "key t = k" by (auto simp: filter_empty_conv)
    then show ?thesis by auto
  qed
  show "set (cs_groups (consolidate key ts)) = {dup_group_of te k (filter (\<lambda>t. th_tenant t = te \<and> key t = k) ts) | te k.
      2 \<le> length (filter (\<lambda>t. th_tenant t = te \<and> key t = k) ts)}"
    using some by (auto simp: groups dup_groups_reference both) blast+
  have "distinct (concat (map (\<lambda>te. map (\<lambda>k. (te, k)) (ks te)) tes))" if "distinct tes" "\<And>te. distinct (ks te)" for tes and ks :: "string \<Rightarrow> string list"
    using that(1) by (induction tes) (auto simp: distinct_map inj_on_def that(2))
  from this [OF distinct_first_seen, of "\<lambda>te. filter (\<lambda>k. 2 \<le> length (filter (\<lambda>t. key t = k) (?of te))) (first_seen (map key (?of te)))" "map th_tenant ts"]
  show "distinct (map (\<lambda>g. (dg_tenant g, dg_key g)) (cs_groups (consolidate key ts)))"
    by (simp add: groups dup_groups_reference map_concat comp_def dup_group_of_def)
  show "cs_tenants (consolidate key ts) = first_seen (map th_tenant ts)"
    by (simp add: consolidate_def Let_def group_by_reference comp_def)
qed

lemma negation_by_swap: "(negation_by ps a b = None) = (negation_by ps b a = None)"
  by (induction ps) auto

lemma negation_symmetric: "(is_negation_pair a b = None) = (is_negation_pair b a = None)"
  using negation_by_swap by (auto simp: is_negation_pair_def Let_def split: content.splits)

abbreviation ex_note :: "string \<Rightarrow> thought" where
  "ex_note te \<equiv> \<lparr> th_id = ''h1'', th_tenant = te, th_turn = ''t1'', th_owner = ''ow'',
     th_actor = \<lparr> ta_kind = KdUser, ta_id = ''a'', ta_behalf = None, ta_persona = None \<rparr>, th_role = RoObservation,
     th_content = CText ''hi'', th_attention = ex_vector, th_context = empty_context,
     th_provenance = \<lparr> pv_source = ''s'', pv_time = 0, pv_parent = None, pv_correlation = None \<rparr>, th_edges = [] \<rparr>"

theorem promotion_writes_own_survivors_witness:
  "\<exists>t\<in>{ex_note ''te'', (ex_note ''x'')\<lparr> th_id := ''h2'' \<rparr>}. th_tenant t = ''te'' \<and> write_of (\<lambda>_. []) t (Remember ''ow'' ''hi'' ''kernel:h1'')"
proof -
  let ?ts = "[ex_note ''te'', (ex_note ''x'')\<lparr> th_id := ''h2'' \<rparr>]"
  have c: "trim ''hi'' = ''hi''" by (simp add: trim_def is_blank_def)
  have d: "decision (Some ''te'') (ex_note ''te'') = \<lparr> pd_thought = ''h1'', pd_rule = ''survive_actionable_role_with_content'', pd_survives = True, pd_dest = ToMemory \<rparr>"
    by (simp add: decision_def classify_with_tenant_def check_tenant_def classify_def promotion_rules_def has_content_def
        survivor_roles_def str_starts_def c)
  have "survives (Some ''te'') (ex_note ''te'')" "\<not> survives (Some ''te'') ((ex_note ''x'')\<lparr> th_id := ''h2'' \<rparr>)"
    using d by (simp_all add: survives_def decision_def classify_with_tenant_def check_tenant_def)
  then have m: "pm_memory (promo_of (Some ''te'') ?ts) = [''h1'']"
    unfolding promo_lists bound_for_def by simp
  obtain r es where run: "promote id (\<lambda>_. []) False True (Some ''te'') ''t1'' ?ts = Some (r, es)"
    and es: "\<exists>c. es = promo_effects (\<lambda>_. []) False True ?ts c (promo_of (Some ''te'') ?ts)"
    by (auto simp: promote_def Let_def)
  then have "Remember ''ow'' ''hi'' ''kernel:h1'' \<in> set es"
    using m c by (auto simp: promo_effects_def Let_def map_filter_def memory_effect_def thought_at_def)
  from promotion_writes_own_survivors [OF run _ _ this] show ?thesis by auto
qed

end
