(* ===== verification/Turns.thy ===== *)
theory Turns
  imports Thoughts StoreContract
begin

text \<open>
  The cognitive kernel's turns (apps/server/src/kernel/graph): the turn, its schema and JSON row
  (turn.ts), and \<open>InMemoryTurnStore\<close> (in-memory-store.ts).  A persisted turn is its JSON row, read back through
  \<open>turnSchema\<close> (\<open>parse_turn\<close>), so rows that the schema rejects are part of the model.
\<close>

section \<open>Turns\<close>

datatype turn_status = TOpen | TClosed | TPromoted
datatype close_reason = ByResponse | ByTimeout | ByPromotion | ByQuiescence
datatype closed_by = CPresenter | CQuiescence | CTimeout | CUser | CSystem

text \<open>A turn's status only moves forward; the order of the statuses is that of the schema.\<close>

primrec turn_rank :: "turn_status \<Rightarrow> nat" where
  "turn_rank TOpen = 0"
| "turn_rank TClosed = 1"
| "turn_rank TPromoted = 2"

lemma turn_rank_inj: "turn_rank a = turn_rank b \<Longrightarrow> a = b"
  by (cases a; cases b) simp_all

instantiation turn_status :: linorder
begin

definition less_eq_turn_status :: "turn_status \<Rightarrow> turn_status \<Rightarrow> bool" where
  "less_eq_turn_status a b \<longleftrightarrow> turn_rank a \<le> turn_rank b"

definition less_turn_status :: "turn_status \<Rightarrow> turn_status \<Rightarrow> bool" where
  "less_turn_status a b \<longleftrightarrow> turn_rank a < turn_rank b"

instance
  by intro_classes (auto simp: less_eq_turn_status_def less_turn_status_def intro: turn_rank_inj)

end

record turn =
  tn_id :: string
  tn_tenant :: string
  tn_owner :: string
  tn_parent :: "string option"
  tn_children :: "string list"
  tn_started :: int
  tn_closed :: "int option"
  tn_quiescent :: "int option"
  tn_quiescence :: int
  tn_status :: turn_status
  tn_thoughts :: "string list"
  tn_triggers :: "string list"
  tn_persona :: "string option"
  tn_reason :: "close_reason option"
  tn_closed_by :: "closed_by option"

definition new_turn :: "string \<Rightarrow> string \<Rightarrow> string \<Rightarrow> string option \<Rightarrow> string option \<Rightarrow> int \<Rightarrow> string \<Rightarrow> turn" where
  "new_turn i tenant owner parent persona now trigger = \<lparr> tn_id = i, tn_tenant = tenant, tn_owner = owner,
     tn_parent = parent, tn_children = [], tn_started = now, tn_closed = None, tn_quiescent = None,
     tn_quiescence = 10000, tn_status = TOpen, tn_thoughts = [], tn_triggers = [trigger], tn_persona = persona,
     tn_reason = None, tn_closed_by = None \<rparr>"

definition turn_schema :: "turn \<Rightarrow> bool" where
  "turn_schema t \<longleftrightarrow> len_in 1 100 (tn_id t) \<and> len_in 1 100 (tn_tenant t) \<and> len_in 1 200 (tn_owner t)
     \<and> (case tn_parent t of None \<Rightarrow> True | Some p \<Rightarrow> length p \<le> 100)
     \<and> length (tn_children t) \<le> 100 \<and> (\<forall>c\<in>set (tn_children t). length c \<le> 100)
     \<and> 0 \<le> tn_quiescence t \<and> tn_quiescence t \<le> 600000
     \<and> length (tn_thoughts t) \<le> 500 \<and> (\<forall>c\<in>set (tn_thoughts t). length c \<le> 100)
     \<and> length (tn_triggers t) \<le> 50 \<and> (\<forall>c\<in>set (tn_triggers t). length c \<le> 100)
     \<and> (case tn_persona t of None \<Rightarrow> True | Some p \<Rightarrow> len_in 1 80 p)"

definition check_turn :: "turn \<Rightarrow> turn res" where
  "check_turn t = (if turn_schema t then Inr t else Inl zod_error)"

section \<open>Turns in memory\<close>

record mem_turns =
  mt_turns :: "(string \<times> turn) list"
  mt_thoughts :: "(string \<times> thought) list"

definition set_turn :: "turn \<Rightarrow> mem_turns \<Rightarrow> mem_turns" where
  "set_turn t s = s\<lparr> mt_turns := AList.update (tn_id t) t (mt_turns s) \<rparr>"

definition mt_open :: "int \<Rightarrow> string \<Rightarrow> string \<Rightarrow> string \<Rightarrow> string \<Rightarrow> string option \<Rightarrow> mem_turns \<Rightarrow> turn res \<times> mem_turns" where
  "mt_open now uuid tenant owner trigger persona s = (case check_turn (new_turn uuid tenant owner None None now trigger) of
     Inl e \<Rightarrow> (Inl e, s) | Inr t \<Rightarrow> (Inr t, set_turn t s))"

definition tenant_mismatch :: "string \<Rightarrow> string \<Rightarrow> string" where
  "tenant_mismatch expected actual = ''Tenant mismatch: '' @ expected @ '' != '' @ actual"

definition add_child :: "string \<Rightarrow> turn \<Rightarrow> turn" where
  "add_child i t = t\<lparr> tn_children := tn_children t @ [i] \<rparr>"

definition mt_open_child :: "int \<Rightarrow> string \<Rightarrow> string \<Rightarrow> string \<Rightarrow> string \<Rightarrow> string \<Rightarrow> mem_turns \<Rightarrow> turn res \<times> mem_turns" where
  "mt_open_child now uuid tenant owner parent trigger s = (case map_of (mt_turns s) parent of
     None \<Rightarrow> (Inl (JsError (''Parent turn not found: '' @ parent)), s)
   | Some p \<Rightarrow> if tn_tenant p \<noteq> tenant then (Inl (JsError (tenant_mismatch tenant (tn_tenant p))), s)
       else (case check_turn (new_turn uuid tenant owner (Some parent) None now trigger) of
           Inl e \<Rightarrow> (Inl e, s)
         | Inr child \<Rightarrow> (Inr child, set_turn child (set_turn (add_child uuid p) s))))"

definition add_thought :: "int \<Rightarrow> string \<Rightarrow> turn \<Rightarrow> turn" where
  "add_thought now i t = t\<lparr> tn_thoughts := tn_thoughts t @ [i], tn_quiescent := Some now \<rparr>"

definition mt_append :: "int \<Rightarrow> thought \<Rightarrow> mem_turns \<Rightarrow> thought res \<times> mem_turns" where
  "mt_append now th s = (case check_thought th of
     Inl e \<Rightarrow> (Inl e, s)
   | Inr p \<Rightarrow> (case map_of (mt_turns s) (th_turn p) of
         None \<Rightarrow> (Inl (JsError (''Turn not found: '' @ th_turn p)), s)
       | Some t \<Rightarrow> if tn_status t \<noteq> TOpen then (Inl (JsError (''Turn is not open: '' @ th_turn p)), s)
           else if tn_tenant t \<noteq> th_tenant p then (Inl (JsError (tenant_mismatch (th_tenant p) (tn_tenant t))), s)
           else (Inr p, set_turn (add_thought now (th_id p) t)
                  (s\<lparr> mt_thoughts := AList.update (th_id p) p (mt_thoughts s) \<rparr>))))"

definition mt_get :: "string \<Rightarrow> string \<Rightarrow> mem_turns \<Rightarrow> turn option" where
  "mt_get tenant i s = (case map_of (mt_turns s) i of None \<Rightarrow> None
     | Some t \<Rightarrow> if tn_tenant t = tenant then Some t else None)"

definition mt_thoughts_of :: "string \<Rightarrow> string \<Rightarrow> mem_turns \<Rightarrow> thought list" where
  "mt_thoughts_of tenant i s = (case mt_get tenant i s of None \<Rightarrow> []
     | Some t \<Rightarrow> List.map_filter (map_of (mt_thoughts s)) (tn_thoughts t))"

definition close_turn :: "int \<Rightarrow> close_reason \<Rightarrow> closed_by \<Rightarrow> turn \<Rightarrow> turn" where
  "close_turn now reason who t = t\<lparr> tn_status := TClosed, tn_closed := Some now, tn_reason := Some reason,
     tn_closed_by := Some who \<rparr>"

definition mt_close :: "int \<Rightarrow> string \<Rightarrow> string \<Rightarrow> close_reason \<Rightarrow> closed_by \<Rightarrow> mem_turns \<Rightarrow> turn res \<times> mem_turns" where
  "mt_close now tenant i reason who s = (case map_of (mt_turns s) i of
     None \<Rightarrow> (Inl (JsError (''Turn not found: '' @ i)), s)
   | Some t \<Rightarrow> if tn_tenant t \<noteq> tenant then (Inl (JsError (tenant_mismatch tenant (tn_tenant t))), s)
       else if tn_status t \<noteq> TOpen then (Inr t, s)
       else (Inr (close_turn now reason who t), set_turn (close_turn now reason who t) s))"

definition mt_list :: "string \<Rightarrow> nat \<Rightarrow> mem_turns \<Rightarrow> turn list" where
  "mt_list tenant limit s = take (max 1 limit) (filter (\<lambda>t. tn_tenant t = tenant) (map snd (mt_turns s)))"

section \<open>The JSON row of a turn\<close>

fun tstatus_text :: "turn_status \<Rightarrow> string" where
  "tstatus_text TOpen = ''open''" | "tstatus_text TClosed = ''closed''" | "tstatus_text TPromoted = ''promoted''"

fun reason_text :: "close_reason \<Rightarrow> string" where
  "reason_text ByResponse = ''response''" | "reason_text ByTimeout = ''timeout''"
| "reason_text ByPromotion = ''promotion''" | "reason_text ByQuiescence = ''quiescence''"

fun closed_by_text :: "closed_by \<Rightarrow> string" where
  "closed_by_text CPresenter = ''presenter''" | "closed_by_text CQuiescence = ''quiescence''"
| "closed_by_text CTimeout = ''timeout''" | "closed_by_text CUser = ''user''" | "closed_by_text CSystem = ''system''"

definition tstatus_of :: "string \<Rightarrow> turn_status option" where
  "tstatus_of x = find (\<lambda>v. tstatus_text v = x) [TOpen, TClosed, TPromoted]"

definition reason_of :: "string \<Rightarrow> close_reason option" where
  "reason_of x = find (\<lambda>v. reason_text v = x) [ByResponse, ByTimeout, ByPromotion, ByQuiescence]"

definition closed_by_of :: "string \<Rightarrow> closed_by option" where
  "closed_by_of x = find (\<lambda>v. closed_by_text v = x) [CPresenter, CQuiescence, CTimeout, CUser, CSystem]"

definition turn_row :: "turn \<Rightarrow> json" where
  "turn_row t = JObj ([(''id'', JStr (tn_id t)), (''tenantId'', JStr (tn_tenant t)), (''owner'', JStr (tn_owner t))]
     @ present ''parentTurnId'' JStr (tn_parent t)
     @ [(''childTurnIds'', JArr (map JStr (tn_children t))), (''startedAt'', JDate (tn_started t))]
     @ present ''closedAt'' JDate (tn_closed t) @ present ''quiescentAt'' JDate (tn_quiescent t)
     @ [(''quiescenceMs'', JNum (of_int (tn_quiescence t))), (''status'', JStr (tstatus_text (tn_status t))),
        (''thoughtIds'', JArr (map JStr (tn_thoughts t))), (''triggers'', JArr (map JStr (tn_triggers t)))]
     @ present ''personaId'' JStr (tn_persona t) @ present ''closeReason'' (\<lambda>r. JStr (reason_text r)) (tn_reason t)
     @ present ''closedBy'' (\<lambda>c. JStr (closed_by_text c)) (tn_closed_by t))"

definition read_turn :: "json \<Rightarrow> turn option" where
  "read_turn j =
    Option.bind (req as_text ''id'' j) (\<lambda>i. Option.bind (req as_text ''tenantId'' j) (\<lambda>te.
    Option.bind (req as_text ''owner'' j) (\<lambda>ow. Option.bind (opt as_text ''parentTurnId'' j) (\<lambda>pa.
    Option.bind (dflt [] as_texts ''childTurnIds'' j) (\<lambda>ch. Option.bind (req as_date ''startedAt'' j) (\<lambda>st.
    Option.bind (opt as_date ''closedAt'' j) (\<lambda>cl. Option.bind (opt as_date ''quiescentAt'' j) (\<lambda>qu.
    Option.bind (dflt 10000 as_int ''quiescenceMs'' j) (\<lambda>qm. Option.bind (req (as_enum tstatus_of) ''status'' j) (\<lambda>ss.
    Option.bind (dflt [] as_texts ''thoughtIds'' j) (\<lambda>th. Option.bind (dflt [] as_texts ''triggers'' j) (\<lambda>tr.
    Option.bind (opt as_text ''personaId'' j) (\<lambda>pe. Option.bind (opt (as_enum reason_of) ''closeReason'' j) (\<lambda>re.
    Option.bind (opt (as_enum closed_by_of) ''closedBy'' j) (\<lambda>cb.
      Some \<lparr> tn_id = i, tn_tenant = te, tn_owner = ow, tn_parent = pa, tn_children = ch, tn_started = st, tn_closed = cl,
        tn_quiescent = qu, tn_quiescence = qm, tn_status = ss, tn_thoughts = th, tn_triggers = tr, tn_persona = pe,
        tn_reason = re, tn_closed_by = cb \<rparr>)))))))))))))))"

definition parse_turn :: "json \<Rightarrow> turn res" where
  "parse_turn j = (case read_turn j of None \<Rightarrow> Inl zod_error | Some t \<Rightarrow> check_turn t)"

section \<open>Reading back\<close>

lemma enum_of_text [simp]:
  shows "tstatus_of (tstatus_text a) = Some a" and "reason_of (reason_text r) = Some r"
    and "closed_by_of (closed_by_text c) = Some c"
  by (cases a; simp add: tstatus_of_def) (cases r; simp add: reason_of_def; fail | cases c; simp add: closed_by_of_def)+

lemma as_enum_text [simp]:
  shows "as_enum tstatus_of (JStr (tstatus_text a)) = Some a" and "as_enum reason_of (JStr (reason_text r)) = Some r"
    and "as_enum closed_by_of (JStr (closed_by_text c)) = Some c"
  by (simp_all add: as_enum_def)

lemma turn_row_fields:
  "jget (turn_row t) ''id'' = Some (JStr (tn_id t))" "jget (turn_row t) ''tenantId'' = Some (JStr (tn_tenant t))"
  "jget (turn_row t) ''owner'' = Some (JStr (tn_owner t))" "jget (turn_row t) ''parentTurnId'' = map_option JStr (tn_parent t)"
  "jget (turn_row t) ''childTurnIds'' = Some (JArr (map JStr (tn_children t)))"
  "jget (turn_row t) ''startedAt'' = Some (JDate (tn_started t))"
  "jget (turn_row t) ''closedAt'' = map_option JDate (tn_closed t)"
  "jget (turn_row t) ''quiescentAt'' = map_option JDate (tn_quiescent t)"
  "jget (turn_row t) ''quiescenceMs'' = Some (JNum (of_int (tn_quiescence t)))"
  "jget (turn_row t) ''status'' = Some (JStr (tstatus_text (tn_status t)))"
  "jget (turn_row t) ''thoughtIds'' = Some (JArr (map JStr (tn_thoughts t)))"
  "jget (turn_row t) ''triggers'' = Some (JArr (map JStr (tn_triggers t)))"
  "jget (turn_row t) ''personaId'' = map_option JStr (tn_persona t)"
  "jget (turn_row t) ''closeReason'' = map_option (\<lambda>r. JStr (reason_text r)) (tn_reason t)"
  "jget (turn_row t) ''closedBy'' = map_option (\<lambda>c. JStr (closed_by_text c)) (tn_closed_by t)"
  unfolding turn_row_def by (simp_all only: row_fields) (simp_all split: option.split)

lemma read_turn_row: "read_turn (turn_row t) = Some t"
proof -
  note f = turn_row_fields [of t]
  have "req as_text ''id'' (turn_row t) = Some (tn_id t)" "req as_text ''tenantId'' (turn_row t) = Some (tn_tenant t)"
    "req as_text ''owner'' (turn_row t) = Some (tn_owner t)" "opt as_text ''parentTurnId'' (turn_row t) = Some (tn_parent t)"
    "dflt [] as_texts ''childTurnIds'' (turn_row t) = Some (tn_children t)" "req as_date ''startedAt'' (turn_row t) = Some (tn_started t)"
    "opt as_date ''closedAt'' (turn_row t) = Some (tn_closed t)" "opt as_date ''quiescentAt'' (turn_row t) = Some (tn_quiescent t)"
    "dflt 10000 as_int ''quiescenceMs'' (turn_row t) = Some (tn_quiescence t)"
    "req (as_enum tstatus_of) ''status'' (turn_row t) = Some (tn_status t)"
    "dflt [] as_texts ''thoughtIds'' (turn_row t) = Some (tn_thoughts t)" "dflt [] as_texts ''triggers'' (turn_row t) = Some (tn_triggers t)"
    "opt as_text ''personaId'' (turn_row t) = Some (tn_persona t)"
    "opt (as_enum reason_of) ''closeReason'' (turn_row t) = Some (tn_reason t)"
    "opt (as_enum closed_by_of) ''closedBy'' (turn_row t) = Some (tn_closed_by t)"
    by (rule req_read dflt_read opt_read, rule f, simp)+
  then show ?thesis by (simp add: read_turn_def)
qed

lemma parse_turn_row: "parse_turn (turn_row t) = check_turn t"
  by (simp add: parse_turn_def read_turn_row)

lemma check_turn_InrD: "check_turn t = Inr p \<Longrightarrow> p = t \<and> turn_schema t"
  by (simp add: check_turn_def split: if_splits)

lemma parse_turn_InrD: "parse_turn j = Inr t \<Longrightarrow> read_turn j = Some t \<and> turn_schema t"
  by (auto simp: parse_turn_def dest: check_turn_InrD split: option.splits)

lemma jid_turn_row [simp]: "jid (turn_row t) = tn_id t"
  by (simp add: jid_def jtext_def turn_row_fields)

end
