(* ===== verification/StoreTurns.thy ===== *)
theory StoreTurns
  imports Turns
begin

text \<open>
  \<open>StoreTurnStore\<close> (apps/server/src/kernel/graph/store-store.ts): turns and thoughts as rows of the
  records table, through the \<open>StorePort\<close> that app.ts builds on the plain \<open>Store\<close> (owner the tenant,
  the row's id the one in its data).  A row that \<open>turnSchema\<close> rejects makes the operation that reads
  it throw.
\<close>

section \<open>The port\<close>

abbreviation turns_kind :: string where "turns_kind \<equiv> ''cognitive-turns''"
abbreviation thoughts_kind :: string where "thoughts_kind \<equiv> ''cognitive-thoughts''"

definition sp_put :: "int \<Rightarrow> string \<Rightarrow> string \<Rightarrow> string \<Rightarrow> json \<Rightarrow> table \<Rightarrow> table" where
  "sp_put now tenant kind i v d = st_put now tenant kind v d"

definition sp_get :: "string \<Rightarrow> string \<Rightarrow> string \<Rightarrow> table \<Rightarrow> json option" where
  "sp_get tenant kind i d = st_get tenant kind i d"

definition sp_list :: "string \<Rightarrow> string \<Rightarrow> nat \<Rightarrow> table \<Rightarrow> (string \<times> json) list" where
  "sp_list tenant kind limit d = map (\<lambda>(j, u). (jid j, j))
     (st_list_paged tenant kind \<lparr> lo_limit = Some limit, lo_cursor = None \<rparr> d)"

definition sp_transaction :: "(table \<Rightarrow> 'a res \<times> table) \<Rightarrow> table \<Rightarrow> 'a res \<times> table" where
  "sp_transaction f = st_transaction (\<lambda>_. f) False"

section \<open>State and limits\<close>

record store_turns =
  sn_db :: table
  sn_limits :: "(string \<times> nat) list"
  sn_cache :: "(string \<times> int \<times> turn) list"

definition sn_set_limit :: "string \<Rightarrow> rat \<Rightarrow> store_turns \<Rightarrow> store_turns" where
  "sn_set_limit tenant limit s = (if limit > 0
     then s\<lparr> sn_limits := AList.update tenant (nat \<lfloor>limit\<rfloor>) (sn_limits s) \<rparr> else s)"

definition limit_for :: "string \<Rightarrow> (string \<times> nat) list \<Rightarrow> nat" where
  "limit_for tenant m = (case map_of m tenant of Some n \<Rightarrow> n | None \<Rightarrow> 500)"

section \<open>Opening and appending\<close>

definition get_parsed :: "string \<Rightarrow> string \<Rightarrow> table \<Rightarrow> turn res option" where
  "get_parsed tenant i d = map_option parse_turn (sp_get tenant turns_kind i d)"

definition put_turn :: "int \<Rightarrow> string \<Rightarrow> turn \<Rightarrow> table \<Rightarrow> table" where
  "put_turn now tenant t d = sp_put now tenant turns_kind (tn_id t) (turn_row t) d"

definition mismatch_409 :: "string \<Rightarrow> string \<Rightarrow> err" where
  "mismatch_409 expected actual = AppError (tenant_mismatch expected actual) 409"

definition sn_open :: "int \<Rightarrow> string \<Rightarrow> string \<Rightarrow> string \<Rightarrow> string \<Rightarrow> string option \<Rightarrow> table \<Rightarrow> turn res \<times> table" where
  "sn_open now uuid tenant owner trigger persona d =
     (case check_turn (new_turn uuid tenant owner None (if persona = Some [] then None else persona) now trigger) of
        Inl e \<Rightarrow> (Inl e, d)
      | Inr t \<Rightarrow> (Inr t, put_turn now tenant t d))"

definition sn_child_tx :: "int \<Rightarrow> string \<Rightarrow> string \<Rightarrow> string \<Rightarrow> string \<Rightarrow> string \<Rightarrow> table \<Rightarrow> turn res \<times> table" where
  "sn_child_tx now uuid tenant owner parent trigger d = (case get_parsed tenant parent d of
     None \<Rightarrow> (Inl (AppError (''Parent turn not found: '' @ parent) 404), d)
   | Some (Inl e) \<Rightarrow> (Inl e, d)
   | Some (Inr p) \<Rightarrow>
       if tn_tenant p \<noteq> tenant then (Inl (mismatch_409 tenant (tn_tenant p)), d)
       else if tn_status p \<noteq> TOpen
         then (Inl (AppError (''Cannot open child turn on closed parent '' @ parent) 409), d)
       else (case check_turn (new_turn uuid tenant owner (Some parent) None now trigger) of
           Inl e \<Rightarrow> (Inl e, d)
         | Inr child \<Rightarrow> (Inr child, put_turn now tenant child (put_turn now tenant (add_child uuid p) d))))"

definition sn_open_child :: "int \<Rightarrow> string \<Rightarrow> string \<Rightarrow> string \<Rightarrow> string \<Rightarrow> string \<Rightarrow> table \<Rightarrow> turn res \<times> table" where
  "sn_open_child now uuid tenant owner parent trigger =
     sp_transaction (sn_child_tx now uuid tenant owner parent trigger)"

text \<open>\<open>append\<close> writes the thought, the entry that links it to its turn under the turns' own kind, and
  the turn.\<close>

definition link_id :: "string \<Rightarrow> string \<Rightarrow> string" where
  "link_id t i = t @ '':'' @ i"

definition link_row :: "string \<Rightarrow> string \<Rightarrow> string \<Rightarrow> json" where
  "link_row tenant t i = JObj [(''id'', JStr (link_id t i)), (''turnId'', JStr t), (''thoughtId'', JStr i),
     (''tenantId'', JStr tenant)]"

definition sn_append_tx :: "int \<Rightarrow> nat \<Rightarrow> thought \<Rightarrow> table \<Rightarrow> thought res \<times> table" where
  "sn_append_tx now max_thoughts p d = (case get_parsed (th_tenant p) (th_turn p) d of
     None \<Rightarrow> (Inl (AppError (''Turn not found: '' @ th_turn p) 404), d)
   | Some (Inl e) \<Rightarrow> (Inl e, d)
   | Some (Inr t) \<Rightarrow>
       if tn_status t \<noteq> TOpen then (Inl (AppError (''Turn is not open: '' @ th_turn p) 409), d)
       else if tn_tenant t \<noteq> th_tenant p then (Inl (mismatch_409 (th_tenant p) (tn_tenant t)), d)
       else if length (tn_thoughts t) \<ge> max_thoughts
         then (Inl (AppError (''Turn exceeds '' @ nat_text max_thoughts @ '' thoughts'') 409), d)
       else (Inr p, put_turn now (tn_tenant t) (add_thought now (th_id p) t)
              (sp_put now (th_tenant p) turns_kind (link_id (tn_id t) (th_id p)) (link_row (th_tenant p) (tn_id t) (th_id p))
                (sp_put now (th_tenant p) thoughts_kind (th_id p) (thought_row p) d))))"

definition sn_append :: "int \<Rightarrow> thought \<Rightarrow> store_turns \<Rightarrow> thought res \<times> store_turns" where
  "sn_append now th s = (case check_thought th of
     Inl e \<Rightarrow> (Inl e, s)
   | Inr p \<Rightarrow> (case sp_transaction (sn_append_tx now (limit_for (th_tenant p) (sn_limits s)) p) (sn_db s) of
       (r, d) \<Rightarrow> (r, s\<lparr> sn_db := d \<rparr>)))"

section \<open>Reading the thoughts of a turn\<close>

text \<open>\<open>scan\<close> is \<open>scanByOwnerPrefix\<close> when the port has it; the port of app.ts does not.  Its rows are
  used when they all parse and there is one.\<close>

definition parse_thoughts :: "json list \<Rightarrow> thought list res" where
  "parse_thoughts js = all_ok (map parse_thought js)"

definition by_time :: "thought list \<Rightarrow> thought list" where
  "by_time = sort_key (\<lambda>t. pv_time (th_provenance t))"

definition sn_thoughts_of :: "(string \<Rightarrow> string \<Rightarrow> nat \<Rightarrow> table \<Rightarrow> json list res) option \<Rightarrow> string \<Rightarrow> string
    \<Rightarrow> store_turns \<Rightarrow> thought list res" where
  "sn_thoughts_of scan tenant i s =
     (let batches = (case get_parsed tenant i (sn_db s) of
            None \<Rightarrow> Inr []
          | Some (Inl e) \<Rightarrow> Inl e
          | Some (Inr t) \<Rightarrow> if tn_tenant t \<noteq> tenant then Inr []
              else map_sum id by_time (parse_thoughts
                (List.map_filter (\<lambda>k. sp_get tenant thoughts_kind k (sn_db s)) (tn_thoughts t))))
      in case scan of None \<Rightarrow> batches
       | Some f \<Rightarrow> (case f thoughts_kind (tenant @ '':'' @ i @ '':'') (limit_for tenant (sn_limits s)) (sn_db s) of
            Inl e \<Rightarrow> batches
          | Inr rows \<Rightarrow> if rows = [] then batches
              else (case parse_thoughts rows of Inl e \<Rightarrow> batches | Inr ts \<Rightarrow> Inr (by_time ts))))"

section \<open>Closing\<close>

definition sn_close_tx :: "int \<Rightarrow> string \<Rightarrow> string \<Rightarrow> close_reason \<Rightarrow> closed_by \<Rightarrow> table \<Rightarrow> turn res \<times> table" where
  "sn_close_tx now tenant i reason who d = (case get_parsed tenant i d of
     None \<Rightarrow> (Inl (AppError (''Turn not found: '' @ i) 404), d)
   | Some (Inl e) \<Rightarrow> (Inl e, d)
   | Some (Inr t) \<Rightarrow> if tn_tenant t \<noteq> tenant then (Inl (mismatch_409 tenant (tn_tenant t)), d)
       else if tn_status t \<noteq> TOpen then (Inr t, d)
       else (Inr (close_turn now reason who t), put_turn now tenant (close_turn now reason who t) d))"

text \<open>The milliseconds that a close by quiescence sleeps before its transaction.\<close>

definition close_wait :: "int \<Rightarrow> string \<Rightarrow> string \<Rightarrow> close_reason \<Rightarrow> table \<Rightarrow> int res" where
  "close_wait now tenant i reason d = (if reason \<noteq> ByQuiescence then Inr 0
     else (case get_parsed tenant i d of None \<Rightarrow> Inr 0
       | Some (Inl e) \<Rightarrow> Inl e
       | Some (Inr t) \<Rightarrow> (case tn_quiescent t of None \<Rightarrow> Inr 0
           | Some q \<Rightarrow> if tn_quiescence t > 0
               then Inr (max 0 (min (tn_quiescence t - (now - q)) 600000)) else Inr 0)))"

text \<open>\<open>others\<close> is what other callers do to the table during the sleep.\<close>

definition sn_close :: "(table \<Rightarrow> table) \<Rightarrow> int \<Rightarrow> string \<Rightarrow> string \<Rightarrow> close_reason \<Rightarrow> closed_by \<Rightarrow> table \<Rightarrow> turn res \<times> table" where
  "sn_close others now tenant i reason who d = (case close_wait now tenant i reason d of
     Inl e \<Rightarrow> (Inl e, d)
   | Inr w \<Rightarrow> sp_transaction (sn_close_tx (now + w) tenant i reason who) (if w > 0 then others d else d))"

definition depth_error :: err where
  "depth_error = AppError (''closeTurnAndChildren: profundidad 11 supera el l'' @
     map char_of [0xC3, 0x83, 0xC6, 0x92, 0xC3, 0x86, 0xE2, 0x80, 0x99, 0xC3, 0x83, 0xE2, 0x80, 0x9A, 0xC3, 0x82, 0xC2, 0xAD :: nat]
     @ ''mite 10'') 409"

text \<open>\<open>visit\<close>: \<open>left\<close> is how many levels are still allowed, eleven at the root.  Each turn's children
  come before it; an exception ends the walk, with what it has closed so far.  The walk carries the
  clock (a close by quiescence sleeps), the closed turns and the table.\<close>

primrec each :: "('a \<Rightarrow> 's \<Rightarrow> err option \<times> 's) \<Rightarrow> 'a list \<Rightarrow> 's \<Rightarrow> err option \<times> 's" where
  "each f [] acc = (None, acc)"
| "each f (c # cs) acc = (case f c acc of (Some e, acc') \<Rightarrow> (Some e, acc') | (None, acc') \<Rightarrow> each f cs acc')"

primrec visit :: "nat \<Rightarrow> string \<Rightarrow> close_reason \<Rightarrow> closed_by \<Rightarrow> string \<Rightarrow> int \<times> turn list \<times> table \<Rightarrow> err option \<times> int \<times> turn list \<times> table" where
  "visit 0 tenant reason who i acc = (Some depth_error, acc)"
| "visit (Suc left) tenant reason who i acc = (case get_parsed tenant i (snd (snd acc)) of
     None \<Rightarrow> (None, acc)
   | Some (Inl e) \<Rightarrow> (Some e, acc)
   | Some (Inr t) \<Rightarrow> if tn_tenant t \<noteq> tenant then (None, acc)
       else (case each (visit left tenant reason who) (tn_children t) acc of
           (Some e, acc') \<Rightarrow> (Some e, acc')
         | (None, now, ts, d) \<Rightarrow> if tn_status t \<noteq> TOpen then (None, now, ts, d)
             else (case close_wait now tenant i reason d of
                 Inl e \<Rightarrow> (Some e, now, ts, d)
               | Inr w \<Rightarrow> (case sn_close (\<lambda>d. d) now tenant i reason who d of
                     (Inl e, d') \<Rightarrow> (Some e, now + w, ts, d')
                   | (Inr u, d') \<Rightarrow> (None, now + w, ts @ [u], d')))))"

definition sn_close_all :: "int \<Rightarrow> string \<Rightarrow> string \<Rightarrow> close_reason \<Rightarrow> closed_by \<Rightarrow> table \<Rightarrow> turn list res \<times> table" where
  "sn_close_all now tenant i reason who d = (case visit 11 tenant reason who i (now, [], d) of
     (Some e, _, ts, d') \<Rightarrow> (Inl e, d') | (None, _, ts, d') \<Rightarrow> (Inr ts, d'))"

section \<open>Reading turns\<close>

definition cache_key :: "string \<Rightarrow> string \<Rightarrow> string" where
  "cache_key tenant i = tenant @ '':'' @ i"

definition sn_get :: "int \<Rightarrow> string \<Rightarrow> string \<Rightarrow> store_turns \<Rightarrow> turn option res \<times> store_turns" where
  "sn_get now tenant i s =
     (let fetch = (case get_parsed tenant i (sn_db s) of
            None \<Rightarrow> (Inr None, s)
          | Some (Inl e) \<Rightarrow> (Inl e, s)
          | Some (Inr t) \<Rightarrow> if tn_tenant t \<noteq> tenant then (Inr None, s)
              else if tn_status t = TOpen
                then (Inr (Some t), s\<lparr> sn_cache := AList.update (cache_key tenant i) (now, t) (sn_cache s) \<rparr>)
              else (Inr (Some t), s\<lparr> sn_cache := AList.delete (cache_key tenant i) (sn_cache s) \<rparr>))
      in case map_of (sn_cache s) (cache_key tenant i) of
           None \<Rightarrow> fetch
         | Some (since, t) \<Rightarrow> if now - since < 1000 then (Inr (Some t), s) else fetch)"

definition parse_rows :: "(string \<times> json) list \<Rightarrow> turn list res" where
  "parse_rows rows = all_ok (map (\<lambda>r. parse_turn (snd r)) rows)"

definition list_cap :: "nat \<Rightarrow> nat" where
  "list_cap limit = min (max 1 limit) 200"

definition sn_list :: "string \<Rightarrow> nat \<Rightarrow> table \<Rightarrow> turn list res" where
  "sn_list tenant limit d = parse_rows (sp_list tenant turns_kind (list_cap limit) d)"

definition sn_list_owner :: "string \<Rightarrow> string \<Rightarrow> nat \<Rightarrow> table \<Rightarrow> turn list res" where
  "sn_list_owner tenant owner limit d = map_sum id (\<lambda>ts. take (list_cap limit) (filter (\<lambda>t. tn_owner t = owner) ts))
     (parse_rows (sp_list tenant turns_kind (list_cap limit) d))"

definition sn_list_open :: "string \<Rightarrow> string \<Rightarrow> table \<Rightarrow> turn list res" where
  "sn_list_open tenant owner d = map_sum id (filter (\<lambda>t. tn_owner t = owner \<and> tn_status t = TOpen))
     (parse_rows (sp_list tenant turns_kind 500 d))"

end
