(* ===== verification/TurnLaws.thy ===== *)
theory TurnLaws
  imports StoreTurns
begin

text \<open>
  What the two classes that implement \<open>TurnStore\<close> promise.  The locale \<open>turn_store\<close> states the life
  of a turn, the locale \<open>closing_turn_store\<close> adds that a closed turn is not written any more; the first
  is interpreted for both classes, the second for \<open>StoreTurnStore\<close> only.  The last sections relate the
  two (a simulation), and follow \<open>closeTurnAndChildren\<close> through the tree of turns.
\<close>

section \<open>Operations as values\<close>

text \<open>One call of an operation of \<open>TurnStore\<close>, with the clock and the UUID it gets.  \<open>OpClose\<close> is a whole
  \<open>closeTurn\<close>: for a close by quiescence the read before it, the sleep and the transaction at the end
  of the sleep.  Other calls may run during the sleep; the call is then its read, which changes nothing,
  and later \<open>OpCloseEnd\<close>, the transaction alone, so that a sequence of these values is any interleaving
  of calls.  \<open>OpGet\<close>, \<open>OpThoughts\<close> and \<open>OpList\<close> are the reads.\<close>

datatype turn_op =
    OpOpen int string string string string "string option"
  | OpChild int string string string string string
  | OpAppend int thought
  | OpClose int string string close_reason closed_by
  | OpCloseEnd int string string close_reason closed_by
  | OpGet int string string
  | OpThoughts string string
  | OpList string nat

datatype turn_out = OutTurn turn | OutThought thought | OutMaybe "turn option" | OutThoughts "thought list" | OutTurns "turn list"

primrec mem_do :: "turn_op \<Rightarrow> mem_turns \<Rightarrow> turn_out res \<times> mem_turns" where
  "mem_do (OpOpen now u te ow tr pe) s = map_prod (map_sum id OutTurn) id (mt_open now u te ow tr pe s)"
| "mem_do (OpChild now u te ow p tr) s = map_prod (map_sum id OutTurn) id (mt_open_child now u te ow p tr s)"
| "mem_do (OpAppend now th) s = map_prod (map_sum id OutThought) id (mt_append now th s)"
| "mem_do (OpClose now te i re wh) s = map_prod (map_sum id OutTurn) id (mt_close now te i re wh s)"
| "mem_do (OpCloseEnd now te i re wh) s = map_prod (map_sum id OutTurn) id (mt_close now te i re wh s)"
| "mem_do (OpGet now te i) s = (Inr (OutMaybe (mt_get te i s)), s)"
| "mem_do (OpThoughts te i) s = (Inr (OutThoughts (mt_thoughts_of te i s)), s)"
| "mem_do (OpList te n) s = (Inr (OutTurns (mt_list te n s)), s)"

primrec sn_do :: "turn_op \<Rightarrow> store_turns \<Rightarrow> turn_out res \<times> store_turns" where
  "sn_do (OpOpen now u te ow tr pe) s = (case sn_open now u te ow tr pe (sn_db s) of
     (r, d) \<Rightarrow> (map_sum id OutTurn r, s\<lparr> sn_db := d \<rparr>))"
| "sn_do (OpChild now u te ow p tr) s = (case sn_open_child now u te ow p tr (sn_db s) of
     (r, d) \<Rightarrow> (map_sum id OutTurn r, s\<lparr> sn_db := d \<rparr>))"
| "sn_do (OpAppend now th) s = map_prod (map_sum id OutThought) id (sn_append now th s)"
| "sn_do (OpClose now te i re wh) s = (case sn_close (\<lambda>d. d) now te i re wh (sn_db s) of
     (r, d) \<Rightarrow> (map_sum id OutTurn r, s\<lparr> sn_db := d \<rparr>))"
| "sn_do (OpCloseEnd now te i re wh) s = (case sp_transaction (sn_close_tx now te i re wh) (sn_db s) of
     (r, d) \<Rightarrow> (map_sum id OutTurn r, s\<lparr> sn_db := d \<rparr>))"
| "sn_do (OpGet now te i) s = map_prod (map_sum id OutMaybe) id (sn_get now te i s)"
| "sn_do (OpThoughts te i) s = (map_sum id OutThoughts (sn_thoughts_of None te i s), s)"
| "sn_do (OpList te n) s = (map_sum id OutTurns (sn_list te n (sn_db s)), s)"

definition mem_step :: "turn_op \<Rightarrow> mem_turns \<Rightarrow> mem_turns" where
  "mem_step x s = snd (mem_do x s)"

definition sn_step :: "turn_op \<Rightarrow> store_turns \<Rightarrow> store_turns" where
  "sn_step x s = snd (sn_do x s)"

text \<open>The turn that a store keeps under a tenant and an id, whether or not the schema accepts it.\<close>

definition mem_look :: "mem_turns \<Rightarrow> string \<Rightarrow> string \<Rightarrow> turn option" where
  "mem_look s te i = mt_get te i s"

definition look_db :: "table \<Rightarrow> string \<Rightarrow> string \<Rightarrow> turn option" where
  "look_db d te i = Option.bind (sp_get te turns_kind i d) read_turn"

definition sn_look :: "store_turns \<Rightarrow> string \<Rightarrow> string \<Rightarrow> turn option" where
  "sn_look s = look_db (sn_db s)"

text \<open>A new turn's id is a UUID: it has no colon, and no turn has it.\<close>

primrec op_uuid :: "turn_op \<Rightarrow> string option" where
  "op_uuid (OpOpen now u te ow tr pe) = Some u"
| "op_uuid (OpChild now u te ow p tr) = Some u"
| "op_uuid (OpAppend now th) = None"
| "op_uuid (OpClose now te i re wh) = None"
| "op_uuid (OpCloseEnd now te i re wh) = None"
| "op_uuid (OpGet now te i) = None"
| "op_uuid (OpThoughts te i) = None"
| "op_uuid (OpList te n) = None"

definition op_fresh :: "('s \<Rightarrow> string \<Rightarrow> string \<Rightarrow> turn option) \<Rightarrow> turn_op \<Rightarrow> 's \<Rightarrow> bool" where
  "op_fresh look x s \<longleftrightarrow> (case op_uuid x of None \<Rightarrow> True
     | Some u \<Rightarrow> CHR '':'' \<notin> set u \<and> (\<forall>te. look s te u = None))"

fun run_fresh :: "('s \<Rightarrow> string \<Rightarrow> string \<Rightarrow> turn option) \<Rightarrow> (turn_op \<Rightarrow> 's \<Rightarrow> 's) \<Rightarrow> turn_op list \<Rightarrow> 's \<Rightarrow> bool" where
  "run_fresh look step [] s = True"
| "run_fresh look step (x # xs) s = (op_fresh look x s \<and> run_fresh look step xs (step x s))"

text \<open>How a turn may change: its status moves forward, thoughts and children are only added, and once
  it is closed only children.\<close>

definition turn_grows :: "turn \<Rightarrow> turn \<Rightarrow> bool" where
  "turn_grows t t' \<longleftrightarrow> tn_id t' = tn_id t \<and> tn_tenant t' = tn_tenant t \<and> tn_owner t' = tn_owner t
     \<and> tn_parent t' = tn_parent t \<and> tn_started t' = tn_started t \<and> tn_persona t' = tn_persona t
     \<and> tn_triggers t' = tn_triggers t \<and> tn_status t \<le> tn_status t'
     \<and> prefix (tn_thoughts t) (tn_thoughts t') \<and> prefix (tn_children t) (tn_children t')
     \<and> (tn_status t \<noteq> TOpen \<longrightarrow> t' = t\<lparr> tn_children := tn_children t' \<rparr>)"

lemma turn_grows_refl [simp]: "turn_grows t t"
  by (simp add: turn_grows_def)

lemma turn_grows_trans:
  assumes "turn_grows t u" "turn_grows u v"
  shows "turn_grows t v"
proof -
  have "v = t\<lparr> tn_children := tn_children v \<rparr>" if st: "tn_status t \<noteq> TOpen"
  proof -
    have u: "u = t\<lparr> tn_children := tn_children u \<rparr>" using assms(1) st by (simp add: turn_grows_def)
    then have "tn_status u = tn_status t" by (metis turn.select_convs(10) turn.surjective turn.update_convs(5))
    then have "v = u\<lparr> tn_children := tn_children v \<rparr>" using assms(2) st by (simp add: turn_grows_def)
    then show ?thesis using u by (cases t; cases u; cases v) simp
  qed
  then show ?thesis using assms unfolding turn_grows_def
    by (intro conjI impI) (auto intro: order_trans prefix_order.trans)
qed

section \<open>What a turn store promises\<close>

locale turn_store =
  fixes look :: "'s \<Rightarrow> string \<Rightarrow> string \<Rightarrow> turn option"
    and step :: "turn_op \<Rightarrow> 's \<Rightarrow> 's"
    and good :: "'s \<Rightarrow> bool"
  assumes step_good: "\<lbrakk> good s; op_fresh look x s \<rbrakk> \<Longrightarrow> good (step x s)"
    and step_grows: "\<lbrakk> good s; op_fresh look x s; CHR '':'' \<notin> set i; look s te i = Some t \<rbrakk> \<Longrightarrow>
      \<exists>t'. look (step x s) te i = Some t' \<and> turn_grows t t'"
begin

lemma run_grows:
  assumes "good s" "run_fresh look step xs s" "CHR '':'' \<notin> set i" "look s te i = Some t"
  shows "\<exists>t'. look (fold step xs s) te i = Some t' \<and> turn_grows t t'"
  using assms
proof (induction xs arbitrary: s t)
  case Nil then show ?case by (simp add: turn_grows_def)
next
  case (Cons x xs)
  obtain u where u: "look (step x s) te i = Some u" "turn_grows t u"
    using step_grows Cons.prems by fastforce
  obtain v where v: "look (fold step xs (step x s)) te i = Some v" "turn_grows u v"
    using Cons.IH [of "step x s" u] Cons.prems step_good u by auto
  then show ?case using turn_grows_trans [OF u(2) v(2)] v(1) by auto
qed

lemma run_good: "\<lbrakk> good s; run_fresh look step xs s \<rbrakk> \<Longrightarrow> good (fold step xs s)"
  by (induction xs arbitrary: s) (auto simp: step_good)

end

locale closing_turn_store = turn_store +
  assumes closed_stays: "\<lbrakk> good s; op_fresh look x s; CHR '':'' \<notin> set i; look s te i = Some t; tn_status t \<noteq> TOpen \<rbrakk> \<Longrightarrow>
      look (step x s) te i = Some t"
begin

lemma run_closed:
  assumes "good s" "run_fresh look step xs s" "CHR '':'' \<notin> set i" "look s te i = Some t" "tn_status t \<noteq> TOpen"
  shows "look (fold step xs s) te i = Some t"
  using assms by (induction xs arbitrary: s) (auto simp: step_good closed_stays)

end

section \<open>The stored turns after an operation\<close>

lemma look_put_turn: "look_db (put_turn now tenant t d) te i = (if te = tenant \<and> i = tn_id t then Some t else look_db d te i)"
  by (simp add: look_db_def put_turn_def sp_put_def sp_get_def st_get_put read_turn_row)

lemma look_put_thought: "look_db (sp_put now tenant thoughts_kind k v d) te i = look_db d te i"
  by (simp add: look_db_def sp_put_def sp_get_def st_get_put)

lemma read_link_row: "read_turn (link_row tenant t i) = None"
  by (simp add: read_turn_def link_row_def req_def)

lemma look_put_link: "look_db (sp_put now tenant turns_kind k (link_row tenant t i) d) te j
    = (if te = tenant \<and> j = link_id t i then None else look_db d te j)"
  by (simp add: look_db_def sp_put_def sp_get_def st_get_put read_link_row) (simp add: jid_def jtext_def link_row_def)

lemmas look_puts = look_put_turn look_put_thought look_put_link

lemma link_id_colon: "CHR '':'' \<in> set (link_id t i)"
  by (simp add: link_id_def)

lemma get_parsed_look: "get_parsed te i d = Some (Inr t) \<Longrightarrow> look_db d te i = Some t \<and> turn_schema t"
  by (auto simp: get_parsed_def look_db_def dest: parse_turn_InrD)

lemma look_get_parsed: "look_db d te i = Some t \<Longrightarrow> get_parsed te i d = Some (check_turn t)"
  by (auto simp: get_parsed_def look_db_def parse_turn_def bind_eq_Some_conv)

text \<open>Each transaction either leaves the table as it was, or it wrote what the lemma says.\<close>

lemma sp_transaction_simps:
  "sp_transaction f d = (case f d of (Inr x, d') \<Rightarrow> (Inr x, d') | (Inl e, d') \<Rightarrow> (Inl e, d))"
  by (simp add: sp_transaction_def st_transaction_def)

lemma open_effect:
  obtains (failed) e where "sn_open now u te ow tr pe d = (Inl e, d)"
  | (opened) t where "sn_open now u te ow tr pe d = (Inr t, put_turn now te t d)" "tn_id t = u" "tn_tenant t = te"
      "t = new_turn u te ow None (if pe = Some [] then None else pe) now tr" "turn_schema t"
proof (cases "check_turn (new_turn u te ow None (if pe = Some [] then None else pe) now tr)")
  case (Inl e) then show ?thesis using failed by (simp add: sn_open_def)
next
  case (Inr t)
  then show ?thesis using opened [of t] check_turn_InrD [OF Inr]
    by (simp add: sn_open_def) (simp add: new_turn_def)
qed

lemma child_effect:
  obtains (failed) e where "sn_open_child now u te ow p tr d = (Inl e, d)"
  | (opened) c t where "sn_open_child now u te ow p tr d = (Inr c, put_turn now te c (put_turn now te (add_child u t) d))"
      "look_db d te p = Some t" "tn_status t = TOpen" "tn_tenant t = te" "c = new_turn u te ow (Some p) None now tr"
      "turn_schema c" "turn_schema t"
proof (cases "sn_open_child now u te ow p tr d")
  case (Pair r d')
  show ?thesis
  proof (cases r)
    case (Inl e)
    then show ?thesis using failed Pair by (auto simp: sn_open_child_def sp_transaction_simps split: prod.splits sum.splits)
  next
    case (Inr c)
    then have tx: "sn_child_tx now u te ow p tr d = (Inr c, d')"
      using Pair by (auto simp: sn_open_child_def sp_transaction_simps split: prod.splits sum.splits)
    then obtain t where t: "get_parsed te p d = Some (Inr t)" "tn_tenant t = te" "tn_status t = TOpen"
      and c: "check_turn (new_turn u te ow (Some p) None now tr) = Inr c"
      and d': "d' = put_turn now te c (put_turn now te (add_child u t) d)"
      by (auto simp: sn_child_tx_def split: option.splits sum.splits if_splits)
    show ?thesis using opened [of c t] t get_parsed_look [OF t(1)] check_turn_InrD [OF c] d' Pair Inr by simp
  qed
qed

lemma append_effect:
  obtains (failed) e where "sn_append now th s = (Inl e, s)"
  | (appended) t d where "sn_append now th s = (Inr th, s\<lparr> sn_db := d \<rparr>)"
      "d = put_turn now (th_tenant th) (add_thought now (th_id th) t)
         (sp_put now (th_tenant th) turns_kind (link_id (tn_id t) (th_id th)) (link_row (th_tenant th) (tn_id t) (th_id th))
           (sp_put now (th_tenant th) thoughts_kind (th_id th) (thought_row th) (sn_db s)))"
      "look_db (sn_db s) (th_tenant th) (th_turn th) = Some t" "tn_status t = TOpen" "tn_tenant t = th_tenant th"
      "length (tn_thoughts t) < limit_for (th_tenant th) (sn_limits s)" "turn_schema t" "thought_schema th"
proof (cases "check_thought th")
  case (Inl e) then show ?thesis using failed by (simp add: sn_append_def)
next
  case (Inr p)
  have p: "p = th" "thought_schema th" using check_thought_SomeD [OF Inr] by auto
  let ?m = "limit_for (th_tenant th) (sn_limits s)"
  show ?thesis
  proof (cases "sn_append_tx now ?m th (sn_db s)")
    case (Pair r d')
    show ?thesis
    proof (cases r)
      case (Inl e)
      then show ?thesis using failed Inr p Pair by (simp add: sn_append_def sp_transaction_simps)
    next
      case r: (Inr th')
      then have "\<exists>t. get_parsed (th_tenant th) (th_turn th) (sn_db s) = Some (Inr t) \<and> tn_status t = TOpen
          \<and> tn_tenant t = th_tenant th \<and> length (tn_thoughts t) < ?m \<and> th' = th
          \<and> d' = put_turn now (tn_tenant t) (add_thought now (th_id th) t)
              (sp_put now (th_tenant th) turns_kind (link_id (tn_id t) (th_id th)) (link_row (th_tenant th) (tn_id t) (th_id th))
                (sp_put now (th_tenant th) thoughts_kind (th_id th) (thought_row th) (sn_db s)))"
        using Pair by (auto simp: sn_append_tx_def split: option.splits sum.splits if_splits)
      then obtain t where t: "get_parsed (th_tenant th) (th_turn th) (sn_db s) = Some (Inr t)" "tn_status t = TOpen"
          "tn_tenant t = th_tenant th" "length (tn_thoughts t) < ?m" "th' = th"
        and d': "d' = put_turn now (tn_tenant t) (add_thought now (th_id th) t)
              (sp_put now (th_tenant th) turns_kind (link_id (tn_id t) (th_id th)) (link_row (th_tenant th) (tn_id t) (th_id th))
                (sp_put now (th_tenant th) thoughts_kind (th_id th) (thought_row th) (sn_db s)))" by blast
      show ?thesis using appended [of d' t] t d' get_parsed_look [OF t(1)] p Inr r Pair
        by (simp add: sn_append_def sp_transaction_simps)
    qed
  qed
qed

lemma close_effect:
  obtains (failed) e where "sp_transaction (sn_close_tx now te i re wh) d = (Inl e, d)"
  | (unchanged) t where "sp_transaction (sn_close_tx now te i re wh) d = (Inr t, d)" "look_db d te i = Some t"
      "tn_status t \<noteq> TOpen" "tn_tenant t = te" "turn_schema t"
  | (closed) t where "sp_transaction (sn_close_tx now te i re wh) d = (Inr (close_turn now re wh t), put_turn now te (close_turn now re wh t) d)"
      "look_db d te i = Some t" "tn_status t = TOpen" "tn_tenant t = te" "turn_schema t"
proof (cases "get_parsed te i d")
  case None then show ?thesis using failed by (simp add: sp_transaction_simps sn_close_tx_def)
next
  case (Some r)
  show ?thesis
  proof (cases r)
    case (Inl e) then show ?thesis using Some failed by (simp add: sp_transaction_simps sn_close_tx_def)
  next
    case (Inr t)
    then have l: "look_db d te i = Some t" "turn_schema t" using Some get_parsed_look by auto
    show ?thesis
    proof (cases "tn_tenant t = te")
      case False then show ?thesis using Some Inr failed by (simp add: sp_transaction_simps sn_close_tx_def)
    next
      case True
      then show ?thesis using Some Inr l unchanged [of t] closed [of t]
        by (cases "tn_status t = TOpen") (simp_all add: sp_transaction_simps sn_close_tx_def)
    qed
  qed
qed

text \<open>A whole \<open>closeTurn\<close> is its transaction at the end of the sleep.\<close>

lemma sn_close_end: "sn_close (\<lambda>d. d) now te i re wh d = (case close_wait now te i re d of
    Inl e \<Rightarrow> (Inl e, d) | Inr w \<Rightarrow> sp_transaction (sn_close_tx (now + w) te i re wh) d)"
  by (simp add: sn_close_def cong: if_cong split: sum.split)

lemma sn_close_effect:
  obtains (failed) e where "sn_close (\<lambda>d. d) now te i re wh d = (Inl e, d)"
  | (unchanged) t where "sn_close (\<lambda>d. d) now te i re wh d = (Inr t, d)" "look_db d te i = Some t"
      "tn_status t \<noteq> TOpen" "tn_tenant t = te" "turn_schema t"
  | (closed) n t where "sn_close (\<lambda>d. d) now te i re wh d = (Inr (close_turn n re wh t), put_turn n te (close_turn n re wh t) d)"
      "look_db d te i = Some t" "tn_status t = TOpen" "tn_tenant t = te" "turn_schema t"
proof (cases "close_wait now te i re d")
  case (Inl e) then show ?thesis using failed by (simp add: sn_close_end)
next
  case (Inr w)
  then have tx: "sn_close (\<lambda>d. d) now te i re wh d = sp_transaction (sn_close_tx (now + w) te i re wh) d"
    by (simp add: sn_close_end)
  show ?thesis
    by (rule close_effect [of "now + w" te i re wh d]; rule failed unchanged closed) (use tx in simp_all)
qed

lemma sn_get_db [simp]: "sn_db (snd (sn_get now te i s)) = sn_db s"
  by (simp add: sn_get_def Let_def split: option.split sum.split prod.split)

section \<open>Both classes keep the promise\<close>

text \<open>Every stored turn is under its own id and tenant.\<close>

definition well_keyed :: "('s \<Rightarrow> string \<Rightarrow> string \<Rightarrow> turn option) \<Rightarrow> 's \<Rightarrow> bool" where
  "well_keyed look s \<longleftrightarrow> (\<forall>te i t. look s te i = Some t \<longrightarrow> tn_id t = i \<and> tn_tenant t = te)"

lemma status_le [simp]: "TOpen \<le> st" "(st :: turn_status) \<le> TOpen \<longleftrightarrow> st = TOpen"
  by (cases st; simp add: less_eq_turn_status_def)+

lemma grows_child: "tn_status t = TOpen \<Longrightarrow> turn_grows t (add_child u t)" "turn_grows t (add_child u t)"
  by (simp_all add: turn_grows_def add_child_def)

lemma grows_thought: "tn_status t = TOpen \<Longrightarrow> turn_grows t (add_thought now u t)"
  by (simp add: turn_grows_def add_thought_def)

lemma grows_close: "tn_status t = TOpen \<Longrightarrow> turn_grows t (close_turn now re wh t)"
  by (simp add: turn_grows_def close_turn_def)

lemma turn_ids [simp]:
  "tn_id (add_child u t) = tn_id t" "tn_tenant (add_child u t) = tn_tenant t"
  "tn_id (add_thought now u t) = tn_id t" "tn_tenant (add_thought now u t) = tn_tenant t"
  "tn_id (close_turn now re wh t) = tn_id t" "tn_tenant (close_turn now re wh t) = tn_tenant t"
  "tn_id (new_turn i te ow pa pe now tr) = i" "tn_tenant (new_turn i te ow pa pe now tr) = te"
  by (simp_all add: add_child_def add_thought_def close_turn_def new_turn_def)

text \<open>What a step does to the turns of the table, one at a time.\<close>

lemma sn_step_cases:
  assumes "well_keyed sn_look s" and f: "op_fresh sn_look x s" and look: "sn_look (sn_step x s) te i = Some t'"
  obtains (same) "sn_look s te i = Some t'"
  | (new) "op_uuid x = Some i" "tn_id t' = i" "tn_tenant t' = te"
  | (child) t u where "sn_look s te i = Some t" "tn_status t = TOpen" "t' = add_child u t"
  | (thought) t u now where "sn_look s te i = Some t" "tn_status t = TOpen" "t' = add_thought now u t"
  | (closed) t now re wh where "sn_look s te i = Some t" "tn_status t = TOpen" "t' = close_turn now re wh t"
proof (cases x)
  case (OpOpen now u te' ow tr pe)
  show ?thesis
    by (rule open_effect [of now u te' ow tr pe "sn_db s"])
      (use OpOpen look new same in \<open>auto simp: sn_step_def sn_look_def look_puts split: if_splits\<close>)
next
  case (OpChild now u te' ow p tr)
  show ?thesis
  proof (rule child_effect [of now u te' ow p tr "sn_db s"])
    fix c t assume t: "sn_open_child now u te' ow p tr (sn_db s) = (Inr c, put_turn now te' c (put_turn now te' (add_child u t) (sn_db s)))"
      "look_db (sn_db s) te' p = Some t" "tn_status t = TOpen" "tn_tenant t = te'" "c = new_turn u te' ow (Some p) None now tr"
    have "tn_id t = p" using assms(1) t(2) by (simp add: well_keyed_def sn_look_def)
    then show ?thesis using OpChild look t new same child [of t u]
      by (auto simp: sn_step_def sn_look_def look_puts split: if_splits)
  qed (use OpChild look same in \<open>auto simp: sn_step_def sn_look_def\<close>)
next
  case (OpAppend now th)
  show ?thesis
  proof (rule append_effect [of now th s])
    fix t d assume t: "sn_append now th s = (Inr th, s\<lparr> sn_db := d \<rparr>)"
      "d = put_turn now (th_tenant th) (add_thought now (th_id th) t)
         (sp_put now (th_tenant th) turns_kind (link_id (tn_id t) (th_id th)) (link_row (th_tenant th) (tn_id t) (th_id th))
           (sp_put now (th_tenant th) thoughts_kind (th_id th) (thought_row th) (sn_db s)))"
      "look_db (sn_db s) (th_tenant th) (th_turn th) = Some t" "tn_status t = TOpen"
    have "tn_id t = th_turn th" using assms(1) t(3) by (simp add: well_keyed_def sn_look_def)
    then show ?thesis using OpAppend look t same thought [of t now "th_id th"]
      by (auto simp: sn_step_def sn_look_def look_puts split: if_splits)
  qed (use OpAppend look same in \<open>auto simp: sn_step_def sn_look_def\<close>)
next
  case (OpClose now te' j re wh)
  show ?thesis
  proof (rule sn_close_effect [of now te' j re wh "sn_db s"])
    fix n t assume t: "sn_close (\<lambda>d. d) now te' j re wh (sn_db s) = (Inr (close_turn n re wh t), put_turn n te' (close_turn n re wh t) (sn_db s))"
      "look_db (sn_db s) te' j = Some t" "tn_status t = TOpen"
    have "tn_id t = j" using assms(1) t(2) by (simp add: well_keyed_def sn_look_def)
    then show ?thesis using OpClose look t same closed [of t n re wh]
      by (auto simp: sn_step_def sn_look_def look_puts split: if_splits)
  qed (use OpClose look same in \<open>auto simp: sn_step_def sn_look_def\<close>)
next
  case (OpCloseEnd now te' j re wh)
  show ?thesis
  proof (rule close_effect [of now te' j re wh "sn_db s"])
    fix t assume t: "sp_transaction (sn_close_tx now te' j re wh) (sn_db s) = (Inr (close_turn now re wh t), put_turn now te' (close_turn now re wh t) (sn_db s))"
      "look_db (sn_db s) te' j = Some t" "tn_status t = TOpen"
    have "tn_id t = j" using assms(1) t(2) by (simp add: well_keyed_def sn_look_def)
    then show ?thesis using OpCloseEnd look t same closed [of t now re wh]
      by (auto simp: sn_step_def sn_look_def look_puts split: if_splits)
  qed (use OpCloseEnd look same in \<open>auto simp: sn_step_def sn_look_def\<close>)
qed (use look same in \<open>simp_all add: sn_step_def sn_look_def\<close>)

lemma sn_step_kept:
  assumes "well_keyed sn_look s" and "op_fresh sn_look x s" and "CHR '':'' \<notin> set i" and l: "sn_look s te i = Some t"
  shows "\<exists>t'. sn_look (sn_step x s) te i = Some t'"
proof (cases x)
  case (OpOpen now u te' ow tr pe)
  show ?thesis
    by (rule open_effect [of now u te' ow tr pe "sn_db s"])
      (use OpOpen l in \<open>auto simp: sn_step_def sn_look_def look_puts\<close>)
next
  case (OpChild now u te' ow p tr)
  show ?thesis
    by (rule child_effect [of now u te' ow p tr "sn_db s"])
      (use OpChild l in \<open>auto simp: sn_step_def sn_look_def look_puts\<close>)
next
  case (OpAppend now th)
  show ?thesis
    by (rule append_effect [of now th s])
      (use OpAppend l assms(3) link_id_colon in \<open>auto simp: sn_step_def sn_look_def look_puts\<close>)
next
  case (OpClose now te' j re wh)
  show ?thesis
    by (rule sn_close_effect [of now te' j re wh "sn_db s"])
      (use OpClose l in \<open>auto simp: sn_step_def sn_look_def look_puts\<close>)
next
  case (OpCloseEnd now te' j re wh)
  show ?thesis
    by (rule close_effect [of now te' j re wh "sn_db s"])
      (use OpCloseEnd l in \<open>auto simp: sn_step_def sn_look_def look_puts\<close>)
qed (use l in \<open>simp_all add: sn_step_def sn_look_def\<close>)

lemma fresh_look: "\<lbrakk> op_fresh look x s; op_uuid x = Some i \<rbrakk> \<Longrightarrow> look s te i = None"
  by (simp add: op_fresh_def)

interpretation sns: closing_turn_store sn_look sn_step "well_keyed sn_look"
proof unfold_locales
  fix s x assume s: "well_keyed sn_look s" "op_fresh sn_look x s"
  have "tn_id t' = i \<and> tn_tenant t' = te" if "sn_look (sn_step x s) te i = Some t'" for te i t'
    using s(1) by (cases rule: sn_step_cases [OF s that]) (auto simp: well_keyed_def)
  then show "well_keyed sn_look (sn_step x s)" by (simp add: well_keyed_def)
  fix i te t assume i: "CHR '':'' \<notin> set i" "sn_look s te i = Some t"
  then obtain t' where t': "sn_look (sn_step x s) te i = Some t'" using sn_step_kept [OF s] by blast
  show "\<exists>t'. sn_look (sn_step x s) te i = Some t' \<and> turn_grows t t'"
    by (cases rule: sn_step_cases [OF s t'])
      (use i t' fresh_look [OF s(2), of i te] grows_child grows_thought grows_close in auto)
  assume "tn_status t \<noteq> TOpen"
  then show "sn_look (sn_step x s) te i = Some t"
    by (cases rule: sn_step_cases [OF s t']) (use i t' fresh_look [OF s(2), of i te] in auto)
qed

lemma mem_look_set_turn: "mem_look (set_turn t s) te i =
    (if i = tn_id t then (if tn_tenant t = te then Some t else None) else mem_look s te i)"
  by (simp add: mem_look_def mt_get_def set_turn_def)

lemma mem_look_thoughts [simp]: "mem_look (s\<lparr> mt_thoughts := x \<rparr>) te i = mem_look s te i"
  by (simp add: mem_look_def mt_get_def)

lemma mem_look_Some: "mem_look s te i = Some t \<longleftrightarrow> map_of (mt_turns s) i = Some t \<and> tn_tenant t = te"
  by (auto simp: mem_look_def mt_get_def split: option.splits)

lemma mem_fresh: "(\<forall>te. mem_look s te u = None) \<longleftrightarrow> map_of (mt_turns s) u = None"
  by (auto simp: mem_look_def mt_get_def split: option.splits if_splits)

lemma mem_keyed: "\<lbrakk> well_keyed mem_look s; map_of (mt_turns s) i = Some t \<rbrakk> \<Longrightarrow> tn_id t = i"
  by (auto simp: well_keyed_def mem_look_Some)

lemma mem_open_cases:
  obtains (failed) e where "mt_open now u te ow tr pe s = (Inl e, s)"
  | (opened) t where "mt_open now u te ow tr pe s = (Inr t, set_turn t s)" "t = new_turn u te ow None None now tr" "turn_schema t"
  by (cases "check_turn (new_turn u te ow None None now tr)") (auto simp: mt_open_def dest: check_turn_InrD)

lemma mem_child_cases:
  obtains (failed) e where "mt_open_child now u te ow p tr s = (Inl e, s)"
  | (opened) c t where "mt_open_child now u te ow p tr s = (Inr c, set_turn c (set_turn (add_child u t) s))"
      "map_of (mt_turns s) p = Some t" "tn_tenant t = te" "c = new_turn u te ow (Some p) None now tr" "turn_schema c"
proof (cases "map_of (mt_turns s) p")
  case None then show ?thesis using failed by (simp add: mt_open_child_def)
next
  case (Some t)
  show ?thesis
  proof (cases "tn_tenant t = te \<and> is_ok (check_turn (new_turn u te ow (Some p) None now tr))")
    case False then show ?thesis using Some failed
      by (cases "check_turn (new_turn u te ow (Some p) None now tr)"; cases "tn_tenant t = te") (auto simp: mt_open_child_def)
  next
    case True
    then obtain c where c: "check_turn (new_turn u te ow (Some p) None now tr) = Inr c" by (auto elim: is_okE)
    show ?thesis using opened [of c t] check_turn_InrD [OF c] Some True c by (simp add: mt_open_child_def)
  qed
qed

lemma mem_append_cases:
  obtains (failed) e where "mt_append now th s = (Inl e, s)"
  | (appended) t where "mt_append now th s = (Inr th, set_turn (add_thought now (th_id th) t) (s\<lparr> mt_thoughts := AList.update (th_id th) th (mt_thoughts s) \<rparr>))"
      "map_of (mt_turns s) (th_turn th) = Some t" "tn_status t = TOpen" "tn_tenant t = th_tenant th" "thought_schema th"
proof (cases "check_thought th")
  case (Inl e) then show ?thesis using failed by (simp add: mt_append_def)
next
  case (Inr p)
  then have p: "p = th" "thought_schema th" using check_thought_SomeD by auto
  show ?thesis
  proof (cases "map_of (mt_turns s) (th_turn th)")
    case None then show ?thesis using failed Inr p by (simp add: mt_append_def)
  next
    case (Some t)
    then show ?thesis using failed appended [of t] Inr p
      by (cases "tn_status t = TOpen"; cases "tn_tenant t = th_tenant th") (simp_all add: mt_append_def)
  qed
qed

lemma mem_close_cases:
  obtains (failed) e where "mt_close now te i re wh s = (Inl e, s)"
  | (unchanged) t where "mt_close now te i re wh s = (Inr t, s)" "map_of (mt_turns s) i = Some t" "tn_status t \<noteq> TOpen" "tn_tenant t = te"
  | (closed) t where "mt_close now te i re wh s = (Inr (close_turn now re wh t), set_turn (close_turn now re wh t) s)"
      "map_of (mt_turns s) i = Some t" "tn_status t = TOpen" "tn_tenant t = te"
proof (cases "map_of (mt_turns s) i")
  case None then show ?thesis using failed by (simp add: mt_close_def)
next
  case (Some t)
  then show ?thesis using failed unchanged [of t] closed [of t]
    by (cases "tn_status t = TOpen"; cases "tn_tenant t = te") (simp_all add: mt_close_def)
qed

lemma mem_keyed_set: "\<lbrakk> well_keyed mem_look s \<rbrakk> \<Longrightarrow> well_keyed mem_look (set_turn t s)"
  by (auto simp: well_keyed_def mem_look_set_turn split: if_splits)

lemma mem_keyed_thoughts: "well_keyed mem_look s \<Longrightarrow> well_keyed mem_look (s\<lparr> mt_thoughts := x \<rparr>)"
  by (simp add: well_keyed_def)

lemma mem_step_keyed:
  assumes "well_keyed mem_look s" shows "well_keyed mem_look (mem_step x s)"
proof (cases x)
  case (OpOpen now u te ow tr pe) then show ?thesis using assms
    by (cases rule: mem_open_cases [of now u te ow tr pe s]) (auto simp: mem_step_def intro: mem_keyed_set)
next
  case (OpChild now u te ow p tr) then show ?thesis using assms
    by (cases rule: mem_child_cases [of now u te ow p tr s]) (auto simp: mem_step_def intro: mem_keyed_set)
next
  case (OpAppend now th) then show ?thesis using assms
    by (cases rule: mem_append_cases [of now th s]) (auto simp: mem_step_def intro!: mem_keyed_set mem_keyed_thoughts)
next
  case (OpClose now te i re wh) then show ?thesis using assms
    by (cases rule: mem_close_cases [of now te i re wh s]) (auto simp: mem_step_def intro: mem_keyed_set)
next
  case (OpCloseEnd now te i re wh) then show ?thesis using assms
    by (cases rule: mem_close_cases [of now te i re wh s]) (auto simp: mem_step_def intro: mem_keyed_set)
qed (use assms in \<open>simp_all add: mem_step_def\<close>)

lemma mem_set_grows:
  assumes "well_keyed mem_look s" "map_of (mt_turns s) j = Some u" "turn_grows u u'" "mem_look s te i = Some t"
  shows "\<exists>t'. mem_look (set_turn u' s) te i = Some t' \<and> turn_grows t t'"
proof (cases "i = j")
  case True
  then have "u = t" "tn_tenant t = te" "tn_id u = j" using assms mem_keyed by (auto simp: mem_look_Some)
  then show ?thesis using assms(3) True by (simp add: mem_look_set_turn turn_grows_def)
next
  case False
  then show ?thesis using assms mem_keyed [OF assms(1,2)] by (simp add: mem_look_set_turn turn_grows_def)
qed

lemma mem_step_grows:
  assumes s: "well_keyed mem_look s" "op_fresh mem_look x s" and l: "mem_look s te i = Some t"
  shows "\<exists>t'. mem_look (mem_step x s) te i = Some t' \<and> turn_grows t t'"
proof (cases x)
  case (OpOpen now u te' ow tr pe)
  have "i \<noteq> u" using s(2) l OpOpen by (auto simp: op_fresh_def)
  then show ?thesis using OpOpen l
    by (cases rule: mem_open_cases [of now u te' ow tr pe s]) (auto simp: mem_step_def mem_look_set_turn)
next
  case (OpChild now u te' ow p tr)
  have u: "i \<noteq> u" using s(2) l OpChild by (auto simp: op_fresh_def)
  show ?thesis
  proof (cases rule: mem_child_cases [of now u te' ow p tr s])
    case (opened c t')
    obtain t2 where t2: "mem_look (set_turn (add_child u t') s) te i = Some t2" "turn_grows t t2"
      using mem_set_grows [OF s(1) opened(2) grows_child(2) l] by blast
    have "mem_look (set_turn c (set_turn (add_child u t') s)) te i = Some t2"
      using t2(1) u opened(4) by (simp add: mem_look_set_turn)
    then show ?thesis using t2(2) OpChild opened(1) by (simp add: mem_step_def)
  qed (use OpChild l in \<open>auto simp: mem_step_def\<close>)
next
  case (OpAppend now th)
  show ?thesis
  proof (cases rule: mem_append_cases [of now th s])
    case (appended t')
    have "mem_look (s\<lparr> mt_thoughts := AList.update (th_id th) th (mt_thoughts s) \<rparr>) te i = Some t" using l by simp
    from mem_set_grows [OF mem_keyed_thoughts [OF s(1)] _ grows_thought [OF appended(3)] this, of "th_turn th"]
    show ?thesis using OpAppend appended(1,2) by (simp add: mem_step_def)
  qed (use OpAppend l in \<open>auto simp: mem_step_def\<close>)
next
  case (OpClose now te' j re wh)
  show ?thesis
  proof (cases rule: mem_close_cases [of now te' j re wh s])
    case (closed t')
    show ?thesis using mem_set_grows [OF s(1) closed(2) grows_close [OF closed(3)] l] OpClose closed(1)
      by (simp add: mem_step_def)
  qed (use OpClose l in \<open>auto simp: mem_step_def\<close>)
next
  case (OpCloseEnd now te' j re wh)
  show ?thesis
  proof (cases rule: mem_close_cases [of now te' j re wh s])
    case (closed t')
    show ?thesis using mem_set_grows [OF s(1) closed(2) grows_close [OF closed(3)] l] OpCloseEnd closed(1)
      by (simp add: mem_step_def)
  qed (use OpCloseEnd l in \<open>auto simp: mem_step_def\<close>)
qed (use l in \<open>simp_all add: mem_step_def\<close>)

interpretation mts: turn_store mem_look mem_step "well_keyed mem_look"
proof unfold_locales
  show "well_keyed mem_look (mem_step x s)" if "well_keyed mem_look s" for x s using that by (rule mem_step_keyed)
  show "\<exists>t'. mem_look (mem_step x s) te i = Some t' \<and> turn_grows t t'"
    if "well_keyed mem_look s" "op_fresh mem_look x s" "mem_look s te i = Some t" for x s i te t
    using that by (rule mem_step_grows)
qed

section \<open>The stored turns simulate the turns in memory\<close>

text \<open>\<open>InMemoryTurnStore\<close> drops the persona of a turn.\<close>

definition unnamed :: "turn \<Rightarrow> turn" where
  "unnamed t = t\<lparr> tn_persona := None \<rparr>"

definition turns_sim :: "mem_turns \<Rightarrow> store_turns \<Rightarrow> bool" where
  "turns_sim m s \<longleftrightarrow> well_keyed mem_look m \<and> well_keyed sn_look s
     \<and> (\<forall>te i. sn_look s te i \<noteq> None \<longrightarrow> CHR '':'' \<notin> set i)
     \<and> (\<forall>te i. mem_look m te i = map_option unnamed (sn_look s te i))"

primrec unnamed_out :: "turn_out \<Rightarrow> turn_out" where
  "unnamed_out (OutTurn t) = OutTurn (unnamed t)"
| "unnamed_out (OutThought th) = OutThought th"
| "unnamed_out (OutMaybe t) = OutMaybe (map_option unnamed t)"
| "unnamed_out (OutThoughts ths) = OutThoughts ths"
| "unnamed_out (OutTurns ts) = OutTurns (map unnamed ts)"

text \<open>The same call at the moment at which the sleep of a close by quiescence ends: the class in memory
  does not sleep.\<close>

fun after_wait :: "turn_op \<Rightarrow> store_turns \<Rightarrow> turn_op" where
  "after_wait (OpClose now te i re wh) s = (case close_wait now te i re (sn_db s) of
     Inl e \<Rightarrow> OpClose now te i re wh | Inr w \<Rightarrow> OpClose (now + w) te i re wh)"
| "after_wait x s = x"

text \<open>\<open>getTurn\<close> has no entry in its cache that is younger than a second.\<close>

definition cache_old :: "int \<Rightarrow> string \<Rightarrow> string \<Rightarrow> store_turns \<Rightarrow> bool" where
  "cache_old now te i s \<longleftrightarrow> (\<forall>since t. map_of (sn_cache s) (cache_key te i) = Some (since, t) \<longrightarrow> 1000 \<le> now - since)"

lemma unnamed_simps [simp]:
  "unnamed (add_child u t) = add_child u (unnamed t)" "unnamed (add_thought now u t) = add_thought now u (unnamed t)"
  "unnamed (close_turn now re wh t) = close_turn now re wh (unnamed t)" "tn_id (unnamed t) = tn_id t"
  "tn_tenant (unnamed t) = tn_tenant t" "tn_status (unnamed t) = tn_status t"
  "unnamed (new_turn i te ow pa pe now tr) = new_turn i te ow pa None now tr"
  by (simp_all add: unnamed_def add_child_def add_thought_def close_turn_def new_turn_def)

lemma check_new_unnamed: "turn_schema (new_turn i te ow pa pe now tr) \<Longrightarrow>
    check_turn (new_turn i te ow pa None now tr) = Inr (new_turn i te ow pa None now tr)"
  by (simp add: check_turn_def turn_schema_def new_turn_def)

lemma keyedD: "\<lbrakk> well_keyed look s; look s te i = Some t \<rbrakk> \<Longrightarrow> tn_id t = i \<and> tn_tenant t = te"
  unfolding well_keyed_def by blast

lemma turns_simD:
  assumes "turns_sim m s"
  shows "well_keyed mem_look m" "well_keyed sn_look s" "mem_look m te i = map_option unnamed (sn_look s te i)"
    "CHR '':'' \<in> set i \<Longrightarrow> sn_look s te i = None"
  using assms unfolding turns_sim_def by blast+

lemma turns_simI:
  assumes "well_keyed mem_look m" "\<And>te i. mem_look m te i = map_option unnamed (sn_look s te i)"
    and "\<And>te i t. sn_look s te i = Some t \<Longrightarrow> tn_id t = i \<and> tn_tenant t = te \<and> CHR '':'' \<notin> set i"
  shows "turns_sim m s"
  unfolding turns_sim_def well_keyed_def using assms(2,3) keyedD [OF assms(1)] by blast

lemma sim_put:
  assumes "turns_sim m s" "\<And>te. te \<noteq> tn_tenant t \<Longrightarrow> sn_look s te (tn_id t) = None" "CHR '':'' \<notin> set (tn_id t)"
    and db: "sn_db s' = put_turn now (tn_tenant t) t (sn_db s)"
  shows "turns_sim (set_turn (unnamed t) m) s'"
proof (rule turns_simI)
  note sim = turns_simD [OF assms(1)]
  have l: "sn_look s' te i = (if te = tn_tenant t \<and> i = tn_id t then Some t else sn_look s te i)" for te i
    using db by (simp add: sn_look_def look_put_turn)
  show "well_keyed mem_look (set_turn (unnamed t) m)" using sim(1) by (rule mem_keyed_set)
  show "mem_look (set_turn (unnamed t) m) te i = map_option unnamed (sn_look s' te i)" for te i
    using assms(2) [of te] by (simp add: l mem_look_set_turn sim(3))
  show "tn_id u = i \<and> tn_tenant u = te \<and> CHR '':'' \<notin> set i" if "sn_look s' te i = Some u" for te i u
  proof (cases "te = tn_tenant t \<and> i = tn_id t")
    case True then show ?thesis using that assms(3) by (simp add: l)
  next
    case False
    then have "sn_look s te i = Some u" using that by (simp only: l if_False)
    then show ?thesis using keyedD [OF sim(2), of te i u] sim(4) [of i te] by fastforce
  qed
qed

lemma sim_thoughts: "turns_sim m s \<Longrightarrow> turns_sim (m\<lparr> mt_thoughts := x \<rparr>) s"
  unfolding turns_sim_def using mem_keyed_thoughts by simp

lemma sim_same:
  assumes "turns_sim m s" "\<And>te i. sn_look s' te i = sn_look s te i"
  shows "turns_sim m s'"
proof (rule turns_simI)
  note sim = turns_simD [OF assms(1)]
  show "well_keyed mem_look m" by (rule sim)
  show "mem_look m te i = map_option unnamed (sn_look s' te i)" for te i by (simp only: assms(2) sim(3))
  show "tn_id t = i \<and> tn_tenant t = te \<and> CHR '':'' \<notin> set i" if "sn_look s' te i = Some t" for te i t
    using that keyedD [OF sim(2), of te i t] sim(4) [of i te] unfolding assms(2) by fastforce
qed

lemma sim_rows:
  assumes "turns_sim m s"
  shows "turns_sim m (s\<lparr> sn_db := sp_put now te turns_kind (link_id t i) (link_row te t i)
    (sp_put now te thoughts_kind i v (sn_db s)) \<rparr>)"
proof (rule sim_same [OF assms])
  have "sn_look s te' (link_id t i) = None" for te'
    using turns_simD(4) [OF assms link_id_colon] .
  then show "sn_look (s\<lparr> sn_db := sp_put now te turns_kind (link_id t i) (link_row te t i)
    (sp_put now te thoughts_kind i v (sn_db s)) \<rparr>) te' j = sn_look s te' j" for te' j
    by (simp add: sn_look_def look_puts)
qed

lemma sim_lookup:
  assumes "turns_sim m s" "look_db (sn_db s) te i = Some t"
  shows "map_of (mt_turns m) i = Some (unnamed t)" "tn_id t = i" "tn_tenant t = te" "CHR '':'' \<notin> set i"
    "te' \<noteq> te \<Longrightarrow> sn_look s te' i = None"
proof -
  note sim = turns_simD [OF assms(1)]
  have s: "sn_look s te i = Some t" using assms(2) by (simp add: sn_look_def)
  then have l: "mem_look m te i = Some (unnamed t)" using sim(3) [of te i] by simp
  then show m: "map_of (mt_turns m) i = Some (unnamed t)" by (simp add: mem_look_Some)
  show "tn_id t = i" "tn_tenant t = te" using keyedD [OF sim(2) s] by auto
  show "CHR '':'' \<notin> set i" using sim(4) [of i te] s by auto
  have "mem_look m te' i = None" if "te' \<noteq> te" using m l that by (simp add: mem_look_def mt_get_def split: if_splits)
  then show "te' \<noteq> te \<Longrightarrow> sn_look s te' i = None" using sim(3) [of te' i] by simp
qed

lemma sim_open:
  assumes sim: "turns_sim m s" and fresh: "op_fresh sn_look (OpOpen now u te ow tr pe) s"
    and run: "sn_do (OpOpen now u te ow tr pe) s = (Inr r, s')"
  shows "\<exists>m'. mem_do (OpOpen now u te ow tr pe) m = (Inr (unnamed_out r), m') \<and> turns_sim m' s'"
proof (cases rule: open_effect [of now u te ow tr pe "sn_db s"])
  case (opened t)
  have "mt_open now u te ow tr pe m = (Inr (unnamed t), set_turn (unnamed t) m)"
    using opened check_new_unnamed [of u te ow None _ now tr] by (simp add: mt_open_def)
  moreover have "turns_sim (set_turn (unnamed t) m) s'"
    by (rule sim_put [OF sim]) (use fresh run opened in \<open>auto simp: op_fresh_def\<close>)
  ultimately show ?thesis using run opened(1) by auto
qed (use run in simp)

lemma sim_child:
  assumes sim: "turns_sim m s" and fresh: "op_fresh sn_look (OpChild now u te ow p tr) s"
    and run: "sn_do (OpChild now u te ow p tr) s = (Inr r, s')"
  shows "\<exists>m'. mem_do (OpChild now u te ow p tr) m = (Inr (unnamed_out r), m') \<and> turns_sim m' s'"
proof (cases rule: child_effect [of now u te ow p tr "sn_db s"])
  case (opened c t)
  note l = sim_lookup [OF sim opened(2)]
  have "mt_open_child now u te ow p tr m = (Inr (unnamed c), set_turn (unnamed c) (set_turn (unnamed (add_child u t)) m))"
    using opened l check_new_unnamed [of u te ow "Some p" None now tr] by (simp add: mt_open_child_def)
  moreover have "turns_sim (set_turn (unnamed (add_child u t)) m) (s\<lparr> sn_db := put_turn now te (add_child u t) (sn_db s) \<rparr>)"
    by (rule sim_put [OF sim]) (use l in simp_all)
  then have "turns_sim (set_turn (unnamed c) (set_turn (unnamed (add_child u t)) m)) s'"
    by (rule sim_put) (use fresh run opened l in \<open>auto simp: op_fresh_def sn_look_def look_put_turn\<close>)
  ultimately show ?thesis using run opened(1) by auto
qed (use run in simp)

lemma sim_append:
  assumes sim: "turns_sim m s" and run: "sn_do (OpAppend now th) s = (Inr r, s')"
  shows "\<exists>m'. mem_do (OpAppend now th) m = (Inr (unnamed_out r), m') \<and> turns_sim m' s'"
proof (cases rule: append_effect [of now th s])
  case (appended t d)
  note l = sim_lookup [OF sim appended(3)]
  have "mt_append now th m = (Inr th, set_turn (unnamed (add_thought now (th_id th) t))
      (m\<lparr> mt_thoughts := AList.update (th_id th) th (mt_thoughts m) \<rparr>))"
    using appended l by (simp add: mt_append_def check_thought_def)
  moreover have "turns_sim (set_turn (unnamed (add_thought now (th_id th) t))
      (m\<lparr> mt_thoughts := AList.update (th_id th) th (mt_thoughts m) \<rparr>)) s'"
    by (rule sim_put [OF sim_rows [OF sim_thoughts [OF sim]]])
      (use run appended l in \<open>auto simp: sn_look_def look_puts\<close>)
  ultimately show ?thesis using run appended(1) by auto
qed (use run in simp)

lemma sim_end:
  assumes sim: "turns_sim m s" and run: "sn_do (OpCloseEnd now te i re wh) s = (Inr r, s')"
  shows "\<exists>m'. mem_do (OpCloseEnd now te i re wh) m = (Inr (unnamed_out r), m') \<and> turns_sim m' s'"
proof (cases rule: close_effect [of now te i re wh "sn_db s"])
  case (unchanged t)
  then have "mt_close now te i re wh m = (Inr (unnamed t), m)"
    using sim_lookup [OF sim unchanged(2)] by (simp add: mt_close_def)
  then show ?thesis using run unchanged(1) sim by auto
next
  case (closed t)
  note l = sim_lookup [OF sim closed(2)]
  have "mt_close now te i re wh m = (Inr (unnamed (close_turn now re wh t)), set_turn (unnamed (close_turn now re wh t)) m)"
    using closed l by (simp add: mt_close_def)
  moreover have "turns_sim (set_turn (unnamed (close_turn now re wh t)) m) s'"
    by (rule sim_put [OF sim]) (use run closed l in auto)
  ultimately show ?thesis using run closed(1) by auto
qed (use run in simp)

lemma sim_close:
  assumes sim: "turns_sim m s" and run: "sn_do (OpClose now te i re wh) s = (Inr r, s')"
  shows "\<exists>m'. mem_do (after_wait (OpClose now te i re wh) s) m = (Inr (unnamed_out r), m') \<and> turns_sim m' s'"
proof (cases "close_wait now te i re (sn_db s)")
  case (Inl e) then show ?thesis using run by (simp add: sn_close_end)
next
  case (Inr w)
  then have "sn_do (OpCloseEnd (now + w) te i re wh) s = (Inr r, s')" using run by (simp add: sn_close_end)
  from sim_end [OF sim this] show ?thesis using Inr by simp
qed

lemma get_old:
  assumes "cache_old now te i s"
  shows "fst (sn_get now te i s) = (case get_parsed te i (sn_db s) of None \<Rightarrow> Inr None
    | Some (Inl e) \<Rightarrow> Inl e | Some (Inr t) \<Rightarrow> Inr (if tn_tenant t = te then Some t else None))"
  using assms by (force simp: sn_get_def Let_def cache_old_def split: option.split sum.split)

lemma sim_get:
  assumes sim: "turns_sim m s" and stale: "cache_old now te i s" and run: "sn_do (OpGet now te i) s = (Inr r, s')"
  shows "fst (mem_do (OpGet now te i) m) = Inr (unnamed_out r)"
proof -
  note l = turns_simD(3) [OF sim, of te i]
  obtain t where t: "r = OutMaybe t" "fst (sn_get now te i s) = Inr t"
    using run by (cases "sn_get now te i s"; cases "fst (sn_get now te i s)") auto
  have "t = sn_look s te i"
  proof (cases "get_parsed te i (sn_db s)")
    case None
    then show ?thesis using t(2) get_old [OF stale] by (simp add: sn_look_def look_db_def get_parsed_def)
  next
    case (Some p)
    then obtain u where u: "p = Inr u" using t(2) get_old [OF stale] by (cases p) auto
    then have "sn_look s te i = Some u" using Some get_parsed_look by (simp add: sn_look_def)
    then show ?thesis using Some u t(2) get_old [OF stale] keyedD [OF turns_simD(2) [OF sim], of te i u] by simp
  qed
  then show ?thesis using t(1) l by (simp add: mem_look_def)
qed

section \<open>Closing a turn with its children\<close>

definition keyed_db :: "table \<Rightarrow> bool" where
  "keyed_db d \<longleftrightarrow> (\<forall>te i t. look_db d te i = Some t \<longrightarrow> tn_id t = i \<and> tn_tenant t = te)"

text \<open>The second table differs from the first one in open turns that it has closed.\<close>

definition closed_from :: "turn \<Rightarrow> turn \<Rightarrow> bool" where
  "closed_from t t' \<longleftrightarrow> (\<exists>now re wh. t' = close_turn now re wh t)"

definition closes :: "table \<Rightarrow> table \<Rightarrow> bool" where
  "closes d d' \<longleftrightarrow> (\<forall>te i. look_db d' te i = look_db d te i \<or> (\<exists>t t'. look_db d te i = Some t
     \<and> tn_status t = TOpen \<and> look_db d' te i = Some t' \<and> closed_from t t'))"

lemma closed_fromI: "closed_from t (close_turn now re wh t)"
  by (auto simp: closed_from_def)

lemma closed_fromD: "closed_from t t' \<Longrightarrow> tn_status t' = TClosed \<and> tn_children t' = tn_children t
    \<and> tn_id t' = tn_id t \<and> tn_tenant t' = tn_tenant t"
  by (auto simp: closed_from_def close_turn_def)

lemma closes_refl [simp]: "closes d d"
  by (simp add: closes_def)

lemma closes_cases:
  assumes "closes d d'"
  obtains (same) "look_db d' te i = look_db d te i"
  | (closed) t t' where "look_db d te i = Some t" "tn_status t = TOpen" "look_db d' te i = Some t'" "closed_from t t'"
  using assms unfolding closes_def by blast

lemma closes_trans:
  assumes "closes d d'" "closes d' d''" shows "closes d d''"
  unfolding closes_def
proof (intro allI)
  fix te i
  show "look_db d'' te i = look_db d te i \<or> (\<exists>t t'. look_db d te i = Some t \<and> tn_status t = TOpen
      \<and> look_db d'' te i = Some t' \<and> closed_from t t')"
    using assms(1)
  proof (cases rule: closes_cases [where te = te and i = i])
    case same then show ?thesis by (cases rule: closes_cases [OF assms(2), of te i]) auto
  next
    case (closed t t')
    show ?thesis
      by (cases rule: closes_cases [OF assms(2), of te i]) (use closed closed_fromD [OF closed(4)] in auto)
  qed
qed

lemma closes_look: "\<lbrakk> closes d d'; look_db d' te i = Some t' \<rbrakk> \<Longrightarrow>
    \<exists>t. look_db d te i = Some t \<and> tn_children t = tn_children t' \<and> tn_id t = tn_id t' \<and> tn_tenant t = tn_tenant t'
      \<and> (tn_status t \<noteq> TOpen \<longrightarrow> t' = t)"
  by (rule closes_cases [of d d' te i]) (auto dest: closed_fromD)

lemma closes_look_back: "\<lbrakk> closes d d'; look_db d te i = Some t \<rbrakk> \<Longrightarrow>
    \<exists>t'. look_db d' te i = Some t' \<and> tn_children t' = tn_children t \<and> (tn_status t \<noteq> TOpen \<longrightarrow> t' = t)"
  by (rule closes_cases [of d d' te i]) (auto dest: closed_fromD)

lemma closes_keyed: "\<lbrakk> closes d d'; keyed_db d \<rbrakk> \<Longrightarrow> keyed_db d'"
  unfolding keyed_db_def by (metis closes_look)

inductive descends :: "table \<Rightarrow> string \<Rightarrow> string \<Rightarrow> string \<Rightarrow> bool" for d te where
  here: "descends d te i i"
| below: "\<lbrakk> look_db d te i = Some t; c \<in> set (tn_children t); descends d te c j \<rbrakk> \<Longrightarrow> descends d te i j"

inductive_cases descendsE: "descends d te i j"

lemma descends_closes: "\<lbrakk> descends d te i j; closes d d' \<rbrakk> \<Longrightarrow> descends d' te i j"
proof (induction rule: descends.induct)
  case (below i t c j)
  obtain t' where "look_db d' te i = Some t'" "tn_children t' = tn_children t"
    using closes_look_back [OF below.prems below.hyps(1)] by auto
  then show ?case using below by (auto intro: descends.below)
qed (rule descends.here)

definition not_open :: "table \<Rightarrow> string \<Rightarrow> string \<Rightarrow> bool" where
  "not_open d te i \<longleftrightarrow> (\<forall>t. look_db d te i = Some t \<longrightarrow> tn_status t \<noteq> TOpen)"

lemma not_open_closes: "\<lbrakk> closes d d'; not_open d te i \<rbrakk> \<Longrightarrow> not_open d' te i"
  unfolding not_open_def by (metis closes_look)

lemma sn_close_closes:
  assumes "keyed_db d" "sn_close (\<lambda>d. d) now te i re wh d = (r, d')"
  shows "closes d d' \<and> (is_ok r \<longrightarrow> not_open d' te i)"
proof (cases "close_wait now te i re d")
  case (Inl e) then show ?thesis using assms(2) by (auto simp: sn_close_def)
next
  case (Inr w)
  then have tx: "sp_transaction (sn_close_tx (now + w) te i re wh) d = (r, d')"
    using assms(2) by (simp add: sn_close_def)
  show ?thesis
  proof (cases rule: close_effect [of "now + w" te i re wh d])
    case (closed t)
    have "tn_id t = i" using assms(1) closed(2) by (simp add: keyed_db_def)
    then have "look_db d' te' j = (if te' = te \<and> j = i then Some (close_turn (now + w) re wh t) else look_db d te' j)" for te' j
      using tx closed(1) by (auto simp: look_put_turn)
    moreover have "tn_status (close_turn (now + w) re wh t) \<noteq> TOpen" by (simp add: close_turn_def)
    ultimately show ?thesis using closed(2,3) closed_fromI [of t "now + w" re wh] by (auto simp: closes_def not_open_def)
  qed (use tx in \<open>auto simp: not_open_def\<close>)
qed

lemma each_closes:
  assumes V: "\<And>c now ts d e now' ts' d'. \<lbrakk> keyed_db d; f c (now, ts, d) = (e, now', ts', d') \<rbrakk> \<Longrightarrow>
      closes d d' \<and> (e = None \<longrightarrow> (\<forall>j. descends d te c j \<longrightarrow> not_open d' te j))"
    and "keyed_db d" "each f cs (now, ts, d) = (e, now', ts', d')"
  shows "closes d d' \<and> (e = None \<longrightarrow> (\<forall>c\<in>set cs. \<forall>j. descends d te c j \<longrightarrow> not_open d' te j))"
  using assms(2,3)
proof (induction cs arbitrary: now ts d)
  case (Cons c cs)
  obtain e1 now1 ts1 d1 where r: "f c (now, ts, d) = (e1, now1, ts1, d1)" by (metis prod_cases4)
  have c: "closes d d1" "e1 = None \<Longrightarrow> \<forall>j. descends d te c j \<longrightarrow> not_open d1 te j"
    using V [OF Cons.prems(1) r] by auto
  show ?case
  proof (cases e1)
    case (Some x) then show ?thesis using Cons.prems(2) r c(1) by auto
  next
    case None
    have "each f cs (now1, ts1, d1) = (e, now', ts', d')" using Cons.prems(2) r None by simp
    from Cons.IH [OF closes_keyed [OF c(1) Cons.prems(1)] this]
    have IH: "closes d1 d'" "e = None \<Longrightarrow> \<forall>c\<in>set cs. \<forall>j. descends d1 te c j \<longrightarrow> not_open d' te j" by auto
    show ?thesis using closes_trans [OF c(1) IH(1)] IH(2) c(2) [OF None]
      by (auto intro: not_open_closes [OF IH(1)] descends_closes [OF _ c(1)])
  qed
qed simp

lemma visit_closes:
  assumes "keyed_db d" "visit n te re wh i (now, ts, d) = (e, now', ts', d')"
  shows "closes d d' \<and> (e = None \<longrightarrow> (\<forall>j. descends d te i j \<longrightarrow> not_open d' te j))"
  using assms
proof (induction n arbitrary: i now ts d e now' ts' d')
  case (Suc n)
  show ?case
  proof (cases "get_parsed te i d")
    case None
    then have "look_db d te i = None" by (simp add: get_parsed_def look_db_def)
    then show ?thesis using Suc.prems(2) None by (auto simp: not_open_def elim: descendsE)
  next
    case (Some r)
    show ?thesis
    proof (cases r)
      case (Inl x) then show ?thesis using Suc.prems(2) Some by auto
    next
      case (Inr t)
      have l: "look_db d te i = Some t" using get_parsed_look Some Inr by auto
      then have te: "tn_tenant t = te" using Suc.prems(1) by (simp add: keyed_db_def)
      obtain e1 now1 ts1 d1 where r: "each (visit n te re wh) (tn_children t) (now, ts, d) = (e1, now1, ts1, d1)"
        by (metis prod_cases4)
      have c: "closes d d1" "e1 = None \<longrightarrow> (\<forall>c\<in>set (tn_children t). \<forall>j. descends d te c j \<longrightarrow> not_open d1 te j)"
        using each_closes [of "visit n te re wh" te, OF Suc.IH Suc.prems(1) r] by auto
      have down: "\<forall>j. descends d te i j \<longrightarrow> not_open d2 te j" if "closes d1 d2" "not_open d2 te i" "e1 = None" for d2
      proof (intro allI impI)
        fix j assume "descends d te i j"
        then show "not_open d2 te j"
        proof (rule descendsE)
          assume "j = i" then show ?thesis using that(2) by simp
        next
          fix t' c' assume "look_db d te i = Some t'" "c' \<in> set (tn_children t')" "descends d te c' j"
          then have "not_open d1 te j" using c(2) that(3) l by auto
          then show ?thesis by (rule not_open_closes [OF that(1)])
        qed
      qed
      show ?thesis
      proof (cases e1)
        case (Some x) then show ?thesis using Suc.prems(2) \<open>get_parsed te i d = Some r\<close> Inr te r c(1) by auto
      next
        case None
        note run = Suc.prems(2) \<open>get_parsed te i d = Some r\<close> Inr te r None
        show ?thesis
        proof (cases "tn_status t = TOpen")
          case False
          then have "not_open d te i" using l by (simp add: not_open_def)
          then have "not_open d1 te i" by (rule not_open_closes [OF c(1)])
          then show ?thesis using run c(1) down [of d1] False by auto
        next
          case True
          show ?thesis
          proof (cases "close_wait now1 te i re d1")
            case (Inl x) then show ?thesis using run c(1) True by auto
          next
            case (Inr w)
            obtain r2 d2 where cl: "sn_close (\<lambda>d. d) now1 te i re wh d1 = (r2, d2)" by force
            note cc = sn_close_closes [OF closes_keyed [OF c(1) Suc.prems(1)] cl]
            have "d' = d2 \<and> (e = None \<longleftrightarrow> is_ok r2)" using run True Inr cl by (cases r2) auto
            then show ?thesis using closes_trans [OF c(1)] cc down [of d2] None by auto
          qed
        qed
      qed
    qed
  qed
qed auto

text \<open>What every close keeps, the whole walk keeps.\<close>

lemma each_inv:
  assumes "\<And>c acc. P (snd (snd acc)) \<Longrightarrow> P (snd (snd (snd (f c acc))))" "P (snd (snd acc))"
  shows "P (snd (snd (snd (each f cs acc))))"
  using assms(2)
proof (induction cs arbitrary: acc)
  case (Cons c cs)
  obtain e acc' where r: "f c acc = (e, acc')" by (rule prod.exhaust)
  have "P (snd (snd acc'))" using assms(1) [OF Cons.prems, of c] r by simp
  then show ?case using r Cons.IH [of acc'] by (cases e) auto
qed simp

lemma visit_inv:
  assumes "\<And>now i d. P d \<Longrightarrow> P (snd (sn_close (\<lambda>d. d) now te i re wh d))" "P (snd (snd acc))"
  shows "P (snd (snd (snd (visit n te re wh i acc))))"
  using assms(2)
proof (induction n arbitrary: i acc)
  case (Suc n)
  have each: "P (snd (snd (snd (each (visit n te re wh) cs acc))))" for cs
    by (rule each_inv [OF Suc.IH Suc.prems])
  show ?case
  proof (cases "get_parsed te i (snd (snd acc))")
    case (Some r)
    then show ?thesis
    proof (cases r)
      case (Inr t)
      obtain e1 now1 ts1 d1 where r1: "each (visit n te re wh) (tn_children t) acc = (e1, now1, ts1, d1)" by (metis prod_cases4)
      have d1: "P d1" using each [of "tn_children t"] r1 by simp
      then have "P (snd (sn_close (\<lambda>d. d) now1 te i re wh d1))" by (rule assms(1))
      then show ?thesis using Some Inr r1 d1 Suc.prems by (auto split: option.split sum.split prod.split)
    qed (use Suc.prems in simp)
  qed (use Suc.prems in simp)
qed simp

lemma sn_close_frame:
  assumes "k \<noteq> turns_kind" shows "st_get ow k j (snd (sn_close (\<lambda>d. d) now te i re wh d)) = st_get ow k j d"
proof -
  have "st_get ow k j (snd (sp_transaction (sn_close_tx n te i re wh) d)) = st_get ow k j d" for n
    by (cases rule: close_effect [of n te i re wh d]) (use assms in \<open>auto simp: put_turn_def sp_put_def st_get_put\<close>)
  then show ?thesis by (simp add: sn_close_def split: sum.split)
qed

lemma sn_close_all_frame:
  assumes "k \<noteq> turns_kind" shows "st_get ow k j (snd (sn_close_all now te i re wh d)) = st_get ow k j d"
proof -
  have "st_get ow k j (snd (snd (snd (visit 11 te re wh i (now, [], d))))) = st_get ow k j d"
    using visit_inv [of "\<lambda>d'. st_get ow k j d' = st_get ow k j d" te re wh "(now, [], d)" 11 i] sn_close_frame [OF assms] by simp
  then show ?thesis by (cases "visit 11 te re wh i (now, [], d)") (auto simp: sn_close_all_def split: option.split)
qed

lemma sn_close_all_closes: "keyed_db d \<Longrightarrow> closes d (snd (sn_close_all now te i re wh d))"
  using visit_closes [of d 11 te re wh i now "[]"]
  by (auto simp: sn_close_all_def split: prod.split option.split)

end
