(* ===== verification/KernelContext.thy ===== *)
theory KernelContext
  imports Rows
begin

text \<open>
  The identity of a kernel operation (apps/server/src/kernel/context/kernel-context.ts): the record, and
  \<open>read_kernel_context\<close>, the schema's parse on a document.  The schema requires \<open>actorId\<close>; several callers
  build their document without it, and for those parse always throws.
\<close>

section \<open>The context\<close>

datatype kernel_role = KrAdmin | KrUser | KrAgent | KrSystem

fun kernel_role_text :: "kernel_role \<Rightarrow> string" where
  "kernel_role_text KrAdmin = ''admin''" | "kernel_role_text KrUser = ''user''"
| "kernel_role_text KrAgent = ''agent''" | "kernel_role_text KrSystem = ''system''"

record kctx =
  kx_tenant :: "string option"
  kx_owner :: string
  kx_role :: kernel_role
  kx_request :: string
  kx_thread :: "string option"
  kx_parent :: "string option"
  kx_correlation :: "string option"
  kx_persona :: "string option"
  kx_actor :: string
  kx_session :: "string option"

definition "all_kernel_roles = [KrAdmin, KrUser, KrAgent, KrSystem]"

definition read_kernel_context :: "json \<Rightarrow> kctx option" where
  "read_kernel_context j = Option.bind (req (text_in 1 100) ''tenantId'' j) (\<lambda>te.
     Option.bind (req (text_in 1 200) ''owner'' j) (\<lambda>ow.
     Option.bind (req (as_enum (enum_of kernel_role_text all_kernel_roles)) ''role'' j) (\<lambda>ro.
     Option.bind (req (text_in 1 100) ''requestId'' j) (\<lambda>rq.
     Option.bind (opt (text_in 1 200) ''threadId'' j) (\<lambda>th.
     Option.bind (opt (text_in 1 100) ''parentTurnId'' j) (\<lambda>pa.
     Option.bind (opt (text_in 1 200) ''correlationId'' j) (\<lambda>co.
     Option.bind (opt (text_in 1 80) ''personaId'' j) (\<lambda>pe.
     Option.bind (req (text_in 1 200) ''actorId'' j) (\<lambda>ac.
     Option.bind (opt (text_in 1 200) ''sessionId'' j) (\<lambda>se.
     Some \<lparr> kx_tenant = Some te, kx_owner = ow, kx_role = ro, kx_request = rq, kx_thread = th, kx_parent = pa,
       kx_correlation = co, kx_persona = pe, kx_actor = ac, kx_session = se \<rparr>))))))))))"

definition parse_context :: "json \<Rightarrow> kctx res" where
  "parse_context j = (case read_kernel_context j of None \<Rightarrow> Inl zod_error | Some cx \<Rightarrow> Inr cx)"

definition system_context :: "string \<Rightarrow> string \<Rightarrow> string \<Rightarrow> kctx res" where
  "system_context tenant owner request = parse_context (JObj [(''tenantId'', JStr tenant), (''owner'', JStr owner),
     (''role'', JStr ''system''), (''requestId'', JStr request), (''actorId'', JStr owner)])"

section \<open>A context needs an actor\<close>

lemma actor_required: "jget j ''actorId'' = None \<Longrightarrow> parse_context j = Inl zod_error"
proof -
  assume "jget j ''actorId'' = None"
  then have "req (text_in 1 200) ''actorId'' j = None" by (simp add: req_def)
  then have "read_kernel_context j = None" by (simp add: read_kernel_context_def bind_eq_None_conv)
  then show ?thesis by (simp add: parse_context_def)
qed

end
