(* ===== verification/Kernel.thy ===== *)
theory Kernel
  imports TurnLaws AuditTrail Attention KernelContext
begin

text \<open>
  The cognitive kernel (apps/server/src/kernel/kernel.ts): its operations over \<open>StoreTurnStore\<close> and the
  audit trail, as app.ts wires them.

  The state is that of the turn store, whose table the audit trail shares, with the hooks that were
  called.  What the kernel gets from elsewhere is in \<open>kernel_env\<close>: the tenant resolver, the
  configuration, the audit store's \<open>append\<close>, the clock and the new ids.  The interface of the audit
  store is the locale \<open>audit_sink\<close>, interpreted for \<open>StoreAuditStore\<close>.
\<close>

section \<open>State and environment\<close>

datatype hook = TurnOpened turn | ThoughtAppended thought

record kernel_state =
  kn_store :: store_turns
  kn_hooks :: "hook list"

record kernel_env =
  ke_now :: int
  ke_uuid :: string
  ke_resolve :: "string \<Rightarrow> table \<Rightarrow> string res"
  ke_max_thoughts :: "string \<Rightarrow> table \<Rightarrow> rat res"
  ke_audit :: "audit_input \<Rightarrow> table \<Rightarrow> audit_entry res \<times> table"

section \<open>Sequencing\<close>

type_synonym 'a run = "kernel_state \<Rightarrow> 'a res \<times> kernel_state"

definition on_store :: "(store_turns \<Rightarrow> 'a res \<times> store_turns) \<Rightarrow> 'a run" where
  "on_store f s = (case f (kn_store s) of (r, t) \<Rightarrow> (r, s\<lparr> kn_store := t \<rparr>))"

definition on_db :: "(table \<Rightarrow> 'a res \<times> table) \<Rightarrow> 'a run" where
  "on_db f = on_store (\<lambda>t. case f (sn_db t) of (r, d) \<Rightarrow> (r, t\<lparr> sn_db := d \<rparr>))"

definition reads :: "(store_turns \<Rightarrow> 'a res) \<Rightarrow> 'a run" where
  "reads f s = (f (kn_store s), s)"

definition call_hook :: "hook \<Rightarrow> unit run" where
  "call_hook h s = (Inr (), s\<lparr> kn_hooks := kn_hooks s @ [h] \<rparr>)"

definition resolve_owner :: "kernel_env \<Rightarrow> kctx \<Rightarrow> string run" where
  "resolve_owner env cx = reads (\<lambda>t. ke_resolve env (kx_owner cx) (sn_db t))"

definition tenant_of :: "kernel_env \<Rightarrow> kctx \<Rightarrow> string run" where
  "tenant_of env cx = (case kx_tenant cx of Some t \<Rightarrow> give t | None \<Rightarrow> resolve_owner env cx)"

definition audit :: "kernel_env \<Rightarrow> string \<Rightarrow> kctx \<Rightarrow> string \<Rightarrow> string \<times> string \<Rightarrow> (string \<times> json) list \<Rightarrow> audit_entry run" where
  "audit env tenant cx action actor payload = on_db (ke_audit env
     \<lparr> ai_tenant = tenant, ai_owner = kx_owner cx, ai_action = action, ai_actor = actor, ai_payload = JObj payload \<rparr>)"

definition ctx_actor :: "kctx \<Rightarrow> string \<times> string" where
  "ctx_actor cx = (kernel_role_text (kx_role cx), kx_actor cx)"

section \<open>Opening turns\<close>

definition set_tenant_limit :: "kernel_env \<Rightarrow> string \<Rightarrow> unit run" where
  "set_tenant_limit env tenant s = (case ke_max_thoughts env tenant (sn_db (kn_store s)) of
     Inl e \<Rightarrow> (Inr (), s)
   | Inr n \<Rightarrow> (Inr (), s\<lparr> kn_store := sn_set_limit tenant n (kn_store s) \<rparr>))"

definition k_open_turn :: "kernel_env \<Rightarrow> kctx \<Rightarrow> string \<Rightarrow> turn run" where
  "k_open_turn env cx trigger = then_do (tenant_of env cx) (\<lambda>tenant.
     then_do (set_tenant_limit env tenant) (\<lambda>_.
     then_do (on_db (sn_open (ke_now env) (ke_uuid env) tenant (kx_owner cx) trigger (kx_persona cx))) (\<lambda>t.
     then_do (call_hook (TurnOpened t)) (\<lambda>_.
     then_do (audit env tenant cx ''turn.opened'' (ctx_actor cx) [(''turnId'', JStr (tn_id t)), (''trigger'', JStr trigger),
       (''requestId'', JStr (kx_request cx))]) (\<lambda>_. give t)))))"

definition persona_ok :: "kctx \<Rightarrow> turn \<Rightarrow> bool" where
  "persona_ok cx t \<longleftrightarrow> (case given_text (kx_persona cx) of None \<Rightarrow> True | Some p \<Rightarrow> tn_persona t = Some p)"

definition k_open_idempotent :: "kernel_env \<Rightarrow> kctx \<Rightarrow> string \<Rightarrow> turn run" where
  "k_open_idempotent env cx trigger = then_do (tenant_of env cx) (\<lambda>tenant.
     then_do (reads (\<lambda>t. sn_list_open tenant (kx_owner cx) (sn_db t))) (\<lambda>open_turns.
     (case find (\<lambda>t. trigger \<in> set (tn_triggers t) \<and> persona_ok cx t) open_turns of
        None \<Rightarrow> k_open_turn env cx trigger
      | Some t \<Rightarrow> then_do (call_hook (TurnOpened t)) (\<lambda>_.
          then_do (audit env tenant cx ''turn.opened'' (ctx_actor cx) [(''turnId'', JStr (tn_id t)), (''trigger'', JStr trigger),
            (''requestId'', JStr (kx_request cx)), (''reused'', JBool True)]) (\<lambda>_. give t)))))"

definition k_open_child :: "kernel_env \<Rightarrow> kctx \<Rightarrow> string \<Rightarrow> string \<Rightarrow> turn run" where
  "k_open_child env cx parent trigger = then_do (resolve_owner env cx) (\<lambda>tenant.
     then_do (on_db (sn_open_child (ke_now env) (ke_uuid env) tenant (kx_owner cx) parent trigger)) (\<lambda>t.
     then_do (audit env tenant cx ''turn.opened'' (ctx_actor cx) [(''turnId'', JStr (tn_id t)), (''parentTurnId'', JStr parent),
       (''trigger'', JStr trigger), (''requestId'', JStr (kx_request cx)), (''child'', JBool True)]) (\<lambda>_. give t)))"

section \<open>Thoughts\<close>

text \<open>The input of \<open>appendThought\<close>; its provenance is partial.\<close>

record thought_input =
  ti_turn :: string
  ti_actor :: thought_actor
  ti_role :: thought_role
  ti_content :: content
  ti_attention :: attention
  ti_context :: thought_context
  ti_edges :: "thought_edge list"
  ti_source :: "string option"
  ti_time :: "int option"
  ti_parent :: "string option"
  ti_correlation :: "string option"

definition new_thought :: "kernel_env \<Rightarrow> kctx \<Rightarrow> string \<Rightarrow> thought_input \<Rightarrow> thought" where
  "new_thought env cx tenant x = \<lparr> th_id = ke_uuid env, th_tenant = tenant, th_turn = ti_turn x, th_owner = kx_owner cx,
     th_actor = (case given_text (kx_persona cx) of None \<Rightarrow> ti_actor x | Some p \<Rightarrow> (ti_actor x)\<lparr> ta_persona := Some p \<rparr>),
     th_role = ti_role x, th_content = ti_content x, th_attention = ti_attention x, th_context = ti_context x,
     th_provenance = \<lparr> pv_source = (case ti_source x of Some s \<Rightarrow> s | None \<Rightarrow> kernel_role_text (kx_role cx)),
       pv_time = (case ti_time x of Some t \<Rightarrow> t | None \<Rightarrow> ke_now env), pv_parent = ti_parent x,
       pv_correlation = (case ti_correlation x of Some c \<Rightarrow> Some c | None \<Rightarrow> kx_correlation cx) \<rparr>,
     th_edges = ti_edges x \<rparr>"

definition k_append_thought :: "kernel_env \<Rightarrow> kctx \<Rightarrow> thought_input \<Rightarrow> thought run" where
  "k_append_thought env cx x = then_do (tenant_of env cx) (\<lambda>tenant.
     then_do (reads (\<lambda>_. check_thought (new_thought env cx tenant x))) (\<lambda>th.
     then_do (on_store (sn_append (ke_now env) th)) (\<lambda>saved.
     then_do (call_hook (ThoughtAppended saved)) (\<lambda>_.
     then_do (audit env tenant cx ''thought.appended'' (kind_text (ta_kind (th_actor saved)), ta_id (th_actor saved))
       [(''thoughtId'', JStr (th_id saved)), (''turnId'', JStr (th_turn saved)), (''role'', JStr (role_text (th_role saved))),
        (''requestId'', JStr (kx_request cx))]) (\<lambda>_. give saved)))))"

definition k_thoughts_of :: "kernel_env \<Rightarrow> kctx \<Rightarrow> string \<Rightarrow> thought list run" where
  "k_thoughts_of env cx turn = then_do (resolve_owner env cx) (\<lambda>tenant.
     then_do (on_store (sn_get (ke_now env) tenant turn)) (\<lambda>t.
     if t = None then give [] else reads (sn_thoughts_of None tenant turn)))"

section \<open>Closing\<close>

text \<open>\<open>others\<close>: what other callers do to the table while a close by quiescence waits.\<close>

definition k_close_turn :: "kernel_env \<Rightarrow> (table \<Rightarrow> table) \<Rightarrow> kctx \<Rightarrow> string \<Rightarrow> close_reason \<Rightarrow> closed_by \<Rightarrow> turn run" where
  "k_close_turn env others cx turn reason who = then_do (resolve_owner env cx) (\<lambda>tenant.
     then_do (reads (\<lambda>s. close_wait (ke_now env) tenant turn reason (sn_db s))) (\<lambda>w.
     then_do (on_db (sn_close others (ke_now env) tenant turn reason who)) (\<lambda>t.
     then_do (on_db (sn_close_all (ke_now env + w) tenant turn reason who)) (\<lambda>_.
     then_do (audit env tenant cx ''turn.closed'' (ctx_actor cx) [(''turnId'', JStr turn), (''reason'', JStr (reason_text reason)),
       (''closedBy'', JStr (closed_by_text who)), (''requestId'', JStr (kx_request cx))]) (\<lambda>_. give t)))))"

section \<open>Lists\<close>

definition k_list_turns :: "kernel_env \<Rightarrow> kctx \<Rightarrow> nat \<Rightarrow> turn list run" where
  "k_list_turns env cx limit = then_do (resolve_owner env cx) (\<lambda>tenant.
     then_do (reads (\<lambda>t. sn_list tenant (min (limit * 5) 200) (sn_db t))) (\<lambda>ts.
     give (take limit (filter (persona_ok cx) (filter (\<lambda>t. tn_owner t = kx_owner cx) ts)))))"

definition k_list_turns_for_owner :: "kernel_env \<Rightarrow> kctx \<Rightarrow> string \<Rightarrow> nat \<Rightarrow> turn list run" where
  "k_list_turns_for_owner env cx owner limit = then_do (k_list_turns env cx limit) (\<lambda>ts.
     give (take limit (filter (\<lambda>t. tn_owner t = owner) ts)))"

definition k_list_all_personas :: "kernel_env \<Rightarrow> kctx \<Rightarrow> nat \<Rightarrow> turn list run" where
  "k_list_all_personas env cx limit = then_do (tenant_of env cx) (\<lambda>tenant.
     reads (\<lambda>t. sn_list_owner tenant (kx_owner cx) limit (sn_db t)))"

definition k_list_open :: "kernel_env \<Rightarrow> kctx \<Rightarrow> turn list run" where
  "k_list_open env cx = then_do (tenant_of env cx) (\<lambda>tenant.
     reads (\<lambda>t. sn_list_open tenant (kx_owner cx) (sn_db t)))"

definition k_find_open :: "kernel_env \<Rightarrow> kctx \<Rightarrow> turn option run" where
  "k_find_open env cx = (case given_text (kx_thread cx) of None \<Rightarrow> give None
   | Some thread \<Rightarrow> then_do (resolve_owner env cx) (\<lambda>tenant.
       then_do (reads (\<lambda>t. sn_list_open tenant (kx_owner cx) (sn_db t))) (\<lambda>ts.
       give (find (\<lambda>t. list_ex (sublist thread) (tn_triggers t) \<and> persona_ok cx t) ts))))"

definition k_attention_pairs :: "kernel_env \<Rightarrow> kctx \<Rightarrow> string \<Rightarrow> string \<Rightarrow> (nat \<times> nat) run" where
  "k_attention_pairs env cx a b = then_do (k_list_turns env cx 200) (\<lambda>xs.
     then_do (k_list_turns env cx 200) (\<lambda>ys.
     give (length (filter (\<lambda>t. tn_persona t = Some a) xs), length (filter (\<lambda>t. tn_persona t = Some b) ys))))"

section \<open>The attention of a persona\<close>

fun collect :: "('a \<Rightarrow> 'b list run) \<Rightarrow> 'a list \<Rightarrow> 'b list run" where
  "collect f [] = give []"
| "collect f (x # xs) = then_do (f x) (\<lambda>a. then_do (collect f xs) (\<lambda>b. give (a @ b)))"

record persona_attention =
  pa_persona :: string
  pa_thoughts :: nat
  pa_top :: "(string \<times> rat \<times> string) list"
  pa_ignored :: "(string \<times> string) list"
  pa_total :: rat

text \<open>The heaviest match of each node, in the order in which the nodes first occur.\<close>

definition best_match :: "matched_node \<Rightarrow> (string \<times> matched_node) list \<Rightarrow> (string \<times> matched_node) list" where
  "best_match m best = (case map_of best (mn_node m) of
     None \<Rightarrow> AList.update (mn_node m) m best
   | Some p \<Rightarrow> if mn_weight m > mn_weight p then AList.update (mn_node m) m best else best)"

definition summarize_attention :: "string \<Rightarrow> thought list \<Rightarrow> persona_attention" where
  "summarize_attention persona ths = (let vs = map th_attention ths;
       best = map snd (fold best_match (concat (map av_matched vs)) [])
     in \<lparr> pa_persona = persona, pa_thoughts = length ths,
          pa_top = map (\<lambda>m. (mn_node m, mn_weight m, mn_reason m)) (take 10 (sort_key (\<lambda>m. - mn_weight m) best)),
          pa_ignored = map (\<lambda>g. (ig_node g, ig_reason g)) (concat (map av_ignored vs)),
          pa_total = sum_list (map total_attention vs) \<rparr>)"

definition k_attention_of_persona :: "kernel_env \<Rightarrow> kctx \<Rightarrow> string \<Rightarrow> persona_attention run" where
  "k_attention_of_persona env cx persona = then_do (k_list_all_personas env cx 50) (\<lambda>ts.
     then_do (collect (\<lambda>t. k_thoughts_of env cx (tn_id t)) (filter (\<lambda>t. tn_persona t = Some persona) ts)) (\<lambda>ths.
     give (summarize_attention persona ths)))"

section \<open>The audit store as an interface\<close>

definition kdb :: "kernel_state \<Rightarrow> table" where
  "kdb s = sn_db (kn_store s)"

lemma on_db_result: "on_db f s = (r, s') \<longleftrightarrow> (\<exists>d. f (kdb s) = (r, d) \<and> s' = s\<lparr> kn_store := (kn_store s)\<lparr> sn_db := d \<rparr> \<rparr>)"
  by (auto simp: on_db_def on_store_def kdb_def split: prod.split)

lemma kdb_on_db [simp]: "kdb (s\<lparr> kn_store := t\<lparr> sn_db := d \<rparr> \<rparr>) = d"
  by (simp add: kdb_def)

locale audit_sink =
  fixes sink :: "audit_input \<Rightarrow> table \<Rightarrow> audit_entry res \<times> table"
  assumes sink_frame: "k \<noteq> audit_kind \<Longrightarrow> st_get ow k i (snd (sink inp d)) = st_get ow k i d"
    and sink_stored: "sink inp d = (Inr e, d') \<Longrightarrow>
      ae_input e = inp \<and> st_get (ai_tenant inp) audit_kind (ae_id e) d' = Some (entry_json e)"
begin

lemma sink_look: "look_db (snd (sink inp d)) te i = look_db d te i"
  by (simp add: look_db_def sp_get_def sink_frame audit_kind_def)

text \<open>A step of the kernel that audited successfully: the entry is in the table, and everything the
  step wrote before is still there.\<close>

lemma audited:
  assumes "audit (env\<lparr> ke_audit := sink \<rparr>) te cx act who pay s = (Inr e, s')"
  shows "st_get te audit_kind (ae_id e) (kdb s') = Some (entry_json e)"
    "ae_input e = \<lparr> ai_tenant = te, ai_owner = kx_owner cx, ai_action = act, ai_actor = who, ai_payload = JObj pay \<rparr>"
    "k \<noteq> audit_kind \<Longrightarrow> st_get ow k i (kdb s') = st_get ow k i (kdb s)"
    "look_db (kdb s') te' i = look_db (kdb s) te' i" "kn_hooks s' = kn_hooks s"
proof -
  let ?inp = "\<lparr> ai_tenant = te, ai_owner = kx_owner cx, ai_action = act, ai_actor = who, ai_payload = JObj pay \<rparr>"
  obtain d where d: "sink ?inp (kdb s) = (Inr e, d)" "s' = s\<lparr> kn_store := (kn_store s)\<lparr> sn_db := d \<rparr> \<rparr>"
    using assms by (auto simp: audit_def on_db_result)
  have "snd (sink ?inp (kdb s)) = d" using d by simp
  then show "k \<noteq> audit_kind \<Longrightarrow> st_get ow k i (kdb s') = st_get ow k i (kdb s)"
    "look_db (kdb s') te' i = look_db (kdb s) te' i"
    using sink_frame [of k ow i ?inp "kdb s"] sink_look [of ?inp "kdb s" te' i] d(2) by auto
  show "st_get te audit_kind (ae_id e) (kdb s') = Some (entry_json e)" "ae_input e = ?inp" "kn_hooks s' = kn_hooks s"
    using sink_stored [OF d(1)] d(2) by auto
qed

end

definition store_audit :: "(json \<Rightarrow> string) \<Rightarrow> bool \<Rightarrow> int \<Rightarrow> (nat \<Rightarrow> string) \<Rightarrow> (nat \<Rightarrow> int) \<Rightarrow> audit_input \<Rightarrow> table \<Rightarrow> audit_entry res \<times> table" where
  "store_audit hashf shared clock uuid now = audit_append plain_store hashf shared clock uuid now (\<lambda>_ s. s) (\<lambda>_ s. s)"

lemma jid_entry_json [simp]: "jid (entry_json e) = ae_id e"
  by (simp add: jid_def jtext_def entry_json_def split: option.split)

lemma insert_frame: "st_insert clock te kind v d = (r, d') \<Longrightarrow> k \<noteq> kind \<Longrightarrow> st_get ow k i d' = st_get ow k i d"
  using st_get_insert [of ow k i clock te kind v d] by simp

lemma cas_kind_frame: "st_cas clock te kind j e p d = (r, d') \<Longrightarrow> k \<noteq> kind \<Longrightarrow> st_get ow k i d' = st_get ow k i d"
  using ps.cas_frame [of ow k i te kind j clock e p d] by simp

lemma attempt_frame:
  assumes "append_attempt plain_store hashf clock u t (\<lambda>s. s) (\<lambda>s. s) inp d = (a, d')" "k \<noteq> audit_kind"
  shows "st_get ow k i d' = st_get ow k i d"
  using assms
  by (auto simp: append_attempt_def Let_def st_get_put dest: insert_frame cas_kind_frame
      split: if_splits option.splits prod.splits)

lemma attempt_stored: "append_attempt plain_store hashf clock u t (\<lambda>s. s) (\<lambda>s. s) inp d = (Appended e, d') \<Longrightarrow>
    ae_input e = inp \<and> st_get (ai_tenant inp) audit_kind (ae_id e) d' = Some (entry_json e)"
  by (auto simp: append_attempt_def Let_def st_get_put make_entry_def split: if_splits option.splits prod.splits)

lemma store_append_frame: "\<lbrakk> store_append plain_store hashf clock uuid now (\<lambda>_ s. s) (\<lambda>_ s. s) inp n why d = (r, d'); k \<noteq> audit_kind \<rbrakk> \<Longrightarrow>
    st_get ow k i d' = st_get ow k i d"
proof (induction n arbitrary: why d)
  case (Suc n)
  obtain a d1 where a: "append_attempt plain_store hashf clock (uuid n) (now n) (\<lambda>s. s) (\<lambda>s. s) inp d = (a, d1)" by force
  have "st_get ow k i d1 = st_get ow k i d" by (rule attempt_frame [OF a Suc.prems(2)])
  then show ?case using Suc.prems a Suc.IH by (cases a) auto
qed simp

lemma store_append_stored: "store_append plain_store hashf clock uuid now (\<lambda>_ s. s) (\<lambda>_ s. s) inp n why d = (Inr e, d') \<Longrightarrow>
    ae_input e = inp \<and> st_get (ai_tenant inp) audit_kind (ae_id e) d' = Some (entry_json e)"
proof (induction n arbitrary: why d)
  case (Suc n)
  obtain a d1 where a: "append_attempt plain_store hashf clock (uuid n) (now n) (\<lambda>s. s) (\<lambda>s. s) inp d = (a, d1)" by force
  show ?case
  proof (cases a)
    case (Appended x)
    then show ?thesis using attempt_stored [OF a [unfolded Appended]] Suc.prems a by simp
  qed (use Suc a in auto)
qed simp

interpretation sa: audit_sink "store_audit hashf shared clock uuid now"
proof
  show "st_get ow k i (snd (store_audit hashf shared clock uuid now inp d)) = st_get ow k i d" if "k \<noteq> audit_kind" for k ow i inp d
    using store_append_frame [OF prod.collapse [symmetric] that] by (simp add: store_audit_def audit_append_def)
  show "ae_input e = inp \<and> st_get (ai_tenant inp) audit_kind (ae_id e) d' = Some (entry_json e)"
    if "store_audit hashf shared clock uuid now inp d = (Inr e, d')" for inp d e d'
    using that by (auto simp: store_audit_def audit_append_def split: if_splits intro!: store_append_stored)
qed

section \<open>What an append does\<close>

abbreviation trace_payload :: "kctx \<Rightarrow> thought \<Rightarrow> (string \<times> json) list" where
  "trace_payload cx th \<equiv> [(''thoughtId'', JStr (th_id th)), (''turnId'', JStr (th_turn th)),
     (''role'', JStr (role_text (th_role th))), (''requestId'', JStr (kx_request cx))]"

lemma tenant_of_state: "tenant_of env cx s = (r, s') \<Longrightarrow> s' = s"
  by (auto simp: tenant_of_def give_def resolve_owner_def reads_def split: option.splits)

lemma append_thought_parts:
  assumes "k_append_thought env cx x s = (Inr th, s')"
  obtains s3 e where "on_store (sn_append (ke_now env) (new_thought env cx (th_tenant th) x)) s = (Inr th, s3)"
    and "audit env (th_tenant th) cx ''thought.appended'' (kind_text (ta_kind (th_actor th)), ta_id (th_actor th))
      (trace_payload cx th) (s3\<lparr> kn_hooks := kn_hooks s3 @ [ThoughtAppended th] \<rparr>) = (Inr e, s')"
proof -
  obtain te s1 where te: "tenant_of env cx s = (Inr te, s1)"
    and r: "then_do (reads (\<lambda>_. check_thought (new_thought env cx te x))) (\<lambda>th.
     then_do (on_store (sn_append (ke_now env) th)) (\<lambda>saved.
     then_do (call_hook (ThoughtAppended saved)) (\<lambda>_.
     then_do (audit env te cx ''thought.appended'' (kind_text (ta_kind (th_actor saved)), ta_id (th_actor saved))
       (trace_payload cx saved)) (\<lambda>_. give saved)))) s1 = (Inr th, s')"
    using assms unfolding k_append_thought_def by (rule then_do_InrE)
  have s1: "s1 = s" using te by (rule tenant_of_state)
  from r obtain t0 saved s3 e where t0: "check_thought (new_thought env cx te x) = Inr t0"
      and app: "on_store (sn_append (ke_now env) t0) s = (Inr saved, s3)"
      and au: "audit env te cx ''thought.appended'' (kind_text (ta_kind (th_actor saved)), ta_id (th_actor saved))
        (trace_payload cx saved) (s3\<lparr> kn_hooks := kn_hooks s3 @ [ThoughtAppended saved] \<rparr>) = (Inr e, s')" and "th = saved"
    by (auto simp: s1 reads_def call_hook_def elim!: then_do_InrE)
  moreover have "t0 = new_thought env cx te x" "th_tenant t0 = te"
    using check_thought_SomeD [OF t0] by (auto simp: new_thought_def)
  moreover have "saved = t0"
    by (cases rule: append_effect [of "ke_now env" t0 "kn_store s"]) (use app in \<open>auto simp: on_store_def\<close>)
  ultimately show ?thesis using that by auto
qed

end
