(* ===== verification/TurnProps.thy ===== *)
theory TurnProps
  imports TurnLaws
begin

text \<open>
  The properties of the turn stores: what both keep of a turn, how the persistent one refines the one
  in memory, and the states it can reach that its own readers reject.
\<close>

abbreviation ex_turn :: turn where
  "ex_turn \<equiv> new_turn ''t1'' ''te'' ''ow'' None None 0 ''x''"

abbreviation ex_closed :: turn where
  "ex_closed \<equiv> close_turn 1 ByResponse CUser ex_turn"

definition turns_of :: "turn list \<Rightarrow> store_turns" where
  "turns_of ts = \<lparr> sn_db = fold (\<lambda>t. put_turn 0 (tn_tenant t) t) ts [], sn_limits = [], sn_cache = [] \<rparr>"

section \<open>Properties\<close>

lemma look_empty: "look_db [] te i = None"
  by (simp add: look_db_def sp_get_def st_get_def)

lemma look_turns_of: "sn_look (turns_of [t]) te i = (if te = tn_tenant t \<and> i = tn_id t then Some t else None)"
  by (simp add: turns_of_def sn_look_def look_put_turn look_empty)

lemma keyed_turns_of: "well_keyed sn_look (turns_of [t])"
  by (simp add: well_keyed_def look_turns_of)

lemma mem_look_one: "mem_look \<lparr> mt_turns = [(tn_id t, t)], mt_thoughts = [] \<rparr> te i = (if te = tn_tenant t \<and> i = tn_id t then Some t else None)"
  by (auto simp: mem_look_def mt_get_def)

lemma keyed_mem_one: "well_keyed mem_look \<lparr> mt_turns = [(tn_id t, t)], mt_thoughts = [] \<rparr>"
  by (simp add: well_keyed_def mem_look_one)

lemma sim_one: "CHR '':'' \<notin> set (tn_id t) \<Longrightarrow>
    turns_sim \<lparr> mt_turns = [(tn_id t, unnamed t)], mt_thoughts = [] \<rparr> (turns_of [t])"
  using keyed_mem_one [of "unnamed t"] mem_look_one [of "unnamed t"]
  by (intro turns_simI) (auto simp: look_turns_of split: if_splits)

lemma ex_schema: "turn_schema ex_turn" "turn_schema ex_closed"
  by (simp_all add: turn_schema_def new_turn_def close_turn_def len_in_def)

lemma ex_status: "tn_status ex_turn = TOpen" "tn_status ex_closed = TClosed"
  by (simp_all add: new_turn_def close_turn_def)

text \<open>C13: Once a turn of \<open>StoreTurnStore\<close> is closed it stays exactly as it is, whatever sequence of calls
  of the interface \<open>TurnStore\<close> follows, for any tenant, a close by quiescence also when other calls
  run during its sleep: the table is any in which each turn is under its own id, and ids of new turns
  are fresh UUIDs.\<close>

theorem closed_turn_is_final:
  assumes "well_keyed sn_look s" "run_fresh sn_look sn_step xs s" "CHR '':'' \<notin> set i"
    and "sn_look s te i = Some t" "tn_status t \<noteq> TOpen"
  shows "sn_look (fold sn_step xs s) te i = Some t"
  using assms by (rule sns.run_closed)

abbreviation ex_ops :: "turn_op list" where
  "ex_ops \<equiv> [OpOpen 5 ''t2'' ''te'' ''ow'' ''x'' None, OpClose 6 ''te'' ''t1'' ByTimeout CSystem]"

theorem closed_turn_is_final_witness:
  "sn_look (fold sn_step ex_ops (turns_of [ex_closed])) ''te'' ''t1'' = Some ex_closed"
proof -
  have "run_fresh sn_look sn_step ex_ops (turns_of [ex_closed])" by (simp add: op_fresh_def look_turns_of)
  then show ?thesis
    by (rule closed_turn_is_final [OF keyed_turns_of]) (simp_all add: look_turns_of ex_status)
qed

text \<open>In both turn stores a turn only grows: over any sequence of operations its identity (id, tenant,
  owner, parent, persona, start, triggers) is kept, its status never moves back, its thoughts and
  children are only extended; in memory too, a closed turn can change in its children only.\<close>

theorem turns_only_grow:
  assumes "well_keyed mem_look m" "run_fresh mem_look mem_step xs m" "CHR '':'' \<notin> set i" "mem_look m te i = Some t"
    and "well_keyed sn_look s" "run_fresh sn_look sn_step ys s" "sn_look s te i = Some u"
  shows "(\<exists>t'. mem_look (fold mem_step xs m) te i = Some t' \<and> turn_grows t t')
    \<and> (\<exists>u'. sn_look (fold sn_step ys s) te i = Some u' \<and> turn_grows u u')"
  using mts.run_grows [OF assms(1-4)] sns.run_grows [OF assms(5,6,3,7)] by blast

theorem turns_only_grow_witness:
  "(\<exists>t'. mem_look (fold mem_step ex_ops \<lparr> mt_turns = [(tn_id ex_turn, ex_turn)], mt_thoughts = [] \<rparr>) ''te'' ''t1'' = Some t' \<and> turn_grows ex_turn t')
   \<and> (\<exists>u'. sn_look (fold sn_step ex_ops (turns_of [ex_turn])) ''te'' ''t1'' = Some u' \<and> turn_grows ex_turn u')"
proof (rule turns_only_grow [OF keyed_mem_one _ _ _ keyed_turns_of])
  show "run_fresh mem_look mem_step ex_ops \<lparr> mt_turns = [(tn_id ex_turn, ex_turn)], mt_thoughts = [] \<rparr>"
    using mem_look_one [of ex_turn] by (simp add: op_fresh_def)
  show "run_fresh sn_look sn_step ex_ops (turns_of [ex_turn])" by (simp add: op_fresh_def look_turns_of)
  show "mem_look \<lparr> mt_turns = [(tn_id ex_turn, ex_turn)], mt_thoughts = [] \<rparr> ''te'' ''t1'' = Some ex_turn"
    using mem_look_one [of ex_turn] by simp
qed (simp_all add: look_turns_of)

text \<open>Two reads of the classes differ: \<open>thoughtsOf\<close> sorts by time in the table and keeps the order of
  writing in memory, \<open>listTurns\<close> starts from the row written last in the table and from the oldest turn
  in memory; and \<open>getTurn\<close> of the table may answer from a cache of one second.\<close>

fun same_value :: "turn_op \<Rightarrow> store_turns \<Rightarrow> bool" where
  "same_value (OpGet now te i) s = cache_old now te i s"
| "same_value (OpThoughts te i) s = False"
| "same_value (OpList te n) s = False"
| "same_value x s = True"

text \<open>C17: \<open>StoreTurnStore\<close> refines \<open>InMemoryTurnStore\<close> in its four writes and in \<open>getTurn\<close>: whenever one
  of them returns a value from the table (\<open>getTurn\<close> with no cached turn younger than a second), the same
  call in memory returns the same value, but for the persona, which the class in memory drops; a close
  by quiescence, which sleeps, is compared with the close in memory at the moment its sleep ends.  After
  any successful call of the interface, the other reads included, every tenant and id again looks up
  the same turn in both.  The values of \<open>thoughtsOf\<close> and \<open>listTurns\<close> are not compared.\<close>

theorem store_refines_memory:
  assumes "turns_sim m s" "op_fresh sn_look x s" "sn_do x s = (Inr r, s')"
  shows "(same_value x s \<longrightarrow> fst (mem_do (after_wait x s) m) = Inr (unnamed_out r))
    \<and> turns_sim (mem_step (after_wait x s) m) s'
    \<and> (\<forall>te i. mem_look (mem_step (after_wait x s) m) te i = map_option unnamed (sn_look s' te i))"
proof -
  have "(same_value x s \<longrightarrow> fst (mem_do (after_wait x s) m) = Inr (unnamed_out r)) \<and> turns_sim (mem_step (after_wait x s) m) s'"
  proof (cases x)
    case (OpOpen now u te ow tr pe) then show ?thesis using sim_open assms by (fastforce simp: mem_step_def)
  next
    case (OpChild now u te ow p tr) then show ?thesis using sim_child assms by (fastforce simp: mem_step_def)
  next
    case (OpAppend now th) then show ?thesis using sim_append assms by (fastforce simp: mem_step_def)
  next
    case (OpClose now te i re wh)
    then show ?thesis using sim_close [of m s now te i re wh r s'] assms(1,3) by (auto simp: mem_step_def simp del: after_wait.simps)
  next
    case (OpCloseEnd now te i re wh) then show ?thesis using sim_end assms by (fastforce simp: mem_step_def)
  next
    case (OpGet now te i)
    have "sn_db s' = sn_db s" using OpGet assms(3) sn_get_db [of now te i s] by (cases "sn_get now te i s") auto
    then have "turns_sim m s'" by (intro sim_same [OF assms(1)]) (simp add: sn_look_def)
    then show ?thesis using OpGet assms sim_get by (simp add: mem_step_def)
  qed (use assms in \<open>simp_all add: mem_step_def\<close>)
  then show ?thesis using turns_simD(3) by blast
qed

lemma quiet_close:
  assumes "tn_quiescent t = Some 0" "tn_quiescence t = 10000" "tn_status t = TOpen" "turn_schema t"
  shows "sn_close (\<lambda>d. d) 4000 (tn_tenant t) (tn_id t) ByQuiescence CQuiescence (sn_db (turns_of [t]))
      = (Inr (close_turn 10000 ByQuiescence CQuiescence t), put_turn 10000 (tn_tenant t) (close_turn 10000 ByQuiescence CQuiescence t) (sn_db (turns_of [t])))"
    "close_wait 4000 (tn_tenant t) (tn_id t) ByQuiescence (sn_db (turns_of [t])) = Inr 6000"
proof -
  have g: "get_parsed (tn_tenant t) (tn_id t) (sn_db (turns_of [t])) = Some (Inr t)"
    using look_turns_of [of t] assms(4) by (simp add: look_get_parsed sn_look_def check_turn_def)
  then show "close_wait 4000 (tn_tenant t) (tn_id t) ByQuiescence (sn_db (turns_of [t])) = Inr 6000"
    using assms by (simp add: close_wait_def)
  then show "sn_close (\<lambda>d. d) 4000 (tn_tenant t) (tn_id t) ByQuiescence CQuiescence (sn_db (turns_of [t]))
      = (Inr (close_turn 10000 ByQuiescence CQuiescence t), put_turn 10000 (tn_tenant t) (close_turn 10000 ByQuiescence CQuiescence t) (sn_db (turns_of [t])))"
    using g assms by (simp add: sn_close_end sp_transaction_simps sn_close_tx_def)
qed

abbreviation quiet_turn :: turn where
  "quiet_turn \<equiv> ex_turn\<lparr> tn_quiescent := Some 0 \<rparr>"

lemma quiet_sel: "tn_id quiet_turn = ''t1''" "tn_tenant quiet_turn = ''te''" "tn_status quiet_turn = TOpen"
  "tn_quiescence quiet_turn = 10000" "tn_quiescent quiet_turn = Some 0" "turn_schema quiet_turn" "CHR '':'' \<notin> set (tn_id quiet_turn)"
  by (simp_all add: turn_schema_def new_turn_def len_in_def)

abbreviation ex_quiet_mem :: mem_turns where
  "ex_quiet_mem \<equiv> \<lparr> mt_turns = [(tn_id quiet_turn, unnamed quiet_turn)], mt_thoughts = [] \<rparr>"

theorem store_refines_memory_witness:
  "\<exists>s'. sn_do (OpClose 4000 ''te'' ''t1'' ByQuiescence CQuiescence) (turns_of [quiet_turn])
        = (Inr (OutTurn (close_turn 10000 ByQuiescence CQuiescence quiet_turn)), s')
     \<and> fst (mem_do (OpClose 10000 ''te'' ''t1'' ByQuiescence CQuiescence) ex_quiet_mem)
        = Inr (OutTurn (unnamed (close_turn 10000 ByQuiescence CQuiescence quiet_turn)))
     \<and> turns_sim (mem_step (OpClose 10000 ''te'' ''t1'' ByQuiescence CQuiescence) ex_quiet_mem) s'"
proof -
  let ?x = "OpClose 4000 ''te'' ''t1'' ByQuiescence CQuiescence" and ?s = "turns_of [quiet_turn]"
  note q = quiet_close [OF quiet_sel(5,4,3,6), unfolded quiet_sel(1,2)]
  have w: "after_wait ?x ?s = OpClose 10000 ''te'' ''t1'' ByQuiescence CQuiescence" using q(2) by simp
  obtain s' where s': "sn_do ?x ?s = (Inr (OutTurn (close_turn 10000 ByQuiescence CQuiescence quiet_turn)), s')" using q(1) by simp
  have "op_fresh sn_look ?x ?s" by (simp add: op_fresh_def)
  from store_refines_memory [OF sim_one [OF quiet_sel(7)] this s', unfolded w]
  show ?thesis using s' by (auto simp del: sn_do.simps mem_do.simps)
qed

text \<open>When \<open>closeTurnAndChildren\<close> returns without an exception, no turn in the whole tree below the
  given one is open any more, at any depth, and no other turn of the table has been touched except
  by being closed.\<close>

theorem close_all_closes_tree:
  assumes "keyed_db d" "sn_close_all now te i re wh d = (Inr ts, d')"
  shows "(\<forall>j. descends d te i j \<longrightarrow> not_open d' te j) \<and> closes d d'"
  using assms visit_closes [OF assms(1), of 11 te re wh i now "[]"]
  by (auto simp: sn_close_all_def split: option.splits prod.splits)

theorem close_all_closes_tree_witness:
  "\<exists>ts d'. sn_close_all 1 ''te'' ''t1'' ByResponse CUser (sn_db (turns_of [ex_turn])) = (Inr ts, d')
     \<and> not_open d' ''te'' ''t1''"
proof -
  let ?d = "sn_db (turns_of [ex_turn])"
  have g: "get_parsed ''te'' ''t1'' ?d = Some (Inr ex_turn)"
    using look_turns_of [of ex_turn] ex_schema by (simp add: look_get_parsed sn_look_def check_turn_def)
  then have c: "sn_close (\<lambda>d. d) 1 ''te'' ''t1'' ByResponse CUser ?d = (Inr ex_closed, put_turn 1 ''te'' ex_closed ?d)"
    by (simp add: sn_close_def close_wait_def sp_transaction_simps sn_close_tx_def ex_status)
  have "tn_children ex_turn = []" by (simp add: new_turn_def)
  then have run: "sn_close_all 1 ''te'' ''t1'' ByResponse CUser ?d = (Inr [ex_closed], put_turn 1 ''te'' ex_closed ?d)"
    using g c by (simp add: sn_close_all_def numeral_eq_Suc ex_status close_wait_def)
  have "keyed_db ?d" using keyed_turns_of [of ex_turn] by (simp add: keyed_db_def well_keyed_def sn_look_def)
  from close_all_closes_tree [OF this run] run show ?thesis by (auto intro: descends.here)
qed

section \<open>Rows that the readers reject\<close>

lemma listed_when_few:
  assumes "st_get te kind i d = Some j" "st_count te kind d \<le> limit"
  shows "(jid j, j) \<in> set (sp_list te kind limit d)"
proof -
  obtain u where "((te, kind, i), j, u) \<in> set d" using assms(1) by (auto simp: st_get_def dest: map_of_SomeD)
  then have "((te, kind, i), j, u) \<in> set (list_rows te kind None d)"
    by (simp add: list_rows_def after_cursor_def)
  moreover have "length (list_rows te kind None d) \<le> limit"
    using assms(2) by (simp add: list_rows_def st_count_def after_cursor_def)
  ultimately show ?thesis
    by (force simp: sp_list_def st_list_paged_def opt_take_def)
qed

lemma parse_rows_bad: "\<lbrakk> (i, j) \<in> set rows; parse_turn j = Inl e \<rbrakk> \<Longrightarrow> \<exists>e'. parse_rows rows = Inl e'"
  unfolding parse_rows_def by (rule all_ok_bad [of e]) force

text \<open>A link entry among few rows spoils every list.\<close>

lemma link_breaks_lists:
  assumes "st_get te turns_kind (link_id t i) d = Some (link_row te t i)" "st_count te turns_kind d \<le> n" "n \<le> m"
  shows "\<exists>e. parse_rows (sp_list te turns_kind m d) = Inl e"
proof (rule parse_rows_bad)
  have "jid (link_row te t i) = link_id t i" by (simp add: jid_def jtext_def link_row_def)
  then show "(link_id t i, link_row te t i) \<in> set (sp_list te turns_kind m d)"
    using listed_when_few [OF assms(1)] assms(2,3) by fastforce
  show "parse_turn (link_row te t i) = Inl zod_error" by (simp add: parse_turn_def read_link_row)
qed

lemma append_link:
  assumes "well_keyed sn_look s" "sn_append now th s = (Inr p, s')"
  shows "st_get (th_tenant th) turns_kind (link_id (th_turn th) (th_id th)) (sn_db s')
    = Some (link_row (th_tenant th) (th_turn th) (th_id th))"
proof -
  let ?te = "th_tenant th"
  obtain v d where v: "s' = s\<lparr> sn_db := d \<rparr>" "d = put_turn now ?te (add_thought now (th_id th) v)
         (sp_put now ?te turns_kind (link_id (tn_id v) (th_id th)) (link_row ?te (tn_id v) (th_id th))
           (sp_put now ?te thoughts_kind (th_id th) (thought_row th) (sn_db s)))"
      "look_db (sn_db s) ?te (th_turn th) = Some v"
    by (cases rule: append_effect [of now th s]) (use assms(2) in auto)
  have "tn_id v = th_turn th" using keyedD [OF assms(1), of ?te "th_turn th" v] v(3) by (simp add: sn_look_def)
  moreover have "jid (link_row ?te (th_turn th) (th_id th)) = link_id (th_turn th) (th_id th)"
    by (simp add: jid_def jtext_def link_row_def)
  moreover have "link_id (th_turn th) (th_id th) \<noteq> th_turn th" by (simp add: link_id_def)
  ultimately show ?thesis using v by (simp add: put_turn_def sp_put_def st_get_put)
qed

text \<open>One appended thought is enough to make the lists of turns unusable: the entry that \<open>append\<close>
  writes under the kind of the turns is no turn, so as long as the tenant has at most 200 rows of that
  kind, \<open>listTurns\<close> with the largest window, \<open>listTurnsForOwner\<close> and \<open>listOpenTurnsForThread\<close> throw
  for every owner of the tenant.\<close>

theorem append_breaks_lists:
  assumes "well_keyed sn_look s" "sn_append now th s = (Inr p, s')"
    and "st_count (th_tenant th) turns_kind (sn_db s') \<le> 200"
  shows "\<not> is_ok (sn_list (th_tenant th) 200 (sn_db s'))
    \<and> \<not> is_ok (sn_list_owner (th_tenant th) owner 200 (sn_db s'))
    \<and> \<not> is_ok (sn_list_open (th_tenant th) owner (sn_db s'))"
proof -
  note l = link_breaks_lists [OF append_link [OF assms(1,2)] assms(3)]
  show ?thesis using l [of 200] l [of 500] by (auto simp: sn_list_def sn_list_owner_def sn_list_open_def list_cap_def)
qed

abbreviation ex_thought :: thought where
  "ex_thought \<equiv> \<lparr> th_id = ''h1'', th_tenant = ''te'', th_turn = ''t1'', th_owner = ''ow'',
     th_actor = \<lparr> ta_kind = KdUser, ta_id = ''a'', ta_behalf = None, ta_persona = None \<rparr>, th_role = RoIntent,
     th_content = CText ''hi'', th_attention = \<lparr> av_id = ''v'', av_author = AuUser, av_thought = None, av_primary = ''p'',
       av_secondary = [], av_query = ''q'', av_matched = [], av_ignored = [], av_intent = ''i'', av_confidence = 1,
       av_scope = ScTurn, av_time = 0, av_meta = [] \<rparr>,
     th_context = empty_context, th_provenance = \<lparr> pv_source = ''s'', pv_time = 0, pv_parent = None, pv_correlation = None \<rparr>,
     th_edges = [] \<rparr>"

lemma ex_thought_schema: "thought_schema ex_thought"
  by (simp add: thought_schema_def len_in_def actor_schema_def opt_max_def content_schema_def attention_schema_def
      texts_max_def unit_interval_def context_schema_def empty_context_def provenance_schema_def)

lemma ex_parsed: "get_parsed ''te'' ''t1'' (sn_db (turns_of [ex_turn])) = Some (Inr ex_turn)"
  using look_turns_of [of ex_turn] ex_schema by (simp add: look_get_parsed sn_look_def check_turn_def)

lemma ex_append: "sn_append 7 ex_thought (turns_of [ex_turn]) = (Inr ex_thought, (turns_of [ex_turn])
    \<lparr> sn_db := put_turn 7 ''te'' (add_thought 7 ''h1'' ex_turn) (sp_put 7 ''te'' turns_kind (link_id ''t1'' ''h1'') (link_row ''te'' ''t1'' ''h1'')
      (sp_put 7 ''te'' thoughts_kind ''h1'' (thought_row ex_thought) (sn_db (turns_of [ex_turn])))) \<rparr>)"
  using ex_parsed ex_thought_schema
  by (simp add: sn_append_def check_thought_def sp_transaction_simps sn_append_tx_def ex_status limit_for_def turns_of_def)
    (simp add: new_turn_def)

lemma count_put: "st_count ow k (st_put now ow' k' v d) \<le> Suc (st_count ow k d)"
proof -
  have "length (filter P (AList.update x y d)) \<le> Suc (length (filter P d))" for x y and P :: "row \<Rightarrow> bool"
    by (induction d) auto
  then show ?thesis by (simp add: st_count_def st_put_def)
qed

theorem append_breaks_lists_witness:
  "\<not> is_ok (sn_list ''te'' 200 (sn_db (snd (sn_append 7 ex_thought (turns_of [ex_turn])))))"
proof -
  let ?s = "snd (sn_append 7 ex_thought (turns_of [ex_turn]))"
  have "st_count ''te'' turns_kind (sn_db ?s) \<le> Suc (Suc (Suc (st_count ''te'' turns_kind (sn_db (turns_of [ex_turn])))))"
    by (simp add: ex_append put_turn_def sp_put_def)
      (rule le_trans [OF count_put], rule Suc_leI [OF le_imp_less_Suc], rule le_trans [OF count_put],
       rule Suc_leI [OF le_imp_less_Suc], rule le_trans [OF count_put], simp)
  also have "\<dots> \<le> 200" using count_put [of "''te''" turns_kind 0 "''te''" turns_kind "turn_row ex_turn" "[]"]
    by (simp add: turns_of_def put_turn_def sp_put_def) (simp add: st_count_def)
  finally have "st_count (th_tenant ex_thought) turns_kind (sn_db ?s) \<le> 200" by simp
  moreover have "sn_append 7 ex_thought (turns_of [ex_turn]) = (Inr ex_thought, ?s)" by (simp add: ex_append)
  ultimately show ?thesis using append_breaks_lists [OF keyed_turns_of] by fastforce
qed

text \<open>A hundred children is all a turn survives: opening one more succeeds, and leaves the parent with
  a row that its schema rejects, so that from then on the parent cannot be closed, extended or given
  a child, nor walked by \<open>closeTurnAndChildren\<close>: each of these throws and leaves the table as it is.\<close>

theorem child_101_locks_parent:
  assumes "keyed_db d" "sn_open_child now u te ow p tr d = (Inr c, d')"
    and "look_db d te p = Some t" "length (tn_children t) = 100" "u \<noteq> p"
  shows "sp_transaction (sn_close_tx now' te p re wh) d' = (Inl zod_error, d')
    \<and> sn_open_child now' u' te ow' p tr' d' = (Inl zod_error, d')
    \<and> sn_append_tx now' m (th\<lparr> th_tenant := te, th_turn := p \<rparr>) d' = (Inl zod_error, d')
    \<and> sn_close_all now' te p re wh d' = (Inl zod_error, d')"
proof -
  obtain v where v: "d' = put_turn now te c (put_turn now te (add_child u v) d)" "look_db d te p = Some v" "tn_id c = u"
    by (cases rule: child_effect [of now u te ow p tr d]) (use assms(2) in \<open>auto simp: new_turn_def\<close>)
  have t: "v = t" "tn_id t = p" using assms(1,3) v(2) by (auto simp: keyed_db_def)
  then have "look_db d' te p = Some (add_child u t)" using v assms(5) by (simp add: look_put_turn)
  moreover have "\<not> turn_schema (add_child u t)" using assms(4) by (simp add: turn_schema_def add_child_def)
  ultimately have g: "get_parsed te p d' = Some (Inl zod_error)"
    using look_get_parsed [of d' te p] by (simp add: check_turn_def)
  then show ?thesis
    by (simp add: sp_transaction_simps sn_close_tx_def sn_open_child_def sn_child_tx_def sn_append_tx_def
        sn_close_all_def numeral_eq_Suc)
qed

abbreviation full_turn :: turn where
  "full_turn \<equiv> ex_turn\<lparr> tn_children := replicate 100 ''c'' \<rparr>"

theorem child_101_locks_parent_witness:
  "\<exists>c d'. sn_open_child 1 ''u'' ''te'' ''ow'' ''t1'' ''x'' (sn_db (turns_of [full_turn])) = (Inr c, d')
     \<and> sp_transaction (sn_close_tx 2 ''te'' ''t1'' ByResponse CUser) d' = (Inl zod_error, d')"
proof -
  let ?d = "sn_db (turns_of [full_turn])"
  have k: "keyed_db ?d" using keyed_turns_of [of full_turn] by (simp add: keyed_db_def well_keyed_def sn_look_def)
  have sel: "tn_id full_turn = ''t1''" "tn_tenant full_turn = ''te''" "tn_status full_turn = TOpen"
    by (simp_all add: new_turn_def)
  have l: "look_db ?d ''te'' ''t1'' = Some full_turn"
    using look_turns_of [of full_turn "''te''" "''t1''"] sel by (simp add: sn_look_def)
  have "turn_schema full_turn" by (simp add: turn_schema_def new_turn_def len_in_def)
  then have g: "get_parsed ''te'' ''t1'' ?d = Some (Inr full_turn)"
    using look_get_parsed [OF l] by (simp add: check_turn_def)
  have "turn_schema (new_turn ''u'' ''te'' ''ow'' (Some ''t1'') None 1 ''x'')"
    by (simp add: turn_schema_def new_turn_def len_in_def)
  then have "\<exists>c d'. sn_open_child 1 ''u'' ''te'' ''ow'' ''t1'' ''x'' ?d = (Inr c, d')"
    using g sel by (simp add: sn_open_child_def sp_transaction_simps sn_child_tx_def check_turn_def)
  then obtain c d' where run: "sn_open_child 1 ''u'' ''te'' ''ow'' ''t1'' ''x'' ?d = (Inr c, d')" by blast
  show ?thesis using child_101_locks_parent [OF k run l, of 2 ByResponse CUser] run by auto
qed

text \<open>The same through the configured limit: with more than 500 allowed, the thought number 501 is
  accepted and its turn can no longer be read.\<close>

lemma thought_501_locks_turn:
  assumes "well_keyed sn_look s" "sn_append now th s = (Inr p, s')"
    and "sn_look s (th_tenant th) (th_turn th) = Some t" "length (tn_thoughts t) = 500"
  shows "get_parsed (th_tenant th) (th_turn th) (sn_db s') = Some (Inl zod_error)"
proof -
  obtain v where v: "look_db (sn_db s') (th_tenant th) (tn_id v) = Some (add_thought now (th_id th) v)"
      "look_db (sn_db s) (th_tenant th) (th_turn th) = Some v"
    by (cases rule: append_effect [of now th s]) (use assms(2) in \<open>auto simp: look_put_turn\<close>)
  have "v = t" "tn_id t = th_turn th" using assms(3) v(2) keyedD [OF assms(1,3)] by (auto simp: sn_look_def)
  moreover from this have "\<not> turn_schema (add_thought now (th_id th) v)" using assms(4) by (simp add: turn_schema_def add_thought_def)
  ultimately show ?thesis using v(1) look_get_parsed by (simp add: check_turn_def)
qed

section \<open>Reading and closing\<close>

lemma sort_insert_set: "set (by_time xs) = set xs" "length (by_time xs) = length xs" "sorted (map (\<lambda>t. pv_time (th_provenance t)) (by_time xs))"
  by (simp_all add: by_time_def)

lemma map_filter_eq: "(\<And>x. x \<in> set xs \<Longrightarrow> f x = g x) \<Longrightarrow> List.map_filter f xs = List.map_filter g xs"
  by (induction xs) (auto simp: List.map_filter_simps split: option.split)

lemma parse_thoughts_append: "parse_thoughts (xs @ ys) = (case parse_thoughts xs of Inl e \<Rightarrow> Inl e
    | Inr a \<Rightarrow> (case parse_thoughts ys of Inl e \<Rightarrow> Inl e | Inr b \<Rightarrow> Inr (a @ b)))"
  unfolding parse_thoughts_def by (induction xs) (auto split: sum.splits)

text \<open>What \<open>thoughtsOf\<close> returns after an append: the thoughts it returned before and the new one,
  nothing lost and nothing twice, in the order of their timestamps; the turn must have room in its
  schema, and the thought a new id.\<close>

theorem append_then_thoughts_of:
  assumes "well_keyed sn_look s" "sn_thoughts_of None (th_tenant th) (th_turn th) s = Inr ts"
    and "sn_append now th s = (Inr p, s')" "sn_look s (th_tenant th) (th_turn th) = Some t"
    and "length (tn_thoughts t) < 500" "th_id th \<notin> set (tn_thoughts t)"
  shows "\<exists>ts'. sn_thoughts_of None (th_tenant th) (th_turn th) s' = Inr ts' \<and> set ts' = insert th (set ts)
    \<and> length ts' = Suc (length ts) \<and> sorted (map (\<lambda>t. pv_time (th_provenance t)) ts')"
proof -
  let ?te = "th_tenant th" and ?i = "th_turn th" and ?k = "th_id th"
  obtain v d where v: "s' = s\<lparr> sn_db := d \<rparr>" "d = put_turn now ?te (add_thought now ?k v)
         (sp_put now ?te turns_kind (link_id (tn_id v) ?k) (link_row ?te (tn_id v) ?k)
           (sp_put now ?te thoughts_kind ?k (thought_row th) (sn_db s)))"
      "look_db (sn_db s) ?te ?i = Some v" "turn_schema v" "thought_schema th"
    by (cases rule: append_effect [of now th s]) (use assms(3) in auto)
  have t: "v = t" "tn_id t = ?i" "tn_tenant t = ?te"
    using assms(4) v(3) keyedD [OF assms(1,4)] by (auto simp: sn_look_def)
  have "look_db d ?te ?i = Some (add_thought now ?k t)" using v(2) t by (simp add: look_put_turn)
  moreover have "turn_schema (add_thought now ?k t)"
    using v(4,5) t assms(5) by (simp add: turn_schema_def add_thought_def thought_schema_def len_in_def)
  ultimately have g': "get_parsed ?te ?i (sn_db s') = Some (Inr (add_thought now ?k t))"
    using look_get_parsed v(1) by (simp add: check_turn_def)
  have g: "get_parsed ?te ?i (sn_db s) = Some (Inr t)"
    using look_get_parsed [OF v(3)] v(4) t by (simp add: check_turn_def)
  have get: "sp_get ?te thoughts_kind j (sn_db s') = (if j = ?k then Some (thought_row th) else sp_get ?te thoughts_kind j (sn_db s))" for j
    using v(1,2) by (simp add: sp_get_def put_turn_def sp_put_def st_get_put)
  let ?old = "List.map_filter (\<lambda>j. sp_get ?te thoughts_kind j (sn_db s)) (tn_thoughts t)"
  have same: "List.map_filter (\<lambda>j. sp_get ?te thoughts_kind j (sn_db s')) (tn_thoughts t) = ?old"
    using assms(6) by (intro map_filter_eq) (auto simp: get)
  have new: "List.map_filter (\<lambda>j. sp_get ?te thoughts_kind j (sn_db s')) (tn_thoughts t @ [?k]) = ?old @ [thought_row th]"
    using same by (simp add: map_filter_def get)
  obtain xs where xs: "parse_thoughts ?old = Inr xs" "ts = by_time xs"
    using assms(2) g t by (cases "parse_thoughts ?old") (auto simp: sn_thoughts_of_def)
  have "parse_thoughts [thought_row th] = Inr [th]"
    using v(5) by (simp add: parse_thoughts_def parse_thought_row check_thought_def)
  then have "parse_thoughts (?old @ [thought_row th]) = Inr (xs @ [th])" using xs by (simp add: parse_thoughts_append)
  then have "sn_thoughts_of None ?te ?i s' = Inr (by_time (xs @ [th]))"
    using g' t new by (simp add: sn_thoughts_of_def add_thought_def)
  then show ?thesis using xs(2) sort_insert_set [of xs] sort_insert_set [of "xs @ [th]"] by simp
qed

theorem append_then_thoughts_of_witness:
  "\<exists>ts'. sn_thoughts_of None ''te'' ''t1'' (snd (sn_append 7 ex_thought (turns_of [ex_turn]))) = Inr ts' \<and> set ts' = {ex_thought}"
proof -
  let ?s = "snd (sn_append 7 ex_thought (turns_of [ex_turn]))"
  have "sn_thoughts_of None ''te'' ''t1'' (turns_of [ex_turn]) = Inr []"
    using ex_parsed by (simp add: sn_thoughts_of_def) (simp add: new_turn_def parse_thoughts_def by_time_def map_filter_def)
  moreover have "sn_append 7 ex_thought (turns_of [ex_turn]) = (Inr ex_thought, ?s)" by (simp add: ex_append)
  moreover have "sn_look (turns_of [ex_turn]) ''te'' ''t1'' = Some ex_turn" by (simp add: look_turns_of)
  moreover have "tn_thoughts ex_turn = []" by (simp add: new_turn_def)
  ultimately show ?thesis using append_then_thoughts_of [OF keyed_turns_of [of ex_turn], where th = ex_thought and ts = "[]" and s' = ?s] by fastforce
qed

text \<open>A turn closed by quiescence, when nobody else writes meanwhile, was closed only after its whole
  \<open>quiescenceMs\<close> had passed since the last thought; and no wait is longer than ten minutes.\<close>

theorem quiescence_waits:
  assumes "look_db d te i = Some t" "tn_status t = TOpen" "tn_quiescent t = Some q" "q \<le> now"
    and "sn_close (\<lambda>d. d) now te i ByQuiescence who d = (Inr t', d')"
  shows "\<exists>c. tn_closed t' = Some c \<and> q + tn_quiescence t \<le> c \<and> c \<le> now + 600000"
proof -
  have "get_parsed te i d = Some (check_turn t)" using look_get_parsed [OF assms(1)] .
  then have g: "get_parsed te i d = Some (Inr t)" and t: "turn_schema t"
    using assms(5) by (auto simp: sn_close_def close_wait_def check_turn_def split: if_splits)
  obtain w where w: "close_wait now te i ByQuiescence d = Inr w"
    "w = (if tn_quiescence t > 0 then max 0 (min (tn_quiescence t - (now - q)) 600000) else 0)"
    using g assms(3) by (simp add: close_wait_def)
  then have "t' = close_turn (now + w) ByQuiescence who t"
    using assms(2,5) g by (auto simp: sn_close_def sp_transaction_simps sn_close_tx_def split: if_splits)
  moreover have "q + tn_quiescence t \<le> now + w \<and> now + w \<le> now + 600000"
    using w(2) t assms(4) by (auto simp: turn_schema_def)
  ultimately show ?thesis by (simp add: close_turn_def)
qed

theorem quiescence_waits_witness:
  "\<exists>t' c d'. sn_close (\<lambda>d. d) 4000 ''te'' ''t1'' ByQuiescence CQuiescence (sn_db (turns_of [quiet_turn])) = (Inr t', d')
     \<and> tn_closed t' = Some c \<and> 10000 \<le> c"
proof -
  let ?d = "sn_db (turns_of [quiet_turn])"
  have l: "look_db ?d ''te'' ''t1'' = Some quiet_turn"
    using look_turns_of [of quiet_turn "''te''" "''t1''"] quiet_sel(1,2) by (simp add: sn_look_def)
  obtain t' d' where run: "sn_close (\<lambda>d. d) 4000 ''te'' ''t1'' ByQuiescence CQuiescence ?d = (Inr t', d')"
    using quiet_close(1) [OF quiet_sel(5,4,3,6), unfolded quiet_sel(1,2)] by simp
  from quiescence_waits [OF l quiet_sel(3) _ _ run, of 0] quiet_sel(4) run show ?thesis by auto
qed

text \<open>The turn is not looked at again after the wait: a thought appended meanwhile does not prolong it.\<close>

lemma quiescence_not_rechecked:
  assumes "get_parsed te i d = Some (Inr t)" "tn_quiescent t = Some q" "tn_quiescence t - (now - q) = w" "0 < w" "w \<le> 600000"
    and "get_parsed te i (others d) = Some (Inr u)" "tn_status u = TOpen" "tn_tenant u = te" "0 < tn_quiescence t"
  shows "fst (sn_close others now te i ByQuiescence who d) = Inr (close_turn (now + w) ByQuiescence who u)"
  using assms by (simp add: sn_close_def close_wait_def sp_transaction_simps sn_close_tx_def)

definition cache_typed :: "store_turns \<Rightarrow> bool" where
  "cache_typed s \<longleftrightarrow> (\<forall>e\<in>set (sn_cache s). turn_schema (snd (snd e)))"

lemma parse_rows_typed: "pred_sum (\<lambda>_. True) (list_all turn_schema) (parse_rows rows)"
proof (cases "parse_rows rows")
  case (Inr ts)
  then have all: "map (\<lambda>r. parse_turn (snd r)) rows = map Inr ts" by (simp add: parse_rows_def all_ok_iff)
  have "turn_schema t" if "t \<in> set ts" for t
  proof -
    have "Inr t \<in> set (map (\<lambda>r. parse_turn (snd r)) rows)" using that all by simp
    then show ?thesis using parse_turn_InrD by fastforce
  qed
  then show ?thesis using Inr by (simp add: list_all_iff)
qed simp

lemma close_typed: "pred_sum (\<lambda>_. True) turn_schema (fst (sn_close others now te i re wh d))"
proof -
  have "turn_schema (close_turn n re wh t) = turn_schema t" for n t by (simp add: turn_schema_def close_turn_def)
  then have "pred_sum (\<lambda>_. True) turn_schema (fst (sp_transaction (sn_close_tx n te i re wh) x))" for n x
    by (cases rule: close_effect [of n te i re wh x]) simp_all
  then show ?thesis by (simp add: sn_close_def split: sum.split)
qed

lemma each_typed:
  assumes "\<And>c acc. list_all turn_schema (fst (snd acc)) \<Longrightarrow> list_all turn_schema (fst (snd (snd (f c acc))))"
    and "list_all turn_schema (fst (snd acc))"
  shows "list_all turn_schema (fst (snd (snd (each f cs acc))))"
  using assms(2)
proof (induction cs arbitrary: acc)
  case (Cons c cs)
  obtain e acc' where r: "f c acc = (e, acc')" by (rule prod.exhaust)
  have "list_all turn_schema (fst (snd acc'))" using assms(1) [OF Cons.prems, of c] r by simp
  then show ?case using r Cons.IH [of acc'] by (cases e) auto
qed simp

lemma visit_typed:
  assumes "list_all turn_schema (fst (snd acc))"
  shows "list_all turn_schema (fst (snd (snd (visit n te re wh i acc))))"
  using assms
proof (induction n arbitrary: i acc)
  case (Suc n)
  show ?case
  proof (cases "get_parsed te i (snd (snd acc))")
    case (Some r)
    then show ?thesis
    proof (cases r)
      case (Inr t)
      obtain e1 now1 ts1 d1 where r1: "each (visit n te re wh) (tn_children t) acc = (e1, now1, ts1, d1)" by (metis prod_cases4)
      have ts1: "list_all turn_schema ts1" using each_typed [of "visit n te re wh", OF Suc.IH Suc.prems, where cs = "tn_children t"] r1 by simp
      then show ?thesis
        using Some Inr r1 Suc.prems close_typed [of "\<lambda>d. d" now1 te i re wh d1]
        by (auto split: option.split sum.split prod.split)
    qed (use Suc.prems in simp)
  qed (use Suc.prems in simp)
qed simp

lemma close_all_typed: "pred_sum (\<lambda>_. True) (list_all turn_schema) (fst (sn_close_all now te i re wh d))"
  using visit_typed [of "(now, [], d)" 11 te re wh i] by (auto simp: sn_close_all_def split: option.split prod.split)

text \<open>C26: Every turn that \<open>StoreTurnStore\<close> hands out satisfies \<open>turnSchema\<close>, in each of its operations that
  returns turns: opening, opening a child, closing (with other callers writing anything during its
  sleep), closing with the children, the three lists, and \<open>getTurn\<close> when its cache holds such turns,
  which \<open>getTurn\<close> keeps; the table may hold any rows.\<close>

theorem returned_turns_typed:
  assumes "cache_typed s"
  shows "pred_sum (\<lambda>_. True) turn_schema (fst (sn_open now u te ow tr pe d))
    \<and> pred_sum (\<lambda>_. True) turn_schema (fst (sn_open_child now u te ow par tr d))
    \<and> pred_sum (\<lambda>_. True) turn_schema (fst (sn_close others now te i re wh d))
    \<and> pred_sum (\<lambda>_. True) (list_all turn_schema) (fst (sn_close_all now te i re wh d))
    \<and> pred_sum (\<lambda>_. True) (list_all turn_schema) (sn_list te n d)
    \<and> pred_sum (\<lambda>_. True) (list_all turn_schema) (sn_list_owner te ow n d)
    \<and> pred_sum (\<lambda>_. True) (list_all turn_schema) (sn_list_open te ow d)
    \<and> pred_sum (\<lambda>_. True) (pred_option turn_schema) (fst (sn_get now te i s))
    \<and> cache_typed (snd (sn_get now te i s))"
proof (intro conjI)
  show "pred_sum (\<lambda>_. True) turn_schema (fst (sn_open now u te ow tr pe d))"
    by (cases rule: open_effect [of now u te ow tr pe d]) simp_all
  show "pred_sum (\<lambda>_. True) turn_schema (fst (sn_open_child now u te ow par tr d))"
    by (cases rule: child_effect [of now u te ow par tr d]) simp_all
  show "pred_sum (\<lambda>_. True) (list_all turn_schema) (sn_list te n d)" by (simp add: sn_list_def parse_rows_typed)
  have part: "pred_sum (\<lambda>_. True) (list_all turn_schema) (map_sum id f (parse_rows rows))"
    if "\<And>ts. set (f ts) \<subseteq> set ts" for f rows
    using parse_rows_typed [of rows] that by (cases "parse_rows rows") (auto simp: list_all_iff)
  show "pred_sum (\<lambda>_. True) (list_all turn_schema) (sn_list_owner te ow n d)"
    unfolding sn_list_owner_def by (rule part) (auto dest: in_set_takeD)
  show "pred_sum (\<lambda>_. True) (list_all turn_schema) (sn_list_open te ow d)"
    unfolding sn_list_open_def by (rule part) auto
  have c: "turn_schema t" if "map_of (sn_cache s) k = Some (n, t)" for k n t
    using assms map_of_SomeD [OF that] by (auto simp: cache_typed_def)
  have g: "turn_schema t" if "get_parsed te i (sn_db s) = Some (Inr t)" for t using get_parsed_look [OF that] by simp
  show "pred_sum (\<lambda>_. True) (pred_option turn_schema) (fst (sn_get now te i s))"
    using c [of "cache_key te i"] g by (auto simp: sn_get_def Let_def split: option.splits sum.splits prod.splits)
  have "set (AList.update k x (sn_cache s)) \<subseteq> insert (k, x) (set (sn_cache s))" "set (AList.delete k (sn_cache s)) \<subseteq> set (sn_cache s)" for k x
    by (rule set_update_subset set_delete_subset)+
  then show "cache_typed (snd (sn_get now te i s))"
    using assms g by (fastforce simp: sn_get_def Let_def cache_typed_def split: option.splits sum.splits prod.splits)
qed (rule close_typed close_all_typed)+

theorem returned_turns_typed_witness:
  "pred_sum (\<lambda>_. True) (pred_option turn_schema) (fst (sn_get 5 ''te'' ''t1'' (turns_of [ex_turn])))
   \<and> pred_sum (\<lambda>_. True) (list_all turn_schema) (sn_list ''te'' 20 (sn_db (turns_of [ex_turn])))"
proof -
  have "cache_typed (turns_of [ex_turn])" by (simp add: cache_typed_def turns_of_def)
  from returned_turns_typed [OF this] show ?thesis by blast
qed

end
