(* ===== verification/KernelProps.thy ===== *)
theory KernelProps
  imports Kernel TurnProps
begin

text \<open>
  The properties of the kernel's operations: what a successful append leaves behind, how the audit
  trail follows, and what the turn store's unreadable rows do to the kernel.
\<close>

section \<open>Sample runs\<close>

lemma first_entry:
  assumes "\<forall>r\<in>set d. row_kind r \<noteq> audit_kind" "audit_schema (make_entry hashf (uuid 7) (now 7) None inp)"
  shows "\<exists>e d'. store_audit hashf False clock uuid now inp d = (Inr e, d')"
proof -
  have "st_get (ai_tenant inp) audit_kind anchor_id d = None"
    using assms(1) by (auto simp: st_get_def map_of_eq_None_iff)
  moreover have "filter (\<lambda>r. row_owner r = ai_tenant inp \<and> row_kind r = audit_kind) d = []"
    using assms(1) by (auto simp: filter_empty_conv)
  ultimately have h: "store_last_hash plain_store (ai_tenant inp) d = None" "anchor_hash plain_store (ai_tenant inp) d = None"
    "st_get (ai_tenant inp) audit_kind anchor_id d = None"
    by (simp_all add: store_last_hash_def anchor_hash_def st_list_def list_rows_def after_cursor_def)
  have "ae_prev (make_entry hashf (uuid 7) (now 7) None inp) = None" by (simp add: make_entry_def)
  then have "\<exists>e d'. append_attempt plain_store hashf clock (uuid 7) (now 7) (\<lambda>s. s) (\<lambda>s. s) inp d = (Appended e, d')"
    using h assms(2) by (simp add: append_attempt_def Let_def st_insert_def jid_def jtext_def)
  then show ?thesis by (auto simp: store_audit_def audit_append_def numeral_eq_Suc)
qed

definition ex_env :: kernel_env where
  "ex_env = \<lparr> ke_now = 7, ke_uuid = ''h1'', ke_resolve = (\<lambda>_ _. Inr ''te''), ke_max_thoughts = (\<lambda>_ _. Inr 500),
     ke_audit = store_audit (\<lambda>_. replicate 64 CHR ''a'') False 7 (\<lambda>_. ''e1'') (\<lambda>_. 7) \<rparr>"

definition ex_ctx :: kctx where
  "ex_ctx = \<lparr> kx_tenant = Some ''te'', kx_owner = ''ow'', kx_role = KrUser, kx_request = ''rq'', kx_thread = None, kx_parent = None,
     kx_correlation = None, kx_persona = None, kx_actor = ''a'', kx_session = None \<rparr>"

definition ex_input :: thought_input where
  "ex_input = \<lparr> ti_turn = ''t1'', ti_actor = th_actor ex_thought, ti_role = RoIntent, ti_content = CText ''hi'',
     ti_attention = th_attention ex_thought, ti_context = empty_context, ti_edges = [], ti_source = Some ''s'', ti_time = Some 0,
     ti_parent = None, ti_correlation = None \<rparr>"

definition ex_state :: kernel_state where
  "ex_state = \<lparr> kn_store = turns_of [ex_turn], kn_hooks = [] \<rparr>"

lemma ex_new_thought: "new_thought ex_env ex_ctx ''te'' ex_input = ex_thought"
  by (simp add: new_thought_def ex_env_def ex_ctx_def ex_input_def given_text_def)

lemma kinds_update: "\<lbrakk> \<forall>r\<in>set d. row_kind r \<noteq> K; fst (snd k) \<noteq> K \<rbrakk> \<Longrightarrow> \<forall>r\<in>set (AList.update k v d). row_kind r \<noteq> K"
  using set_update_subset [of k v d] by auto

lemma ex_run: "\<exists>s'. k_append_thought ex_env ex_ctx ex_input ex_state = (Inr ex_thought, s')"
proof -
  let ?d = "sn_db (snd (sn_append 7 ex_thought (turns_of [ex_turn])))"
  let ?inp = "\<lparr> ai_tenant = ''te'', ai_owner = ''ow'', ai_action = ''thought.appended'', ai_actor = (''user'', ''a''),
     ai_payload = JObj (trace_payload ex_ctx ex_thought) \<rparr>"
  have "\<forall>r\<in>set ?d. row_kind r \<noteq> audit_kind"
    unfolding ex_append by (simp add: turns_of_def put_turn_def sp_put_def st_put_def audit_kind_def)
  then have "\<exists>e d'. ke_audit ex_env ?inp ?d = (Inr e, d')"
    by (simp add: ex_env_def) (rule first_entry, simp_all add: audit_schema_def make_entry_def len_in_def audit_actions_def payload_ok_def ex_ctx_def)
  then obtain e d' where au: "ke_audit ex_env ?inp ?d = (Inr e, d')" by blast
  obtain u where u: "sn_append 7 ex_thought (turns_of [ex_turn]) = (Inr ex_thought, u)" by (simp add: ex_append)
  moreover have "ke_audit ex_env ?inp (sn_db u) = (Inr e, d')" using au u by simp
  moreover have "check_thought ex_thought = Inr ex_thought" using ex_thought_schema by (simp add: check_thought_def)
  moreover have "tenant_of ex_env ex_ctx ex_state = (Inr ''te'', ex_state)" by (simp add: tenant_of_def ex_ctx_def give_def)
  moreover have "ke_now ex_env = 7" "kx_owner ex_ctx = ''ow''" by (simp_all add: ex_env_def ex_ctx_def)
  ultimately show ?thesis
    by (simp add: k_append_thought_def then_do_def reads_def ex_new_thought on_store_def call_hook_def audit_def on_db_def
        give_def ex_state_def split: prod.split)
qed

section \<open>Properties\<close>

text \<open>An \<open>appendThought\<close> that returns has left all of its traces: the thought is stored, its turn lists it
  last and has been touched, the hook was called with it, and the audit trail holds an entry of this
  tenant and owner that names the thought and its turn.\<close>

theorem append_leaves_traces:
  assumes "k_append_thought (env\<lparr> ke_audit := store_audit hashf shared clock uuid now \<rparr>) cx x s = (Inr th, s')"
  shows "st_get (th_tenant th) thoughts_kind (th_id th) (kdb s') = Some (thought_row th)
    \<and> (\<exists>t. look_db (kdb s') (th_tenant th) (tn_id t) = Some t \<and> look_db (kdb s) (th_tenant th) (th_turn th) \<noteq> None
        \<and> tn_thoughts t \<noteq> [] \<and> last (tn_thoughts t) = th_id th \<and> tn_quiescent t = Some (ke_now env))
    \<and> ThoughtAppended th \<in> set (kn_hooks s')
    \<and> (\<exists>e. st_get (th_tenant th) audit_kind (ae_id e) (kdb s') = Some (entry_json e)
        \<and> ai_action (ae_input e) = ''thought.appended'' \<and> ai_owner (ae_input e) = kx_owner cx
        \<and> jtext (ai_payload (ae_input e)) ''thoughtId'' = Some (th_id th)
        \<and> jtext (ai_payload (ae_input e)) ''turnId'' = Some (th_turn th))"
proof -
  let ?env = "env\<lparr> ke_audit := store_audit hashf shared clock uuid now \<rparr>" and ?te = "th_tenant th"
  obtain s3 e where app: "on_store (sn_append (ke_now ?env) (new_thought ?env cx ?te x)) s = (Inr th, s3)"
    and au: "audit ?env ?te cx ''thought.appended'' (kind_text (ta_kind (th_actor th)), ta_id (th_actor th))
      (trace_payload cx th) (s3\<lparr> kn_hooks := kn_hooks s3 @ [ThoughtAppended th] \<rparr>) = (Inr e, s')"
    using assms by (rule append_thought_parts)
  note au = sa.audited [OF au]
  show ?thesis
  proof (cases rule: append_effect [of "ke_now env" "new_thought ?env cx ?te x" "kn_store s"])
    case (failed err) then show ?thesis using app by (auto simp: on_store_def)
  next
    case (appended t d)
    have d: "th = new_thought ?env cx ?te x" "kdb s3 = d" using appended(1) app by (auto simp: on_store_def kdb_def)
    have "st_get ?te thoughts_kind (th_id th) d = Some (thought_row th)"
      using appended(2) d by (simp add: put_turn_def sp_put_def st_get_put)
    then have "st_get ?te thoughts_kind (th_id th) (kdb s') = Some (thought_row th)"
      using au(3) [of thoughts_kind ?te "th_id th"] d by (simp add: audit_kind_def kdb_def)
    moreover have "look_db (kdb s') ?te (tn_id t) = Some (add_thought (ke_now env) (th_id th) t)"
      using appended(2) d au(4) by (simp add: look_put_turn kdb_def)
    ultimately show ?thesis using d au(1,2,5) appended(3)
      by (intro conjI exI [of _ "add_thought (ke_now env) (th_id th) t"] exI [of _ e])
        (simp_all add: add_thought_def jtext_def kdb_def)
  qed
qed

theorem append_leaves_traces_witness:
  "\<exists>s'. k_append_thought ex_env ex_ctx ex_input ex_state = (Inr ex_thought, s')
     \<and> st_get ''te'' thoughts_kind ''h1'' (kdb s') = Some (thought_row ex_thought) \<and> ThoughtAppended ex_thought \<in> set (kn_hooks s')"
proof -
  obtain s' where run: "k_append_thought ex_env ex_ctx ex_input ex_state = (Inr ex_thought, s')" using ex_run by blast
  have "ex_env\<lparr> ke_audit := store_audit (\<lambda>_. replicate 64 CHR ''a'') False 7 (\<lambda>_. ''e1'') (\<lambda>_. 7) \<rparr> = ex_env"
    by (simp add: ex_env_def)
  then have "k_append_thought (ex_env\<lparr> ke_audit := store_audit (\<lambda>_. replicate 64 CHR ''a'') False 7 (\<lambda>_. ''e1'') (\<lambda>_. 7) \<rparr>)
      ex_ctx ex_input ex_state = (Inr ex_thought, s')"
    using run by (simp only:)
  from append_leaves_traces [OF this] run show ?thesis by auto
qed

text \<open>One appended thought stops the reuse of turns for the whole tenant: while the tenant has at most
  200 rows of turns, \<open>openTurnIdempotent\<close>, \<open>listOpenTurnsForThread\<close>, \<open>findOpenTurnForThread\<close> (for a
  context with a thread) and \<open>listTurns\<close> with its largest window throw for every owner, and open or
  find nothing.\<close>

theorem append_blocks_reuse:
  assumes "k_append_thought (env\<lparr> ke_audit := store_audit hashf shared clock uuid now \<rparr>) cx x s = (Inr th, s')"
    and "well_keyed sn_look (kn_store s)" "st_count (th_tenant th) turns_kind (kdb s') \<le> 200"
    and "kx_tenant cy = Some (th_tenant th)" "ke_resolve env' (kx_owner cy) (kdb s') = Inr (th_tenant th)"
    and "kx_thread cy = Some thread" "thread \<noteq> []"
  shows "(\<exists>e. k_open_idempotent env' cy trigger s' = (Inl e, s')) \<and> (\<exists>e. k_list_open env' cy s' = (Inl e, s'))
    \<and> (\<exists>e. k_find_open env' cy s' = (Inl e, s')) \<and> (\<exists>e. k_list_turns env' cy 40 s' = (Inl e, s'))"
proof -
  let ?env = "env\<lparr> ke_audit := store_audit hashf shared clock uuid now \<rparr>" and ?te = "th_tenant th"
  obtain s3 e where app: "on_store (sn_append (ke_now ?env) (new_thought ?env cx ?te x)) s = (Inr th, s3)"
    and au: "audit ?env ?te cx ''thought.appended'' (kind_text (ta_kind (th_actor th)), ta_id (th_actor th))
      (trace_payload cx th) (s3\<lparr> kn_hooks := kn_hooks s3 @ [ThoughtAppended th] \<rparr>) = (Inr e, s')"
    using assms(1) by (rule append_thought_parts)
  have "sn_append (ke_now ?env) (new_thought ?env cx ?te x) (kn_store s) = (Inr th, kn_store s3)"
    using app by (auto simp: on_store_def split: prod.splits)
  moreover from this have "th = new_thought ?env cx ?te x"
    by (cases rule: append_effect [of "ke_now ?env" "new_thought ?env cx ?te x" "kn_store s"]) auto
  ultimately have "st_get ?te turns_kind (link_id (th_turn th) (th_id th)) (kdb s3) = Some (link_row ?te (th_turn th) (th_id th))"
    using append_link [OF assms(2)] by (fastforce simp: kdb_def)
  then have "st_get ?te turns_kind (link_id (th_turn th) (th_id th)) (kdb s') = Some (link_row ?te (th_turn th) (th_id th))"
    using sa.audited(3) [OF au, of turns_kind] by (simp add: audit_kind_def kdb_def)
  note l = link_breaks_lists [OF this assms(3)]
  have "\<exists>e. parse_rows (sp_list ?te turns_kind 200 (kdb s')) = Inl e" "\<exists>e. parse_rows (sp_list ?te turns_kind 500 (kdb s')) = Inl e"
    using l [of 200] l [of 500] by auto
  then obtain a b where "sn_list ?te 200 (sn_db (kn_store s')) = Inl a" "sn_list_open ?te (kx_owner cy) (sn_db (kn_store s')) = Inl b"
    by (auto simp: sn_list_def sn_list_open_def list_cap_def kdb_def)
  then show ?thesis using assms(4-7)
    by (simp add: k_open_idempotent_def k_list_open_def k_find_open_def k_list_turns_def then_do_def tenant_of_def
        resolve_owner_def reads_def give_def given_text_def kdb_def)
qed

lemma count_update: "st_count ow k (AList.update x y d) \<le> Suc (st_count ow k d)"
  unfolding st_count_def by (induction d) auto

lemma count_ops:
  "st_insert c te kind v d = (r, d') \<Longrightarrow> st_count ow k d' \<le> Suc (st_count ow k d)"
  "st_cas c te kind i e p d = (r, d') \<Longrightarrow> st_count ow k d' \<le> Suc (st_count ow k d)"
  using count_update by (auto simp: st_insert_def st_cas_def le_SucI split: option.splits if_splits)

lemma attempt_count:
  assumes "append_attempt plain_store hashf clock u t (\<lambda>s. s) (\<lambda>s. s) inp d = (a, d')"
  shows "st_count ow k d' \<le> st_count ow k d + 2"
proof -
  have two: "st_count ow k (st_put c te kind v x) \<le> Suc (Suc (st_count ow k d))" if "st_count ow k x \<le> Suc (st_count ow k d)" for c te kind v x
    using count_put [of ow k c te kind v x] that by simp
  show ?thesis using assms
    by (auto simp: append_attempt_def Let_def dest!: count_ops [where ow = ow and k = k] intro: two
        split: if_splits option.splits prod.splits)
qed

lemma store_append_count: "store_append plain_store hashf clock uuid now (\<lambda>_ s. s) (\<lambda>_ s. s) inp n why d = (r, d') \<Longrightarrow>
    st_count ow k d' \<le> st_count ow k d + 2 * n"
proof (induction n arbitrary: why d)
  case (Suc n)
  obtain a d1 where a: "append_attempt plain_store hashf clock (uuid n) (now n) (\<lambda>s. s) (\<lambda>s. s) inp d = (a, d1)" by (rule prod.exhaust)
  have "st_count ow k d1 \<le> st_count ow k d + 2" by (rule attempt_count [OF a])
  then show ?case using Suc.prems a Suc.IH [of _ d1] by (cases a) fastforce+
qed simp

lemma store_audit_count: "store_audit hashf sh clock uuid now inp d = (r, d') \<Longrightarrow> st_count ow k d' \<le> st_count ow k d + 16"
  using store_append_count [of hashf clock uuid now inp 8 _ d r d' ow k] by (auto simp: store_audit_def audit_append_def split: if_splits)

lemma ex_count:
  assumes "k_append_thought ex_env ex_ctx ex_input ex_state = (Inr ex_thought, s')"
  shows "st_count ''te'' turns_kind (kdb s') \<le> 200"
proof -
  obtain s3 e where app: "on_store (sn_append (ke_now ex_env) (new_thought ex_env ex_ctx (th_tenant ex_thought) ex_input)) ex_state = (Inr ex_thought, s3)"
    and au: "audit ex_env (th_tenant ex_thought) ex_ctx ''thought.appended'' (kind_text (ta_kind (th_actor ex_thought)), ta_id (th_actor ex_thought))
      (trace_payload ex_ctx ex_thought) (s3\<lparr> kn_hooks := kn_hooks s3 @ [ThoughtAppended ex_thought] \<rparr>) = (Inr e, s')"
    using assms by (rule append_thought_parts)
  have "sn_append 7 ex_thought (turns_of [ex_turn]) = (Inr ex_thought, kn_store s3)"
    using app ex_new_thought by (auto simp: on_store_def ex_state_def ex_env_def split: prod.splits)
  then have "st_count ''te'' turns_kind (kdb s3) = st_count ''te'' turns_kind (sn_db (snd (sn_append 7 ex_thought (turns_of [ex_turn]))))"
    by (simp add: kdb_def)
  also have "\<dots> \<le> 4"
    unfolding ex_append by (simp add: turns_of_def put_turn_def sp_put_def st_put_def st_count_def jid_def jtext_def link_row_def)
  finally have "st_count ''te'' turns_kind (kdb s3) \<le> 4" .
  moreover have "st_count ''te'' turns_kind (kdb s') \<le> st_count ''te'' turns_kind (kdb s3) + 16"
    using au store_audit_count by (fastforce simp: audit_def on_db_result ex_env_def kdb_def)
  ultimately show ?thesis by simp
qed

theorem append_blocks_reuse_witness:
  "\<exists>s' e. k_append_thought ex_env ex_ctx ex_input ex_state = (Inr ex_thought, s')
     \<and> k_open_idempotent ex_env (ex_ctx\<lparr> kx_thread := Some ''th'' \<rparr>) ''x'' s' = (Inl e, s')"
proof -
  obtain s' where run: "k_append_thought ex_env ex_ctx ex_input ex_state = (Inr ex_thought, s')" using ex_run by blast
  have "ex_env\<lparr> ke_audit := store_audit (\<lambda>_. replicate 64 CHR ''a'') False 7 (\<lambda>_. ''e1'') (\<lambda>_. 7) \<rparr> = ex_env"
    by (simp add: ex_env_def)
  then have r: "k_append_thought (ex_env\<lparr> ke_audit := store_audit (\<lambda>_. replicate 64 CHR ''a'') False 7 (\<lambda>_. ''e1'') (\<lambda>_. 7) \<rparr>)
      ex_ctx ex_input ex_state = (Inr ex_thought, s')"
    using run by (simp only:)
  have "well_keyed sn_look (kn_store ex_state)" using keyed_turns_of by (simp add: ex_state_def)
  from append_blocks_reuse [OF r this, of "ex_ctx\<lparr> kx_thread := Some ''th'' \<rparr>" ex_env "''th''" "''x''"] ex_count [OF run] run
  show ?thesis by (auto simp: ex_ctx_def ex_env_def)
qed

text \<open>A close that fails after its first step is not undone: when closing the turn succeeded and closing
  its children throws (a child that the schema rejects, or more than ten levels), \<open>closeTurn\<close> of the
  kernel throws that error, the turn stays closed, and the audit trail says nothing about it.\<close>

theorem failed_close_leaves_no_trace:
  assumes "ke_resolve env (kx_owner cx) (kdb s) = Inr te" "close_wait (ke_now env) te i re (kdb s) = Inr w"
    and "sn_close (\<lambda>d. d) (ke_now env) te i re who (kdb s) = (Inr t, d1)" "keyed_db (kdb s)"
    and "sn_close_all (ke_now env + w) te i re who d1 = (Inl e, d2)"
  shows "\<exists>s'. k_close_turn env (\<lambda>d. d) cx i re who s = (Inl e, s') \<and> not_open (kdb s') te i
    \<and> st_get ow audit_kind j (kdb s') = st_get ow audit_kind j (kdb s)"
proof -
  have run: "k_close_turn env (\<lambda>d. d) cx i re who s = (Inl e, s\<lparr> kn_store := (kn_store s)\<lparr> sn_db := d2 \<rparr> \<rparr>)"
    using assms(1,2,3,5) by (simp add: k_close_turn_def then_do_def resolve_owner_def reads_def on_db_def on_store_def kdb_def)
  note c = sn_close_closes [OF assms(4,3)]
  have "not_open d2 te i"
    using not_open_closes [OF sn_close_all_closes [OF closes_keyed [OF conjunct1 [OF c] assms(4)]]] c assms(5)
    by (metis is_ok_simps(1) snd_conv)
  moreover have "st_get ow audit_kind j d2 = st_get ow audit_kind j (kdb s)"
    using sn_close_frame [of audit_kind ow j "ke_now env" te i re who "kdb s"]
      sn_close_all_frame [of audit_kind ow j "ke_now env + w" te i re who d1] assms(3,5) by (simp add: audit_kind_def)
  ultimately show ?thesis using run by (auto simp: kdb_def)
qed

definition ex_orphan :: table where
  "ex_orphan = put_turn 0 ''te'' (ex_turn\<lparr> tn_children := [''c''] \<rparr>) (st_put 0 ''te'' turns_kind (JObj [(''id'', JStr ''c'')]) [])"

theorem failed_close_leaves_no_trace_witness:
  "\<exists>s'. k_close_turn ex_env (\<lambda>d. d) ex_ctx ''t1'' ByResponse CUser \<lparr> kn_store = \<lparr> sn_db = ex_orphan, sn_limits = [], sn_cache = [] \<rparr>, kn_hooks = [] \<rparr>
      = (Inl zod_error, s') \<and> not_open (kdb s') ''te'' ''t1''"
proof -
  let ?t = "ex_turn\<lparr> tn_children := [''c''] \<rparr>" and ?c = "close_turn 7 ByResponse CUser (ex_turn\<lparr> tn_children := [''c''] \<rparr>)"
  let ?s = "\<lparr> kn_store = \<lparr> sn_db = ex_orphan, sn_limits = [], sn_cache = [] \<rparr>, kn_hooks = [] \<rparr>"
  have sel: "tn_id ?t = ''t1''" "tn_tenant ?t = ''te''" "tn_status ?t = TOpen" "tn_children ?c = [''c'']" "tn_status ?c = TClosed"
    "tn_id ?c = ''t1''" "tn_tenant ?c = ''te''"
    by (simp_all add: new_turn_def close_turn_def)
  have bad: "st_get ''te'' turns_kind ''c'' (put_turn n ''te'' x ex_orphan) = Some (JObj [(''id'', JStr ''c'')])" if "tn_id x = ''t1''" for n x
    using that sel(1) by (simp add: ex_orphan_def put_turn_def sp_put_def st_get_put) (simp add: jid_def jtext_def)
  have none: "read_turn (JObj [(''id'', JStr ''c'')]) = None" by (simp add: read_turn_def req_def)
  have l: "look_db ex_orphan te i = (if te = ''te'' \<and> i = ''t1'' then Some ?t else None)" for te i
    using sel(1) by (simp add: ex_orphan_def look_put_turn) (simp add: look_db_def sp_get_def st_get_put none, simp add: st_get_def)
  have k: "keyed_db ex_orphan" using sel by (simp add: keyed_db_def l)
  have "turn_schema ?t" "turn_schema ?c" by (simp_all add: turn_schema_def new_turn_def close_turn_def len_in_def)
  then have g: "get_parsed ''te'' ''t1'' ex_orphan = Some (Inr ?t)" "get_parsed ''te'' ''t1'' (put_turn 7 ''te'' ?c ex_orphan) = Some (Inr ?c)"
    using look_get_parsed [of ex_orphan "''te''" "''t1''" ?t] look_get_parsed [of "put_turn 7 ''te'' ?c ex_orphan" "''te''" "''t1''" ?c] l sel
    by (simp_all add: check_turn_def look_put_turn)
  have close: "sn_close (\<lambda>d. d) 7 ''te'' ''t1'' ByResponse CUser ex_orphan = (Inr ?c, put_turn 7 ''te'' ?c ex_orphan)"
    using g(1) sel by (simp add: sn_close_def close_wait_def sp_transaction_simps sn_close_tx_def)
  have "get_parsed ''te'' ''c'' (put_turn 7 ''te'' ?c ex_orphan) = Some (Inl zod_error)"
    using bad [OF sel(6)] by (simp add: get_parsed_def sp_get_def parse_turn_def none)
  then have all: "sn_close_all 7 ''te'' ''t1'' ByResponse CUser (put_turn 7 ''te'' ?c ex_orphan) = (Inl zod_error, put_turn 7 ''te'' ?c ex_orphan)"
    using g(2) sel by (simp add: sn_close_all_def numeral_eq_Suc)
  have "\<exists>s'. k_close_turn ex_env (\<lambda>d. d) ex_ctx ''t1'' ByResponse CUser ?s = (Inl zod_error, s') \<and> not_open (kdb s') ''te'' ''t1''
      \<and> st_get [] audit_kind [] (kdb s') = st_get [] audit_kind [] (kdb ?s)"
    by (rule failed_close_leaves_no_trace [where w = 0 and t = ?c and ?d1.0 = "put_turn 7 ''te'' ?c ex_orphan"])
      (use close all k in \<open>simp_all add: ex_env_def kdb_def close_wait_def\<close>)
  then show ?thesis by blast
qed

end
