(* ===== verification/BusinessGraph.thy ===== *)
theory BusinessGraph
  imports StateMachine Idempotency Promote
begin

text \<open>
  The business graph of an owner (apps/server/src/engine/business/graph.ts): entities and relations in
  the store, their schemas (packages/domain/src/business.ts), the search for a duplicate before an
  entity is created (business/resolver.ts) and the projection of business/truth.ts.

  An operation returns its result, the bus events it offered, and the new store.  A value of type
  \<open>entity\<close> or \<open>relation\<close> is what the schema's parse returns; \<open>read_entity\<close> and \<open>read_relation\<close> are
  parse on a document.  \<open>others\<close> stands for what other requests do to the store between the reads and
  the write of an operation.  \<open>machines\<close> is the state machine registry the graph was built with, if any.
\<close>

section \<open>Schemas\<close>

record fact_source =
  fs_source :: string
  fs_actor :: string
  fs_updated :: int
  fs_confidence :: "rat option"

record entity =
  be_id :: string
  be_type :: string
  be_name :: string
  be_status :: "string option"
  be_props :: "(string \<times> json) list"
  be_schema :: string
  be_version :: int
  be_source :: fact_source
  be_machine :: "string option"

record relation =
  br_id :: string
  br_from :: string
  br_to :: string
  br_type :: string
  br_props :: "(string \<times> json) list"
  br_source :: fact_source

definition trimmed_in :: "nat \<Rightarrow> nat \<Rightarrow> json \<Rightarrow> string option" where
  "trimmed_in a b v = (case as_text v of None \<Rightarrow> None | Some s \<Rightarrow> if len_in a b (trim s) then Some (trim s) else None)"

definition lower_letter :: "char \<Rightarrow> bool" where
  "lower_letter c \<longleftrightarrow> 97 \<le> (of_char c :: nat) \<and> (of_char c :: nat) \<le> 122"

definition digit_char :: "char \<Rightarrow> bool" where
  "digit_char c \<longleftrightarrow> 48 \<le> (of_char c :: nat) \<and> (of_char c :: nat) \<le> 57"

text \<open>\<open>/^[a-z][a-z0-9_-]*$/\<close>\<close>

definition type_name :: "string \<Rightarrow> bool" where
  "type_name s = (case s of [] \<Rightarrow> False | c # cs \<Rightarrow> lower_letter c
     \<and> list_all (\<lambda>d. lower_letter d \<or> digit_char d \<or> d \<in> set ''_-'') cs)"

definition read_type :: "json \<Rightarrow> string option" where
  "read_type v = (case trimmed_in 1 100 v of None \<Rightarrow> None | Some s \<Rightarrow> if type_name s then Some s else None)"

definition unit_num :: "json \<Rightarrow> rat option" where
  "unit_num v = (case as_num v of None \<Rightarrow> None | Some r \<Rightarrow> if 0 \<le> r \<and> r \<le> 1 then Some r else None)"

definition read_source :: "json \<Rightarrow> fact_source option" where
  "read_source j = Option.bind (req (text_in 1 200) ''source'' j) (\<lambda>s.
     Option.bind (req (text_in 1 200) ''actor'' j) (\<lambda>a.
     Option.bind (req as_date ''updatedAt'' j) (\<lambda>u.
     Option.bind (opt unit_num ''confidence'' j) (\<lambda>c.
     Some \<lparr> fs_source = s, fs_actor = a, fs_updated = u, fs_confidence = c \<rparr>))))"

definition read_entity :: "json \<Rightarrow> entity option" where
  "read_entity j = Option.bind (req (trimmed_in 1 200) ''id'' j) (\<lambda>i.
     Option.bind (req read_type ''type'' j) (\<lambda>ty.
     Option.bind (req (trimmed_in 1 300) ''name'' j) (\<lambda>n.
     Option.bind (opt (trimmed_in 0 100) ''status'' j) (\<lambda>st.
     Option.bind (dflt [] as_fields ''properties'' j) (\<lambda>ps.
     Option.bind (dflt ''1.0'' (text_in 0 100) ''schemaVersion'' j) (\<lambda>sv.
     Option.bind (dflt 1 positive_int ''version'' j) (\<lambda>v.
     Option.bind (req read_source ''provenance'' j) (\<lambda>src.
     Option.bind (opt (trimmed_in 1 100) ''stateMachineId'' j) (\<lambda>m.
     Some \<lparr> be_id = i, be_type = ty, be_name = n, be_status = st, be_props = ps, be_schema = sv, be_version = v,
       be_source = src, be_machine = m \<rparr>)))))))))"

definition read_relation :: "json \<Rightarrow> relation option" where
  "read_relation j = Option.bind (req (trimmed_in 1 200) ''id'' j) (\<lambda>i.
     Option.bind (req (trimmed_in 1 200) ''fromEntityId'' j) (\<lambda>a.
     Option.bind (req (trimmed_in 1 200) ''toEntityId'' j) (\<lambda>b.
     Option.bind (req read_type ''type'' j) (\<lambda>ty.
     Option.bind (dflt [] as_fields ''properties'' j) (\<lambda>ps.
     Option.bind (req read_source ''provenance'' j) (\<lambda>src.
     if a = b then None
     else Some \<lparr> br_id = i, br_from = a, br_to = b, br_type = ty, br_props = ps, br_source = src \<rparr>))))))"

definition source_row :: "fact_source \<Rightarrow> json" where
  "source_row p = JObj ([(''source'', JStr (fs_source p)), (''actor'', JStr (fs_actor p)), (''updatedAt'', JDate (fs_updated p))]
     @ present ''confidence'' JNum (fs_confidence p))"

definition entity_row :: "entity \<Rightarrow> json" where
  "entity_row e = JObj ([(''id'', JStr (be_id e)), (''type'', JStr (be_type e)), (''name'', JStr (be_name e))]
     @ present ''status'' JStr (be_status e)
     @ [(''properties'', JObj (be_props e)), (''schemaVersion'', JStr (be_schema e)), (''version'', JNum (of_int (be_version e))),
        (''provenance'', source_row (be_source e))]
     @ present ''stateMachineId'' JStr (be_machine e))"

definition relation_row :: "relation \<Rightarrow> json" where
  "relation_row r = JObj [(''id'', JStr (br_id r)), (''fromEntityId'', JStr (br_from r)), (''toEntityId'', JStr (br_to r)),
     (''type'', JStr (br_type r)), (''properties'', JObj (br_props r)), (''provenance'', source_row (br_source r))]"

definition parse_entity :: "json \<Rightarrow> entity res" where
  "parse_entity j = (case read_entity j of None \<Rightarrow> Inl zod_error | Some e \<Rightarrow> Inr e)"

definition parse_relation :: "json \<Rightarrow> relation res" where
  "parse_relation j = (case read_relation j of None \<Rightarrow> Inl zod_error | Some r \<Rightarrow> Inr r)"

section \<open>Inputs and events\<close>

record create_input =
  ci_id :: "string option"
  ci_type :: string
  ci_name :: string
  ci_status :: "string option"
  ci_props :: "(string \<times> json) list"
  ci_actor :: string
  ci_source :: string
  ci_confidence :: "rat option"

record update_input =
  ui_name :: "string option"
  ui_status :: "string option"
  ui_props :: "(string \<times> json) list option"
  ui_actor :: string
  ui_source :: string
  ui_confidence :: "rat option"

record link_input =
  li_id :: "string option"
  li_from :: string
  li_to :: string
  li_type :: string
  li_props :: "(string \<times> json) list"
  li_actor :: string
  li_source :: string

datatype graph_event =
    EntityCreated string string int
  | EntityUpdated string string int "string list"
  | EntityDeleted string string
  | RelationCreated string string string string
  | RelationDeleted string
  | MachineEvent sm_event

record graph_env =
  ge_clock :: int
  ge_now :: int
  ge_uuid :: string
  ge_show :: "json \<Rightarrow> string"

type_synonym 's machines = "string \<Rightarrow> string \<Rightarrow> string \<Rightarrow> string \<Rightarrow> string \<Rightarrow> string option \<Rightarrow> 's \<Rightarrow> tr_result res \<times> sm_event list"

abbreviation entity_kind :: string where "entity_kind \<equiv> ''business-entities''"
abbreviation relation_kind :: string where "relation_kind \<equiv> ''business-relations''"

section \<open>Finding a duplicate\<close>

text \<open>NFD with the combining marks removed, on the lower-case letters up to code 255.\<close>

definition strip_accent :: "char \<Rightarrow> char" where
  "strip_accent c = (let n = of_char c :: nat in
     if 224 \<le> n \<and> n \<le> 229 then CHR ''a'' else if n = 231 then CHR ''c'' else if 232 \<le> n \<and> n \<le> 235 then CHR ''e''
     else if 236 \<le> n \<and> n \<le> 239 then CHR ''i'' else if n = 241 then CHR ''n'' else if 242 \<le> n \<and> n \<le> 246 then CHR ''o''
     else if 249 \<le> n \<and> n \<le> 252 then CHR ''u'' else if n = 253 \<or> n = 255 then CHR ''y'' else c)"

definition word_char :: "char \<Rightarrow> bool" where
  "word_char c \<longleftrightarrow> lower_letter c \<or> digit_char c \<or> c = CHR ''_'' \<or> (65 \<le> (of_char c :: nat) \<and> (of_char c :: nat) \<le> 90)"

text \<open>The length of a legal form at the head of a text, when it ends at a word boundary: the alternatives
  of \<open>/\b(s\.?l\.?|s\.?a\.?|inc|llc)\b/\<close> in their order.\<close>

definition word_at :: "nat \<Rightarrow> string \<Rightarrow> bool" where
  "word_at n s = (case drop n s of [] \<Rightarrow> False | c # _ \<Rightarrow> word_char c)"

definition dotted_form :: "char \<Rightarrow> string \<Rightarrow> nat option" where
  "dotted_form l s = (let a = (if str_starts ''s.'' s then 2 else 1) in
     if take 1 s = ''s'' \<and> take 1 (drop a s) = [l]
     then (if take 1 (drop (a + 1) s) = ''.'' \<and> word_at (a + 2) s then Some (a + 2)
           else if word_at (a + 1) s then None else Some (a + 1))
     else None)"

definition legal_form :: "string \<Rightarrow> nat option" where
  "legal_form s = (case dotted_form CHR ''l'' s of Some n \<Rightarrow> Some n | None \<Rightarrow>
     (case dotted_form CHR ''a'' s of Some n \<Rightarrow> Some n | None \<Rightarrow>
       if (str_starts ''inc'' s \<or> str_starts ''llc'' s) \<and> \<not> word_at 3 s then Some 3 else None))"

fun strip_forms :: "nat \<Rightarrow> bool \<Rightarrow> string \<Rightarrow> string" where
  "strip_forms skip inside [] = []"
| "strip_forms (Suc k) inside (c # cs) = strip_forms k (word_char c) cs"
| "strip_forms 0 inside (c # cs) = (case (if inside then None else legal_form (c # cs)) of
     Some n \<Rightarrow> strip_forms (n - 1) (word_char c) cs
   | None \<Rightarrow> c # strip_forms 0 (word_char c) cs)"

definition normal_name :: "string \<Rightarrow> string" where
  "normal_name s = trim (squeeze (strip_forms 0 False (map strip_accent (map lower_char s))))"

definition truthy :: "json option \<Rightarrow> bool" where
  "truthy v = (case v of None \<Rightarrow> False | Some JNull \<Rightarrow> False | Some (JBool b) \<Rightarrow> b | Some (JNum r) \<Rightarrow> r \<noteq> 0
     | Some (JStr s) \<Rightarrow> s \<noteq> [] | Some _ \<Rightarrow> True)"

definition string_of :: "(json \<Rightarrow> string) \<Rightarrow> json option \<Rightarrow> string" where
  "string_of shw v = (case v of Some (JStr s) \<Rightarrow> s | Some j \<Rightarrow> shw j | None \<Rightarrow> ''undefined'')"

definition same_field :: "(json \<Rightarrow> string) \<Rightarrow> (string \<Rightarrow> string) \<Rightarrow> string option \<Rightarrow> json option \<Rightarrow> bool" where
  "same_field shw fold_case given held = (case given of None \<Rightarrow> False
     | Some g \<Rightarrow> g \<noteq> [] \<and> truthy held \<and> fold_case (string_of shw held) = fold_case g)"

definition upper_char :: "char \<Rightarrow> char" where
  "upper_char c = (let n = of_char c :: nat in
     if (97 \<le> n \<and> n \<le> 122) \<or> (224 \<le> n \<and> n \<le> 254 \<and> n \<noteq> 247) then char_of (n - 32) else c)"

record candidate =
  ca_name :: "string option"
  ca_email :: "string option"
  ca_cif :: "string option"

definition match_reasons :: "(json \<Rightarrow> string) \<Rightarrow> candidate \<Rightarrow> json \<Rightarrow> string list" where
  "match_reasons shw c e = (let prop = (\<lambda>k. case jget e ''properties'' of None \<Rightarrow> None | Some ps \<Rightarrow> jget ps k);
       held_name = text_or_empty e ''name''
     in (if same_field shw (map lower_char) (ca_email c) (prop ''email'') then [''same_email''] else [])
      @ (if same_field shw (map upper_char) (ca_cif c) (prop ''cif'') then [''same_cif''] else [])
      @ (case ca_name c of None \<Rightarrow> [] | Some n \<Rightarrow>
           if n \<noteq> [] \<and> held_name \<noteq> [] \<and> normal_name held_name = normal_name n then [''normalized_name''] else []))"

definition find_candidates :: "'s store \<Rightarrow> (json \<Rightarrow> string) \<Rightarrow> string \<Rightarrow> string \<Rightarrow> candidate \<Rightarrow> 's \<Rightarrow> (string \<times> rat \<times> string list) list" where
  "find_candidates S shw owner ty c s =
     (let typed = filter (\<lambda>e. jtext e ''type'' = Some ty) (s_list S owner entity_kind no_options s);
          scored = map (\<lambda>e. (jid e, match_reasons shw c e)) typed;
          matches = map (\<lambda>(i, rs). (i, min 1 (of_nat (length rs) * (2 / 5)), rs)) (filter (\<lambda>(i, rs). rs \<noteq> []) scored)
      in take 5 (sort_key (\<lambda>m. - fst (snd m)) matches))"

definition given_string :: "json option \<Rightarrow> string option" where
  "given_string v = jstr v"

definition duplicate_of :: "'s store \<Rightarrow> (json \<Rightarrow> string) \<Rightarrow> string \<Rightarrow> create_input \<Rightarrow> 's \<Rightarrow> json option" where
  "duplicate_of S shw owner x s =
     (let c = \<lparr> ca_name = (if ci_name x = [] then None else Some (ci_name x)),
                ca_email = given_string (map_of (ci_props x) ''email''), ca_cif = given_string (map_of (ci_props x) ''cif'') \<rparr>
      in case find (\<lambda>m. fst (snd m) \<ge> 4 / 5) (find_candidates S shw owner (ci_type x) c s) of
           None \<Rightarrow> None
         | Some m \<Rightarrow> s_get S owner entity_kind (fst m) s)"

section \<open>The tenant's schema\<close>

fun join_with :: "string \<Rightarrow> string list \<Rightarrow> string" where
  "join_with sep [] = []"
| "join_with sep [x] = x"
| "join_with sep (x # y # xs) = x @ sep @ join_with sep (y # xs)"

definition absent :: "json option \<Rightarrow> bool" where
  "absent v \<longleftrightarrow> v = None \<or> v = Some JNull"

definition field_error :: "(json \<Rightarrow> string) \<Rightarrow> string \<Rightarrow> (string \<times> json) list \<Rightarrow> json \<Rightarrow> err option" where
  "field_error shw ty payload f =
     (let name = text_or_empty f ''name''; v = map_of payload name; kind = jtext f ''type'';
          allowed = map (\<lambda>x. string_of shw (Some x)) (jarr (jget f ''enumValues''))
      in if truthy (jget f ''required'') \<and> absent v
         then Some (AppError (''Entity '' @ ty @ '' requires field '' @ name) 422)
         else if absent v then None
         else if kind = Some ''number'' \<and> jnum v = None then Some (AppError (''Field '' @ name @ '' must be number'') 422)
         else if kind = Some ''boolean'' \<and> v \<notin> {Some (JBool True), Some (JBool False)}
         then Some (AppError (''Field '' @ name @ '' must be boolean'') 422)
         else if kind = Some ''enum'' \<and> truthy (jget f ''enumValues'')
           \<and> JStr (string_of shw v) \<notin> set (jarr (jget f ''enumValues''))
         then Some (AppError (''Field '' @ name @ '' must be one of '' @ join_with '', '' allowed) 422)
         else None)"

definition schema_error :: "'s store \<Rightarrow> (json \<Rightarrow> string) \<Rightarrow> string \<Rightarrow> string \<Rightarrow> (string \<times> json) list \<Rightarrow> 's \<Rightarrow> err option" where
  "schema_error S shw owner ty payload s = (case s_get S owner ''business-schemas'' ''default'' s of
     None \<Rightarrow> None
   | Some schema \<Rightarrow> (case find (\<lambda>e. jtext e ''type'' = Some ty) (jarr (jget schema ''entities'')) of
       None \<Rightarrow> None
     | Some d \<Rightarrow> (case List.map_filter (field_error shw ty payload) (jarr (jget d ''fields'')) of
         [] \<Rightarrow> None | e # _ \<Rightarrow> Some e)))"

section \<open>Entities\<close>

definition source_doc :: "graph_env \<Rightarrow> string \<Rightarrow> string \<Rightarrow> rat option \<Rightarrow> json" where
  "source_doc env src actor conf = JObj ([(''source'', JStr src), (''actor'', JStr actor), (''updatedAt'', JDate (ge_now env))]
     @ present ''confidence'' JNum conf)"

definition new_entity_doc :: "graph_env \<Rightarrow> string \<Rightarrow> create_input \<Rightarrow> json" where
  "new_entity_doc env i x = JObj ([(''id'', JStr i), (''type'', JStr (ci_type x)), (''name'', JStr (ci_name x))]
     @ (case ci_status x of None \<Rightarrow> [] | Some st \<Rightarrow> if st = [] then [] else [(''status'', JStr st)])
     @ [(''properties'', JObj (ci_props x)), (''schemaVersion'', JStr ''1.0''), (''version'', JNum 1),
        (''provenance'', source_doc env (ci_source x) (ci_actor x) (ci_confidence x))])"

definition insert_entity :: "'s store \<Rightarrow> graph_env \<Rightarrow> ('s \<Rightarrow> 's) \<Rightarrow> string \<Rightarrow> string \<Rightarrow> create_input \<Rightarrow> 's
    \<Rightarrow> json res \<times> graph_event list \<times> 's" where
  "insert_entity S env others owner i x s =
     (case s_get S owner entity_kind i s of
        Some _ \<Rightarrow> (Inl (AppError (''Entity already exists: '' @ i) 409), [], s)
      | None \<Rightarrow> (case parse_entity (new_entity_doc env i x) of
          Inl e \<Rightarrow> (Inl e, [], s)
        | Inr e \<Rightarrow> (Inr (entity_row e), [EntityCreated (be_id e) (be_type e) 1],
            snd (s_insert S (ge_clock env) owner entity_kind (entity_row e) (others s)))))"

definition create_entity :: "'s store \<Rightarrow> graph_env \<Rightarrow> ('s \<Rightarrow> 's) \<Rightarrow> string \<Rightarrow> create_input \<Rightarrow> 's
    \<Rightarrow> json res \<times> graph_event list \<times> 's" where
  "create_entity S env others owner x s =
     (case schema_error S (ge_show env) owner (ci_type x) (ci_props x) s of
        Some e \<Rightarrow> (Inl e, [], s)
      | None \<Rightarrow> (case given_text (ci_id x) of
          Some i \<Rightarrow> insert_entity S env others owner i x s
        | None \<Rightarrow> (case duplicate_of S (ge_show env) owner x s of
            Some found \<Rightarrow> (Inr found, [], s)
          | None \<Rightarrow> insert_entity S env others owner (case ci_id x of None \<Rightarrow> ge_uuid env | Some i \<Rightarrow> i) x s)))"

definition machine_gate :: "'s machines option \<Rightarrow> string \<Rightarrow> string \<Rightarrow> json \<Rightarrow> update_input \<Rightarrow> 's \<Rightarrow> unit res \<times> graph_event list" where
  "machine_gate machines owner i current x s = (case (machines, given_text (jtext current ''stateMachineId''), ui_status x) of
     (Some apply_machine, Some mid, Some to) \<Rightarrow>
       if Some to = jtext current ''status'' then (Inr (), [])
       else (case apply_machine owner mid i (text_or_empty current ''status'') to (Some (ui_actor x)) s of
          (Inl e, evs) \<Rightarrow> (Inl e, map MachineEvent evs)
        | (Inr _, evs) \<Rightarrow> (Inr (), map MachineEvent evs))
   | _ \<Rightarrow> (Inr (), []))"

definition updated_doc :: "graph_env \<Rightarrow> json \<Rightarrow> update_input \<Rightarrow> json" where
  "updated_doc env current x = jmerge current (JObj (present ''name'' JStr (ui_name x) @ present ''status'' JStr (ui_status x)
     @ [(''properties'', jmerge (JObj (case jget current ''properties'' of Some (JObj fs) \<Rightarrow> fs | _ \<Rightarrow> []))
           (JObj (case ui_props x of None \<Rightarrow> [] | Some fs \<Rightarrow> fs))),
        (''version'', case jnum (jget current ''version'') of None \<Rightarrow> JNull | Some v \<Rightarrow> JNum (v + 1)),
        (''provenance'', source_doc env (ui_source x) (ui_actor x) (ui_confidence x))]))"

definition changed_fields :: "update_input \<Rightarrow> string list" where
  "changed_fields x = (if ui_name x = None then [] else [''name'']) @ (if ui_status x = None then [] else [''status''])
     @ (if ui_props x = None then [] else [''properties'']) @ (if ui_confidence x = None then [] else [''confidence''])"

definition update_entity :: "'s store \<Rightarrow> graph_env \<Rightarrow> 's machines option \<Rightarrow> ('s \<Rightarrow> 's) \<Rightarrow> string \<Rightarrow> string \<Rightarrow> update_input \<Rightarrow> 's
    \<Rightarrow> json res \<times> graph_event list \<times> 's" where
  "update_entity S env machines others owner i x s = (case s_get S owner entity_kind i s of
     None \<Rightarrow> (Inl (AppError (''Entity not found: '' @ i) 404), [], s)
   | Some current \<Rightarrow> (case machine_gate machines owner i current x s of
       (Inl e, evs) \<Rightarrow> (Inl e, evs, s)
     | (Inr _, evs) \<Rightarrow> (case parse_entity (updated_doc env current x) of
         Inl e \<Rightarrow> (Inl e, evs, s)
       | Inr e \<Rightarrow> (Inr (entity_row e), evs @ [EntityUpdated i (be_type e) (be_version e) (changed_fields x)],
           s_put S (ge_clock env) owner entity_kind (entity_row e) (others s)))))"

definition get_entity :: "'s store \<Rightarrow> string \<Rightarrow> string \<Rightarrow> 's \<Rightarrow> json option" where
  "get_entity S owner i s = s_get S owner entity_kind i s"

definition list_entities :: "'s store \<Rightarrow> string \<Rightarrow> string option \<Rightarrow> 's \<Rightarrow> json list" where
  "list_entities S owner ty s = (let all = s_list S owner entity_kind no_options s
     in case given_text ty of None \<Rightarrow> all | Some t \<Rightarrow> filter (\<lambda>e. jtext e ''type'' = Some t) all)"

section \<open>Relations\<close>

definition touches :: "string \<Rightarrow> json \<Rightarrow> bool" where
  "touches i r \<longleftrightarrow> jtext r ''fromEntityId'' = Some i \<or> jtext r ''toEntityId'' = Some i"

fun remove_links :: "'s store \<Rightarrow> string \<Rightarrow> json list \<Rightarrow> 's \<Rightarrow> 's" where
  "remove_links S owner [] s = s"
| "remove_links S owner (r # rs) s = remove_links S owner rs (s_remove S owner relation_kind (jid r) s)"

definition delete_entity :: "'s store \<Rightarrow> string \<Rightarrow> string \<Rightarrow> 's \<Rightarrow> unit res \<times> graph_event list \<times> 's" where
  "delete_entity S owner i s = (case s_get S owner entity_kind i s of
     None \<Rightarrow> (Inl (AppError (''Entity not found: '' @ i) 404), [], s)
   | Some current \<Rightarrow> (let links = filter (touches i) (s_list S owner relation_kind no_options s)
       in (Inr (), map (\<lambda>r. RelationDeleted (jid r)) links @ [EntityDeleted i (text_or_empty current ''type'')],
           s_remove S owner entity_kind i (remove_links S owner links s))))"

definition new_relation_doc :: "graph_env \<Rightarrow> link_input \<Rightarrow> json" where
  "new_relation_doc env x = JObj [(''id'', JStr (case li_id x of None \<Rightarrow> ge_uuid env | Some i \<Rightarrow> i)),
     (''fromEntityId'', JStr (li_from x)), (''toEntityId'', JStr (li_to x)), (''type'', JStr (li_type x)),
     (''properties'', JObj (li_props x)), (''provenance'', source_doc env (li_source x) (li_actor x) None)]"

definition create_relation :: "'s store \<Rightarrow> graph_env \<Rightarrow> ('s \<Rightarrow> 's) \<Rightarrow> string \<Rightarrow> link_input \<Rightarrow> 's
    \<Rightarrow> json res \<times> graph_event list \<times> 's" where
  "create_relation S env others owner x s =
     (if s_get S owner entity_kind (li_from x) s = None
      then (Inl (AppError (''From entity not found: '' @ li_from x) 404), [], s)
      else if s_get S owner entity_kind (li_to x) s = None
      then (Inl (AppError (''To entity not found: '' @ li_to x) 404), [], s)
      else (case parse_relation (new_relation_doc env x) of
        Inl e \<Rightarrow> (Inl e, [], s)
      | Inr r \<Rightarrow> (case s_insert S (ge_clock env) owner relation_kind (relation_row r) (others s) of
          (None, s') \<Rightarrow> (Inr (relation_row r), [], s')
        | (Some _, s') \<Rightarrow> (Inr (relation_row r), [RelationCreated (br_id r) (br_from r) (br_to r) (br_type r)], s'))))"

definition list_relations :: "'s store \<Rightarrow> string \<Rightarrow> string option \<Rightarrow> 's \<Rightarrow> json list" where
  "list_relations S owner i s = (let all = s_list S owner relation_kind no_options s
     in case given_text i of None \<Rightarrow> all | Some e \<Rightarrow> filter (touches e) all)"

section \<open>Neighbourhoods\<close>

text \<open>A JavaScript \<open>Set\<close> of ids is a list without repetitions, in insertion order.\<close>

definition add_id :: "string \<Rightarrow> string list \<Rightarrow> string list" where
  "add_id i xs = (if i \<in> set xs then xs else xs @ [i])"

definition link_from :: "json \<Rightarrow> string" where
  "link_from r = text_or_empty r ''fromEntityId''"

definition link_to :: "json \<Rightarrow> string" where
  "link_to r = text_or_empty r ''toEntityId''"

definition next_ids :: "json list \<Rightarrow> string list \<Rightarrow> string list" where
  "next_ids rels frontier = fold (\<lambda>r acc. if link_from r \<notin> set frontier \<and> link_to r \<notin> set frontier then acc
     else add_id (link_to r) (add_id (link_from r) acc)) rels []"

fun expand :: "json list \<Rightarrow> nat \<Rightarrow> string list \<Rightarrow> string list \<Rightarrow> string list" where
  "expand rels 0 frontier found = found"
| "expand rels (Suc d) frontier found = (let nxt = next_ids rels frontier; found' = fold add_id nxt found
     in if nxt = [] then found' else expand rels d nxt found')"

definition neighborhood :: "'s store \<Rightarrow> string \<Rightarrow> string \<Rightarrow> nat \<Rightarrow> 's \<Rightarrow> json list \<times> json list" where
  "neighborhood S owner i depth s =
     (let entities = list_entities S owner None s; relations = list_relations S owner None s;
          by_id = foldl (\<lambda>m e. AList.update (jid e) e m) [] entities;
          found = expand relations depth [i] [i]
      in (List.map_filter (map_of by_id) found,
          filter (\<lambda>r. link_from r \<in> set found \<and> link_to r \<in> set found) relations))"

section \<open>The projection of an entity\<close>

definition project_truth :: "json \<Rightarrow> json" where
  "project_truth e = (let src = (case jget e ''provenance'' of Some j \<Rightarrow> j | None \<Rightarrow> JNull);
       value_of = (\<lambda>v. JObj ([(''value'', v)] @ copy_field ''source'' ''source'' src @ copy_field ''actor'' ''actor'' src
         @ copy_field ''updatedAt'' ''updatedAt'' src @ copy_field ''confidence'' ''confidence'' src));
       props = (case jget e ''properties'' of Some (JObj fs) \<Rightarrow> fs | _ \<Rightarrow> [])
     in JObj ([(''entityId'', JStr (jid e))] @ copy_field ''type'' ''type'' e @ copy_field ''name'' ''name'' e
       @ (if truthy (jget e ''status'') then copy_field ''status'' ''status'' e else [])
       @ [(''properties'', JObj (map (\<lambda>(k, v). (k, value_of v)) props)), (''provenance'', src)]))"

definition truth_for_entity :: "'s store \<Rightarrow> string \<Rightarrow> string \<Rightarrow> 's \<Rightarrow> json option" where
  "truth_for_entity S owner i s = map_option project_truth (get_entity S owner i s)"

text \<open>The status provider that app.ts gives the state machine engine.\<close>

definition graph_provider :: "'s store \<Rightarrow> 's \<Rightarrow> provider" where
  "graph_provider S s = \<lparr> ep_status = (\<lambda>owner i. case get_entity S owner i s of None \<Rightarrow> None | Some e \<Rightarrow> jtext e ''status''), ep_type = None \<rparr>"

end
