(* ===== verification/GraphProps.thy ===== *)
theory GraphProps
  imports BusinessGraph
begin

text \<open>
  What the business graph guarantees and what it does not: neighbourhoods are balls of the undirected
  relation graph, deletion leaves no dangling relation within a page, an update moves the version by
  one but two of them can share it, and an entity can be announced that was never stored.
\<close>

section \<open>Neighbourhoods are balls\<close>

definition linked :: "json list \<Rightarrow> (string \<times> string) set" where
  "linked rels = {(a, b). \<exists>r\<in>set rels. (link_from r = a \<and> link_to r = b) \<or> (link_from r = b \<and> link_to r = a)}"

definition ball :: "json list \<Rightarrow> string \<Rightarrow> nat \<Rightarrow> string set" where
  "ball rels i d = {v. \<exists>k\<le>d. (i, v) \<in> linked rels ^^ k}"

definition sphere :: "json list \<Rightarrow> string \<Rightarrow> nat \<Rightarrow> string set" where
  "sphere rels i d = {v. (i, v) \<in> linked rels ^^ d \<and> (\<forall>k<d. (i, v) \<notin> linked rels ^^ k)}"

lemma set_add_id [simp]: "set (add_id i xs) = insert i (set xs)"
  by (auto simp: add_id_def)

lemma distinct_add_id [simp]: "distinct (add_id i xs) = distinct xs"
  by (simp add: add_id_def)

lemma fold_add_id: "set (fold add_id ys xs) = set ys \<union> set xs \<and> distinct (fold add_id ys xs) = distinct xs"
  by (induction ys arbitrary: xs) auto

lemma set_next_ids: "set (next_ids rels F) = {v. \<exists>r\<in>set rels. (link_from r \<in> set F \<or> link_to r \<in> set F) \<and> (v = link_from r \<or> v = link_to r)}"
proof -
  have "set (fold (\<lambda>r acc. if link_from r \<notin> set F \<and> link_to r \<notin> set F then acc
     else add_id (link_to r) (add_id (link_from r) acc)) rels acc)
     = set acc \<union> {v. \<exists>r\<in>set rels. (link_from r \<in> set F \<or> link_to r \<in> set F) \<and> (v = link_from r \<or> v = link_to r)}" for acc
    by (induction rels arbitrary: acc) auto
  from this [of "[]"] show ?thesis by (simp add: next_ids_def)
qed

lemma next_ids_Nil: "next_ids rels [] = []"
proof -
  have "set (next_ids rels []) = {}" by (simp add: set_next_ids)
  then show ?thesis by simp
qed

lemma expand_nothing: "expand rels d [] found = found"
  by (cases d) (simp_all add: next_ids_Nil)

lemma expand_Suc: "expand rels (Suc d) F found = expand rels d (next_ids rels F) (fold add_id (next_ids rels F) found)"
  by (simp add: expand_nothing Let_def)

lemma ball_0: "ball rels i 0 = {i}"
  by (auto simp: ball_def)

lemma ball_mono: "ball rels i d \<subseteq> ball rels i (Suc d)"
  unfolding ball_def by (auto intro: le_SucI)

lemma ball_step: "\<lbrakk> u \<in> ball rels i d; (u, v) \<in> linked rels \<rbrakk> \<Longrightarrow> v \<in> ball rels i (Suc d)"
proof -
  assume "u \<in> ball rels i d" and uv: "(u, v) \<in> linked rels"
  then obtain k where "k \<le> d" "(i, u) \<in> linked rels ^^ k" by (auto simp: ball_def)
  then show ?thesis using relpow_Suc_I [OF _ uv, of i k] unfolding ball_def by (blast intro: Suc_le_mono [THEN iffD2])
qed

lemma next_in_ball: "set F \<subseteq> ball rels i d \<Longrightarrow> set (next_ids rels F) \<subseteq> ball rels i (Suc d)"
proof
  fix v assume F: "set F \<subseteq> ball rels i d" and "v \<in> set (next_ids rels F)"
  then obtain r where r: "r \<in> set rels" "link_from r \<in> set F \<or> link_to r \<in> set F" "v = link_from r \<or> v = link_to r"
    by (auto simp: set_next_ids)
  show "v \<in> ball rels i (Suc d)"
  proof (cases "v \<in> set F")
    case True
    then show ?thesis using F ball_mono by blast
  next
    case False
    then obtain u where "u \<in> set F" "(u, v) \<in> linked rels" using r by (auto simp: linked_def)
    then show ?thesis using F ball_step by blast
  qed
qed

lemma sphere_reached:
  assumes "sphere rels i d \<subseteq> set F" "v \<in> sphere rels i (Suc d)"
  shows "v \<in> set (next_ids rels F)"
proof -
  obtain u where u: "(i, u) \<in> linked rels ^^ d" "(u, v) \<in> linked rels"
    using assms(2) by (auto simp: sphere_def)
  have "(i, u) \<notin> linked rels ^^ k" if "k < d" for k
    using assms(2) u(2) that relpow_Suc_I [of i u k "linked rels" v] by (auto simp: sphere_def)
  then have "u \<in> set F" using u(1) assms(1) by (auto simp: sphere_def)
  then show ?thesis using u(2) by (auto simp: set_next_ids linked_def)
qed

lemma first_or_new: "(\<exists>k\<le>Suc d. P k) \<longleftrightarrow> (\<exists>k\<le>d. P k) \<or> (P (Suc d) \<and> (\<forall>k<Suc d. \<not> P k))"
  by (auto simp: le_Suc_eq less_Suc_eq_le)

lemma ball_Suc: "ball rels i (Suc d) = ball rels i d \<union> sphere rels i (Suc d)"
proof (rule set_eqI)
  show "v \<in> ball rels i (Suc d) \<longleftrightarrow> v \<in> ball rels i d \<union> sphere rels i (Suc d)" for v
    using first_or_new [of d "\<lambda>k. (i, v) \<in> linked rels ^^ k"] unfolding ball_def sphere_def Un_iff mem_Collect_eq .
qed

lemma expand_ball:
  "\<lbrakk> set found = ball rels i k; set F \<subseteq> ball rels i k; sphere rels i k \<subseteq> set F; distinct found \<rbrakk> \<Longrightarrow>
   set (expand rels d F found) = ball rels i (k + d) \<and> distinct (expand rels d F found)"
proof (induction d arbitrary: k F found)
  case (Suc d)
  let ?N = "next_ids rels F"
  have N: "set ?N \<subseteq> ball rels i (Suc k)" using Suc.prems(2) by (rule next_in_ball)
  have S: "sphere rels i (Suc k) \<subseteq> set ?N" using sphere_reached [OF Suc.prems(3)] by blast
  have "set (fold add_id ?N found) = ball rels i (Suc k)"
    using N S Suc.prems(1) ball_mono [of rels i k] ball_Suc [of rels i k] by (auto simp: fold_add_id)
  moreover have "distinct (fold add_id ?N found)" using Suc.prems(4) by (simp add: fold_add_id)
  ultimately show ?case using Suc.IH [OF _ N S] by (simp only: expand_Suc add_Suc_shift)
qed simp

lemma expand_is_ball: "set (expand rels d [i] [i]) = ball rels i d \<and> distinct (expand rels d [i] [i])"
  using expand_ball [of "[i]" rels i 0 "[i]" d] by (simp add: ball_0 sphere_def)

lemma distinct_head: "\<lbrakk> distinct (map f (a # es)); x \<in> set es \<rbrakk> \<Longrightarrow> f x \<noteq> f a"
  by (metis distinct.simps(2) image_eqI list.set_map list.simps(9))

lemma find_own: "distinct (map jid es) \<Longrightarrow> find (\<lambda>x. jid x = jid e) es = Some e \<longleftrightarrow> e \<in> set es"
proof (induction es)
  case (Cons a es)
  then show ?case using distinct_head [OF Cons.prems] by (cases "jid a = jid e") (auto simp: find_Some_iff)
qed simp

lemma map_of_by_id:
  "distinct (map jid es) \<Longrightarrow> map_of (foldl (\<lambda>m e. AList.update (jid e) e m) acc es) i
     = (case find (\<lambda>e. jid e = i) es of Some e \<Rightarrow> Some e | None \<Rightarrow> map_of acc i)"
proof (induction es arbitrary: acc)
  case (Cons e es)
  have "find (\<lambda>x. jid x = jid e) es = None" using distinct_head [OF Cons.prems] by (auto simp: find_None_iff)
  then show ?case using Cons by (auto split: option.split)
qed simp

lemma in_map_filter: "y \<in> set (List.map_filter f xs) \<longleftrightarrow> (\<exists>x\<in>set xs. f x = Some y)"
  by (induction xs) (auto simp: List.map_filter_simps split: option.splits)

lemma set_map_filter_find:
  "set (List.map_filter (\<lambda>i. find (\<lambda>e. jid e = i) es) js) = {e. jid e \<in> set js \<and> find (\<lambda>x. jid x = jid e) es = Some e}"
proof -
  have own: "find (\<lambda>e. jid e = i) es = Some e \<Longrightarrow> jid e = i" for i e by (auto simp: find_Some_iff)
  then show ?thesis unfolding set_eq_iff in_map_filter mem_Collect_eq by metis
qed
lemma distinct_found: "distinct xs \<Longrightarrow> distinct (map jid (List.map_filter (\<lambda>i. find (\<lambda>e. jid e = i) es) xs))"
proof (induction xs)
  case (Cons x xs)
  show ?case
  proof (cases "find (\<lambda>e. jid e = x) es")
    case (Some e)
    then have "jid e = x" by (auto simp: find_Some_iff)
    moreover have "x \<notin> jid ` set (List.map_filter (\<lambda>i. find (\<lambda>e. jid e = i) es) xs)"
      using Cons.prems by (auto simp only: set_map_filter_find distinct.simps mem_Collect_eq)
    ultimately show ?thesis using Some Cons by (simp add: List.map_filter_simps)
  qed (use Cons in \<open>simp add: List.map_filter_simps\<close>)
qed (simp add: List.map_filter_simps)

text \<open>C36: a neighbourhood is a ball.  For the relations and entities of the owner that the store lists, the
  neighbourhood of an entity to a depth is exactly the entities at most that many relations away from
  it, in either direction, each once, and exactly the relations between two such ids: the early
  end of the search and the frontier that revisits ids lose and repeat nothing.\<close>
theorem neighborhood_is_ball:
  assumes "distinct (map jid (list_entities S owner None s))"
  shows "set (fst (neighborhood S owner i depth s))
       = {e \<in> set (list_entities S owner None s). jid e \<in> ball (list_relations S owner None s) i depth}
     \<and> snd (neighborhood S owner i depth s) = filter (\<lambda>r. link_from r \<in> ball (list_relations S owner None s) i depth
           \<and> link_to r \<in> ball (list_relations S owner None s) i depth) (list_relations S owner None s)
     \<and> distinct (map jid (fst (neighborhood S owner i depth s)))"
proof -
  let ?es = "list_entities S owner None s" and ?rels = "list_relations S owner None s"
  let ?found = "expand ?rels depth [i] [i]"
  have f: "set ?found = ball ?rels i depth" and d: "distinct ?found" using expand_is_ball by blast+
  have m: "map_of (foldl (\<lambda>m e. AList.update (jid e) e m) [] ?es) = (\<lambda>i. find (\<lambda>e. jid e = i) ?es)"
    using map_of_by_id [OF assms, of "[]"] by (auto split: option.splits)
  have fst: "fst (neighborhood S owner i depth s) = List.map_filter (\<lambda>i. find (\<lambda>e. jid e = i) ?es) ?found"
    by (simp add: neighborhood_def Let_def m)
  have dist: "distinct (map jid (List.map_filter (\<lambda>i. find (\<lambda>e. jid e = i) ?es) ?found))"
    using d by (rule distinct_found)
  have set: "set (fst (neighborhood S owner i depth s)) = {e \<in> set ?es. jid e \<in> ball ?rels i depth}"
    unfolding fst set_map_filter_find f find_own [OF assms] by blast
  have rel: "snd (neighborhood S owner i depth s) = filter (\<lambda>r. link_from r \<in> ball ?rels i depth
      \<and> link_to r \<in> ball ?rels i depth) ?rels"
    unfolding neighborhood_def Let_def snd_conv f ..
  show ?thesis using set rel dist unfolding fst by (intro conjI)
qed

definition sample_source :: json where
  "sample_source = JObj [(''source'', JStr ''api''), (''actor'', JStr ''u1''), (''updatedAt'', JDate 5)]"

definition sample_entity :: "string \<Rightarrow> json" where
  "sample_entity i = JObj [(''id'', JStr i), (''type'', JStr ''invoice''), (''name'', JStr i), (''status'', JStr ''draft''),
     (''properties'', JObj []), (''schemaVersion'', JStr ''1.0''), (''version'', JNum 3), (''provenance'', sample_source),
     (''stateMachineId'', JStr ''invoice-flow'')]"

definition sample_link :: "string \<Rightarrow> string \<Rightarrow> string \<Rightarrow> json" where
  "sample_link i a b = JObj [(''id'', JStr i), (''fromEntityId'', JStr a), (''toEntityId'', JStr b), (''type'', JStr ''pays''),
     (''properties'', JObj []), (''provenance'', sample_source)]"

definition sample_graph :: table where
  "sample_graph = [((''u1'', entity_kind, ''a''), sample_entity ''a'', 9), ((''u1'', entity_kind, ''b''), sample_entity ''b'', 8),
     ((''u1'', entity_kind, ''c''), sample_entity ''c'', 7), ((''u1'', relation_kind, ''r1''), sample_link ''r1'' ''a'' ''b'', 6),
     ((''u1'', relation_kind, ''r2''), sample_link ''r2'' ''b'' ''c'', 5)]"

lemma sample_lists:
  "list_entities plain_store ''u1'' None sample_graph = [sample_entity ''a'', sample_entity ''b'', sample_entity ''c'']"
  "list_relations plain_store ''u1'' None sample_graph = [sample_link ''r1'' ''a'' ''b'', sample_link ''r2'' ''b'' ''c'']"
  by (simp_all add: list_entities_def list_relations_def given_text_def st_list_def list_rows_def no_options_def
      sample_graph_def after_cursor_def less_prod_def' less_eq_prod_def)

lemma sample_entity_id [simp]: "jid (sample_entity i) = i"
  by (simp add: jid_def jtext_def sample_entity_def)

theorem neighborhood_is_ball_witness:
  "set (fst (neighborhood plain_store ''u1'' ''a'' 1 sample_graph)) = {sample_entity ''a'', sample_entity ''b''}"
proof -
  have d: "distinct (map jid (list_entities plain_store ''u1'' None sample_graph))" by (simp add: sample_lists)
  have e: "expand [sample_link ''r1'' ''a'' ''b'', sample_link ''r2'' ''b'' ''c''] 1 [''a''] [''a''] = [''a'', ''b'']" by code_simp
  have r: "ball (list_relations plain_store ''u1'' None sample_graph) ''a'' 1 = {''a'', ''b''}"
    by (simp only: sample_lists expand_is_ball [THEN conjunct1, symmetric] e list.set)
  show ?thesis unfolding neighborhood_is_ball [OF d, of "''a''" 1, THEN conjunct1] unfolding r unfolding sample_lists by auto
qed

section \<open>Deletion\<close>

context record_store
begin

lemma remove_links_get: "s_get S ow k i (remove_links S owner rs s) =
    (if ow = owner \<and> k = relation_kind \<and> i \<in> jid ` set rs then None else s_get S ow k i s)"
  by (induction rs arbitrary: s) (auto simp: get_remove)

lemma delete_get:
  assumes "s_get S owner entity_kind i s = Some cur"
  shows "s_get S ow k j (snd (snd (delete_entity S owner i s))) =
    (if ow = owner \<and> k = entity_kind \<and> j = i then None
     else if ow = owner \<and> k = relation_kind \<and> j \<in> jid ` set (filter (touches i) (s_list S owner relation_kind no_options s)) then None
     else s_get S ow k j s)"
  using assms by (simp add: delete_entity_def Let_def get_remove remove_links_get)

end

lemma st_list_all:
  assumes "st_count ow k d \<le> 1000" "st_get ow k i d = Some j"
  shows "j \<in> set (st_list ow k no_options d)"
proof -
  obtain u where "map_of d (ow, k, i) = Some (j, u)" using assms(2) by (auto simp: st_get_def)
  then have m: "((ow, k, i), (j, u)) \<in> set d" by (rule map_of_SomeD)
  have "length (list_rows ow k None d) = st_count ow k d"
    by (simp add: list_rows_def st_count_def after_cursor_def)
  then have "take 1000 (list_rows ow k None d) = list_rows ow k None d" using assms(1) by simp
  moreover have "((ow, k, i), (j, u)) \<in> set (list_rows ow k None d)" using m by (simp add: list_rows_def after_cursor_def)
  ultimately show ?thesis by (force simp: st_list_def no_options_def)
qed

text \<open>Deletion leaves nothing dangling.  While the owner has at most one page of relations, deleting
  an entity removes its row and every relation that touches it and no other, announces the removal
  of the entity last, and leaves every other row of the store as it was.\<close>
theorem delete_leaves_nothing_dangling:
  assumes "table_ok d" "st_get owner entity_kind i d = Some cur" "st_count owner relation_kind d \<le> 1000"
    and "\<forall>k r. st_get owner relation_kind k d = Some r \<longrightarrow> jid r = k"
    and "delete_entity plain_store owner i d = (res, evs, d')"
  shows "res = Inr () \<and> st_get owner entity_kind i d' = None
     \<and> (\<forall>k. st_get owner relation_kind k d' = (case st_get owner relation_kind k d of None \<Rightarrow> None
           | Some r \<Rightarrow> if touches i r then None else Some r))
     \<and> (\<forall>ow k j. (ow \<noteq> owner \<or> k \<noteq> relation_kind) \<and> (ow, k, j) \<noteq> (owner, entity_kind, i) \<longrightarrow> st_get ow k j d' = st_get ow k j d)
     \<and> List.last evs = EntityDeleted i (text_or_empty cur ''type'')"
proof -
  let ?links = "filter (touches i) (st_list owner relation_kind no_options d)"
  have r: "res = Inr ()" "evs = map (\<lambda>r. RelationDeleted (jid r)) ?links @ [EntityDeleted i (text_or_empty cur ''type'')]"
    using assms(2,5) by (auto simp: delete_entity_def Let_def)
  have d': "d' = snd (snd (delete_entity plain_store owner i d))" using assms(5) by simp
  have g: "st_get ow k j d' = (if ow = owner \<and> k = entity_kind \<and> j = i then None
     else if ow = owner \<and> k = relation_kind \<and> j \<in> jid ` set ?links then None else st_get ow k j d)" for ow k j
    using ps.delete_get [of owner i d cur ow k j] assms(2) by (simp add: d')
  have own: "jid r = k" if "st_get owner relation_kind k d = Some r" for k r using assms(4) that by blast
  have "k \<in> jid ` set ?links \<longleftrightarrow> touches i r" if k: "st_get owner relation_kind k d = Some r" for k r
  proof
    assume "touches i r"
    then show "k \<in> jid ` set ?links" using st_list_all [OF assms(3) k] own [OF k] by force
  next
    assume "k \<in> jid ` set ?links"
    then obtain x where x: "x \<in> set (st_list owner relation_kind no_options d)" "touches i x" "jid x = k" by auto
    obtain k' u where "((owner, relation_kind, k'), x, u) \<in> set d" using st_list_row [OF x(1)] by blast
    then have "st_get owner relation_kind k' d = Some x" using assms(1) by (simp add: st_get_def table_ok_def)
    then show "touches i r" using x own k by auto
  qed
  then have "st_get owner relation_kind k d' = (case st_get owner relation_kind k d of None \<Rightarrow> None
       | Some r \<Rightarrow> if touches i r then None else Some r)" for k
    by (auto simp: g split: option.split)
  then show ?thesis using g r by simp
qed

theorem delete_leaves_nothing_dangling_witness:
  "st_get ''u1'' relation_kind ''r1'' (snd (snd (delete_entity plain_store ''u1'' ''a'' sample_graph))) = None
   \<and> st_get ''u1'' relation_kind ''r2'' (snd (snd (delete_entity plain_store ''u1'' ''a'' sample_graph))) = Some (sample_link ''r2'' ''b'' ''c'')"
proof -
  have t: "table_ok sample_graph" "st_get ''u1'' entity_kind ''a'' sample_graph = Some (sample_entity ''a'')"
      "st_count ''u1'' relation_kind sample_graph \<le> 1000"
    by (simp_all add: table_ok_def sample_graph_def st_get_def st_count_def)
  have g: "st_get ''u1'' relation_kind k sample_graph = (if k = ''r1'' then Some (sample_link ''r1'' ''a'' ''b'')
      else if k = ''r2'' then Some (sample_link ''r2'' ''b'' ''c'') else None)" for k
    by (simp add: sample_graph_def st_get_def)
  then have j: "\<forall>k r. st_get ''u1'' relation_kind k sample_graph = Some r \<longrightarrow> jid r = k"
    by (simp add: jid_def jtext_def sample_link_def)
  obtain res evs d' where d: "delete_entity plain_store ''u1'' ''a'' sample_graph = (res, evs, d')" by (metis prod_cases3)
  show ?thesis using delete_leaves_nothing_dangling [OF t(1,2,3) j d]
    by (simp add: d g touches_def sample_link_def jtext_def)
qed

section \<open>Updates\<close>

lemma distinct_patch: "distinct (map fst (present ''name'' JStr a @ present ''status'' JStr b @ [(''properties'', p), (''version'', v), (''provenance'', q)]))"
  by (simp add: present_def split: option.split)

lemma updated_fields:
  assumes "is_obj cur"
  shows "jget (updated_doc env cur x) k = (if k = ''name'' \<and> ui_name x \<noteq> None then map_option JStr (ui_name x)
     else if k = ''status'' \<and> ui_status x \<noteq> None then map_option JStr (ui_status x)
     else if k = ''properties'' then Some (jmerge (JObj (case jget cur ''properties'' of Some (JObj fs) \<Rightarrow> fs | _ \<Rightarrow> []))
           (JObj (case ui_props x of None \<Rightarrow> [] | Some fs \<Rightarrow> fs)))
     else if k = ''version'' then Some (case jnum (jget cur ''version'') of None \<Rightarrow> JNull | Some v \<Rightarrow> JNum (v + 1))
     else if k = ''provenance'' then Some (source_doc env (ui_source x) (ui_actor x) (ui_confidence x))
     else jget cur k)"
  unfolding updated_doc_def jget_jmerge [OF assms distinct_patch]
  by (simp add: present_def del: jmerge_obj split: option.split)

lemma read_entityD:
  assumes "read_entity j = Some e"
  shows "req (trimmed_in 1 200) ''id'' j = Some (be_id e)" "req read_type ''type'' j = Some (be_type e)"
    "req (trimmed_in 1 300) ''name'' j = Some (be_name e)" "opt (trimmed_in 0 100) ''status'' j = Some (be_status e)"
    "dflt [] as_fields ''properties'' j = Some (be_props e)" "dflt ''1.0'' (text_in 0 100) ''schemaVersion'' j = Some (be_schema e)"
    "dflt 1 positive_int ''version'' j = Some (be_version e)" "req read_source ''provenance'' j = Some (be_source e)"
    "opt (trimmed_in 1 100) ''stateMachineId'' j = Some (be_machine e)"
  using assms by (auto simp: read_entity_def bind_eq_Some_conv)

lemma entity_row_fields:
  "jget (entity_row e) k = (if k = ''id'' then Some (JStr (be_id e)) else if k = ''type'' then Some (JStr (be_type e))
     else if k = ''name'' then Some (JStr (be_name e)) else if k = ''status'' then map_option JStr (be_status e)
     else if k = ''properties'' then Some (JObj (be_props e)) else if k = ''schemaVersion'' then Some (JStr (be_schema e))
     else if k = ''version'' then Some (JNum (of_int (be_version e))) else if k = ''provenance'' then Some (source_row (be_source e))
     else if k = ''stateMachineId'' then map_option JStr (be_machine e) else None)"
  unfolding entity_row_def by (simp add: present_def split: option.split)

lemma jid_entity_row [simp]: "jid (entity_row e) = be_id e"
  by (simp add: jid_def jtext_def entity_row_fields)

lemma is_obj_entity_row [simp]: "is_obj (entity_row e)"
  by (simp add: entity_row_def)

lemma jstr_map_JStr: "jstr (map_option JStr v) = v"
  by (cases v) simp_all

lemma jtext_entity_row: "jtext (entity_row e) ''status'' = be_status e" "jtext (entity_row e) ''name'' = Some (be_name e)"
  "jtext (entity_row e) ''type'' = Some (be_type e)" "jtext (entity_row e) ''stateMachineId'' = be_machine e"
  by (simp_all add: jtext_def entity_row_fields jstr_map_JStr)

lemma update_okD:
  assumes "update_entity S env machines others owner i x s = (Inr j, evs, s')"
  obtains cur e where "s_get S owner entity_kind i s = Some cur" "read_entity (updated_doc env cur x) = Some e"
    "j = entity_row e" "s' = s_put S (ge_clock env) owner entity_kind j (others s)"
    "List.last evs = EntityUpdated i (be_type e) (be_version e) (changed_fields x)" "evs \<noteq> []"
  using assms by (auto simp: update_entity_def parse_entity_def split: option.splits sum.splits prod.splits)

lemma updated_version:
  assumes "read_entity (updated_doc env cur x) = Some e" "is_obj cur" "jnum (jget cur ''version'') = Some v"
  shows "of_int (be_version e) = v + 1"
  using read_entityD(7) [OF assms(1)]
  by (auto simp: dflt_def updated_fields [OF assms(2)] assms(3) positive_int_def split: option.splits if_splits)

lemma updated_id:
  assumes "read_entity (updated_doc env cur x) = Some e" "jtext cur ''id'' = Some i" "trim i = i"
  shows "be_id e = i"
  using read_entityD(1) [OF assms(1)] assms(2,3)
  by (auto simp: req_def updated_fields [OF jtext_is_obj [OF assms(2)]] trimmed_in_def jtext_Some split: if_splits)

lemma updated_name:
  assumes "read_entity (updated_doc env cur x) = Some e" "is_obj cur" "ui_name x = None"
  shows "\<exists>n. jtext cur ''name'' = Some n \<and> be_name e = trim n"
  using read_entityD(3) [OF assms(1)]
  by (auto simp: req_def updated_fields [OF assms(2)] assms(3) trimmed_in_def bind_eq_Some_conv jtext_def
      elim!: as_text.elims split: option.splits if_splits)

text \<open>An update is a read followed by an unconditional write.  When two updates of one entity read the
  same version, both succeed, both announce the same next version, and the row is that of the one
  that wrote last: a name the other one set is gone.\<close>
theorem updates_share_a_version:
  assumes "st_get owner entity_kind i d = Some cur" "jtext cur ''id'' = Some i" "trim i = i" "jnum (jget cur ''version'') = Some v"
    and "update_entity plain_store env2 m2 (\<lambda>s. s) owner i x2 d = (Inr j2, evs2, d2)"
    and "update_entity plain_store env1 m1 (\<lambda>_. d2) owner i x1 d = (Inr j1, evs1, d1)" "ui_name x1 = None"
  shows "st_get owner entity_kind i d2 = Some j2 \<and> st_get owner entity_kind i d1 = Some j1
     \<and> jget j1 ''version'' = Some (JNum (v + 1)) \<and> jget j2 ''version'' = Some (JNum (v + 1))
     \<and> (\<exists>n. jtext cur ''name'' = Some n \<and> jtext j1 ''name'' = Some (trim n))
     \<and> (\<exists>ty n1 n2. List.last evs1 = EntityUpdated i ty n1 (changed_fields x1) \<and> of_int n1 = v + 1
          \<and> List.last evs2 = EntityUpdated i ty n2 (changed_fields x2) \<and> of_int n2 = v + 1)"
proof -
  have o: "is_obj cur" using assms(2) by (rule jtext_is_obj)
  obtain e2 where e2: "read_entity (updated_doc env2 cur x2) = Some e2" "j2 = entity_row e2"
      "d2 = s_put plain_store (ge_clock env2) owner entity_kind j2 d"
      "List.last evs2 = EntityUpdated i (be_type e2) (be_version e2) (changed_fields x2)"
    using assms(1) by (cases rule: update_okD [OF assms(5)]) auto
  obtain e1 where e1: "read_entity (updated_doc env1 cur x1) = Some e1" "j1 = entity_row e1"
      "d1 = s_put plain_store (ge_clock env1) owner entity_kind j1 d2"
      "List.last evs1 = EntityUpdated i (be_type e1) (be_version e1) (changed_fields x1)"
    using assms(1) by (cases rule: update_okD [OF assms(6)]) auto
  have ids: "be_id e1 = i" "be_id e2 = i" using updated_id e1(1) e2(1) assms(2,3) by blast+
  have vs: "of_int (be_version e1) = v + 1" "of_int (be_version e2) = v + 1"
    using updated_version [OF _ o assms(4)] e1(1) e2(1) by blast+
  have ty: "be_type e1 = be_type e2"
    using read_entityD(2) [OF e1(1)] read_entityD(2) [OF e2(1)] by (simp add: req_def updated_fields [OF o])
  show ?thesis using e1 e2 ids vs ty updated_name [OF e1(1) o assms(7)]
    by (simp add: ps.get_put [simplified] entity_row_fields jtext_entity_row)
qed

definition rename :: "string \<Rightarrow> update_input" where
  "rename n = \<lparr> ui_name = Some n, ui_status = None, ui_props = None, ui_actor = ''u1'', ui_source = ''api'', ui_confidence = None \<rparr>"

definition move_to :: "string \<Rightarrow> string \<Rightarrow> update_input" where
  "move_to actor st = \<lparr> ui_name = None, ui_status = Some st, ui_props = None, ui_actor = actor, ui_source = ''api'', ui_confidence = None \<rparr>"

definition sample_graph_env :: graph_env where
  "sample_graph_env = \<lparr> ge_clock = 20, ge_now = 50, ge_uuid = ''n1'', ge_show = (\<lambda>_. []) \<rparr>"

section \<open>Statuses and machines\<close>

text \<open>As app.ts wires the graph (no registry), the machine an entity names is never asked: an update
  moves a stored entity from any status to any other.\<close>

lemma jnum_Some: "jnum x = Some r \<longleftrightarrow> x = Some (JNum r)"
  by (cases x; cases "the x") auto

lemma updated_readers:
  assumes "is_obj cur" "k \<notin> {''name'', ''status'', ''properties'', ''version'', ''provenance''}"
  shows "req f k (updated_doc env cur x) = req f k cur" "opt g k (updated_doc env cur x) = opt g k cur"
    "dflt a h k (updated_doc env cur x) = dflt a h k cur"
  using assms(2) by (simp_all add: req_def opt_def dflt_def updated_fields [OF assms(1)])

lemma read_new_source:
  "\<lbrakk> len_in 1 200 a; len_in 1 200 b \<rbrakk> \<Longrightarrow> read_source (source_doc env a b None)
     = Some \<lparr> fs_source = a, fs_actor = b, fs_updated = ge_now env, fs_confidence = None \<rparr>"
  by (simp add: read_source_def source_doc_def req_def opt_def text_in_def present_def)

lemma updated_status_read:
  assumes "read_entity cur = Some e" "ui_name x = None" "ui_status x = Some st" "ui_props x = None" "ui_confidence x = None"
    and "trim st = st" "length st \<le> 100" "len_in 1 200 (ui_source x)" "len_in 1 200 (ui_actor x)"
    and "jnum (jget cur ''version'') = Some v" "jget cur ''properties'' = Some (JObj ps)"
  shows "\<exists>e'. read_entity (updated_doc env cur x) = Some e' \<and> be_status e' = Some st \<and> be_id e' = be_id e
     \<and> be_machine e' = be_machine e"
proof -
  have o: "is_obj cur" using assms(11) by (rule jget_is_obj)
  note r = read_entityD [OF assms(1)]
  have jv: "jget cur ''version'' = Some (JNum v)" using assms(10) by (simp add: jnum_Some)
  have v: "0 < \<lfloor>v\<rfloor>" "of_int \<lfloor>v\<rfloor> = v" using r(7)
    by (auto simp: dflt_def positive_int_def jv split: if_splits option.splits)
  have num: "as_int (JNum (v + 1)) = Some (\<lfloor>v\<rfloor> + 1)" using v(2) by simp
  have "read_entity (updated_doc env cur x) = Some (e\<lparr> be_status := Some st, be_props := fields_merge ps [],
      be_version := \<lfloor>v\<rfloor> + 1, be_source := \<lparr> fs_source = ui_source x, fs_actor = ui_actor x, fs_updated = ge_now env, fs_confidence = None \<rparr> \<rparr>)"
    unfolding read_entity_def using r assms(2-9) num v(1)
    by (simp add: updated_readers [OF o]) (simp add: req_def opt_def dflt_def updated_fields [OF o] assms(11) jv trimmed_in_def len_in_def
        positive_int_def read_new_source)
  then show ?thesis by auto
qed

theorem status_escapes_machine:
  assumes "st_get owner entity_kind i d = Some cur" "jtext cur ''id'' = Some i" "trim i = i" "read_entity cur = Some e"
    and "jnum (jget cur ''version'') = Some v" "jget cur ''properties'' = Some (JObj ps)"
    and "trim st = st" "length st \<le> 100" "len_in 1 200 actor"
  shows "\<exists>j. fst (update_entity plain_store env None (\<lambda>s. s) owner i (move_to actor st) d) = Inr j
     \<and> st_get owner entity_kind i (snd (snd (update_entity plain_store env None (\<lambda>s. s) owner i (move_to actor st) d))) = Some j
     \<and> jtext j ''status'' = Some st \<and> jtext j ''stateMachineId'' = be_machine e"
proof -
  obtain e' where e': "read_entity (updated_doc env cur (move_to actor st)) = Some e'" "be_status e' = Some st"
      "be_id e' = be_id e" "be_machine e' = be_machine e"
    using updated_status_read [OF assms(4), of "move_to actor st" st v ps env] assms(5-9)
    by (auto simp: move_to_def len_in_def)
  have i: "be_id e' = i" by (rule updated_id [OF e'(1) assms(2,3)])
  have "update_entity plain_store env None (\<lambda>s. s) owner i (move_to actor st) d = (Inr (entity_row e'),
      [EntityUpdated i (be_type e') (be_version e') (changed_fields (move_to actor st))],
      st_put (ge_clock env) owner entity_kind (entity_row e') d)"
    using assms(1) e'(1) by (simp add: update_entity_def machine_gate_def parse_entity_def)
  then show ?thesis using i e' by (simp add: ps.get_put [simplified] jtext_entity_row)
qed

text \<open>With a registry, the actor of the update is what the machine compares with the role of the
  transition: whoever holds the role is refused unless the role is also the actor's name.\<close>
theorem actor_taken_for_role:
  assumes "s_get S owner entity_kind i s = Some cur" "jtext cur ''stateMachineId'' = Some mid" "mid \<noteq> []"
    and "smr_get S dec owner mid s = Some m" "find_transition m from to = Some t" "role_blocked t (Some (ui_actor x))"
    and "jtext cur ''status'' = Some from" "ui_status x = Some to" "to \<noteq> from"
  shows "\<exists>e evs. update_entity S env (Some (\<lambda>ow mid' i' a b r s'. smr_apply S dec bus entities ow mid' i' a b r s')) others owner i x s
     = (Inl e, evs, s) \<and> err_status e \<in> {Some 403, Some 409}"
proof -
  have f: "text_or_empty cur ''status'' = from" using assms(7) by (simp add: text_or_empty_def)
  have "\<exists>e evs. sm_transition bus entities owner m i from to (Some (ui_actor x)) = (Inl e, evs) \<and> err_status e \<in> {Some 403, Some 409}"
    using assms(5,6) by (auto simp: sm_transition_def Let_def split: option.split)
  then show ?thesis using assms(1-4,7-9) f
    by (auto simp: update_entity_def machine_gate_def given_text_def smr_apply_def)
qed

text \<open>A creation that loses the race for its id still returns its own entity and announces it.\<close>
theorem ghost_entity_announced:
  assumes "schema_error plain_store (ge_show env) owner (ci_type x) (ci_props x) d = None" "ci_id x = Some i" "i \<noteq> []"
    and "st_get owner entity_kind i d = None" "parse_entity (new_entity_doc env i x) = Inr e"
    and "st_get owner entity_kind (be_id e) (others d) = Some w"
    and "create_entity plain_store env others owner x d = (res, evs, d')"
  shows "res = Inr (entity_row e) \<and> evs = [EntityCreated (be_id e) (be_type e) 1]
     \<and> st_get owner entity_kind (be_id e) d' = Some w"
  using assms by (auto simp: create_entity_def insert_entity_def given_text_def ps.insert_present [simplified])

text \<open>The status provider of app.ts has no \<open>getType\<close>: the type of an entity is never compared with the
  machine's.\<close>
lemma provider_has_no_type: "type_mismatch (Some (graph_provider S s)) m owner e = None"
  by (simp add: type_mismatch_def graph_provider_def)

end
