(* ===== verification/SopModel.thy ===== *)
theory SopModel
  imports Rows
begin

text \<open>
  Standard operating procedures as data: the schemas of packages/domain/src/sop.ts, and the templates
  \<open>{{path}}\<close> in the texts of a step (\<open>interpolate\<close> and \<open>deepInterpolate\<close> of
  apps/server/src/engine/sop-executor.ts).  A value of type \<open>sop\<close> is what the schema's parse returns,
  defaults filled in; the fields the executor never reads (description, trigger, assignment, version)
  are only checked.
\<close>

section \<open>Steps and procedures\<close>

datatype sop_tool = ReadMailThread | ReadWorkspace | ImportPdf | InspectPdf | FillPdf | PrepareEmail | PrepareEvent
  | ReadWeb | SaveArtifact | AskUser | ComputerCommand | QueryBusiness | RecallMemory | LlmGenerate | TransitionEntity

fun tool_text :: "sop_tool \<Rightarrow> string" where
  "tool_text ReadMailThread = ''read_mail_thread''" | "tool_text ReadWorkspace = ''read_workspace''"
| "tool_text ImportPdf = ''import_pdf''" | "tool_text InspectPdf = ''inspect_pdf''" | "tool_text FillPdf = ''fill_pdf''"
| "tool_text PrepareEmail = ''prepare_email''" | "tool_text PrepareEvent = ''prepare_event''"
| "tool_text ReadWeb = ''read_web''" | "tool_text SaveArtifact = ''save_artifact''" | "tool_text AskUser = ''ask_user''"
| "tool_text ComputerCommand = ''computer_command''" | "tool_text QueryBusiness = ''query_business''"
| "tool_text RecallMemory = ''recall_memory''" | "tool_text LlmGenerate = ''llm_generate''"
| "tool_text TransitionEntity = ''transition_entity''"

definition "all_tools = [ReadMailThread, ReadWorkspace, ImportPdf, InspectPdf, FillPdf, PrepareEmail, PrepareEvent, ReadWeb,
  SaveArtifact, AskUser, ComputerCommand, QueryBusiness, RecallMemory, LlmGenerate, TransitionEntity]"

record sop_step =
  ss_id :: string
  ss_title :: string
  ss_tool :: sop_tool
  ss_prompt :: string
  ss_params :: "(string \<times> json) list"
  ss_when :: "string option"
  ss_required :: bool
  ss_machine :: "string option"

record sop =
  sp_id :: string
  sp_name :: string
  sp_category :: string
  sp_steps :: "sop_step list"
  sp_allowed :: "sop_tool list"
  sp_skill :: "string option"
  sp_active :: bool
  sp_updated :: json

section \<open>The schema\<close>

fun as_bool :: "json \<Rightarrow> bool option" where
  "as_bool (JBool b) = Some b" | "as_bool _ = None"

text \<open>A string that holds an instant, as the code writes it, or any other string.\<close>

fun as_stamp :: "json \<Rightarrow> json option" where
  "as_stamp (JDate t) = Some (JDate t)" | "as_stamp (JStr s) = Some (JStr s)" | "as_stamp _ = None"

definition as_tool :: "json \<Rightarrow> sop_tool option" where
  "as_tool = as_enum (enum_of tool_text all_tools)"

definition read_step :: "json \<Rightarrow> sop_step option" where
  "read_step j = Option.bind (req (text_in 1 100) ''id'' j) (\<lambda>i.
     Option.bind (req (text_in 1 200) ''title'' j) (\<lambda>ti.
     Option.bind (dflt AskUser as_tool ''tool'' j) (\<lambda>to.
     Option.bind (dflt [] (text_in 0 5000) ''prompt'' j) (\<lambda>pr.
     Option.bind (dflt [(''type'', JStr ''manual''), (''value'', JStr [])] as_fields ''params'' j) (\<lambda>pa.
     Option.bind (opt (text_in 0 500) ''when'' j) (\<lambda>wh.
     Option.bind (dflt True as_bool ''required'' j) (\<lambda>re.
     Option.bind (opt (text_in 1 100) ''stateMachine'' j) (\<lambda>sm.
     Some \<lparr> ss_id = i, ss_title = ti, ss_tool = to, ss_prompt = pr, ss_params = pa, ss_when = wh, ss_required = re,
       ss_machine = sm \<rparr>))))))))"

definition trigger_types :: "string list" where
  "trigger_types = [''manual'', ''api'', ''cron'', ''email_subject'', ''email_body_match'']"

definition read_trigger :: "json \<Rightarrow> unit option" where
  "read_trigger j = (if \<not> is_obj j then None
     else Option.bind (dflt ''manual'' as_text ''type'' j) (\<lambda>ty.
       Option.bind (dflt [] (text_in 0 500) ''value'' j) (\<lambda>v. if ty \<in> set trigger_types then Some () else None)))"

text \<open>\<open>now\<close> is the instant of the parse: the default of \<open>createdAt\<close> and \<open>updatedAt\<close>.\<close>

definition read_sop :: "int \<Rightarrow> json \<Rightarrow> sop option" where
  "read_sop now j = Option.bind (req (text_in 1 100) ''id'' j) (\<lambda>i.
     Option.bind (req (text_in 1 160) ''name'' j) (\<lambda>na.
     Option.bind (dflt [] (text_in 0 4000) ''description'' j) (\<lambda>_.
     Option.bind (dflt ''General'' (text_in 0 100) ''category'' j) (\<lambda>ca.
     Option.bind (dflt () read_trigger ''trigger'' j) (\<lambda>_.
     Option.bind (req (as_list read_step) ''steps'' j) (\<lambda>steps.
     Option.bind (req (as_list as_tool) ''allowedTools'' j) (\<lambda>tools.
     Option.bind (opt (text_in 1 100) ''skillId'' j) (\<lambda>sk.
     Option.bind (dflt True as_bool ''active'' j) (\<lambda>ac.
     Option.bind (opt (text_in 0 200) ''assignedBy'' j) (\<lambda>_.
     Option.bind (opt (text_in 0 200) ''assignedTo'' j) (\<lambda>_.
     Option.bind (dflt 1 positive_int ''version'' j) (\<lambda>_.
     Option.bind (dflt (JDate now) as_stamp ''createdAt'' j) (\<lambda>_.
     Option.bind (dflt (JDate now) as_stamp ''updatedAt'' j) (\<lambda>up.
     if 1 \<le> length steps \<and> length steps \<le> 50 \<and> distinct (map ss_id steps) \<and> tools \<noteq> []
     then Some \<lparr> sp_id = i, sp_name = na, sp_category = ca, sp_steps = steps, sp_allowed = tools, sp_skill = sk,
       sp_active = ac, sp_updated = up \<rparr>
     else None))))))))))))))"

section \<open>Templates\<close>

text \<open>How JavaScript writes a value as text: \<open>JSON.stringify\<close>, \<open>String\<close> of a value that is no string, and
  the text of an instant.\<close>

record texts =
  tx_json :: "json \<Rightarrow> string"
  tx_string :: "json \<Rightarrow> string"
  tx_date :: "int \<Rightarrow> string"

definition split_dots :: "string \<Rightarrow> string list" where
  "split_dots s = foldr (\<lambda>c acc. if c = CHR ''.'' then [] # acc else (case acc of [] \<Rightarrow> [[c]] | w # ws \<Rightarrow> (c # w) # ws)) s [[]]"

definition digits :: "string \<Rightarrow> bool" where
  "digits s \<longleftrightarrow> s \<noteq> [] \<and> list_all (\<lambda>c. 48 \<le> (of_char c :: nat) \<and> (of_char c :: nat) \<le> 57) s"

definition digits_value :: "string \<Rightarrow> nat" where
  "digits_value s = foldl (\<lambda>n c. 10 * n + (of_char c - 48)) 0 s"

fun look :: "json option \<Rightarrow> string list \<Rightarrow> json option" where
  "look v [] = v"
| "look v (p # ps) = (case v of
     Some (JArr xs) \<Rightarrow> look (if digits p then (if digits_value p < length xs then Some (xs ! digits_value p) else None)
         else if p = ''length'' then Some (JNum (of_nat (length xs))) else None) ps
   | Some (JObj fs) \<Rightarrow> look (map_of fs p) ps
   | _ \<Rightarrow> None)"

definition text_value :: "texts \<Rightarrow> json option \<Rightarrow> string" where
  "text_value tx v = (case v of None \<Rightarrow> [] | Some JNull \<Rightarrow> [] | Some (JStr s) \<Rightarrow> s | Some (JDate t) \<Rightarrow> tx_date tx t
     | Some j \<Rightarrow> tx_json tx j)"

definition template_key :: "texts \<Rightarrow> json \<Rightarrow> (string \<times> json) list \<Rightarrow> string \<Rightarrow> string" where
  "template_key tx task results key = (case split_dots (trim key) of
     [] \<Rightarrow> []
   | p # ps \<Rightarrow> text_value tx (if p = ''input'' then look (jget task ''input'') ps
       else if p = ''state'' then look (jget task ''state'') ps else look (Some (JObj results)) (p # ps)))"

text \<open>The replacement of \<open>/\{\{\s*([^}]+)\s*\}\}/g\<close>: at an opening, everything up to the next \<open>}\<close> is the
  key if it is not empty and \<open>}}\<close> follows.\<close>

definition braces_open :: string where "braces_open = [CHR 0x7B, CHR 0x7B]"
definition braces_close :: string where "braces_close = [CHR 0x7D, CHR 0x7D]"

function fill :: "(string \<Rightarrow> string) \<Rightarrow> string \<Rightarrow> string" where
  "fill f s = (case s of [] \<Rightarrow> [] | c # cs \<Rightarrow>
     (let key = takeWhile (\<lambda>x. x \<noteq> CHR 0x7D) (drop 2 s); after = drop (2 + length key) s
      in if str_starts braces_open s \<and> key \<noteq> [] \<and> str_starts braces_close after then f key @ fill f (drop 2 after)
         else c # fill f cs))"
  by pat_completeness auto
termination
  by (relation "measure (\<lambda>(f, s). length s)") auto

declare fill.simps [simp del]

definition interpolate :: "texts \<Rightarrow> json \<Rightarrow> (string \<times> json) list \<Rightarrow> string \<Rightarrow> string" where
  "interpolate tx task results s = fill (template_key tx task results) s"

fun deep_interpolate :: "texts \<Rightarrow> json \<Rightarrow> (string \<times> json) list \<Rightarrow> json \<Rightarrow> json" where
  "deep_interpolate tx task results (JStr s) = JStr (interpolate tx task results s)"
| "deep_interpolate tx task results (JArr xs) = JArr (map (deep_interpolate tx task results) xs)"
| "deep_interpolate tx task results (JObj fs) = JObj (map (\<lambda>kv. (fst kv, deep_interpolate tx task results (snd kv))) fs)"
| "deep_interpolate tx task results v = v"

section \<open>Texts without a template\<close>

lemma fill_step: "CHR 0x7D \<notin> set cs \<Longrightarrow> fill f (c # cs) = c # fill f cs"
proof -
  assume c: "CHR 0x7D \<notin> set cs"
  have "\<not> str_starts braces_close (drop (Suc n) (c # cs))" for n
    using c set_drop_subset [of n cs] by (auto simp: str_starts_iff braces_close_def)
  then show ?thesis by (subst fill.simps) (simp add: Let_def)
qed

lemma fill_plain: "CHR 0x7D \<notin> set s \<Longrightarrow> fill f s = s"
  by (induction s) (simp_all add: fill_step, simp add: fill.simps)

lemma read_sop_steps: "read_sop now j = Some p \<Longrightarrow> sp_steps p \<noteq> [] \<and> length (sp_steps p) \<le> 50 \<and> distinct (map ss_id (sp_steps p))
    \<and> sp_allowed p \<noteq> []"
  by (auto simp: read_sop_def bind_eq_Some_conv split: if_splits)

end
