(* ===== verification/SopSteps.thy ===== *)
theory SopSteps
  imports SopModel Worker Actions BusinessGraph KernelContext
begin

text \<open>
  One step of a procedure (\<open>runStep\<close> of apps/server/src/engine/sop-executor.ts) over the task context
  that the worker gives a handler, and the parts of \<open>AgentService\<close> a step calls: \<open>prepare\<close> and
  \<open>artifact\<close> (engine/service.ts) and the governance of tools (engine/agents/governance.ts).

  The state of a run is the store, what the worker keeps for the run, the task as the worker last saw
  it, and the events offered to the bus.  The services a step calls (mail, browser, sandbox, business
  databases, files, memory, the language model) are the record \<open>services\<close>.  A run has one clock instant.
\<close>

section \<open>The run\<close>

datatype sop_error = LeaseLost | Threw err

fun err_text :: "err \<Rightarrow> string" where
  "err_text (AppError m _) = m"
| "err_text (JsError m) = m"

datatype bus_item = BusItem string json "string option" | GraphItem graph_event | PolicyItem policy_event

record 's sop_run =
  su_store :: 's
  su_local :: run_local
  su_task :: json
  su_bus :: "bus_item list"
  su_draws :: nat

type_synonym 's svc = "'s \<Rightarrow> json res \<times> 's"

record 's services =
  sv_snapshot :: "string \<Rightarrow> 's svc"
  sv_thread :: "string \<Rightarrow> string \<Rightarrow> 's svc"
  sv_observe :: "string \<Rightarrow> string \<Rightarrow> string option \<Rightarrow> 's svc"
  sv_start :: "string \<Rightarrow> 's svc"
  sv_command :: "string \<Rightarrow> string \<Rightarrow> string \<Rightarrow> string \<Rightarrow> 's svc"
  sv_query :: "string \<Rightarrow> string \<Rightarrow> string \<Rightarrow> json option \<Rightarrow> 's svc"
  sv_import :: "string \<Rightarrow> string \<Rightarrow> 's svc"
  sv_file :: "string \<Rightarrow> string \<Rightarrow> 's svc"
  sv_fill :: "string \<Rightarrow> string \<Rightarrow> (string \<times> json) list \<Rightarrow> 's svc"
  sv_recall :: "string \<Rightarrow> string \<Rightarrow> json \<Rightarrow> json \<Rightarrow> 's svc"
  sv_generate :: "string \<Rightarrow> string \<Rightarrow> json \<Rightarrow> 's svc"
  sv_skill_files :: "string \<Rightarrow> (string \<times> string) list option res"
  sv_mkdir :: "string \<Rightarrow> string \<Rightarrow> 's svc"
  sv_write :: "string \<Rightarrow> string \<Rightarrow> string \<Rightarrow> 's svc"
  sv_learn :: "string \<Rightarrow> json \<Rightarrow> string list \<Rightarrow> 's svc"
  sv_ingest :: "string \<Rightarrow> string \<Rightarrow> 's svc"

record 's sop_env =
  so_store :: "'s store"
  so_clock :: int
  so_now :: int
  so_wall :: int
  so_cache :: int
  so_texts :: texts
  so_uuid :: "nat \<Rightarrow> string"
  so_sha :: "string \<Rightarrow> string"
  so_bus :: bool
  so_tenant :: "string \<Rightarrow> 's \<Rightarrow> string res"
  so_kernel :: "(kctx \<Rightarrow> string \<Rightarrow> 's \<Rightarrow> string res \<times> 's) option"
  so_thought :: "kctx \<Rightarrow> string \<Rightarrow> bool \<Rightarrow> string \<Rightarrow> 's \<Rightarrow> 's"
  so_capabilities :: "'s \<Rightarrow> string list res"
  so_actions :: "'s action_env"
  so_email :: "json \<Rightarrow> json res"
  so_event :: "json \<Rightarrow> json res"
  so_connection :: "string \<Rightarrow> 's \<Rightarrow> string option"
  so_governance :: "(string \<Rightarrow> 's \<Rightarrow> bool) option option"
  so_graph :: graph_env
  so_machines :: "'s machines option"
  so_graph_machines :: "'s machines option"
  so_services :: "'s services"

type_synonym ('s, 'a) act = "'s sop_run \<Rightarrow> (sop_error + 'a) \<times> 's sop_run"

section \<open>The task context\<close>

definition ctx_guard :: "'s sop_env \<Rightarrow> ('s, unit) act" where
  "ctx_guard env u = (case guard (so_store env) (so_wall env) (so_cache env) (su_local u) (su_store u) of
     (held_on, rn) \<Rightarrow> (if held_on then Inr () else Inl LeaseLost, u\<lparr> su_local := rn \<rparr>))"

definition ctx_checkpoint :: "'s sop_env \<Rightarrow> (string \<times> json) list \<Rightarrow> ('s, json) act" where
  "ctx_checkpoint env patch u = (let rn = su_local u in
     case checkpoint (so_store env) (so_clock env) (so_now env) (rn_aborted rn) (rn_owner rn) (rn_task rn) (rn_lease rn) patch (su_store u) of
       (Inl _, s') \<Rightarrow> (Inl LeaseLost, u\<lparr> su_store := s' \<rparr>)
     | (Inr t, s') \<Rightarrow> (Inr t, u\<lparr> su_store := s', su_local := rn\<lparr> rn_guard_at := 0 \<rparr>, su_task := t \<rparr>))"

definition ctx_event :: "'s sop_env \<Rightarrow> string \<Rightarrow> string \<Rightarrow> string \<Rightarrow> ('s, unit) act" where
  "ctx_event env kind title detail u =
     (case run_event (so_store env) nat_text (so_clock env) (so_wall env) (so_cache env) (so_now env) (so_uuid env (su_draws u))
             (task_state (su_task u)) kind title detail (su_local u) (su_store u) of
        (held_on, rn, s') \<Rightarrow> (if held_on then Inr () else Inl LeaseLost,
           u\<lparr> su_store := s', su_local := rn, su_draws := su_draws u + 1 \<rparr>))"

definition log_bus :: "bus_item list \<Rightarrow> ('s, unit) act" where
  "log_bus items u = (Inr (), u\<lparr> su_bus := su_bus u @ items \<rparr>)"

definition nullish :: "json option \<Rightarrow> json option \<Rightarrow> json option" where
  "nullish v d = (case v of None \<Rightarrow> d | Some JNull \<Rightarrow> d | Some x \<Rightarrow> Some x)"

text \<open>\<open>ctx.busEvent\<close>: guarded, with the actors of the task in the payload.\<close>

definition bus_actors :: "string \<Rightarrow> json \<Rightarrow> (string \<times> json) list" where
  "bus_actors owner t = undef_field ''actorId'' (nullish (jget t ''assignedTo'') (nullish (map_of (task_state t) ''roleId'') (Some (JStr owner))))
     @ undef_field ''requestingActorId'' (nullish (jget t ''assignedBy'') (Some (JStr owner)))
     @ [(''compat'', JStr (if truthy (jget t ''assignedTo'') \<or> truthy (jget t ''assignedBy'') then ''real'' else ''legacy''))]"

definition ctx_bus :: "'s sop_env \<Rightarrow> string \<Rightarrow> (string \<times> json) list \<Rightarrow> ('s, unit) act" where
  "ctx_bus env ty payload = (if \<not> so_bus env then give ()
     else then_do (ctx_guard env) (\<lambda>_ u. log_bus [BusItem ty
       (JObj ([(''taskId'', JStr (rn_task (su_local u)))] @ bus_actors (rn_owner (su_local u)) (su_task u) @ payload)) None] u))"

definition call :: "('s \<Rightarrow> 'a res \<times> 's) \<Rightarrow> ('s, 'a) act" where
  "call f u = (case f (su_store u) of (Inl e, s') \<Rightarrow> (Inl (Threw e), u\<lparr> su_store := s' \<rparr>)
     | (Inr x, s') \<Rightarrow> (Inr x, u\<lparr> su_store := s' \<rparr>))"

definition reading :: "('s \<Rightarrow> 'a) \<Rightarrow> ('s, 'a) act" where
  "reading f u = (Inr (f (su_store u)), u)"

definition fail :: "string \<Rightarrow> nat \<Rightarrow> ('s, 'a) act" where
  "fail m n = throw (Threw (AppError m n))"

text \<open>A state spread over the task's state, with the keys set to \<open>undefined\<close> dropped.\<close>

definition state_with :: "json \<Rightarrow> (string \<times> json) list \<Rightarrow> string list \<Rightarrow> json" where
  "state_with task ups dels = JObj (fold AList.delete dels (fields_merge (task_state task) ups))"

section \<open>The parts of the service\<close>

definition save_artifact :: "'s sop_env \<Rightarrow> string \<Rightarrow> json \<Rightarrow> string \<Rightarrow> string \<Rightarrow> string \<Rightarrow> json \<Rightarrow> string \<Rightarrow> ('s, json) act" where
  "save_artifact env owner task kind title summary data key u =
     (let v = JObj [(''id'', JStr (so_sha env (jid task @ '':'' @ key))), (''taskId'', JStr (jid task)), (''kind'', JStr kind),
        (''title'', JStr title), (''summary'', JStr summary), (''data'', data), (''createdAt'', JDate (so_now env))]
      in (Inr v, u\<lparr> su_store := s_put (so_store env) (so_clock env) owner ''agent-artifacts'' v (su_store u) \<rparr>))"

definition text_or :: "string \<Rightarrow> string option \<Rightarrow> string" where
  "text_or d x = (case x of None \<Rightarrow> d | Some s \<Rightarrow> s)"

definition take_back :: "'s sop_env \<Rightarrow> string \<Rightarrow> json \<Rightarrow> sop_error \<Rightarrow> ('s, json) act" where
  "take_back env owner p e = (if jstatus p = Some ''awaiting_review''
     then then_do (call (act_decide (so_store env) (so_actions env) owner (jid p) (text_or_empty p ''hash'') False None)) (\<lambda>_. throw e)
     else throw e)"

definition service_prepare :: "'s sop_env \<Rightarrow> string \<Rightarrow> json \<Rightarrow> json \<Rightarrow> string \<Rightarrow> ('s, json) act" where
  "service_prepare env owner task input key =
     then_do (ctx_guard env) (\<lambda>_.
     then_do (reading (so_connection env owner)) (\<lambda>conn.
     if map_option JStr conn \<noteq> map_of (task_state task) ''connectionId''
     then fail ''Google connection changed during this task. Start a new task using the current account.'' 409
     else then_do (call (act_propose (so_store env) (so_actions env) owner input (Some (jid task @ '':'' @ key)) (Some (jid task)))) (\<lambda>p.
     then_do (catching (ctx_checkpoint env [(''actionId'', JStr (jid p))]) (take_back env owner p)) (\<lambda>_.
     then_do (ctx_event env ''approval'' (text_or_empty p ''title'')
       (''Review prepared for '' @ text_or ''the connected account'' (jtext p ''account''))) (\<lambda>_. give p)))))"

definition can_execute_tool :: "bool option \<Rightarrow> json \<Rightarrow> string \<Rightarrow> (bool \<times> string option) \<times> policy_event list" where
  "can_execute_tool pdp role tool =
     (let listed = jarr (jget role ''allowedTools''); why = ''Tool '' @ tool @ '' not allowed by role '' @ jid role
      in if listed \<noteq> [] \<and> JStr tool \<notin> set listed then ((False, Some why), [PolicyDenied (jid role) Execute why])
         else (case pdp of
             Some allowed \<Rightarrow> ((allowed, if allowed then None else Some (''PDP denied tool '' @ tool)), [])
           | None \<Rightarrow> allowlist_can True (role_of role) action_name (''tool:'' @ tool) Execute))"

definition governed :: "'s sop_env \<Rightarrow> string \<Rightarrow> json \<Rightarrow> ('s, unit) act" where
  "governed env owner task = (case (jstr (map_of (task_state task) ''roleId''), so_governance env) of
     (Some r, Some pdp) \<Rightarrow> if r = [] then give ()
       else then_do (reading (s_get (so_store env) owner ''agent-roles'' r)) (\<lambda>found. case found of
         None \<Rightarrow> give ()
       | Some role \<Rightarrow> then_do (reading (\<lambda>s. can_execute_tool (map_option (\<lambda>f. f owner s) pdp) role ''computer_command'')) (\<lambda>(d, evs).
           then_do (log_bus (map PolicyItem evs)) (\<lambda>_.
           if fst d then give ()
           else fail (text_or (''Tool computer_command not allowed for role '' @ jid role) (snd d)) 403)))
   | _ \<Rightarrow> give ())"

section \<open>The tools\<close>

type_synonym fields = "(string \<times> json) list"

definition as_string :: "'s sop_env \<Rightarrow> json option \<Rightarrow> string" where
  "as_string env v = string_of (tx_string (so_texts env)) v"

definition input_of :: "json \<Rightarrow> fields" where
  "input_of task = fields_of (jget task ''input'')"

definition or_title :: "string \<Rightarrow> sop_step \<Rightarrow> string" where
  "or_title prompt st = (if prompt = [] then ss_title st else prompt)"

definition ask_user_step :: "sop_step \<Rightarrow> json \<Rightarrow> string \<Rightarrow> json" where
  "ask_user_step st task prompt = (case map_of (task_state task) ''answer'' of
     Some (JStr a) \<Rightarrow> if map_of (task_state task) ''pendingInputStepId'' = Some (JStr (ss_id st)) \<and> trim a \<noteq> []
       then JObj [(''answer'', JStr (trim a)), (''consumed'', JBool True)]
       else JObj [(''status'', JStr ''waiting_input''), (''question'', JStr (or_title prompt st)), (''stepId'', JStr (ss_id st))]
   | _ \<Rightarrow> JObj [(''status'', JStr ''waiting_input''), (''question'', JStr (or_title prompt st)), (''stepId'', JStr (ss_id st))])"

definition read_web_step :: "'s sop_env \<Rightarrow> string \<Rightarrow> json \<Rightarrow> fields \<Rightarrow> string \<Rightarrow> ('s, json) act" where
  "read_web_step env owner task params prompt =
     then_do (call (sv_observe (so_services env) owner (as_string env (nullish (map_of params ''url'') (Some (JStr prompt))))
       (jstr (map_of (task_state task) ''browserId'')))) (\<lambda>page.
     then_do (ctx_checkpoint env [(''state'', state_with task (undef_field ''browserId'' (jget page ''sessionId''))
       (if jget page ''sessionId'' = None then [''browserId''] else []))]) (\<lambda>_.
     give (JObj (copy_field ''title'' ''title'' page @ copy_field ''url'' ''url'' page
       @ [(''text'', JStr (take 30000 (text_or_empty page ''text'')))]))))"

definition command_step :: "'s sop_env \<Rightarrow> string \<Rightarrow> sop_step \<Rightarrow> json \<Rightarrow> fields \<Rightarrow> string \<Rightarrow> ('s, json) act" where
  "command_step env owner st task params prompt =
     then_do (governed env owner task) (\<lambda>_.
     then_do (call (sv_start (so_services env) owner)) (\<lambda>_.
     (let command = as_string env (nullish (map_of params ''command'') (Some (JStr prompt)));
          operation = as_string env (nullish (map_of params ''operationId'')
            (Some (JStr (take 48 (so_sha env (jid task @ '':'' @ ss_id st @ '':'' @ command))))))
      in then_do (call (sv_command (so_services env) owner command
           (as_string env (nullish (map_of params ''cwd'') (Some (JStr ''/workspace'')))) (''sop:'' @ jid task @ '':'' @ operation))) (\<lambda>receipt.
         if jstatus receipt \<noteq> Some ''succeeded''
         then throw (Threw (JsError (if text_or_empty receipt ''stderr'' \<noteq> [] then text_or_empty receipt ''stderr''
              else ''Computer command exited '' @ text_or_empty receipt ''status'')))
         else give receipt))))"

definition query_sources :: "string list" where
  "query_sources = [''postgres'', ''csv'', ''api'', ''sheets'']"

definition query_step :: "'s sop_env \<Rightarrow> string \<Rightarrow> fields \<Rightarrow> string \<Rightarrow> ('s, json) act" where
  "query_step env owner params prompt = call (sv_query (so_services env) owner
     (case jstr (map_of params ''source'') of Some x \<Rightarrow> if x \<in> set query_sources then x else ''postgres'' | None \<Rightarrow> ''postgres'')
     (as_string env (nullish (map_of params ''query'') (Some (JStr prompt)))) (map_of params ''params''))"

definition is_object :: "json option \<Rightarrow> bool" where
  "is_object v = (case v of Some (JObj _) \<Rightarrow> True | Some (JArr _) \<Rightarrow> True | _ \<Rightarrow> False)"

definition artifact_step :: "'s sop_env \<Rightarrow> string \<Rightarrow> sop_step \<Rightarrow> json \<Rightarrow> fields \<Rightarrow> string \<Rightarrow> fields \<Rightarrow> ('s, json) act" where
  "artifact_step env owner st task params prompt results = save_artifact env owner task ''report''
     (as_string env (nullish (map_of params ''title'') (Some (JStr (ss_title st)))))
     (as_string env (nullish (map_of params ''summary'') (Some (JStr (or_title prompt st)))))
     (case map_of params ''data'' of Some d \<Rightarrow> if is_object (Some d) then d else JObj [(''result'', JObj results)]
        | None \<Rightarrow> JObj [(''result'', JObj results)])
     (''sop:'' @ ss_id st)"

definition waiting_approval :: "sop_step \<Rightarrow> json \<Rightarrow> json" where
  "waiting_approval st p = JObj [(''status'', JStr ''waiting_approval''), (''actionId'', JStr (jid p)), (''stepId'', JStr (ss_id st))]"

definition proposal_key :: "'s sop_env \<Rightarrow> sop \<Rightarrow> sop_step \<Rightarrow> json \<Rightarrow> string" where
  "proposal_key env p st data = ''sop:'' @ sp_id p @ '':'' @ ss_id st @ '':'' @ tx_json (so_texts env) data"

definition propose_step :: "'s sop_env \<Rightarrow> string \<Rightarrow> sop \<Rightarrow> sop_step \<Rightarrow> json \<Rightarrow> string \<Rightarrow> json res \<Rightarrow> ('s, json) act" where
  "propose_step env owner p st task kind draft = (case draft of
     Inl e \<Rightarrow> throw (Threw e)
   | Inr data \<Rightarrow> then_do (service_prepare env owner task (JObj [(''kind'', JStr kind), (''data'', data)]) (proposal_key env p st data)) (\<lambda>a.
       give (waiting_approval st a)))"

definition email_doc :: "sop_step \<Rightarrow> json \<Rightarrow> fields \<Rightarrow> string \<Rightarrow> json" where
  "email_doc st task params prompt = (case nullish (map_of params ''data'') None of Some d \<Rightarrow> d | None \<Rightarrow> JObj
     (undef_field ''to'' (nullish (map_of params ''to'') (map_of (input_of task) ''email''))
      @ undef_field ''subject'' (nullish (map_of params ''subject'') (Some (JStr (ss_title st))))
      @ undef_field ''body'' (nullish (map_of params ''body'') (Some (JStr prompt)))
      @ concat (map (\<lambda>k. undef_field k (nullish (map_of params k) (Some (JArr [])))) [''cc'', ''bcc'', ''attachmentIds''])))"

definition event_doc :: "sop_step \<Rightarrow> fields \<Rightarrow> string \<Rightarrow> json" where
  "event_doc st params prompt = (case nullish (map_of params ''data'') None of Some d \<Rightarrow> d | None \<Rightarrow> JObj
     (undef_field ''calendarId'' (nullish (map_of params ''calendarId'') (Some (JStr ''primary'')))
      @ undef_field ''title'' (nullish (map_of params ''title'') (Some (JStr (ss_title st))))
      @ undef_field ''start'' (map_of params ''start'') @ undef_field ''end'' (map_of params ''end'')
      @ undef_field ''allDay'' (nullish (map_of params ''allDay'') (Some (JBool False)))
      @ undef_field ''timeZone'' (map_of params ''timeZone'')
      @ undef_field ''location'' (nullish (map_of params ''location'') (Some (JStr [])))
      @ undef_field ''description'' (nullish (map_of params ''description'') (Some (JStr prompt)))
      @ undef_field ''attendees'' (nullish (map_of params ''attendees'') (Some (JArr [])))))"

definition file_view :: "bool \<Rightarrow> json \<Rightarrow> json" where
  "file_view pages f = JObj (copy_field ''id'' ''id'' f @ copy_field ''name'' ''name'' f @ copy_field ''fields'' ''fields'' f
     @ (if pages then copy_field ''pageCount'' ''pageCount'' f else []))"

text \<open>The values of a PDF form are texts and check marks.\<close>

definition form_fields :: "json option \<Rightarrow> fields option" where
  "form_fields v = (case v of Some (JObj fs) \<Rightarrow>
       if list_all (\<lambda>kv. case snd kv of JStr _ \<Rightarrow> True | JDate _ \<Rightarrow> True | JBool _ \<Rightarrow> True | _ \<Rightarrow> False) fs then Some fs else None
     | _ \<Rightarrow> None)"

definition recall_view :: "json \<Rightarrow> json" where
  "recall_view r = JObj (copy_field ''query'' ''query'' r @ copy_field ''explanation'' ''explanation'' r
     @ [(''ragHits'', JArr (map (\<lambda>h. JObj (copy_field ''sourceName'' ''sourceName'' h
           @ [(''text'', JStr (take 800 (text_or_empty h ''text'')))] @ copy_field ''score'' ''score'' h)) (jarr (jget r ''ragHits'')))),
        (''memories'', JArr (map (\<lambda>m. JObj (copy_field ''text'' ''text'' m
           @ undef_field ''category'' (nullish (jget m ''category'') (Some JNull))
           @ undef_field ''tags'' (nullish (jget m ''tags'') (Some (JArr []))))) (jarr (jget r ''memories''))))])"

definition transition_step :: "'s sop_env \<Rightarrow> string \<Rightarrow> sop \<Rightarrow> sop_step \<Rightarrow> fields \<Rightarrow> ('s, json) act" where
  "transition_step env owner p st params =
     (let entity = as_string env (nullish (map_of params ''entityId'') (Some (JStr [])));
          machine = as_string env (nullish (map_option JStr (ss_machine st)) (nullish (map_of params ''machineId'') (Some (JStr []))));
          to = as_string env (nullish (map_of params ''to'') (Some (JStr [])));
          role = jstr (map_of params ''roleId'')
      in if entity = [] \<or> machine = [] \<or> to = []
         then fail ''transition_entity requires params.entityId, step.stateMachine (o params.machineId) y params.to'' 422
         else (case so_machines env of
           None \<Rightarrow> fail ''State machine engine no esta cableado en el servidor'' 503
         | Some machines \<Rightarrow> then_do (reading (get_entity (so_store env) owner entity)) (\<lambda>found. case found of
             None \<Rightarrow> fail (''Entity not found: '' @ entity) 404
           | Some e \<Rightarrow>
              then_do (reading (machines owner machine entity (text_or_empty e ''status'') to role)) (\<lambda>(r, evs).
              then_do (log_bus (map (\<lambda>ev. GraphItem (MachineEvent ev)) evs)) (\<lambda>_. case r of
                Inl err \<Rightarrow> throw (Threw err)
              | Inr (TrResult a b act) \<Rightarrow>
                 then_do (\<lambda>u. case update_entity (so_store env) (so_graph env) (so_graph_machines env) (\<lambda>s. s) owner entity
                      \<lparr> ui_name = None, ui_status = Some to, ui_props = None, ui_actor = ''sop:'' @ sp_id p,
                        ui_source = ''step:'' @ ss_id st, ui_confidence = None \<rparr> (su_store u) of
                      (res, gevs, s') \<Rightarrow> (map_sum Threw id res, u\<lparr> su_store := s', su_bus := su_bus u @ map GraphItem gevs \<rparr>)) (\<lambda>_.
                 give (JObj [(''from'', JStr a), (''to'', JStr b), (''action'', JStr act)])))))))"

definition generate_context :: "sop \<Rightarrow> sop_step \<Rightarrow> json \<Rightarrow> fields \<Rightarrow> json" where
  "generate_context p st task results = JObj
     [(''sop'', JObj [(''id'', JStr (sp_id p)), (''name'', JStr (sp_name p)), (''category'', JStr (sp_category p))]),
      (''step'', JObj [(''id'', JStr (ss_id st)), (''title'', JStr (ss_title st))]),
      (''task'', JObj ([(''id'', JStr (jid task))] @ copy_field ''title'' ''title'' task @ copy_field ''prompt'' ''prompt'' task
         @ copy_field ''input'' ''input'' task)),
      (''results'', JObj results)]"

definition run_step :: "'s sop_env \<Rightarrow> string \<Rightarrow> sop \<Rightarrow> sop_step \<Rightarrow> json \<Rightarrow> fields \<Rightarrow> ('s, json) act" where
  "run_step env owner p st task results =
     (let tx = so_texts env; sv = so_services env;
          params = fields_of (Some (deep_interpolate tx task results (JObj (ss_params st))));
          prompt = interpolate tx task results (ss_prompt st)
      in case ss_tool st of
           AskUser \<Rightarrow> give (ask_user_step st task prompt)
         | ReadWorkspace \<Rightarrow> call (sv_snapshot sv owner)
         | ReadMailThread \<Rightarrow> call (sv_thread sv owner (as_string env (nullish (map_of params ''threadId'')
             (nullish (map_of (input_of task) ''threadId'') (Some (JStr prompt))))))
         | ReadWeb \<Rightarrow> read_web_step env owner task params prompt
         | ComputerCommand \<Rightarrow> command_step env owner st task params prompt
         | QueryBusiness \<Rightarrow> query_step env owner params prompt
         | SaveArtifact \<Rightarrow> artifact_step env owner st task params prompt results
         | PrepareEmail \<Rightarrow> propose_step env owner p st task ''email.send'' (so_email env (email_doc st task params prompt))
         | PrepareEvent \<Rightarrow> propose_step env owner p st task ''calendar.create'' (so_event env (event_doc st params prompt))
         | ImportPdf \<Rightarrow> then_do (call (sv_import sv owner (as_string env (nullish (map_of params ''reference'') (Some (JStr prompt))))))
             (\<lambda>f. give (file_view False f))
         | InspectPdf \<Rightarrow> then_do (call (sv_file sv owner (as_string env (map_of params ''fileId'')))) (\<lambda>f. give (file_view True f))
         | FillPdf \<Rightarrow> (case form_fields (map_of params ''fields'') of
             None \<Rightarrow> throw (Threw zod_error)
           | Some fs \<Rightarrow> then_do (call (sv_fill sv owner (as_string env (map_of params ''fileId'')) fs)) (\<lambda>f. give (file_view False f)))
         | RecallMemory \<Rightarrow> then_do (call (sv_recall sv owner (as_string env (nullish (map_of params ''query'') (Some (JStr (ss_prompt st)))))
               (case nullish (map_of params ''ragLimit'') None of None \<Rightarrow> JNum 5 | Some v \<Rightarrow> v)
               (case nullish (map_of params ''memoryLimit'') None of None \<Rightarrow> JNum 8 | Some v \<Rightarrow> v))) (\<lambda>r. give (recall_view r))
         | TransitionEntity \<Rightarrow> transition_step env owner p st params
         | LlmGenerate \<Rightarrow> call (sv_generate sv owner (case map_of params ''instruction'' of Some (JStr x) \<Rightarrow> x | _ \<Rightarrow> or_title prompt st)
             (generate_context p st task results)))"

end
