(* ===== verification/Sop.thy ===== *)
theory Sop
  imports SopSteps
begin

text \<open>
  The executor of procedures (apps/server/src/engine/sop-executor.ts): the checks before the first write,
  the loop over the steps, and the completion; with the part of \<open>AgentService\<close> that starts a task of
  kind \<open>sop\<close> (engine/service.ts, \<open>execute\<close>) and that ends it (\<open>finish\<close>).  \<open>sop_handler\<close> makes it a
  handler of the worker's \<open>worker_run\<close>.

  The loop increments its index with every pass that does not leave it, so it is a recursion over the
  steps from the task's index on.
\<close>

section \<open>The kernel turn of a run\<close>

definition sop_context_doc :: "string \<Rightarrow> string \<Rightarrow> json \<Rightarrow> json" where
  "sop_context_doc tenant owner task = JObj [(''tenantId'', JStr tenant), (''owner'', JStr owner), (''role'', JStr ''agent''),
     (''requestId'', JStr (''sop:'' @ jid task)), (''correlationId'', JStr (jid task))]"

definition open_sop_turn :: "'s sop_env \<Rightarrow> string \<Rightarrow> sop \<Rightarrow> json \<Rightarrow> 's \<Rightarrow> (kctx \<times> string) option \<times> 's" where
  "open_sop_turn env owner p task s = (case so_kernel env of
     None \<Rightarrow> (None, s)
   | Some open_turn \<Rightarrow> (case so_tenant env owner s of
       Inl _ \<Rightarrow> (None, s)
     | Inr tenant \<Rightarrow> (case parse_context (sop_context_doc tenant owner task) of
         Inl _ \<Rightarrow> (None, s)
       | Inr cx \<Rightarrow> (case open_turn cx (''sop.'' @ sp_id p) s of
           (Inl _, s') \<Rightarrow> (None, s')
         | (Inr turn, s') \<Rightarrow> (Some (cx, turn), s')))))"

definition read_only_tools :: "sop_tool list" where
  "read_only_tools = [ReadMailThread, ReadWorkspace, ReadWeb, InspectPdf, RecallMemory, QueryBusiness]"

definition outcome_text :: "'s sop_env \<Rightarrow> json \<Rightarrow> string" where
  "outcome_text env v = (case v of JStr x \<Rightarrow> x | _ \<Rightarrow> take 500 (tx_json (so_texts env) v))"

definition write_sop_thought :: "'s sop_env \<Rightarrow> (kctx \<times> string) option \<Rightarrow> sop_step \<Rightarrow> json \<Rightarrow> ('s, unit) act" where
  "write_sop_thought env turn st v u = (case turn of None \<Rightarrow> (Inr (), u)
     | Some (cx, t) \<Rightarrow> if so_kernel env = None then (Inr (), u)
         else (Inr (), u\<lparr> su_store := so_thought env cx t (ss_tool st \<in> set read_only_tools)
           (take 2000 (ss_title st @ '': '' @ outcome_text env v)) (su_store u) \<rparr>))"

section \<open>Admission\<close>

definition number_of :: "json option \<Rightarrow> nat" where
  "number_of v = (case jnum v of None \<Rightarrow> 0 | Some r \<Rightarrow> nat \<lfloor>r\<rfloor>)"

definition state_index :: "json \<Rightarrow> nat" where
  "state_index task = number_of (map_of (task_state task) ''sopStepIndex'')"

definition sop_id_of :: "'s sop_env \<Rightarrow> json \<Rightarrow> string" where
  "sop_id_of env task = as_string env (nullish (map_of (task_state task) ''sopId'')
     (nullish (map_of (input_of task) ''sopId'') (Some (JStr []))))"

definition assigned_sops :: "json \<Rightarrow> json list" where
  "assigned_sops user = (case jget user ''data'' of None \<Rightarrow> [] | Some d \<Rightarrow>
     (case jget d ''setup'' of None \<Rightarrow> [] | Some st \<Rightarrow> jarr (jget st ''sopIds'')))"

definition is_admin :: "json \<Rightarrow> bool" where
  "is_admin user \<longleftrightarrow> (case jget user ''data'' of None \<Rightarrow> False | Some d \<Rightarrow> jtext d ''role'' = Some ''admin'')"

definition may_run_sop :: "'s sop_env \<Rightarrow> string \<Rightarrow> sop \<Rightarrow> 's \<Rightarrow> bool" where
  "may_run_sop env owner p s = (case s_get (so_store env) ''system'' ''users'' owner s of None \<Rightarrow> True
     | Some user \<Rightarrow> is_admin user \<or> assigned_sops user = [] \<or> JStr (sp_id p) \<in> set (assigned_sops user))"

definition unknown_tools :: "'s sop_env \<Rightarrow> sop \<Rightarrow> 's \<Rightarrow> string list" where
  "unknown_tools env p s = (case so_capabilities env s of Inl _ \<Rightarrow> []
     | Inr ids \<Rightarrow> filter (\<lambda>t. t \<notin> set ids) (map (\<lambda>st. tool_text (ss_tool st)) (sp_steps p)))"

definition stack_of :: "sop \<Rightarrow> json \<Rightarrow> json list" where
  "stack_of p task = (case nullish (map_of (task_state task) ''sopStack'') None of None \<Rightarrow> [JStr (sp_id p)] | Some v \<Rightarrow> jarr (Some v))"

definition pinned_version :: "json \<Rightarrow> json option" where
  "pinned_version task = map_of (task_state task) ''sopVersion''"

definition admission_error :: "'s sop_env \<Rightarrow> string \<Rightarrow> sop \<Rightarrow> json \<Rightarrow> 's \<Rightarrow> err option" where
  "admission_error env owner p task s =
     (if \<not> may_run_sop env owner p s then Some (AppError ''Tu cuenta no tiene acceso a este SOP. Pidele al admin que te lo asigne.'' 403)
      else if \<not> sp_active p then Some (AppError (''SOP is inactive: '' @ sp_name p) 409)
      else if pinned_version task \<noteq> None \<and> pinned_version task \<noteq> Some (sp_updated p)
      then Some (AppError (''SOP was edited while this task was in flight (started with '' @ as_string env (pinned_version task)
             @ '', now '' @ as_string env (Some (sp_updated p)) @ ''). Start a new task.'') 409)
      else if unknown_tools env p s \<noteq> []
      then Some (AppError (''SOP '' @ sp_id p @ '' references unregistered capabilities: '' @ join_with '', '' (unknown_tools env p s)) 422)
      else if sp_allowed p = [] then Some (AppError (''SOP '' @ sp_id p @ '' has an empty allowedTools allowlist'') 422)
      else (case find (\<lambda>st. ss_tool st \<notin> set (sp_allowed p)) (sp_steps p) of
          Some st \<Rightarrow> Some (AppError (''SOP '' @ sp_id p @ '' does not allow tool '' @ tool_text (ss_tool st)) 422)
        | None \<Rightarrow> if length (stack_of p task) > 4 then Some (AppError ''Nested SOP depth limit exceeded'' 409)
          else if \<not> distinct (stack_of p task)
          then Some (AppError (''SOP cycle detected: '' @ join_with '' -> '' (map (\<lambda>v. as_string env (Some v)) (stack_of p task))
                 @ '' -> '' @ sp_id p) 409)
          else None))"

definition load_sop :: "'s sop_env \<Rightarrow> string \<Rightarrow> json \<Rightarrow> ('s, sop) act" where
  "load_sop env owner task u = (let i = sop_id_of env task in
     if i = [] then fail ''SOP task is missing state.sopId'' 422 u
     else (case s_get (so_store env) owner ''sops'' i (su_store u) of
         None \<Rightarrow> fail (''SOP not found: '' @ i) 404 u
       | Some raw \<Rightarrow> (case read_sop (so_now env) raw of
           None \<Rightarrow> throw (Threw zod_error) u
         | Some p \<Rightarrow> give p u)))"

definition admit :: "'s sop_env \<Rightarrow> string \<Rightarrow> json \<Rightarrow> ('s, sop \<times> (kctx \<times> string) option) act" where
  "admit env owner task = then_do (load_sop env owner task) (\<lambda>p u.
     case open_sop_turn env owner p task (su_store u) of (turn, s) \<Rightarrow>
       (case admission_error env owner p task s of
          Some e \<Rightarrow> (Inl (Threw e), u\<lparr> su_store := s \<rparr>)
        | None \<Rightarrow> (Inr (p, turn), u\<lparr> su_store := s \<rparr>)))"

section \<open>Skills\<close>

definition id_char :: "char \<Rightarrow> bool" where
  "id_char c \<longleftrightarrow> (let n = of_char c :: nat in (48 \<le> n \<and> n \<le> 57) \<or> (65 \<le> n \<and> n \<le> 90) \<or> (97 \<le> n \<and> n \<le> 122) \<or> n = 95 \<or> n = 45)"

definition requirement_char :: "char \<Rightarrow> bool" where
  "requirement_char c \<longleftrightarrow> (id_char c \<or> c \<in> set ''.[]=<>!~,'')"

fun copy_files :: "'s sop_env \<Rightarrow> string \<Rightarrow> string \<Rightarrow> (string \<times> string) list \<Rightarrow> ('s, unit) act" where
  "copy_files env owner i [] = give ()"
| "copy_files env owner i ((path, content) # fs) =
     (let target = ''/workspace/skills/'' @ i @ ''/'' @ path;
          parent = rev (drop 1 (dropWhile (\<lambda>c. c \<noteq> CHR ''/'') (rev target)))
      in then_do (call (sv_mkdir (so_services env) owner parent)) (\<lambda>_.
         then_do (call (sv_write (so_services env) owner target content)) (\<lambda>_. copy_files env owner i fs)))"

definition skill_requirements :: "json \<Rightarrow> string list" where
  "skill_requirements skill = filter (\<lambda>r. trim r \<noteq> []) (List.map_filter (\<lambda>v. jstr (Some v)) (jarr (jget skill ''requirements'')))"

definition install_requirements :: "'s sop_env \<Rightarrow> string \<Rightarrow> string \<Rightarrow> json \<Rightarrow> ('s, unit) act" where
  "install_requirements env owner i skill =
     (let rs = skill_requirements skill; quoted = join_with '' '' (map (\<lambda>r. [CHR 0x27] @ r @ [CHR 0x27]) rs)
      in if rs = [] then give ()
         else (case find (\<lambda>r. \<not> list_all requirement_char r) rs of
           Some bad \<Rightarrow> fail (''Skill '' @ i @ '' has an invalid requirement name: '' @ bad) 422
         | None \<Rightarrow> then_do (call (sv_command (so_services env) owner
               (''python3 -m pip install --user --no-input --no-index --find-links=/opt/wheels '' @ quoted) []
               (''skill-pip:'' @ i @ '':'' @ join_with '','' rs))) (\<lambda>install.
             if jstatus install \<noteq> Some ''succeeded''
             then fail (''Skill '' @ i @ '' requires packages that are not bundled in the sandbox image ('' @ join_with '', '' rs
                    @ ''). Add the matching .whl files to apps/computer/wheels/ and rebuild. stderr: ''
                    @ take 400 (text_or_empty install ''stderr'')) 422
             else ctx_event env ''observation'' (''Skill dependencies installed: '' @ text_or_empty skill ''name'')
                    (nat_text (length rs) @ '' package(s) installed from offline wheels''))))"

definition ensure_skill :: "'s sop_env \<Rightarrow> string \<Rightarrow> string \<Rightarrow> ('s, unit) act" where
  "ensure_skill env owner i =
     (if i = [] \<or> \<not> list_all id_char i then fail (''Invalid skill id: '' @ i) 422
      else then_do (reading (s_get (so_store env) owner ''skills'' i)) (\<lambda>found. case found of
        None \<Rightarrow> fail (''Skill not found: '' @ i) 404
      | Some skill \<Rightarrow> if jget skill ''active'' = Some (JBool False) then fail (''Skill inactive: '' @ i) 409
          else then_do (call (sv_start (so_services env) owner)) (\<lambda>_. case sv_skill_files (so_services env) i of
            Inl e \<Rightarrow> throw (Threw e)
          | Inr None \<Rightarrow> ctx_event env ''observation'' (''Skill ready: '' @ text_or_empty skill ''name'')
              ''Using the existing sandbox skill workspace''
          | Inr (Some files) \<Rightarrow> then_do (copy_files env owner i files) (\<lambda>_.
              then_do (ctx_event env ''observation'' (''Skill installed: '' @ text_or_empty skill ''name'')
                (nat_text (length files) @ '' file(s) copied into /workspace/skills/'' @ i)) (\<lambda>_.
              install_requirements env owner i skill)))))"

section \<open>One pass of the loop\<close>

definition mark_plan :: "nat \<Rightarrow> (string \<times> json) list \<Rightarrow> json \<Rightarrow> json" where
  "mark_plan i patch task = JArr (map (\<lambda>(k, p). if k = i then jmerge p (JObj patch) else p)
     (enumerate 0 (jarr (jget task ''plan''))))"

definition is_falsy :: "string \<Rightarrow> bool" where
  "is_falsy raw \<longleftrightarrow> map lower_char (trim raw) \<in> {[], ''0'', ''false''}"

definition step_payload :: "sop \<Rightarrow> sop_step \<Rightarrow> nat \<Rightarrow> (string \<times> json) list" where
  "step_payload p st i = [(''sopId'', JStr (sp_id p)), (''stepId'', JStr (ss_id st)), (''index'', JNum (of_nat i))]"

definition titled_payload :: "sop \<Rightarrow> sop_step \<Rightarrow> nat \<Rightarrow> (string \<times> json) list" where
  "titled_payload p st i = step_payload p st i @ [(''title'', JStr (take 200 (ss_title st)))]"

definition step_key :: "sop \<Rightarrow> sop_step \<Rightarrow> nat \<Rightarrow> string" where
  "step_key p st i = ''sop.step_started:'' @ sp_id p @ '':'' @ ss_id st @ '':'' @ nat_text i"

definition begin_step :: "'s sop_env \<Rightarrow> sop \<Rightarrow> nat \<Rightarrow> sop_step \<Rightarrow> json \<Rightarrow> ('s, json) act" where
  "begin_step env p i st task =
     then_do (ctx_guard env) (\<lambda>_.
     then_do (ctx_checkpoint env [(''plan'', mark_plan i [(''status'', JStr ''running'')] task),
       (''state'', state_with task [(''sopStepIndex'', JNum (of_nat i))] [])]) (\<lambda>t.
     then_do (ctx_event env ''step'' (''SOP '' @ nat_text (i + 1) @ ''/'' @ nat_text (length (sp_steps p)) @ '': '' @ ss_title st) []) (\<lambda>_.
     then_do (log_bus (if so_bus env then [BusItem ''sop.step_started'' (JObj (titled_payload p st i)) (Some (step_key p st i))] else [])) (\<lambda>_.
     give t))))"

definition next_state :: "nat \<Rightarrow> fields \<Rightarrow> json \<Rightarrow> string list \<Rightarrow> json" where
  "next_state i results task dels = state_with task [(''sopStepIndex'', JNum (of_nat (i + 1))), (''sopResults'', JObj results)] dels"

definition pass_step :: "'s sop_env \<Rightarrow> nat \<Rightarrow> string \<Rightarrow> fields \<Rightarrow> json \<Rightarrow> string list \<Rightarrow> ('s, json) act" where
  "pass_step env i detail results task dels = ctx_checkpoint env
     [(''plan'', mark_plan i [(''status'', JStr ''succeeded''), (''detail'', JStr detail)] task),
      (''state'', next_state i results task dels)]"

datatype step_end = Passed json fields | Waits fields

definition skipped_when :: "'s sop_env \<Rightarrow> json \<Rightarrow> fields \<Rightarrow> sop_step \<Rightarrow> bool" where
  "skipped_when env task results st = (case ss_when st of None \<Rightarrow> False
     | Some w \<Rightarrow> trim w \<noteq> [] \<and> is_falsy (interpolate (so_texts env) task results w))"

definition skip_step :: "'s sop_env \<Rightarrow> sop \<Rightarrow> nat \<Rightarrow> sop_step \<Rightarrow> json \<Rightarrow> fields \<Rightarrow> ('s, step_end) act" where
  "skip_step env p i st task results =
     (let why = ''when: '' @ text_or [] (ss_when st);
          results' = AList.update (ss_id st) (JObj [(''skipped'', JBool True), (''reason'', JStr why)]) results
      in then_do (ctx_bus env ''sop.step_skipped'' (titled_payload p st i @ [(''reason'', JStr (take 500 why))])) (\<lambda>_.
         then_do (pass_step env i (''Skipped ('' @ why @ '')'') results' task []) (\<lambda>t. give (Passed t results'))))"

definition consuming :: "json \<Rightarrow> sop_step \<Rightarrow> bool" where
  "consuming task st \<longleftrightarrow> map_of (task_state task) ''approvalResult'' \<noteq> None
     \<and> map_of (task_state task) ''pendingApprovalStepId'' = Some (JStr (ss_id st)) \<and> ss_tool st \<in> {PrepareEmail, PrepareEvent}"

definition approval_keys :: "bool \<Rightarrow> string list" where
  "approval_keys c = (if c then [''approvalResult'', ''pendingApprovalStepId''] else [])"

definition step_outcome :: "'s sop_env \<Rightarrow> string \<Rightarrow> sop \<Rightarrow> sop_step \<Rightarrow> json \<Rightarrow> fields \<Rightarrow> ('s, json) act" where
  "step_outcome env owner p st task results = (case (consuming task st, map_of (task_state task) ''approvalResult'') of
     (True, Some v) \<Rightarrow> give v
   | _ \<Rightarrow> run_step env owner p st task results)"

definition failed_step :: "'s sop_env \<Rightarrow> sop \<Rightarrow> nat \<Rightarrow> sop_step \<Rightarrow> json \<Rightarrow> fields \<Rightarrow> sop_error \<Rightarrow> ('s, step_end) act" where
  "failed_step env p i st task results e u =
     (case e of
        LeaseLost \<Rightarrow> (Inl LeaseLost, u)
      | Threw x \<Rightarrow> if rn_aborted (su_local u) then (Inl (Threw x), u)
         else then_do (ctx_bus env ''sop.failed'' (step_payload p st i @ [(''error'', JStr (take 2000 (err_text x)))])) (\<lambda>_.
           if ss_required st then throw (Threw x)
           else (let results' = AList.update (ss_id st) (JObj [(''skipped'', JBool True), (''error'', JStr (take 500 (err_text x)))]) results in
             then_do (ctx_event env ''step'' (''SOP step skipped: '' @ ss_title st) (take 500 (err_text x))) (\<lambda>_.
             then_do (ctx_bus env ''sop.step_skipped'' (titled_payload p st i
               @ [(''reason'', JStr (take 500 (''required:false: '' @ err_text x)))])) (\<lambda>_.
             then_do (pass_step env i (''Skipped (required: false): '' @ take 200 (err_text x)) results' task (approval_keys (consuming task st)))
               (\<lambda>t. give (Passed t results')))))) u)"

definition wait_step :: "'s sop_env \<Rightarrow> nat \<Rightarrow> sop_step \<Rightarrow> json \<Rightarrow> fields \<Rightarrow> json \<Rightarrow> ('s, step_end) act" where
  "wait_step env i st task results v =
     (let input = (jstatus v = Some ''waiting_input'');
          key = (if input then ''pendingInputStepId'' else ''pendingApprovalStepId'');
          plan = mark_plan i [(''status'', JStr ''waiting'')] task;
          waiting = (if input
            then [(''status'', JStr ''waiting_input''),
                  (''question'', JStr (as_string env (nullish (jget v ''question'') (Some (JStr (ss_prompt st)))))), (''plan'', plan)]
            else [(''status'', JStr ''waiting_approval''),
                  (''actionId'', JStr (as_string env (nullish (jget v ''actionId'') (nullish (jget task ''actionId'') (Some (JStr [])))))),
                  (''plan'', plan)])
      in then_do (ctx_checkpoint env [(''state'', state_with task
             ([(''sopStepIndex'', JNum (of_nat i)), (''sopResults'', JObj results)] @ undef_field key (jget v ''stepId''))
             ((if jget v ''stepId'' = None then [key] else []) @ approval_keys (consuming task st)))]) (\<lambda>_.
         give (Waits waiting)))"

definition is_waiting :: "json \<Rightarrow> bool" where
  "is_waiting v \<longleftrightarrow> jstatus v \<in> {Some ''waiting_input'', Some ''waiting_approval''}"

definition complete_step :: "'s sop_env \<Rightarrow> sop \<Rightarrow> (kctx \<times> string) option \<Rightarrow> nat \<Rightarrow> sop_step \<Rightarrow> json \<Rightarrow> fields \<Rightarrow> json \<Rightarrow> ('s, step_end) act" where
  "complete_step env p turn i st task results v =
     (let results' = AList.update (ss_id st) v results;
          answered = (if jget v ''consumed'' = Some (JBool True) then [''answer'', ''pendingInputStepId''] else []);
          detail = (case v of JStr x \<Rightarrow> take 500 x | _ \<Rightarrow> take 500 (tx_json (so_texts env) v))
      in then_do (write_sop_thought env turn st v) (\<lambda>_.
         then_do (ctx_bus env ''sop.step_completed'' (titled_payload p st i)) (\<lambda>_.
         then_do (pass_step env i detail results' task (answered @ approval_keys (consuming task st))) (\<lambda>t.
         give (Passed t results')))))"

definition settle_step :: "'s sop_env \<Rightarrow> sop \<Rightarrow> (kctx \<times> string) option \<Rightarrow> nat \<Rightarrow> sop_step \<Rightarrow> json \<Rightarrow> fields \<Rightarrow> json \<Rightarrow> ('s, step_end) act" where
  "settle_step env p turn i st task results v =
     (if is_waiting v then wait_step env i st task results v else complete_step env p turn i st task results v)"

definition perform_step :: "'s sop_env \<Rightarrow> string \<Rightarrow> sop \<Rightarrow> (kctx \<times> string) option \<Rightarrow> nat \<Rightarrow> sop_step \<Rightarrow> json \<Rightarrow> fields \<Rightarrow> ('s, step_end) act" where
  "perform_step env owner p turn i st task results u =
     (case step_outcome env owner p st task results u of
        (Inl e, u') \<Rightarrow> failed_step env p i st task results e u'
      | (Inr v, u') \<Rightarrow> settle_step env p turn i st task results v u')"

definition step_pass :: "'s sop_env \<Rightarrow> string \<Rightarrow> sop \<Rightarrow> (kctx \<times> string) option \<Rightarrow> nat \<Rightarrow> sop_step \<Rightarrow> json \<Rightarrow> fields \<Rightarrow> ('s, step_end) act" where
  "step_pass env owner p turn i st task results = then_do (begin_step env p i st task) (\<lambda>t.
     if skipped_when env t results st then skip_step env p i st t results
     else perform_step env owner p turn i st t results)"

fun sop_loop :: "'s sop_env \<Rightarrow> string \<Rightarrow> sop \<Rightarrow> (kctx \<times> string) option \<Rightarrow> nat \<Rightarrow> sop_step list \<Rightarrow> json \<Rightarrow> fields \<Rightarrow> ('s, step_end) act" where
  "sop_loop env owner p turn i [] task results = give (Passed task results)"
| "sop_loop env owner p turn i (st # sts) task results =
     then_do (step_pass env owner p turn i st task results) (\<lambda>r. case r of
       Waits w \<Rightarrow> give (Waits w)
     | Passed t results' \<Rightarrow> sop_loop env owner p turn (i + 1) sts t results')"

section \<open>The end of a task\<close>

fun materialize :: "'s sop_env \<Rightarrow> string \<Rightarrow> json \<Rightarrow> string list \<Rightarrow> 's sop_run \<Rightarrow> 's sop_run" where
  "materialize env owner task [] u = u"
| "materialize env owner task (i # is) u = (case s_get (so_store env) owner ''agent-artifacts'' i (su_store u) of
     None \<Rightarrow> materialize env owner task is u
   | Some a \<Rightarrow> if get_entity (so_store env) owner (''artifact:'' @ jid a) (su_store u) \<noteq> None then materialize env owner task is u
       else (case create_entity (so_store env) (so_graph env) (\<lambda>s. s) owner
              \<lparr> ci_id = Some (''artifact:'' @ jid a), ci_type = ''artifact'', ci_name = take 300 (text_or_empty a ''title''),
                ci_status = Some ''completed'', ci_props = copy_field ''kind'' ''kind'' a
                  @ [(''summary'', JStr (take 2000 (text_or_empty a ''summary'')))] @ copy_field ''taskId'' ''taskId'' a,
                ci_actor = ''task:'' @ jid task, ci_source = ''task.finish'', ci_confidence = None \<rparr> (su_store u) of
           (Inl _, evs, s') \<Rightarrow> u\<lparr> su_store := s', su_bus := su_bus u @ map GraphItem evs \<rparr>
         | (Inr _, evs, s') \<Rightarrow> materialize env owner task is (u\<lparr> su_store := s', su_bus := su_bus u @ map GraphItem evs \<rparr>)))"

definition service_finish :: "'s sop_env \<Rightarrow> string \<Rightarrow> json \<Rightarrow> string \<Rightarrow> ('s, fields) act" where
  "service_finish env owner task result =
     then_do (ctx_guard env) (\<lambda>_.
     if jarr (jget task ''artifactIds'') = [] \<and> jarr (jget task ''evidence'') = []
     then throw (Threw (JsError ''Cannot mark a task succeeded without an artifact or evidence''))
     else then_do (\<lambda>u. (Inr (), materialize env owner task (List.map_filter (\<lambda>v. jstr (Some v)) (jarr (jget task ''artifactIds''))) u)) (\<lambda>_.
     then_do (ctx_event env ''result'' ''Work completed'' result) (\<lambda>_.
     give [(''status'', JStr ''succeeded''), (''result'', JStr result),
       (''plan'', JArr (map (\<lambda>q. jmerge q (JObj [(''status'', JStr ''succeeded'')])) (jarr (jget task ''plan''))))])))"

section \<open>Execution\<close>

definition first_plan :: "sop \<Rightarrow> json" where
  "first_plan p = JArr (map (\<lambda>st. JObj [(''id'', JStr (ss_id st)), (''title'', JStr (ss_title st)), (''status'', JStr ''pending'')]) (sp_steps p))"

definition first_results :: "json \<Rightarrow> fields" where
  "first_results task = (if state_index task = 0 then [] else fields_of (map_of (task_state task) ''sopResults''))"

definition start_patch :: "sop \<Rightarrow> json \<Rightarrow> (string \<times> json) list" where
  "start_patch p task = [(''plan'', if jarr (jget task ''plan'') = [] then first_plan p else JArr (jarr (jget task ''plan''))),
     (''state'', state_with task [(''sopId'', JStr (sp_id p)),
        (''sopVersion'', case nullish (pinned_version task) None of None \<Rightarrow> sp_updated p | Some v \<Rightarrow> v),
        (''sopStepIndex'', JNum (of_nat (state_index task))), (''sopResults'', JObj (first_results task)),
        (''sopStack'', JArr (stack_of p task))] [])]"

definition evidence_of :: "'s sop_env \<Rightarrow> sop \<Rightarrow> json \<Rightarrow> json" where
  "evidence_of env p task = JObj [(''id'', JStr (''sop:'' @ sp_id p @ '':'' @ jid task)), (''kind'', JStr ''user''),
     (''title'', JStr (''SOP: '' @ sp_name p)),
     (''excerpt'', JStr (''Completed '' @ nat_text (length (sp_steps p)) @ '' step(s) at '' @ tx_date (so_texts env) (so_now env) @ ''.''))]"

definition quoted :: "string \<Rightarrow> string" where
  "quoted x = [CHR 0x22] @ x @ [CHR 0x22]"

definition sop_facts :: "sop \<Rightarrow> string list" where
  "sop_facts p = (''SOP '' @ quoted (sp_name p) @ '' ('' @ sp_id p @ '') completed successfully.'')
     # map (\<lambda>(i, st). ''Step '' @ nat_text (i + 1) @ '' '' @ quoted (ss_title st) @ '' (tool: '' @ tool_text (ss_tool st) @ '').'')
         (enumerate 0 (sp_steps p))"

definition complete_sop :: "'s sop_env \<Rightarrow> string \<Rightarrow> sop \<Rightarrow> json \<Rightarrow> ('s, fields) act" where
  "complete_sop env owner p task =
     then_do (ctx_checkpoint env [(''evidence'', JArr (jarr (jget task ''evidence'') @ [evidence_of env p task]))]) (\<lambda>t.
     then_do (call (sv_learn (so_services env) owner t (sop_facts p))) (\<lambda>_.
     then_do (catching (call (sv_ingest (so_services env) owner (jid t))) (\<lambda>_. give JNull)) (\<lambda>_.
     service_finish env owner t (''SOP '' @ quoted (sp_name p) @ '' completed '' @ nat_text (length (sp_steps p)) @ '' step(s).''))))"

definition sop_execute :: "'s sop_env \<Rightarrow> string \<Rightarrow> json \<Rightarrow> ('s, fields) act" where
  "sop_execute env owner task = then_do (admit env owner task) (\<lambda>(p, turn).
     then_do (ctx_checkpoint env (start_patch p task)) (\<lambda>t.
     then_do (case sp_skill p of None \<Rightarrow> give () | Some i \<Rightarrow> if i = [] then give () else ensure_skill env owner i) (\<lambda>_.
     then_do (sop_loop env owner p turn (state_index t) (drop (state_index t) (sp_steps p)) t (first_results task)) (\<lambda>r. case r of
       Waits w \<Rightarrow> give w
     | Passed t' _ \<Rightarrow> complete_sop env owner p t'))))"

section \<open>As a handler of the worker\<close>

definition linked_action :: "'s sop_env \<Rightarrow> string \<Rightarrow> json \<Rightarrow> ('s, json + fields) act" where
  "linked_action env owner task = (case truthy_text task ''actionId'' of
     None \<Rightarrow> give (Inl task)
   | Some i \<Rightarrow> then_do (reading (s_get (so_store env) owner ''actions'' i)) (\<lambda>found. case found of
       None \<Rightarrow> throw (Threw (JsError ''The linked review could not be found''))
     | Some a \<Rightarrow>
        if jstatus a = Some ''succeeded''
        then then_do (ctx_event env ''result'' ''Approved action completed'' (text_or_empty a ''result'')) (\<lambda>_.
          then_do (ctx_checkpoint env [(''state'', state_with task (undef_field ''approvalResult'' (jget a ''result''))
             (if jget a ''result'' = None then [''approvalResult''] else [])), (''actionId'', JNull)]) (\<lambda>t. give (Inl t)))
        else if jstatus a \<in> {Some ''awaiting_review'', Some ''executing''}
        then give (Inr [(''status'', JStr ''waiting_approval'')])
        else throw (Threw (JsError (''Reviewed action '' @ text_or_empty a ''status'' @ '': ''
               @ text_or ''No further action was taken'' (jtext a ''error''))))))"

definition execute_sop_task :: "'s sop_env \<Rightarrow> string \<Rightarrow> json \<Rightarrow> ('s, fields) act" where
  "execute_sop_task env owner task =
     then_do (ctx_event env ''status'' (if jnum (jget task ''attempts'') = Some 1 then ''Started working'' else ''Resumed work'')
       (text_or_empty task ''prompt'')) (\<lambda>_.
     then_do (linked_action env owner task) (\<lambda>r. case r of
       Inr waiting \<Rightarrow> give waiting
     | Inl t \<Rightarrow> sop_execute env owner t))"

definition sop_handler :: "'s sop_env \<Rightarrow> string \<Rightarrow> 's handler" where
  "sop_handler env owner task rn s =
     (case execute_sop_task env owner task \<lparr> su_store = s, su_local = rn, su_task = task, su_bus = [], su_draws = 0 \<rparr> of
        (r, u) \<Rightarrow> (case r of Inl LeaseLost \<Rightarrow> Inl LostLease | Inl (Threw e) \<Rightarrow> Inl (HandlerFailed (err_text e)) | Inr fs \<Rightarrow> Inr fs,
          su_task u, su_local u, su_store u))"

end
