(* ===== verification/SopLaws.thy ===== *)
theory SopLaws
  imports Sop
begin

text \<open>
  Laws of the executor's building blocks: what a call can add to the bus (\<open>logs\<close>, with one rule per
  combinator, collected in \<open>logs_rules\<close>), and what a checkpoint of the task context leaves in the store,
  for any store that keeps the laws of \<open>record_store\<close>.
\<close>

named_theorems logs_rules \<open>what a call may add to the bus\<close>

section \<open>The run and its row\<close>

abbreviation run_owner :: "'s sop_run \<Rightarrow> string" where "run_owner u \<equiv> rn_owner (su_local u)"
abbreviation run_task :: "'s sop_run \<Rightarrow> string" where "run_task u \<equiv> rn_task (su_local u)"

definition own_row :: "'s store \<Rightarrow> 's sop_run \<Rightarrow> json option" where
  "own_row S u = s_get S (run_owner u) ''tasks'' (run_task u) (su_store u)"

text \<open>The run still has its owner, task and lease.\<close>

definition same_run :: "'s sop_run \<Rightarrow> 's sop_run \<Rightarrow> bool" where
  "same_run u u' \<longleftrightarrow> run_owner u' = run_owner u \<and> run_task u' = run_task u \<and> rn_lease (su_local u') = rn_lease (su_local u)
     \<and> rn_aborted (su_local u') = rn_aborted (su_local u)"

lemma same_run_refl [simp]: "same_run u u"
  by (simp add: same_run_def)

lemma same_run_trans: "\<lbrakk> same_run u v; same_run v w \<rbrakk> \<Longrightarrow> same_run u w"
  by (simp add: same_run_def)

lemma guard_keeps: "guard S wall ms rn s = (ok, rn') \<Longrightarrow>
    rn_owner rn' = rn_owner rn \<and> rn_task rn' = rn_task rn \<and> rn_lease rn' = rn_lease rn \<and> rn_aborted rn' = rn_aborted rn"
  by (auto simp: guard_def split: if_splits)

lemma run_event_keeps: "run_event S sh c w ms now i st k t d rn s = (ok, rn', s') \<Longrightarrow>
    rn_owner rn' = rn_owner rn \<and> rn_task rn' = rn_task rn \<and> rn_lease rn' = rn_lease rn \<and> rn_aborted rn' = rn_aborted rn"
  by (auto simp: run_event_def write_event_def Let_def dest!: guard_keeps split: prod.splits bool.splits option.splits if_splits)

section \<open>What a call offers to the bus\<close>

text \<open>A call only adds to the bus, items for which \<open>Q\<close> holds, and stays within its run.\<close>

definition logs :: "(bus_item \<Rightarrow> bool) \<Rightarrow> ('s, 'a) act \<Rightarrow> bool" where
  "logs Q m \<longleftrightarrow> (\<forall>u r u'. m u = (r, u') \<longrightarrow> (\<exists>items. su_bus u' = su_bus u @ items \<and> list_all Q items) \<and> same_run u u')"

lemma logsI:
  assumes "\<And>u r u'. m u = (r, u') \<Longrightarrow> \<exists>items. su_bus u' = su_bus u @ items \<and> list_all Q items"
    "\<And>u r u'. m u = (r, u') \<Longrightarrow> same_run u u'"
  shows "logs Q m"
  using assms by (simp add: logs_def)

lemma logsE:
  assumes "logs Q m" "m u = (r, u')"
  obtains items where "su_bus u' = su_bus u @ items" "list_all Q items" "same_run u u'"
  using assms unfolding logs_def by blast

lemma logs_silent:
  assumes "\<And>u. su_bus (snd (m u)) = su_bus u" "\<And>u. same_run u (snd (m u))"
  shows "logs Q m"
proof (rule logsI)
  fix u r u' assume "m u = (r, u')"
  then show "\<exists>items. su_bus u' = su_bus u @ items \<and> list_all Q items" "same_run u u'"
    using assms [of u] by (auto intro: exI [of _ "[]"])
qed

lemma logs_compose:
  assumes "logs Q m" "m u = (r, v)" "logs Q n" "n v = (r', w)"
  shows "(\<exists>items. su_bus w = su_bus u @ items \<and> list_all Q items) \<and> same_run u w"
proof -
  obtain xs where xs: "su_bus v = su_bus u @ xs" "list_all Q xs" "same_run u v" using assms(1,2) by (rule logsE)
  obtain ys where ys: "su_bus w = su_bus v @ ys" "list_all Q ys" "same_run v w" using assms(3,4) by (rule logsE)
  show ?thesis using xs ys same_run_trans [OF xs(3) ys(3)] by (auto intro!: exI [of _ "xs @ ys"])
qed

text \<open>A call that continues another one, whatever the way it takes the outcome.\<close>

lemma logs_seq:
  assumes "logs Q m" "\<And>x. logs Q (f x)" "\<And>u. c u = (case m u of (x, v) \<Rightarrow> f x v)"
  shows "logs Q c"
  unfolding logs_def
proof (intro allI impI)
  fix u r u' assume run: "c u = (r, u')"
  obtain x v where m: "m u = (x, v)" by force
  then have f: "f x v = (r, u')" using run assms(3) by simp
  show "(\<exists>items. su_bus u' = su_bus u @ items \<and> list_all Q items) \<and> same_run u u'"
    by (rule logs_compose [OF assms(1) m assms(2) f])
qed

lemma logs_give [logs_rules]: "logs Q (give x)" "logs Q (throw e)" "logs Q (fail m n)"
  by (rule logs_silent; simp add: give_def throw_def fail_def)+

lemma logs_cases [logs_rules]:
  "\<lbrakk> c \<Longrightarrow> logs Q a; \<not> c \<Longrightarrow> logs Q b \<rbrakk> \<Longrightarrow> logs Q (if c then a else b)"
  "\<lbrakk> v = None \<Longrightarrow> logs Q n; \<And>x. v = Some x \<Longrightarrow> logs Q (f x) \<rbrakk> \<Longrightarrow> logs Q (case v of None \<Rightarrow> n | Some x \<Rightarrow> f x)"
  "\<lbrakk> \<And>x. w = Inl x \<Longrightarrow> logs Q (g x); \<And>x. w = Inr x \<Longrightarrow> logs Q (h x) \<rbrakk> \<Longrightarrow> logs Q (case w of Inl x \<Rightarrow> g x | Inr x \<Rightarrow> h x)"
  "(\<And>x y. q = (x, y) \<Longrightarrow> logs Q (k x y)) \<Longrightarrow> logs Q (case q of (x, y) \<Rightarrow> k x y)"
  by (simp_all split: option.split sum.split prod.split)

lemma logs_then [logs_rules]:
  assumes "logs Q m" "\<And>x. logs Q (f x)"
  shows "logs Q (then_do m f)"
proof (rule logs_seq [OF assms(1), where f = "\<lambda>x. case x of Inl e \<Rightarrow> throw e | Inr y \<Rightarrow> f y"])
  show "logs Q (case x of Inl e \<Rightarrow> throw e | Inr y \<Rightarrow> f y)" for x
    by (simp add: assms(2) logs_give split: sum.split)
qed (simp add: then_do_def throw_def split: prod.split sum.split)

lemma logs_catching [logs_rules]:
  assumes "logs Q m" "\<And>e. logs Q (h e)"
  shows "logs Q (catching m h)"
proof (rule logs_seq [OF assms(1), where f = "\<lambda>x. case x of Inl e \<Rightarrow> h e | Inr y \<Rightarrow> give y"])
  show "logs Q (case x of Inl e \<Rightarrow> h e | Inr y \<Rightarrow> give y)" for x
    by (simp add: assms(2) logs_give split: sum.split)
qed (simp add: catching_def give_def split: prod.split sum.split)

lemma logs_calls [logs_rules]: "logs Q (call f)" "logs Q (reading g)" "logs Q (save_artifact env owner task k t sm d key)"
  by (rule logs_silent; simp add: call_def reading_def save_artifact_def same_run_def Let_def split: prod.split sum.split)+

lemma logs_context [logs_rules]: "logs Q (ctx_guard env)" "logs Q (ctx_checkpoint env patch)" "logs Q (ctx_event env kind title detail)"
  by (rule logs_silent; auto simp: ctx_guard_def ctx_checkpoint_def ctx_event_def same_run_def Let_def
      dest: guard_keeps run_event_keeps split: prod.split sum.split)+

lemma logs_bus [logs_rules]: "list_all Q items \<Longrightarrow> logs Q (log_bus items)"
  by (rule logsI) (auto simp: log_bus_def same_run_def)

lemma logs_ctx_bus [logs_rules]:
  assumes "\<And>j. Q (BusItem ty j None)"
  shows "logs Q (ctx_bus env ty payload)"
proof -
  have "logs Q (\<lambda>u. log_bus [BusItem ty (g u) None] u)" for g
    using assms by (intro logsI) (auto simp: log_bus_def same_run_def)
  then show ?thesis unfolding ctx_bus_def by (intro logs_rules)
qed

definition quiet :: "bus_item \<Rightarrow> bool" where
  "quiet b \<longleftrightarrow> (case b of BusItem ty _ _ \<Rightarrow> ty \<noteq> ''sop.step_started'' | _ \<Rightarrow> True)"

lemma quiet_simps [simp]: "quiet (BusItem ty j k) \<longleftrightarrow> ty \<noteq> ''sop.step_started''" "quiet (GraphItem g)" "quiet (PolicyItem q)"
  by (simp_all add: quiet_def)

lemma quiet_maps [simp]: "list_all quiet (map GraphItem xs)" "list_all quiet (map PolicyItem ys)"
  "list_all quiet (map (\<lambda>ev. GraphItem (MachineEvent ev)) zs)"
  by (simp_all add: list_all_iff)

lemma quiet_governed: "logs quiet (governed env owner task)"
  unfolding governed_def Let_def by (intro logs_rules quiet_maps)

lemma quiet_prepare: "logs quiet (service_prepare env owner task input key)"
  unfolding service_prepare_def take_back_def by (intro logs_rules)

lemma quiet_update: "logs quiet (\<lambda>u. case update_entity S genv m others owner e x (su_store u) of
      (res, gevs, s') \<Rightarrow> (map_sum Threw id res, u\<lparr> su_store := s', su_bus := su_bus u @ map GraphItem gevs \<rparr>))"
  by (rule logsI) (auto simp: same_run_def split: prod.splits)

lemma quiet_transition: "logs quiet (transition_step env owner p st params)"
proof -
  have c: "logs quiet (case r of TrResult a b c \<Rightarrow> k a b c)" if "\<And>a b c. logs quiet (k a b c)" for r and k :: "_ \<Rightarrow> _ \<Rightarrow> _ \<Rightarrow> ('s, json) act"
    using that by (cases r) simp
  show ?thesis unfolding transition_step_def Let_def by (intro logs_rules quiet_update quiet_maps c)
qed

lemma quiet_propose: "logs quiet (propose_step env owner p st task kind draft)"
  unfolding propose_step_def by (intro logs_rules quiet_prepare)

lemma quiet_command: "logs quiet (command_step env owner st task params prompt)"
  unfolding command_step_def Let_def by (intro logs_rules quiet_governed)

lemma quiet_web: "logs quiet (read_web_step env owner task params prompt)"
  unfolding read_web_step_def by (intro logs_rules)

lemma quiet_run_step: "logs quiet (run_step env owner p st task results)"
  unfolding run_step_def Let_def query_step_def artifact_step_def
  by (cases "ss_tool st") (simp_all only: sop_tool.case, (intro logs_rules quiet_propose quiet_command quiet_web quiet_transition)+)

section \<open>What a checkpoint leaves\<close>

context record_store
begin

lemma checkpoint_saved:
  assumes "ctx_checkpoint env patch u = (Inr t, u')" "so_store env = S" "distinct (map fst patch)"
  obtains t0 where "own_row S u = Some t0" "jtext t0 ''leaseId'' = Some (rn_lease (su_local u))" "jstatus t0 = Some ''running''"
    "own_row S u' = Some t" "su_task u' = t" "su_bus u' = su_bus u" "same_run u u'"
    "\<And>k. jget t k = (if k = ''updatedAt'' then Some (JDate (so_now env)) else case map_of patch k of Some v \<Rightarrow> Some v | None \<Rightarrow> jget t0 k)"
    "\<And>ow k i. (ow, k, i) \<noteq> (run_owner u, ''tasks'', run_task u) \<Longrightarrow> s_get S ow k i (su_store u') = s_get S ow k i (su_store u)"
proof -
  let ?rn = "su_local u" and ?p = "JObj (AList.update ''updatedAt'' (JDate (so_now env)) patch)"
  let ?w = "lease_write S (so_clock env) (rn_owner ?rn) (rn_task ?rn) (rn_lease ?rn) ?p (su_store u)"
  obtain s' where w: "?w = (Some t, s')" and u': "u' = u\<lparr> su_store := s', su_local := ?rn\<lparr> rn_guard_at := 0 \<rparr>, su_task := t \<rparr>"
    using assms(1,2) by (auto simp: ctx_checkpoint_def checkpoint_def Let_def split: if_splits option.splits prod.splits sum.splits)
  obtain t0 where t0: "s_get S (rn_owner ?rn) ''tasks'' (rn_task ?rn) (su_store u) = Some t0" "jtext t0 ''leaseId'' = Some (rn_lease ?rn)"
      "jstatus t0 = Some ''running''" "t = jmerge t0 ?p"
    using lease_write_result [of "so_clock env" "rn_owner ?rn" "rn_task ?rn" "rn_lease ?rn" ?p "su_store u"] w
    by (auto split: option.splits if_splits)
  have g: "s_get S ow k i s' = (if ow = rn_owner ?rn \<and> k = ''tasks'' \<and> i = rn_task ?rn then Some t else s_get S ow k i (su_store u))" for ow k i
    using lease_write_get [of ow k i "so_clock env" "rn_owner ?rn" "rn_task ?rn" "rn_lease ?rn" ?p "su_store u"] w by simp
  have "jget t k = (if k = ''updatedAt'' then Some (JDate (so_now env)) else case map_of patch k of Some v \<Rightarrow> Some v | None \<Rightarrow> jget t0 k)" for k
    using jget_jmerge [OF jtext_is_obj [OF t0(2)], of "AList.update ''updatedAt'' (JDate (so_now env)) patch" k] assms(3) t0(4) by simp
  then show ?thesis by (rule that [of t0, rotated 7]) (use t0 g u' in \<open>auto simp: own_row_def same_run_def\<close>)
qed

end

section \<open>The state a pass leaves\<close>

lemma map_of_fold_delete: "map_of (fold AList.delete ks fs) k = (if k \<in> set ks then None else map_of fs k)"
  by (induction ks arbitrary: fs) auto

lemma state_with_get:
  assumes "distinct (map fst ups)"
  shows "jget (state_with task ups dels) k = (if k \<in> set dels then None else
    case map_of ups k of Some v \<Rightarrow> Some v | None \<Rightarrow> map_of (task_state task) k)"
  by (simp add: state_with_def map_of_fold_delete map_of_fields_merge assms)

lemma task_state_get: "jget t ''state'' = Some (state_with task ups dels) \<Longrightarrow>
    map_of (task_state t) k = jget (state_with task ups dels) k"
  by (simp add: task_state_def fields_of_def state_with_def)

lemma then_do_ok: "then_do m f u = (Inr y, u') \<longleftrightarrow> (\<exists>x u1. m u = (Inr x, u1) \<and> f x u1 = (Inr y, u'))"
  by (auto simp: then_do_def split: prod.splits sum.splits)

lemma pass_keys: "distinct (map fst [(''plan'', a), (''state'', b :: json)])"
  by simp

text \<open>Every way in which a pass ends as passed ends in a checkpoint by \<open>pass_step\<close>.\<close>

lemma skip_step_ends: "skip_step env p i st task results u = (Inr (Passed t r), u') \<Longrightarrow>
    \<exists>d v u1. pass_step env i d r task [] u1 = (Inr t, u') \<and> r = AList.update (ss_id st) v results"
  by (auto simp: skip_step_def Let_def then_do_ok give_def)

lemma complete_step_ends: "complete_step env p turn i st task results v u = (Inr (Passed t r), u') \<Longrightarrow>
    \<exists>d ks u1. pass_step env i d r task ks u1 = (Inr t, u') \<and> set ks \<subseteq> {''answer'', ''pendingInputStepId'', ''approvalResult'', ''pendingApprovalStepId''}
      \<and> r = AList.update (ss_id st) v results"
  by (fastforce simp: complete_step_def Let_def then_do_ok give_def approval_keys_def split: if_splits)

lemma failed_step_ends: "failed_step env p i st task results e u = (Inr (Passed t r), u') \<Longrightarrow>
    \<exists>d ks v u1. pass_step env i d r task ks u1 = (Inr t, u') \<and> set ks \<subseteq> {''approvalResult'', ''pendingApprovalStepId''}
      \<and> r = AList.update (ss_id st) v results \<and> \<not> ss_required st"
  by (fastforce simp: failed_step_def Let_def then_do_ok give_def throw_def approval_keys_def split: if_splits sop_error.splits)

lemma perform_step_ends:
  assumes "perform_step env owner p turn i st task results u = (Inr (Passed t r), u')"
  shows "\<exists>d ks v u1. pass_step env i d r task ks u1 = (Inr t, u') \<and> r = AList.update (ss_id st) v results
      \<and> set ks \<subseteq> {''answer'', ''pendingInputStepId'', ''approvalResult'', ''pendingApprovalStepId''}"
proof -
  obtain x u1 where o: "step_outcome env owner p st task results u = (x, u1)" by force
  show ?thesis
  proof (cases x)
    case (Inl e)
    then have "failed_step env p i st task results e u1 = (Inr (Passed t r), u')" using assms o by (simp add: perform_step_def)
    from failed_step_ends [OF this] show ?thesis by blast
  next
    case (Inr v)
    have "\<not> is_waiting v" using assms o Inr
      by (auto simp: perform_step_def settle_step_def wait_step_def Let_def then_do_ok give_def)
    then have "complete_step env p turn i st task results v u1 = (Inr (Passed t r), u')"
      using assms o Inr by (simp add: perform_step_def settle_step_def)
    from complete_step_ends [OF this] show ?thesis by blast
  qed
qed

lemma step_pass_ends:
  assumes "step_pass env owner p turn i st task results u = (Inr (Passed t r), u')"
  obtains t1 d ks v u1 where "pass_step env i d r t1 ks u1 = (Inr t, u')" "r = AList.update (ss_id st) v results"
    "set ks \<subseteq> {''answer'', ''pendingInputStepId'', ''approvalResult'', ''pendingApprovalStepId''}"
    "\<exists>u0. begin_step env p i st task u = (Inr t1, u0)"
proof -
  obtain t1 u0 where b: "begin_step env p i st task u = (Inr t1, u0)"
    and r: "(if skipped_when env t1 results st then skip_step env p i st t1 results
       else perform_step env owner p turn i st t1 results) u0 = (Inr (Passed t r), u')"
    using assms by (auto simp: step_pass_def then_do_ok)
  show ?thesis
  proof (cases "skipped_when env t1 results st")
    case True
    then show ?thesis using r skip_step_ends [of env p i st t1 results u0 t r u'] b that by fastforce
  next
    case False
    then show ?thesis using r perform_step_ends [of env owner p turn i st t1 results u0 t r u'] b that by auto
  qed
qed

end
