(* ===== verification/SopRuns.thy ===== *)
theory SopRuns
  imports SopProps
begin

text \<open>
  A run of a procedure from admission to its end: the pieces of \<open>sop_execute\<close> around the loop, and the
  theorems about whole runs.
\<close>

section \<open>Around the loop\<close>

lemma quiet_copy: "logs quiet (copy_files env owner i fs)"
  by (induction env owner i fs rule: copy_files.induct) (auto simp: Let_def intro!: logs_rules)

lemma quiet_skill: "logs quiet (ensure_skill env owner i)"
proof -
  have "logs quiet (install_requirements env owner i skill)" for skill
    unfolding install_requirements_def Let_def by (intro logs_rules)
  then show ?thesis unfolding ensure_skill_def by (intro logs_rules quiet_copy)
qed

lemma materialize_keeps: "(\<exists>items. su_bus (materialize env owner task is u) = su_bus u @ items \<and> list_all quiet items)
    \<and> same_run u (materialize env owner task is u)"
proof (induction "is" arbitrary: u)
  case (Cons i "is")
  have step: "(\<exists>items. su_bus (materialize env owner task is (u\<lparr> su_store := s', su_bus := su_bus u @ map GraphItem evs \<rparr>)) = su_bus u @ items
      \<and> list_all quiet items) \<and> same_run u (materialize env owner task is (u\<lparr> su_store := s', su_bus := su_bus u @ map GraphItem evs \<rparr>))" for s' evs
    using Cons [of "u\<lparr> su_store := s', su_bus := su_bus u @ map GraphItem evs \<rparr>"]
    by (auto simp: same_run_def intro: exI [of _ "map GraphItem evs @ items" for items])
  show ?case
    using Cons [of u] step by (auto simp: same_run_def split: option.split prod.split sum.split intro: exI [of _ "map GraphItem evs" for evs])
qed simp

lemma quiet_finish: "logs quiet (service_finish env owner task result)"
proof -
  have "logs quiet (\<lambda>u. (Inr (), materialize env owner task is u))" for "is"
    using materialize_keeps unfolding logs_def by (metis Pair_inject)
  then show ?thesis unfolding service_finish_def by (intro logs_rules)
qed

lemma quiet_complete: "logs quiet (complete_sop env owner p task)"
  unfolding complete_sop_def by (intro logs_rules quiet_finish)

section \<open>How a run ends\<close>

definition ended_as :: "string \<Rightarrow> fields \<Rightarrow> bool" where
  "ended_as s fs \<longleftrightarrow> map_of fs ''status'' = Some (JStr s)"

lemma wait_step_ends: "wait_step env i st task results v u = (Inr (Waits w), u') \<Longrightarrow> \<not> ended_as ''succeeded'' w"
  by (auto simp: wait_step_def Let_def then_do_ok give_def ended_as_def split: if_splits)

lemma step_pass_waits:
  assumes "step_pass env owner p turn i st task results u = (Inr (Waits w), u')"
  shows "\<not> ended_as ''succeeded'' w"
proof -
  have skip: "skip_step env p i st t r v \<noteq> (Inr (Waits w), u')" for t r v
    by (auto simp: skip_step_def Let_def then_do_ok give_def)
  have complete: "complete_step env p turn i st t r x v \<noteq> (Inr (Waits w), u')" for t r x v
    by (auto simp: complete_step_def Let_def then_do_ok give_def)
  have failed: "failed_step env p i st t r x v \<noteq> (Inr (Waits w), u')" for t r x v
    by (auto simp: failed_step_def Let_def then_do_ok give_def throw_def split: sop_error.split)
  obtain t v where "(if skipped_when env t results st then skip_step env p i st t results
       else perform_step env owner p turn i st t results) v = (Inr (Waits w), u')"
    using assms by (auto simp: step_pass_def then_do_ok)
  then obtain x v' where "wait_step env i st t results x v' = (Inr (Waits w), u')"
    using skip complete failed by (auto simp: perform_step_def settle_step_def split: if_splits prod.splits sum.splits)
  then show ?thesis by (rule wait_step_ends)
qed

lemma loop_waits: "sop_loop env owner p turn i sts task results u = (Inr (Waits w), u') \<Longrightarrow> \<not> ended_as ''succeeded'' w"
proof (induction sts arbitrary: i task results u)
  case Nil
  then show ?case by (simp add: give_def)
next
  case (Cons st sts)
  obtain x v where x: "step_pass env owner p turn i st task results u = (Inr x, v)"
    and r: "(case x of Waits w \<Rightarrow> give (Waits w) | Passed t r \<Rightarrow> sop_loop env owner p turn (i + 1) sts t r) v = (Inr (Waits w), u')"
    using Cons.prems unfolding sop_loop.simps then_do_ok by blast
  show ?case
  proof (cases x)
    case (Passed t res)
    then show ?thesis using r Cons.IH by simp
  next
    case (Waits w')
    then show ?thesis using r x step_pass_waits by (simp add: give_def)
  qed
qed

section \<open>What a run can be resumed from\<close>

lemma number_of_index: "number_of (Some (JNum (of_nat n))) = n"
  by (simp add: number_of_def)

text \<open>The task that a run reads when it starts, or starts again, says which step is next and what the steps before gave.\<close>

definition resumes_at :: "json \<Rightarrow> nat \<Rightarrow> fields \<Rightarrow> bool" where
  "resumes_at t i results \<longleftrightarrow> state_index t = i \<and> (0 < i \<longrightarrow> first_results t = results)"

lemma resumes_atI:
  assumes "jget t ''state'' = Some (state_with task ups dels)" "distinct (map fst ups)"
    "map_of ups ''sopStepIndex'' = Some (JNum (of_nat i))" "map_of ups ''sopResults'' = Some (JObj results)"
    "''sopStepIndex'' \<notin> set dels" "''sopResults'' \<notin> set dels"
  shows "resumes_at t i results"
proof -
  have "map_of (task_state t) k = jget (state_with task ups dels) k" for k
    using assms(1) by (rule task_state_get)
  then have "map_of (task_state t) ''sopStepIndex'' = Some (JNum (of_nat i))" "map_of (task_state t) ''sopResults'' = Some (JObj results)"
    using assms(2-6) by (simp_all add: state_with_get)
  then have "state_index t = i" "first_results t = (if i = 0 then [] else results)"
    by (simp_all add: state_index_def first_results_def number_of_index fields_of_def)
  then show ?thesis by (simp add: resumes_at_def)
qed

context record_store
begin

lemma pass_saved:
  assumes "pass_step env i d r t0 ks u = (Inr t, u')" "so_store env = S"
    "set ks \<subseteq> {''answer'', ''pendingInputStepId'', ''approvalResult'', ''pendingApprovalStepId''}"
  shows "own_row S u' = Some t \<and> same_run u u' \<and> resumes_at t (i + 1) r \<and> jget t ''state'' = Some (next_state i r t0 ks)"
proof -
  have c: "ctx_checkpoint env [(''plan'', mark_plan i [(''status'', JStr ''succeeded''), (''detail'', JStr d)] t0),
      (''state'', next_state i r t0 ks)] u = (Inr t, u')" using assms(1) by (simp add: pass_step_def)
  obtain t1 where row: "own_row S u' = Some t" "same_run u u'"
    and get: "\<And>k. jget t k = (if k = ''updatedAt'' then Some (JDate (so_now env))
        else case map_of [(''plan'', mark_plan i [(''status'', JStr ''succeeded''), (''detail'', JStr d)] t0),
          (''state'', next_state i r t0 ks)] k of Some v \<Rightarrow> Some v | None \<Rightarrow> jget t1 k)"
    by (rule checkpoint_saved [OF c assms(2) pass_keys]) (rule that)
  have st: "jget t ''state'' = Some (next_state i r t0 ks)" by (simp add: get)
  then have "resumes_at t (i + 1) r" unfolding next_state_def by (rule resumes_atI) (use assms(3) in auto)
  then show ?thesis using row st by simp
qed

lemma start_saved:
  assumes "ctx_checkpoint env (start_patch p task) u = (Inr t, u')" "so_store env = S"
  shows "own_row S u' = Some t \<and> same_run u u' \<and> resumes_at t (state_index task) (first_results task)"
proof -
  have k: "distinct (map fst (start_patch p task))" by (simp add: start_patch_def)
  obtain t1 where row: "own_row S u' = Some t" "same_run u u'"
    and get: "\<And>k. jget t k = (if k = ''updatedAt'' then Some (JDate (so_now env))
        else case map_of (start_patch p task) k of Some v \<Rightarrow> Some v | None \<Rightarrow> jget t1 k)"
    by (rule checkpoint_saved [OF assms k]) (rule that)
  have "jget t ''state'' = map_of (start_patch p task) ''state''" by (simp add: get start_patch_def)
  then have "resumes_at t (state_index task) (first_results task)"
    unfolding start_patch_def by (simp, elim resumes_atI) simp_all
  then show ?thesis using row by simp
qed

lemma logs_same: "\<lbrakk> logs Q m; m u = (r, u') \<rbrakk> \<Longrightarrow> same_run u u'"
  by (simp add: logs_def)

lemma logs_begin: "logs (\<lambda>_. True) (begin_step env p i st task)"
  unfolding begin_step_def by (intro logs_rules) simp

lemma step_pass_saved:
  assumes "step_pass env owner p turn i st task results u = (Inr (Passed t r), u')" "so_store env = S"
  shows "own_row S u' = Some t \<and> resumes_at t (i + 1) r \<and> (\<exists>v. r = AList.update (ss_id st) v results)"
proof (rule step_pass_ends [OF assms(1)])
  fix t1 d ks v u1
  assume "pass_step env i d r t1 ks u1 = (Inr t, u')" "r = AList.update (ss_id st) v results"
    "set ks \<subseteq> {''answer'', ''pendingInputStepId'', ''approvalResult'', ''pendingApprovalStepId''}"
  then show ?thesis using pass_saved assms(2) by blast
qed

lemma loop_saved:
  assumes "sop_loop env owner p turn i sts task results u = (Inr (Passed t r), u')" "so_store env = S"
    "own_row S u = Some task" "resumes_at task i results"
  shows "own_row S u' = Some t \<and> resumes_at t (i + length sts) r"
  using assms
proof (induction sts arbitrary: i task results u)
  case Nil
  then show ?case by (simp add: give_def)
next
  case (Cons st sts)
  obtain x v where x: "step_pass env owner p turn i st task results u = (Inr x, v)"
    and r: "(case x of Waits w \<Rightarrow> give (Waits w) | Passed t r \<Rightarrow> sop_loop env owner p turn (i + 1) sts t r) v = (Inr (Passed t r), u')"
    using Cons.prems(1) unfolding sop_loop.simps then_do_ok by blast
  obtain t1 r1 where p: "x = Passed t1 r1" using r by (cases x) (auto simp: give_def)
  have "own_row S v = Some t1" "resumes_at t1 (i + 1) r1" using step_pass_saved [of env owner p turn i st task results u t1 r1 v] x p assms(2) by simp_all
  then show ?case using Cons.IH [of "i + 1" t1 r1 v] r p assms(2) by simp
qed

lemma execute_cases:
  assumes "sop_execute env owner task u = (res, u')" "so_store env = S"
  obtains (refused) e where "res = Inl (Threw e)" "u' = u"
    "\<nexists>p. load_sop env owner task u = (Inr p, u) \<and> admission_error env owner p task (su_store u) = None"
  | (stopped) p e where "load_sop env owner task u = (Inr p, u)" "admission_error env owner p task (su_store u) = None"
      "res = Inl e" "started u' = started u"
  | (entered) p t u1 where "load_sop env owner task u = (Inr p, u)" "admission_error env owner p task (su_store u) = None"
      "started u1 = started u" "resumes_at t (state_index task) (first_results task)"
      "then_do (sop_loop env owner p None (state_index task) (drop (state_index task) (sp_steps p)) t (first_results task))
         (\<lambda>r. case r of Waits w \<Rightarrow> give w | Passed t' _ \<Rightarrow> complete_sop env owner p t') u1 = (res, u')"
proof -
  obtain l u0 where l: "load_sop env owner task u = (l, u0)" by force
  then have u0: "u0 = u" by (rule load_sop_state)
  show thesis
  proof (cases l)
    case (Inl e)
    obtain x where "e = Threw x" using l Inl by (auto simp: load_sop_def Let_def fail_def throw_def give_def split: if_splits option.splits)
    then show thesis using assms(1) l Inl u0 by (intro refused [of x]) (auto simp: sop_execute_def then_do_def admit_result)
  next
    case (Inr p)
    show thesis
    proof (cases "admission_error env owner p task (su_store u)")
      case (Some e)
      then show thesis using assms(1) l Inr u0 by (intro refused [of e]) (auto simp: sop_execute_def then_do_def admit_result)
    next
      case None
      let ?skill = "case sp_skill p of None \<Rightarrow> give () | Some i \<Rightarrow> if i = [] then give () else ensure_skill env owner i"
      have q: "logs quiet (ctx_checkpoint env (start_patch p task))" "logs quiet ?skill" by (intro logs_rules quiet_skill)+
      obtain c u1 where c: "ctx_checkpoint env (start_patch p task) u = (c, u1)" by force
      have run: "then_do (ctx_checkpoint env (start_patch p task)) (\<lambda>t. then_do ?skill (\<lambda>_.
          then_do (sop_loop env owner p None (state_index t) (drop (state_index t) (sp_steps p)) t (first_results task)) (\<lambda>r. case r of
            Waits w \<Rightarrow> give w | Passed t' _ \<Rightarrow> complete_sop env owner p t'))) u = (res, u')"
        using assms(1) l Inr u0 None by (simp add: sop_execute_def then_do_def admit_result)
      show thesis
      proof (cases c)
        case (Inl e)
        then show thesis using run c Inr l u0 None logs_started [OF q(1) c]
          by (intro stopped [of p e]) (auto simp: then_do_def)
      next
        case t: (Inr t)
        have r: "resumes_at t (state_index task) (first_results task)" using start_saved assms(2) c t by blast
        then have i: "state_index t = state_index task" by (simp add: resumes_at_def)
        obtain k u2 where k: "?skill u1 = (k, u2)" by force
        have same: "started u2 = started u" using logs_started [OF q(1) c] logs_started [OF q(2) k] by simp
        show thesis
        proof (cases k)
          case (Inl e)
          then show thesis using run c t k \<open>l = Inr p\<close> l u0 None same by (intro stopped [of p e]) (auto simp: then_do_def)
        next
          case (Inr x)
          then show thesis using run c t k \<open>l = Inr p\<close> l u0 None r i same by (intro entered [of p u2 t]) (simp_all add: then_do_def)
        qed
      qed
    qed
  qed
qed

end

text \<open>What a run starts, and in which order.\<close>

lemma complete_started: "complete_sop env owner p t u = (r, u') \<Longrightarrow> started u' = started u"
  by (rule logs_started [OF quiet_complete])

lemma loop_run_started:
  assumes "so_bus env" "then_do (sop_loop env owner p turn i sts task results)
      (\<lambda>r. case r of Waits w \<Rightarrow> give w | Passed t' _ \<Rightarrow> complete_sop env owner p t') u = (res, u')"
  shows "\<exists>k\<le>length sts. started u' = started u @ map ss_id (take k sts)
    \<and> (\<forall>fs. res = Inr fs \<and> ended_as ''succeeded'' fs \<longrightarrow> k = length sts)"
proof -
  obtain x v where x: "sop_loop env owner p turn i sts task results u = (x, v)" by force
  obtain k where k: "k \<le> length sts" "started v = started u @ map ss_id (take k sts)" "\<forall>t r. x = Inr (Passed t r) \<longrightarrow> k = length sts"
    using loop_started [OF assms(1) x] by blast
  consider (err) e where "x = Inl e" | (wait) w where "x = Inr (Waits w)" | (pass) t r where "x = Inr (Passed t r)"
    by (metis step_end.exhaust sumE)
  then show ?thesis
  proof cases
    case err
    then have "u' = v" "res = Inl e" using assms(2) x by (auto simp: then_do_def)
    then show ?thesis using k by auto
  next
    case wait
    then have "u' = v" "res = Inr w" using assms(2) x by (auto simp: then_do_def give_def)
    moreover have "\<not> ended_as ''succeeded'' w" using x wait by (simp add: loop_waits)
    ultimately show ?thesis using k by auto
  next
    case pass
    then have "complete_sop env owner p t v = (res, u')" using assms(2) x by (simp add: then_do_def)
    then have "started u' = started v" by (rule complete_started)
    then show ?thesis using k pass by (intro exI [of _ k]) simp
  qed
qed

lemma loop_append: "sop_loop env owner p turn i sts task results u = (Inr (Passed t r), u') \<Longrightarrow>
    sop_loop env owner p turn i (sts @ rest) task results u = sop_loop env owner p turn (i + length sts) rest t r u'"
proof (induction sts arbitrary: i task results u)
  case Nil
  then show ?case by (simp add: give_def)
next
  case (Cons st sts)
  obtain x v where x: "step_pass env owner p turn i st task results u = (Inr x, v)"
    and r: "(case x of Waits w \<Rightarrow> give (Waits w) | Passed t r \<Rightarrow> sop_loop env owner p turn (i + 1) sts t r) v = (Inr (Passed t r), u')"
    using Cons.prems unfolding sop_loop.simps then_do_ok by blast
  then show ?case using Cons.IH by (cases x) (auto simp: then_do_def give_def)
qed

section \<open>A sample run\<close>

definition no_service :: "table svc" where
  "no_service s = (Inr JNull, s)"

definition procedure_env :: "table sop_env" where
  "procedure_env = \<lparr> so_store = plain_store, so_clock = 20, so_now = 500, so_wall = 500, so_cache = 100,
     so_texts = \<lparr> tx_json = \<lambda>_. ''j'', tx_string = \<lambda>_. [], tx_date = \<lambda>_. [] \<rparr>, so_uuid = nat_text, so_sha = (\<lambda>x. x), so_bus = True,
     so_tenant = \<lambda>_ _. Inr ''t'', so_kernel = None, so_thought = \<lambda>_ _ _ _ s. s, so_capabilities = \<lambda>_. Inr [''save_artifact''],
     so_actions = sample_service, so_email = Inr, so_event = Inr, so_connection = \<lambda>_ _. None, so_governance = None,
     so_graph = \<lparr> ge_clock = 20, ge_now = 50, ge_uuid = [], ge_show = \<lambda>_. [] \<rparr>, so_machines = None, so_graph_machines = None,
     so_services = \<lparr> sv_snapshot = \<lambda>_. no_service, sv_thread = \<lambda>_ _. no_service, sv_observe = \<lambda>_ _ _. no_service, sv_start = \<lambda>_. no_service,
       sv_command = \<lambda>_ _ _ _. no_service, sv_query = \<lambda>_ _ _ _. no_service, sv_import = \<lambda>_ _. no_service, sv_file = \<lambda>_ _. no_service,
       sv_fill = \<lambda>_ _ _. no_service, sv_recall = \<lambda>_ _ _ _. no_service, sv_generate = \<lambda>_ _ _. no_service, sv_skill_files = \<lambda>_. Inr None,
       sv_mkdir = \<lambda>_ _. no_service, sv_write = \<lambda>_ _ _. no_service, sv_learn = \<lambda>_ _ _. no_service, sv_ingest = \<lambda>_ _. no_service \<rparr> \<rparr>"

definition sample_task :: "fields \<Rightarrow> json" where
  "sample_task more_state = JObj [(''id'', JStr ''t1''), (''status'', JStr ''running''), (''leaseId'', JStr ''L1''),
     (''state'', JObj ((''sopId'', JStr ''p1'') # more_state))]"

definition sample_step :: "string \<Rightarrow> sop_tool \<Rightarrow> json" where
  "sample_step i tool = JObj [(''id'', JStr i), (''title'', JStr i), (''tool'', JStr (tool_text tool))]"

definition sample_sop :: json where
  "sample_sop = JObj [(''id'', JStr ''p1''), (''name'', JStr ''P''),
     (''steps'', JArr [sample_step ''a'' SaveArtifact, sample_step ''b'' SaveArtifact]), (''allowedTools'', JArr [JStr ''save_artifact''])]"

definition procedure_run :: "fields \<Rightarrow> table sop_run" where
  "procedure_run fs = \<lparr> su_store = [((''u1'', ''tasks'', ''t1''), sample_task fs, 5), ((''u1'', ''sops'', ''p1''), sample_sop, 4)],
     su_local = \<lparr> rn_owner = ''u1'', rn_task = ''t1'', rn_lease = ''L1'', rn_aborted = False, rn_guard_at = 0, rn_recent = [] \<rparr>,
     su_task = sample_task fs, su_bus = [], su_draws = 0 \<rparr>"

lemma procedure_env_sel: "so_bus procedure_env" "so_store procedure_env = plain_store"
  by (simp_all add: procedure_env_def)

section \<open>The guarantees of a run\<close>

text \<open>C2: an execution either is refused, and then has done nothing at all, or starts steps of an admitted
  procedure, all of whose tools its own list allows: they are announced in the order of the procedure,
  from the step the task's state names, each once, and a run that reports success has started every one.\<close>
theorem procedure_runs_in_order:
  assumes "sop_execute env owner task u = (res, u')" "so_bus env" "so_store env = plain_store"
  shows "(u' = u \<and> (\<exists>e. res = Inl (Threw e)))
    \<or> (\<exists>p k. load_sop env owner task u = (Inr p, u) \<and> admission_error env owner p task (su_store u) = None
        \<and> list_all (\<lambda>st. ss_tool st \<in> set (sp_allowed p)) (sp_steps p)
        \<and> started u' = started u @ map ss_id (take k (drop (state_index task) (sp_steps p)))
        \<and> (\<forall>fs. res = Inr fs \<and> ended_as ''succeeded'' fs \<longrightarrow> k = length (drop (state_index task) (sp_steps p))))"
  using assms(1,3)
proof (cases rule: ps.execute_cases)
  case (stopped p e)
  then show ?thesis using admitted(5) [OF stopped(2)] by (intro disjI2 exI [of _ p] exI [of _ 0]) (auto simp: list_all_iff)
next
  case (entered p t u1)
  show ?thesis using loop_run_started [OF assms(2) entered(5)] entered(1,2,3) admitted(5) [OF entered(2)]
    by (auto simp: list_all_iff)
qed simp

theorem procedure_runs_in_order_witness:
  "\<exists>p. load_sop procedure_env ''u1'' (sample_task []) (procedure_run []) = (Inr p, procedure_run [])
     \<and> started (snd (sop_execute procedure_env ''u1'' (sample_task []) (procedure_run []))) = map ss_id (sp_steps p)"
proof -
  obtain res u' where run: "sop_execute procedure_env ''u1'' (sample_task []) (procedure_run []) = (res, u')" by force
  have "case sop_execute procedure_env ''u1'' (sample_task []) (procedure_run []) of (r, u) \<Rightarrow>
      case r of Inr fs \<Rightarrow> ended_as ''succeeded'' fs | Inl _ \<Rightarrow> False" by code_simp
  then obtain fs where "res = Inr fs" "ended_as ''succeeded'' fs" using run by (auto split: sum.splits)
  moreover have "started (procedure_run []) = []" "state_index (sample_task []) = 0" by code_simp+
  ultimately show ?thesis using procedure_runs_in_order [OF run procedure_env_sel] run by auto
qed

text \<open>C9: a pass of the loop leaves a row from which a later run goes on as this one would have: after any
  steps that passed, the row holds the task the run goes on with, the rest of the procedure is what that
  row's index points at, and the uninterrupted run is the run that starts from the row's own results.\<close>
theorem row_resumes_run:
  assumes "sop_loop env owner p turn i (st # sts) task results u = (Inr (Passed t r), u')" "so_store env = plain_store"
    and "own_row plain_store u = Some task" "resumes_at task i results" "drop i (sp_steps p) = (st # sts) @ rest"
  shows "own_row plain_store u' = Some t \<and> drop (state_index t) (sp_steps p) = rest
    \<and> sop_loop env owner p turn i ((st # sts) @ rest) task results u
      = sop_loop env owner p turn (state_index t) (drop (state_index t) (sp_steps p)) t (first_results t) u'"
proof -
  have s: "own_row plain_store u' = Some t \<and> resumes_at t (i + length (st # sts)) r"
    by (rule ps.loop_saved [OF assms(1) assms(2-4)])
  then have i: "state_index t = length (st # sts) + i" "first_results t = r" by (simp_all add: resumes_at_def)
  have "drop (state_index t) (sp_steps p) = rest" unfolding i(1) drop_drop [symmetric] assms(5) by simp
  then show ?thesis using s loop_append [OF assms(1), of rest] i by (simp add: add.commute)
qed

definition sample_pass :: "nat \<Rightarrow> (sop_error + step_end) \<times> table sop_run" where
  "sample_pass n = (case read_sop 500 sample_sop of None \<Rightarrow> (Inl LeaseLost, procedure_run [])
     | Some p \<Rightarrow> sop_loop procedure_env ''u1'' p None 0 (take n (sp_steps p)) (sample_task []) [] (procedure_run []))"

theorem row_resumes_run_witness:
  "\<exists>p t r u'. read_sop 500 sample_sop = Some p \<and> sample_pass 1 = (Inr (Passed t r), u')
     \<and> own_row plain_store u' = Some t
     \<and> sample_pass 2 = sop_loop procedure_env ''u1'' p None (state_index t) (drop (state_index t) (sp_steps p)) t (first_results t) u'"
proof -
  have "case read_sop 500 sample_sop of None \<Rightarrow> False | Some p \<Rightarrow> length (sp_steps p) = 2" by code_simp
  then obtain p where p: "read_sop 500 sample_sop = Some p" "length (sp_steps p) = 2" by (auto split: option.splits)
  then obtain st st' where steps: "sp_steps p = [st, st']" by (auto simp: numeral_2_eq_2 length_Suc_conv)
  have "case fst (sample_pass 1) of Inr (Passed t r) \<Rightarrow> True | _ \<Rightarrow> False" by code_simp
  then obtain t r u' where pass: "sample_pass 1 = (Inr (Passed t r), u')"
    by (cases "sample_pass 1") (auto split: sum.splits step_end.splits)
  have row: "own_row plain_store (procedure_run []) = Some (sample_task [])" "resumes_at (sample_task []) 0 []" by code_simp+
  have loop: "sop_loop procedure_env ''u1'' p None 0 [st] (sample_task []) [] (procedure_run []) = (Inr (Passed t r), u')"
    using pass unfolding sample_pass_def p(1) option.case steps by simp
  have two: "sample_pass 2 = sop_loop procedure_env ''u1'' p None 0 ([st] @ [st']) (sample_task []) [] (procedure_run [])"
    unfolding sample_pass_def p(1) option.case steps by simp
  have d: "drop 0 (sp_steps p) = [st] @ [st']" by (simp add: steps)
  show ?thesis using row_resumes_run [OF loop procedure_env_sel(2) row d] pass p(1) two by auto
qed

lemma state_dropped:
  assumes "jget t ''state'' = Some (next_state i r t0 ks)" "k \<in> set ks"
  shows "map_of (task_state t) k = None"
  using assms unfolding next_state_def by (simp add: task_state_get state_with_get)

text \<open>An approval is used once: the step that asked for it takes its result as its own, without a tool
  call, and the row the pass leaves lets no step of any procedure take it again.\<close>
theorem approval_consumed_once:
  assumes "consuming task st" "map_of (task_state task) ''approvalResult'' = Some v" "\<not> is_waiting v" "so_store env = plain_store"
    and "perform_step env owner p turn i st task results u = (Inr (Passed t r), u')"
  shows "step_outcome env owner p st task results u = (Inr v, u) \<and> r = AList.update (ss_id st) v results
    \<and> own_row plain_store u' = Some t \<and> (\<forall>st'. \<not> consuming t st')"
proof -
  have out: "step_outcome env owner p st task results u = (Inr v, u)" using assms(1,2) by (simp add: step_outcome_def give_def)
  then have "complete_step env p turn i st task results v u = (Inr (Passed t r), u')"
    using assms(3,5) by (simp add: perform_step_def settle_step_def)
  moreover define ks where "ks = (if jget v ''consumed'' = Some (JBool True) then [''answer'', ''pendingInputStepId''] else [])"
  ultimately obtain d u1 where c: "pass_step env i d r task (ks @ approval_keys True) u1 = (Inr t, u')" "r = AList.update (ss_id st) v results"
    using assms(1) unfolding complete_step_def Let_def then_do_ok give_def by auto
  have k: "set (ks @ approval_keys True) \<subseteq> {''answer'', ''pendingInputStepId'', ''approvalResult'', ''pendingApprovalStepId''}"
    by (auto simp: ks_def approval_keys_def)
  have "own_row plain_store u' = Some t \<and> jget t ''state'' = Some (next_state i r task (ks @ approval_keys True))"
    using ps.pass_saved [OF c(1) assms(4) k] by simp
  moreover from this have "\<not> consuming t st'" for st'
    by (simp add: consuming_def state_dropped approval_keys_def)
  ultimately show ?thesis using out c(2) by simp
qed

definition approved_state :: fields where
  "approved_state = [(''approvalResult'', JStr ''sent''), (''pendingApprovalStepId'', JStr ''e'')]"

definition email_step :: sop_step where
  "email_step = \<lparr> ss_id = ''e'', ss_title = ''E'', ss_tool = PrepareEmail, ss_prompt = [], ss_params = [], ss_when = None,
     ss_required = True, ss_machine = None \<rparr>"

definition approved_pass :: "(sop_error + step_end) \<times> table sop_run" where
  "approved_pass = perform_step procedure_env ''u1'' \<lparr> sp_id = ''p1'', sp_name = ''P'', sp_category = [], sp_steps = [email_step],
     sp_allowed = [PrepareEmail], sp_skill = None, sp_active = True, sp_updated = JNull \<rparr> None 0 email_step
     (sample_task approved_state) [] (procedure_run approved_state)"

theorem approval_consumed_once_witness:
  "\<exists>t u'. approved_pass = (Inr (Passed t [(''e'', JStr ''sent'')]), u') \<and> own_row plain_store u' = Some t
     \<and> consuming (sample_task approved_state) email_step \<and> \<not> consuming t email_step"
proof -
  have c: "consuming (sample_task approved_state) email_step"
      "map_of (task_state (sample_task approved_state)) ''approvalResult'' = Some (JStr ''sent'')" "\<not> is_waiting (JStr ''sent'')"
    by code_simp+
  have "case fst approved_pass of Inr (Passed t r) \<Rightarrow> True | _ \<Rightarrow> False" by code_simp
  then obtain t r where "fst approved_pass = Inr (Passed t r)" by (auto split: sum.splits step_end.splits)
  then obtain u' where pass: "approved_pass = (Inr (Passed t r), u')" by (metis prod.collapse)
  have id: "AList.update (ss_id email_step) (JStr ''sent'') [] = [(''e'', JStr ''sent'')]" by (simp add: email_step_def)
  show ?thesis using approval_consumed_once [OF c procedure_env_sel(2) pass [unfolded approved_pass_def]] pass c(1)
    unfolding id by auto
qed

end
