(* ===== verification/Guardrails.thy ===== *)
theory Guardrails
  imports BusinessGraph
begin

text \<open>
  The hard limits of a tenant (apps/server/src/engine/guardrails/service.ts): the stored quota or the
  default one, and the checks that refuse with 429 once a count has reached its limit.  \<open>shw\<close> is how a
  number that is no string is written in a message.
\<close>

section \<open>Quotas\<close>

definition default_quota :: json where
  "default_quota = JObj [(''tokensPerDay'', JNum 1000000), (''tasksActive'', JNum 10000), (''tasksPerHour'', JNum 500),
     (''eventsPerDay'', JNum 100000), (''turnsActive'', JNum 100), (''costEurPerDay'', JNum 50),
     (''fastCallsPerHour'', JNum 1000), (''slowCallsPerHour'', JNum 500)]"

definition quota_for :: "'s store \<Rightarrow> string \<Rightarrow> 's \<Rightarrow> json" where
  "quota_for S tenant s = (case s_get S tenant ''guardrail-quotas'' ''default'' s of None \<Rightarrow> default_quota
     | Some row \<Rightarrow> (case jget row ''quota'' of None \<Rightarrow> default_quota | Some JNull \<Rightarrow> default_quota | Some q \<Rightarrow> q))"

definition set_quota :: "'s store \<Rightarrow> int \<Rightarrow> string \<Rightarrow> json \<Rightarrow> 's \<Rightarrow> 's" where
  "set_quota S clock tenant quota s = s_put S clock tenant ''guardrail-quotas'' (JObj [(''id'', JStr ''default''), (''quota'', quota)]) s"

text \<open>A count compared with a field of the quota: with a missing or malformed field the comparison of
  JavaScript is false, and the check lets everything through.\<close>

definition reached :: "rat \<Rightarrow> json \<Rightarrow> string \<Rightarrow> bool" where
  "reached n q k = (case jnum (jget q k) of None \<Rightarrow> False | Some limit \<Rightarrow> limit \<le> n)"

definition over_quota :: "(json \<Rightarrow> string) \<Rightarrow> rat \<Rightarrow> json \<Rightarrow> string \<Rightarrow> string \<Rightarrow> err option" where
  "over_quota shw n q k what = (if reached n q k
     then Some (AppError (''El tenant ha alcanzado el limite de '' @ string_of shw (jget q k) @ what) 429) else None)"

section \<open>The checks\<close>

definition check_task_creation :: "'s store \<Rightarrow> (json \<Rightarrow> string) \<Rightarrow> string \<Rightarrow> nat \<Rightarrow> 's \<Rightarrow> err option" where
  "check_task_creation S shw tenant n s = over_quota shw (of_nat n) (quota_for S tenant s) ''tasksActive'' '' tareas activas''"

definition check_tokens :: "'s store \<Rightarrow> (json \<Rightarrow> string) \<Rightarrow> string \<Rightarrow> rat \<Rightarrow> 's \<Rightarrow> err option" where
  "check_tokens S shw tenant n s = over_quota shw n (quota_for S tenant s) ''tokensPerDay'' '' tokens/dia''"

definition check_cost :: "'s store \<Rightarrow> (json \<Rightarrow> string) \<Rightarrow> string \<Rightarrow> rat \<Rightarrow> 's \<Rightarrow> err option" where
  "check_cost S shw tenant n s = over_quota shw n (quota_for S tenant s) ''costEurPerDay'' '' EUR/dia''"

definition check_speed :: "'s store \<Rightarrow> (json \<Rightarrow> string) \<Rightarrow> string \<Rightarrow> bool \<Rightarrow> rat \<Rightarrow> 's \<Rightarrow> err option" where
  "check_speed S shw tenant fast n s = over_quota shw n (quota_for S tenant s)
     (if fast then ''fastCallsPerHour'' else ''slowCallsPerHour'')
     ('' llamadas '' @ (if fast then ''fast'' else ''slow'') @ ''/hora'')"

section \<open>Lemmas\<close>

lemma reached_mono: "\<lbrakk> reached m q k; m \<le> n \<rbrakk> \<Longrightarrow> reached n q k"
  by (auto simp: reached_def split: option.splits)

lemma over_quota_None: "over_quota shw n q k what = None \<longleftrightarrow> \<not> reached n q k"
  by (simp add: over_quota_def)

context record_store
begin

lemma quota_after_set:
  "quota_for S tenant' (set_quota S clock tenant q s) = (if tenant' = tenant \<and> q \<noteq> JNull then q
     else if tenant' = tenant then default_quota else quota_for S tenant' s)"
  by (cases q) (auto simp: quota_for_def set_quota_def get_put jid_def jtext_def)

end

end
