(* ===== verification/Tasks.thy ===== *)
theory Tasks
  imports SopSteps RateLimit Guardrails
begin

text \<open>
  The life of a task outside the worker (\<open>AgentService\<close> of apps/server/src/engine/service.ts): creating
  it, choosing its role, pausing, resuming, cancelling and retrying it, escalating it to another user,
  answering its question, and recovering it after a crash; the schemas are those of
  packages/domain/src/agent.ts.

  The state is the store with what the service keeps in memory: the two rate limiters, the runs it has
  asked the worker to abort, and the events it has emitted.  An operation has one clock instant.
\<close>

section \<open>Schemas\<close>

datatype task_kind = KAgent | KDocument | KMonitor | KFinance | KPlan | KSop

fun task_kind_text :: "task_kind \<Rightarrow> string" where
  "task_kind_text KAgent = ''agent''" | "task_kind_text KDocument = ''document''" | "task_kind_text KMonitor = ''monitor''"
| "task_kind_text KFinance = ''finance''" | "task_kind_text KPlan = ''plan''" | "task_kind_text KSop = ''sop''"

definition all_task_kinds :: "task_kind list" where
  "all_task_kinds = [KAgent, KDocument, KMonitor, KFinance, KPlan, KSop]"

text \<open>An array of at most \<open>n\<close> elements.\<close>

definition list_upto :: "nat \<Rightarrow> (json \<Rightarrow> 'a option) \<Rightarrow> json \<Rightarrow> 'a list option" where
  "list_upto n f v = (case as_list f v of None \<Rightarrow> None | Some xs \<Rightarrow> if length xs \<le> n then Some xs else None)"

record task_input =
  ct_title :: "string option"
  ct_prompt :: string
  ct_kind :: task_kind
  ct_goal :: "string option"
  ct_assigned :: "string option"
  ct_role :: "string option"
  ct_input :: fields

definition read_create :: "json \<Rightarrow> task_input option" where
  "read_create j = Option.bind (opt (trimmed_in 1 160) ''title'' j) (\<lambda>ti.
     Option.bind (req (trimmed_in 1 12000) ''prompt'' j) (\<lambda>pr.
     Option.bind (dflt KAgent (as_enum (enum_of task_kind_text all_task_kinds)) ''kind'' j) (\<lambda>ki.
     Option.bind (opt as_text ''goalId'' j) (\<lambda>go.
     Option.bind (opt as_text ''assignedTo'' j) (\<lambda>asg.
     Option.bind (opt (text_in 0 100) ''roleId'' j) (\<lambda>ro.
     Option.bind (dflt [] as_fields ''input'' j) (\<lambda>inp.
     Some \<lparr> ct_title = ti, ct_prompt = pr, ct_kind = ki, ct_goal = go, ct_assigned = asg, ct_role = ro, ct_input = inp \<rparr>)))))))"

text \<open>Of a role the task operations read the identifier, the procedures and whether it is active; the
  other fields are checked, since a role that fails the schema is left out.\<close>

record agent_role =
  ar_id :: string
  ar_sops :: "string list"
  ar_active :: bool

definition one_of :: "string list \<Rightarrow> json \<Rightarrow> string option" where
  "one_of xs = as_enum (\<lambda>x. if x \<in> set xs then Some x else None)"

definition read_role_memory :: "json \<Rightarrow> unit option" where
  "read_role_memory j = Option.bind (req (one_of [''identidad'', ''dominio'', ''preferencias'', ''historial'']) ''kind'' j) (\<lambda>_.
     Option.bind (req (trimmed_in 1 1000) ''text'' j) (\<lambda>_. Some ()))"

definition read_role_permission :: "json \<Rightarrow> unit option" where
  "read_role_permission j = Option.bind (req (text_in 1 200) ''resource'' j) (\<lambda>_.
     Option.bind (req (list_upto 20 (one_of [''read'', ''create'', ''update'', ''delete'', ''execute'', ''approve''])) ''actions'' j) (\<lambda>xs.
     if xs = [] then None else Some ()))"

definition recall_count :: "json \<Rightarrow> int option" where
  "recall_count v = (case as_int v of None \<Rightarrow> None | Some n \<Rightarrow> if 0 \<le> n \<and> n \<le> 50 then Some n else None)"

definition read_memory_policy :: "json \<Rightarrow> unit option" where
  "read_memory_policy j = (if \<not> is_obj j then None else Option.bind (dflt True as_bool ''read'' j) (\<lambda>_.
     Option.bind (dflt False as_bool ''write'' j) (\<lambda>_.
     Option.bind (dflt [] (list_upto 50 (text_in 0 100)) ''categories'' j) (\<lambda>_.
     Option.bind (dflt 10 recall_count ''maxRecall'' j) (\<lambda>_. Some ())))))"

definition read_agent_role :: "json \<Rightarrow> agent_role option" where
  "read_agent_role j = Option.bind (req (text_in 1 100) ''id'' j) (\<lambda>i.
     Option.bind (req (trimmed_in 1 120) ''name'' j) (\<lambda>_.
     Option.bind (dflt ''warm'' (one_of [''warm'', ''concise'', ''thoughtful'']) ''tone'' j) (\<lambda>_.
     Option.bind (dflt ''sky'' (one_of [''sky'', ''sand'', ''lilac'']) ''avatar'' j) (\<lambda>_.
     Option.bind (opt (text_in 0 2000) ''greeting'' j) (\<lambda>_.
     Option.bind (opt (text_in 0 500) ''roi'' j) (\<lambda>_.
     Option.bind (dflt [] (text_in 0 2000) ''objetivo'' j) (\<lambda>_.
     Option.bind (dflt [] (list_upto 50 (text_in 0 200)) ''sops'' j) (\<lambda>so.
     Option.bind (dflt True as_bool ''active'' j) (\<lambda>ac.
     Option.bind (dflt [] (list_upto 8 read_role_memory) ''memories'' j) (\<lambda>_.
     Option.bind (opt (list_upto 100 read_role_permission) ''permissions'' j) (\<lambda>_.
     Option.bind (opt read_memory_policy ''memoryPolicy'' j) (\<lambda>_.
     Option.bind (opt (list_upto 100 (text_in 0 200)) ''skills'' j) (\<lambda>_.
     Option.bind (opt (list_upto 100 (text_in 0 200)) ''allowedTools'' j) (\<lambda>_.
     Option.bind (opt as_stamp ''createdAt'' j) (\<lambda>_.
     Some \<lparr> ar_id = i, ar_sops = so, ar_active = ac \<rparr>)))))))))))))))"

section \<open>State and environment\<close>

record 's agent =
  ag_store :: 's
  ag_tenant_rl :: limiter
  ag_user_rl :: limiter
  ag_aborted :: "string list"
  ag_bus :: "(string \<times> string \<times> fields) list"
  ag_started :: "string list"
  ag_draws :: nat

record 's agent_env =
  an_store :: "'s store"
  an_clock :: int
  an_now :: int
  an_uuid :: "nat \<Rightarrow> string"
  an_hash :: "string \<Rightarrow> string"
  an_show :: "json \<Rightarrow> string"
  an_number :: "string \<Rightarrow> rat option"
  an_scan :: "string \<Rightarrow> string list \<Rightarrow> nat \<Rightarrow> 's \<Rightarrow> (string \<times> json) list"
  an_scope :: "string option"
  an_tenant :: "(string \<Rightarrow> 's \<Rightarrow> string res) option"
  an_connection :: "string \<Rightarrow> 's \<Rightarrow> string option res"
  an_actions :: "'s action_env"
  an_bus :: bool
  an_url :: "string \<Rightarrow> (string \<times> string \<times> string) option"
  an_sample :: bool

type_synonym ('s, 'a) op = "'s agent \<Rightarrow> 'a res \<times> 's agent"

definition fails :: "string \<Rightarrow> nat \<Rightarrow> ('s, 'a) op" where
  "fails m n = throw (AppError m n)"

definition db_read :: "('s \<Rightarrow> 'a) \<Rightarrow> ('s, 'a) op" where
  "db_read f g = (Inr (f (ag_store g)), g)"

definition db_step :: "('s \<Rightarrow> 'a \<times> 's) \<Rightarrow> ('s, 'a) op" where
  "db_step f g = (case f (ag_store g) of (x, s) \<Rightarrow> (Inr x, g\<lparr> ag_store := s \<rparr>))"

definition db_try :: "('s \<Rightarrow> 'a res \<times> 's) \<Rightarrow> ('s, 'a) op" where
  "db_try f g = (case f (ag_store g) of (r, s) \<Rightarrow> (r, g\<lparr> ag_store := s \<rparr>))"

definition bus_note :: "'s agent_env \<Rightarrow> string \<Rightarrow> string \<Rightarrow> fields \<Rightarrow> ('s, unit) op" where
  "bus_note env ty entity payload g = (Inr (), if an_bus env then g\<lparr> ag_bus := ag_bus g @ [(ty, entity, payload)] \<rparr> else g)"

definition abort_run :: "string \<Rightarrow> ('s, unit) op" where
  "abort_run i g = (Inr (), g\<lparr> ag_aborted := ag_aborted g @ [i] \<rparr>)"

definition draw :: "'s agent_env \<Rightarrow> ('s, string) op" where
  "draw env g = (Inr (an_uuid env (ag_draws g)), g\<lparr> ag_draws := ag_draws g + 1 \<rparr>)"

definition get_row :: "'s agent_env \<Rightarrow> string \<Rightarrow> string \<Rightarrow> string \<Rightarrow> ('s, json option) op" where
  "get_row env owner kind i = db_read (s_get (an_store env) owner kind i)"

definition cas_row :: "'s agent_env \<Rightarrow> string \<Rightarrow> string \<Rightarrow> string \<Rightarrow> fields \<Rightarrow> fields \<Rightarrow> ('s, json option) op" where
  "cas_row env owner kind i expected patch = db_step (s_cas (an_store env) (an_clock env) owner kind i (JObj expected) (JObj patch))"

definition insert_row :: "'s agent_env \<Rightarrow> string \<Rightarrow> string \<Rightarrow> json \<Rightarrow> ('s, json option) op" where
  "insert_row env owner kind v = db_step (s_insert (an_store env) (an_clock env) owner kind v)"

definition put_row :: "'s agent_env \<Rightarrow> string \<Rightarrow> string \<Rightarrow> json \<Rightarrow> ('s, json) op" where
  "put_row env owner kind v = db_step (\<lambda>s. (v, s_put (an_store env) (an_clock env) owner kind v s))"

definition log_event :: "'s agent_env \<Rightarrow> string \<Rightarrow> string \<Rightarrow> string \<Rightarrow> string \<Rightarrow> ('s, unit) op" where
  "log_event env owner i title detail = then_do (draw env) (\<lambda>u. then_do (put_row env owner ''run-events''
     (JObj [(''id'', JStr u), (''taskId'', JStr i), (''kind'', JStr ''status''), (''date'', JDate (an_now env)),
       (''title'', JStr title), (''detail'', JStr detail)])) (\<lambda>_. give ()))"

section \<open>Creating a task\<close>

definition nothing_found :: "string \<Rightarrow> json option \<Rightarrow> ('s, json) op" where
  "nothing_found m v = (case v of None \<Rightarrow> fails m 404 | Some t \<Rightarrow> give t)"

definition get_task :: "'s agent_env \<Rightarrow> string \<Rightarrow> string \<Rightarrow> ('s, json) op" where
  "get_task env owner i = then_do (get_row env owner ''tasks'' i) (nothing_found ''Task not found'')"

definition list_agents :: "'s agent_env \<Rightarrow> string \<Rightarrow> 's \<Rightarrow> agent_role list" where
  "list_agents env owner s = List.map_filter read_agent_role (s_list (an_store env) owner ''agent-roles'' no_options s)"

definition pick_role :: "agent_role list \<Rightarrow> task_kind \<Rightarrow> fields \<Rightarrow> string option" where
  "pick_role roles kind inp = (let active = filter ar_active roles;
       named = (\<lambda>i. map_option ar_id (find (\<lambda>r. ar_id r = i) active))
     in case kind of
          KSop \<Rightarrow> (case map_of inp ''sopId'' of Some (JStr i) \<Rightarrow>
              if i = [] then None else map_option ar_id (find (\<lambda>r. i \<in> set (ar_sops r)) active) | _ \<Rightarrow> None)
        | KMonitor \<Rightarrow> (case named ''operaciones'' of Some i \<Rightarrow> Some i
            | None \<Rightarrow> map_option ar_id (find (\<lambda>r. ''monitor'' \<in> set (ar_sops r) \<or> ''watch'' \<in> set (ar_sops r)) active))
        | KFinance \<Rightarrow> named ''finanzas''
        | KDocument \<Rightarrow> named ''administrativo''
        | _ \<Rightarrow> None)"

definition tenant_or :: "'s agent_env \<Rightarrow> string \<Rightarrow> string \<Rightarrow> ('s, string) op" where
  "tenant_or env owner missing = (case an_tenant env of None \<Rightarrow> give missing | Some f \<Rightarrow> db_try (\<lambda>s. (f owner s, s)))"

definition guard_tenant :: "'s agent_env \<Rightarrow> string \<Rightarrow> ('s, string) op" where
  "guard_tenant env owner = (case an_scope env of Some t \<Rightarrow> give t | None \<Rightarrow> tenant_or env owner owner)"

definition open_statuses :: "string list" where
  "open_statuses = [''queued'', ''running'', ''waiting_input'', ''waiting_approval'', ''scheduled'', ''paused'']"

text \<open>The count of open tasks, over the first page of 500 of all owners; it stops at a hundred.\<close>

definition active_count :: "'s agent_env \<Rightarrow> string \<Rightarrow> 's \<Rightarrow> nat" where
  "active_count env owner s = min 100 (length (filter (\<lambda>r. fst r = owner) (an_scan env ''tasks'' open_statuses 500 s)))"

definition take_tenant :: "'s agent_env \<Rightarrow> string \<Rightarrow> string \<Rightarrow> ('s, bool) op" where
  "take_tenant env tenant owner g = (case take_for_tenant (an_now env) tenant owner ''createTask'' (ag_tenant_rl g) of
     (r, l) \<Rightarrow> (Inr (rl_allowed r), g\<lparr> ag_tenant_rl := l \<rparr>))"

definition take_user :: "'s agent_env \<Rightarrow> string \<Rightarrow> ('s, bool) op" where
  "take_user env owner g = (case take_for_user (an_now env) owner ''createTask'' (ag_user_rl g) of
     (r, l) \<Rightarrow> (Inr (rl_allowed r), g\<lparr> ag_user_rl := l \<rparr>))"

fun plan_titles :: "task_kind \<Rightarrow> string list" where
  "plan_titles KDocument = [''Find the source document'', ''Fill a new copy'', ''Prepare a reply'', ''Wait for your decision'', ''Record the outcome'']"
| "plan_titles KMonitor = [''Check the source'', ''Compare with the last observation'', ''Report a meaningful change'']"
| "plan_titles KFinance = [''Validate transactions'', ''Calculate the summary'', ''Save your tracker'']"
| "plan_titles KAgent = [''Understand the outcome'', ''Plan the work'', ''Use connected tools'', ''Return a result'']"
| "plan_titles KPlan = [''Understand the outcome'', ''Plan the work'', ''Use connected tools'', ''Return a result'']"
| "plan_titles KSop = []"

definition ensure_owner :: "'s agent_env \<Rightarrow> string \<Rightarrow> ('s, unit) op" where
  "ensure_owner env owner =
     then_do (insert_row env owner ''agent-settings'' (JObj [(''id'', JStr ''identity''), (''name'', JStr ''OpenMuse''), (''tone'', JStr ''warm'')])) (\<lambda>_.
     then_do (tenant_or env owner ''default'') (\<lambda>t.
     then_do (insert_row env owner ''tenant-membership'' (JObj [(''id'', JStr ''default''), (''tenantId'', JStr t), (''updatedAt'', JDate (an_now env))])) (\<lambda>_.
     give ())))"

definition admission :: "'s agent_env \<Rightarrow> string \<Rightarrow> ('s, string) op" where
  "admission env owner =
     then_do (guard_tenant env owner) (\<lambda>tenant.
     then_do (db_read (active_count env owner)) (\<lambda>n.
     if n \<ge> 100 then fails ''Finish or cancel some tasks before adding more'' 409
     else then_do (db_read (check_task_creation (an_store env) (an_show env) tenant n)) (\<lambda>over. case over of
       Some e \<Rightarrow> throw e
     | None \<Rightarrow> then_do (take_tenant env tenant owner) (\<lambda>ok. if \<not> ok then fails ''Rate limit del tenant superado'' 429
         else then_do (take_user env owner) (\<lambda>ok. if \<not> ok then fails ''Has creado demasiadas tareas. Espera un momento.'' 429
         else give tenant)))))"

definition numbered_plan :: "string list \<Rightarrow> json" where
  "numbered_plan titles = JArr (map (\<lambda>(i, t). JObj [(''id'', JStr (nat_text i)), (''title'', JStr t), (''status'', JStr ''pending'')])
     (enumerate 0 titles))"

definition new_task :: "'s agent_env \<Rightarrow> string \<Rightarrow> string \<Rightarrow> string \<Rightarrow> task_input \<Rightarrow> bool \<Rightarrow> string option \<Rightarrow> string option \<Rightarrow> json" where
  "new_task env owner i tenant inp hold role conn = JObj ([(''id'', JStr i), (''tenantId'', JStr tenant),
       (''title'', JStr (text_or (take 90 (ct_prompt inp)) (ct_title inp))), (''prompt'', JStr (ct_prompt inp)),
       (''kind'', JStr (task_kind_text (ct_kind inp)))]
     @ present ''goalId'' JStr (ct_goal inp)
     @ [(''assignedTo'', JStr (text_or owner (ct_assigned inp))), (''status'', JStr (if hold then ''paused'' else ''queued'')),
       (''plan'', numbered_plan (if ct_kind inp = KSop then [] else plan_titles (ct_kind inp))), (''evidence'', JArr []),
       (''input'', JObj (ct_input inp)),
       (''state'', JObj ([(''connectionId'', case conn of None \<Rightarrow> JNull | Some c \<Rightarrow> JStr c)]
          @ present ''roleId'' JStr (given_text role)
          @ (if ct_kind inp = KSop then copy_field ''sopId'' ''sopId'' (JObj (ct_input inp))
               @ [(''sopStepIndex'', JNum 0), (''sopResults'', JObj []), (''sopStack'', JArr (map snd (copy_field ''sopId'' ''sopId'' (JObj (ct_input inp)))))] else [])
          @ (if hold \<and> ct_kind inp = KMonitor then [(''initializingMonitor'', JBool True)] else []))),
       (''createdAt'', JDate (an_now env)), (''updatedAt'', JDate (an_now env)), (''attempts'', JNum 0), (''leaseId'', JNull),
       (''leaseUntil'', JNull), (''artifactIds'', JArr [])])"

text \<open>The checks before the task's identifier is known.\<close>

definition create_checks :: "'s agent_env \<Rightarrow> string \<Rightarrow> task_input \<Rightarrow> ('s, unit) op" where
  "create_checks env owner inp =
     then_do (case given_text (ct_goal inp) of None \<Rightarrow> give True
       | Some i \<Rightarrow> then_do (get_row env owner ''goals'' i) (\<lambda>r. give (r \<noteq> None))) (\<lambda>ok.
     if \<not> ok then fails ''Goal not found'' 404
     else if ct_kind inp = KSop \<and> jstr (map_of (ct_input inp) ''sopId'') = None then fails ''SOP tasks require input.sopId'' 422
     else if ct_kind inp = KDocument \<and> jstr (map_of (ct_input inp) ''messageId'') = None
     then fails ''document tasks require input.messageId (an email with a PDF)'' 422
     else give ())"

definition store_task :: "'s agent_env \<Rightarrow> string \<Rightarrow> string \<Rightarrow> json \<Rightarrow> ('s, json) op" where
  "store_task env owner i task =
     then_do (insert_row env owner ''tasks'' task) (\<lambda>inserted. case inserted of
       None \<Rightarrow> then_do (get_row env owner ''tasks'' i) (\<lambda>r. case r of
           None \<Rightarrow> fails ''Task insertion could not be confirmed'' 503 | Some t \<Rightarrow> give t)
     | Some _ \<Rightarrow> then_do (bus_note env ''task.created'' i ([(''taskId'', JStr i), (''title'', jslice 200 (field_or_null ''title'' task))]
           @ copy_field ''kind'' ''kind'' task
           @ concat (map (\<lambda>k. case map_of (task_state task) k of Some (JStr x) \<Rightarrow> [(k, JStr x)] | _ \<Rightarrow> []) [''projectId'', ''clientId'', ''roleId'']))) (\<lambda>_.
         then_do (get_row env owner ''tasks'' i) (\<lambda>r. give (case r of None \<Rightarrow> task | Some t \<Rightarrow> t))))"

text \<open>Creation under an identifier: a task that is there already is the answer.\<close>

definition create_under :: "'s agent_env \<Rightarrow> string \<Rightarrow> task_input \<Rightarrow> bool \<Rightarrow> string \<Rightarrow> ('s, json) op" where
  "create_under env owner inp hold i =
     then_do (get_row env owner ''tasks'' i) (\<lambda>found. case found of
       Some t \<Rightarrow> give t
     | None \<Rightarrow>
        then_do (admission env owner) (\<lambda>tenant.
        then_do (db_read (\<lambda>s. case ct_role inp of Some r \<Rightarrow> Some r | None \<Rightarrow> pick_role (list_agents env owner s) (ct_kind inp) (ct_input inp))) (\<lambda>role.
        then_do (db_try (\<lambda>s. (an_connection env owner s, s))) (\<lambda>conn.
        then_do (ensure_owner env owner) (\<lambda>_.
        store_task env owner i (new_task env owner i tenant inp hold role conn))))))"

definition create_task :: "'s agent_env \<Rightarrow> string \<Rightarrow> json \<Rightarrow> string option \<Rightarrow> bool \<Rightarrow> ('s, json) op" where
  "create_task env owner raw idem hold = (case read_create raw of
     None \<Rightarrow> throw zod_error
   | Some inp \<Rightarrow>
       then_do (create_checks env owner inp) (\<lambda>_.
       then_do (case given_text idem of Some k \<Rightarrow> give (an_hash env (''task:'' @ k)) | None \<Rightarrow> draw env) (\<lambda>i.
       create_under env owner inp hold i)))"

text \<open>\<open>checkTenantRateLimit\<close>: the limiter is built for the call.\<close>

definition check_tenant_rate_limit :: "'s agent_env \<Rightarrow> string \<Rightarrow> string \<Rightarrow> nat \<Rightarrow> int \<Rightarrow> nat \<Rightarrow> ('s, rl_result) op" where
  "check_tenant_rate_limit env owner action limit window max_keys = then_do (tenant_or env owner owner) (\<lambda>t.
     give (fst (take_for_tenant (an_now env) t owner action \<lparr> rl_limit = limit, rl_window = window, rl_max = max_keys, rl_buckets = [] \<rparr>)))"

section \<open>Controlling a task\<close>

definition terminal :: "json \<Rightarrow> bool" where
  "terminal t \<longleftrightarrow> jstatus t \<in> {Some ''succeeded'', Some ''failed'', Some ''cancelled''}"

datatype control = Pause | Resume | Cancel | Retry

fun control_text :: "control \<Rightarrow> string" where
  "control_text Pause = ''pause''" | "control_text Resume = ''resume''" | "control_text Cancel = ''cancel''" | "control_text Retry = ''retry''"

definition null_or :: "json option \<Rightarrow> json" where
  "null_or v = (case v of None \<Rightarrow> JNull | Some x \<Rightarrow> x)"

text \<open>What the compare-and-swap of the user's operations expects: the status and the lease as they were read.\<close>

definition as_read :: "json \<Rightarrow> fields" where
  "as_read t = copy_field ''status'' ''status'' t @ [(''leaseId'', null_or (jget t ''leaseId''))]"

definition control_status :: "control \<Rightarrow> json \<Rightarrow> string" where
  "control_status a t = (case a of Cancel \<Rightarrow> ''cancelled'' | Pause \<Rightarrow> ''paused''
     | _ \<Rightarrow> if truthy_text t ''actionId'' \<noteq> None then ''waiting_approval'' else ''queued'')"

definition control_refusal :: "control \<Rightarrow> json \<Rightarrow> err option" where
  "control_refusal a t = (if a = Cancel \<and> jstatus t = Some ''succeeded'' then Some (AppError ''This task is already complete'' 409)
     else if a = Retry \<and> jstatus t \<noteq> Some ''failed'' then Some (AppError ''Only failed tasks can be retried'' 409)
     else if a = Resume \<and> jstatus t \<noteq> Some ''paused'' then Some (AppError ''Only paused tasks can be resumed'' 409)
     else None)"

definition apostrophe :: string where
  "apostrophe = [CHR 0x27]"

definition control_patch :: "'s agent_env \<Rightarrow> control \<Rightarrow> json \<Rightarrow> fields" where
  "control_patch env a t = [(''status'', JStr (control_status a t)), (''leaseId'', JNull), (''leaseUntil'', JNull), (''error'', JNull),
     (''updatedAt'', JDate (an_now env)),
     (''result'', JStr (case a of Cancel \<Rightarrow> ''Stopped by you.'' | Pause \<Rightarrow> ''Paused. Resume when you'' @ apostrophe @ ''re ready.'' | _ \<Rightarrow> []))]
     @ (if jtext t ''kind'' = Some ''monitor'' \<and> a = Resume
        then [(''state'', state_with t [(''failures'', JNum 0), (''notice'', JNull)] [])] else [])"

definition retry_check :: "'s agent_env \<Rightarrow> string \<Rightarrow> control \<Rightarrow> json \<Rightarrow> ('s, unit) op" where
  "retry_check env owner a t = (case truthy_text t ''actionId'' of None \<Rightarrow> give ()
     | Some i \<Rightarrow> if a \<noteq> Retry then give ()
         else then_do (get_row env owner ''actions'' i) (\<lambda>found. case found of
           None \<Rightarrow> give ()
         | Some p \<Rightarrow> if jstatus p = Some ''succeeded'' then give ()
             else fails ''Check the reviewed action before retrying; its outcome may be uncertain. Start a new task when reconciled.'' 409))"

definition monitor_of :: "'s agent_env \<Rightarrow> json \<Rightarrow> string" where
  "monitor_of env t = string_of (an_show env) (map_of (input_of t) ''monitorId'')"

definition follow_monitor :: "'s agent_env \<Rightarrow> string \<Rightarrow> control \<Rightarrow> json \<Rightarrow> ('s, unit) op" where
  "follow_monitor env owner a t = (if jtext t ''kind'' \<noteq> Some ''monitor'' then give ()
     else then_do (cas_row env owner ''monitors'' (monitor_of env t) []
       [(''status'', JStr (case a of Cancel \<Rightarrow> ''stopped'' | Pause \<Rightarrow> ''paused'' | _ \<Rightarrow> ''active'')), (''nextCheckAt'', JDate (an_now env))]) (\<lambda>_. give ()))"

text \<open>The end of a cancellation: the proposal under review is denied, what waits is cleared, and a task
  whose action may still complete is marked.  Both writes start from the task as the control left it.\<close>

definition waiting_keys :: "string list" where
  "waiting_keys = [''pendingApprovalStepId'', ''pendingInputStepId'', ''approvalResult'']"

definition close_waiting :: "'s agent_env \<Rightarrow> string \<Rightarrow> string \<Rightarrow> json option \<Rightarrow> json \<Rightarrow> ('s, json) op" where
  "close_waiting env owner i proposal updated =
     then_do (cas_row env owner ''tasks'' i [(''status'', JStr ''cancelled'')] [(''state'', state_with updated [] waiting_keys)]) (\<lambda>cleared.
     (let final = (case cleared of None \<Rightarrow> updated | Some t \<Rightarrow> t);
          running = (case proposal of None \<Rightarrow> False | Some p \<Rightarrow> jstatus p \<in> {Some ''executing'', Some ''outcome_unknown''})
      in if \<not> running then give final
         else then_do (cas_row env owner ''tasks'' i [(''status'', JStr ''cancelled'')]
           [(''state'', state_with updated [(''externalActionMayComplete'', JBool True)] [])]) (\<lambda>w.
           give (case w of None \<Rightarrow> final | Some t \<Rightarrow> t))))"

definition cancel_rest :: "'s agent_env \<Rightarrow> string \<Rightarrow> string \<Rightarrow> json \<Rightarrow> json \<Rightarrow> ('s, json) op" where
  "cancel_rest env owner i t updated = (case truthy_text t ''actionId'' of None \<Rightarrow> give updated
     | Some aid \<Rightarrow> then_do (get_row env owner ''actions'' aid) (\<lambda>proposal.
         then_do (case proposal of None \<Rightarrow> give ()
           | Some p \<Rightarrow> if jstatus p \<noteq> Some ''awaiting_review'' then give ()
               else then_do (db_try (act_decide (an_store env) (an_actions env) owner (jid p) (text_or_empty p ''hash'') False None)) (\<lambda>_. give ())) (\<lambda>_.
         close_waiting env owner i proposal updated)))"

definition control_task :: "'s agent_env \<Rightarrow> string \<Rightarrow> string \<Rightarrow> control \<Rightarrow> ('s, json) op" where
  "control_task env owner i a =
     then_do (get_task env owner i) (\<lambda>t. case control_refusal a t of
       Some e \<Rightarrow> throw e
     | None \<Rightarrow> if a = Pause \<and> (terminal t \<or> jstatus t = Some ''paused'') then give t
         else then_do (retry_check env owner a t) (\<lambda>_.
         then_do (cas_row env owner ''tasks'' i (as_read t) (control_patch env a t)) (\<lambda>r. case r of
           None \<Rightarrow> fails ''Task changed; refresh and try again'' 409
         | Some updated \<Rightarrow>
            then_do (abort_run i) (\<lambda>_.
            then_do (follow_monitor env owner a t) (\<lambda>_.
            then_do (if a = Cancel then cancel_rest env owner i t updated else give updated) (\<lambda>final.
            then_do (log_event env owner i (''Task '' @ control_status a t) ''Changed by you'') (\<lambda>_.
            then_do (bus_note env ''task.controlled'' i [(''taskId'', JStr i), (''action'', JStr (control_text a))]) (\<lambda>_.
            give final))))))))"

section \<open>Escalation and answers\<close>

text \<open>\<open>UserService.getById\<close>: the data of the user's record.\<close>

definition user_data :: "'s store \<Rightarrow> string \<Rightarrow> 's \<Rightarrow> json option" where
  "user_data S i s = (case s_get S ''system'' ''users'' i s of None \<Rightarrow> None | Some r \<Rightarrow> nullish (jget r ''data'') None)"

definition escalate_task :: "'s agent_env \<Rightarrow> string \<Rightarrow> string \<Rightarrow> string \<Rightarrow> string \<Rightarrow> ('s, json) op" where
  "escalate_task env owner i target reason =
     then_do (get_task env owner i) (\<lambda>t.
     if terminal t then fails ''No se puede escalar una tarea cerrada'' 409
     else then_do (db_read (user_data (an_store env) target)) (\<lambda>found. case found of
       None \<Rightarrow> fails ''El usuario destino no existe o esta inactivo'' 422
     | Some user \<Rightarrow>
        if \<not> truthy (jget user ''active'') then fails ''El usuario destino no existe o esta inactivo'' 422
        else (let why = take 2000 (trim reason) in if why = [] then fails ''Falta el motivo del escalado'' 422
          else then_do (cas_row env owner ''tasks'' i (as_read t)
             [(''assignedTo'', JStr target), (''status'', JStr ''waiting_input''), (''question'', JStr why),
              (''state'', state_with t [(''escalatedTo'', JStr target), (''escalatedAt'', JDate (an_now env))] []),
              (''leaseId'', JNull), (''leaseUntil'', JNull), (''updatedAt'', JDate (an_now env))]) (\<lambda>r. case r of
             None \<Rightarrow> fails ''La tarea cambio; refresca e intentalo de nuevo'' 409
           | Some updated \<Rightarrow>
              then_do (abort_run i) (\<lambda>_.
              then_do (log_event env owner i ''Tarea escalada'' (''Asignada a '' @ string_of (an_show env) (jget user ''name'') @ '': '' @ take 200 why)) (\<lambda>_.
              then_do (insert_row env owner ''notifications'' (JObj [(''id'', JStr (an_hash env (''escalate:'' @ i @ '':'' @ target))),
                 (''taskId'', JStr i), (''title'', JStr ''Te han asignado una tarea''),
                 (''body'', JStr (string_of (an_show env) (jget t ''title'') @ '': '' @ why)), (''createdAt'', JDate (an_now env)),
                 (''read'', JBool False), (''assignedTo'', JStr target)])) (\<lambda>_. give updated)))))))"

definition answer_task :: "'s agent_env \<Rightarrow> string \<Rightarrow> string \<Rightarrow> string \<Rightarrow> fields option \<Rightarrow> ('s, json) op" where
  "answer_task env owner i answer given =
     then_do (get_task env owner i) (\<lambda>t.
     if jstatus t \<noteq> Some ''waiting_input'' then fails ''This task is not waiting for input'' 409
     else if (case truthy_text t ''assignedTo'' of None \<Rightarrow> False | Some x \<Rightarrow> x \<noteq> owner \<and> x \<noteq> ''system'')
     then fails ''Esta tarea esta asignada a otro usuario'' 403
     else then_do (cas_row env owner ''tasks'' i [(''status'', JStr ''waiting_input'')]
        [(''status'', JStr ''queued''), (''question'', JNull),
         (''input'', JObj (fields_merge (input_of t) (case given of None \<Rightarrow> [] | Some fs \<Rightarrow> [(''fields'', JObj fs)]))),
         (''assignedTo'', JStr owner),
         (''state'', state_with t [(''answer'', JStr answer)] [''escalatedTo'', ''escalatedAt'']), (''updatedAt'', JDate (an_now env))]) (\<lambda>r. case r of
        None \<Rightarrow> fails ''Task changed; refresh and try again'' 409
      | Some next \<Rightarrow>
         then_do (bus_note env ''task.status_changed'' i [(''taskId'', JStr i), (''from'', JStr ''waiting_input''), (''to'', JStr ''queued'')]) (\<lambda>_.
         give next)))"

section \<open>Recovery\<close>

fun recover_rows :: "'s agent_env \<Rightarrow> (string \<times> json) list \<Rightarrow> nat \<Rightarrow> ('s, nat) op" where
  "recover_rows env [] n = give n"
| "recover_rows env ((owner, t) # rs) n = (case jdate (jget t ''leaseUntil'') of
     None \<Rightarrow> recover_rows env rs n
   | Some u \<Rightarrow> if u = 0 \<or> u > an_now env then recover_rows env rs n
       else then_do (cas_row env owner ''tasks'' (jid t)
           [(''status'', JStr ''running''), (''leaseId'', null_or (jget t ''leaseId'')), (''leaseUntil'', null_or (jget t ''leaseUntil''))]
           [(''status'', JStr ''queued''), (''leaseId'', JNull), (''leaseUntil'', JNull), (''updatedAt'', JDate (an_now env))]) (\<lambda>r. case r of
         None \<Rightarrow> recover_rows env rs n
       | Some _ \<Rightarrow> then_do (bus_note env ''task.status_changed'' (jid t) [(''taskId'', JStr (jid t)), (''from'', JStr ''running''), (''to'', JStr ''queued'')]) (\<lambda>_.
           recover_rows env rs (n + 1))))"

definition recover_tasks :: "'s agent_env \<Rightarrow> ('s, nat) op" where
  "recover_tasks env g = recover_rows env (an_scan env ''tasks'' [''running''] 5000 (ag_store g)) 0 g"

end
