(* ===== verification/Goals.thy ===== *)
theory Goals
  imports Tasks
begin

text \<open>
  Goals, watches and ideas of \<open>AgentService\<close> (apps/server/src/engine/service.ts), all over the task
  operations of theory Tasks.  A watch (a monitor) owns a task of kind monitor; an accepted idea makes a
  goal and a task under identifiers derived from its own.  The run of a new goal by the orchestrator
  starts in the background: here it is only noted in the state.
\<close>

section \<open>Schemas\<close>

record goal_input =
  gi_title :: string
  gi_description :: string
  gi_category :: string
  gi_milestones :: "string list"

definition read_goal_input :: "json \<Rightarrow> goal_input option" where
  "read_goal_input j = Option.bind (req (trimmed_in 1 160) ''title'' j) (\<lambda>ti.
     Option.bind (dflt [] (text_in 0 4000) ''description'' j) (\<lambda>de.
     Option.bind (dflt ''Personal'' (text_in 0 80) ''category'' j) (\<lambda>ca.
     Option.bind (dflt [] (list_upto 20 (text_in 1 200)) ''milestones'' j) (\<lambda>mi.
     Some \<lparr> gi_title = ti, gi_description = de, gi_category = ca, gi_milestones = mi \<rparr>))))"

record monitor_input =
  mi_title :: string
  mi_url :: string
  mi_condition :: string
  mi_value :: string
  mi_interval :: int

definition minutes :: "json \<Rightarrow> int option" where
  "minutes v = (case as_int v of None \<Rightarrow> None | Some n \<Rightarrow> if 1 \<le> n \<and> n \<le> 10080 then Some n else None)"

definition read_url :: "'s agent_env \<Rightarrow> json \<Rightarrow> string option" where
  "read_url env v = (case text_in 0 4096 v of None \<Rightarrow> None | Some u \<Rightarrow> if an_url env u = None then None else Some u)"

definition positive_price :: "'s agent_env \<Rightarrow> string \<Rightarrow> bool" where
  "positive_price env v = (case an_number env v of None \<Rightarrow> False | Some r \<Rightarrow> 0 < r)"

definition read_monitor_input :: "'s agent_env \<Rightarrow> json \<Rightarrow> monitor_input option" where
  "read_monitor_input env j = Option.bind (req (text_in 1 160) ''title'' j) (\<lambda>ti.
     Option.bind (req (read_url env) ''url'' j) (\<lambda>u.
     Option.bind (dflt ''change'' (one_of [''change'', ''contains'', ''price_below'']) ''condition'' j) (\<lambda>co.
     Option.bind (dflt [] (text_in 0 300) ''value'' j) (\<lambda>va.
     Option.bind (dflt 15 minutes ''intervalMinutes'' j) (\<lambda>n.
     if (co \<noteq> ''change'' \<and> trim va = []) \<or> (co = ''price_below'' \<and> \<not> positive_price env va) then None
     else Some \<lparr> mi_title = ti, mi_url = u, mi_condition = co, mi_value = va, mi_interval = n \<rparr>)))))"

section \<open>Goals\<close>

definition start_goal_run :: "string \<Rightarrow> ('s, unit) op" where
  "start_goal_run i g = (Inr (), g\<lparr> ag_started := ag_started g @ [i] \<rparr>)"

fun draw_milestones :: "'s agent_env \<Rightarrow> string list \<Rightarrow> ('s, json list) op" where
  "draw_milestones env [] = give []"
| "draw_milestones env (t # ts) = then_do (draw env) (\<lambda>u. then_do (draw_milestones env ts) (\<lambda>rest.
     give (JObj [(''id'', JStr u), (''title'', JStr t), (''done'', JBool False)] # rest)))"

definition create_goal :: "'s agent_env \<Rightarrow> string \<Rightarrow> json \<Rightarrow> string option \<Rightarrow> ('s, json) op" where
  "create_goal env owner raw i = (case read_goal_input raw of None \<Rightarrow> throw zod_error
   | Some inp \<Rightarrow>
       then_do (case i of Some x \<Rightarrow> give x | None \<Rightarrow> draw env) (\<lambda>gid.
       then_do (draw_milestones env (gi_milestones inp)) (\<lambda>ms.
       (let goal = JObj [(''id'', JStr gid), (''title'', JStr (gi_title inp)), (''description'', JStr (gi_description inp)),
              (''category'', JStr (gi_category inp)), (''status'', JStr ''active''), (''milestones'', JArr ms), (''createdAt'', JDate (an_now env))]
        in then_do (insert_row env owner ''goals'' goal) (\<lambda>_.
           then_do (get_row env owner ''goals'' gid) (\<lambda>found.
           (let saved = (case found of None \<Rightarrow> goal | Some x \<Rightarrow> x) in
           then_do (start_goal_run (jid saved)) (\<lambda>_. give saved))))))))"

fun pause_all :: "'s agent_env \<Rightarrow> string \<Rightarrow> json list \<Rightarrow> ('s, unit) op" where
  "pause_all env owner [] = give ()"
| "pause_all env owner (t # ts) =
     then_do (catching (then_do (control_task env owner (jid t) Pause) (\<lambda>_. give ())) (\<lambda>_. give ())) (\<lambda>_. pause_all env owner ts)"

definition goal_tasks :: "'s agent_env \<Rightarrow> string \<Rightarrow> string \<Rightarrow> 's \<Rightarrow> json list" where
  "goal_tasks env owner i s = filter (\<lambda>t. jtext t ''goalId'' = Some i \<and> \<not> terminal t \<and> jstatus t \<noteq> Some ''paused'')
     (s_list (an_store env) owner ''tasks'' \<lparr> lo_limit = Some 1000, lo_cursor = None \<rparr> s)"

definition update_goal :: "'s agent_env \<Rightarrow> string \<Rightarrow> string \<Rightarrow> fields \<Rightarrow> ('s, json) op" where
  "update_goal env owner i patch =
     then_do (get_row env owner ''goals'' i) (\<lambda>found. case found of None \<Rightarrow> fails ''Goal not found'' 404
     | Some goal \<Rightarrow>
        then_do (if map_of patch ''status'' = Some (JStr ''paused'')
          then then_do (db_read (goal_tasks env owner i)) (pause_all env owner) else give ()) (\<lambda>_.
        put_row env owner ''goals'' (jmerge goal (JObj patch))))"

section \<open>Watches\<close>

definition url_error :: "'s agent_env \<Rightarrow> string \<Rightarrow> err option" where
  "url_error env u = (case an_url env u of None \<Rightarrow> Some (JsError ''Invalid URL'')
     | Some (protocol, user, password) \<Rightarrow>
         if protocol = ''sample:'' \<and> \<not> an_sample env then Some (AppError ''Sample sources are unavailable in live workspaces'' 422)
         else if protocol \<notin> {''https:'', ''http:'', ''sample:''} \<or> user \<noteq> [] \<or> password \<noteq> [] then Some (AppError ''Use a public HTTP(S) page'' 422)
         else if protocol = ''sample:'' \<and> u \<noteq> ''sample://availability'' then Some (AppError ''Unknown sample source'' 422)
         else None)"

definition activate_monitor :: "'s agent_env \<Rightarrow> string \<Rightarrow> json \<Rightarrow> ('s, unit) op" where
  "activate_monitor env owner m = (if jstatus m \<noteq> Some ''active'' then give ()
     else then_do (get_task env owner (text_or_empty m ''taskId'')) (\<lambda>t.
       if jstatus t \<noteq> Some ''paused'' \<or> \<not> truthy (map_of (task_state t) ''initializingMonitor'') then give ()
       else then_do (cas_row env owner ''tasks'' (jid t)
           [(''status'', JStr ''paused''), (''attempts'', JNum 0), (''state'', JObj [(''initializingMonitor'', JBool True)])]
           [(''status'', JStr ''queued''), (''state'', state_with t [(''initializingMonitor'', JBool False)] [])]) (\<lambda>_. give ())))"

definition watch_prompt :: "monitor_input \<Rightarrow> string" where
  "watch_prompt inp = ''Watch '' @ mi_url inp @ '' for '' @ mi_condition inp @ (if mi_value inp = [] then [] else '': '' @ mi_value inp)"

definition create_monitor :: "'s agent_env \<Rightarrow> string \<Rightarrow> json \<Rightarrow> string option \<Rightarrow> ('s, json) op" where
  "create_monitor env owner raw idem = (case read_monitor_input env raw of None \<Rightarrow> throw zod_error
   | Some inp \<Rightarrow> (case url_error env (mi_url inp) of Some e \<Rightarrow> throw e
     | None \<Rightarrow>
        then_do (case given_text idem of Some k \<Rightarrow> give (an_hash env (''monitor:'' @ k)) | None \<Rightarrow> draw env) (\<lambda>i.
        then_do (get_row env owner ''monitors'' i) (\<lambda>found. case found of
          Some m \<Rightarrow> then_do (activate_monitor env owner m) (\<lambda>_. give m)
        | None \<Rightarrow>
           then_do (create_task env owner (JObj [(''kind'', JStr ''monitor''), (''title'', JStr (mi_title inp)),
               (''prompt'', JStr (watch_prompt inp)), (''input'', JObj [(''monitorId'', JStr i)])]) (Some (''monitor:'' @ i)) True) (\<lambda>t.
           (let m = JObj [(''id'', JStr i), (''taskId'', JStr (jid t)), (''title'', JStr (mi_title inp)), (''url'', JStr (mi_url inp)),
               (''condition'', JStr (mi_condition inp)), (''value'', JStr (mi_value inp)), (''intervalMinutes'', JNum (of_int (mi_interval inp))),
               (''status'', JStr ''active''), (''nextCheckAt'', JDate (an_now env)), (''checks'', JNum 0)]
            in then_do (insert_row env owner ''monitors'' m) (\<lambda>_. then_do (activate_monitor env owner m) (\<lambda>_. give m))))))))"

datatype watch_action = WPause | WResume | WStop | WCheck

definition watch_status :: "watch_action \<Rightarrow> string" where
  "watch_status a = (case a of WPause \<Rightarrow> ''paused'' | WStop \<Rightarrow> ''stopped'' | _ \<Rightarrow> ''active'')"

definition control_monitor :: "'s agent_env \<Rightarrow> string \<Rightarrow> string \<Rightarrow> watch_action \<Rightarrow> ('s, json) op" where
  "control_monitor env owner i a =
     then_do (get_row env owner ''monitors'' i) (\<lambda>found. case found of None \<Rightarrow> fails ''Monitor not found'' 404
     | Some m \<Rightarrow> if jstatus m = Some ''stopped'' \<and> a \<noteq> WStop then fails ''Create a new watch to restart this stopped monitor'' 409
        else then_do (put_row env owner ''monitors'' (jmerge m (JObj [(''status'', JStr (watch_status a)), (''nextCheckAt'', JDate (an_now env))]))) (\<lambda>saved.
          then_do (get_task env owner (text_or_empty m ''taskId'')) (\<lambda>t.
          then_do (case a of
              WPause \<Rightarrow> then_do (control_task env owner (jid t) Pause) (\<lambda>_. give ())
            | WStop \<Rightarrow> then_do (control_task env owner (jid t) Cancel) (\<lambda>_. give ())
            | _ \<Rightarrow> then_do (abort_run (jid t)) (\<lambda>_. then_do (cas_row env owner ''tasks'' (jid t) (as_read t)
                 [(''status'', JStr ''queued''), (''nextRunAt'', JDate (an_now env)), (''leaseId'', JNull), (''leaseUntil'', JNull), (''error'', JNull),
                  (''state'', state_with t [(''failures'', JNum 0), (''notice'', JNull)] [])]) (\<lambda>_. give ()))) (\<lambda>_.
          give saved))))"

section \<open>Ideas\<close>

text \<open>\<open>/word|.../i\<close> somewhere in a text.\<close>

definition has_word :: "string list \<Rightarrow> string \<Rightarrow> bool" where
  "has_word ws x \<longleftrightarrow> (\<exists>w\<in>set ws. sublist w (map lower_char x))"

definition sent_label :: "string \<Rightarrow> bool" where
  "sent_label l \<longleftrightarrow> str_starts ''sent'' (map lower_char l) \<and> (case drop 4 l of [] \<Rightarrow> True | c # _ \<Rightarrow> \<not> word_char c)"

record mail =
  ma_id :: string
  ma_label :: string
  ma_subject :: string
  ma_body :: string
  ma_sender :: string
  ma_attachments :: nat

definition completed_source :: "json list \<Rightarrow> string \<Rightarrow> string \<Rightarrow> bool" where
  "completed_source tasks kind i \<longleftrightarrow> list_ex (\<lambda>t. jstatus t = Some ''succeeded''
     \<and> jtext t ''kind'' = Some kind \<and> map_of (input_of t) ''messageId'' = Some (JStr i)) tasks"

definition obsolete :: "mail list \<Rightarrow> json list \<Rightarrow> string \<Rightarrow> json option \<Rightarrow> bool" where
  "obsolete mails tasks kind v = (case v of
     Some (JStr i) \<Rightarrow> list_ex (\<lambda>m. ma_id m = i \<and> sent_label (ma_label m)) mails \<or> completed_source tasks kind i
   | _ \<Rightarrow> False)"

definition mail_text :: "mail \<Rightarrow> string" where
  "mail_text m = ma_subject m @ '' '' @ ma_body m"

definition mail_evidence :: "mail \<Rightarrow> json" where
  "mail_evidence m = JObj [(''id'', JStr (ma_id m)), (''kind'', JStr ''mail''), (''title'', JStr (ma_subject m)), (''excerpt'', JStr (take 400 (ma_body m)))]"

definition idea_row :: "'s agent_env \<Rightarrow> string \<Rightarrow> string \<Rightarrow> string \<Rightarrow> json \<Rightarrow> string \<Rightarrow> string \<Rightarrow> string \<times> string \<Rightarrow> json" where
  "idea_row env i title reason ev prompt kind source = JObj [(''id'', JStr i), (''title'', JStr title), (''reason'', JStr reason),
     (''evidence'', JArr [ev]), (''prompt'', JStr prompt), (''kind'', JStr kind), (''input'', JObj [(fst source, JStr (snd source))]),
     (''status'', JStr ''new''), (''createdAt'', JDate (an_now env))]"

definition document_idea :: "'s agent_env \<Rightarrow> mail \<Rightarrow> json" where
  "document_idea env m = idea_row env (an_hash env (''document:'' @ ma_id m @ '':'' @ ma_body m)) (''I can help with '' @ ma_subject m)
     (ma_sender m @ '' sent a document that may need your attention. I can prepare it and a reply for your review.'') (mail_evidence m)
     ''Help complete the PDF from and prepare a reply for review.'' ''document'' (''messageId'', ma_id m)"

definition meeting_idea :: "'s agent_env \<Rightarrow> mail \<Rightarrow> json" where
  "meeting_idea env m = idea_row env (an_hash env (''coordination:'' @ ma_id m)) (''I can help coordinate '' @ ma_subject m)
     (ma_sender m @ '' mentioned getting together. I can check your calendar and prepare a response for review.'') (mail_evidence m)
     ''Review the email, check my calendar, and propose a next step. Ask me about missing preferences before preparing a reply.''
     ''agent'' (''messageId'', ma_id m)"

definition goal_idea :: "'s agent_env \<Rightarrow> json \<Rightarrow> json" where
  "goal_idea env g = (let ti = text_or_empty g ''title''; de = text_or_empty g ''description'' in
     idea_row env (an_hash env (''goal:'' @ jid g @ '':'' @ de)) (''Let'' @ apostrophe @ ''s make a plan for '' @ ti)
     ''This goal has no milestones yet. A concrete plan will give it a next step.''
     (JObj [(''id'', JStr (jid g)), (''kind'', JStr ''user''), (''title'', JStr ti), (''excerpt'', JStr de)])
     (''Create an actionable plan for '' @ ti @ ''. '' @ de) ''plan'' (''goalId'', jid g))"

definition fresh_ideas :: "'s agent_env \<Rightarrow> mail list \<Rightarrow> json list \<Rightarrow> json list \<Rightarrow> json list" where
  "fresh_ideas env mails tasks goals =
     map (document_idea env) (take 5 (filter (\<lambda>m. \<not> obsolete mails tasks ''document'' (Some (JStr (ma_id m))) \<and> ma_attachments m > 0
       \<and> has_word [''form'', ''permission'', ''complete'', ''fill'', ''sign''] (mail_text m)) mails))
     @ map (meeting_idea env) (take 5 (filter (\<lambda>m. \<not> obsolete mails tasks ''agent'' (Some (JStr (ma_id m)))
       \<and> has_word [''coffee'', ''meet'', ''available'', ''schedule''] (mail_text m)) mails))
     @ map (goal_idea env) (filter (\<lambda>g. jstatus g = Some ''active'' \<and> jarr (jget g ''milestones'') = []) goals)"

fun retire_ideas :: "'s agent_env \<Rightarrow> string \<Rightarrow> (json \<Rightarrow> bool) \<Rightarrow> json list \<Rightarrow> ('s, unit) op" where
  "retire_ideas env owner old [] = give ()"
| "retire_ideas env owner old (x # xs) =
     then_do (if jstatus x = Some ''new'' \<and> old x
       then then_do (cas_row env owner ''ideas'' (jid x) [(''status'', JStr ''new'')] [(''status'', JStr ''dismissed'')]) (\<lambda>_. give ()) else give ()) (\<lambda>_.
     retire_ideas env owner old xs)"

fun insert_all :: "'s agent_env \<Rightarrow> string \<Rightarrow> string \<Rightarrow> json list \<Rightarrow> ('s, unit) op" where
  "insert_all env owner kind [] = give ()"
| "insert_all env owner kind (x # xs) = then_do (insert_row env owner kind x) (\<lambda>_. insert_all env owner kind xs)"

text \<open>\<open>mails\<close> is what the workspace shows of the inbox.  The goals are read after the ideas of the mails are stored.\<close>

definition refresh_ideas :: "'s agent_env \<Rightarrow> string \<Rightarrow> mail list \<Rightarrow> ('s, json list) op" where
  "refresh_ideas env owner mails =
     then_do (db_read (s_list (an_store env) owner ''tasks'' no_options)) (\<lambda>tasks.
     then_do (db_read (s_list_paged (an_store env) owner ''ideas'' \<lparr> lo_limit = Some 200, lo_cursor = None \<rparr>)) (\<lambda>page.
     then_do (retire_ideas env owner (\<lambda>x. obsolete mails tasks (text_or_empty x ''kind'') (map_of (input_of x) ''messageId'')) (map fst page)) (\<lambda>_.
     then_do (insert_all env owner ''ideas'' (fresh_ideas env mails tasks [])) (\<lambda>_.
     then_do (db_read (s_list (an_store env) owner ''goals'' no_options)) (\<lambda>goals.
     then_do (insert_all env owner ''ideas'' (fresh_ideas env [] tasks goals)) (\<lambda>_.
     then_do (ensure_owner env owner) (\<lambda>_.
     then_do (cas_row env owner ''agent-settings'' ''identity'' [] [(''lastIdeasAt'', JDate (an_now env))]) (\<lambda>_.
     db_read (s_list (an_store env) owner ''ideas'' no_options)))))))))"

text \<open>Deciding on an idea.  A refusal of the task removes the goal and goes to the caller.\<close>

definition accept_idea :: "'s agent_env \<Rightarrow> string \<Rightarrow> string \<Rightarrow> json \<Rightarrow> ('s, json option) op" where
  "accept_idea env owner i idea =
     then_do (create_goal env owner (JObj (copy_field ''title'' ''title'' idea @ copy_field ''description'' ''reason'' idea))
       (Some (an_hash env (''idea-goal:'' @ i)))) (\<lambda>goal.
     then_do (catching (create_task env owner (JObj (copy_field ''title'' ''title'' idea @ copy_field ''prompt'' ''prompt'' idea
           @ copy_field ''kind'' ''kind'' idea @ copy_field ''input'' ''input'' idea @ [(''goalId'', JStr (jid goal))])) (Some (''idea:'' @ i)) False)
         (\<lambda>e. then_do (db_step (\<lambda>s. ((), s_remove (an_store env) owner ''goals'' (jid goal) s))) (\<lambda>_. throw e))) (\<lambda>task.
     then_do (cas_row env owner ''ideas'' i [(''status'', JStr ''accepted'')] [(''taskId'', JStr (jid task))]) (\<lambda>_.
     get_row env owner ''ideas'' i)))"

definition decide_idea :: "'s agent_env \<Rightarrow> string \<Rightarrow> string \<Rightarrow> bool \<Rightarrow> string option \<Rightarrow> ('s, json option) op" where
  "decide_idea env owner i accept prompt =
     then_do (get_row env owner ''ideas'' i) (\<lambda>found. case found of None \<Rightarrow> fails ''Idea not found'' 404
     | Some idea \<Rightarrow>
        if jstatus idea = Some ''dismissed'' \<or> (jstatus idea = Some ''accepted'' \<and> \<not> accept) then give (Some idea)
        else if \<not> accept then cas_row env owner ''ideas'' i [(''status'', JStr ''new'')] [(''status'', JStr ''dismissed'')]
        else if jstatus idea \<noteq> Some ''new'' then accept_idea env owner i idea
        else then_do (cas_row env owner ''ideas'' i [(''status'', JStr ''new'')]
            ([(''status'', JStr ''accepted''), (''taskId'', JStr (an_hash env (''task:idea:'' @ i)))]
              @ (case prompt of Some p \<Rightarrow> [(''prompt'', JStr p)] | None \<Rightarrow> copy_field ''prompt'' ''prompt'' idea))) (\<lambda>claimed.
          then_do (case claimed of Some x \<Rightarrow> give (Some x) | None \<Rightarrow> get_row env owner ''ideas'' i) (\<lambda>now_idea. case now_idea of
            None \<Rightarrow> give None
          | Some x \<Rightarrow> if jstatus x = Some ''accepted'' then accept_idea env owner i x else give (Some x))))"

section \<open>Notifications\<close>

definition notify :: "'s agent_env \<Rightarrow> string \<Rightarrow> string \<Rightarrow> string \<Rightarrow> string option \<Rightarrow> string option \<Rightarrow> ('s, unit) op" where
  "notify env owner title body task key =
     then_do (case given_text key of Some k \<Rightarrow> give (an_hash env k) | None \<Rightarrow> draw env) (\<lambda>i.
     then_do (insert_row env owner ''notifications'' (JObj ([(''id'', JStr i)] @ present ''taskId'' JStr task
       @ [(''title'', JStr title), (''body'', JStr body), (''createdAt'', JDate (an_now env)), (''read'', JBool False)]))) (\<lambda>_. give ()))"

end
