(* ===== verification/TaskProps.thy ===== *)
theory TaskProps
  imports Goals SopLaws
begin

text \<open>
  What the task operations of the service guarantee: equations for its calls (\<open>op_simps\<close>), the effect of
  a control on the row and on the run that holds it, creation under an idempotency key, recovery; and
  what they break: an escalated task that nobody can answer, a cancelled task that keeps what waited.
\<close>

named_theorems op_simps \<open>a call of the service followed by the rest\<close>

section \<open>Calls\<close>

lemma do_calls [op_simps]:
  "then_do (get_row env ow k i) f g = f (s_get (an_store env) ow k i (ag_store g)) g"
  "then_do (db_read h) f' g = f' (h (ag_store g)) g"
  "then_do (cas_row env ow k i e p) f g = f (fst (s_cas (an_store env) (an_clock env) ow k i (JObj e) (JObj p) (ag_store g)))
     (g\<lparr> ag_store := snd (s_cas (an_store env) (an_clock env) ow k i (JObj e) (JObj p) (ag_store g)) \<rparr>)"
  "then_do (insert_row env ow k v) f g = f (fst (s_insert (an_store env) (an_clock env) ow k v (ag_store g)))
     (g\<lparr> ag_store := snd (s_insert (an_store env) (an_clock env) ow k v (ag_store g)) \<rparr>)"
  "then_do (put_row env ow k v) f'' g = f'' v (g\<lparr> ag_store := s_put (an_store env) (an_clock env) ow k v (ag_store g) \<rparr>)"
  by (simp_all add: then_do_def get_row_def db_read_def cas_row_def insert_row_def put_row_def db_step_def split: prod.split)

lemma do_steps [op_simps]:
  "then_do (give x) f g = f x g" "then_do (throw e) f g = (Inl e, g)" "then_do (fails m n) f g = (Inl (AppError m n), g)"
  "throw e g = (Inl e, g)" "fails m n g = (Inl (AppError m n), g)"
  "then_do (abort_run i) f' g = f' () (g\<lparr> ag_aborted := ag_aborted g @ [i] \<rparr>)"
  "then_do (bus_note env ty en p) f' g = f' () (if an_bus env then g\<lparr> ag_bus := ag_bus g @ [(ty, en, p)] \<rparr> else g)"
  "then_do (draw env) f'' g = f'' (an_uuid env (ag_draws g)) (g\<lparr> ag_draws := ag_draws g + 1 \<rparr>)"
  by (simp_all add: then_do_def give_def throw_def fails_def abort_run_def bus_note_def draw_def)

lemma do_nested [op_simps]: "then_do (then_do m f) h g = then_do m (\<lambda>x. then_do (f x) h) g"
  by (simp add: then_do_def split: prod.split sum.split)

lemma do_if [op_simps]: "then_do (if c then a else b) f g = (if c then then_do a f g else then_do b f g)"
  by simp

lemma do_get_task [op_simps]: "then_do (get_task env ow i) f g = (case s_get (an_store env) ow ''tasks'' i (ag_store g) of
    None \<Rightarrow> (Inl (AppError ''Task not found'' 404), g) | Some t \<Rightarrow> f t g)"
  by (simp add: get_task_def op_simps nothing_found_def split: option.split)

lemma do_log [op_simps]: "then_do (log_event env ow i title detail) f g = f ()
    (g\<lparr> ag_draws := ag_draws g + 1, ag_store := s_put (an_store env) (an_clock env) ow ''run-events''
      (JObj [(''id'', JStr (an_uuid env (ag_draws g))), (''taskId'', JStr i), (''kind'', JStr ''status''), (''date'', JDate (an_now env)),
       (''title'', JStr title), (''detail'', JStr detail)]) (ag_store g) \<rparr>)"
  by (simp add: log_event_def op_simps)

lemma give_then: "then_do (give x) f = f x"
  by (rule ext) (simp add: then_do_def give_def)

section \<open>A control and the run it interrupts\<close>

text \<open>The row of a task after an operation, and whether it is some run's.\<close>

abbreviation task_row_of :: "'s agent_env \<Rightarrow> string \<Rightarrow> string \<Rightarrow> 's agent \<Rightarrow> json option" where
  "task_row_of env ow i g \<equiv> s_get (an_store env) ow ''tasks'' i (ag_store g)"

definition no_run :: "json \<Rightarrow> bool" where
  "no_run t \<longleftrightarrow> jget t ''leaseId'' = Some JNull \<and> jget t ''leaseUntil'' = Some JNull \<and> jstatus t \<noteq> Some ''running''"

lemma distinct_control_patch: "distinct (map fst (control_patch env a t))"
  by (auto simp: control_patch_def)

lemma control_patch_sel:
  "map_of (control_patch env a t) ''status'' = Some (JStr (control_status a t))" "map_of (control_patch env a t) ''leaseId'' = Some JNull"
  "map_of (control_patch env a t) ''leaseUntil'' = Some JNull"
  by (simp_all add: control_patch_def)

lemma control_status_range: "control_status a t \<noteq> ''running''"
  by (simp add: control_status_def split: control.split)

lemma jmerge_control:
  assumes "is_obj t"
  shows "jstatus (jmerge t (JObj (control_patch env a t'))) = Some (control_status a t') \<and> no_run (jmerge t (JObj (control_patch env a t')))"
proof -
  note g = jget_jmerge [OF assms distinct_control_patch, of env a t']
  show ?thesis by (simp add: no_run_def jstatus_def jtext_def g control_patch_sel control_status_range)
qed

text \<open>What the parts of a control do to the task's row.\<close>

context record_store
begin

lemma follow_monitor_rows:
  assumes "an_store env = S"
  shows "\<exists>g'. follow_monitor env ow a t g = (Inr (), g') \<and> task_row_of env ow' i g' = task_row_of env ow' i g"
  using assms by (auto simp: follow_monitor_def op_simps give_def get_cas split: option.split)

lemma close_waiting_row:
  assumes "close_waiting env ow i p u g = (Inr final, g')" "an_store env = S" "task_row_of env ow i g = Some u"
    and "jstatus u = Some ''cancelled''" "no_run u"
  shows "task_row_of env ow i g' = Some final \<and> jstatus final = Some ''cancelled'' \<and> no_run final"
proof -
  let ?e = "JObj [(''status'', JStr ''cancelled'')]"
  have kept: "is_obj (jmerge r (JObj [(''state'', x)])) \<and> jstatus (jmerge r (JObj [(''state'', x)])) = Some ''cancelled''
     \<and> no_run (jmerge r (JObj [(''state'', x)]))" if "is_obj r \<and> jstatus r = Some ''cancelled'' \<and> no_run r" for r x
    using that by (simp add: no_run_def jstatus_def jtext_def jget_jmerge)
  have cas: "fst (s_cas S c ow ''tasks'' i ?e (JObj [(''state'', x)]) s) = Some (jmerge r (JObj [(''state'', x)]))"
    if "s_get S ow ''tasks'' i s = Some r" "is_obj r \<and> jstatus r = Some ''cancelled'' \<and> no_run r" for c x s r
    using that by (simp add: cas_result jcontains_fields jstatus_def jtext_Some)
  have u: "is_obj u \<and> jstatus u = Some ''cancelled'' \<and> no_run u" using assms(4,5) by (auto simp: jstatus_def dest: jtext_is_obj)
  let ?x = "state_with u [] waiting_keys" and ?y = "state_with u [(''externalActionMayComplete'', JBool True)] []"
  let ?s = "snd (s_cas S (an_clock env) ow ''tasks'' i ?e (JObj [(''state'', ?x)]) (ag_store g))"
  have g: "s_get S ow ''tasks'' i (ag_store g) = Some u" using assms(2,3) by simp
  note c1 = cas [OF g u, of "an_clock env" ?x]
  have r1: "s_get S ow ''tasks'' i ?s = Some (jmerge u (JObj [(''state'', ?x)]))" using c1 by (simp add: get_cas)
  note c2 = cas [OF r1 kept [OF u], of "an_clock env" ?y]
  show ?thesis
    using assms(1) kept [OF u, of ?x] kept [OF kept [OF u], of ?x ?y] r1 c2
    by (auto simp: close_waiting_def op_simps assms(2) c1 c2 give_def get_cas Let_def split: if_splits)
qed

lemma escalated_row:
  assumes "escalate_task env ow i target reason g = (Inr final, g')" "an_store env = S" "target \<noteq> []"
  shows "task_row_of env ow i g' = Some final \<and> jstatus final = Some ''waiting_input'' \<and> truthy_text final ''assignedTo'' = Some target"
proof -
  obtain t where t: "task_row_of env ow i g = Some t" using assms(1) by (auto simp: escalate_task_def op_simps split: option.splits)
  define p where "p = [(''assignedTo'', JStr target), (''status'', JStr ''waiting_input''), (''question'', JStr (take 2000 (trim reason))),
              (''state'', state_with t [(''escalatedTo'', JStr target), (''escalatedAt'', JDate (an_now env))] []),
              (''leaseId'', JNull), (''leaseUntil'', JNull), (''updatedAt'', JDate (an_now env))]"
  have c: "fst (s_cas (an_store env) (an_clock env) ow ''tasks'' i (JObj (as_read t)) (JObj p) (ag_store g)) = Some final"
    and row: "task_row_of env ow i g' = Some final"
    using assms(1) t by (auto simp: escalate_task_def op_simps give_def Let_def p_def [symmetric] jid_def jtext_def
        get_cas [folded assms(2)] get_put [folded assms(2)] get_insert [folded assms(2)] split: option.splits if_splits)
  have "is_obj t" "final = jmerge t (JObj p)" using cas_SomeD [OF c [unfolded assms(2)]] t assms(2) by (auto simp: as_read_def dest: jcontains_is_obj)
  then have "jget final k = (case map_of p k of Some v \<Rightarrow> Some v | None \<Rightarrow> jget t k)" for k
    by (simp add: jget_jmerge p_def)
  then show ?thesis using row assms(3) by (simp add: jstatus_def jtext_def truthy_text_def p_def)
qed

text \<open>A cancelled task keeps what waited: when its action may still complete, the write of the warning starts
  from the state before the waiting keys were removed, and puts them back.\<close>

lemma cancel_keeps_waiting:
  assumes "close_waiting env ow i (Some p) updated g = (Inr final, g')" "jstatus p \<in> {Some ''executing'', Some ''outcome_unknown''}"
    and "an_store env = S" "task_row_of env ow i g = Some updated" "jstatus updated = Some ''cancelled''"
    and "map_of (task_state updated) k = Some v" "k \<noteq> ''externalActionMayComplete''"
  shows "map_of (task_state final) k = Some v"
proof -
  let ?e = "JObj [(''status'', JStr ''cancelled'')]"
  have o: "is_obj updated" "jget updated ''status'' = Some (JStr ''cancelled'')" using assms(5) by (auto simp: jstatus_def jtext_Some dest: jget_is_obj)
  let ?u = "jmerge updated (JObj [(''state'', state_with updated [] waiting_keys)])"
  have u: "is_obj ?u" "jget ?u ''status'' = Some (JStr ''cancelled'')" using o by (simp_all add: jget_jmerge)
  have cas: "fst (s_cas S c ow ''tasks'' i ?e (JObj [(''state'', x)]) s) = Some (jmerge r (JObj [(''state'', x)]))"
    if "s_get S ow ''tasks'' i s = Some r" "is_obj r" "jget r ''status'' = Some (JStr ''cancelled'')" for c x s r
    using that by (simp add: cas_result jcontains_fields)
  let ?s = "snd (s_cas S (an_clock env) ow ''tasks'' i ?e (JObj [(''state'', state_with updated [] waiting_keys)]) (ag_store g))"
  have c1: "fst (s_cas S (an_clock env) ow ''tasks'' i ?e (JObj [(''state'', state_with updated [] waiting_keys)]) (ag_store g)) = Some ?u"
    using assms(3,4) o by (intro cas) simp_all
  then have "s_get S ow ''tasks'' i ?s = Some ?u" by (simp add: get_cas)
  note c2 = cas [OF this u]
  have "final = jmerge ?u (JObj [(''state'', state_with updated [(''externalActionMayComplete'', JBool True)] [])])"
    using assms(1,2) by (auto simp: close_waiting_def op_simps assms(3) c1 c2 give_def)
  then have "jget final ''state'' = Some (state_with updated [(''externalActionMayComplete'', JBool True)] [])"
    using u by (simp add: jget_jmerge)
  then show ?thesis using assms(6,7) by (simp add: task_state_get state_with_get)
qed

lemma store_task_row:
  assumes "store_task env ow i task g = (Inr t, g')" "an_store env = S" "jid task = i"
  shows "task_row_of env ow i g' = Some t"
  using assms(1,3) insert_result [of "an_clock env" ow "''tasks''" task "ag_store g"] assms(2)
  by (auto simp: store_task_def op_simps give_def get_insert [folded assms(2)] insert_result [folded assms(2)] split: option.splits if_splits)

lemma create_under_row:
  assumes "create_under env ow inp hold i g = (Inr t, g')" "an_store env = S"
  shows "task_row_of env ow i g' = Some t"
proof (cases "task_row_of env ow i g")
  case (Some t0)
  then show ?thesis using assms(1) by (simp add: create_under_def op_simps give_def)
next
  case None
  have id: "jid (new_task env ow i tenant inp hold role conn) = i" for tenant role conn
    by (simp add: new_task_def jid_def jtext_def)
  obtain tenant role conn gy where "store_task env ow i (new_task env ow i tenant inp hold role conn) gy = (Inr t, g')"
    using assms(1) None unfolding create_under_def by (auto simp: do_calls elim!: then_do_InrE)
  then show ?thesis by (rule store_task_row [OF _ assms(2) id])
qed

lemma recover_row_spares:
  assumes "recover_rows env rows n g = (Inr m, g')" "an_store env = S"
    and "task_row_of env ow i g = Some t" "jdate (jget t ''leaseUntil'') = Some u" "u > an_now env"
  shows "task_row_of env ow i g' = Some t"
  using assms(1,3)
proof (induction rows arbitrary: n g)
  case Nil
  then show ?case by (simp add: give_def)
next
  case (Cons r rows)
  obtain ow' t' where r: "r = (ow', t')" by force
  show ?case
  proof (cases "jdate (jget t' ''leaseUntil'')")
    case None
    then show ?thesis using Cons r by simp
  next
    case (Some u')
    show ?thesis
    proof (cases "u' = 0 \<or> u' > an_now env")
      case True
      then show ?thesis using Cons Some r by simp
    next
      case False
      let ?e = "JObj [(''status'', JStr ''running''), (''leaseId'', null_or (jget t' ''leaseId'')), (''leaseUntil'', null_or (jget t' ''leaseUntil''))]"
      let ?p = "JObj [(''status'', JStr ''queued''), (''leaseId'', JNull), (''leaseUntil'', JNull), (''updatedAt'', JDate (an_now env))]"
      let ?s = "snd (s_cas (an_store env) (an_clock env) ow' ''tasks'' (jid t') ?e ?p (ag_store g))"
      have until: "jget t' ''leaseUntil'' = Some (JDate u')" using Some by (simp add: jdate_Some)
      have miss: "\<not> (ow' = ow \<and> jid t' = i \<and> fst (s_cas S (an_clock env) ow' ''tasks'' (jid t') ?e ?p (ag_store g)) \<noteq> None)"
      proof
        assume hit: "ow' = ow \<and> jid t' = i \<and> fst (s_cas S (an_clock env) ow' ''tasks'' (jid t') ?e ?p (ag_store g)) \<noteq> None"
        then have "jcontains t ?e" using Cons.prems(2) assms(2) by (auto simp: cas_result split: if_splits)
        then have "jget t ''leaseUntil'' = Some (JDate u')" using until by (auto simp: jcontains_fields null_or_def jcontains_JDate split: option.splits)
        then show False using assms(4,5) False by simp
      qed
      have keep: "s_get (an_store env) ow ''tasks'' i ?s = Some t"
        using miss Cons.prems(2) assms(2) by (auto simp: get_cas split: option.splits)
      show ?thesis using Cons.prems(1) Cons.IH keep False Some r by (auto simp: op_simps split: option.splits if_splits)
    qed
  qed
qed

end

text \<open>The denial of the linked proposal leaves the task's row alone when the bus and the requests that run
  during it do.\<close>

definition tasks_quiet :: "'s store \<Rightarrow> 's action_env \<Rightarrow> string \<Rightarrow> string \<Rightarrow> bool" where
  "tasks_quiet S env ow i \<longleftrightarrow> (\<forall>s. s_get S ow ''tasks'' i (ae_between env s) = s_get S ow ''tasks'' i s)
     \<and> (\<forall>o' ty e pl s. s_get S ow ''tasks'' i (ae_emit env o' ty e pl s) = s_get S ow ''tasks'' i s)"

context action_store
begin

lemma denial_keeps_task:
  assumes "tasks_quiet S env ow i"
  shows "s_get S ow ''tasks'' i (snd (act_decide S env ow' a h False user s)) = s_get S ow ''tasks'' i s"
proof -
  have q: "s_get S ow ''tasks'' i (ae_between env s) = s_get S ow ''tasks'' i s"
    "s_get S ow ''tasks'' i (act_emit env o' ty x extra s) = s_get S ow ''tasks'' i s"
    "s_get S ow ''tasks'' i (act_record S env n d o' x t s) = s_get S ow ''tasks'' i s"
    "s_get S ow ''tasks'' i (act_audit S env o' x k t s) = s_get S ow ''tasks'' i s" for s o' ty x extra n d t k
    using assms by (simp_all add: tasks_quiet_def act_emit_def act_record_def act_audit_def get_put)
  have claim: "s_get S ow ''tasks'' i (snd (s_claim S c o' x st n s)) = s_get S ow ''tasks'' i s" for c o' x st n s
    by (simp add: get_claim split: option.split)
  have expire: "s_get S ow ''tasks'' i (snd (expire_review S env ow' a h p s)) = s_get S ow ''tasks'' i s" for p s
  proof -
    let ?c = "s_cas S (ae_clock env) ow' ''actions'' a
         (JObj ([(''status'', JStr ''awaiting_review''), (''hash'', JStr h)] @ undef_field ''expiresAt'' (jget p ''expiresAt'')))
         (JObj [(''status'', JStr ''expired'')]) s"
    have "snd (expire_review S env ow' a h p s) = snd ?c"
      unfolding expire_review_def by (cases ?c) (simp split: option.split)
    then show ?thesis by (simp add: get_cas split: option.split)
  qed
  have gate: "s_get S ow ''tasks'' i (snd (decide_gate S env ow' a h False s)) = s_get S ow ''tasks'' i s"
    by (auto simp: decide_gate_def expire split: option.split)
  show ?thesis
  proof (cases "decide_gate S env ow' a h False s")
    case (Pair r s1)
    then have s1: "s_get S ow ''tasks'' i s1 = s_get S ow ''tasks'' i s" using gate by simp
    show ?thesis
      using s1 q Pair claim [of "ae_clock env" ow' a "''denied''" "ae_now env" "ae_between env s1"]
      by (auto simp: act_decide_def Let_def split: sum.split prod.split option.split)
  qed
qed

lemma cancel_rest_row:
  assumes "cancel_rest env ow i t u g = (Inr final, g')" "an_store env = S" "task_row_of env ow i g = Some u"
    and "jstatus u = Some ''cancelled''" "no_run u" "truthy_text t ''actionId'' = None \<or> tasks_quiet S (an_actions env) ow i"
  shows "task_row_of env ow i g' = Some final \<and> jstatus final = Some ''cancelled'' \<and> no_run final"
proof (cases "truthy_text t ''actionId''")
  case None
  then show ?thesis using assms by (simp add: cancel_rest_def give_def)
next
  case (Some aid)
  have keeps: "task_row_of env ow i (snd (db_try (act_decide S (an_actions env) ow a h False None) x)) = task_row_of env ow i x" for a h x
    using denial_keeps_task [of "an_actions env" ow i ow a h None "ag_store x"] assms(2,6) Some
    by (cases "act_decide S (an_actions env) ow a h False None (ag_store x)") (auto simp: db_try_def)
  obtain p g1 where g1: "close_waiting env ow i p u g1 = (Inr final, g')" "task_row_of env ow i g1 = Some u"
    using assms(1,3) Some keeps
    by (auto simp: cancel_rest_def op_simps assms(2) then_do_def [of "db_try _"] split: option.splits if_splits prod.splits sum.splits)
      (metis snd_conv)+
  show ?thesis by (rule close_waiting_row [OF g1(1) assms(2) g1(2) assms(4,5)])
qed

lemma control_row:
  assumes "control_task env ow i a g = (Inr final, g')" "an_store env = S" "task_row_of env ow i g = Some t"
    and "a = Cancel \<longrightarrow> truthy_text t ''actionId'' = None \<or> tasks_quiet S (an_actions env) ow i"
    and "\<not> (a = Pause \<and> (terminal t \<or> jstatus t = Some ''paused''))"
  shows "task_row_of env ow i g' = Some final \<and> jstatus final = Some (control_status a t) \<and> no_run final"
proof -
  let ?e = "JObj (as_read t)" and ?p = "JObj (control_patch env a t)"
  have ok: "control_refusal a t = None" using assms(1-3) by (auto simp: control_task_def op_simps split: option.splits)
  have retry: "retry_check env ow a t g = (Inr (), g)"
    using assms(1-3,5) ok by (auto simp: control_task_def op_simps retry_check_def give_def then_do_def [of "retry_check env ow a t"]
        split: option.splits if_splits prod.splits sum.splits)
  obtain u where u: "fst (s_cas S (an_clock env) ow ''tasks'' i ?e ?p (ag_store g)) = Some u"
    using assms(1-3,5) ok retry by (auto simp: control_task_def op_simps then_do_def [of "retry_check env ow a t"] split: option.splits)
  let ?g = "g\<lparr> ag_store := snd (s_cas S (an_clock env) ow ''tasks'' i ?e ?p (ag_store g)), ag_aborted := ag_aborted g @ [i] \<rparr>"
  obtain g1 where g1: "follow_monitor env ow a t ?g = (Inr (), g1)" "task_row_of env ow i g1 = task_row_of env ow i ?g"
    using follow_monitor_rows [OF assms(2)] by blast
  have row: "task_row_of env ow i g1 = Some u" using u assms(2) g1(2) by (simp add: get_cas)
  have j: "u = jmerge t ?p" "is_obj t"
    using cas_SomeD [OF u] assms(2,3) by (auto simp: as_read_def dest: jcontains_is_obj)
  note st = jmerge_control [OF j(2), of env a t, folded j(1)]
  obtain g2 where g2: "(if a = Cancel then cancel_rest env ow i t u else give u) g1 = (Inr final, g2)" "task_row_of env ow i g' = task_row_of env ow i g2"
    using assms(1-3,5) ok u g1 retry
    by (auto simp: control_task_def op_simps then_do_def [of "retry_check env ow a t"] then_do_def [of "follow_monitor env ow a t"]
        then_do_def [of "cancel_rest env ow i t u"] get_put [folded assms(2)] jid_def jtext_def give_def split: if_splits prod.splits sum.splits)
  show ?thesis
  proof (cases "a = Cancel")
    case True
    then show ?thesis using cancel_rest_row [OF _ assms(2) row, of t final g2] g2 st assms(4) by (simp add: control_status_def)
  next
    case False
    then show ?thesis using g2 st row by (auto simp: give_def)
  qed
qed

end

text \<open>The limit of a tenant's chat refuses nobody: each call takes from a limiter of its own.\<close>

lemma tenant_limit_never_refuses:
  "check_tenant_rate_limit env ow action limit window m g = (Inr r, g') \<Longrightarrow> rl_allowed r"
  by (auto simp: check_tenant_rate_limit_def take_for_tenant_def rl_take_def elim!: then_do_InrE)

text \<open>The count of open tasks looks at the first 500 rows of all owners: with that many of others before
  them, no number of the owner's own tasks reaches the limit.\<close>

lemma count_misses_owner:
  assumes "an_scan env = st_scan_by_status" "list_all (\<lambda>r. fst r \<noteq> ow) (st_scan_by_status ''tasks'' open_statuses 500 s)"
  shows "active_count env ow s = 0"
  using assms by (simp add: active_count_def list_all_iff filter_empty_conv)

section \<open>A sample desk\<close>

definition desk_env :: "table agent_env" where
  "desk_env = \<lparr> an_store = plain_store, an_clock = 20, an_now = 500, an_uuid = nat_text, an_hash = (\<lambda>x. CHR ''h'' # x), an_show = \<lambda>_. [],
     an_number = \<lambda>_. None, an_scan = st_scan_by_status, an_scope = None, an_tenant = None, an_connection = \<lambda>_ _. Inr None,
     an_actions = sample_service, an_bus = True, an_url = \<lambda>_. None, an_sample = False \<rparr>"

definition desk :: "table \<Rightarrow> table agent" where
  "desk d = \<lparr> ag_store = d, ag_tenant_rl = \<lparr> rl_limit = 1, rl_window = 1000, rl_max = 9, rl_buckets = [] \<rparr>,
     ag_user_rl = \<lparr> rl_limit = 1, rl_window = 1000, rl_max = 9, rl_buckets = [] \<rparr>, ag_aborted = [], ag_bus = [], ag_started = [], ag_draws = 0 \<rparr>"

definition busy_desk :: "table agent" where
  "busy_desk = desk ([((''system'', ''users'', ''u2''), JObj [(''id'', JStr ''u2''), (''data'', JObj [(''name'', JStr ''Eva''), (''active'', JBool True)])], 1)] @ claimed_task)"

lemma desk_env_store: "an_store desk_env = plain_store"
  by (simp add: desk_env_def)

lemma ok_result: "is_ok (fst x) \<Longrightarrow> \<exists>y g. x = (Inr y, g)"
  by (cases x) (auto elim: is_okE)

section \<open>Properties\<close>

text \<open>C11: a control by the user fences the run.  After a pause, a resume, a retry or a cancellation that did
  something, the task's row has the status of the control and belongs to no run: whatever lease a run
  still has, its checkpoints and its heartbeats are refused and change nothing.  A task may be linked to an
  action: then a cancellation also denies the proposal under review and rewrites the task's state, and what the
  theorem asks is that the bus and the requests that run during the denial leave the task's row alone.  The store
  is the plain one.\<close>
theorem control_fences_run:
  assumes "control_task env ow i a g = (Inr final, g')" "an_store env = plain_store" "task_row_of env ow i g = Some t"
    and "a = Cancel \<longrightarrow> truthy_text t ''actionId'' = None \<or> tasks_quiet plain_store (an_actions env) ow i"
    and "\<not> (a = Pause \<and> (terminal t \<or> jstatus t = Some ''paused''))"
  shows "task_row_of env ow i g' = Some final \<and> jstatus final = Some (control_status a t) \<and> no_run final
    \<and> checkpoint plain_store clock now aborted ow i l fs (ag_store g') = (Inl LostLease, ag_store g')
    \<and> heartbeat plain_store clock now ms ow i l (ag_store g') = (True, ag_store g')"
proof -
  have n: "task_row_of env ow i g' = Some final \<and> jstatus final = Some (control_status a t) \<and> no_run final"
    by (rule pa.control_row [OF assms])
  then have "lease_write plain_store clock ow i l q (ag_store g') = (None, ag_store g')" for q
    using assms(2) by (auto simp: lease_write_def st_cas_def jcontains_held no_run_def)
  then show ?thesis using n by (simp add: checkpoint_def heartbeat_def)
qed

definition linked_desk :: "table agent" where
  "linked_desk = desk (((''u1'', ''tasks'', ''t1''), JObj [(''id'', JStr ''t1''), (''status'', JStr ''running''), (''leaseId'', JStr ''L1''),
     (''actionId'', JStr ''a1''), (''state'', JObj [])], 5) # review_table)"

theorem control_fences_run_witness:
  "\<exists>final g. control_task desk_env ''u1'' ''t1'' Cancel linked_desk = (Inr final, g) \<and> jstatus final = Some ''cancelled''
     \<and> heartbeat plain_store 30 600 1000 ''u1'' ''t1'' ''L1'' (ag_store g) = (True, ag_store g)"
proof -
  have "is_ok (fst (control_task desk_env ''u1'' ''t1'' Cancel linked_desk))" by code_simp
  then obtain final g where r: "control_task desk_env ''u1'' ''t1'' Cancel linked_desk = (Inr final, g)" using ok_result by blast
  have "task_row_of desk_env ''u1'' ''t1'' linked_desk \<noteq> None" by code_simp
  then obtain t where t: "task_row_of desk_env ''u1'' ''t1'' linked_desk = Some t" by blast
  have q: "Cancel = Cancel \<longrightarrow> truthy_text t ''actionId'' = None \<or> tasks_quiet plain_store (an_actions desk_env) ''u1'' ''t1''"
    by (simp add: tasks_quiet_def desk_env_def sample_service_def)
  have "\<not> (Cancel = Pause \<and> (terminal t \<or> jstatus t = Some ''paused''))" by simp
  from control_fences_run [OF r desk_env_store t q this, of 30 600 False "''L1''" "[]" 1000] show ?thesis
    using r by (auto simp: control_status_def)
qed

text \<open>C28: an escalated task can be answered by nobody.  Once a task is escalated to another user its owner's
  answer is refused, and the answer of anyone else, looked up under that user, finds no task (unless that
  user has a task of the same identifier): the question can only be escalated again or cancelled.\<close>
theorem escalated_cannot_be_answered:
  assumes "escalate_task env ow i target reason g = (Inr final, g')" "an_store env = plain_store" "target \<notin> {ow, ''system'', []}"
    and "other \<noteq> ow" "st_get other ''tasks'' i (ag_store g') = None"
  shows "answer_task env ow i answer given g' = (Inl (AppError ''Esta tarea esta asignada a otro usuario'' 403), g')
    \<and> answer_task env other i answer given g' = (Inl (AppError ''Task not found'' 404), g')"
proof -
  have u: "st_get ow ''tasks'' i (ag_store g') = Some final" "jstatus final = Some ''waiting_input''" "truthy_text final ''assignedTo'' = Some target"
    using ps.escalated_row [OF assms(1,2)] assms(2,3) by simp_all
  then show ?thesis using assms(2-5) by (simp add: answer_task_def op_simps)
qed

theorem escalated_cannot_be_answered_witness:
  "\<exists>final g. escalate_task desk_env ''u1'' ''t1'' ''u2'' ''why'' busy_desk = (Inr final, g)
     \<and> answer_task desk_env ''u1'' ''t1'' ''yes'' None g = (Inl (AppError ''Esta tarea esta asignada a otro usuario'' 403), g)
     \<and> answer_task desk_env ''u2'' ''t1'' ''yes'' None g = (Inl (AppError ''Task not found'' 404), g)"
proof -
  have "is_ok (fst (escalate_task desk_env ''u1'' ''t1'' ''u2'' ''why'' busy_desk))" by code_simp
  then obtain final g where r: "escalate_task desk_env ''u1'' ''t1'' ''u2'' ''why'' busy_desk = (Inr final, g)" using ok_result by blast
  have "st_get ''u2'' ''tasks'' ''t1'' (ag_store (snd (escalate_task desk_env ''u1'' ''t1'' ''u2'' ''why'' busy_desk))) = None" by code_simp
  then have n: "st_get ''u2'' ''tasks'' ''t1'' (ag_store g) = None" using r by simp
  have d: "''u2'' \<notin> {''u1'', ''system'', []}" "''u2'' \<noteq> ''u1''" by simp_all
  show ?thesis using escalated_cannot_be_answered [OF r desk_env_store d n] r by blast
qed

text \<open>Creation is idempotent.  A task created under an idempotency key is the row under the hash of that
  key; as long as the owner has that row, creating again under the key, whatever the new request says
  (as far as it is valid) and whatever limits are reached, returns the row as it now is and changes nothing.\<close>
theorem create_task_once:
  assumes "create_task env ow raw (Some k) hold g = (Inr t, g1)" "k \<noteq> []" "an_store env = plain_store"
    and "task_row_of env ow (an_hash env (''task:'' @ k)) g2 = Some t'" "read_create raw' = Some inp'" "create_checks env ow inp' g2 = (Inr (), g2)"
  shows "task_row_of env ow (an_hash env (''task:'' @ k)) g1 = Some t \<and> create_task env ow raw' (Some k) hold' g2 = (Inr t', g2)"
proof -
  let ?i = "an_hash env (''task:'' @ k)"
  have key: "given_text (Some k) = Some k" using assms(2) by (simp add: given_text_def)
  obtain inp where inp: "read_create raw = Some inp" using assms(1) by (cases "read_create raw") (simp_all add: create_task_def op_simps)
  have "then_do (create_checks env ow inp) (\<lambda>_. create_under env ow inp hold ?i) g = (Inr t, g1)"
    using assms(1) unfolding create_task_def inp key option.case give_then by simp
  then obtain gx where "create_under env ow inp hold ?i gx = (Inr t, g1)" by (rule then_do_InrE)
  then have "task_row_of env ow ?i g1 = Some t" by (rule ps.create_under_row [OF _ assms(3)])
  moreover have "create_task env ow raw' (Some k) hold' g2 = (Inr t', g2)"
    using assms(4-6) unfolding create_task_def key by (simp add: then_do_Inr [where m = "create_checks env ow inp'" and s = g2, OF assms(6)] create_under_def op_simps give_def)
  ultimately show ?thesis by simp
qed

theorem create_task_once_witness:
  "\<exists>t g. create_task desk_env ''u1'' (JObj [(''prompt'', JStr ''go'')]) (Some ''k'') False (desk []) = (Inr t, g)
     \<and> create_task desk_env ''u1'' (JObj [(''prompt'', JStr ''other''), (''kind'', JStr ''plan'')]) (Some ''k'') True g = (Inr t, g)"
proof -
  let ?c = "create_task desk_env ''u1'' (JObj [(''prompt'', JStr ''go'')]) (Some ''k'') False (desk [])"
  have "is_ok (fst ?c)" by code_simp
  then obtain t g where r: "?c = (Inr t, g)" using ok_result by blast
  have "case ?c of (r, g) \<Rightarrow> (case r of Inl e \<Rightarrow> False | Inr t \<Rightarrow> task_row_of desk_env ''u1'' (an_hash desk_env (''task:'' @ ''k'')) g = Some t)" by code_simp
  then have row: "task_row_of desk_env ''u1'' (an_hash desk_env (''task:'' @ ''k'')) g = Some t" by (simp add: r)
  obtain inp where i: "read_create (JObj [(''prompt'', JStr ''other''), (''kind'', JStr ''plan'')]) = Some inp" "ct_goal inp = None" "ct_kind inp = KPlan"
    by (simp add: read_create_def req_def opt_def dflt_def trimmed_in_def trim_def is_blank_def len_in_def as_enum_def enum_of_def all_task_kinds_def)
  then have c: "create_checks desk_env ''u1'' inp g = (Inr (), g)"
    by (simp add: create_checks_def given_text_def op_simps give_def)
  show ?thesis using create_task_once [OF r _ desk_env_store row i(1) c] r by auto
qed

text \<open>Recovery takes no live run: whatever the scan returned, a task whose lease has not ended is left as it is.\<close>
theorem recovery_spares_live_runs:
  assumes "recover_tasks env g = (Inr n, g')" "an_store env = plain_store"
    and "task_row_of env ow i g = Some t" "jdate (jget t ''leaseUntil'') = Some u" "u > an_now env"
  shows "task_row_of env ow i g' = Some t"
  by (rule ps.recover_row_spares [OF assms(1) [unfolded recover_tasks_def] assms(2-5)])

theorem recovery_spares_live_runs_witness:
  "\<exists>n g. recover_tasks desk_env (desk claimed_task) = (Inr n, g)
     \<and> task_row_of desk_env ''u1'' ''t1'' g = task_row_of desk_env ''u1'' ''t1'' (desk claimed_task)"
proof -
  have "is_ok (fst (recover_tasks desk_env (desk claimed_task)))" by code_simp
  then obtain n g where r: "recover_tasks desk_env (desk claimed_task) = (Inr n, g)" using ok_result by blast
  have "case task_row_of desk_env ''u1'' ''t1'' (desk claimed_task) of None \<Rightarrow> False | Some t \<Rightarrow> jdate (jget t ''leaseUntil'') = Some 60100" by code_simp
  then obtain t where t: "task_row_of desk_env ''u1'' ''t1'' (desk claimed_task) = Some t" "jdate (jget t ''leaseUntil'') = Some 60100"
    by (auto split: option.splits)
  have "60100 > an_now desk_env" by (simp add: desk_env_def)
  from recovery_spares_live_runs [OF r desk_env_store t this] show ?thesis using r t(1) by auto
qed

end
