(* ===== verification/Accounts.thy ===== *)
theory Accounts
  imports Tasks
begin

text \<open>
  Users, tenants and sessions: \<open>UserService\<close> (apps/server/src/users.ts), \<open>TenantService\<close>
  (apps/server/src/engine/tenant.ts), \<open>Auth\<close> (apps/server/src/auth.ts) and \<open>ActorService\<close>
  (apps/server/src/engine/actors/service.ts).

  The state is the store, the cache of the tenant service, the login and signup limiters and the events
  emitted.  Hashes, random texts, scrypt and the check of an address are parameters; an operation has
  one clock instant.
\<close>

section \<open>State and environment\<close>

record 's accounts =
  ac_store :: 's
  ac_cache :: "(string \<times> string \<times> int) list"
  ac_ip :: limiter
  ac_email :: limiter
  ac_signup :: limiter
  ac_events :: "(string \<times> fields) list"
  ac_draws :: nat

record 's account_env =
  av_store :: "'s store"
  av_clock :: int
  av_now :: int
  av_uuid :: "nat \<Rightarrow> string"
  av_token :: "nat \<Rightarrow> string"
  av_digest :: "string \<Rightarrow> string"
  av_hmac :: "string \<Rightarrow> string"
  av_is_email :: "string \<Rightarrow> bool"
  av_salt :: "nat \<Rightarrow> string"
  av_key :: "string \<Rightarrow> string \<Rightarrow> string"
  av_same_key :: "string \<Rightarrow> string \<Rightarrow> string \<Rightarrow> bool"
  av_cache_ttl :: int
  av_session_ms :: int
  av_verify_ms :: int
  av_live :: bool
  av_access_key :: "string option"
  av_signup_open :: bool

type_synonym ('s, 'a) acc = "'s accounts \<Rightarrow> 'a res \<times> 's accounts"

definition acc_fail :: "string \<Rightarrow> nat \<Rightarrow> ('s, 'a) acc" where
  "acc_fail m n = throw (AppError m n)"

definition acc_read :: "('s \<Rightarrow> 'a) \<Rightarrow> ('s, 'a) acc" where
  "acc_read f a = (Inr (f (ac_store a)), a)"

definition acc_step :: "('s \<Rightarrow> 'a \<times> 's) \<Rightarrow> ('s, 'a) acc" where
  "acc_step f a = (case f (ac_store a) of (x, s) \<Rightarrow> (Inr x, a\<lparr> ac_store := s \<rparr>))"

definition acc_get :: "'s account_env \<Rightarrow> string \<Rightarrow> string \<Rightarrow> string \<Rightarrow> ('s, json option) acc" where
  "acc_get env owner kind i = acc_read (s_get (av_store env) owner kind i)"

definition acc_put :: "'s account_env \<Rightarrow> string \<Rightarrow> string \<Rightarrow> json \<Rightarrow> ('s, unit) acc" where
  "acc_put env owner kind v = acc_step (\<lambda>s. ((), s_put (av_store env) (av_clock env) owner kind v s))"

definition acc_remove :: "'s account_env \<Rightarrow> string \<Rightarrow> string \<Rightarrow> string \<Rightarrow> ('s, unit) acc" where
  "acc_remove env owner kind i = acc_step (\<lambda>s. ((), s_remove (av_store env) owner kind i s))"

definition acc_draw :: "(nat \<Rightarrow> string) \<Rightarrow> ('s, string) acc" where
  "acc_draw f a = (Inr (f (ac_draws a)), a\<lparr> ac_draws := ac_draws a + 1 \<rparr>)"

definition acc_note :: "string \<Rightarrow> fields \<Rightarrow> ('s, unit) acc" where
  "acc_note ty payload a = (Inr (), a\<lparr> ac_events := ac_events a @ [(ty, payload)] \<rparr>)"

section \<open>Users\<close>

record user_setup =
  us_sops :: "string list"
  us_tools :: "string list"
  us_greeting :: string

record user =
  us_id :: string
  us_email :: string
  us_name :: string
  us_admin :: bool
  us_setup :: user_setup
  us_active :: bool
  us_provider :: "string option"
  us_created :: json
  us_updated :: json

definition empty_setup :: user_setup where
  "empty_setup = \<lparr> us_sops = [], us_tools = [], us_greeting = [] \<rparr>"

definition setup_row :: "user_setup \<Rightarrow> json" where
  "setup_row s = JObj [(''sopIds'', JArr (map JStr (us_sops s))), (''allowedTools'', JArr (map JStr (us_tools s))), (''greeting'', JStr (us_greeting s))]"

definition user_row :: "user \<Rightarrow> json" where
  "user_row u = JObj ([(''id'', JStr (us_id u)), (''email'', JStr (us_email u)), (''name'', JStr (us_name u)),
     (''role'', JStr (if us_admin u then ''admin'' else ''user'')), (''setup'', setup_row (us_setup u)), (''active'', JBool (us_active u))]
     @ present ''authProviderId'' JStr (us_provider u) @ [(''createdAt'', us_created u), (''updatedAt'', us_updated u)])"

definition read_setup :: "json \<Rightarrow> user_setup option" where
  "read_setup j = (if \<not> is_obj j then None else Option.bind (dflt [] as_texts ''sopIds'' j) (\<lambda>so.
     Option.bind (dflt [] as_texts ''allowedTools'' j) (\<lambda>to.
     Option.bind (dflt [] (text_in 0 2000) ''greeting'' j) (\<lambda>gr. Some \<lparr> us_sops = so, us_tools = to, us_greeting = gr \<rparr>))))"

definition read_email :: "'s account_env \<Rightarrow> json \<Rightarrow> string option" where
  "read_email env v = (case as_text v of None \<Rightarrow> None | Some x \<Rightarrow> if av_is_email env x then Some (trim (map lower_char x)) else None)"

definition nonempty_text :: "json \<Rightarrow> string option" where
  "nonempty_text v = (case as_text v of Some (c # cs) \<Rightarrow> Some (c # cs) | _ \<Rightarrow> None)"

definition read_user_role :: "json \<Rightarrow> bool option" where
  "read_user_role v = (if v = JStr ''admin'' then Some True else if v = JStr ''user'' then Some False else None)"

definition read_user :: "'s account_env \<Rightarrow> json \<Rightarrow> user option" where
  "read_user env j = Option.bind (req nonempty_text ''id'' j) (\<lambda>i.
     Option.bind (req (read_email env) ''email'' j) (\<lambda>em.
     Option.bind (req (trimmed_in 1 120) ''name'' j) (\<lambda>na.
     Option.bind (dflt False read_user_role ''role'' j) (\<lambda>ro.
     Option.bind (dflt empty_setup read_setup ''setup'' j) (\<lambda>se.
     Option.bind (dflt True as_bool ''active'' j) (\<lambda>ac.
     Option.bind (opt (text_in 1 200) ''authProviderId'' j) (\<lambda>pr.
     Option.bind (req as_stamp ''createdAt'' j) (\<lambda>cr.
     Option.bind (req as_stamp ''updatedAt'' j) (\<lambda>up.
     Some \<lparr> us_id = i, us_email = em, us_name = na, us_admin = ro, us_setup = se, us_active = ac, us_provider = pr,
       us_created = cr, us_updated = up \<rparr>)))))))))"

text \<open>A stored password is \<open>scrypt$salt$key\<close>.\<close>

definition hash_password :: "'s account_env \<Rightarrow> string \<Rightarrow> ('s, string) acc" where
  "hash_password env p = (if length p < 8 then acc_fail ''Contrasena demasiado corta'' 422
     else then_do (acc_draw (av_salt env)) (\<lambda>salt. give (''scrypt$'' @ salt @ ''$'' @ av_key env p salt)))"

definition split_on :: "char \<Rightarrow> string \<Rightarrow> string list" where
  "split_on d s = foldr (\<lambda>c acc. if c = d then [] # acc else (case acc of [] \<Rightarrow> [[c]] | w # ws \<Rightarrow> (c # w) # ws)) s [[]]"

definition verify_password :: "'s account_env \<Rightarrow> string \<Rightarrow> string \<Rightarrow> bool" where
  "verify_password env p stored = (case split_on (CHR ''$'') stored of
     [scheme, salt, key] \<Rightarrow> scheme = ''scrypt'' \<and> av_same_key env p salt key | _ \<Rightarrow> False)"

definition user_records :: "'s account_env \<Rightarrow> 's \<Rightarrow> json list" where
  "user_records env s = s_list (av_store env) ''system'' ''users'' no_options s"

definition data_of :: "json \<Rightarrow> json" where
  "data_of r = (case jget r ''data'' of None \<Rightarrow> JNull | Some d \<Rightarrow> d)"

definition list_users :: "'s account_env \<Rightarrow> 's \<Rightarrow> json list" where
  "list_users env s = map data_of (user_records env s)"

definition user_by_email :: "'s account_env \<Rightarrow> string \<Rightarrow> 's \<Rightarrow> json option" where
  "user_by_email env email s = find (\<lambda>u. jtext u ''email'' = Some (trim (map lower_char email))) (list_users env s)"

definition user_by_provider :: "'s account_env \<Rightarrow> string \<Rightarrow> 's \<Rightarrow> json option" where
  "user_by_provider env sub s = (if trim sub = [] then None
     else find (\<lambda>u. jtext u ''authProviderId'' = Some (trim sub)) (list_users env s))"

definition verify_credentials :: "'s account_env \<Rightarrow> string \<Rightarrow> string \<Rightarrow> 's \<Rightarrow> json option" where
  "verify_credentials env email p s = (case find (\<lambda>r. jtext (data_of r) ''email'' = Some (trim (map lower_char email))) (user_records env s) of
     None \<Rightarrow> None
   | Some r \<Rightarrow> if truthy (jget (data_of r) ''active'') \<and> verify_password env p (text_or_empty r ''passwordHash'') then Some (data_of r) else None)"

record new_user =
  nu_email :: string
  nu_name :: string
  nu_password :: string
  nu_admin :: bool
  nu_setup :: json
  nu_provider :: "string option"

definition claim_provider :: "'s account_env \<Rightarrow> string option \<Rightarrow> ('s, unit) acc" where
  "claim_provider env p = (case given_text p of None \<Rightarrow> give ()
     | Some i \<Rightarrow> then_do (acc_step (s_insert (av_store env) (av_clock env) ''system'' ''auth-provider-index''
           (JObj [(''id'', JStr i), (''userId'', JNull), (''createdAt'', JDate (av_now env))]))) (\<lambda>r.
         if r = None then acc_fail ''authProviderId ya vinculado a otro User'' 409 else give ()))"

definition create_user :: "'s account_env \<Rightarrow> new_user \<Rightarrow> ('s, user) acc" where
  "create_user env inp = (let email = trim (map lower_char (nu_email inp)) in
     then_do (acc_read (user_by_email env email)) (\<lambda>taken.
     if taken \<noteq> None then acc_fail ''Email ya registrado'' 409
     else then_do (claim_provider env (nu_provider inp)) (\<lambda>_.
       then_do (acc_draw (av_uuid env)) (\<lambda>i.
       case read_user env (JObj ([(''id'', JStr i), (''email'', JStr email), (''name'', JStr (nu_name inp)),
           (''role'', JStr (if nu_admin inp then ''admin'' else ''user'')), (''setup'', nu_setup inp), (''active'', JBool True)]
           @ present ''authProviderId'' JStr (given_text (nu_provider inp))
           @ [(''createdAt'', JDate (av_now env)), (''updatedAt'', JDate (av_now env))])) of
         None \<Rightarrow> throw zod_error
       | Some u \<Rightarrow> then_do (hash_password env (nu_password inp)) (\<lambda>h.
           then_do (acc_put env ''system'' ''users'' (JObj [(''id'', JStr (us_id u)), (''data'', user_row u), (''passwordHash'', JStr h)])) (\<lambda>_.
           give u))))))"

record user_patch =
  up_name :: "string option"
  up_admin :: "bool option"
  up_active :: "bool option"
  up_setup :: "fields option"
  up_password :: "string option"

definition merged_user :: "'s account_env \<Rightarrow> json \<Rightarrow> user_patch \<Rightarrow> json" where
  "merged_user env d p = jmerge d (JObj (present ''name'' JStr (up_name p)
     @ present ''role'' (\<lambda>a. JStr (if a then ''admin'' else ''user'')) (up_admin p) @ present ''active'' JBool (up_active p)
     @ [(''setup'', JObj (fields_merge (fields_of (jget d ''setup'')) (case up_setup p of None \<Rightarrow> [] | Some fs \<Rightarrow> fs))),
        (''updatedAt'', JDate (av_now env))]))"

definition update_user :: "'s account_env \<Rightarrow> string \<Rightarrow> user_patch \<Rightarrow> ('s, user) acc" where
  "update_user env i p = then_do (acc_get env ''system'' ''users'' i) (\<lambda>found. case found of
     None \<Rightarrow> acc_fail ''Usuario no encontrado'' 404
   | Some r \<Rightarrow> (case read_user env (merged_user env (data_of r) p) of
       None \<Rightarrow> throw zod_error
     | Some u \<Rightarrow> then_do (case given_text (up_password p) of None \<Rightarrow> give (text_or_empty r ''passwordHash'') | Some pw \<Rightarrow> hash_password env pw) (\<lambda>h.
         then_do (acc_put env ''system'' ''users'' (JObj [(''id'', JStr i), (''data'', user_row u), (''passwordHash'', JStr h)])) (\<lambda>_. give u))))"

definition active_admins :: "'s account_env \<Rightarrow> 's \<Rightarrow> json list" where
  "active_admins env s = filter (\<lambda>u. jtext u ''role'' = Some ''admin'' \<and> truthy (jget u ''active'')) (list_users env s)"

definition remove_user :: "'s account_env \<Rightarrow> string \<Rightarrow> ('s, unit) acc" where
  "remove_user env i = then_do (acc_get env ''system'' ''users'' i) (\<lambda>found. case found of
     None \<Rightarrow> acc_fail ''Usuario no encontrado'' 404
   | Some r \<Rightarrow> then_do (acc_read (active_admins env)) (\<lambda>admins.
       if jtext (data_of r) ''role'' = Some ''admin'' \<and> length admins \<le> 1
       then acc_fail ''No se puede borrar el ultimo admin activo'' 409
       else acc_remove env ''system'' ''users'' i))"

definition ensure_admin :: "'s account_env \<Rightarrow> string \<Rightarrow> string \<Rightarrow> string \<Rightarrow> ('s, user option) acc" where
  "ensure_admin env email p name = then_do (acc_read (list_users env)) (\<lambda>us. if us \<noteq> [] then give None
     else then_do (create_user env \<lparr> nu_email = email, nu_name = name, nu_password = p, nu_admin = True, nu_setup = JObj [], nu_provider = None \<rparr>) (\<lambda>u. give (Some u)))"

end
