(* ===== verification/Access.thy ===== *)
theory Access
  imports Accounts
begin

text \<open>
  Who a request is and in which tenant it acts: the tenant of a user with its cache
  (apps/server/src/engine/tenant.ts), sessions and signed links (apps/server/src/auth.ts), the actor of a
  verified token (apps/server/src/engine/actors/service.ts, packages/domain/src/jwt.ts), the middleware
  of the API (apps/server/src/app.ts), and the routes that open and change accounts
  (apps/server/src/auth-routes.ts, apps/server/src/auth-signup.ts).
\<close>

section \<open>The tenant of a user\<close>

definition remember_tenant :: "'s account_env \<Rightarrow> string \<Rightarrow> string \<Rightarrow> ('s, unit) acc" where
  "remember_tenant env owner t a = (Inr (), a\<lparr> ac_cache := AList.update owner (t, av_now env) (ac_cache a) \<rparr>)"

definition forget_tenants :: "('s, unit) acc" where
  "forget_tenants a = (Inr (), a\<lparr> ac_cache := [] \<rparr>)"

definition forget_tenant :: "string \<Rightarrow> ('s, unit) acc" where
  "forget_tenant owner a = (Inr (), a\<lparr> ac_cache := AList.delete owner (ac_cache a) \<rparr>)"

definition tenant_field :: "json option \<Rightarrow> string option" where
  "tenant_field r = (case r of None \<Rightarrow> None | Some j \<Rightarrow> truthy_text j ''tenantId'')"

definition legacy_row :: "'s account_env \<Rightarrow> string \<Rightarrow> 's \<Rightarrow> json option" where
  "legacy_row env owner s = (if owner = ''system'' then None
     else find (\<lambda>m. jid m \<noteq> ''default'' \<and> truthy_text m ''tenantId'' \<noteq> None) (s_list (av_store env) owner ''tenant-membership'' no_options s))"

definition resolve_stored :: "'s account_env \<Rightarrow> string \<Rightarrow> ('s, string) acc" where
  "resolve_stored env owner = then_do (acc_get env owner ''tenant-membership'' ''default'') (\<lambda>row. case tenant_field row of
     Some t \<Rightarrow> then_do (remember_tenant env owner t) (\<lambda>_. give t)
   | None \<Rightarrow> then_do (acc_read (legacy_row env owner)) (\<lambda>legacy. case legacy of
       None \<Rightarrow> then_do (remember_tenant env owner ''default'') (\<lambda>_. give ''default'')
     | Some m \<Rightarrow> (let t = text_or_empty m ''tenantId'' in
         then_do (acc_put env owner ''tenant-membership'' (JObj [(''id'', JStr ''default''), (''tenantId'', JStr t), (''migratedAt'', JDate (av_now env))])) (\<lambda>_.
         then_do (acc_remove env owner ''tenant-membership'' (jid m)) (\<lambda>_.
         then_do (remember_tenant env owner t) (\<lambda>_. give t))))))"

definition resolve_tenant :: "'s account_env \<Rightarrow> string \<Rightarrow> ('s, string) acc" where
  "resolve_tenant env owner a = (case map_of (ac_cache a) owner of
     Some (t, at_time) \<Rightarrow> if av_now env - at_time < av_cache_ttl env then (Inr t, a) else resolve_stored env owner a
   | None \<Rightarrow> resolve_stored env owner a)"

definition memberships_for :: "'s account_env \<Rightarrow> string \<Rightarrow> 's \<Rightarrow> json list" where
  "memberships_for env u s = filter (\<lambda>m. truthy_text m ''tenantId'' \<noteq> None) (s_list (av_store env) u ''user-tenants'' no_options s)"

definition add_membership :: "'s account_env \<Rightarrow> string \<Rightarrow> string \<Rightarrow> string \<Rightarrow> ('s, json) acc" where
  "add_membership env u t role = then_do (acc_get env u ''user-tenants'' t) (\<lambda>found. case found of Some m \<Rightarrow> give m
   | None \<Rightarrow> (let m = JObj [(''id'', JStr t), (''tenantId'', JStr t), (''userId'', JStr u), (''role'', JStr role), (''createdAt'', JDate (av_now env))] in
       then_do (acc_put env u ''user-tenants'' m) (\<lambda>_. then_do (forget_tenant u) (\<lambda>_. give m))))"

definition set_membership :: "'s account_env \<Rightarrow> string \<Rightarrow> string \<Rightarrow> ('s, unit) acc" where
  "set_membership env owner t =
     then_do (acc_put env owner ''tenant-membership'' (JObj [(''id'', JStr ''default''), (''tenantId'', JStr t), (''updatedAt'', JDate (av_now env))])) (\<lambda>_.
     then_do (remember_tenant env owner t) (\<lambda>_. forget_tenants))"

definition assert_not_default :: "string \<Rightarrow> string \<Rightarrow> unit res" where
  "assert_not_default v place = (if v = ''default''
     then Inl (JsError (''TENANT_ID_HARDCODED_V2: \"default\" hardcodeado en '' @ place @ ''. Usa TenantService.tenantIdFor(owner) en su lugar.'')) else Inr ())"

section \<open>Sessions and signed links\<close>

definition access_key_ok :: "'s account_env \<Rightarrow> string option \<Rightarrow> bool" where
  "access_key_ok env k \<longleftrightarrow> \<not> av_live env \<or> (case (given_text k, given_text (av_access_key env)) of
     (Some x, Some y) \<Rightarrow> av_digest env x = av_digest env y | _ \<Rightarrow> False)"

definition open_session :: "'s account_env \<Rightarrow> string option \<Rightarrow> string \<Rightarrow> ('s, string) acc" where
  "open_session env key owner = (if \<not> access_key_ok env key then acc_fail ''Access key is incorrect'' 401
     else then_do (acc_draw (av_token env)) (\<lambda>token.
       then_do (acc_put env ''system'' ''sessions'' (JObj [(''id'', JStr (av_digest env token)), (''owner'', JStr owner),
         (''expiresAt'', JNum (of_int (av_now env + av_session_ms env)))])) (\<lambda>_. give token)))"

definition bearer :: "string option \<Rightarrow> string option" where
  "bearer h = (case h of None \<Rightarrow> None | Some x \<Rightarrow> if str_starts ''Bearer '' x then Some (drop 7 x) else None)"

definition session_of :: "'s account_env \<Rightarrow> string \<Rightarrow> 's \<Rightarrow> json option" where
  "session_of env token s = s_get (av_store env) ''system'' ''sessions'' (av_digest env token) s"

definition expired :: "'s account_env \<Rightarrow> json \<Rightarrow> bool" where
  "expired env j \<longleftrightarrow> (case jnum (jget j ''expiresAt'') of None \<Rightarrow> False | Some e \<Rightarrow> e < of_int (av_now env))"

definition session_owner :: "'s account_env \<Rightarrow> string option \<Rightarrow> 's \<Rightarrow> string res" where
  "session_owner env h s = (case bearer h of None \<Rightarrow> Inl (AppError ''Sign in to OpenMuse'' 401)
     | Some token \<Rightarrow> (case session_of env token s of None \<Rightarrow> Inl (AppError ''Session expired. Sign in again.'' 401)
       | Some j \<Rightarrow> if expired env j then Inl (AppError ''Session expired. Sign in again.'' 401) else Inr (text_or_empty j ''owner'')))"

definition session_tenant :: "'s account_env \<Rightarrow> string option \<Rightarrow> 's \<Rightarrow> string option" where
  "session_tenant env h s = (case bearer h of None \<Rightarrow> None | Some token \<Rightarrow> tenant_field (session_of env token s))"

definition link_text :: "string \<Rightarrow> string \<Rightarrow> string \<Rightarrow> string" where
  "link_text owner path expires = owner @ [CHR 0x0A] @ path @ [CHR 0x0A] @ expires"

record signed_link =
  sl_owner :: string
  sl_path :: string
  sl_expires :: string
  sl_signature :: string

definition sign_link :: "'s account_env \<Rightarrow> string \<Rightarrow> string \<Rightarrow> signed_link" where
  "sign_link env owner path = (let e = nat_text (nat (av_now env + 15 * 60 * 1000)) in
     \<lparr> sl_owner = owner, sl_path = path, sl_expires = e, sl_signature = av_hmac env (link_text owner path e) \<rparr>)"

definition verify_link :: "'s account_env \<Rightarrow> signed_link \<Rightarrow> string res" where
  "verify_link env l = (if sl_owner l = [] \<or> sl_expires l = [] \<or> \<not> list_all digit_char (sl_expires l)
         \<or> int (digits_value (sl_expires l)) < av_now env \<or> length (sl_signature l) \<noteq> 64 \<or> \<not> list_all word_char (sl_signature l)
     then Inl (AppError ''Document link expired; refresh the workspace'' 401)
     else if av_hmac env (link_text (sl_owner l) (sl_path l) (sl_expires l)) \<noteq> sl_signature l then Inl (AppError ''Invalid access link'' 403)
     else Inr (sl_owner l))"

section \<open>The actor of a token\<close>

record jwt =
  jw_sub :: string
  jw_tenant :: "string option"
  jw_app_tenant :: "string option"
  jw_user_tenant :: "string option"

definition tenant_claim :: "jwt \<Rightarrow> string option" where
  "tenant_claim j = (case jw_tenant j of Some t \<Rightarrow> Some t | None \<Rightarrow> (case jw_app_tenant j of Some t \<Rightarrow> Some t | None \<Rightarrow> jw_user_tenant j))"

record human_actor =
  at_user :: string
  at_tenant :: string
  at_roles :: "string list"

definition resolve_actor :: "'s account_env \<Rightarrow> jwt \<Rightarrow> ('s, human_actor) acc" where
  "resolve_actor env j = (if trim (jw_sub j) = [] then acc_fail ''Invalid JWT: missing sub'' 401
     else then_do (acc_read (user_by_provider env (trim (jw_sub j)))) (\<lambda>found. case found of
       None \<Rightarrow> acc_fail ''Actor not found for sub'' 401
     | Some u \<Rightarrow> if jget u ''active'' = Some (JBool False) then acc_fail ''Actor is inactive'' 403
         else (case tenant_claim j of None \<Rightarrow> acc_fail ''JWT without tenant claim'' 401
           | Some t \<Rightarrow> then_do (acc_read (memberships_for env (jid u))) (\<lambda>ms.
               then_do (case find (\<lambda>m. jtext m ''tenantId'' = Some t) ms of
                   Some m \<Rightarrow> give m
                 | None \<Rightarrow> if ms \<noteq> [] then acc_fail ''Actor is not a member of the claimed tenant'' 403
                     else add_membership env (jid u) t (if jtext u ''role'' = Some ''admin'' then ''owner'' else ''member'')) (\<lambda>m.
               give \<lparr> at_user = jid u, at_tenant = text_or_empty m ''tenantId'',
                 at_roles = [if jtext m ''role'' \<in> {Some ''owner'', Some ''admin''} \<or> jtext u ''role'' = Some ''admin'' then ''owner'' else ''employee''] \<rparr>)))))"

section \<open>The middleware of the API\<close>

record request =
  rq_path :: string
  rq_authorization :: "string option"
  rq_link :: "signed_link option"
  rq_actor :: "human_actor option"
  rq_tenant :: "string option"

text \<open>The paths that go through without an owner.  The two path expressions of the code are the arguments.\<close>

definition open_path :: "(string \<Rightarrow> bool) \<Rightarrow> string \<Rightarrow> bool" where
  "open_path oauth_path p \<longleftrightarrow> p = ''/api/auth/login'' \<or> p = ''/api/auth/logout'' \<or> oauth_path p"

definition request_owner :: "'s account_env \<Rightarrow> (string \<Rightarrow> bool) \<Rightarrow> request \<Rightarrow> ('s, string) acc" where
  "request_owner env signed_path r a = (case (signed_path (rq_path r), rq_link r, rq_actor r) of
     (True, Some l, _) \<Rightarrow> (verify_link env l, a)
   | (_, _, Some ac) \<Rightarrow> (Inr (at_user ac), a)
   | _ \<Rightarrow> (session_owner env (rq_authorization r) (ac_store a), a))"

definition request_tenant :: "'s account_env \<Rightarrow> request \<Rightarrow> string \<Rightarrow> ('s, string) acc" where
  "request_tenant env r owner = then_do (catching (resolve_tenant env owner) (\<lambda>_. give ''default'')) (\<lambda>mine.
     (let base = (case rq_actor r of Some ac \<Rightarrow> at_tenant ac | None \<Rightarrow> mine)
      in if rq_actor r \<noteq> None \<and> base \<noteq> [] then give base
         else then_do (acc_read (\<lambda>s. (session_tenant env (rq_authorization r) s, memberships_for env owner s))) (\<lambda>(chosen, ms).
           give (case chosen of None \<Rightarrow> base
             | Some t \<Rightarrow> if t \<noteq> mine \<and> list_ex (\<lambda>m. jtext m ''tenantId'' = Some t) ms then t else base))))"

datatype admitted_as = OpenPath | Owned string string | Mismatch

definition api_request :: "'s account_env \<Rightarrow> (string \<Rightarrow> bool) \<Rightarrow> (string \<Rightarrow> bool) \<Rightarrow> request \<Rightarrow> ('s, admitted_as) acc" where
  "api_request env oauth_path signed_path r = (if open_path oauth_path (rq_path r) then give OpenPath
     else then_do (request_owner env signed_path r) (\<lambda>owner.
       then_do (request_tenant env r owner) (\<lambda>t. case given_text (rq_tenant r) of
         None \<Rightarrow> give (Owned owner t)
       | Some wanted \<Rightarrow> if wanted = t then give (Owned owner t) else give Mismatch)))"

end
