(* ===== verification/AccountRoutes.thy ===== *)
theory AccountRoutes
  imports Access
begin

text \<open>
  The routes over accounts: login, the first registration, logout, the change of tenant, the own profile
  and the administration of users (apps/server/src/auth-routes.ts), the public sign-up and the
  verification of its address (apps/server/src/auth-signup.ts).  The bodies of the requests are JSON;
  sending the mail of a sign-up and preparing the workspace after a login cannot fail a request and are
  left out.
\<close>

section \<open>Sessions of the routes\<close>

definition week_ms :: int where
  "week_ms = 7 * 24 * 60 * 60 * 1000"

definition store_session :: "'s account_env \<Rightarrow> string \<Rightarrow> fields \<Rightarrow> ('s, string) acc" where
  "store_session env owner extra = then_do (acc_draw (av_token env)) (\<lambda>token.
     then_do (acc_put env ''system'' ''sessions'' (JObj ([(''id'', JStr (av_digest env token)), (''owner'', JStr owner),
       (''expiresAt'', JNum (of_int (av_now env + week_ms)))] @ extra))) (\<lambda>_. give token))"

definition take_ip :: "'s account_env \<Rightarrow> string \<Rightarrow> ('s, bool) acc" where
  "take_ip env k a = (case rl_take (av_now env) k (ac_ip a) of (r, l) \<Rightarrow> (Inr (rl_allowed r), a\<lparr> ac_ip := l \<rparr>))"

definition take_email :: "'s account_env \<Rightarrow> string \<Rightarrow> ('s, bool) acc" where
  "take_email env k a = (case rl_take (av_now env) k (ac_email a) of (r, l) \<Rightarrow> (Inr (rl_allowed r), a\<lparr> ac_email := l \<rparr>))"

definition take_signup :: "'s account_env \<Rightarrow> string \<Rightarrow> ('s, bool) acc" where
  "take_signup env k a = (case rl_take (av_now env) k (ac_signup a) of (r, l) \<Rightarrow> (Inr (rl_allowed r), a\<lparr> ac_signup := l \<rparr>))"

definition reset_login :: "string \<Rightarrow> string \<Rightarrow> ('s, unit) acc" where
  "reset_login ip em a = (Inr (), a\<lparr> ac_ip := rl_reset_key ip (ac_ip a), ac_email := rl_reset_key em (ac_email a) \<rparr>)"

section \<open>Login, registration, logout\<close>

definition email_text :: "'s account_env \<Rightarrow> json \<Rightarrow> string option" where
  "email_text env v = (case as_text v of None \<Rightarrow> None | Some x \<Rightarrow> if av_is_email env x then Some x else None)"

definition read_login :: "'s account_env \<Rightarrow> json \<Rightarrow> (string \<times> string) option" where
  "read_login env j = Option.bind (req (email_text env) ''email'' j) (\<lambda>e.
     Option.bind (req (text_in 1 200) ''password'' j) (\<lambda>p. Some (e, p)))"

definition login :: "'s account_env \<Rightarrow> string \<Rightarrow> json \<Rightarrow> ('s, string) acc" where
  "login env address body = (case read_login env body of None \<Rightarrow> throw zod_error
   | Some (e, p) \<Rightarrow> (let email = trim (map lower_char e); ip = ''ip:'' @ address; em = ''email:'' @ email in
       then_do (take_ip env ip) (\<lambda>ok. if \<not> ok then acc_fail ''Demasiados intentos de acceso. Prueba otra vez en unos minutos.'' 429
       else then_do (take_email env em) (\<lambda>ok. if \<not> ok then acc_fail ''Demasiados intentos de acceso. Prueba otra vez en unos minutos.'' 429
       else then_do (acc_read (verify_credentials env e p)) (\<lambda>found. case found of
         None \<Rightarrow> then_do (acc_note ''auth.login_failed'' [(''email'', JStr (take 300 email))]) (\<lambda>_. acc_fail ''Email o contrasena incorrectos'' 401)
       | Some u \<Rightarrow> then_do (reset_login ip em) (\<lambda>_.
           then_do (acc_note ''auth.login'' [(''userId'', JStr (jid u))]) (\<lambda>_. store_session env (jid u) [])))))))"

definition read_register :: "'s account_env \<Rightarrow> json \<Rightarrow> new_user option" where
  "read_register env j = Option.bind (req (email_text env) ''email'' j) (\<lambda>e.
     Option.bind (req (trimmed_in 1 120) ''name'' j) (\<lambda>n.
     Option.bind (req (text_in 8 200) ''password'' j) (\<lambda>p.
     Some \<lparr> nu_email = e, nu_name = n, nu_password = p, nu_admin = True, nu_setup = JObj [], nu_provider = None \<rparr>)))"

definition register :: "'s account_env \<Rightarrow> json \<Rightarrow> ('s, string) acc" where
  "register env body = then_do (acc_read (list_users env)) (\<lambda>us.
     if us \<noteq> [] then acc_fail ''Ya hay usuarios en esta instalacion. Pide al admin que te cree cuenta.'' 409
     else (case read_register env body of None \<Rightarrow> throw zod_error
       | Some inp \<Rightarrow> then_do (create_user env inp) (\<lambda>u. store_session env (us_id u) [])))"

definition logout :: "'s account_env \<Rightarrow> string option \<Rightarrow> ('s, unit) acc" where
  "logout env h = (case bearer h of None \<Rightarrow> give () | Some token \<Rightarrow> acc_remove env ''system'' ''sessions'' (av_digest env token))"

definition tenant_text :: "string \<Rightarrow> bool" where
  "tenant_text t \<longleftrightarrow> len_in 1 64 t \<and> list_all (\<lambda>c. lower_letter c \<or> digit_char c \<or> c = CHR ''-'') t"

definition switch_tenant :: "'s account_env \<Rightarrow> string \<Rightarrow> json \<Rightarrow> ('s, string) acc" where
  "switch_tenant env owner body = (case req (text_in 1 100) ''tenantId'' body of None \<Rightarrow> throw zod_error
   | Some t \<Rightarrow> then_do (acc_get env owner ''tenant-membership'' ''default'') (\<lambda>row.
       case (case row of None \<Rightarrow> None | Some j \<Rightarrow> nullish (jget j ''tenantId'') None) of
         None \<Rightarrow> acc_fail ''SWITCH_TENANT_ENDPOINT_V1: el usuario no tiene membership'' 403
       | Some current \<Rightarrow> if \<not> tenant_text t then acc_fail ''tenantId invalido'' 422
           else then_do (acc_read (memberships_for env owner)) (\<lambda>ms.
             if current \<noteq> JStr t \<and> \<not> list_ex (\<lambda>m. jtext m ''tenantId'' = Some t) ms
             then acc_fail (''SWITCH_TENANT_ENDPOINT_V1: el usuario no tiene membership en '' @ t) 403
             else store_session env owner [(''tenantId'', JStr t)])))"

section \<open>The own profile and the administration of users\<close>

definition me :: "'s account_env \<Rightarrow> string \<Rightarrow> ('s, json) acc" where
  "me env owner = then_do (acc_read (user_data (av_store env) owner)) (\<lambda>u. case u of None \<Rightarrow> acc_fail ''Usuario no encontrado'' 404 | Some d \<Rightarrow> give d)"

definition read_profile :: "json \<Rightarrow> (string option \<times> string option \<times> string option) option" where
  "read_profile j = (if \<not> is_obj j then None else Option.bind (opt (trimmed_in 1 120) ''name'' j) (\<lambda>n.
     Option.bind (opt (text_in 1 200) ''currentPassword'' j) (\<lambda>c.
     Option.bind (opt (text_in 8 200) ''newPassword'' j) (\<lambda>p. Some (n, c, p)))))"

definition patch_me :: "'s account_env \<Rightarrow> string \<Rightarrow> json \<Rightarrow> ('s, user) acc" where
  "patch_me env owner body = then_do (me env owner) (\<lambda>d. case read_profile body of None \<Rightarrow> throw zod_error
   | Some (n, c, p) \<Rightarrow>
       then_do (case p of None \<Rightarrow> give () | Some _ \<Rightarrow> (case c of None \<Rightarrow> acc_fail ''Falta la contrasena actual'' 422
         | Some now_pw \<Rightarrow> then_do (acc_read (verify_credentials env (text_or_empty d ''email'') now_pw)) (\<lambda>ok.
             if ok = None then acc_fail ''Contrasena actual incorrecta'' 403 else give ()))) (\<lambda>_.
       update_user env (jid d) \<lparr> up_name = n, up_admin = None, up_active = None, up_setup = None, up_password = p \<rparr>))"

definition admin_only :: "'s account_env \<Rightarrow> string \<Rightarrow> (json \<Rightarrow> ('s, 'a) acc) \<Rightarrow> ('s, 'a) acc" where
  "admin_only env owner f = then_do (acc_read (user_data (av_store env) owner)) (\<lambda>u. case u of None \<Rightarrow> acc_fail ''Solo admin'' 403
     | Some d \<Rightarrow> if jtext d ''role'' = Some ''admin'' then f d else acc_fail ''Solo admin'' 403)"

text \<open>A partial schema keeps the defaults of its fields: what a body leaves out of \<open>setup\<close> reads as the
  default, not as absent.\<close>

definition read_new_user :: "'s account_env \<Rightarrow> json \<Rightarrow> new_user option" where
  "read_new_user env j = Option.bind (req (email_text env) ''email'' j) (\<lambda>e.
     Option.bind (req (trimmed_in 1 120) ''name'' j) (\<lambda>n.
     Option.bind (req (text_in 8 200) ''password'' j) (\<lambda>p.
     Option.bind (dflt False read_user_role ''role'' j) (\<lambda>ro.
     Option.bind (opt read_setup ''setup'' j) (\<lambda>se.
     Some \<lparr> nu_email = e, nu_name = n, nu_password = p, nu_admin = ro, nu_setup = (case se of None \<Rightarrow> JObj [] | Some x \<Rightarrow> setup_row x), nu_provider = None \<rparr>)))))"

definition admin_create :: "'s account_env \<Rightarrow> string \<Rightarrow> json \<Rightarrow> ('s, user) acc" where
  "admin_create env owner body = admin_only env owner (\<lambda>_. case read_new_user env body of None \<Rightarrow> throw zod_error | Some inp \<Rightarrow> create_user env inp)"

definition read_user_patch :: "json \<Rightarrow> user_patch option" where
  "read_user_patch j = (if \<not> is_obj j then None else Option.bind (opt (trimmed_in 1 120) ''name'' j) (\<lambda>n.
     Option.bind (opt read_user_role ''role'' j) (\<lambda>ro.
     Option.bind (opt as_bool ''active'' j) (\<lambda>ac.
     Option.bind (opt read_setup ''setup'' j) (\<lambda>se.
     Option.bind (opt (text_in 8 200) ''password'' j) (\<lambda>p.
     Some \<lparr> up_name = n, up_admin = ro, up_active = ac, up_setup = map_option (\<lambda>x. fields_of (Some (setup_row x))) se, up_password = p \<rparr>))))))"

definition admin_patch :: "'s account_env \<Rightarrow> string \<Rightarrow> string \<Rightarrow> json \<Rightarrow> ('s, user) acc" where
  "admin_patch env owner i raw = admin_only env owner (\<lambda>d.
     if i = jid d \<and> jget raw ''role'' = Some (JStr ''user'') then acc_fail ''No puedes quitarte el rol admin a ti mismo'' 409
     else if i = jid d \<and> jget raw ''active'' = Some (JBool False) then acc_fail ''No puedes desactivar tu propia cuenta'' 409
     else (case read_user_patch raw of None \<Rightarrow> throw zod_error | Some p \<Rightarrow> update_user env i p))"

definition admin_remove :: "'s account_env \<Rightarrow> string \<Rightarrow> string \<Rightarrow> ('s, unit) acc" where
  "admin_remove env owner i = admin_only env owner (\<lambda>d. if i = jid d then acc_fail ''No puedes borrarte a ti mismo'' 409 else remove_user env i)"

section \<open>Sign-up\<close>

record signup =
  su_email :: string
  su_name :: string
  su_password :: string
  su_organization :: string

definition read_signup :: "'s account_env \<Rightarrow> json \<Rightarrow> signup option" where
  "read_signup env j = Option.bind (req (email_text env) ''email'' j) (\<lambda>e. if length e > 300 then None else
     Option.bind (req (trimmed_in 1 120) ''name'' j) (\<lambda>n.
     Option.bind (req (text_in 8 200) ''password'' j) (\<lambda>p.
     Option.bind (req (trimmed_in 2 120) ''organization'' j) (\<lambda>g.
     Some \<lparr> su_email = e, su_name = n, su_password = p, su_organization = g \<rparr>))))"

text \<open>\<open>slugify\<close>: runs of other characters become one hyphen, none at the ends.\<close>

definition slug_char :: "char \<Rightarrow> bool" where
  "slug_char c \<longleftrightarrow> lower_letter c \<or> digit_char c"

fun hyphens :: "bool \<Rightarrow> string \<Rightarrow> string" where
  "hyphens after [] = []"
| "hyphens after (c # cs) = (if slug_char c then c # hyphens False cs else if after then hyphens True cs else CHR ''-'' # hyphens True cs)"

definition strip_hyphens :: "string \<Rightarrow> string" where
  "strip_hyphens s = rev (dropWhile (\<lambda>c. c = CHR ''-'') (rev (dropWhile (\<lambda>c. c = CHR ''-'') s)))"

definition slugify :: "string \<Rightarrow> string" where
  "slugify s = take 60 (strip_hyphens (hyphens False (map strip_accent (map lower_char s))))"

definition sign_up :: "'s account_env \<Rightarrow> string \<Rightarrow> json \<Rightarrow> ('s, string option) acc" where
  "sign_up env address body = (if \<not> av_signup_open env then acc_fail ''Signup is disabled'' 503
     else then_do (take_signup env address) (\<lambda>ok. if \<not> ok then acc_fail ''Demasiadas cuentas creadas desde esta IP. Prueba mas tarde.'' 429
     else (case read_signup env body of None \<Rightarrow> throw zod_error
       | Some q \<Rightarrow> (let email = trim (map lower_char (su_email q)) in
           then_do (acc_read (user_by_email env email)) (\<lambda>taken. if taken \<noteq> None then give None
           else then_do (hash_password env (su_password q)) (\<lambda>h.
             then_do (if slugify (su_organization q) \<noteq> [] then give (slugify (su_organization q))
               else then_do (acc_draw (av_uuid env)) (\<lambda>u. give (''org-'' @ take 8 u))) (\<lambda>slug.
             then_do (acc_draw (av_token env)) (\<lambda>i.
             if \<not> (av_is_email env email \<and> length email \<le> 300) then throw zod_error
             else then_do (acc_put env ''system'' ''signup-tokens'' (JObj [(''id'', JStr i), (''email'', JStr email), (''name'', JStr (su_name q)),
                 (''passwordHash'', JStr h), (''organization'', JStr (su_organization q)), (''tenantSlug'', JStr slug),
                 (''createdAt'', JDate (av_now env)), (''expiresAt'', JDate (av_now env + av_verify_ms env))])) (\<lambda>_. give (Some i))))))))))"

definition verify_signup :: "'s account_env \<Rightarrow> string \<Rightarrow> ('s, string) acc" where
  "verify_signup env token = (if token = [] then acc_fail ''Falta token'' 422
     else then_do (acc_get env ''system'' ''signup-tokens'' token) (\<lambda>found. case found of
       None \<Rightarrow> acc_fail ''Token invalido o expirado'' 404
     | Some st \<Rightarrow> if truthy (jget st ''usedAt'') then acc_fail ''Token ya usado'' 409
         else if (case jdate (jget st ''expiresAt'') of None \<Rightarrow> False | Some e \<Rightarrow> e < av_now env) then acc_fail ''Token expirado'' 410
         else then_do (acc_step (s_cas (av_store env) (av_clock env) ''system'' ''signup-tokens'' token
             (JObj [(''id'', JStr token), (''usedAt'', JNull)]) (JObj [(''usedAt'', JDate (av_now env))]))) (\<lambda>consumed. case consumed of
           None \<Rightarrow> acc_fail ''Token ya usado'' 409
         | Some _ \<Rightarrow>
            then_do (create_user env \<lparr> nu_email = text_or_empty st ''email'', nu_name = text_or_empty st ''name'', nu_password = ''__from_token__'',
              nu_admin = True, nu_setup = JObj [], nu_provider = None \<rparr>) (\<lambda>u.
            then_do (acc_get env ''system'' ''users'' (us_id u)) (\<lambda>rec.
            then_do (case rec of None \<Rightarrow> give () | Some r \<Rightarrow> acc_put env ''system'' ''users'' (jmerge r (JObj (copy_field ''passwordHash'' ''passwordHash'' st)))) (\<lambda>_.
            then_do (set_membership env (us_id u) (text_or_empty st ''tenantSlug'')) (\<lambda>_.
            store_session env (us_id u) [])))))))"

end
