(* ===== verification/AccountProps.thy ===== *)
theory AccountProps
  imports AccountRoutes TaskProps
begin

text \<open>
  What the accounts guarantee: a signed link opens exactly what was signed, a request acts for the owner
  of its credentials in a tenant that is theirs, a login needs the password of an active user; and where
  they fall short: a sign-up can never be verified, a session outlives the account, a failed creation
  keeps the provider's identity, the first access takes any tenant that the token names.
\<close>

named_theorems acc_simps \<open>a call of the account operations followed by the rest\<close>

section \<open>Calls\<close>

lemma do_acc_store [acc_simps]:
  "then_do (acc_get env ow k i) f a = f (s_get (av_store env) ow k i (ac_store a)) a"
  "then_do (acc_read h) f' a = f' (h (ac_store a)) a"
  "then_do (acc_put env ow k v) f'' a = f'' () (a\<lparr> ac_store := s_put (av_store env) (av_clock env) ow k v (ac_store a) \<rparr>)"
  "then_do (acc_remove env ow k i) f'' a = f'' () (a\<lparr> ac_store := s_remove (av_store env) ow k i (ac_store a) \<rparr>)"
  "then_do (acc_step h') f3 a = f3 (fst (h' (ac_store a))) (a\<lparr> ac_store := snd (h' (ac_store a)) \<rparr>)"
  "acc_put env ow k v a = (Inr (), a\<lparr> ac_store := s_put (av_store env) (av_clock env) ow k v (ac_store a) \<rparr>)"
  "acc_remove env ow k i a = (Inr (), a\<lparr> ac_store := s_remove (av_store env) ow k i (ac_store a) \<rparr>)"
  "acc_read h a = (Inr (h (ac_store a)), a)"
  by (simp_all add: then_do_def acc_get_def acc_read_def acc_put_def acc_remove_def acc_step_def split: prod.split)

lemma do_acc_steps [acc_simps]:
  "then_do (give x) f a = f x a" "then_do (throw e) f a = (Inl e, a)" "then_do (acc_fail m n) f a = (Inl (AppError m n), a)"
  "throw e a = (Inl e, a)" "acc_fail m n a = (Inl (AppError m n), a)" "give y a = (Inr y, a)"
  "then_do (acc_draw d) f'' a = f'' (d (ac_draws a)) (a\<lparr> ac_draws := ac_draws a + 1 \<rparr>)"
  "then_do (acc_note ty p) f3 a = f3 () (a\<lparr> ac_events := ac_events a @ [(ty, p)] \<rparr>)"
  "then_do (remember_tenant env ow t) f3 a = f3 () (a\<lparr> ac_cache := AList.update ow (t, av_now env) (ac_cache a) \<rparr>)"
  "then_do (forget_tenant ow) f3 a = f3 () (a\<lparr> ac_cache := AList.delete ow (ac_cache a) \<rparr>)"
  "then_do (reset_login ip em) f3 a = f3 () (a\<lparr> ac_ip := rl_reset_key ip (ac_ip a), ac_email := rl_reset_key em (ac_email a) \<rparr>)"
  by (simp_all add: then_do_def give_def throw_def acc_fail_def acc_draw_def acc_note_def remember_tenant_def forget_tenant_def reset_login_def)

lemma do_acc_nested [acc_simps]: "then_do (then_do m f) h a = then_do m (\<lambda>x. then_do (f x) h) a"
  by (rule do_nested)

lemma do_acc_if [acc_simps]: "then_do (if c then x else y) f a = (if c then then_do x f a else then_do y f a)"
  by simp

lemma do_takes [acc_simps]:
  "then_do (take_ip env k) f a = f (rl_allowed (fst (rl_take (av_now env) k (ac_ip a)))) (a\<lparr> ac_ip := snd (rl_take (av_now env) k (ac_ip a)) \<rparr>)"
  "then_do (take_email env k) f a = f (rl_allowed (fst (rl_take (av_now env) k (ac_email a)))) (a\<lparr> ac_email := snd (rl_take (av_now env) k (ac_email a)) \<rparr>)"
  "then_do (take_signup env k) f a = f (rl_allowed (fst (rl_take (av_now env) k (ac_signup a)))) (a\<lparr> ac_signup := snd (rl_take (av_now env) k (ac_signup a)) \<rparr>)"
  by (simp_all add: then_do_def take_ip_def take_email_def take_signup_def split: prod.split)

lemma do_hash [acc_simps]: "then_do (hash_password env p) f a = (if length p < 8 then (Inl (AppError ''Contrasena demasiado corta'' 422), a)
    else f (''scrypt$'' @ av_salt env (ac_draws a) @ ''$'' @ av_key env p (av_salt env (ac_draws a))) (a\<lparr> ac_draws := ac_draws a + 1 \<rparr>))"
  by (simp add: hash_password_def acc_simps)

lemma do_session [acc_simps]: "then_do (store_session env ow ex) f a = f (av_token env (ac_draws a))
    (a\<lparr> ac_draws := ac_draws a + 1, ac_store := s_put (av_store env) (av_clock env) ''system'' ''sessions''
      (JObj ([(''id'', JStr (av_digest env (av_token env (ac_draws a)))), (''owner'', JStr ow), (''expiresAt'', JNum (of_int (av_now env + week_ms)))] @ ex)) (ac_store a) \<rparr>)"
  by (simp add: store_session_def acc_simps)

lemma session_run: "store_session env ow ex a = (Inr (av_token env (ac_draws a)),
    a\<lparr> ac_draws := ac_draws a + 1, ac_store := s_put (av_store env) (av_clock env) ''system'' ''sessions''
      (JObj ([(''id'', JStr (av_digest env (av_token env (ac_draws a)))), (''owner'', JStr ow), (''expiresAt'', JNum (of_int (av_now env + week_ms)))] @ ex)) (ac_store a) \<rparr>)"
  by (simp add: store_session_def acc_simps)

section \<open>Signed links\<close>

text \<open>The text under the signature determines its parts: neither a path nor a number holds a line feed,
  so the last two line feeds are the ones between the parts.\<close>

lemma split_end: "\<lbrakk> xs @ n # ys = xs' @ n # ys'; n \<notin> set ys; n \<notin> set ys' \<rbrakk> \<Longrightarrow> xs = xs' \<and> ys = ys'"
  by (auto simp: append_eq_append_conv2 append_eq_Cons_conv Cons_eq_append_conv)

lemma link_text_inj:
  assumes "link_text w p e = link_text w' p' e'" "CHR 0x0A \<notin> set p \<union> set e \<union> set p' \<union> set e'"
  shows "w = w' \<and> p = p' \<and> e = e'"
proof -
  have s: "(w @ CHR 0x0A # p) @ CHR 0x0A # e = (w' @ CHR 0x0A # p') @ CHR 0x0A # e'"
    using assms(1) by (simp add: link_text_def)
  have "w @ CHR 0x0A # p = w' @ CHR 0x0A # p'" "e = e'"
    using split_end [OF s] assms(2) by simp_all
  then show ?thesis using split_end [of w "CHR 0x0A" p w' p'] assms(2) by simp
qed

lemma of_char_digit: "k < 10 \<Longrightarrow> (of_char (char_of (48 + k) :: char) :: nat) = 48 + k"
  by simp

lemma digits_value_snoc: "digits_value (s @ [c]) = 10 * digits_value s + (of_char c - 48)"
  by (simp add: digits_value_def)

lemma nat_text_digits: "nat_text n \<noteq> [] \<and> list_all digit_char (nat_text n) \<and> digits_value (nat_text n) = n"
proof (induction n rule: nat_text.induct)
  case (1 n)
  show ?case
  proof (cases "n < 10")
    case True
    then show ?thesis by (simp add: nat_text.simps [of n] digit_char_def digits_value_def)
  next
    case False
    then have "nat_text n = nat_text (n div 10) @ [char_of (48 + n mod 10)]" by (simp add: nat_text.simps [of n])
    then show ?thesis using 1 [OF False] by (simp add: digit_char_def digits_value_snoc)
  qed
qed

lemma digits_no_break: "list_all digit_char s \<Longrightarrow> CHR 0x0A \<notin> set s"
  by (auto simp: list_all_iff digit_char_def)

definition hex_output :: "'s account_env \<Rightarrow> string \<Rightarrow> bool" where
  "hex_output env x \<longleftrightarrow> length (av_hmac env x) = 64 \<and> list_all word_char (av_hmac env x)"

lemma signed_link_parts:
  assumes "0 \<le> av_now env"
  shows "sl_expires (sign_link env w p) \<noteq> []" "list_all digit_char (sl_expires (sign_link env w p))"
    "int (digits_value (sl_expires (sign_link env w p))) = av_now env + 15 * 60 * 1000"
    "sl_owner (sign_link env w p) = w" "sl_path (sign_link env w p) = p"
    "sl_signature (sign_link env w p) = av_hmac env (link_text w p (sl_expires (sign_link env w p)))"
  using assms nat_text_digits [of "nat (av_now env + 15 * 60 * 1000)"] by (simp_all add: sign_link_def Let_def)

text \<open>A signed link opens exactly what was signed, for fifteen minutes.  With one signing key and no
  collision of the keyed hash between the two texts, a link that carries the signature of an owner's
  path is accepted if and only if it is that link, unchanged in owner, path and time, and its fifteen
  minutes are not over; and then it acts for that owner.\<close>
theorem signed_link_exact:
  assumes "0 \<le> av_now env" "w \<noteq> []" "CHR 0x0A \<notin> set p \<union> set (sl_path l)" "av_hmac env' = av_hmac env"
    and "sl_signature l = sl_signature (sign_link env w p)"
    and "hex_output env (link_text w p (sl_expires (sign_link env w p)))"
    and "av_hmac env (link_text (sl_owner l) (sl_path l) (sl_expires l)) = av_hmac env (link_text w p (sl_expires (sign_link env w p)))
      \<longrightarrow> link_text (sl_owner l) (sl_path l) (sl_expires l) = link_text w p (sl_expires (sign_link env w p))"
  shows "verify_link env' l = Inr v \<longleftrightarrow> v = w \<and> l = sign_link env w p \<and> av_now env' \<le> av_now env + 15 * 60 * 1000"
proof
  note parts = signed_link_parts [OF assms(1), of w p]
  assume r: "verify_link env' l = Inr v"
  have d: "list_all digit_char (sl_expires l)" and t: "av_now env' \<le> int (digits_value (sl_expires l))" and v: "v = sl_owner l"
    and h: "av_hmac env (link_text (sl_owner l) (sl_path l) (sl_expires l)) = sl_signature l"
    using r assms(4) by (auto simp: verify_link_def split: if_splits)
  have "link_text (sl_owner l) (sl_path l) (sl_expires l) = link_text w p (sl_expires (sign_link env w p))"
    using h assms(5,7) parts(6) by simp
  then have e: "sl_owner l = w" "sl_path l = p" "sl_expires l = sl_expires (sign_link env w p)"
    using link_text_inj assms(3) digits_no_break [OF d] digits_no_break [OF parts(2)] by blast+
  then have "l = sign_link env w p" using assms(5) parts(4,5) by simp
  then show "v = w \<and> l = sign_link env w p \<and> av_now env' \<le> av_now env + 15 * 60 * 1000" using v e t parts(3) by simp
next
  note parts = signed_link_parts [OF assms(1), of w p]
  assume "v = w \<and> l = sign_link env w p \<and> av_now env' \<le> av_now env + 15 * 60 * 1000"
  then show "verify_link env' l = Inr v" using parts assms(2,4,6) by (auto simp: verify_link_def hex_output_def)
qed

section \<open>Who a request acts for\<close>

lemma resolve_total: "\<exists>t a'. resolve_tenant env w a = (Inr t, a')"
  by (auto simp: resolve_tenant_def resolve_stored_def acc_simps Let_def split: option.splits)

lemma resolve_from:
  assumes "resolve_tenant env w a = (Inr t, a')"
  shows "map_option fst (map_of (ac_cache a) w) = Some t
    \<or> tenant_field (s_get (av_store env) w ''tenant-membership'' ''default'' (ac_store a)) = Some t
    \<or> (\<exists>m. legacy_row env w (ac_store a) = Some m \<and> t = text_or_empty m ''tenantId'') \<or> t = ''default''"
  using assms by (auto simp: resolve_tenant_def resolve_stored_def acc_simps Let_def split: option.splits if_splits)

definition own_tenant :: "'s account_env \<Rightarrow> string \<Rightarrow> string \<Rightarrow> 's accounts \<Rightarrow> bool" where
  "own_tenant env w t a \<longleftrightarrow> fst (resolve_tenant env w a) = Inr t
     \<or> (\<exists>m\<in>set (memberships_for env w (ac_store (snd (resolve_tenant env w a)))). jtext m ''tenantId'' = Some t)"

definition credentials_of :: "'s account_env \<Rightarrow> (string \<Rightarrow> bool) \<Rightarrow> request \<Rightarrow> string \<Rightarrow> 's \<Rightarrow> bool" where
  "credentials_of env signed_path r w s \<longleftrightarrow>
     (\<exists>l. rq_link r = Some l \<and> signed_path (rq_path r) \<and> verify_link env l = Inr w)
     \<or> (\<exists>ac. rq_actor r = Some ac \<and> at_user ac = w)
     \<or> (\<exists>token j. bearer (rq_authorization r) = Some token \<and> session_of env token s = Some j \<and> \<not> expired env j \<and> text_or_empty j ''owner'' = w)"

lemma owner_credentials: "request_owner env sp r a = (Inr w, a') \<Longrightarrow> credentials_of env sp r w (ac_store a) \<and> a' = a"
  by (auto simp: request_owner_def credentials_of_def session_owner_def split: option.splits bool.splits if_splits)

lemma do_resolve: "then_do (catching (resolve_tenant env w) h) f a
    = (case resolve_tenant env w a of (Inr t, a1) \<Rightarrow> f t a1 | (Inl e, a1) \<Rightarrow> then_do (h e) f a1)"
  by (simp add: then_do_def catching_def split: prod.split sum.split)

lemma tenant_of_request:
  assumes "request_tenant env r w a = (Inr t, a')"
  shows "own_tenant env w t a \<or> (\<exists>ac. rq_actor r = Some ac \<and> at_tenant ac = t)"
proof -
  obtain mine a1 where m: "resolve_tenant env w a = (Inr mine, a1)" using resolve_total by blast
  show ?thesis
    using assms by (auto simp: request_tenant_def do_resolve m own_tenant_def Let_def acc_simps list_ex_iff split: option.splits if_splits)
qed

text \<open>C14: a request of the API acts for the owner of its credentials, in a tenant that is theirs: past the
  open paths, the owner is that of a valid signed link on a signed path, of the verified actor, or of a
  session that has not expired; the tenant is the actor's, the one the owner resolves to, or one of the
  owner's memberships; and a tenant that the request names is that one.\<close>
theorem request_acts_for_owner:
  assumes "api_request env oauth_path signed_path r a = (Inr (Owned w t), a')"
  shows "credentials_of env signed_path r w (ac_store a)
    \<and> (own_tenant env w t a \<or> (\<exists>ac. rq_actor r = Some ac \<and> at_tenant ac = t))
    \<and> (case given_text (rq_tenant r) of None \<Rightarrow> True | Some x \<Rightarrow> x = t)"
proof -
  obtain a1 where o1: "request_owner env signed_path r a = (Inr w, a1)" and t: "request_tenant env r w a1 = (Inr t, a')"
    and n: "case given_text (rq_tenant r) of None \<Rightarrow> True | Some x \<Rightarrow> x = t"
    using assms unfolding api_request_def then_do_def [of "request_owner env signed_path r"] then_do_def [of "request_tenant env r _"]
    by (auto simp: give_def split: if_splits option.splits prod.splits sum.splits)
  have "credentials_of env signed_path r w (ac_store a)" "a1 = a" using owner_credentials [OF o1] by simp_all
  then show ?thesis using tenant_of_request [OF t] n by simp
qed

section \<open>Login\<close>

definition session_for :: "'s account_env \<Rightarrow> string \<Rightarrow> string \<Rightarrow> fields \<Rightarrow> json" where
  "session_for env token w ex = JObj ([(''id'', JStr (av_digest env token)), (''owner'', JStr w), (''expiresAt'', JNum (of_int (av_now env + week_ms)))] @ ex)"

lemma login_cases:
  assumes "login env address body a = (r, a')" "av_store env = plain_store"
  shows "(\<exists>e. r = Inl e) \<and> ac_store a' = ac_store a
    \<or> (\<exists>e p u token. read_login env body = Some (e, p) \<and> verify_credentials env e p (ac_store a) = Some u \<and> r = Inr token
        \<and> ac_store a' = st_put (av_clock env) ''system'' ''sessions'' (session_for env token (jid u) []) (ac_store a))"
  using assms
  by (auto simp: login_def acc_simps session_run session_for_def Let_def split: option.splits if_splits)

lemma verified_user:
  "verify_credentials env e p s = Some u \<Longrightarrow> \<exists>rec\<in>set (user_records env s). u = data_of rec
     \<and> jtext u ''email'' = Some (trim (map lower_char e)) \<and> truthy (jget u ''active'') \<and> verify_password env p (text_or_empty rec ''passwordHash'')"
  by (auto simp: verify_credentials_def find_Some_iff split: option.splits if_splits)

lemma fresh_session:
  assumes "av_store env = plain_store" "bearer h = Some token" "av_digest env' = av_digest env" "av_store env' = plain_store"
    and "av_now env' \<le> av_now env + week_ms"
  shows "session_owner env' h (st_put (av_clock env) ''system'' ''sessions'' (session_for env token w []) s) = Inr w"
  using assms
  by (simp add: session_owner_def session_of_def st_get_put session_for_def jid_def jtext_def expired_def text_or_empty_def)

text \<open>A login needs the password of an active user, and gives that user's session for a week.  A login
  that answers a token found a user with that address who is active and whose stored hash the password
  matches, and the token then opens the user's session until the week is over; any other login leaves the
  store as it was.\<close>
theorem login_gives_session:
  assumes "login env address body a = (r, a')" "av_store env = plain_store"
  shows "case r of Inl e \<Rightarrow> ac_store a' = ac_store a
    | Inr token \<Rightarrow> (\<exists>e p. read_login env body = Some (e, p) \<and> (\<exists>rec\<in>set (user_records env (ac_store a)).
         jtext (data_of rec) ''email'' = Some (trim (map lower_char e)) \<and> truthy (jget (data_of rec) ''active'')
         \<and> verify_password env p (text_or_empty rec ''passwordHash'')
         \<and> (\<forall>now. now \<le> av_now env + week_ms \<longrightarrow>
              session_owner (env\<lparr> av_now := now \<rparr>) (Some (''Bearer '' @ token)) (ac_store a') = Inr (jid (data_of rec)))))"
proof (cases r)
  case (Inl e)
  then show ?thesis using login_cases [OF assms] by auto
next
  case (Inr token)
  obtain e p u where l: "read_login env body = Some (e, p)" "verify_credentials env e p (ac_store a) = Some u"
      "ac_store a' = st_put (av_clock env) ''system'' ''sessions'' (session_for env token (jid u) []) (ac_store a)"
    using login_cases [OF assms] Inr by auto
  have b: "bearer (Some (''Bearer '' @ token)) = Some token" by (simp add: bearer_def str_starts_def)
  have "session_owner (env\<lparr> av_now := now \<rparr>) (Some (''Bearer '' @ token)) (ac_store a') = Inr (jid u)" if "now \<le> av_now env + week_ms" for now
    unfolding l(3) by (rule fresh_session [OF assms(2) b]) (use assms(2) that in simp_all)
  then show ?thesis using verified_user [OF l(2)] l(1) Inr by auto
qed

section \<open>Sign-up\<close>

definition unused_row :: "json \<Rightarrow> bool" where
  "unused_row st \<longleftrightarrow> jget st ''usedAt'' = None"

lemma sign_up_row:
  assumes "sign_up env address body a = (Inr (Some i), a')" "av_store env = plain_store"
  shows "\<exists>st. st_get ''system'' ''signup-tokens'' i (ac_store a') = Some st \<and> unused_row st"
  using assms
  by (auto simp: sign_up_def acc_simps Let_def st_get_put jid_def jtext_def unused_row_def split: option.splits if_splits)

lemma verify_unused:
  assumes "av_store env = plain_store" "st_get ''system'' ''signup-tokens'' i (ac_store a) = Some st" "unused_row st"
  shows "\<exists>m n. verify_signup env i a = (Inl (AppError m n), a)"
proof -
  have "\<not> jcontains st (JObj [(''id'', JStr i), (''usedAt'', JNull)])"
    using assms(3) by (auto simp: jcontains_fields unused_row_def)
  then have "st_cas c ''system'' ''signup-tokens'' i (JObj [(''id'', JStr i), (''usedAt'', JNull)]) p (ac_store a) = (None, ac_store a)" for c p
    using assms(2) by (simp add: st_cas_def)
  then show ?thesis using assms(1,2)
    by (auto simp: verify_signup_def acc_simps split: if_splits)
qed

text \<open>A sign-up can never be verified.  The token it stores has no \<open>usedAt\<close>, while the verification
  swaps it only if it contains \<open>usedAt: null\<close>: every verification of it, at any time and with any keys,
  is refused, and stores nothing.\<close>
theorem sign_up_never_verified:
  assumes "sign_up env address body a = (Inr (Some i), a1)" "av_store env = plain_store" "av_store env' = plain_store"
  shows "(\<exists>m n. fst (verify_signup env' i a1) = Inl (AppError m n)) \<and> snd (verify_signup env' i a1) = a1"
proof -
  obtain st where "st_get ''system'' ''signup-tokens'' i (ac_store a1) = Some st" "unused_row st"
    using sign_up_row [OF assms(1,2)] by blast
  then show ?thesis using verify_unused [OF assms(3)] by fastforce
qed

section \<open>What outlives an account\<close>

lemma keep_session:
  assumes "av_store env = plain_store"
  shows "session_owner env h (st_put c ''system'' ''users'' v s) = session_owner env h s"
    "session_owner env h (st_remove ''system'' ''users'' i s) = session_owner env h s"
    "session_tenant env h (st_put c ''system'' ''users'' v s) = session_tenant env h s"
  using assms by (simp_all add: session_owner_def session_of_def session_tenant_def st_get_put st_get_remove split: option.split)

text \<open>Deactivating a user, changing the password or removing the user leaves every session as it was.\<close>

lemma put_shape: "\<exists>c v. st_put c0 ow k v0 s = st_put c ow k v s"
  by blast

lemma session_outlives_account:
  assumes "update_user env i p a = (Inr u, a') \<or> remove_user env i a = (Inr (), a')" "av_store env = plain_store" "av_store env' = plain_store"
  shows "session_owner env' h (ac_store a') = session_owner env' h (ac_store a)"
proof -
  have "(\<exists>c v. ac_store a' = st_put c ''system'' ''users'' v (ac_store a)) \<or> ac_store a' = st_remove ''system'' ''users'' i (ac_store a)"
    using assms(1,2) by (auto simp: update_user_def remove_user_def acc_simps put_shape split: option.splits if_splits)
  then show ?thesis using keep_session [OF assms(3)] by auto
qed

text \<open>A creation that fails after the identity was taken leaves it taken: no later creation can use it.\<close>

lemma failed_creation_keeps_identity:
  assumes "create_user env inp a = (Inl e, a')" "given_text (nu_provider inp) = Some x" "av_store env = plain_store"
    and "user_by_email env (trim (map lower_char (nu_email inp))) (ac_store a) = None" "st_get ''system'' ''auth-provider-index'' x (ac_store a) = None"
    and "given_text (nu_provider later) = Some x" "av_store env' = plain_store"
  shows "\<exists>e'. fst (create_user env' later a') = Inl e'"
proof -
  have "st_get ''system'' ''auth-provider-index'' x (ac_store a') \<noteq> None"
    using assms(1-5) by (auto simp: create_user_def claim_provider_def acc_simps Let_def st_get_insert st_insert_result jid_def jtext_def split: option.splits if_splits)
  then have "fst (st_insert c ''system'' ''auth-provider-index'' (JObj [(''id'', JStr x), (''userId'', JNull), (''createdAt'', d)]) (ac_store a')) = None" for c d
    by (auto simp: st_insert_result jid_def jtext_def)
  then show ?thesis using assms(6,7)
    by (auto simp: create_user_def claim_provider_def acc_simps Let_def)
qed

section \<open>The last administrator\<close>

definition admin_user_row :: "row \<Rightarrow> bool" where
  "admin_user_row r \<longleftrightarrow> row_owner r = ''system'' \<and> row_kind r = ''users''
     \<and> jtext (data_of (row_data r)) ''role'' = Some ''admin'' \<and> truthy (jget (data_of (row_data r)) ''active'')"

definition few_users :: "table \<Rightarrow> bool" where
  "few_users d \<longleftrightarrow> length (list_rows ''system'' ''users'' None d) \<le> 1000"

lemma admins_rows:
  assumes "av_store env = plain_store" "few_users d"
  shows "active_admins env d = map (data_of \<circ> row_data) (filter admin_user_row (list_rows ''system'' ''users'' None d))"
proof -
  have m: "map row_data (list_rows ''system'' ''users'' None d) = user_records env d"
    using assms by (simp add: user_records_def st_list_def no_options_def few_users_def)
  have "filter (\<lambda>r. jtext (data_of (row_data r)) ''role'' = Some ''admin'' \<and> truthy (jget (data_of (row_data r)) ''active''))
      (list_rows ''system'' ''users'' None d) = filter admin_user_row (list_rows ''system'' ''users'' None d)"
    by (rule filter_cong) (auto simp: list_rows_def admin_user_row_def)
  then show ?thesis by (simp add: active_admins_def list_users_def m [symmetric] filter_map comp_def)
qed

lemma few_after_remove:
  assumes "few_users d"
  shows "few_users (st_remove ow k i d)"
proof -
  let ?P = "\<lambda>r. row_owner r = ''system'' \<and> row_kind r = ''users'' \<and> after_cursor None r"
  have "length (filter ?P (st_remove ow k i d)) = length (filter (\<lambda>x. fst x \<noteq> (ow, k, i)) (filter ?P d))"
    by (simp add: st_remove_def AList.delete_eq filter_filter case_prod_beta conj_ac eq_commute)
  also have "\<dots> \<le> length (filter ?P d)" by (rule length_filter_le)
  finally show ?thesis using assms by (simp add: few_users_def list_rows_def)
qed

lemma two_elems: "\<lbrakk> distinct xs; 2 \<le> length xs \<rbrakk> \<Longrightarrow> \<exists>x\<in>set xs. x \<noteq> y"
  by (cases xs; cases "tl xs") auto

text \<open>Removing a user never removes the last active administrator: when there was one before a removal
  that succeeds, there is one after it.\<close>
theorem removal_keeps_an_admin:
  assumes "remove_user env i a = (Inr (), a')" "av_store env = plain_store" "table_ok (ac_store a)" "few_users (ac_store a)"
    and "active_admins env (ac_store a) \<noteq> []"
  shows "active_admins env (ac_store a') \<noteq> []"
proof -
  let ?d = "ac_store a" and ?L = "filter admin_user_row (list_rows ''system'' ''users'' None (ac_store a))"
  obtain r where r: "st_get ''system'' ''users'' i ?d = Some r" "ac_store a' = st_remove ''system'' ''users'' i ?d"
    and g: "\<not> (jtext (data_of r) ''role'' = Some ''admin'' \<and> length (active_admins env ?d) \<le> 1)"
    using assms(1,2) by (auto simp: remove_user_def acc_simps split: option.splits if_splits)
  have len: "length (active_admins env ?d) = length ?L" using admins_rows [OF assms(2,4)] by simp
  have dk: "distinct (map fst ?d)" using assms(3) by (simp add: table_ok_def)
  then have dl: "distinct (map fst ?L)" by (simp add: list_rows_def distinct_map inj_on_def)
  obtain u where u: "map_of ?d (''system'', ''users'', i) = Some (r, u)" using r(1) by (auto simp: st_get_def)
  have "\<exists>x\<in>set ?L. fst x \<noteq> (''system'', ''users'', i)"
  proof (cases "jtext (data_of r) ''role'' = Some ''admin''")
    case True
    then have "2 \<le> length (map fst ?L)" using g len by simp
    then show ?thesis using two_elems [OF dl] by fastforce
  next
    case False
    have "?L \<noteq> []" using assms(5) len by auto
    then obtain x where x: "x \<in> set ?L" by (meson list.set_intros(1) neq_Nil_conv set_empty ex_in_conv)
    then have "x \<in> set ?d" "jtext (data_of (row_data x)) ''role'' = Some ''admin''" by (auto simp: list_rows_def admin_user_row_def)
    then have "fst x \<noteq> (''system'', ''users'', i)"
      using False u dk by (metis map_of_is_SomeI option.inject fst_conv prod.collapse)
    then show ?thesis using x by blast
  qed
  then obtain x where x: "x \<in> set ?L" "fst x \<noteq> (''system'', ''users'', i)" by blast
  have "x \<in> set (filter admin_user_row (list_rows ''system'' ''users'' None (ac_store a')))"
    using x unfolding r(2) by (auto simp: list_rows_def st_remove_def AList.delete_eq case_prod_beta)
  then show ?thesis
    using admins_rows [OF assms(2)] few_after_remove [OF assms(4)] r(2) by (auto simp: filter_empty_conv)
qed

text \<open>The routes protect it only there: an update may deactivate or demote the last one, and the
  administrator who asks need not be active.\<close>

definition office_env :: "table account_env" where
  "office_env = \<lparr> av_store = plain_store, av_clock = 1, av_now = 1, av_uuid = \<lambda>n. ''u'' @ nat_text n, av_token = \<lambda>n. ''t'' @ nat_text n,
     av_digest = \<lambda>s. s, av_hmac = \<lambda>s. replicate 64 (CHR ''0''), av_is_email = \<lambda>s. CHR ''@'' \<in> set s, av_salt = \<lambda>n. ''salt'',
     av_key = \<lambda>p s. p, av_same_key = \<lambda>p s k. p = k, av_cache_ttl = 300000, av_session_ms = week_ms, av_verify_ms = 172800000,
     av_live = True, av_access_key = None, av_signup_open = True \<rparr>"

definition office_row :: "string \<Rightarrow> bool \<Rightarrow> bool \<Rightarrow> json" where
  "office_row i admin active = JObj [(''id'', JStr i), (''data'', user_row \<lparr> us_id = i, us_email = i @ ''@x.es'', us_name = i, us_admin = admin,
     us_setup = empty_setup, us_active = active, us_provider = Some (i @ ''-sub''), us_created = JDate 0, us_updated = JDate 0 \<rparr>),
     (''passwordHash'', JStr ''scrypt$salt$password'')]"

definition office :: "json list \<Rightarrow> table accounts" where
  "office us = \<lparr> ac_store = foldr (st_put 0 ''system'' ''users'') us [], ac_cache = [], ac_ip = \<lparr> rl_limit = 20, rl_window = 300000, rl_max = 5000, rl_buckets = [] \<rparr>,
     ac_email = \<lparr> rl_limit = 5, rl_window = 300000, rl_max = 5000, rl_buckets = [] \<rparr>,
     ac_signup = \<lparr> rl_limit = 5, rl_window = 3600000, rl_max = 5000, rl_buckets = [] \<rparr>, ac_events = [], ac_draws = 0 \<rparr>"

lemma last_admin_can_be_deactivated:
  "length (active_admins office_env (ac_store (office [office_row ''ana'' True True, office_row ''bob'' True False]))) = 1
   \<and> (case admin_patch office_env ''bob'' ''ana'' (JObj [(''active'', JBool False)]) (office [office_row ''ana'' True True, office_row ''bob'' True False]) of
       (r, a') \<Rightarrow> is_ok r \<and> active_admins office_env (ac_store a') = [])"
  by code_simp

text \<open>And an inactive administrator cannot be removed while one active administrator remains.\<close>

lemma inactive_admin_cannot_be_removed:
  "fst (remove_user office_env ''bob'' (office [office_row ''ana'' True True, office_row ''bob'' True False]))
     = Inl (AppError ''No se puede borrar el ultimo admin activo'' 409)"
  by code_simp

text \<open>A patch of one field of the setup resets the others.\<close>

lemma setup_patch_resets:
  "map_option (\<lambda>p. up_setup p) (read_user_patch (JObj [(''setup'', JObj [(''greeting'', JStr ''hola'')])]))
     = Some (Some [(''sopIds'', JArr []), (''allowedTools'', JArr []), (''greeting'', JStr ''hola'')])"
  by code_simp

section \<open>The tenant of an actor\<close>

text \<open>Without a membership, the first access of an active user makes one in whatever tenant the token
  names, even by the metadata that the user can edit, and an administrator becomes its owner.\<close>

lemma first_access_takes_any_tenant:
  assumes "trim (jw_sub j) \<noteq> []" "user_by_provider env (trim (jw_sub j)) (ac_store a) = Some u" "jget u ''active'' = Some (JBool True)"
    and "jw_tenant j = None" "jw_app_tenant j = None" "jw_user_tenant j = Some t"
    and "memberships_for env (jid u) (ac_store a) = []" "s_get (av_store env) (jid u) ''user-tenants'' t (ac_store a) = None"
    and "jtext u ''role'' = Some ''admin''"
  shows "fst (resolve_actor env j a) = Inr \<lparr> at_user = jid u, at_tenant = t, at_roles = [''owner''] \<rparr>"
  using assms by (simp add: resolve_actor_def acc_simps tenant_claim_def add_membership_def Let_def jtext_def text_or_empty_def)

text \<open>The registration of the first user and the two routes of the sign-up are behind the middleware.\<close>

lemma registration_needs_session:
  assumes "\<not> oauth_path p" "p \<in> {''/api/auth/register'', ''/api/auth/signup'', ''/api/auth/verify''}"
    and "rq_path r = p" "rq_authorization r = None" "rq_link r = None" "rq_actor r = None"
  shows "fst (api_request env oauth_path signed_path r a) = Inl (AppError ''Sign in to OpenMuse'' 401)"
  using assms by (auto simp: api_request_def open_path_def request_owner_def session_owner_def bearer_def then_do_def split: bool.split)

section \<open>The hypotheses hold\<close>

definition ana_office :: "table accounts" where
  "ana_office = office [office_row ''ana'' True True]"

definition ana_login :: json where
  "ana_login = JObj [(''email'', JStr ''ana@x.es''), (''password'', JStr ''password'')]"

theorem signed_link_exact_witness:
  "verify_link office_env (sign_link office_env ''ana'' ''/api/files/1/content'') = Inr ''ana''"
proof -
  have n: "0 \<le> av_now office_env" "''ana'' \<noteq> []" by (simp_all add: office_env_def)
  note parts = signed_link_parts [OF n(1), of "''ana''" "''/api/files/1/content''"]
  have "list_all word_char (replicate 64 (CHR ''0''))" by code_simp
  then have x: "hex_output office_env y" for y by (simp add: hex_output_def office_env_def)
  have p: "CHR 0x0A \<notin> set ''/api/files/1/content'' \<union> set (sl_path (sign_link office_env ''ana'' ''/api/files/1/content''))"
    unfolding parts(5) by simp
  have "av_now office_env \<le> av_now office_env + 15 * 60 * 1000" by simp
  then show ?thesis
    using signed_link_exact [OF n p refl refl x, of "''ana''"] parts by simp
qed

theorem login_gives_session_witness:
  "\<exists>token a'. login office_env ''1.1.1.1'' ana_login ana_office = (Inr token, a')
     \<and> session_owner office_env (Some (''Bearer '' @ token)) (ac_store a') = Inr ''ana''"
proof -
  have "is_ok (fst (login office_env ''1.1.1.1'' ana_login ana_office))" by code_simp
  then obtain token a' where l: "login office_env ''1.1.1.1'' ana_login ana_office = (Inr token, a')" using ok_result by blast
  have e: "av_store office_env = plain_store" "office_env\<lparr> av_now := av_now office_env \<rparr> = office_env"
    "av_now office_env \<le> av_now office_env + week_ms" by (simp_all add: office_env_def week_ms_def)
  have "list_all (\<lambda>rec. jid (data_of rec) = ''ana'') (user_records office_env (ac_store ana_office))" by code_simp
  then have "\<forall>rec\<in>set (user_records office_env (ac_store ana_office)). jid (data_of rec) = ''ana''" by (simp only: list_all_iff)
  then have i: "jid (data_of rec) = ''ana''" if "rec \<in> set (user_records office_env (ac_store ana_office))" for rec using that by blast
  obtain rec where rec: "rec \<in> set (user_records office_env (ac_store ana_office))"
    and k: "session_owner (office_env\<lparr> av_now := av_now office_env \<rparr>) (Some (''Bearer '' @ token)) (ac_store a') = Inr (jid (data_of rec))"
    using login_gives_session [OF l e(1), unfolded sum.case] e(3) by blast
  show ?thesis using l k [unfolded e(2) i [OF rec]] by blast
qed

definition ana_request :: "string \<Rightarrow> request" where
  "ana_request token = \<lparr> rq_path = ''/api/tasks'', rq_authorization = Some (''Bearer '' @ token), rq_link = None, rq_actor = None, rq_tenant = None \<rparr>"

definition ana_inside :: "table accounts" where
  "ana_inside = snd (login office_env ''1.1.1.1'' ana_login ana_office)"

theorem request_acts_for_owner_witness:
  "\<exists>w t a'. api_request office_env (\<lambda>_. False) (\<lambda>_. False) (ana_request ''t0'') ana_inside = (Inr (Owned w t), a')
     \<and> own_tenant office_env w t ana_inside"
proof -
  have "(case fst (api_request office_env (\<lambda>_. False) (\<lambda>_. False) (ana_request ''t0'') ana_inside) of Inr (Owned w t) \<Rightarrow> True | _ \<Rightarrow> False)"
    by code_simp
  then obtain w t a' where r: "api_request office_env (\<lambda>_. False) (\<lambda>_. False) (ana_request ''t0'') ana_inside = (Inr (Owned w t), a')"
    by (metis (no_types, lifting) admitted_as.exhaust admitted_as.simps(8,10) prod.collapse sum.case_eq_if sum.collapse(1) sum.collapse(2))
  then show ?thesis using request_acts_for_owner [OF r] by (auto simp: ana_request_def)
qed

definition ana_signup :: json where
  "ana_signup = JObj [(''email'', JStr ''eva@x.es''), (''name'', JStr ''Eva''), (''password'', JStr ''password''), (''organization'', JStr ''Acme'')]"

theorem sign_up_never_verified_witness:
  "\<exists>i a1. sign_up office_env ''1.1.1.1'' ana_signup ana_office = (Inr (Some i), a1) \<and> snd (verify_signup office_env i a1) = a1"
proof -
  have "(case fst (sign_up office_env ''1.1.1.1'' ana_signup ana_office) of Inr (Some i) \<Rightarrow> True | _ \<Rightarrow> False)" by code_simp
  then obtain i a1 where r: "sign_up office_env ''1.1.1.1'' ana_signup ana_office = (Inr (Some i), a1)"
    by (cases "sign_up office_env ''1.1.1.1'' ana_signup ana_office") (auto split: sum.splits option.splits)
  have e: "av_store office_env = plain_store" by (simp add: office_env_def)
  show ?thesis using sign_up_never_verified [OF r e e] r by blast
qed

theorem removal_keeps_an_admin_witness:
  "\<exists>a'. remove_user office_env ''bob'' (office [office_row ''ana'' True True, office_row ''bob'' True True]) = (Inr (), a')
     \<and> active_admins office_env (ac_store a') \<noteq> []"
proof -
  let ?a = "office [office_row ''ana'' True True, office_row ''bob'' True True]"
  have "is_ok (fst (remove_user office_env ''bob'' ?a))" by code_simp
  then obtain a' where r: "remove_user office_env ''bob'' ?a = (Inr (), a')" using ok_result by (metis old.unit.exhaust)
  have e: "av_store office_env = plain_store" by (simp add: office_env_def)
  have h: "table_ok (ac_store ?a)" "few_users (ac_store ?a)" "active_admins office_env (ac_store ?a) \<noteq> []" by (code_simp+)
  show ?thesis using removal_keeps_an_admin [OF r e h] r by blast
qed

end
