(* ===== verification/Plans.thy ===== *)
theory Plans
  imports Tasks
begin

text \<open>
  Plans of a goal and their execution: the data of packages/domain/src/plan.ts, outcome.ts and goal.ts
  that the cycle reads, the reading of a planner's answer and the checks on a plan (engine/planner), the
  executor of a plan with its compensations (engine/execution/executor.ts), and the verifiers of an
  outcome (engine/verification).  A runner of steps and the answers of a model are arguments; \<open>'u\<close> is the
  state they act on.
\<close>

section \<open>Plans\<close>

datatype plan_status = PDraft | PApproved | PExecuting | PPaused | PCompleted | PFailed | PCancelled
datatype plan_step_status = StPending | StReady | StRunning | StSucceeded | StFailed | StSkipped | StCompensated
datatype backoff = BFixed | BLinear | BExponential

record retry_rule =
  rr_attempts :: nat
  rr_strategy :: backoff
  rr_base :: nat

record compensation =
  co_capability :: string
  co_inputs :: json

text \<open>What a planner's answer puts into \<open>dependsOn\<close> and \<open>inputs\<close> is not checked, so both are JSON.\<close>

record plan_step =
  pt_id :: string
  pt_title :: string
  pt_capability :: "string option"
  pt_inputs :: json
  pt_deps :: "json list"
  pt_expected :: "string option"
  pt_status :: plan_step_status
  pt_retry :: "retry_rule option"
  pt_compensation :: "compensation option"

record plan =
  pl_id :: string
  pl_tenant :: string
  pl_owner :: string
  pl_goal :: string
  pl_version :: nat
  pl_status :: plan_status
  pl_steps :: "plan_step list"
  pl_reason :: "string option"
  pl_previous :: "string option"
  pl_created :: int
  pl_updated :: int

datatype comparison = GreaterEq | LessEq | Equals | Differs | Greater | Less

record criterion =
  cn_id :: string
  cn_key :: string
  cn_operator :: comparison
  cn_value :: "json option"

record business_goal =
  bg_id :: string
  bg_tenant :: string
  bg_owner :: string
  bg_title :: string
  bg_description :: string
  bg_criteria :: "criterion list"

datatype outcome_status = Achieved | Partial | Blocked | FailedOutcome | UnknownOutcome

record evidence =
  ev_id :: string
  ev_source :: string
  ev_time :: int

record goal_outcome =
  oc_status :: outcome_status
  oc_summary :: string
  oc_evidence :: "evidence list"
  oc_metrics :: "(string \<times> rat) list"
  oc_verified :: bool
  oc_verified_at :: "int option"
  oc_note :: "string option"

record verification =
  ve_verified :: bool
  ve_reason :: string
  ve_missing :: "json list"
  ve_satisfied :: "string list"
  ve_failed :: "string list"
  ve_confidence :: rat
  ve_hybrid :: bool
  ve_at :: int

section \<open>A planner's answer\<close>

text \<open>\<open>raw.slice(indexOf(a), lastIndexOf(b) + 1)\<close> where both occur.\<close>

definition between :: "char \<Rightarrow> char \<Rightarrow> string \<Rightarrow> string option" where
  "between a b raw = (let before = takeWhile (\<lambda>c. c \<noteq> a) raw; behind = takeWhile (\<lambda>c. c \<noteq> b) (rev raw)
     in if a \<notin> set raw \<or> b \<notin> set raw then None
        else Some (drop (length before) (take (length raw - length behind) raw)))"

definition answer_text :: "json \<Rightarrow> string \<Rightarrow> string option" where
  "answer_text s k = jstr (jget s k)"

definition planned_step :: "nat \<Rightarrow> json \<Rightarrow> plan_step" where
  "planned_step i s = \<lparr>
     pt_id = (case answer_text s ''id'' of Some x \<Rightarrow> x | None \<Rightarrow> ''step-'' @ nat_text i),
     pt_title = (case answer_text s ''title'' of Some x \<Rightarrow> take 200 x | None \<Rightarrow> ''Step '' @ nat_text (i + 1)),
     pt_capability = answer_text s ''capabilityId'',
     pt_inputs = (case jget s ''inputs'' of Some (JObj fs) \<Rightarrow> JObj fs | Some (JArr xs) \<Rightarrow> JArr xs | _ \<Rightarrow> JObj []),
     pt_deps = (case jget s ''dependsOn'' of Some (JArr xs) \<Rightarrow> take 20 xs | _ \<Rightarrow> []),
     pt_expected = map_option (take 500) (answer_text s ''expectedOutcome''),
     pt_status = StPending, pt_retry = None, pt_compensation = None \<rparr>"

text \<open>\<open>parse\<close> is \<open>JSON.parse\<close>; reading a field of \<open>null\<close> throws, and everything that throws gives no plan.\<close>

definition parse_plan :: "(string \<Rightarrow> json option) \<Rightarrow> int \<Rightarrow> string \<Rightarrow> string \<Rightarrow> string \<Rightarrow> string \<Rightarrow> string \<Rightarrow> plan option" where
  "parse_plan parse now raw i tenant owner goal = (case Option.bind (between (CHR 0x5B) (CHR 0x5D) (trim raw)) parse of
     Some (JArr xs) \<Rightarrow> if JNull \<in> set (take 50 xs) then None
       else Some \<lparr> pl_id = i, pl_tenant = tenant, pl_owner = owner, pl_goal = goal, pl_version = 1, pl_status = PDraft,
         pl_steps = map (\<lambda>(n, s). planned_step n s) (List.enumerate 0 (take 50 xs)),
         pl_reason = Some ''Plan generado por LLM'', pl_previous = None, pl_created = now, pl_updated = now \<rparr>
   | _ \<Rightarrow> None)"

definition stub_plan :: "(int \<Rightarrow> string) \<Rightarrow> int \<Rightarrow> business_goal \<Rightarrow> plan" where
  "stub_plan show_int now g = \<lparr> pl_id = ''plan-'' @ show_int now, pl_tenant = bg_tenant g, pl_owner = bg_owner g, pl_goal = bg_id g,
     pl_version = 1, pl_status = PDraft, pl_steps = [], pl_reason = Some ''stub planner: no implementado'', pl_previous = None,
     pl_created = now, pl_updated = now \<rparr>"

definition known_steps :: "string set \<Rightarrow> plan \<Rightarrow> plan" where
  "known_steps known p = p\<lparr> pl_steps := filter (\<lambda>s. case given_text (pt_capability s) of None \<Rightarrow> True | Some c \<Rightarrow> c \<in> known) (pl_steps p) \<rparr>"

definition within_budget :: "plan \<Rightarrow> plan" where
  "within_budget p = (if length (pl_steps p) \<le> 50 then p else p\<lparr> pl_steps := take 50 (pl_steps p) \<rparr>)"

text \<open>\<open>LlmPlanner\<close> and \<open>LlmReplanner\<close> around the text a model answers, or the error it fails with.\<close>

definition llm_plan :: "(string \<Rightarrow> json option) \<Rightarrow> (int \<Rightarrow> string) \<Rightarrow> int \<Rightarrow> bool \<Rightarrow> string \<Rightarrow> string res \<Rightarrow> business_goal \<Rightarrow> plan res" where
  "llm_plan parse show_int now configured i answer g = (if \<not> configured then Inr (stub_plan show_int now g)
     else (case answer of Inl e \<Rightarrow> Inl e
       | Inr raw \<Rightarrow> (case parse_plan parse now raw (''plan-'' @ i) (bg_tenant g) (bg_owner g) (bg_id g) of
           Some p \<Rightarrow> Inr p | None \<Rightarrow> Inr (stub_plan show_int now g))))"

definition llm_replan :: "(string \<Rightarrow> json option) \<Rightarrow> int \<Rightarrow> bool \<Rightarrow> string \<Rightarrow> string res \<Rightarrow> business_goal \<Rightarrow> plan \<Rightarrow> plan option res" where
  "llm_replan parse now configured i answer g previous = (if \<not> configured then Inr None
     else (case answer of Inl e \<Rightarrow> Inl e
       | Inr raw \<Rightarrow> Inr (map_option (\<lambda>p. p\<lparr> pl_version := pl_version previous + 1, pl_previous := Some (pl_id previous) \<rparr>)
           (parse_plan parse now raw (''plan-'' @ i) (bg_tenant g) (bg_owner g) (bg_id g)))))"

section \<open>The executor\<close>

datatype step_mark = Succeeded | Failed | Skipped

record step_result =
  sr_id :: string
  sr_mark :: step_mark
  sr_error :: "string option"

datatype run_status = RunSucceeded | RunFailed | RunBlocked

type_synonym 'u step_runner = "plan_step \<Rightarrow> 'u \<Rightarrow> unit res \<times> 'u"

definition deps_ready :: "string list \<Rightarrow> plan_step \<Rightarrow> bool" where
  "deps_ready completed st \<longleftrightarrow> (\<forall>d\<in>set (pt_deps st). d \<in> JStr ` set completed)"

definition attempts_of :: "plan_step \<Rightarrow> nat" where
  "attempts_of st = (case pt_retry st of None \<Rightarrow> 1 | Some r \<Rightarrow> rr_attempts r)"

text \<open>The attempts at a step: \<open>Inr\<close> when one succeeds, else the error of the last one.\<close>

fun try_step :: "'u step_runner \<Rightarrow> plan_step \<Rightarrow> nat \<Rightarrow> string option \<Rightarrow> 'u \<Rightarrow> (string option + unit) \<times> 'u" where
  "try_step run st 0 err u = (Inl err, u)"
| "try_step run st (Suc n) err u = (case run st u of
     (Inr _, u') \<Rightarrow> (Inr (), u')
   | (Inl e, u') \<Rightarrow> try_step run st n (Some (err_message e)) u')"

definition compensating :: "plan_step \<Rightarrow> compensation \<Rightarrow> plan_step" where
  "compensating prev c = prev\<lparr> pt_id := ''compensate-'' @ pt_id prev, pt_capability := Some (co_capability c), pt_inputs := co_inputs c \<rparr>"

fun compensate :: "'u step_runner \<Rightarrow> plan_step list \<Rightarrow> string list \<Rightarrow> 'u \<Rightarrow> step_result list \<times> 'u" where
  "compensate run steps [] u = ([], u)"
| "compensate run steps (i # is) u = (case find (\<lambda>s. pt_id s = i) steps of
     None \<Rightarrow> compensate run steps is u
   | Some prev \<Rightarrow> (case pt_compensation prev of
       None \<Rightarrow> compensate run steps is u
     | Some c \<Rightarrow> (case run (compensating prev c) u of
         (r, u') \<Rightarrow> (case compensate run steps is u' of (rs, u'') \<Rightarrow>
           (\<lparr> sr_id = ''compensate-'' @ pt_id prev, sr_mark = (case r of Inr _ \<Rightarrow> Succeeded | Inl _ \<Rightarrow> Failed),
              sr_error = (case r of Inr _ \<Rightarrow> None | Inl e \<Rightarrow> Some (err_message e)) \<rparr> # rs, u'')))))"

definition overall :: "step_result list \<Rightarrow> run_status" where
  "overall rs = (if rs \<noteq> [] \<and> (\<forall>r\<in>set rs. sr_mark r = Skipped) then RunBlocked else RunSucceeded)"

text \<open>The loop over the steps: \<open>completed\<close> and the results grow as it goes.\<close>

fun exec_steps :: "'u step_runner \<Rightarrow> plan_step list \<Rightarrow> plan_step list \<Rightarrow> string list \<Rightarrow> step_result list \<Rightarrow> 'u
    \<Rightarrow> (run_status \<times> step_result list) \<times> 'u" where
  "exec_steps run steps [] completed results u = ((overall results, results), u)"
| "exec_steps run steps (st # sts) completed results u =
     (if \<not> deps_ready completed st
      then exec_steps run steps sts completed (results @ [\<lparr> sr_id = pt_id st, sr_mark = Skipped, sr_error = Some ''deps not ready'' \<rparr>]) u
      else (case try_step run st (attempts_of st) None u of
          (Inr _, u') \<Rightarrow> exec_steps run steps sts (completed @ [pt_id st]) (results @ [\<lparr> sr_id = pt_id st, sr_mark = Succeeded, sr_error = None \<rparr>]) u'
        | (Inl err, u') \<Rightarrow> (case compensate run steps (rev completed) u' of
            (cs, u'') \<Rightarrow> ((RunFailed, results @ \<lparr> sr_id = pt_id st, sr_mark = Failed, sr_error = err \<rparr> # cs), u''))))"

definition execute_plan :: "'u step_runner option \<Rightarrow> plan \<Rightarrow> 'u \<Rightarrow> (run_status \<times> step_result list) \<times> 'u" where
  "execute_plan runner p u = (case runner of
     None \<Rightarrow> ((RunFailed, map (\<lambda>s. \<lparr> sr_id = pt_id s, sr_mark = Skipped, sr_error = Some ''no runner'' \<rparr>) (pl_steps p)), u)
   | Some run \<Rightarrow> exec_steps run (pl_steps p) (pl_steps p) [] [] u)"

section \<open>Verification\<close>

fun compare :: "comparison \<Rightarrow> rat \<Rightarrow> rat \<Rightarrow> bool" where
  "compare GreaterEq a b \<longleftrightarrow> a \<ge> b" | "compare LessEq a b \<longleftrightarrow> a \<le> b" | "compare Equals a b \<longleftrightarrow> a = b"
| "compare Differs a b \<longleftrightarrow> a \<noteq> b" | "compare Greater a b \<longleftrightarrow> a > b" | "compare Less a b \<longleftrightarrow> a < b"

text \<open>\<open>number\<close> is \<open>Number\<close> on a value that is no number: \<open>None\<close> when the result is not finite.\<close>

definition meets :: "(json option \<Rightarrow> rat option) \<Rightarrow> rat \<Rightarrow> comparison \<Rightarrow> json option \<Rightarrow> bool" where
  "meets number actual c expected = (case (case expected of Some (JNum r) \<Rightarrow> Some r | v \<Rightarrow> number v) of
     None \<Rightarrow> False | Some e \<Rightarrow> compare c actual e)"

definition verify_outcome :: "(json option \<Rightarrow> rat option) \<Rightarrow> int \<Rightarrow> business_goal \<Rightarrow> goal_outcome \<Rightarrow> verification" where
  "verify_outcome number now g oc =
     (let measured = filter (\<lambda>c. map_of (oc_metrics oc) (cn_key c) \<noteq> None) (bg_criteria g);
          ok = (\<lambda>c. meets number (the (map_of (oc_metrics oc) (cn_key c))) (cn_operator c) (cn_value c));
          missing = map cn_key (filter (\<lambda>c. map_of (oc_metrics oc) (cn_key c) = None) (bg_criteria g));
          satisfied = map cn_id (filter ok measured); failed = map cn_id (filter (\<lambda>c. \<not> ok c) measured)
      in \<lparr> ve_verified = (failed = [] \<and> missing = []),
           ve_reason = (if failed = [] \<and> missing = [] then ''Se cumplen '' @ nat_text (length satisfied) @ '' criterios''
             else ''Fallan '' @ nat_text (length failed) @ '' y faltan '' @ nat_text (length missing) @ '' criterios''),
           ve_missing = map JStr missing, ve_satisfied = satisfied, ve_failed = failed, ve_confidence = 1, ve_hybrid = False, ve_at = now \<rparr>)"

text \<open>\<open>LlmVerifier\<close>: a second opinion where the first refuses and there is evidence; \<open>answer\<close> is the text of
  the model, \<open>None\<close> when it fails.\<close>

definition llm_verify :: "(string \<Rightarrow> json option) \<Rightarrow> int \<Rightarrow> bool \<Rightarrow> string option \<Rightarrow> goal_outcome \<Rightarrow> verification \<Rightarrow> verification" where
  "llm_verify parse now configured answer oc base = (if ve_verified base \<or> oc_evidence oc = [] \<or> \<not> configured then base
     else (case Option.bind (Option.bind answer (between (CHR 0x7B) (CHR 0x7D))) parse of
         None \<Rightarrow> base
       | Some j \<Rightarrow> if j = JNull then base
           else \<lparr> ve_verified = truthy (jget j ''verified''),
             ve_reason = (case jstr (jget j ''reason'') of Some r \<Rightarrow> take 2000 r | None \<Rightarrow> ve_reason base),
             ve_missing = (case jget j ''missing'' of Some (JArr xs) \<Rightarrow> take 50 xs | _ \<Rightarrow> ve_missing base),
             ve_satisfied = ve_satisfied base, ve_failed = ve_failed base, ve_confidence = 4 / 5, ve_hybrid = True, ve_at = now \<rparr>))"

definition verdict_text :: "verification \<Rightarrow> string" where
  "verdict_text v = (if ve_verified v then ''OK'' else ''KO'')"

definition verification_row :: "verification \<Rightarrow> json" where
  "verification_row v = JObj [(''verified'', JBool (ve_verified v)), (''reason'', JStr (ve_reason v)), (''missing'', JArr (ve_missing v)),
     (''satisfiedCriteria'', JArr (map JStr (ve_satisfied v))), (''failedCriteria'', JArr (map JStr (ve_failed v))),
     (''confidence'', JNum (ve_confidence v)), (''method'', JStr (if ve_hybrid v then ''hybrid'' else ''deterministic'')), (''verifiedAt'', JDate (ve_at v))]"

definition record_disagreement :: "'s store \<Rightarrow> int \<Rightarrow> int \<Rightarrow> string \<Rightarrow> string \<Rightarrow> string \<Rightarrow> string option \<Rightarrow> string option
    \<Rightarrow> verification \<Rightarrow> verification \<Rightarrow> 's \<Rightarrow> 's" where
  "record_disagreement S clock now i tenant owner goal task det llm s = (if ve_verified det = ve_verified llm then s
     else s_put S clock tenant ''approval-requests'' (JObj ([(''id'', JStr i), (''tenantId'', JStr tenant), (''owner'', JStr owner)]
       @ present ''goalId'' JStr (given_text goal) @ present ''taskId'' JStr (given_text task)
       @ [(''capabilityId'', JStr ''verification.disagreement''),
          (''reason'', JStr (''El verificador deterministico dijo '' @ verdict_text det @ '' y el LLM dijo '' @ verdict_text llm @ ''. Revisa manualmente.'')),
          (''risk'', JStr ''medium''), (''status'', JStr ''pending''),
          (''payload'', JObj [(''deterministic'', verification_row det), (''llm'', verification_row llm)]),
          (''requestedAt'', JDate now), (''expiresAt'', JDate (now + 7 * 24 * 3600000))])) s)"

text \<open>A case that the model judged, kept for later prompts; \<open>shot\<close> is what the caller gives.\<close>

definition remember_few_shot :: "'s store \<Rightarrow> int \<Rightarrow> int \<Rightarrow> string \<Rightarrow> string \<Rightarrow> fields \<Rightarrow> 's \<Rightarrow> 's" where
  "remember_few_shot S clock now i tenant shot s =
     s_put S clock tenant ''verifier-fewshots'' (JObj ([(''id'', JStr i)] @ shot @ [(''createdAt'', JDate now)])) s"

end
