(* ===== verification/Capability.thy ===== *)
theory Capability
  imports Plans
begin

text \<open>
  Capabilities: the registries and their bootstrap (engine/capabilities), the tools behind them
  (engine/execution/tool-executors.ts) and the runner of a plan's steps, with its checks and its claims of
  external writes (engine/execution/capability-runner.ts).  The governance of the constructor, the services
  that the tools call, \<open>JSON.stringify\<close> and the hash are arguments.
\<close>

section \<open>Contracts\<close>

datatype effect_kind = EffRead | EffWrite | EffExternalWrite | EffNotification
datatype cap_kind = CapTool | CapSkill | CapSop | CapComposite
datatype cap_risk = RiskLow | RiskMedium | RiskHigh | RiskCritical
datatype idempotency_kind = Idempotent | AtMostOnce | AtLeastOnce

record side_effect =
  se_kind :: effect_kind
  se_target :: string
  se_reversible :: bool

record capability =
  cc_id :: string
  cc_kind :: cap_kind
  cc_effects :: "side_effect list"
  cc_risk :: cap_risk
  cc_idempotency :: idempotency_kind
  cc_approval :: bool
  cc_tags :: "string list"
  cc_action :: "string option"
  cc_family :: "string option"

section \<open>Registries\<close>

type_synonym registry = "(string \<times> capability) list"

definition reg_register :: "capability \<Rightarrow> registry \<Rightarrow> registry" where
  "reg_register c r = AList.update (cc_id c) c r"

definition reg_get :: "string \<Rightarrow> registry \<Rightarrow> capability option" where
  "reg_get i r = map_of r i"

record cap_filter =
  cf_kind :: "cap_kind option"
  cf_tag :: "string option"
  cf_risk :: "cap_risk option"

definition reg_list :: "cap_filter option \<Rightarrow> registry \<Rightarrow> capability list" where
  "reg_list f r = (let all = map snd r in case f of None \<Rightarrow> all
     | Some q \<Rightarrow> filter (\<lambda>c. (case cf_kind q of None \<Rightarrow> True | Some k \<Rightarrow> cc_kind c = k)
         \<and> (case given_text (cf_tag q) of None \<Rightarrow> True | Some t \<Rightarrow> t \<in> set (cc_tags c))
         \<and> (case cf_risk q of None \<Rightarrow> True | Some x \<Rightarrow> cc_risk c = x)) all)"

text \<open>The registry of a tenant remembers what the resolver gave for \<open>ttl\<close>.\<close>

type_synonym cap_cache = "(string \<times> int \<times> capability list) list"

definition tenant_caps :: "int \<Rightarrow> int \<Rightarrow> (string \<Rightarrow> capability list res) \<Rightarrow> string \<Rightarrow> cap_cache \<Rightarrow> capability list res \<times> cap_cache" where
  "tenant_caps ttl now resolve t cache = (case (case map_of cache t of Some (at_time, v) \<Rightarrow> if now - at_time < ttl then Some v else None | None \<Rightarrow> None) of
     Some v \<Rightarrow> (Inr v, cache)
   | None \<Rightarrow> (case resolve t of Inl e \<Rightarrow> (Inl e, cache) | Inr v \<Rightarrow> (Inr v, AList.update t (now, v) cache)))"

definition tenant_cap :: "int \<Rightarrow> int \<Rightarrow> (string \<Rightarrow> capability list res) \<Rightarrow> string \<Rightarrow> string \<Rightarrow> cap_cache \<Rightarrow> capability option res \<times> cap_cache" where
  "tenant_cap ttl now resolve t i = then_do (tenant_caps ttl now resolve t) (\<lambda>all. give (find (\<lambda>c. cc_id c = i) all))"

definition caps_invalidate :: "string \<Rightarrow> cap_cache \<Rightarrow> cap_cache" where
  "caps_invalidate t cache = AList.delete t cache"

definition caps_clear :: "cap_cache \<Rightarrow> cap_cache" where
  "caps_clear cache = []"

section \<open>The capabilities of the system\<close>

definition eff :: "effect_kind \<Rightarrow> string \<Rightarrow> bool \<Rightarrow> side_effect list" where
  "eff k t r = [\<lparr> se_kind = k, se_target = t, se_reversible = r \<rparr>]"

definition declared :: "cap_kind \<Rightarrow> string \<Rightarrow> string \<Rightarrow> string \<Rightarrow> string \<Rightarrow> cap_risk \<Rightarrow> side_effect list \<Rightarrow> bool \<Rightarrow> capability" where
  "declared k tag i act fam risk effs appr = \<lparr> cc_id = i, cc_kind = k, cc_effects = effs, cc_risk = risk, cc_idempotency = Idempotent,
     cc_approval = appr, cc_tags = [tag], cc_action = Some act, cc_family = Some fam \<rparr>"

definition tool_capabilities :: "capability list" where
  "tool_capabilities = (let t = declared CapTool ''tool'' in [
     t ''read_mail_thread'' ''Read'' ''COMMUNICATION'' RiskLow (eff EffRead ''email'' True) False,
     t ''read_workspace'' ''Read'' ''DATA'' RiskLow (eff EffRead ''workspace'' True) False,
     t ''import_pdf'' ''Retrieve'' ''DOCUMENTS'' RiskLow (eff EffRead ''files'' True) False,
     t ''inspect_pdf'' ''Read'' ''DOCUMENTS'' RiskLow (eff EffRead ''files'' True) False,
     t ''fill_pdf'' ''Write'' ''DOCUMENTS'' RiskLow (eff EffWrite ''files'' True) False,
     t ''prepare_email'' ''Communicate'' ''COMMUNICATION'' RiskMedium (eff EffExternalWrite ''email'' False) True,
     t ''prepare_event'' ''Create'' ''AUTOMATION'' RiskMedium (eff EffExternalWrite ''calendar'' False) True,
     t ''read_web'' ''Read'' ''WEB'' RiskLow (eff EffRead ''web'' True) False,
     t ''save_artifact'' ''Write'' ''DATA'' RiskLow (eff EffWrite ''artifacts'' True) False,
     t ''ask_user'' ''Communicate'' ''COMMUNICATION'' RiskLow [] False,
     t ''computer_command'' ''Execute'' ''SOFTWARE'' RiskMedium (eff EffWrite ''sandbox'' False) False,
     t ''query_business'' ''Retrieve'' ''DATA'' RiskLow (eff EffRead ''business'' True) False,
     t ''recall_memory'' ''Retrieve'' ''DATA'' RiskLow (eff EffRead ''memory'' True) False,
     t ''llm_generate'' ''Transform'' ''CONTENT'' RiskLow [] False,
     t ''transition_entity'' ''Update'' ''DATA'' RiskMedium (eff EffWrite ''entity'' False) False])"

definition composite_capabilities :: "capability list" where
  "composite_capabilities = (let c = declared CapComposite ''composite'' in [
     c ''run_sop'' ''Execute'' ''AUTOMATION'' RiskLow [] False,
     c ''send_email'' ''Communicate'' ''COMMUNICATION'' RiskMedium (eff EffExternalWrite ''email'' False) True,
     c ''send_whatsapp'' ''Communicate'' ''COMMUNICATION'' RiskMedium (eff EffExternalWrite ''whatsapp'' False) True,
     c ''create_calendar_event'' ''Create'' ''AUTOMATION'' RiskMedium (eff EffExternalWrite ''calendar'' False) True])"

definition bootstrap :: "registry \<Rightarrow> registry" where
  "bootstrap r = fold reg_register (tool_capabilities @ composite_capabilities) r"

section \<open>The tools behind them\<close>

record exec_context =
  xc_tenant :: string
  xc_owner :: string
  xc_role :: "string option"
  xc_runtime :: "string option"
  xc_task :: "string option"
  xc_actor :: string
  xc_session :: "string option"

text \<open>The call that a tool makes on the service; the answer is the service's.\<close>

datatype tool_request = ThreadOf string string | SnapshotOf string | QueryOf string string string
  | ArtifactOf string json string string json | RecallOf string string | ObserveOf string string
  | CommandOf string string string "string option" | ProposeOf string string json string
  | GenerateOf string json | TransitionOf string string string string

record ('s, 'u) tools =
  tl_store :: "'s store"
  tl_rows :: "'u \<Rightarrow> 's"
  tl_call :: "tool_request \<Rightarrow> 'u \<Rightarrow> json res \<times> 'u"
  tl_show :: "json \<Rightarrow> string"
  tl_graph :: bool

definition string_in :: "('s, 'u) tools \<Rightarrow> json \<Rightarrow> string \<Rightarrow> string \<Rightarrow> string" where
  "string_in tk inputs k d = (case nullish (jget inputs k) None of None \<Rightarrow> d | Some (JStr x) \<Rightarrow> x | Some v \<Rightarrow> tl_show tk v)"

text \<open>The task of the context, which two of the proposals and the artifact need.\<close>

definition with_task :: "('s, 'u) tools \<Rightarrow> exec_context \<Rightarrow> string \<Rightarrow> string \<Rightarrow> (string \<Rightarrow> json \<Rightarrow> 'u \<Rightarrow> json res \<times> 'u) \<Rightarrow> 'u \<Rightarrow> json res \<times> 'u" where
  "with_task tk cx missing unknown f u = (case given_text (xc_task cx) of
     None \<Rightarrow> (Inl (JsError missing), u)
   | Some i \<Rightarrow> (case s_get (tl_store tk) (xc_owner cx) ''tasks'' i (tl_rows tk u) of
       None \<Rightarrow> (Inl (JsError unknown), u) | Some task \<Rightarrow> f i task u))"

definition proposal_reply :: "json \<Rightarrow> json" where
  "proposal_reply p = JObj (copy_field ''actionId'' ''id'' p @ copy_field ''status'' ''status'' p)"

definition propose_tool :: "('s, 'u) tools \<Rightarrow> exec_context \<Rightarrow> string \<Rightarrow> string \<Rightarrow> json \<Rightarrow> 'u \<Rightarrow> json res \<times> 'u" where
  "propose_tool tk cx name kind inputs = with_task tk cx (name @ '' requires taskId'') (name @ '' requires an existing task'') (\<lambda>i task.
     then_do (tl_call tk (ProposeOf (xc_owner cx) kind inputs i)) (\<lambda>p. give (proposal_reply p)))"

definition required_text :: "string \<Rightarrow> string \<Rightarrow> ('u \<Rightarrow> json res \<times> 'u) \<Rightarrow> 'u \<Rightarrow> json res \<times> 'u" where
  "required_text x message m = (if x = [] then throw (JsError message) else m)"

definition generate_tool :: "('s, 'u) tools \<Rightarrow> json \<Rightarrow> string option \<Rightarrow> 'u \<Rightarrow> json res \<times> 'u" where
  "generate_tool tk inputs key = (let x = string_in tk inputs ''instruction'' (string_in tk inputs ''prompt'' []) in
     if x = [] then give (JObj [(''text'', JStr [])])
     else then_do (tl_call tk (GenerateOf (case key of None \<Rightarrow> x | Some k \<Rightarrow> ''[idem:'' @ take 8 k @ ''] '' @ x)
         (case nullish (jget inputs ''context'') None of None \<Rightarrow> JObj [] | Some c \<Rightarrow> c))) (\<lambda>v.
       give (JObj [(''text'', JStr (case v of JStr s \<Rightarrow> take 20000 s | _ \<Rightarrow> []))])))"

definition transition_tool :: "('s, 'u) tools \<Rightarrow> exec_context \<Rightarrow> json \<Rightarrow> 'u \<Rightarrow> json res \<times> 'u" where
  "transition_tool tk cx inputs = (let i = string_in tk inputs ''entityId'' []; to = string_in tk inputs ''to'' [] in
     if i = [] \<or> to = [] then throw (JsError ''entityId and to required'')
     else if \<not> tl_graph tk then throw (JsError ''graph not wired'')
     else tl_call tk (TransitionOf (xc_owner cx) i to (''runtime:'' @ (case xc_runtime cx of None \<Rightarrow> ''unknown'' | Some r \<Rightarrow> r))))"

definition executor_of :: "('s, 'u) tools \<Rightarrow> string \<Rightarrow> (exec_context \<Rightarrow> json \<Rightarrow> string option \<Rightarrow> 'u \<Rightarrow> json res \<times> 'u) option" where
  "executor_of tk i = map_of [
     (''read_mail_thread'', \<lambda>cx inp key. required_text (string_in tk inp ''threadId'' []) ''threadId required'' (tl_call tk (ThreadOf (xc_owner cx) (string_in tk inp ''threadId'' [])))),
     (''read_workspace'', \<lambda>cx inp key. tl_call tk (SnapshotOf (xc_owner cx))),
     (''query_business'', \<lambda>cx inp key. tl_call tk (QueryOf (xc_owner cx) (string_in tk inp ''source'' ''postgres'') (string_in tk inp ''query'' []))),
     (''save_artifact'', \<lambda>cx inp key. with_task tk cx ''save_artifact requires taskId in ctx'' ''save_artifact requires an existing task'' (\<lambda>_ task.
        tl_call tk (ArtifactOf (xc_owner cx) task (string_in tk inp ''title'' ''artifact'') (string_in tk inp ''summary'' [])
          (case nullish (jget inp ''data'') None of None \<Rightarrow> JObj [] | Some d \<Rightarrow> d)))),
     (''recall_memory'', \<lambda>cx inp key. tl_call tk (RecallOf (xc_owner cx) (string_in tk inp ''query'' []))),
     (''read_web'', \<lambda>cx inp key. required_text (string_in tk inp ''url'' []) ''url required'' (tl_call tk (ObserveOf (xc_owner cx) (string_in tk inp ''url'' [])))),
     (''computer_command'', \<lambda>cx inp key. required_text (string_in tk inp ''command'' []) ''command required''
        (tl_call tk (CommandOf (xc_owner cx) (string_in tk inp ''command'' []) (string_in tk inp ''cwd'' ''/workspace'') key))),
     (''ask_user'', \<lambda>cx inp key. give (JObj [(''status'', JStr ''waiting_input''), (''question'', case nullish (jget inp ''question'') None of None \<Rightarrow> JStr [] | Some q \<Rightarrow> q)])),
     (''prepare_email'', \<lambda>cx inp key. propose_tool tk cx ''prepare_email'' ''email.send'' inp),
     (''prepare_event'', \<lambda>cx inp key. propose_tool tk cx ''prepare_event'' ''calendar.create'' inp),
     (''llm_generate'', \<lambda>cx inp key. generate_tool tk inp key),
     (''transition_entity'', \<lambda>cx inp key. transition_tool tk cx inp)] i"

section \<open>The runner\<close>

record ('s, 'u) runner_env =
  re_registry :: registry
  re_executor :: "string \<Rightarrow> (exec_context \<Rightarrow> json \<Rightarrow> string option \<Rightarrow> 'u \<Rightarrow> json res \<times> 'u) option"
  re_governance :: "(exec_context \<Rightarrow> json \<Rightarrow> capability \<Rightarrow> 'u \<Rightarrow> bool \<times> string option) option"
  re_store :: "'s store option"
  re_rows :: "'u \<Rightarrow> 's"
  re_set_rows :: "'s \<Rightarrow> 'u \<Rightarrow> 'u"
  re_clock :: int
  re_now :: int
  re_stringify :: "json \<Rightarrow> string"
  re_sha :: "string \<Rightarrow> string"

text \<open>The decision of the governance on the role of the context; without governance, role or actor it is skipped.\<close>

definition authorize :: "('s, 'u) runner_env \<Rightarrow> 's store \<Rightarrow> exec_context \<Rightarrow> capability \<Rightarrow> 'u \<Rightarrow> err option" where
  "authorize env S cx c u = (case (re_governance env, given_text (xc_role cx)) of
     (Some gov, Some role) \<Rightarrow> if xc_actor cx = [] then None
       else (case s_get S (xc_tenant cx) ''agent-roles'' role (re_rows env u) of
           None \<Rightarrow> Some (JsError (''AgentRole '' @ role @ '' not found for authz''))
         | Some r \<Rightarrow> (case gov cx r c u of (ok, reason) \<Rightarrow>
             if ok then None else Some (JsError (''authz denied: '' @ (case reason of None \<Rightarrow> cc_id c | Some x \<Rightarrow> x)))))
   | _ \<Rightarrow> None)"

definition approval_refusal :: "('s, 'u) runner_env \<Rightarrow> exec_context \<Rightarrow> capability \<Rightarrow> 'u \<Rightarrow> err option" where
  "approval_refusal env cx c u = (if \<not> cc_approval c then None
     else (case given_text (xc_session cx) of
         None \<Rightarrow> Some (JsError (''requires approval: '' @ cc_id c))
       | Some i \<Rightarrow> (case re_store env of None \<Rightarrow> None
         | Some S \<Rightarrow> (case s_get S (xc_tenant cx) ''actions'' i (re_rows env u) of
             None \<Rightarrow> Some (JsError (''approval not found: '' @ i))
           | Some a \<Rightarrow> if \<not> (jstatus a \<in> {Some ''executing'', Some ''succeeded''})
               then Some (JsError (''approval not valid: '' @ i @ '' status='' @ (case jstatus a of None \<Rightarrow> ''unknown'' | Some x \<Rightarrow> x)))
               else (case (truthy_text a ''kind'', cc_action c) of
                   (Some k, Some t) \<Rightarrow> if k \<noteq> t then Some (JsError (''approval kind mismatch: '' @ k @ '' != '' @ t)) else None
                 | _ \<Rightarrow> None)))))"

definition effect_key :: "('s, 'u) runner_env \<Rightarrow> exec_context \<Rightarrow> plan_step \<Rightarrow> capability \<Rightarrow> string option" where
  "effect_key env cx st c = (if cc_idempotency c = Idempotent then None
     else Some (make_idempotency_key (re_stringify env) (re_sha env) ''computer'' (JObj [(''tenantId'', JStr (xc_tenant cx)), (''stepId'', JStr (pt_id st)),
        (''capabilityId'', JStr (cc_id c)), (''inputs'', pt_inputs st)])))"

definition external :: "capability \<Rightarrow> bool" where
  "external c \<longleftrightarrow> (\<exists>e\<in>set (cc_effects c). se_kind e = EffExternalWrite)"

definition claim_row :: "exec_context \<Rightarrow> plan_step \<Rightarrow> capability \<Rightarrow> string \<Rightarrow> fields \<Rightarrow> json" where
  "claim_row cx st c key rest = JObj ([(''id'', JStr key), (''tenantId'', JStr (xc_tenant cx)), (''stepId'', JStr (pt_id st)), (''capabilityId'', JStr (cc_id c))] @ rest)"

definition put_claim :: "('s, 'u) runner_env \<Rightarrow> 's store \<Rightarrow> exec_context \<Rightarrow> json \<Rightarrow> 'u \<Rightarrow> 'u" where
  "put_claim env S cx row u = re_set_rows env (s_put S (re_clock env) (xc_tenant cx) ''idempotency-claims'' row (re_rows env u)) u"

datatype claim_answer = AlreadyDone | Claimed

text \<open>What an existing claim means: done is done, failed may run again, a claim younger than five minutes is
  somebody's, an older one has an unknown outcome.\<close>

definition take_claim :: "('s, 'u) runner_env \<Rightarrow> 's store \<Rightarrow> exec_context \<Rightarrow> plan_step \<Rightarrow> capability \<Rightarrow> string \<Rightarrow> 'u \<Rightarrow> claim_answer res \<times> 'u" where
  "take_claim env S cx st c key u =
     (let fresh = claim_row cx st c key [(''status'', JStr ''claimed''), (''claimedAt'', JDate (re_now env))] in
      case s_get S (xc_tenant cx) ''idempotency-claims'' key (re_rows env u) of
        None \<Rightarrow> (case s_insert S (re_clock env) (xc_tenant cx) ''idempotency-claims'' fresh (re_rows env u) of
            (None, s) \<Rightarrow> (Inl (JsError (''idempotent: raced claim '' @ key)), re_set_rows env s u)
          | (Some _, s) \<Rightarrow> (Inr Claimed, re_set_rows env s u))
      | Some old \<Rightarrow> if jstatus old = Some ''done'' then (Inr AlreadyDone, u)
          else if jstatus old = Some ''failed'' then (Inr Claimed, put_claim env S cx fresh u)
          else if jstatus old = Some ''outcome_unknown'' then (Inl (JsError (''idempotent: outcome_unknown, reconcile first '' @ key)), u)
          else if jstatus old = Some ''claimed''
          then (if re_now env - (case jdate (jget old ''claimedAt'') of None \<Rightarrow> 0 | Some t \<Rightarrow> t) < 5 * 60 * 1000
                then (Inl (JsError (''idempotent: in progress '' @ key)), u)
                else (Inl (JsError (''idempotent: stale claim, reconcile first '' @ key)),
                  put_claim env S cx (claim_row cx st c key ([(''status'', JStr ''outcome_unknown''), (''error'', JStr ''stale claim'')] @ copy_field ''claimedAt'' ''claimedAt'' old)) u))
          else (Inl (JsError (''idempotent: unknown status '' @ text_or_empty old ''status'' @ '' for '' @ key)), u))"

definition result_text :: "('s, 'u) runner_env \<Rightarrow> json \<Rightarrow> string" where
  "result_text env v = take 2000 (case v of JStr x \<Rightarrow> x | _ \<Rightarrow> re_stringify env v)"

definition run_claimed :: "('s, 'u) runner_env \<Rightarrow> 's store \<Rightarrow> exec_context \<Rightarrow> plan_step \<Rightarrow> capability \<Rightarrow> string
    \<Rightarrow> ('u \<Rightarrow> json res \<times> 'u) \<Rightarrow> 'u \<Rightarrow> unit res \<times> 'u" where
  "run_claimed env S cx st c key exec u = (case exec u of
     (Inr v, u') \<Rightarrow> (Inr (), put_claim env S cx (claim_row cx st c key [(''status'', JStr ''done''), (''result'', JStr (result_text env v)), (''doneAt'', JDate (re_now env))]) u')
   | (Inl e, u') \<Rightarrow> (Inl e, put_claim env S cx (claim_row cx st c key [(''status'', JStr ''failed''), (''error'', JStr (take 2000 (err_message e))), (''failedAt'', JDate (re_now env))]) u'))"

definition perform_capability :: "('s, 'u) runner_env \<Rightarrow> exec_context \<Rightarrow> plan_step \<Rightarrow> capability
    \<Rightarrow> (exec_context \<Rightarrow> json \<Rightarrow> string option \<Rightarrow> 'u \<Rightarrow> json res \<times> 'u) \<Rightarrow> 'u \<Rightarrow> unit res \<times> 'u" where
  "perform_capability env cx st c exec = (case (effect_key env cx st c, external c, re_store env) of
     (Some key, True, Some S) \<Rightarrow> then_do (take_claim env S cx st c key) (\<lambda>a. case a of
         AlreadyDone \<Rightarrow> give ()
       | Claimed \<Rightarrow> run_claimed env S cx st c key (exec cx (pt_inputs st) (Some key)))
   | (key, _, _) \<Rightarrow> then_do (exec cx (pt_inputs st) key) (\<lambda>_. give ()))"

definition run_capability :: "('s, 'u) runner_env \<Rightarrow> exec_context \<Rightarrow> plan_step \<Rightarrow> 'u \<Rightarrow> unit res \<times> 'u" where
  "run_capability env cx st u = (case given_text (pt_capability st) of
     None \<Rightarrow> (Inl (JsError (''Step '' @ pt_id st @ '' has no capabilityId'')), u)
   | Some i \<Rightarrow> (case reg_get i (re_registry env) of
       None \<Rightarrow> (Inl (JsError (''Capability '' @ i @ '' not found'')), u)
     | Some c \<Rightarrow> (case Option.bind (re_store env) (\<lambda>S. authorize env S cx c u) of Some e \<Rightarrow> (Inl e, u)
       | None \<Rightarrow> (case approval_refusal env cx c u of Some e \<Rightarrow> (Inl e, u)
         | None \<Rightarrow> (case re_executor env (cc_id c) of
             None \<Rightarrow> (Inl (JsError (''No executor for capability '' @ cc_id c)), u)
           | Some exec \<Rightarrow> perform_capability env cx st c exec u)))))"

end
