(* ===== verification/Orchestrator.thy ===== *)
theory Orchestrator
  imports Capability
begin

text \<open>
  The cycle of a business goal (engine/orchestrator/orchestrator.ts): assemble the context, plan, check the
  plan's capabilities, execute, verify, observe, and replan at most three times.  The dependencies of the
  constructor are a record of functions of the state \<open>'u\<close>; those that the server wires are the
  definitions of Plans and Capability.
\<close>

section \<open>Dependencies\<close>

record 'u goal_deps =
  gd_assemble :: "exec_context \<Rightarrow> string \<Rightarrow> 'u \<Rightarrow> json res \<times> 'u"
  gd_capabilities :: "'u \<Rightarrow> (string \<times> cap_kind) list res \<times> 'u"
  gd_plan :: "business_goal \<Rightarrow> json \<Rightarrow> (string \<times> cap_kind) list \<Rightarrow> 'u \<Rightarrow> plan res \<times> 'u"
  gd_guard :: "(string \<Rightarrow> nat \<Rightarrow> 'u \<Rightarrow> unit res \<times> 'u) option"
  gd_execute :: "exec_context \<Rightarrow> plan \<Rightarrow> 'u \<Rightarrow> (run_status \<times> step_result list) res \<times> 'u"
  gd_verify :: "business_goal \<Rightarrow> goal_outcome \<Rightarrow> 'u \<Rightarrow> verification res \<times> 'u"
  gd_observe :: "(string \<Rightarrow> business_goal \<Rightarrow> plan \<Rightarrow> goal_outcome \<Rightarrow> 'u \<Rightarrow> unit res \<times> 'u) option"
  gd_replan :: "business_goal \<Rightarrow> plan \<Rightarrow> string \<Rightarrow> string \<Rightarrow> 'u \<Rightarrow> plan option res \<times> 'u"
  gd_now :: int

datatype goal_status = GoalAchieved | GoalPartial | GoalBlocked | GoalFailed

record goal_result =
  go_status :: goal_status
  go_summary :: string

definition goal_ends :: "goal_status \<Rightarrow> string \<Rightarrow> goal_result" where
  "goal_ends st x = \<lparr> go_status = st, go_summary = x \<rparr>"

section \<open>One execution and its outcome\<close>

definition step_evidence :: "int \<Rightarrow> step_result list \<Rightarrow> evidence list" where
  "step_evidence now rs = map (\<lambda>r. \<lparr> ev_id = ''step:'' @ sr_id r, ev_source = ''step:'' @ sr_id r, ev_time = now \<rparr>)
     (filter (\<lambda>r. sr_mark r = Succeeded) rs)"

definition all_skipped :: "step_result list \<Rightarrow> bool" where
  "all_skipped rs \<longleftrightarrow> rs \<noteq> [] \<and> (\<forall>r\<in>set rs. sr_mark r = Skipped)"

definition outcome_of :: "int \<Rightarrow> string \<Rightarrow> bool \<Rightarrow> run_status \<Rightarrow> step_result list \<Rightarrow> goal_outcome" where
  "outcome_of now addendum blocked st rs = \<lparr>
     oc_status = (if st = RunBlocked \<or> blocked then Blocked else if st = RunSucceeded then Achieved else FailedOutcome),
     oc_summary = ''Ejecutados '' @ nat_text (length rs) @ '' pasos'' @ addendum, oc_evidence = step_evidence now rs, oc_metrics = [],
     oc_verified = False, oc_verified_at = None, oc_note = None \<rparr>"

definition confirmed :: "int \<Rightarrow> verification \<Rightarrow> goal_outcome \<Rightarrow> goal_outcome" where
  "confirmed now v oc = (if ve_verified v then oc\<lparr> oc_verified := True, oc_verified_at := Some now, oc_note := Some (ve_reason v) \<rparr> else oc)"

definition missing_caps :: "(string \<times> cap_kind) list \<Rightarrow> plan \<Rightarrow> string list" where
  "missing_caps caps p = filter (\<lambda>i. i \<notin> fst ` set caps) (List.map_filter (\<lambda>s. given_text (pt_capability s)) (pl_steps p))"

definition observing :: "'u goal_deps \<Rightarrow> exec_context \<Rightarrow> business_goal \<Rightarrow> plan \<Rightarrow> goal_outcome \<Rightarrow> 'u \<Rightarrow> unit res \<times> 'u" where
  "observing deps cx g p oc = (case gd_observe deps of None \<Rightarrow> give ()
     | Some f \<Rightarrow> catching (f (xc_tenant cx) g p oc) (\<lambda>_. give ()))"

definition first_failure :: "step_result list \<Rightarrow> step_result option" where
  "first_failure rs = find (\<lambda>r. sr_mark r = Failed) rs"

definition error_of :: "step_result \<Rightarrow> string" where
  "error_of r = (case sr_error r of None \<Rightarrow> ''step failed'' | Some e \<Rightarrow> e)"

section \<open>The loop of replans\<close>

text \<open>\<open>left\<close> replans remain; \<open>attempt\<close> counts those made.\<close>

fun replan_loop :: "'u goal_deps \<Rightarrow> exec_context \<Rightarrow> business_goal \<Rightarrow> (string \<times> cap_kind) list \<Rightarrow> nat \<Rightarrow> nat \<Rightarrow> plan \<Rightarrow> string \<Rightarrow> string
    \<Rightarrow> 'u \<Rightarrow> goal_result res \<times> 'u" where
  "replan_loop deps cx g caps 0 attempt p failed err = give (goal_ends GoalBlocked (''Replanning agotado (3/3): '' @ err))"
| "replan_loop deps cx g caps (Suc left) attempt p failed err =
     then_do (gd_replan deps g p failed err) (\<lambda>np. case np of
       None \<Rightarrow> give (goal_ends GoalBlocked (''Replanning agotado ('' @ nat_text (attempt + 1) @ ''/3): '' @ err))
     | Some q \<Rightarrow> if missing_caps caps q \<noteq> []
         then give (goal_ends GoalBlocked (''Plan revisado invalido: capabilities no disponibles: '' @ join_with '', '' (missing_caps caps q)))
         else then_do (gd_execute deps cx q) (\<lambda>(st, rs).
           (let oc = outcome_of (gd_now deps) ('' (replan '' @ nat_text (attempt + 1) @ '')'') False st rs in
           then_do (gd_verify deps g oc) (\<lambda>v.
             if ve_verified v
             then then_do (observing deps cx g q (confirmed (gd_now deps) v oc)) (\<lambda>_.
               give (goal_ends GoalAchieved (ve_reason v @ '' (replan '' @ nat_text (attempt + 1) @ '')'')))
             else (case first_failure rs of
               None \<Rightarrow> give (goal_ends GoalPartial (''Replan '' @ nat_text (attempt + 1) @ '' ejecutado pero no verificado: '' @ ve_reason v))
             | Some r \<Rightarrow> replan_loop deps cx g caps left (attempt + 1) q (sr_id r) (error_of r))))))"

definition goal_query :: "business_goal \<Rightarrow> string" where
  "goal_query g = (if bg_description g = [] then bg_title g else bg_description g)"

definition after_execution :: "'u goal_deps \<Rightarrow> exec_context \<Rightarrow> business_goal \<Rightarrow> (string \<times> cap_kind) list \<Rightarrow> plan \<Rightarrow> run_status \<Rightarrow> step_result list
    \<Rightarrow> 'u \<Rightarrow> goal_result res \<times> 'u" where
  "after_execution deps cx g caps p st rs =
     (let oc = outcome_of (gd_now deps) [] (all_skipped rs) st rs in
      then_do (gd_verify deps g oc) (\<lambda>v.
      then_do (observing deps cx g p (confirmed (gd_now deps) v oc)) (\<lambda>_.
        if ve_verified v then give (goal_ends GoalAchieved (ve_reason v))
        else (case first_failure rs of
          None \<Rightarrow> give (goal_ends GoalBlocked (ve_reason v))
        | Some r \<Rightarrow> replan_loop deps cx g caps 3 0 p (sr_id r) (error_of r)))))"

definition run_goal :: "'u goal_deps option \<Rightarrow> exec_context \<Rightarrow> business_goal \<Rightarrow> 'u \<Rightarrow> goal_result res \<times> 'u" where
  "run_goal deps cx g = (case deps of
     None \<Rightarrow> give (goal_ends GoalBlocked (''Orquestador sin deps (goal '' @ bg_id g @ '')''))
   | Some d \<Rightarrow>
       then_do (gd_assemble d cx (goal_query g)) (\<lambda>context.
       then_do (gd_capabilities d) (\<lambda>caps.
       then_do (gd_plan d g context caps) (\<lambda>p.
       then_do (case gd_guard d of None \<Rightarrow> give () | Some f \<Rightarrow> f (xc_tenant cx) 0) (\<lambda>_.
         if missing_caps caps p \<noteq> []
         then give (goal_ends GoalBlocked (''Plan invalido: capabilities no disponibles: '' @ join_with '', '' (missing_caps caps p)))
         else then_do (gd_execute d cx p) (\<lambda>(st, rs). after_execution d cx g caps p st rs))))))"

section \<open>The server's wiring\<close>

text \<open>What service.ts passes: the executor over the capability runner, the two verifiers, no guard.\<close>

record 'u model_answers =
  ma_configured :: bool
  ma_plan :: "business_goal \<Rightarrow> json \<Rightarrow> 'u \<Rightarrow> string res \<times> 'u"
  ma_replan :: "business_goal \<Rightarrow> plan \<Rightarrow> string \<Rightarrow> string \<Rightarrow> 'u \<Rightarrow> string res \<times> 'u"
  ma_verify :: "business_goal \<Rightarrow> goal_outcome \<Rightarrow> 'u \<Rightarrow> string res \<times> 'u"
  ma_id :: "'u \<Rightarrow> string"
  ma_parse :: "string \<Rightarrow> json option"
  ma_number :: "json option \<Rightarrow> rat option"
  ma_show_int :: "int \<Rightarrow> string"

definition wired_verify :: "int \<Rightarrow> 'u model_answers \<Rightarrow> business_goal \<Rightarrow> goal_outcome \<Rightarrow> 'u \<Rightarrow> verification res \<times> 'u" where
  "wired_verify now ma g oc = (let base = verify_outcome (ma_number ma) now g oc in
     if ve_verified base \<or> oc_evidence oc = [] \<or> \<not> ma_configured ma then give base
     else (\<lambda>u. case ma_verify ma g oc u of (r, u') \<Rightarrow>
       (Inr (llm_verify (ma_parse ma) now True (case r of Inl _ \<Rightarrow> None | Inr x \<Rightarrow> Some x) oc base), u')))"

definition wired_plan :: "int \<Rightarrow> 'u model_answers \<Rightarrow> business_goal \<Rightarrow> json \<Rightarrow> (string \<times> cap_kind) list \<Rightarrow> 'u \<Rightarrow> plan res \<times> 'u" where
  "wired_plan now ma g context caps u = (if \<not> ma_configured ma then (Inr (stub_plan (ma_show_int ma) now g), u)
     else (case ma_plan ma g context u of (r, u') \<Rightarrow> (llm_plan (ma_parse ma) (ma_show_int ma) now True (ma_id ma u') r g, u')))"

definition wired_replan :: "int \<Rightarrow> 'u model_answers \<Rightarrow> business_goal \<Rightarrow> plan \<Rightarrow> string \<Rightarrow> string \<Rightarrow> 'u \<Rightarrow> plan option res \<times> 'u" where
  "wired_replan now ma g p failed err u = (if \<not> ma_configured ma then (Inr None, u)
     else (case ma_replan ma g p failed err u of (r, u') \<Rightarrow> (llm_replan (ma_parse ma) now True (ma_id ma u') r g p, u')))"

definition wired_deps :: "('s, 'u) runner_env \<Rightarrow> 'u model_answers \<Rightarrow> (exec_context \<Rightarrow> string \<Rightarrow> 'u \<Rightarrow> json res \<times> 'u)
    \<Rightarrow> (string \<Rightarrow> business_goal \<Rightarrow> plan \<Rightarrow> goal_outcome \<Rightarrow> 'u \<Rightarrow> unit res \<times> 'u) \<Rightarrow> 'u goal_deps" where
  "wired_deps env ma assemble observe = \<lparr>
     gd_assemble = assemble,
     gd_capabilities = give (map (\<lambda>c. (cc_id c, cc_kind c)) (reg_list None (re_registry env))),
     gd_plan = wired_plan (re_now env) ma,
     gd_guard = None,
     gd_execute = (\<lambda>cx p u. case execute_plan (Some (run_capability env cx)) p u of (x, u') \<Rightarrow> (Inr x, u')),
     gd_verify = wired_verify (re_now env) ma,
     gd_observe = Some observe,
     gd_replan = wired_replan (re_now env) ma,
     gd_now = re_now env \<rparr>"

end
