(* ===== verification/PlanLaws.thy ===== *)
theory PlanLaws
  imports Orchestrator SopLaws
begin

text \<open>
  What the executor of plans guarantees, whatever the runner does: the order of the steps, what is
  compensated, which results it returns; and, for a runner that keeps an invariant, that a whole plan
  keeps it (the locale \<open>steady_runner\<close>, interpreted on the capability runner in GoalProps).
\<close>

section \<open>The executor keeps what its runner keeps\<close>

locale steady_runner =
  fixes run :: "'u step_runner" and J :: "'u \<Rightarrow> bool"
  assumes step_keeps: "J u \<Longrightarrow> J (snd (run st u))"
begin

lemma step_state: "\<lbrakk> J u; run st u = (r, u') \<rbrakk> \<Longrightarrow> J u'"
  using step_keeps [of u st] by simp

lemma try_keeps: "J u \<Longrightarrow> J (snd (try_step run st n err u))"
  by (induction n arbitrary: err u) (auto split: prod.split sum.split dest: step_state)

lemma compensate_keeps: "J u \<Longrightarrow> J (snd (compensate run steps is u))"
  by (induction "is" arbitrary: u) (auto split: prod.split option.split dest: step_state, (metis snd_conv step_state)+)

lemma exec_keeps: "J u \<Longrightarrow> J (snd (exec_steps run steps sts completed results u))"
proof (induction sts arbitrary: completed results u)
  case (Cons st sts)
  obtain r u1 where t: "try_step run st (attempts_of st) None u = (r, u1)" by force
  have "J u1" using try_keeps [OF Cons.prems, of st "attempts_of st" None] t by simp
  then show ?case using Cons compensate_keeps [of u1 steps "rev completed"] t by (auto split: prod.split sum.split)
qed simp

lemma execute_keeps: "J u \<Longrightarrow> J (snd (execute_plan (Some run) p u))"
  by (simp add: execute_plan_def exec_keeps)

end

section \<open>Order, results and compensation\<close>

text \<open>The steps that succeeded, in order, and the results of a prefix of the steps that ran in order: a step
  that was not skipped has each of its dependencies among the steps that succeeded before it.\<close>

definition succeeded :: "step_result list \<Rightarrow> string list" where
  "succeeded rs = map sr_id (filter (\<lambda>r. sr_mark r = Succeeded) rs)"

definition in_order :: "plan_step list \<Rightarrow> step_result list \<Rightarrow> bool" where
  "in_order steps rs \<longleftrightarrow> length rs \<le> length steps \<and> map sr_id rs = map pt_id (take (length rs) steps)
     \<and> (\<forall>i<length rs. sr_mark (rs ! i) \<noteq> Skipped \<longleftrightarrow> (\<forall>d\<in>set (pt_deps (steps ! i)). d \<in> JStr ` set (succeeded (take i rs))))"

lemma succeeded_snoc: "succeeded (rs @ [r]) = succeeded rs @ (if sr_mark r = Succeeded then [sr_id r] else [])"
  by (simp add: succeeded_def)

lemma in_order_snoc:
  assumes "in_order steps rs" "drop (length rs) steps = st # sts" "sr_id r = pt_id st"
    and "sr_mark r \<noteq> Skipped \<longleftrightarrow> deps_ready (succeeded rs) st"
  shows "in_order steps (rs @ [r]) \<and> drop (length (rs @ [r])) steps = sts"
proof -
  have lt: "length rs < length steps" using assms(2) by (metis drop_all list.distinct(1) not_le)
  then have nth: "steps ! length rs = st" using assms(2) by (metis hd_drop_conv_nth list.sel(1))
  have tk: "take (Suc (length rs)) steps = take (length rs) steps @ [st]" using lt nth by (simp add: take_Suc_conv_app_nth)
  have "drop (Suc (length rs)) steps = sts" using assms(2) by (metis drop_Suc list.sel(3) tl_drop)
  then show ?thesis using assms lt nth tk by (auto simp: in_order_def deps_ready_def nth_append less_Suc_eq)
qed

definition has_compensation :: "plan_step list \<Rightarrow> string \<Rightarrow> bool" where
  "has_compensation steps i \<longleftrightarrow> (case find (\<lambda>s. pt_id s = i) steps of None \<Rightarrow> False | Some prev \<Rightarrow> pt_compensation prev \<noteq> None)"

lemma compensate_ids: "map sr_id (fst (compensate run steps is u)) = map (\<lambda>i. ''compensate-'' @ i) (filter (has_compensation steps) is)
    \<and> (\<forall>r\<in>set (fst (compensate run steps is u)). sr_mark r \<noteq> Skipped)"
proof (induction "is" arbitrary: u)
  case (Cons i "is")
  show ?case
  proof (cases "has_compensation steps i")
    case True
    then obtain prev c where p: "find (\<lambda>s. pt_id s = i) steps = Some prev" "pt_compensation prev = Some c"
      by (auto simp: has_compensation_def split: option.splits)
    then have i: "pt_id prev = i" by (auto simp: find_Some_iff)
    obtain r u1 where r: "run (compensating prev c) u = (r, u1)" by force
    obtain rs u2 where rs: "compensate run steps is u1 = (rs, u2)" by force
    show ?thesis using Cons [of u1] True p i r rs by (auto split: sum.split)
  next
    case False
    then have "compensate run steps (i # is) u = compensate run steps is u"
      by (auto simp: has_compensation_def split: option.splits)
    then show ?thesis using Cons [of u] False by simp
  qed
qed simp

text \<open>What an execution returns: the results \<open>main\<close> of a prefix of the steps and the results \<open>comps\<close> of
  compensations.\<close>

definition well_run :: "plan_step list \<Rightarrow> run_status \<Rightarrow> step_result list \<Rightarrow> step_result list \<Rightarrow> bool" where
  "well_run steps st main comps \<longleftrightarrow> in_order steps main
     \<and> (if st = RunFailed
        then main \<noteq> [] \<and> sr_mark (last main) = Failed \<and> (\<forall>r\<in>set (butlast main). sr_mark r \<noteq> Failed)
          \<and> map sr_id comps = map (\<lambda>i. ''compensate-'' @ i) (filter (has_compensation steps) (rev (succeeded main)))
        else length main = length steps \<and> comps = [] \<and> (\<forall>r\<in>set main. sr_mark r \<noteq> Failed)
          \<and> (st = RunBlocked \<longleftrightarrow> main \<noteq> [] \<and> (\<forall>r\<in>set main. sr_mark r = Skipped)))"

lemma exec_well_run:
  assumes "in_order steps results" "drop (length results) steps = sts" "completed = succeeded results"
    and "\<forall>r\<in>set results. sr_mark r \<noteq> Failed" "exec_steps run steps sts completed results u = ((st, rs), u')"
  shows "\<exists>main comps. rs = main @ comps \<and> well_run steps st main comps"
  using assms
proof (induction sts arbitrary: completed results u)
  case Nil
  then have "length results = length steps" by (simp add: in_order_def)
  then have "rs = results @ [] \<and> well_run steps st results []"
    using Nil by (auto simp: well_run_def overall_def split: if_splits)
  then show ?case by blast
next
  case (Cons st1 sts)
  let ?skip = "\<lparr> sr_id = pt_id st1, sr_mark = Skipped, sr_error = Some ''deps not ready'' \<rparr>"
  let ?ok = "\<lparr> sr_id = pt_id st1, sr_mark = Succeeded, sr_error = None \<rparr>"
  show ?case
  proof (cases "deps_ready completed st1")
    case False
    have o1: "in_order steps (results @ [?skip]) \<and> drop (length (results @ [?skip])) steps = sts"
      using in_order_snoc [OF Cons.prems(1,2), of ?skip] False Cons.prems(3) by simp
    show ?thesis
      by (rule Cons.IH [of "results @ [?skip]" completed u]) (use o1 Cons.prems False in \<open>auto simp: succeeded_snoc\<close>)
  next
    case True
    obtain r u1 where t: "try_step run st1 (attempts_of st1) None u = (r, u1)" by force
    show ?thesis
    proof (cases r)
      case (Inr y)
      have o1: "in_order steps (results @ [?ok]) \<and> drop (length (results @ [?ok])) steps = sts"
        using in_order_snoc [OF Cons.prems(1,2), of ?ok] True Cons.prems(3) by simp
      show ?thesis
        by (rule Cons.IH [of "results @ [?ok]" "completed @ [pt_id st1]" u1]) (use o1 Cons.prems True t Inr in \<open>auto simp: succeeded_snoc\<close>)
    next
      case (Inl err)
      let ?bad = "\<lparr> sr_id = pt_id st1, sr_mark = Failed, sr_error = err \<rparr>"
      obtain cs u2 where c: "compensate run steps (rev completed) u1 = (cs, u2)" by force
      have o1: "in_order steps (results @ [?bad])"
        using in_order_snoc [OF Cons.prems(1,2), of ?bad] True Cons.prems(3) by simp
      have "st = RunFailed" "rs = (results @ [?bad]) @ cs" using Cons.prems(5) True t Inl c by simp_all
      moreover have "map sr_id cs = map (\<lambda>i. ''compensate-'' @ i) (filter (has_compensation steps) (rev (succeeded (results @ [?bad]))))"
        using compensate_ids [of run steps "rev completed" u1] c Cons.prems(3) by (simp add: succeeded_snoc)
      ultimately show ?thesis using o1 Cons.prems(4)
        by (intro exI [of _ "results @ [?bad]"] exI [of _ cs]) (simp add: well_run_def)
    qed
  qed
qed

section \<open>A plan in order whose steps can succeed\<close>

definition dependency_order :: "plan_step list \<Rightarrow> bool" where
  "dependency_order steps \<longleftrightarrow> (\<forall>i<length steps. \<forall>d\<in>set (pt_deps (steps ! i)). d \<in> JStr ` set (map pt_id (take i steps)))"

lemma try_ok:
  assumes "\<And>u. fst (run st u) = Inr ()" "0 < n"
  shows "fst (try_step run st n err u) = Inr ()"
proof -
  obtain u' where "run st u = (Inr (), u')" using assms(1) [of u] by (metis prod.collapse)
  then show ?thesis using assms(2) by (cases n) auto
qed

lemma exec_ok:
  assumes "\<And>st u. st \<in> set steps \<Longrightarrow> fst (run st u) = Inr ()" "\<forall>st\<in>set steps. 0 < attempts_of st" "dependency_order steps"
    and "steps = pre @ sts" "completed = map pt_id pre" "\<forall>r\<in>set results. sr_mark r = Succeeded" "map sr_id results = completed"
  shows "\<exists>rs u'. exec_steps run steps sts completed results u = ((RunSucceeded, rs), u')
     \<and> map sr_id rs = map pt_id steps \<and> (\<forall>r\<in>set rs. sr_mark r = Succeeded)"
  using assms(4-7)
proof (induction sts arbitrary: pre completed results u)
  case Nil
  then show ?case by (auto simp: overall_def)
next
  case (Cons st sts)
  have m: "st \<in> set steps" using Cons.prems(1) by simp
  have "\<forall>d\<in>set (pt_deps (steps ! length pre)). d \<in> JStr ` set (map pt_id (take (length pre) steps))"
    using assms(3) Cons.prems(1) unfolding dependency_order_def by (metis length_append_singleton less_add_same_cancel1 list.size(4) length_append zero_less_Suc add_Suc_right)
  then have d: "deps_ready completed st" using Cons.prems(1,2) by (simp add: deps_ready_def)
  obtain r u1 where t: "try_step run st (attempts_of st) None u = (r, u1)" by force
  have "r = Inr ()" using try_ok [of run st "attempts_of st" None u] assms(1,2) m t by simp
  then show ?case
    using Cons.IH [of "pre @ [st]" "completed @ [pt_id st]" "results @ [\<lparr> sr_id = pt_id st, sr_mark = Succeeded, sr_error = None \<rparr>]" u1]
      Cons.prems d t by simp
qed

end
