(* ===== verification/GoalProps.thy ===== *)
theory GoalProps
  imports PlanLaws TaskProps
begin

text \<open>
  What the cycle of a goal guarantees: its plans run in order with compensation in reverse, at most four of
  them, never with a capability that is not registered, and a goal is achieved only when the verifier says
  so; a claimed external write that is done is not done again.  And where it falls short: the verifier
  accepts any execution of a goal without criteria, no registered capability takes a claim, and an approved
  proposal never matches the action type of its capability.
\<close>

section \<open>Claims\<close>

definition claim_done :: "('s, 'u) runner_env \<Rightarrow> string \<Rightarrow> string \<Rightarrow> 'u \<Rightarrow> bool" where
  "claim_done env t key u = (case re_store env of None \<Rightarrow> False
     | Some S \<Rightarrow> (case s_get S t ''idempotency-claims'' key (re_rows env u) of None \<Rightarrow> False | Some j \<Rightarrow> jstatus j = Some ''done''))"

text \<open>Tools that leave the claims alone, over the plain store.\<close>

definition quiet_tools :: "(table, 'u) runner_env \<Rightarrow> bool" where
  "quiet_tools env \<longleftrightarrow> re_store env \<in> {None, Some plain_store} \<and> (\<forall>s u. re_rows env (re_set_rows env s u) = s)
     \<and> (\<forall>i exec cx inp k u t key. re_executor env i = Some exec \<longrightarrow>
          st_get t ''idempotency-claims'' key (re_rows env (snd (exec cx inp k u))) = st_get t ''idempotency-claims'' key (re_rows env u))"

lemma put_claim_get:
  assumes "quiet_tools env"
  shows "st_get t ''idempotency-claims'' key (re_rows env (put_claim env plain_store cx row u))
    = (if t = xc_tenant cx \<and> key = jid row then Some row else st_get t ''idempotency-claims'' key (re_rows env u))"
  using assms by (simp add: put_claim_def quiet_tools_def st_get_put)

lemma claim_row_sel: "jid (claim_row cx st c key rest) = key"
  by (simp add: claim_row_def jid_def jtext_def)

lemma take_claim_frame:
  assumes q: "quiet_tools env" and t1: "take_claim env plain_store cx st c key u = (r, u')" and o1: "(t, k) \<noteq> (xc_tenant cx, key)"
  shows "st_get t ''idempotency-claims'' k (re_rows env u') = st_get t ''idempotency-claims'' k (re_rows env u)"
proof (cases "st_get (xc_tenant cx) ''idempotency-claims'' key (re_rows env u)")
  case None
  define row where "row = claim_row cx st c key [(''status'', JStr ''claimed''), (''claimedAt'', JDate (re_now env))]"
  obtain x s where i: "st_insert (re_clock env) (xc_tenant cx) ''idempotency-claims'' row (re_rows env u) = (x, s)" by force
  have "re_rows env u' = s" using q t1 None i by (auto simp: take_claim_def Let_def row_def quiet_tools_def split: option.splits)
  moreover have "jid row = key" by (simp add: row_def claim_row_sel)
  ultimately show ?thesis
    using st_get_insert [of t "''idempotency-claims''" k "re_clock env" "xc_tenant cx" "''idempotency-claims''" row "re_rows env u"] i o1 by auto
next
  case (Some old)
  have put: "st_get t ''idempotency-claims'' k (re_rows env (put_claim env plain_store cx (claim_row cx st c key rest) u))
      = st_get t ''idempotency-claims'' k (re_rows env u)" for rest
    using o1 by (auto simp: put_claim_get [OF q] claim_row_sel)
  show ?thesis using t1 Some by (auto simp: take_claim_def Let_def put split: if_splits)
qed

lemma take_claim_own:
  assumes "quiet_tools env" "take_claim env plain_store cx st c key u = (r, u')"
    and "st_get (xc_tenant cx) ''idempotency-claims'' key (re_rows env u) = Some j" "jstatus j = Some ''done''"
  shows "r = Inr AlreadyDone \<and> u' = u"
  using assms by (auto simp: take_claim_def Let_def)

lemma run_claimed_frame:
  assumes "quiet_tools env" "re_executor env i = Some exec" "(t, k) \<noteq> (xc_tenant cx, key)"
  shows "st_get t ''idempotency-claims'' k (re_rows env (snd (run_claimed env plain_store cx st c key (exec cx inp kk) u)))
    = st_get t ''idempotency-claims'' k (re_rows env u)"
proof -
  have "st_get t ''idempotency-claims'' k (re_rows env (snd (exec cx inp kk u))) = st_get t ''idempotency-claims'' k (re_rows env u)"
    using assms(1,2) by (simp add: quiet_tools_def)
  then show ?thesis using assms(1,3) by (auto simp: run_claimed_def put_claim_get claim_row_sel split: prod.split sum.split)
qed

lemma perform_frame:
  assumes q: "quiet_tools env" and S: "re_store env = Some plain_store" and e: "re_executor env i = Some exec"
    and j: "st_get t ''idempotency-claims'' k (re_rows env u) = Some j" "jstatus j = Some ''done''"
  shows "st_get t ''idempotency-claims'' k (re_rows env (snd (perform_capability env cx st c exec u))) = Some j"
proof -
  have ex: "st_get t ''idempotency-claims'' k (re_rows env (snd (then_do (exec cx (pt_inputs st) kk) (\<lambda>_. give ()) u))) = Some j" for kk
  proof -
    obtain r u1 where r: "exec cx (pt_inputs st) kk u = (r, u1)" by force
    have "st_get t ''idempotency-claims'' k (re_rows env u1) = Some j"
      using q e j(1) r unfolding quiet_tools_def by (metis snd_conv)
    then show ?thesis using r by (simp add: then_do_def give_def split: sum.split)
  qed
  show ?thesis
  proof (cases "effect_key env cx st c")
    case None
    then show ?thesis using ex by (simp add: perform_capability_def)
  next
    case (Some key)
    obtain r u1 where t1: "take_claim env plain_store cx st c key u = (r, u1)" by force
    show ?thesis
    proof (cases "(t, k) = (xc_tenant cx, key)")
      case True
      then show ?thesis using take_claim_own [OF q t1] j t1 Some S ex by (simp add: perform_capability_def then_do_def [of "take_claim _ _ _ _ _ _"] give_def split: bool.split)
    next
      case False
      then show ?thesis using take_claim_frame [OF q t1 False] run_claimed_frame [OF q e False] j t1 Some S ex
        by (auto simp: perform_capability_def then_do_def [of "take_claim _ _ _ _ _ _"] give_def split: sum.split claim_answer.split bool.split)
    qed
  qed
qed

lemma capability_keeps_done:
  assumes "quiet_tools env" "claim_done env t k u"
  shows "claim_done env t k (snd (run_capability env cx st u))"
proof -
  have S: "re_store env = Some plain_store" using assms by (auto simp: quiet_tools_def claim_done_def split: option.splits)
  obtain j where j: "st_get t ''idempotency-claims'' k (re_rows env u) = Some j" "jstatus j = Some ''done''"
    using assms(2) S by (auto simp: claim_done_def split: option.splits)
  have "st_get t ''idempotency-claims'' k (re_rows env (snd (run_capability env cx st u))) = Some j"
    using j(1) perform_frame [OF assms(1) S _ j] by (simp add: run_capability_def split: option.split)
  then show ?thesis using S j(2) by (simp add: claim_done_def)
qed

interpretation cr: steady_runner "run_capability env cx" "\<lambda>u. quiet_tools env \<longrightarrow> claim_done env t key u" for env cx t key
  by unfold_locales (simp add: capability_keeps_done)

section \<open>Sample environments\<close>

text \<open>The rows of the store and a counter of the calls that reached the outside.\<close>

definition sample_capability :: capability where
  "sample_capability = declared CapTool ''tool'' ''post_note'' ''Create'' ''DATA'' RiskLow (eff EffExternalWrite ''notes'' False) False \<lparr> cc_idempotency := AtMostOnce \<rparr>"

definition sample_runner :: "(table, table \<times> nat) runner_env" where
  "sample_runner = \<lparr> re_registry = [(''post_note'', sample_capability)],
     re_executor = (\<lambda>i. Some (\<lambda>cx inp k u. (Inr (JStr ''sent''), (fst u, snd u + 1)))), re_governance = None, re_store = Some plain_store,
     re_rows = fst, re_set_rows = (\<lambda>s u. (s, snd u)), re_clock = 1000, re_now = 1000, re_stringify = (\<lambda>j. ''j''), re_sha = (\<lambda>x. x) \<rparr>"

definition sample_context :: exec_context where
  "sample_context = \<lparr> xc_tenant = ''t1'', xc_owner = ''o1'', xc_role = None, xc_runtime = None, xc_task = None, xc_actor = ''a1'', xc_session = None \<rparr>"

definition note_step :: "string \<Rightarrow> json list \<Rightarrow> plan_step" where
  "note_step i ds = \<lparr> pt_id = i, pt_title = i, pt_capability = Some ''post_note'', pt_inputs = JObj [], pt_deps = ds, pt_expected = None,
     pt_status = StPending, pt_retry = None, pt_compensation = None \<rparr>"

definition sample_models :: "(table \<times> nat) model_answers" where
  "sample_models = \<lparr> ma_configured = False, ma_plan = (\<lambda>g c. give []), ma_replan = (\<lambda>g p i e. give []), ma_verify = (\<lambda>g oc. give []),
     ma_id = (\<lambda>u. ''1''), ma_parse = (\<lambda>x. None), ma_number = (\<lambda>v. None), ma_show_int = (\<lambda>i. ''0'') \<rparr>"

definition sample_plan :: "plan_step list \<Rightarrow> plan" where
  "sample_plan sts = \<lparr> pl_id = ''p1'', pl_tenant = ''t1'', pl_owner = ''o1'', pl_goal = ''g1'', pl_version = 1, pl_status = PDraft, pl_steps = sts,
     pl_reason = None, pl_previous = None, pl_created = 0, pl_updated = 0 \<rparr>"

definition sample_goal :: business_goal where
  "sample_goal = \<lparr> bg_id = ''g1'', bg_tenant = ''t1'', bg_owner = ''o1'', bg_title = ''title'', bg_description = ''text'', bg_criteria = [] \<rparr>"

text \<open>Two steps in the order of their dependency, and the same two in the other order.\<close>

definition ordered_steps :: "plan_step list" where
  "ordered_steps = [note_step ''a'' [], note_step ''b'' [JStr ''a'']]"

definition swapped_steps :: "plan_step list" where
  "swapped_steps = [note_step ''b'' [JStr ''a''], note_step ''a'' []]"

definition counting_runner :: "nat step_runner" where
  "counting_runner st u = (Inr (), u + 1)"

definition sample_deps :: "nat goal_deps" where
  "sample_deps = \<lparr> gd_assemble = (\<lambda>cx q. give JNull), gd_capabilities = give [(''post_note'', CapTool)], gd_plan = (\<lambda>g c caps. give (sample_plan ordered_steps)),
     gd_guard = None, gd_execute = (\<lambda>cx p u. (Inr (RunSucceeded, []), u + 1)),
     gd_verify = (\<lambda>g oc. give (verify_outcome (\<lambda>_. None) 0 g oc)), gd_observe = None, gd_replan = (\<lambda>g p i e. give None), gd_now = 0 \<rparr>"

section \<open>Properties of the execution\<close>

text \<open>C22: a plan runs in the order of its steps and undoes in the reverse order.  Whatever the runner does,
  the results are those of a prefix of the steps, one each and in order, where a step was tried if and only
  if every dependency had succeeded before it; without a failure the prefix is the whole plan, and the
  status is blocked exactly when every step was skipped; after the first failure nothing more is tried, and
  what follows are the compensations of the steps that had succeeded, the last one first.\<close>
theorem execution_in_order:
  assumes "execute_plan (Some run) p u = ((st, rs), u')"
  shows "\<exists>main comps. rs = main @ comps \<and> well_run (pl_steps p) st main comps"
  using exec_well_run [of "pl_steps p" "[]" "pl_steps p" "[]" run u st rs u'] assms
  by (simp add: execute_plan_def in_order_def succeeded_def)

text \<open>A step whose dependency comes later is skipped, nothing is done again, and the run still succeeds.\<close>

lemma swapped_run: "execute_plan (Some counting_runner) (sample_plan swapped_steps) 0
    = ((RunSucceeded, [\<lparr> sr_id = ''b'', sr_mark = Skipped, sr_error = Some ''deps not ready'' \<rparr>, \<lparr> sr_id = ''a'', sr_mark = Succeeded, sr_error = None \<rparr>]), 1)"
  by (simp add: execute_plan_def sample_plan_def swapped_steps_def note_step_def deps_ready_def attempts_of_def counting_runner_def overall_def)

theorem execution_in_order_witness:
  "\<exists>rs main comps. rs = main @ comps \<and> well_run (pl_steps (sample_plan swapped_steps)) RunSucceeded main comps"
  using execution_in_order [OF swapped_run] by blast

text \<open>A plan whose steps follow their dependencies and can succeed does: when no step fails, every
  retry rule allows an attempt, and each dependency is an earlier step, every step succeeds.\<close>
theorem ordered_plan_succeeds:
  assumes "\<forall>st\<in>set (pl_steps p). \<forall>u. fst (run st u) = Inr ()" "\<forall>st\<in>set (pl_steps p). 0 < attempts_of st" "dependency_order (pl_steps p)"
  shows "\<exists>rs u'. execute_plan (Some run) p u = ((RunSucceeded, rs), u') \<and> map sr_id rs = map pt_id (pl_steps p)
     \<and> (\<forall>r\<in>set rs. sr_mark r = Succeeded)"
  using exec_ok [of "pl_steps p" run "[]" "pl_steps p" "[]" "[]" u] assms by (simp add: execute_plan_def)

theorem ordered_plan_succeeds_witness:
  "\<exists>rs u'. execute_plan (Some counting_runner) (sample_plan ordered_steps) 0 = ((RunSucceeded, rs), u')
     \<and> map sr_id rs = [''a'', ''b'']"
proof -
  have "dependency_order (pl_steps (sample_plan ordered_steps))"
    by (auto simp: dependency_order_def sample_plan_def ordered_steps_def note_step_def less_Suc_eq)
  then show ?thesis
    using ordered_plan_succeeds [of "sample_plan ordered_steps" counting_runner 0]
    by (auto simp: counting_runner_def sample_plan_def ordered_steps_def note_step_def attempts_of_def)
qed

section \<open>Properties of the cycle\<close>

text \<open>An execution counter: the dependencies leave it alone, but for the executor, which adds one.\<close>

definition counts_executions :: "'u goal_deps \<Rightarrow> ('u \<Rightarrow> nat) \<Rightarrow> bool" where
  "counts_executions d n \<longleftrightarrow> (\<forall>cx q u. n (snd (gd_assemble d cx q u)) = n u) \<and> (\<forall>u. n (snd (gd_capabilities d u)) = n u)
     \<and> (\<forall>g c caps u. n (snd (gd_plan d g c caps u)) = n u) \<and> (\<forall>f t k u. gd_guard d = Some f \<longrightarrow> n (snd (f t k u)) = n u)
     \<and> (\<forall>cx p u. n (snd (gd_execute d cx p u)) = n u + 1) \<and> (\<forall>g oc u. n (snd (gd_verify d g oc u)) = n u)
     \<and> (\<forall>f t g p oc u. gd_observe d = Some f \<longrightarrow> n (snd (f t g p oc u)) = n u) \<and> (\<forall>g p i e u. n (snd (gd_replan d g p i e u)) = n u)"

lemma then_do_le:
  assumes "n (snd (m u)) \<le> a" "\<And>x u1. \<lbrakk> m u = (Inr x, u1) \<rbrakk> \<Longrightarrow> n (snd (f x u1)) \<le> a"
  shows "n (snd (then_do m f u)) \<le> (a::nat)"
  using assms by (auto simp: then_do_def split: prod.split sum.split)

lemma observing_count: "counts_executions d n \<Longrightarrow> n (snd (observing d cx g p oc u)) = n u"
  by (auto simp: observing_def catching_def give_def counts_executions_def split: option.split prod.split sum.split) (metis snd_conv)+

lemma count_state: "\<lbrakk> m u = (r, u1); \<And>u. n (snd (m u)) = n u + k \<rbrakk> \<Longrightarrow> n u1 = n u + (k::nat)"
  by (metis snd_conv)

text \<open>\<open>m\<close> adds at most \<open>k\<close> to the counter.\<close>

definition adds :: "('u \<Rightarrow> nat) \<Rightarrow> nat \<Rightarrow> ('u \<Rightarrow> 'a res \<times> 'u) \<Rightarrow> bool" where
  "adds n k m \<longleftrightarrow> (\<forall>u. n (snd (m u)) \<le> n u + k)"

lemma adds_give: "adds n k (give x)"
  by (simp add: adds_def give_def)

lemma adds_then:
  assumes "adds n j m" "\<And>x. adds n k (f x)" "j + k \<le> i"
  shows "adds n i (then_do m f)"
  unfolding adds_def
proof
  fix u
  obtain r u1 where m: "m u = (r, u1)" by force
  have 1: "n u1 \<le> n u + j" using assms(1) m by (metis adds_def snd_conv)
  have 2: "n (snd (f x u1)) \<le> n u1 + k" for x using assms(2) by (simp add: adds_def)
  have "n (snd (f x u1)) \<le> n u + i" for x using 1 2 [of x] assms(3) by linarith
  then show "n (snd (then_do m f u)) \<le> n u + i" using m 1 assms(3) by (auto simp: then_do_def split: sum.split)
qed

lemma adds_parts:
  assumes "counts_executions d n"
  shows "adds n 0 (gd_assemble d cx q)" "adds n 0 (gd_capabilities d)" "adds n 0 (gd_plan d g c caps)"
    "gd_guard d = Some f \<Longrightarrow> adds n 0 (f t k)" "adds n 1 (gd_execute d cx p)" "adds n 0 (gd_verify d g oc)" "adds n 0 (gd_replan d g p i e)"
    "adds n 0 (observing d cx g p oc)"
  using assms observing_count [OF assms] by (simp_all add: adds_def counts_executions_def)

lemma loop_count:
  assumes c: "counts_executions d n"
  shows "adds n left (replan_loop d cx g caps left attempt p failed err)"
proof (induction left arbitrary: attempt p failed err)
  case (Suc left)
  have rest: "adds n left (if ve_verified v then then_do (observing d cx g q oc) (\<lambda>_. give x)
      else (case first_failure rs of None \<Rightarrow> give y | Some r \<Rightarrow> replan_loop d cx g caps left (attempt + 1) q (sr_id r) (error_of r)))" for v q oc x y rs
    using Suc.IH by (auto intro!: adds_give adds_then [OF adds_parts(8) [OF c]] split: option.split)
  have body: "adds n (Suc left) (case np of None \<Rightarrow> give z | Some q \<Rightarrow> if missing_caps caps q \<noteq> [] then give (w q)
      else then_do (gd_execute d cx q) (\<lambda>(st, rs). then_do (gd_verify d g (oc st rs)) (\<lambda>v. if ve_verified v then then_do (observing d cx g q (oc' v st rs)) (\<lambda>_. give (x v))
      else (case first_failure rs of None \<Rightarrow> give (y v) | Some r \<Rightarrow> replan_loop d cx g caps left (attempt + 1) q (sr_id r) (error_of r)))))" for np z w oc oc' x y
    by (auto intro!: adds_give adds_then [OF adds_parts(5) [OF c]] adds_then [OF adds_parts(6) [OF c] rest] split: option.split prod.split)
  show ?case
    unfolding replan_loop.simps Let_def by (rule adds_then [OF adds_parts(7) [OF c] body]) simp
qed (simp add: adds_give)

text \<open>A goal costs at most four executions of a plan: the first plan and three replans.  Stated for any
  counter that only the executor moves, by one each time.\<close>
theorem goal_runs_four_plans:
  assumes "counts_executions d n"
  shows "n (snd (run_goal (Some d) cx g u)) \<le> n u + 4"
proof -
  note c = adds_parts [OF assms]
  have a: "adds n 3 (after_execution d cx g caps p st rs)" for caps p st rs
    unfolding after_execution_def Let_def
    by (rule adds_then [OF c(6)], rule adds_then [OF c(8)]) (auto intro!: adds_give loop_count [OF assms] split: option.split)
  have gd: "adds n 0 (case gd_guard d of None \<Rightarrow> give () | Some f \<Rightarrow> f (xc_tenant cx) 0)"
    using c(4) by (auto intro: adds_give split: option.split)
  have e: "adds n 4 (if missing_caps caps p \<noteq> [] then give (x p) else then_do (gd_execute d cx p) (\<lambda>(st, rs). after_execution d cx g caps p st rs))" for caps p x
    by (auto intro!: adds_give adds_then [OF c(5) _] a split: prod.split)
  have "adds n 4 (run_goal (Some d) cx g)"
    unfolding run_goal_def option.case
    by (rule adds_then [where j = 0 and k = 4], rule c, rule adds_then [where j = 0 and k = 4], rule c,
        rule adds_then [where j = 0 and k = 4], rule c, rule adds_then [OF gd e]) simp_all
  then show ?thesis by (simp add: adds_def)
qed

theorem goal_runs_four_plans_witness: "snd (run_goal (Some sample_deps) sample_context sample_goal 0) \<le> 4"
proof -
  have "counts_executions sample_deps (\<lambda>u. u)" by (simp add: counts_executions_def sample_deps_def give_def)
  from goal_runs_four_plans [OF this, of sample_context sample_goal 0] show ?thesis by simp
qed


text \<open>The executor only where the plan is known.\<close>

definition all_known :: "(string \<times> cap_kind) list \<Rightarrow> plan \<Rightarrow> bool" where
  "all_known caps p \<longleftrightarrow> (\<forall>st\<in>set (pl_steps p). case pt_capability st of None \<Rightarrow> True | Some c \<Rightarrow> c = [] \<or> c \<in> fst ` set caps)"

lemma missing_caps_none: "missing_caps caps p = [] \<longleftrightarrow> all_known caps p"
proof -
  have "filter (\<lambda>i. i \<notin> fst ` set caps) (List.map_filter (\<lambda>s. given_text (pt_capability s)) sts) = []
      \<longleftrightarrow> (\<forall>st\<in>set sts. case pt_capability st of None \<Rightarrow> True | Some c \<Rightarrow> c = [] \<or> c \<in> fst ` set caps)" for sts
    by (induction sts) (auto simp: List.map_filter_simps given_text_def split: option.splits if_splits)
  then show ?thesis by (simp add: missing_caps_def all_known_def)
qed

definition guarded :: "(string \<times> cap_kind) list \<Rightarrow> 'u goal_deps \<Rightarrow> 'u goal_deps" where
  "guarded caps d = d\<lparr> gd_execute := \<lambda>cx p. if \<not> all_known caps p then throw (JsError ''unknown capability'') else gd_execute d cx p \<rparr>"

lemma guarded_sel: "gd_assemble (guarded caps d) = gd_assemble d" "gd_capabilities (guarded caps d) = gd_capabilities d" "gd_plan (guarded caps d) = gd_plan d"
    "gd_guard (guarded caps d) = gd_guard d" "gd_verify (guarded caps d) = gd_verify d" "gd_observe (guarded caps d) = gd_observe d"
    "gd_replan (guarded caps d) = gd_replan d" "gd_now (guarded caps d) = gd_now d" "observing (guarded caps d) = observing d"
    "missing_caps caps p = [] \<Longrightarrow> gd_execute (guarded caps d) cx p = gd_execute d cx p"
  by (simp_all add: guarded_def observing_def fun_eq_iff missing_caps_none)

lemma guarded_loop: "replan_loop (guarded caps d) cx g caps left attempt p failed err = replan_loop d cx g caps left attempt p failed err"
proof (induction left arbitrary: attempt p failed err)
  case (Suc left)
  show ?case
    unfolding replan_loop.simps Let_def guarded_sel(1-9) Suc.IH
    by (intro arg_cong [where f = "then_do _"] ext) (simp add: guarded_sel(10) split: option.split)
qed simp

lemma guarded_after: "after_execution (guarded caps d) cx g caps p st rs = after_execution d cx g caps p st rs"
  by (simp add: after_execution_def guarded_sel guarded_loop Let_def cong: if_cong option.case_cong)

lemma loop_achieved:
  assumes "replan_loop d cx g caps left attempt p failed err u = (Inr r, u')" "go_status r = GoalAchieved"
  shows "\<exists>oc v u1 u2. gd_verify d g oc u1 = (Inr v, u2) \<and> ve_verified v \<and> str_starts (ve_reason v) (go_summary r)"
  using assms
proof (induction left arbitrary: attempt p failed err u)
  case 0
  then show ?case by (auto simp: goal_ends_def)
next
  case (Suc left)
  obtain np u1 where n: "gd_replan d g p failed err u = (Inr np, u1)" using Suc.prems(1) by (auto simp: then_do_ok)
  obtain q where q: "np = Some q" "missing_caps caps q = []"
    using Suc.prems n by (cases np) (auto simp: then_do_ok goal_ends_def split: if_splits)
  obtain st rs u2 where e: "gd_execute d cx q u1 = (Inr (st, rs), u2)"
    using Suc.prems(1) n q by (auto simp: then_do_ok)
  define oc where "oc = outcome_of (gd_now d) ('' (replan '' @ nat_text (attempt + 1) @ '')'') False st rs"
  obtain v u3 where v: "gd_verify d g oc u2 = (Inr v, u3)"
    using Suc.prems(1) n q e by (auto simp: then_do_ok oc_def Let_def)
  show ?case
  proof (cases "ve_verified v")
    case True
    have "go_summary r = ve_reason v @ '' (replan '' @ nat_text (attempt + 1) @ '')''"
      using Suc.prems(1) n q e v True by (auto simp: then_do_ok oc_def Let_def goal_ends_def)
    then have "str_starts (ve_reason v) (go_summary r)" by (simp only: str_starts_append)
    then show ?thesis using v True by blast
  next
    case False
    then obtain f where "replan_loop d cx g caps left (attempt + 1) q (sr_id f) (error_of f) u3 = (Inr r, u')"
      using Suc.prems n q e v by (auto simp: then_do_ok oc_def Let_def goal_ends_def split: option.splits)
    then show ?thesis using Suc.IH Suc.prems(2) by blast
  qed
qed

text \<open>C27: the cycle executes only plans whose capabilities are all registered, and calls a goal achieved only
  on the word of the verifier.  Replacing the executor by one that refuses any plan with an unknown
  capability changes nothing; and when the answer is achieved, a verification of an outcome of this goal
  was positive, and its reason begins the summary.\<close>
theorem goal_cycle_safe:
  assumes "\<forall>u. fst (gd_capabilities d u) = Inr caps"
  shows "run_goal (Some d) cx g u = run_goal (Some (guarded caps d)) cx g u
    \<and> (run_goal (Some d) cx g u = (Inr r, u') \<and> go_status r = GoalAchieved
       \<longrightarrow> (\<exists>oc v u1 u2. gd_verify d g oc u1 = (Inr v, u2) \<and> ve_verified v \<and> str_starts (ve_reason v) (go_summary r)))"
proof (intro conjI impI)
  have caps: "then_do (gd_capabilities d) f = (\<lambda>u. f caps (snd (gd_capabilities d u)))" for f
    using assms by (auto simp: then_do_def fun_eq_iff split: prod.split sum.split) (metis fst_conv sum.inject(2) old.sum.distinct(1))+
  have ga: "after_execution (guarded caps d) cx g caps = after_execution d cx g caps" by (intro ext) (simp only: guarded_after)
  show "run_goal (Some d) cx g u = run_goal (Some (guarded caps d)) cx g u"
    unfolding run_goal_def option.case guarded_sel(1-9) caps ga
    by (rule arg_cong [where f = "\<lambda>f. then_do _ f u"], rule ext, rule ext, rule arg_cong [where f = "\<lambda>f. then_do _ f _"], rule ext,
        rule arg_cong [where f = "then_do _"], rule ext) (simp add: guarded_sel(10) ga)
next
  assume "run_goal (Some d) cx g u = (Inr r, u') \<and> go_status r = GoalAchieved"
  then have r: "run_goal (Some d) cx g u = (Inr r, u')" "go_status r = GoalAchieved" by simp_all
  obtain cs p st rs u1 where a: "after_execution d cx g cs p st rs u1 = (Inr r, u')"
    using r by (auto simp: run_goal_def then_do_ok goal_ends_def split: if_splits)
  define oc where "oc = outcome_of (gd_now d) [] (all_skipped rs) st rs"
  obtain v u2 where v: "gd_verify d g oc u1 = (Inr v, u2)"
    using a by (auto simp: after_execution_def Let_def then_do_ok oc_def)
  show "\<exists>oc v u1 u2. gd_verify d g oc u1 = (Inr v, u2) \<and> ve_verified v \<and> str_starts (ve_reason v) (go_summary r)"
  proof (cases "ve_verified v")
    case True
    have "go_summary r = ve_reason v" using a v True by (auto simp: after_execution_def Let_def then_do_ok goal_ends_def oc_def)
    then have "str_starts (ve_reason v) (go_summary r)" by (simp add: str_starts_def)
    then show ?thesis using v True by blast
  next
    case False
    then obtain f u4 where "replan_loop d cx g cs 3 0 p (sr_id f) (error_of f) u4 = (Inr r, u')"
      using a v r(2) by (auto simp: after_execution_def Let_def then_do_ok goal_ends_def oc_def split: option.splits)
    then show ?thesis using r(2) by (rule loop_achieved)
  qed
qed

theorem goal_cycle_safe_witness:
  "\<exists>r u' oc v u1 u2. run_goal (Some sample_deps) sample_context sample_goal 0 = (Inr r, u')
     \<and> gd_verify sample_deps sample_goal oc u1 = (Inr v, u2) \<and> ve_verified v \<and> str_starts (ve_reason v) (go_summary r)"
proof -
  have r: "run_goal (Some sample_deps) sample_context sample_goal 0 = (Inr (goal_ends GoalAchieved ''Se cumplen 0 criterios''), 1)"
    by code_simp
  have "\<forall>u. fst (gd_capabilities sample_deps u) = Inr [(''post_note'', CapTool)]" by (simp add: sample_deps_def give_def)
  from conjunct2 [OF goal_cycle_safe [OF this, of sample_context sample_goal 0 "goal_ends GoalAchieved ''Se cumplen 0 criterios''" 1]] r
  obtain oc v u1 u2 where "gd_verify sample_deps sample_goal oc u1 = (Inr v, u2)" "ve_verified v"
      "str_starts (ve_reason v) (go_summary (goal_ends GoalAchieved ''Se cumplen 0 criterios''))"
    by (auto simp: goal_ends_def)
  with r show ?thesis by blast
qed

section \<open>The verdict on a goal\<close>

lemma deterministic_verdict: "ve_verified (verify_outcome number now g (outcome_of t x b st rs)) \<longleftrightarrow> bg_criteria g = []"
  by (simp add: verify_outcome_def outcome_of_def Let_def filter_empty_conv)

lemma zero_text: "nat_text 0 = ''0''"
  by code_simp

lemma observing_total: "\<exists>u'. observing d cx g p oc u = (Inr (), u')"
  by (auto simp: observing_def catching_def give_def split: option.split prod.split sum.split)

text \<open>C40: a goal without success criteria is achieved whatever its plan did, also when its steps failed or
  were all skipped: the wired verifier compares the criteria with metrics that the cycle never fills in.
  With criteria the deterministic verifier refuses every outcome of the cycle.\<close>
theorem goal_verdict_ignores_execution:
  "(bg_criteria g = [] \<longrightarrow> (\<exists>u'. after_execution (wired_deps env ma assemble observe) cx g caps p st rs u
       = (Inr (goal_ends GoalAchieved ''Se cumplen 0 criterios''), u')))
   \<and> (bg_criteria g \<noteq> [] \<longrightarrow> \<not> ve_verified (verify_outcome (ma_number ma) (re_now env) g (outcome_of (re_now env) x b st rs)))"
proof (intro conjI impI)
  let ?d = "wired_deps env ma assemble observe"
  define oc where "oc = outcome_of (re_now env) [] (all_skipped rs) st rs"
  assume c: "bg_criteria g = []"
  have v: "ve_verified (verify_outcome (ma_number ma) (re_now env) g oc)" by (simp add: oc_def deterministic_verdict c)
  have r: "ve_reason (verify_outcome (ma_number ma) (re_now env) g oc) = ''Se cumplen 0 criterios''"
    using c by (simp add: verify_outcome_def Let_def zero_text)
  have g1: "gd_verify ?d g oc = give (verify_outcome (ma_number ma) (re_now env) g oc)"
    using v by (simp add: wired_deps_def wired_verify_def Let_def)
  have now: "gd_now ?d = re_now env" by (simp add: wired_deps_def)
  obtain u' where o1: "observing ?d cx g p (confirmed (re_now env) (verify_outcome (ma_number ma) (re_now env) g oc) oc) u = (Inr (), u')"
    using observing_total [of ?d cx g p "confirmed (re_now env) (verify_outcome (ma_number ma) (re_now env) g oc) oc" u] by (elim exE)
  show "\<exists>u'. after_execution ?d cx g caps p st rs u = (Inr (goal_ends GoalAchieved ''Se cumplen 0 criterios''), u')"
    using v r o1 by (simp add: after_execution_def now oc_def [symmetric] g1 give_then then_do_def give_def)
qed (simp add: deterministic_verdict)

theorem goal_verdict_ignores_execution_witness:
  "\<exists>u'. after_execution (wired_deps sample_runner sample_models (\<lambda>cx q. give JNull) (\<lambda>t g p oc. give ())) sample_context sample_goal [] (sample_plan [])
       RunFailed [\<lparr> sr_id = ''a'', sr_mark = Failed, sr_error = None \<rparr>] ([], 0) = (Inr (goal_ends GoalAchieved ''Se cumplen 0 criterios''), u')"
  by (rule mp [OF conjunct1 [OF goal_verdict_ignores_execution]]) (simp add: sample_goal_def)

section \<open>An external write under a claim\<close>

definition same_effect :: "exec_context \<Rightarrow> plan_step \<Rightarrow> exec_context \<Rightarrow> plan_step \<Rightarrow> bool" where
  "same_effect cx st cx' st' \<longleftrightarrow> xc_tenant cx' = xc_tenant cx \<and> pt_id st' = pt_id st \<and> pt_capability st' = pt_capability st \<and> pt_inputs st' = pt_inputs st"

lemma done_is_inert:
  assumes "claim_done env (xc_tenant cx) key u" "re_store env = Some plain_store" "effect_key env cx st c = Some key" "external c"
    and "given_text (pt_capability st) = Some i" "reg_get i (re_registry env) = Some c"
  shows "snd (run_capability env cx st u) = u"
proof -
  obtain j where j: "st_get (xc_tenant cx) ''idempotency-claims'' key (re_rows env u) = Some j" "jstatus j = Some ''done''"
    using assms(1,2) by (auto simp: claim_done_def split: option.splits)
  have "take_claim env plain_store cx st c key u = (Inr AlreadyDone, u)"
    using j by (simp add: take_claim_def Let_def)
  then show ?thesis using assms(2-6)
    by (simp add: run_capability_def perform_capability_def then_do_def give_def split: option.split)
qed

lemma success_leaves_claim:
  assumes r: "run_capability env cx st u = (Inr (), u')" and q: "quiet_tools env" "re_store env = Some plain_store"
    and k: "effect_key env cx st c = Some key" "external c" "given_text (pt_capability st) = Some i" "reg_get i (re_registry env) = Some c"
  shows "claim_done env (xc_tenant cx) key u'"
proof -
  obtain exec where p: "perform_capability env cx st c exec u = (Inr (), u')"
    using r k q by (auto simp: run_capability_def split: option.splits)
  obtain a u1 where a: "take_claim env plain_store cx st c key u = (Inr a, u1)"
      "(case a of AlreadyDone \<Rightarrow> give () | Claimed \<Rightarrow> run_claimed env plain_store cx st c key (exec cx (pt_inputs st) (Some key))) u1 = (Inr (), u')"
    using p k(1,2) q(2) by (auto simp: perform_capability_def elim!: then_do_InrE)
  show ?thesis
  proof (cases a)
    case AlreadyDone
    then have "u' = u1" using a(2) by simp
    moreover have "\<exists>j. st_get (xc_tenant cx) ''idempotency-claims'' key (re_rows env u1) = Some j \<and> jstatus j = Some ''done''"
      using a(1) AlreadyDone by (auto simp: take_claim_def Let_def split: option.splits prod.splits if_splits)
    ultimately show ?thesis using q(2) by (auto simp: claim_done_def)
  next
    case Claimed
    then obtain rest u2 where "u' = put_claim env plain_store cx (claim_row cx st c key ((''status'', JStr ''done'') # rest)) u2"
      using a(2) by (auto simp: run_claimed_def split: prod.splits sum.splits)
    then have "st_get (xc_tenant cx) ''idempotency-claims'' key (re_rows env u') = Some (claim_row cx st c key ((''status'', JStr ''done'') # rest))"
      by (simp add: put_claim_get [OF q(1)] claim_row_sel)
    then show ?thesis using q(2) by (simp add: claim_done_def claim_row_def jstatus_def jtext_def)
  qed
qed

text \<open>C23: an external write that succeeded under a claim is not done again.  For a capability that is not
  declared idempotent, with tools that leave the claims alone: after a step of it succeeded, and after any
  further plan of any context has run, a step with the same id, capability and inputs in the same tenant
  changes nothing, whichever goal, owner and plan it belongs to.\<close>
theorem external_write_once:
  assumes "run_capability env cx st u = (Inr (), u')" "quiet_tools env" "re_store env = Some plain_store"
    and "pt_capability st = Some i" "i \<noteq> []" "reg_get i (re_registry env) = Some c" "cc_idempotency c \<noteq> Idempotent" "external c"
    and "same_effect cx st cx2 st2" "u2 = snd (execute_plan (Some (run_capability env cx3)) p u')"
  shows "snd (run_capability env cx2 st2 u2) = u2"
proof -
  obtain key where k: "effect_key env cx st c = Some key" using assms(7) by (simp add: effect_key_def)
  have g: "given_text (pt_capability st) = Some i" using assms(4,5) by (simp add: given_text_def)
  have "claim_done env (xc_tenant cx) key u'" by (rule success_leaves_claim [OF assms(1-3) k assms(8) g assms(6)])
  then have d: "claim_done env (xc_tenant cx2) key u2"
    using cr.execute_keeps [of env "xc_tenant cx" key u' cx3 p] assms(2,9,10) by (simp add: same_effect_def)
  have "effect_key env cx2 st2 c = Some key"
    using k assms(7,9) by (auto simp: effect_key_def same_effect_def split: if_splits)
  then show ?thesis using done_is_inert [OF d assms(3) _ assms(8) _ assms(6)] g assms(9) by (simp add: same_effect_def)
qed

theorem external_write_once_witness:
  "\<exists>u'. run_capability sample_runner sample_context (note_step ''a'' []) ([], 0) = (Inr (), u') \<and> snd u' = 1
     \<and> snd (run_capability sample_runner (sample_context\<lparr> xc_owner := ''o2'' \<rparr>) (note_step ''a'' [JStr ''b'']) u') = u'"
proof -
  have r: "is_ok (fst (run_capability sample_runner sample_context (note_step ''a'' []) ([], 0)))
      \<and> snd (snd (run_capability sample_runner sample_context (note_step ''a'' []) ([], 0))) = 1" by code_simp
  obtain u' where u: "run_capability sample_runner sample_context (note_step ''a'' []) ([], 0) = (Inr (), u')"
    using ok_result [of "run_capability sample_runner sample_context (note_step ''a'' []) ([], 0)"] r by auto
  have q: "quiet_tools sample_runner" by (auto simp: quiet_tools_def sample_runner_def)
  have e: "u' = snd (execute_plan (Some (run_capability sample_runner sample_context)) (sample_plan []) u')"
    by (simp add: execute_plan_def sample_plan_def)
  have "snd (run_capability sample_runner (sample_context\<lparr> xc_owner := ''o2'' \<rparr>) (note_step ''a'' [JStr ''b'']) u') = u'"
    by (rule external_write_once [OF u q _ _ _ _ _ _ _ e, of "''post_note''" sample_capability])
       (simp_all add: sample_runner_def note_step_def reg_get_def sample_capability_def declared_def eff_def external_def same_effect_def)
  then show ?thesis using u r by auto
qed

section \<open>What falls short\<close>

text \<open>No capability of the system takes a claim: they are all declared idempotent, the external writes too.\<close>

lemma system_capabilities_idempotent: "list_all (\<lambda>(i, c). cc_idempotency c = Idempotent) (bootstrap [])"
  by code_simp

lemma no_claim_for_system_capabilities:
  "reg_get i (bootstrap []) = Some c \<Longrightarrow> effect_key env cx st c = None"
  using system_capabilities_idempotent by (auto simp: effect_key_def reg_get_def list_all_iff dest!: map_of_SomeD)

text \<open>The approval of a proposal: its kind (\<open>email.send\<close>) is compared with the verb of the capability.\<close>

lemma system_actions_plain: "list_all (\<lambda>(i, c). case cc_action c of None \<Rightarrow> False | Some t \<Rightarrow> CHR ''.'' \<notin> set t) (bootstrap [])"
  by code_simp

lemma approval_never_matches:
  assumes "reg_get i (bootstrap []) = Some c" "cc_approval c" "re_store env = Some S" "xc_session cx = Some a" "a \<noteq> []"
    and "s_get S (xc_tenant cx) ''actions'' a (re_rows env u) = Some row" "truthy_text row ''kind'' = Some k" "CHR ''.'' \<in> set k"
  shows "approval_refusal env cx c u \<noteq> None"
proof -
  obtain t where "cc_action c = Some t" "CHR ''.'' \<notin> set t"
    using system_actions_plain assms(1) by (auto simp: reg_get_def list_all_iff dest!: map_of_SomeD split: option.splits)
  then show ?thesis using assms(2-8) by (auto simp: approval_refusal_def given_text_def)
qed

text \<open>Seven registered capabilities pass the check of a plan and have no executor.\<close>

lemma capabilities_without_executor:
  "filter (\<lambda>i. executor_of tk i = None) (map fst (bootstrap []))
     = [''import_pdf'', ''inspect_pdf'', ''fill_pdf'', ''run_sop'', ''send_email'', ''send_whatsapp'', ''create_calendar_event'']"
proof -
  have "map fst (bootstrap []) = map cc_id (tool_capabilities @ composite_capabilities)" by code_simp
  then show ?thesis by (simp add: tool_capabilities_def composite_capabilities_def declared_def Let_def executor_of_def)
qed

end
