(* ===== verification/Finance.thy ===== *)
theory Finance
  imports Promote SopModel BusinessGraph
begin

text \<open>
  The import of bank movements (apps/server/src/engine/finance.ts): a scanner of CSV text, the reading of a
  movement from each row, and the summary.  Amounts are exact: cents as integers, hundredths as rationals,
  where the code computes with floating point numbers far below their precision.
\<close>

section \<open>The scanner\<close>

definition csv_error :: "string \<Rightarrow> err" where
  "csv_error m = AppError m 422"

definition chop_cr :: "string \<Rightarrow> string" where
  "chop_cr cell = (if cell \<noteq> [] \<and> last cell = CHR 0x0D then butlast cell else cell)"

definition end_row :: "string list list \<Rightarrow> string list \<Rightarrow> string list list" where
  "end_row rows row = (if list_ex (\<lambda>v. trim v \<noteq> []) row then rows @ [row] else rows)"

text \<open>The loop over the characters, with the rows read, the open row, the open cell and whether it is quoted.\<close>

fun csv_scan :: "string list list \<Rightarrow> string list \<Rightarrow> string \<Rightarrow> bool \<Rightarrow> string \<Rightarrow> string list list res" where
  "csv_scan rows row cell q [] = (if q then Inl (csv_error ''CSV has an unclosed quoted field'') else Inr (end_row rows (row @ [chop_cr cell])))"
| "csv_scan rows row cell q (c # cs) =
     (if c = CHR 0x22 then
        (if q \<and> cs \<noteq> [] \<and> hd cs = CHR 0x22 then csv_scan rows row (cell @ [CHR 0x22]) q (tl cs)
         else if \<not> q \<and> cell \<noteq> [] then Inl (csv_error ''Invalid quoted CSV field'')
         else csv_scan rows row cell (\<not> q) cs)
      else if \<not> q \<and> c = CHR '','' then csv_scan rows (row @ [chop_cr cell]) [] q cs
      else if \<not> q \<and> c = CHR 0x0A then csv_scan (end_row rows (row @ [chop_cr cell])) [] [] q cs
      else csv_scan rows row (cell @ [c]) q cs)"

definition csv_rows :: "string \<Rightarrow> string list list res" where
  "csv_rows csv = (if int (length csv) > 500000 then Inl (csv_error ''Import at most 500 KB of transaction CSV'') else csv_scan [] [] [] False csv)"

section \<open>A movement\<close>

record movement =
  mv_id :: string
  mv_date :: string
  mv_description :: string
  mv_category :: string
  mv_cents :: int

definition unsigned_cents :: "string \<Rightarrow> int option" where
  "unsigned_cents s = (let whole = takeWhile digit_char s in case dropWhile digit_char s of
     [] \<Rightarrow> if whole = [] then None else Some (100 * int (digits_value whole))
   | d # ds \<Rightarrow> if whole \<noteq> [] \<and> d = CHR ''.'' \<and> digits ds \<and> length ds \<le> 2
       then Some (100 * int (digits_value whole) + int (digits_value ds) * (if length ds = 1 then 10 else 1)) else None)"

definition amount_cents :: "string \<Rightarrow> int option" where
  "amount_cents s = (case s of [] \<Rightarrow> None
     | c # cs \<Rightarrow> if c = CHR ''-'' then map_option uminus (unsigned_cents cs) else if c = CHR ''+'' then unsigned_cents cs else unsigned_cents s)"

fun column_index :: "string \<Rightarrow> string list \<Rightarrow> nat" where
  "column_index x [] = 0"
| "column_index x (y # ys) = (if y = x then 0 else Suc (column_index x ys))"

definition column :: "string list \<Rightarrow> string list \<Rightarrow> string \<Rightarrow> string" where
  "column header r name = (if column_index name header < length r then trim (r ! column_index name header) else [])"

text \<open>\<open>date_ok\<close> is \<open>z.iso.date()\<close>; \<open>n\<close> is the number of the row in the file.\<close>

definition read_movement :: "(string \<Rightarrow> bool) \<Rightarrow> string list \<Rightarrow> nat \<Rightarrow> string list \<Rightarrow> movement res" where
  "read_movement date_ok header n r =
     (if length r \<noteq> length header then Inl (csv_error (''Row '' @ nat_text n @ '' has the wrong number of columns''))
      else case (date_ok (column header r ''date''), amount_cents (column header r ''amount'')) of
        (True, Some cents) \<Rightarrow> if \<bar>cents\<bar> > 1000000000000 then Inl (csv_error ''Transaction amount is out of range'')
          else Inr \<lparr> mv_id = ''row-'' @ nat_text n, mv_date = column header r ''date'', mv_description = column header r ''description'',
            mv_category = (if column header r ''category'' = [] then ''Uncategorized'' else column header r ''category''), mv_cents = cents \<rparr>
      | _ \<Rightarrow> Inl (csv_error (''Row '' @ nat_text n @ '' needs an ISO date and a plain amount with at most two decimal places'')))"

fun read_movements :: "(string \<Rightarrow> bool) \<Rightarrow> string list \<Rightarrow> nat \<Rightarrow> string list list \<Rightarrow> movement list res" where
  "read_movements date_ok header n [] = Inr []"
| "read_movements date_ok header n (r # rs) = (case read_movement date_ok header n r of Inl e \<Rightarrow> Inl e
     | Inr m \<Rightarrow> (case read_movements date_ok header (n + 1) rs of Inl e \<Rightarrow> Inl e | Inr ms \<Rightarrow> Inr (m # ms)))"

section \<open>The summary\<close>

record spending =
  sg_income :: rat
  sg_spending :: rat
  sg_saved :: rat
  sg_count :: nat
  sg_categories :: "(string \<times> rat) list"
  sg_movements :: "movement list"
  sg_from :: string
  sg_to :: string

definition hundredths :: "int \<Rightarrow> rat" where
  "hundredths n = of_int n / 100"

definition add_category :: "(string \<times> int) list \<Rightarrow> movement \<Rightarrow> (string \<times> int) list" where
  "add_category grouped m = (if mv_cents m > 0
     then AList.update (mv_category m) ((case map_of grouped (mv_category m) of None \<Rightarrow> 0 | Some c \<Rightarrow> c) + mv_cents m) grouped else grouped)"

definition by_category :: "movement list \<Rightarrow> (string \<times> int) list" where
  "by_category ms = foldl add_category [] ms"

definition expense_cents :: "movement list \<Rightarrow> int" where
  "expense_cents ms = sum_list (map mv_cents (filter (\<lambda>m. mv_cents m > 0) ms))"

definition income_cents :: "movement list \<Rightarrow> int" where
  "income_cents ms = - sum_list (map mv_cents (filter (\<lambda>m. mv_cents m < 0) ms))"

definition summarize :: "movement list \<Rightarrow> spending" where
  "summarize ms = \<lparr> sg_income = hundredths (income_cents ms), sg_spending = hundredths (expense_cents ms),
     sg_saved = hundredths (income_cents ms - expense_cents ms), sg_count = length ms,
     sg_categories = sort_key (\<lambda>c. - snd c) (map (\<lambda>(n, c). (n, hundredths c)) (by_category ms)), sg_movements = ms,
     sg_from = hd (sort (map mv_date ms)), sg_to = last (sort (map mv_date ms)) \<rparr>"

definition analyze_spending :: "(string \<Rightarrow> bool) \<Rightarrow> string \<Rightarrow> spending res" where
  "analyze_spending date_ok csv = (case csv_rows csv of Inl e \<Rightarrow> Inl e
     | Inr all \<Rightarrow> (let header = (case all of [] \<Rightarrow> [] | h # _ \<Rightarrow> map (\<lambda>v. map lower_char (trim v)) h); rows = tl all in
         if all = [] \<or> \<not> {''date'', ''description'', ''amount'', ''category''} \<subseteq> set header
         then Inl (csv_error ''CSV needs date,description,amount,category columns'')
         else if rows = [] \<or> length rows > 5000 then Inl (csv_error ''Import between 1 and 5,000 transactions'')
         else (case read_movements date_ok header 2 rows of Inl e \<Rightarrow> Inl e | Inr ms \<Rightarrow> Inr (summarize ms))))"

section \<open>A CSV text for rows of cells\<close>

text \<open>Every cell quoted, quotes doubled.\<close>

fun double_quotes :: "string \<Rightarrow> string" where
  "double_quotes [] = []"
| "double_quotes (c # cs) = (if c = CHR 0x22 then [c, c] else [c]) @ double_quotes cs"

definition csv_cell :: "string \<Rightarrow> string" where
  "csv_cell v = CHR 0x22 # double_quotes v @ [CHR 0x22]"

fun csv_line :: "string list \<Rightarrow> string" where
  "csv_line [] = []"
| "csv_line [v] = csv_cell v"
| "csv_line (v # w # vs) = csv_cell v @ [CHR '',''] @ csv_line (w # vs)"

fun csv_text :: "string list list \<Rightarrow> string" where
  "csv_text [] = []"
| "csv_text [r] = csv_line r"
| "csv_text (r # s # rs) = csv_line r @ [CHR 0x0A] @ csv_text (s # rs)"

definition proper_row :: "string list \<Rightarrow> bool" where
  "proper_row r \<longleftrightarrow> (\<exists>v\<in>set r. trim v \<noteq> []) \<and> (\<forall>v\<in>set r. v \<noteq> [] \<longrightarrow> last v \<noteq> CHR 0x0D)"

lemma scan_quoted: "csv_scan rows row cell True (double_quotes v @ CHR 0x22 # rest)
    = (if rest \<noteq> [] \<and> hd rest = CHR 0x22 then csv_scan rows row (cell @ v @ [CHR 0x22]) True (tl rest) else csv_scan rows row (cell @ v) False rest)"
  by (induction v arbitrary: cell) auto

lemma scan_cell:
  assumes "rest = [] \<or> hd rest \<noteq> CHR 0x22"
  shows "csv_scan rows row [] False (csv_cell v @ rest) = csv_scan rows row v False rest"
  using scan_quoted [of rows row "[]" v rest] assms by (auto simp: csv_cell_def)

lemma chop_proper: "\<lbrakk> v \<noteq> [] \<Longrightarrow> last v \<noteq> CHR 0x0D \<rbrakk> \<Longrightarrow> chop_cr v = v"
  by (auto simp: chop_cr_def)

lemma scan_line:
  assumes "r \<noteq> []" "\<forall>v\<in>set r. v \<noteq> [] \<longrightarrow> last v \<noteq> CHR 0x0D"
  shows "csv_scan rows row [] False (csv_line r) = Inr (end_row rows (row @ r))
    \<and> csv_scan rows row [] False (csv_line r @ CHR 0x0A # rest) = csv_scan (end_row rows (row @ r)) [] [] False rest"
  using assms
proof (induction r arbitrary: row rule: csv_line.induct)
  case (2 v)
  then have "chop_cr v = v" by (simp add: chop_proper)
  then show ?case using scan_cell [of "[]" rows row v] scan_cell [of "CHR 0x0A # rest" rows row v] by simp
next
  case (3 v w vs)
  then have "chop_cr v = v" by (simp add: chop_proper)
  then show ?case using 3 scan_cell [of "CHR '','' # csv_line (w # vs)" rows row v] scan_cell [of "CHR '','' # csv_line (w # vs) @ CHR 0x0A # rest" rows row v]
    by simp
qed simp

lemma proper_end: "proper_row r \<Longrightarrow> end_row rows r = rows @ [r]"
  by (auto simp: proper_row_def end_row_def list_ex_iff)

lemma proper_line:
  assumes "proper_row r"
  shows "csv_scan rows [] [] False (csv_line r) = Inr (rows @ [r])"
    "csv_scan rows [] [] False (csv_line r @ CHR 0x0A # rest) = csv_scan (rows @ [r]) [] [] False rest"
proof -
  have "r \<noteq> []" "\<forall>v\<in>set r. v \<noteq> [] \<longrightarrow> last v \<noteq> CHR 0x0D" using assms by (auto simp: proper_row_def)
  then show "csv_scan rows [] [] False (csv_line r) = Inr (rows @ [r])"
      "csv_scan rows [] [] False (csv_line r @ CHR 0x0A # rest) = csv_scan (rows @ [r]) [] [] False rest"
    using scan_line [of r rows "[]" rest] proper_end [OF assms, of rows] by simp_all
qed

lemma scan_text: "\<lbrakk> \<forall>r\<in>set rs. proper_row r; rs \<noteq> [] \<rbrakk> \<Longrightarrow> csv_scan rows [] [] False (csv_text rs) = Inr (rows @ rs)"
  by (induction rs arbitrary: rows rule: csv_text.induct) (simp_all add: proper_line)

text \<open>C33: what is written as CSV is read back.  Rows of at least one cell that is not blank, whose cells
  may hold commas, quotes and line breaks but do not end in a carriage return, written with every cell
  quoted, are exactly the rows that the scanner reads.\<close>
theorem csv_round_trip:
  assumes "\<forall>r\<in>set rs. proper_row r" "int (length (csv_text rs)) \<le> 500000"
  shows "csv_rows (csv_text rs) = Inr rs"
  using scan_text [of rs "[]"] assms by (cases "rs = []") (simp_all add: csv_rows_def end_row_def chop_cr_def trim_def)

theorem csv_round_trip_witness:
  "csv_rows (csv_text [[''a,b'', []], [[CHR 0x22], [CHR 0x0A, CHR ''c'']]]) = Inr [[''a,b'', []], [[CHR 0x22], [CHR 0x0A, CHR ''c'']]]"
proof -
  have "list_ex (\<lambda>v. trim v \<noteq> []) [''a,b'', []]" "list_ex (\<lambda>v. trim v \<noteq> []) [[CHR 0x22], [CHR 0x0A, CHR ''c'']]" by code_simp+
  then have "\<forall>r\<in>set [[''a,b'', []], [[CHR 0x22], [CHR 0x0A, CHR ''c'']]]. proper_row r" by (simp add: proper_row_def)
  then show ?thesis by (rule csv_round_trip) (simp add: csv_cell_def)
qed

section \<open>The totals\<close>

lemma category_keys: "distinct (map fst g) \<Longrightarrow> distinct (map fst (add_category g m))"
  by (simp add: add_category_def distinct_update)

lemma sum_update:
  assumes "distinct (map fst g)"
  shows "sum_list (map snd (AList.update k ((case map_of g k of None \<Rightarrow> 0 | Some c \<Rightarrow> c) + n) g)) = sum_list (map snd g) + (n::int)"
  using assms by (induction g) (auto split: option.splits)

lemma grouped_sums:
  assumes "distinct (map fst g)" "\<forall>c\<in>set g. snd c > 0"
  shows "sum_list (map snd (foldl add_category g ms)) = sum_list (map snd g) + expense_cents ms
    \<and> distinct (map fst (foldl add_category g ms)) \<and> (\<forall>c\<in>set (foldl add_category g ms). snd c > 0)"
  using assms
proof (induction ms arbitrary: g)
  case (Cons m ms)
  have p: "\<forall>c\<in>set (add_category g m). snd c > 0"
  proof (cases "mv_cents m > 0")
    case True
    have "set (add_category g m) \<subseteq> insert (mv_category m, (case map_of g (mv_category m) of None \<Rightarrow> 0 | Some c \<Rightarrow> c) + mv_cents m) (set g)"
      using True by (auto simp: add_category_def dest: subsetD [OF set_update_subset])
    moreover have "(case map_of g (mv_category m) of None \<Rightarrow> 0 | Some c \<Rightarrow> c) + mv_cents m > 0"
      using True Cons.prems(2) by (auto split: option.split dest!: map_of_SomeD)
    ultimately show ?thesis using Cons.prems(2) by auto
  qed (use Cons.prems(2) in \<open>simp add: add_category_def\<close>)
  have s: "sum_list (map snd (add_category g m)) = sum_list (map snd g) + (if mv_cents m > 0 then mv_cents m else 0)"
    using Cons.prems(1) by (simp add: add_category_def sum_update)
  show ?case using Cons.IH [OF category_keys [OF Cons.prems(1)] p] s by (simp add: expense_cents_def)
qed (simp add: expense_cents_def)

lemma cents_split: "sum_list (map mv_cents ms) = expense_cents ms - income_cents ms"
  by (induction ms) (auto simp: expense_cents_def income_cents_def)

lemma hundredths_sum: "sum_list (map hundredths xs) = hundredths (sum_list xs)"
  by (induction xs) (simp_all add: hundredths_def add_divide_distrib)

lemma hundredths_diff: "hundredths (a - b) = hundredths a - hundredths b"
  by (simp add: hundredths_def diff_divide_distrib)

lemma sum_list_sort_key: "sum_list (map f (sort_key k xs)) = sum_list (map f (xs :: ('a \<times> rat) list) :: rat list)"
  by (metis mset_map mset_sort sum_mset_sum_list)

lemma read_movements_length: "read_movements d h n rs = Inr ms \<Longrightarrow> length ms = length rs"
  by (induction rs arbitrary: n ms) (auto split: sum.splits)

text \<open>The summary of an import balances.  It counts 1 to 5000 movements; what was saved is the income
  less the spending; spending less income is the sum of all movements; and the categories, each named once,
  largest first, all positive, add up to the spending.\<close>
theorem spending_balances:
  assumes "analyze_spending date_ok csv = Inr r"
  shows "sg_saved r = sg_income r - sg_spending r \<and> sum_list (map (hundredths \<circ> mv_cents) (sg_movements r)) = sg_spending r - sg_income r
    \<and> sum_list (map snd (sg_categories r)) = sg_spending r \<and> distinct (map fst (sg_categories r))
    \<and> sorted (map (\<lambda>c. - snd c) (sg_categories r)) \<and> (\<forall>c\<in>set (sg_categories r). snd c > 0)
    \<and> sg_count r = length (sg_movements r) \<and> sg_count r \<in> {1..5000}"
proof -
  obtain all ms h where m: "csv_rows csv = Inr all" "read_movements date_ok h 2 (tl all) = Inr ms" "tl all \<noteq> []" "length (tl all) \<le> 5000" and r: "r = summarize ms"
    using assms by (auto simp: analyze_spending_def Let_def split: sum.splits if_splits)
  have n: "length ms \<in> {1..5000}" using m read_movements_length [OF m(2)] by (cases "tl all") auto
  have g: "sum_list (map snd (by_category ms)) = expense_cents ms" "distinct (map fst (by_category ms))" "\<forall>c\<in>set (by_category ms). snd c > 0"
    using grouped_sums [of "[]" ms] by (simp_all add: by_category_def)
  have c: "sum_list (map snd (sg_categories r)) = hundredths (expense_cents ms)"
    using g(1) hundredths_sum [of "map snd (by_category ms)"]
    by (simp add: r summarize_def sum_list_sort_key case_prod_beta comp_def)
  have d: "distinct (map fst (sg_categories r))"
  proof -
    have "map fst (map (\<lambda>(n, c). (n, hundredths c)) (by_category ms)) = map fst (by_category ms)" by (simp add: case_prod_beta comp_def)
    then have "distinct (map fst (map (\<lambda>(n, c). (n, hundredths c)) (by_category ms)))" using g(2) by (simp only:)
    then show ?thesis by (simp only: r summarize_def spending.simps distinct_map set_sort distinct_sort)
  qed
  have p: "\<forall>c\<in>set (sg_categories r). snd c > 0"
    using g(3) by (auto simp: r summarize_def hundredths_def)
  have s: "sum_list (map (hundredths \<circ> mv_cents) ms) = hundredths (expense_cents ms) - hundredths (income_cents ms)"
    using hundredths_sum [of "map mv_cents ms"] by (simp add: cents_split hundredths_diff)
  show ?thesis using n c d p s by (simp add: r summarize_def hundredths_diff)
qed

theorem spending_balances_witness:
  "\<exists>r. analyze_spending (\<lambda>d. True) (csv_text [[''date'', ''description'', ''amount'', ''category''], [''d'', ''rent'', ''700.5'', ''home''], [''d'', ''pay'', ''-1000'', []]]) = Inr r
     \<and> sg_saved r = sg_income r - sg_spending r"
proof -
  let ?csv = "csv_text [[''date'', ''description'', ''amount'', ''category''], [''d'', ''rent'', ''700.5'', ''home''], [''d'', ''pay'', ''-1000'', []]]"
  have "is_ok (analyze_spending (\<lambda>d. True) ?csv)" by code_simp
  then obtain r where "analyze_spending (\<lambda>d. True) ?csv = Inr r" by (rule is_okE)
  then show ?thesis using spending_balances [of "\<lambda>d. True" ?csv r] by blast
qed

end
