(* ===== verification/Network.thy ===== *)
theory Network
  imports Promote SopModel Accounts BusinessGraph
begin

text \<open>
  Which destinations the browser may open (apps/worker/src/network.ts): the classes of IP addresses, and the
  validation of a URL before a connection.  The parser of URLs and the resolver of names are arguments.
\<close>

section \<open>IPv4\<close>

text \<open>Four decimal octets without leading zeros.\<close>

definition octet :: "string \<Rightarrow> nat option" where
  "octet s = (if digits s \<and> length s \<le> 3 \<and> digits_value s \<le> 255 \<and> (length s > 1 \<longrightarrow> hd s \<noteq> CHR ''0'') then Some (digits_value s) else None)"

definition v4_octets :: "string \<Rightarrow> (nat \<times> nat \<times> nat \<times> nat) option" where
  "v4_octets s = (case map octet (split_on (CHR ''.'') s) of [Some a, Some b, Some c, Some d] \<Rightarrow> Some (a, b, c, d) | _ \<Rightarrow> None)"

definition public_v4 :: "nat \<Rightarrow> nat \<Rightarrow> nat \<Rightarrow> bool" where
  "public_v4 a b c \<longleftrightarrow> \<not> (a = 0 \<or> a = 10 \<or> a = 127 \<or> a \<ge> 224 \<or> (a = 100 \<and> b \<ge> 64 \<and> b \<le> 127) \<or> (a = 169 \<and> b = 254)
     \<or> (a = 172 \<and> b \<ge> 16 \<and> b \<le> 31) \<or> (a = 192 \<and> (b = 168 \<or> (b = 0 \<and> (c = 0 \<or> c = 2)) \<or> (b = 88 \<and> c = 99)))
     \<or> (a = 198 \<and> (b = 18 \<or> b = 19 \<or> (b = 51 \<and> c = 100))) \<or> (a = 203 \<and> b = 0 \<and> c = 113))"

section \<open>IPv6\<close>

definition hex_char :: "char \<Rightarrow> bool" where
  "hex_char c \<longleftrightarrow> digit_char c \<or> (let n = of_char (lower_char c) :: nat in 97 \<le> n \<and> n \<le> 102)"

definition hex_digit :: "char \<Rightarrow> int" where
  "hex_digit c = (if digit_char c then of_char c - 48 else of_char (lower_char c) - 87)"

definition hex_value :: "string \<Rightarrow> int" where
  "hex_value s = foldl (\<lambda>n c. 16 * n + hex_digit c) 0 s"

definition hex_group :: "string \<Rightarrow> bool" where
  "hex_group s \<longleftrightarrow> s \<noteq> [] \<and> length s \<le> 4 \<and> list_all hex_char s"

definition groups :: "string \<Rightarrow> string list" where
  "groups s = (if s = [] then [] else split_on (CHR '':'') s)"

text \<open>The text before and after the first \<open>::\<close>.\<close>

fun halves :: "string \<Rightarrow> string \<times> string option" where
  "halves (c # d # cs) = (if c = CHR '':'' \<and> d = CHR '':'' then ([], Some cs) else (case halves (d # cs) of (l, r) \<Rightarrow> (c # l, r)))"
| "halves s = (s, None)"

text \<open>The groups of a valid address in hexadecimal form.\<close>

definition v6_words :: "string \<Rightarrow> string list option" where
  "v6_words s = (case halves s of
     (l, None) \<Rightarrow> if length (groups l) = 8 \<and> list_all hex_group (groups l) then Some (groups l) else None
   | (l, Some r) \<Rightarrow> if list_all hex_group (groups l @ groups r) \<and> length (groups l @ groups r) \<le> 7
       then Some (groups l @ replicate (8 - length (groups l) - length (groups r)) ''0'' @ groups r) else None)"

definition public_v6 :: "int \<Rightarrow> int \<Rightarrow> bool" where
  "public_v6 first second \<longleftrightarrow> first \<ge> 0x2000 \<and> first \<le> 0x3fff \<and> \<not> (first = 0x2001 \<and> (second < 0x200 \<or> second = 0xdb8))
     \<and> first \<noteq> 0x2002 \<and> \<not> (first = 0x3fff \<and> second < 0x1000) \<and> \<not> (first = 0x2001 \<and> second \<ge> 0x20 \<and> second \<le> 0x2f)
     \<and> \<not> (first = 0x2001 \<and> second \<ge> 0x30 \<and> second \<le> 0x3f)"

text \<open>An address in another form, with an embedded IPv4 address or a zone too, is not public.\<close>

definition is_public_ip :: "string \<Rightarrow> bool" where
  "is_public_ip s = (case v4_octets s of Some (a, b, c, d) \<Rightarrow> public_v4 a b c
     | None \<Rightarrow> (case v6_words s of None \<Rightarrow> False | Some ws \<Rightarrow> public_v6 (hex_value (ws ! 0)) (hex_value (ws ! 1))))"

section \<open>A URL\<close>

record url =
  ur_protocol :: string
  ur_user :: string
  ur_password :: string
  ur_port :: string
  ur_host :: string

definition blocked_url :: err where
  "blocked_url = AppError ''Only public HTTP(S) destinations on ports 80 and 443 are allowed.'' 400"

definition bare_host :: "string \<Rightarrow> string" where
  "bare_host h = (let a = (if h \<noteq> [] \<and> hd h = CHR ''['' then tl h else h); b = (if a \<noteq> [] \<and> last a = CHR '']'' then butlast a else a)
     in map lower_char (if b \<noteq> [] \<and> last b = CHR ''.'' then butlast b else b))"

definition local_name :: "string \<Rightarrow> bool" where
  "local_name h \<longleftrightarrow> last (split_on (CHR ''.'') h) \<in> {''localhost'', ''local'', ''internal'', ''home'', ''lan''}"

definition usable_url :: "url \<Rightarrow> bool" where
  "usable_url u \<longleftrightarrow> ur_protocol u \<in> {''http:'', ''https:''} \<and> ur_user u = [] \<and> ur_password u = [] \<and> ur_port u \<in> {[], ''80'', ''443''}
     \<and> bare_host (ur_host u) \<noteq> [] \<and> \<not> local_name (bare_host (ur_host u))"

text \<open>\<open>is_ip\<close> is \<open>isIP\<close>: 0, 4 or 6; the resolver gives \<open>None\<close> when it fails or takes five seconds.\<close>

definition validate_public_url :: "(string \<Rightarrow> url option) \<Rightarrow> (string \<Rightarrow> nat) \<Rightarrow> (string \<Rightarrow> (string \<times> nat) list option) \<Rightarrow> string
    \<Rightarrow> (url \<times> string \<times> nat) res" where
  "validate_public_url parse is_ip resolve value = (case parse value of None \<Rightarrow> Inl blocked_url
     | Some u \<Rightarrow> if \<not> usable_url u then Inl blocked_url
       else (let host = bare_host (ur_host u) in
         case (if is_ip host \<noteq> 0 then Some [(host, is_ip host)] else resolve host) of
           None \<Rightarrow> Inl (AppError ''The destination could not be resolved.'' 502)
         | Some as \<Rightarrow> if as = [] \<or> list_ex (\<lambda>a. \<not> is_public_ip (fst a)) as then Inl blocked_url
             else (case find (\<lambda>a. snd a = 4) as of Some a \<Rightarrow> Inr (u, a) | None \<Rightarrow> Inr (u, hd as))))"

section \<open>The classes of addresses\<close>

definition v4_number :: "nat \<Rightarrow> nat \<Rightarrow> nat \<Rightarrow> nat \<Rightarrow> nat" where
  "v4_number a b c d = ((a * 256 + b) * 256 + c) * 256 + d"

text \<open>The special blocks of IPv4: the first number and the length of the prefix.\<close>

definition special_blocks :: "(nat \<times> nat) list" where
  "special_blocks = [(v4_number 0 0 0 0, 8), (v4_number 10 0 0 0, 8), (v4_number 100 64 0 0, 10), (v4_number 127 0 0 0, 8),
     (v4_number 169 254 0 0, 16), (v4_number 172 16 0 0, 12), (v4_number 192 0 0 0, 24), (v4_number 192 0 2 0, 24), (v4_number 192 88 99 0, 24),
     (v4_number 192 168 0 0, 16), (v4_number 198 18 0 0, 15), (v4_number 198 51 100 0, 24), (v4_number 203 0 113 0, 24),
     (v4_number 224 0 0 0, 4), (v4_number 240 0 0 0, 4)]"

definition in_block :: "nat \<Rightarrow> nat \<times> nat \<Rightarrow> bool" where
  "in_block n blk \<longleftrightarrow> n div 2 ^ (32 - snd blk) = fst blk div 2 ^ (32 - snd blk)"

lemma v4_div:
  assumes "b < 256" "c < 256" "d < 256"
  shows "v4_number a b c d div 2 ^ 8 = (a * 256 + b) * 256 + c" "v4_number a b c d div 2 ^ 16 = a * 256 + b" "v4_number a b c d div 2 ^ 24 = a"
    "v4_number a b c d div 2 ^ 22 = a * 4 + b div 64" "v4_number a b c d div 2 ^ 20 = a * 16 + b div 16" "v4_number a b c d div 2 ^ 17 = a * 128 + b div 2"
    "v4_number a b c d div 2 ^ 28 = a div 16"
  using assms by (simp_all add: v4_number_def)

lemma digits_eq:
  assumes "y < k" "v < k"
  shows "x * k + y = u * k + v \<longleftrightarrow> x = u \<and> y = (v::nat)"
proof
  assume e: "x * k + y = u * k + v"
  have k: "k \<noteq> 0" using assms by simp
  have "x = (x * k + y) div k" "u = (u * k + v) div k" using assms k by simp_all
  then have "x = u" using e by simp
  then show "x = u \<and> y = v" using e by simp
qed simp

lemma div_is: "0 < k \<Longrightarrow> n div k = m \<longleftrightarrow> m * k \<le> n \<and> n < Suc m * (k::nat)"
  by (metis div_nat_eqI div_times_less_eq_dividend dividend_less_div_times mult_Suc add.commute mult.commute)

lemma in_blocks:
  assumes "b < 256" "c < 256" "d < 256" "y < 256" "z < 256"
  shows "in_block (v4_number a b c d) (v4_number x y z 0, 8) \<longleftrightarrow> a = x"
    "in_block (v4_number a b c d) (v4_number x y z 0, 16) \<longleftrightarrow> a = x \<and> b = y"
    "in_block (v4_number a b c d) (v4_number x y z 0, 24) \<longleftrightarrow> a = x \<and> b = y \<and> c = z"
    "in_block (v4_number a b c d) (v4_number x y z 0, 10) \<longleftrightarrow> a = x \<and> b div 64 = y div 64"
    "in_block (v4_number a b c d) (v4_number x y z 0, 12) \<longleftrightarrow> a = x \<and> b div 16 = y div 16"
    "in_block (v4_number a b c d) (v4_number x y z 0, 15) \<longleftrightarrow> a = x \<and> b div 2 = y div 2"
    "in_block (v4_number a b c d) (v4_number x y z 0, 4) \<longleftrightarrow> a div 16 = x div 16"
proof -
  note v = v4_div [OF assms(1-3)] v4_div [OF assms(4,5), of 0 x]
  have m: "b div 64 < 4" "y div 64 < 4" "b div 16 < 16" "y div 16 < 16" "b div 2 < 128" "y div 2 < 128" using assms by simp_all
  have [simp]: "32 - 8 = (24::nat)" "32 - 16 = (16::nat)" "32 - 24 = (8::nat)" "32 - 10 = (22::nat)" "32 - 12 = (20::nat)" "32 - 15 = (17::nat)" "32 - 4 = (28::nat)" by simp_all
  show "in_block (v4_number a b c d) (v4_number x y z 0, 8) \<longleftrightarrow> a = x" by (simp only: in_block_def snd_conv fst_conv v \<open>32 - 8 = (24::nat)\<close>)
  show "in_block (v4_number a b c d) (v4_number x y z 0, 16) \<longleftrightarrow> a = x \<and> b = y"
    by (simp only: in_block_def snd_conv fst_conv v \<open>32 - 16 = (16::nat)\<close> digits_eq [OF assms(1,4)])
  show "in_block (v4_number a b c d) (v4_number x y z 0, 24) \<longleftrightarrow> a = x \<and> b = y \<and> c = z"
    by (simp only: in_block_def snd_conv fst_conv v \<open>32 - 24 = (8::nat)\<close> digits_eq [OF assms(2,5)] digits_eq [OF assms(1,4)] conj_assoc)
  show "in_block (v4_number a b c d) (v4_number x y z 0, 10) \<longleftrightarrow> a = x \<and> b div 64 = y div 64"
    by (simp only: in_block_def snd_conv fst_conv v \<open>32 - 10 = (22::nat)\<close> digits_eq [OF m(1,2)])
  show "in_block (v4_number a b c d) (v4_number x y z 0, 12) \<longleftrightarrow> a = x \<and> b div 16 = y div 16"
    by (simp only: in_block_def snd_conv fst_conv v \<open>32 - 12 = (20::nat)\<close> digits_eq [OF m(3,4)])
  show "in_block (v4_number a b c d) (v4_number x y z 0, 15) \<longleftrightarrow> a = x \<and> b div 2 = y div 2"
    by (simp only: in_block_def snd_conv fst_conv v \<open>32 - 15 = (17::nat)\<close> digits_eq [OF m(5,6)])
  show "in_block (v4_number a b c d) (v4_number x y z 0, 4) \<longleftrightarrow> a div 16 = x div 16"
    by (simp only: in_block_def snd_conv fst_conv v \<open>32 - 4 = (28::nat)\<close>)
qed

lemma octets_range: "v4_octets s = Some (a, b, c, d) \<Longrightarrow> a < 256 \<and> b < 256 \<and> c < 256 \<and> d < 256"
  by (auto simp: v4_octets_def octet_def split: list.splits option.splits if_splits)

text \<open>C39: a dotted IPv4 address is public exactly when it is outside the fifteen special blocks, as numbers
  and prefixes.\<close>
theorem public_v4_exact:
  assumes "v4_octets s = Some (a, b, c, d)"
  shows "is_public_ip s \<longleftrightarrow> \<not> list_ex (in_block (v4_number a b c d)) special_blocks"
proof -
  have r: "a < 256" "b < 256" "c < 256" "d < 256" using octets_range [OF assms] by simp_all
  have q1: "224 \<le> a \<longleftrightarrow> a div 16 = 14 \<or> a div 16 = 15" using r(1) by (auto simp: div_is)
  have q: "64 \<le> b \<and> b \<le> 127 \<longleftrightarrow> b div 64 = 1" "16 \<le> b \<and> b \<le> 31 \<longleftrightarrow> b div 16 = 1" "b = 18 \<or> b = 19 \<longleftrightarrow> b div 2 = 9"
    by (auto simp: div_is)
  have "is_public_ip s \<longleftrightarrow> public_v4 a b c" using assms by (simp add: is_public_ip_def)
  also have "\<dots> \<longleftrightarrow> \<not> (a = 0 \<or> a = 10 \<or> (a = 100 \<and> b div 64 = 1) \<or> a = 127 \<or> (a = 169 \<and> b = 254) \<or> (a = 172 \<and> b div 16 = 1)
      \<or> (a = 192 \<and> b = 0 \<and> c = 0) \<or> (a = 192 \<and> b = 0 \<and> c = 2) \<or> (a = 192 \<and> b = 88 \<and> c = 99) \<or> (a = 192 \<and> b = 168)
      \<or> (a = 198 \<and> b div 2 = 9) \<or> (a = 198 \<and> b = 51 \<and> c = 100) \<or> (a = 203 \<and> b = 0 \<and> c = 113) \<or> a div 16 = 14 \<or> a div 16 = 15)"
    unfolding public_v4_def q1 q(1,2) q(3) [symmetric] by argo
  also have "\<dots> \<longleftrightarrow> \<not> list_ex (in_block (v4_number a b c d)) special_blocks"
    using r by (simp add: special_blocks_def in_blocks)
  finally show ?thesis .
qed

lemmas v4_eval = v4_octets_def octet_def split_on_def digits_def digits_value_def

theorem public_v4_exact_witness: "is_public_ip ''8.8.8.8'' \<and> \<not> list_ex (in_block (v4_number 8 8 8 8)) special_blocks"
proof -
  have "v4_octets ''8.8.8.8'' = Some (8, 8, 8, 8)" by (simp add: v4_eval)
  from public_v4_exact [OF this] show ?thesis by (simp add: special_blocks_def in_blocks)
qed

text \<open>The IPv6 addresses that are public, as a single interval less four blocks: the last two conditions of
  the code are covered by the second.\<close>

lemma public_v6_blocks: "public_v6 first second \<longleftrightarrow> 0x2000 \<le> first \<and> first \<le> 0x3fff \<and> \<not> (first = 0x2001 \<and> second < 2 ^ 9)
    \<and> \<not> (first = 0x2001 \<and> second = 0xdb8) \<and> first \<noteq> 0x2002 \<and> \<not> (first = 0x3fff \<and> second < 2 ^ 12)"
  by (auto simp: public_v6_def)

section \<open>The destination\<close>

text \<open>C21: a URL that passes goes to a public address.  It is HTTP or HTTPS without credentials, on port 80 or
  443, and no local name; its address is public, and is the host itself or one of the resolved addresses, of
  which then every one is public and an IPv4 one is preferred.\<close>
theorem validated_destination_public:
  assumes "validate_public_url parse is_ip resolve value = Inr (u, a)"
  shows "parse value = Some u \<and> usable_url u \<and> is_public_ip (fst a)
    \<and> (if is_ip (bare_host (ur_host u)) \<noteq> 0 then fst a = bare_host (ur_host u)
       else \<exists>as. resolve (bare_host (ur_host u)) = Some as \<and> a \<in> set as \<and> (\<forall>x\<in>set as. is_public_ip (fst x)) \<and> ((\<exists>x\<in>set as. snd x = 4) \<longrightarrow> snd a = 4))"
proof -
  obtain as where u: "parse value = Some u" "usable_url u"
    and r: "(if is_ip (bare_host (ur_host u)) \<noteq> 0 then Some [(bare_host (ur_host u), is_ip (bare_host (ur_host u)))] else resolve (bare_host (ur_host u))) = Some as"
    and as: "as \<noteq> []" "\<forall>x\<in>set as. is_public_ip (fst x)" and a: "(case find (\<lambda>a. snd a = 4) as of Some a \<Rightarrow> Inr (u, a) | None \<Rightarrow> Inr (u, hd as)) = (Inr (u, a) :: (url \<times> string \<times> nat) res)"
    using assms by (auto simp: validate_public_url_def Let_def list_ex_iff split: option.splits if_splits)
  have m: "a \<in> set as \<and> ((\<exists>x\<in>set as. snd x = 4) \<longrightarrow> snd a = 4)"
    using a as(1) by (auto simp: find_None_iff find_Some_iff split: option.splits)
  show ?thesis using u r as m by (auto split: if_splits)
qed

definition sample_url :: "string \<Rightarrow> url" where
  "sample_url h = \<lparr> ur_protocol = ''https:'', ur_user = [], ur_password = [], ur_port = [], ur_host = h \<rparr>"

theorem validated_destination_public_witness:
  "\<exists>u a. validate_public_url (\<lambda>x. Some (sample_url x)) (\<lambda>h. 0) (\<lambda>h. Some [(''8.8.8.8'', 4)]) ''a.b'' = Inr (u, a)
     \<and> usable_url u \<and> is_public_ip (fst a)"
proof -
  have "is_ok (validate_public_url (\<lambda>x. Some (sample_url x)) (\<lambda>h. 0) (\<lambda>h. Some [(''8.8.8.8'', 4)]) ''a.b'')"
    by (simp add: validate_public_url_def sample_url_def usable_url_def bare_host_def local_name_def split_on_def lower_char_def is_public_ip_def v4_eval public_v4_def)
  then obtain ua where r: "validate_public_url (\<lambda>x. Some (sample_url x)) (\<lambda>h. 0) (\<lambda>h. Some [(''8.8.8.8'', 4)]) ''a.b'' = Inr ua"
    by (rule is_okE)
  then show ?thesis using validated_destination_public [of _ _ _ _ "fst ua" "snd ua"] by (metis prod.collapse)
qed

end
