(* ===== verification/ModelChain.thy ===== *)
theory ModelChain
  imports Promote Accounts
begin

text \<open>
  The chain of language models (apps/server/src/engine/model-chain.ts): the specifiers in their order, and
  the run that falls back from one to the next, as a state machine over the events of the running model, its
  first-byte timer and the client's subscription.  A model's events come in any order and number; the state
  of a provider's circuit is an argument.  Delivery is asynchronous: no event arrives during a step.
\<close>

section \<open>The specifiers\<close>

record provider_spec =
  pv_provider :: string
  pv_model :: string
  pv_key :: string

datatype chain_mode = ChatMode | TaskMode

definition tenant_spec :: "provider_spec option \<Rightarrow> string list" where
  "tenant_spec p = (case p of None \<Rightarrow> [] | Some s \<Rightarrow> if pv_key s \<noteq> [] \<and> pv_model s \<noteq> [] then [pv_provider s @ ''/'' @ pv_model s] else [])"

definition given_spec :: "string option \<Rightarrow> string list" where
  "given_spec x = (case x of None \<Rightarrow> [] | Some m \<Rightarrow> if trim m = [] then [] else [trim m])"

definition model_chain :: "string option \<Rightarrow> string option \<Rightarrow> (provider_spec option \<times> provider_spec option) option \<Rightarrow> chain_mode \<Rightarrow> string list" where
  "model_chain model fallback tenant mode = (let specs =
       (case tenant of None \<Rightarrow> [] | Some (fast, slow) \<Rightarrow> if mode = ChatMode then tenant_spec fast else tenant_spec slow)
         @ given_spec model @ given_spec fallback
     in if specs = [] then [''openai/unconfigured''] else first_seen specs)"

lemma model_chain_usable: "model_chain model fallback tenant mode \<noteq> [] \<and> distinct (model_chain model fallback tenant mode)"
proof -
  have "first_seen xs = [] \<longleftrightarrow> xs = []" for xs :: "string list" by (simp add: first_seen_def)
  then show ?thesis by (simp add: model_chain_def Let_def distinct_first_seen)
qed

section \<open>The state of a run\<close>

text \<open>The events of a model that matter: output for the client, the start, a failure, anything else.\<close>

datatype model_event = Produced string | RunStarted | RunErrored | OtherEvent string

datatype chain_input = FromModel nat model_event | ModelFailed nat string | ModelDone nat | FirstByte nat | Unsubscribed

datatype chain_end = EndError string | EndDone | EndLeft

text \<open>\<open>mc_runs\<close> and the attempt in \<open>mc_sent\<close> record what happened: the models started and what the client saw
  of which.  \<open>mc_answered\<close>, \<open>mc_timer\<close> and \<open>mc_attached\<close> are those of the attempt \<open>mc_attempt\<close>, the only one that still
  counts; \<open>mc_bulk\<close> is shared by all runs of the process.\<close>

record chain =
  mc_index :: nat
  mc_attempt :: nat
  mc_announce :: bool
  mc_answered :: bool
  mc_timer :: bool
  mc_attached :: bool
  mc_ended :: "chain_end option"
  mc_bulk :: "(string \<times> nat) list"
  mc_runs :: "(nat \<times> nat) list"
  mc_sent :: "(nat \<times> model_event) list"

record chain_env =
  ce_specs :: "string list"
  ce_max :: nat
  ce_open :: "nat \<Rightarrow> string \<Rightarrow> bool"

definition effective_specs :: "string list \<Rightarrow> nat option \<Rightarrow> string list" where
  "effective_specs specs max_specs = take (max 1 (case max_specs of None \<Rightarrow> length specs | Some n \<Rightarrow> n)) specs"

definition has_fallback :: "chain_env \<Rightarrow> chain \<Rightarrow> bool" where
  "has_fallback env c \<longleftrightarrow> mc_index c + 1 < length (ce_specs env)"

definition provider_at :: "chain_env \<Rightarrow> nat \<Rightarrow> string" where
  "provider_at env i = hd (split_on (CHR ''/'') (ce_specs env ! i))"

definition running :: "chain \<Rightarrow> string \<Rightarrow> nat" where
  "running c p = (case map_of (mc_bulk c) p of None \<Rightarrow> 0 | Some n \<Rightarrow> n)"

definition release_bulkhead :: "chain_env \<Rightarrow> chain \<Rightarrow> chain" where
  "release_bulkhead env c = (let p = provider_at env (mc_index c); cur = (case map_of (mc_bulk c) p of None \<Rightarrow> 1 | Some n \<Rightarrow> n)
     in c\<lparr> mc_bulk := if cur \<le> 1 then AList.delete p (mc_bulk c) else AList.update p (cur - 1) (mc_bulk c) \<rparr>)"

section \<open>Attempts\<close>

text \<open>An attempt whose circuit is open or whose bulkhead is full gives way to the next, if there is one.\<close>

function model_attempt :: "chain_env \<Rightarrow> chain \<Rightarrow> chain" where
  "model_attempt env c0 = (let k = mc_attempt c0 + 1; c = c0\<lparr> mc_attempt := k, mc_answered := False, mc_timer := False, mc_attached := False \<rparr>;
       p = provider_at env (mc_index c) in
     if (ce_open env k p \<or> running c p \<ge> ce_max env) \<and> has_fallback env c
     then model_attempt env (c\<lparr> mc_index := mc_index c + 1, mc_announce := False \<rparr>)
     else c\<lparr> mc_bulk := AList.update p (running c p + 1) (mc_bulk c), mc_timer := True, mc_attached := True, mc_runs := mc_runs c @ [(k, mc_index c)] \<rparr>)"
  by pat_completeness auto

termination
  by (relation "measure (\<lambda>(env, c). length (ce_specs env) - mc_index c)") (auto simp: has_fallback_def)

declare model_attempt.simps [simp del]

definition start_next :: "chain_env \<Rightarrow> chain \<Rightarrow> chain" where
  "start_next env c = model_attempt env (c\<lparr> mc_attached := False, mc_index := mc_index c + 1, mc_announce := False \<rparr>)"

text \<open>The client's observable ends once, and ending it detaches the model; what comes later for the client is
  dropped.  Only the failure of a model asks whether the client is still there: a timer does not.\<close>

definition end_with :: "chain_end \<Rightarrow> chain \<Rightarrow> chain" where
  "end_with x c = (if mc_ended c \<noteq> None then c else c\<lparr> mc_ended := Some x, mc_attached := False \<rparr>)"

definition start_chain :: "chain_env \<Rightarrow> (string \<times> nat) list \<Rightarrow> chain" where
  "start_chain env bulk = model_attempt env \<lparr> mc_index = 0, mc_attempt = 0, mc_announce = True, mc_answered = False, mc_timer = False,
     mc_attached = False, mc_ended = None, mc_bulk = bulk, mc_runs = [], mc_sent = [] \<rparr>"

section \<open>Steps\<close>

definition on_event :: "chain_env \<Rightarrow> nat \<Rightarrow> model_event \<Rightarrow> chain \<Rightarrow> chain" where
  "on_event env k ev c0 = (let c = (case ev of Produced _ \<Rightarrow> c0\<lparr> mc_answered := True, mc_timer := False \<rparr> | _ \<Rightarrow> c0) in
     if ev = RunStarted \<and> \<not> mc_announce c then c
     else if ev = RunErrored \<and> \<not> mc_answered c \<and> has_fallback env c then start_next env (c\<lparr> mc_timer := False \<rparr>)
     else if mc_ended c \<noteq> None then c
     else c\<lparr> mc_sent := mc_sent c @ [(k, ev)] \<rparr>)"

definition on_failure :: "chain_env \<Rightarrow> string \<Rightarrow> chain \<Rightarrow> chain" where
  "on_failure env e c0 = (let c = release_bulkhead env (c0\<lparr> mc_timer := False \<rparr>) in
     if mc_ended c \<noteq> None then c
     else if \<not> mc_answered c \<and> has_fallback env c then start_next env c else end_with (EndError e) c)"

definition on_timer :: "chain_env \<Rightarrow> chain \<Rightarrow> chain" where
  "on_timer env c0 = (let c = release_bulkhead env (c0\<lparr> mc_timer := False \<rparr>) in
     if mc_answered c then c
     else if has_fallback env c then start_next env c else end_with (EndError ''Model did not respond'') c)"

text \<open>A model that is not attached is not heard; the timer of an attempt runs until it is cleared.\<close>

fun chain_step :: "chain_env \<Rightarrow> chain_input \<Rightarrow> chain \<Rightarrow> chain" where
  "chain_step env (FromModel k ev) c = (if k = mc_attempt c \<and> mc_attached c then on_event env k ev c else c)"
| "chain_step env (ModelFailed k e) c = (if k = mc_attempt c \<and> mc_attached c then on_failure env e c else c)"
| "chain_step env (ModelDone k) c = (if k = mc_attempt c \<and> mc_attached c then end_with EndDone (c\<lparr> mc_timer := False \<rparr>) else c)"
| "chain_step env (FirstByte k) c = (if k = mc_attempt c \<and> mc_timer c then on_timer env c else c)"
| "chain_step env Unsubscribed c = end_with EndLeft c"

inductive chain_reachable :: "chain_env \<Rightarrow> chain \<Rightarrow> bool" for env where
  start: "chain_reachable env (start_chain env bulk)"
| step: "chain_reachable env c \<Longrightarrow> chain_reachable env (chain_step env i c)"

section \<open>Invariant\<close>

text \<open>The attempt that runs is the last one started; the models start in the order of the chain, each once;
  and output comes from the attempt that runs, which then has answered.\<close>

definition chain_ok :: "chain_env \<Rightarrow> chain \<Rightarrow> bool" where
  "chain_ok env c \<longleftrightarrow> mc_runs c \<noteq> [] \<and> last (mc_runs c) = (mc_attempt c, mc_index c) \<and> mc_index c < length (ce_specs env)
     \<and> sorted_wrt (<) (map snd (mc_runs c)) \<and> sorted_wrt (<) (map fst (mc_runs c))
     \<and> (mc_answered c \<longrightarrow> \<not> mc_timer c)
     \<and> (\<forall>k x. (k, Produced x) \<in> set (mc_sent c) \<longrightarrow> k = mc_attempt c \<and> mc_answered c)
     \<and> (\<forall>k. (k, RunErrored) \<in> set (mc_sent c) \<longrightarrow> k = mc_attempt c \<and> (mc_answered c \<or> \<not> has_fallback env c))
     \<and> (\<forall>e. mc_ended c = Some (EndError e) \<longrightarrow> mc_answered c \<or> \<not> has_fallback env c)"

text \<open>What a new attempt keeps, and where it ends.\<close>

definition runs_below :: "chain \<Rightarrow> bool" where
  "runs_below c \<longleftrightarrow> sorted_wrt (<) (map snd (mc_runs c)) \<and> sorted_wrt (<) (map fst (mc_runs c))
     \<and> (\<forall>r\<in>set (mc_runs c). fst r \<le> mc_attempt c \<and> snd r < mc_index c)"

lemma attempt_keeps: "mc_sent (model_attempt env c) = mc_sent c \<and> mc_ended (model_attempt env c) = mc_ended c"
proof (induction env c rule: model_attempt.induct)
  case (1 env c0)
  then show ?case by (subst (1 2) model_attempt.simps) (auto simp: Let_def)
qed

lemma attempt_runs: "\<forall>r\<in>set (mc_runs (model_attempt env c)). r \<in> set (mc_runs c) \<or> mc_index c \<le> snd r"
proof (induction env c rule: model_attempt.induct)
  case (1 env c0)
  define k c p where "k = mc_attempt c0 + 1" and "c = c0\<lparr> mc_attempt := k, mc_answered := False, mc_timer := False, mc_attached := False \<rparr>"
    and "p = provider_at env (mc_index c)"
  note d = model_attempt.simps [of env c0, unfolded Let_def, folded k_def, folded c_def, folded p_def]
  show ?case
  proof (cases "(ce_open env k p \<or> running c p \<ge> ce_max env) \<and> has_fallback env c")
    case True
    have "model_attempt env c0 = model_attempt env (c\<lparr> mc_index := mc_index c + 1, mc_announce := False \<rparr>)" by (simp only: d if_P [OF True])
    then show ?thesis using 1 [OF k_def c_def p_def True] by (auto simp: c_def dest: Suc_leD)
  next
    case False
    show ?thesis by (simp add: d if_not_P [OF False]) (simp add: c_def)
  qed
qed

lemma attempt_ok:
  assumes "runs_below c" "mc_index c < length (ce_specs env)" "\<forall>k ev. (k, ev) \<in> set (mc_sent c) \<longrightarrow> (\<nexists>x. ev = Produced x) \<and> ev \<noteq> RunErrored"
    and "\<forall>e. mc_ended c \<noteq> Some (EndError e)"
  shows "chain_ok env (model_attempt env c)"
  using assms
proof (induction env c rule: model_attempt.induct)
  case (1 env c0)
  define k c p where "k = mc_attempt c0 + 1" and "c = c0\<lparr> mc_attempt := k, mc_answered := False, mc_timer := False, mc_attached := False \<rparr>"
    and "p = provider_at env (mc_index c)"
  note d = model_attempt.simps [of env c0, unfolded Let_def, folded k_def, folded c_def, folded p_def]
  have below: "\<forall>r\<in>set (mc_runs c). fst r < k \<and> snd r < mc_index c" using 1(2) by (auto simp: runs_below_def c_def k_def)
  show ?case
  proof (cases "(ce_open env k p \<or> running c p \<ge> ce_max env) \<and> has_fallback env c")
    case True
    have "chain_ok env (model_attempt env (c\<lparr> mc_index := mc_index c + 1, mc_announce := False \<rparr>))"
    proof (rule 1(1) [OF k_def c_def p_def True])
      show "runs_below (c\<lparr> mc_index := mc_index c + 1, mc_announce := False \<rparr>)"
        using 1(2) below by (auto simp: runs_below_def c_def less_Suc_eq)
    qed (use 1 True in \<open>auto simp: has_fallback_def c_def\<close>)
    then show ?thesis by (simp only: d if_P [OF True])
  next
    case False
    have "model_attempt env c0 = c\<lparr> mc_bulk := AList.update p (running c p + 1) (mc_bulk c), mc_timer := True, mc_attached := True, mc_runs := mc_runs c @ [(k, mc_index c)] \<rparr>"
      by (simp only: d if_not_P [OF False])
    then show ?thesis using 1(2-) below
      by (auto simp: chain_ok_def runs_below_def c_def sorted_wrt_append)
  qed
qed

lemma last_largest: "\<lbrakk> sorted_wrt (<) (map f xs); x \<in> set xs \<rbrakk> \<Longrightarrow> x = last xs \<or> f x < (f (last xs) :: nat)"
  by (induction xs rule: rev_induct) (auto simp: sorted_wrt_append)

lemma runs_before_last:
  assumes "chain_ok env c" "r \<in> set (mc_runs c)"
  shows "fst r \<le> mc_attempt c \<and> snd r \<le> mc_index c"
proof -
  have "last (mc_runs c) = (mc_attempt c, mc_index c)" using assms(1) by (simp add: chain_ok_def)
  then show ?thesis
    using last_largest [of fst "mc_runs c" r] last_largest [of snd "mc_runs c" r] assms by (auto simp: chain_ok_def)
qed

lemma next_ok:
  assumes "chain_ok env c" "\<not> mc_answered c" "has_fallback env c"
  shows "chain_ok env (start_next env c)"
  unfolding start_next_def
proof (rule attempt_ok)
  show "runs_below (c\<lparr> mc_attached := False, mc_index := mc_index c + 1, mc_announce := False \<rparr>)"
    using assms(1) runs_before_last [OF assms(1)] by (auto simp: runs_below_def chain_ok_def less_Suc_eq_le)
qed (use assms in \<open>auto simp: chain_ok_def has_fallback_def\<close>)

lemma release_frame: "mc_index (release_bulkhead env c) = mc_index c \<and> mc_attempt (release_bulkhead env c) = mc_attempt c
    \<and> mc_answered (release_bulkhead env c) = mc_answered c \<and> mc_timer (release_bulkhead env c) = mc_timer c
    \<and> mc_runs (release_bulkhead env c) = mc_runs c \<and> mc_sent (release_bulkhead env c) = mc_sent c \<and> mc_ended (release_bulkhead env c) = mc_ended c
    \<and> has_fallback env (release_bulkhead env c) = has_fallback env c"
  by (simp add: release_bulkhead_def Let_def has_fallback_def)

lemma release_ok: "chain_ok env (release_bulkhead env c) \<longleftrightarrow> chain_ok env c"
  by (simp add: chain_ok_def release_frame)

lemma quiet_timer_ok: "chain_ok env c \<Longrightarrow> chain_ok env (c\<lparr> mc_timer := False \<rparr>)"
  by (simp add: chain_ok_def has_fallback_def)

lemma end_ok: "\<lbrakk> chain_ok env c; \<And>e. x = EndError e \<Longrightarrow> mc_answered c \<or> \<not> has_fallback env c \<rbrakk> \<Longrightarrow> chain_ok env (end_with x c)"
  by (auto simp: end_with_def chain_ok_def has_fallback_def)

lemma event_ok: "chain_ok env c \<Longrightarrow> chain_ok env (on_event env (mc_attempt c) ev c)"
proof -
  assume c: "chain_ok env c"
  show ?thesis
  proof (cases "ev = RunErrored \<and> \<not> mc_answered c \<and> has_fallback env c")
    case True
    then show ?thesis using next_ok [OF quiet_timer_ok [OF c]] by (simp add: on_event_def has_fallback_def)
  next
    case False
    then show ?thesis using c by (cases ev) (auto simp: on_event_def chain_ok_def has_fallback_def Let_def)
  qed
qed

lemma step_ok: "chain_ok env c \<Longrightarrow> chain_ok env (chain_step env i c)"
proof -
  assume c: "chain_ok env c"
  have q: "chain_ok env (release_bulkhead env (c\<lparr> mc_timer := False \<rparr>))" by (simp add: release_ok quiet_timer_ok c)
  have f: "chain_ok env (on_failure env e c)" for e
    unfolding on_failure_def Let_def by (auto intro!: q next_ok end_ok)
  have t: "chain_ok env (on_timer env c)"
    unfolding on_timer_def Let_def by (auto intro!: q next_ok end_ok)
  have d: "chain_ok env (end_with EndDone (c\<lparr> mc_timer := False \<rparr>))" "chain_ok env (end_with EndLeft c)"
    using c by (auto intro!: end_ok quiet_timer_ok)
  show ?thesis using c f t d event_ok [OF c] by (cases i) auto
qed

lemma start_ok: "ce_specs env \<noteq> [] \<Longrightarrow> chain_ok env (start_chain env bulk)"
  unfolding start_chain_def by (rule attempt_ok) (auto simp: runs_below_def)

lemma reachable_ok: "\<lbrakk> chain_reachable env c; ce_specs env \<noteq> [] \<rbrakk> \<Longrightarrow> chain_ok env c"
  by (induction rule: chain_reachable.induct) (simp_all add: start_ok step_ok)

section \<open>Properties\<close>

text \<open>C19: a run of the chain answers with one model.  In any interleaving of the events of the models, the
  timer and the client, each specifier is started at most once; all output that the client sees comes from
  one attempt, and no model is started after it; and the client sees a failure only when that attempt had
  answered, or the last specifier was reached.\<close>
theorem chain_answers_once:
  assumes "chain_reachable env c" "ce_specs env \<noteq> []"
  shows "distinct (map snd (mc_runs c)) \<and> length (mc_runs c) \<le> length (ce_specs env)
    \<and> (\<forall>k x. (k, Produced x) \<in> set (mc_sent c) \<longrightarrow> k = fst (last (mc_runs c)))
    \<and> ((\<exists>k. (k, RunErrored) \<in> set (mc_sent c)) \<or> (\<exists>e. mc_ended c = Some (EndError e))
        \<longrightarrow> mc_answered c \<or> mc_index c + 1 = length (ce_specs env))"
proof -
  have o1: "chain_ok env c" using assms by (rule reachable_ok)
  have d: "distinct (map snd (mc_runs c))" using o1 by (auto simp: chain_ok_def strict_sorted_iff)
  have "mc_index c < length (ce_specs env)" using o1 by (simp add: chain_ok_def)
  then have "set (map snd (mc_runs c)) \<subseteq> {..<length (ce_specs env)}" using runs_before_last [OF o1] by fastforce
  then have "card (set (map snd (mc_runs c))) \<le> length (ce_specs env)" by (metis card_lessThan card_mono finite_lessThan)
  then have "length (mc_runs c) \<le> length (ce_specs env)" using distinct_card [OF d] by simp
  then show ?thesis using o1 d by (auto simp: chain_ok_def has_fallback_def)
qed

definition two_models :: chain_env where
  "two_models = \<lparr> ce_specs = [''a/one'', ''b/two''], ce_max = 2, ce_open = (\<lambda>k p. False) \<rparr>"

theorem chain_answers_once_witness:
  "\<exists>c. chain_reachable two_models c \<and> mc_sent c = [(2, Produced ''text'')] \<and> length (mc_runs c) \<le> 2"
proof -
  let ?c = "chain_step two_models (FromModel 2 (Produced ''text'')) (chain_step two_models (FirstByte 1) (start_chain two_models []))"
  have r: "chain_reachable two_models ?c" by (intro chain_reachable.intros)
  have "mc_sent ?c = [(2, Produced ''text'')]" by code_simp
  moreover have "ce_specs two_models = [''a/one'', ''b/two'']" by (simp add: two_models_def)
  ultimately show ?thesis using chain_answers_once [OF r] r by auto
qed

section \<open>The bulkhead\<close>

text \<open>One answered run, and \<open>n\<close> of them one after the other.\<close>

definition answered_run :: "chain_env \<Rightarrow> (string \<times> nat) list \<Rightarrow> (string \<times> nat) list" where
  "answered_run env bulk = (let c = start_chain env bulk in
     mc_bulk (chain_step env (ModelDone (mc_attempt c)) (chain_step env (FromModel (mc_attempt c) (Produced [])) c)))"

lemma start_primary:
  assumes "(case map_of b (provider_at env 0) of None \<Rightarrow> 0 | Some n \<Rightarrow> n) < ce_max env" "\<not> ce_open env 1 (provider_at env 0)"
  shows "map_of (answered_run env b) (provider_at env 0) = Some ((case map_of b (provider_at env 0) of None \<Rightarrow> 0 | Some n \<Rightarrow> n) + 1)"
proof -
  let ?p = "provider_at env 0"
  have s: "start_chain env b = \<lparr> mc_index = 0, mc_attempt = 1, mc_announce = True, mc_answered = False, mc_timer = True, mc_attached = True, mc_ended = None,
      mc_bulk = AList.update ?p ((case map_of b ?p of None \<Rightarrow> 0 | Some n \<Rightarrow> n) + 1) b, mc_runs = [(1, 0)], mc_sent = [] \<rparr>"
    using assms unfolding start_chain_def by (subst model_attempt.simps) (simp add: Let_def running_def)
  show ?thesis by (simp add: answered_run_def s Let_def on_event_def end_with_def map_of_update)
qed

text \<open>A run that answers never gives its place in the bulkhead back: after as many answered runs as the
  bulkhead has places, the first model of the chain is not started any more while a fallback is configured,
  although nothing is running.\<close>
theorem bulkhead_leaks:
  assumes "2 \<le> length (ce_specs env)" "\<not> ce_open env 1 (provider_at env 0)"
  shows "\<forall>r\<in>set (mc_runs (start_chain env ((answered_run env ^^ ce_max env) []))). snd r \<noteq> 0"
proof -
  let ?p = "provider_at env 0"
  have n: "m \<le> ce_max env \<Longrightarrow> (case map_of ((answered_run env ^^ m) []) ?p of None \<Rightarrow> 0 | Some n \<Rightarrow> n) = m" for m
    by (induction m) (use start_primary [OF _ assms(2)] in \<open>auto\<close>)
  let ?c = "\<lparr> mc_index = 0, mc_attempt = 1, mc_announce = True, mc_answered = False, mc_timer = False, mc_attached = False, mc_ended = None,
    mc_bulk = (answered_run env ^^ ce_max env) [], mc_runs = [], mc_sent = [] \<rparr>"
  have "start_chain env ((answered_run env ^^ ce_max env) []) = model_attempt env (?c\<lparr> mc_index := 1, mc_announce := False \<rparr>)"
    using assms n [of "ce_max env"] unfolding start_chain_def by (subst model_attempt.simps) (simp add: Let_def running_def has_fallback_def)
  then show ?thesis using attempt_runs [of env "?c\<lparr> mc_index := 1, mc_announce := False \<rparr>"] by fastforce
qed

theorem bulkhead_leaks_witness:
  "\<forall>r\<in>set (mc_runs (start_chain two_models ((answered_run two_models ^^ 2) []))). snd r \<noteq> 0"
  using bulkhead_leaks [of two_models] by (simp add: two_models_def)

text \<open>A client that leaves before the first byte does not stop the chain: the timer starts the next model.\<close>

lemma timer_restarts_left_chain:
  "mc_runs (chain_step two_models (FirstByte 1) (chain_step two_models Unsubscribed (start_chain two_models []))) = [(1, 0), (2, 1)]"
  by code_simp

end
