(* ===== verification/Triggers.thy ===== *)
theory Triggers
  imports TaskProps
begin

text \<open>
  The triggers of procedures (apps/server/src/engine/sop-triggers.ts) and the pass of maintenance that
  evaluates them (\<open>maintain\<close> of service.ts): the schedules, the minute a schedule fires in, and the mails
  whose subject or body matches.  An instant is in milliseconds; its UTC fields are computed as JavaScript
  does.  A regular expression and the mails of an owner are arguments.
\<close>

section \<open>UTC fields of an instant\<close>

definition utc_minutes :: "int \<Rightarrow> int" where
  "utc_minutes t = t div 60000 mod 60"

definition utc_hours :: "int \<Rightarrow> int" where
  "utc_hours t = t div 3600000 mod 24"

definition utc_weekday :: "int \<Rightarrow> int" where
  "utc_weekday t = (t div 86400000 + 4) mod 7"

text \<open>Year, month and day of the month, from the days since the first of March of year 0.\<close>

definition civil :: "int \<Rightarrow> int \<times> int \<times> int" where
  "civil day = (let z = day + 719468; era = z div 146097; doe = z mod 146097;
       yoe = (doe - doe div 1460 + doe div 36524 - doe div 146096) div 365;
       doy = doe - (365 * yoe + yoe div 4 - yoe div 100); mp = (5 * doy + 2) div 153;
       m = (if mp < 10 then mp + 3 else mp - 9)
     in (yoe + era * 400 + (if m \<le> 2 then 1 else 0), m, doy - (153 * mp + 2) div 5 + 1))"

definition utc_date :: "int \<Rightarrow> int" where
  "utc_date t = snd (snd (civil (t div 86400000)))"

definition padded :: "nat \<Rightarrow> int \<Rightarrow> string" where
  "padded w n = (let s = nat_text (nat n) in replicate (w - length s) (CHR ''0'') @ s)"

text \<open>\<open>toISOString\<close>, up to the minute and in full.\<close>

definition iso_minute :: "int \<Rightarrow> string" where
  "iso_minute m = (case civil (m div 1440) of (y, mo, d) \<Rightarrow> padded 4 y @ ''-'' @ padded 2 mo @ ''-'' @ padded 2 d @ ''T''
     @ padded 2 (m div 60 mod 24) @ '':'' @ padded 2 (m mod 60))"

definition iso_text :: "int \<Rightarrow> string" where
  "iso_text t = iso_minute (t div 60000) @ '':'' @ padded 2 (t div 1000 mod 60) @ ''.'' @ padded 3 (t mod 1000) @ ''Z''"

lemma civil_samples: "civil 0 = (1970, 1, 1)" "civil 11016 = (2000, 2, 29)" "civil 19782 = (2024, 2, 29)" "civil 20148 = (2025, 3, 1)"
  by code_simp+

section \<open>Schedules\<close>

datatype cron = EveryMinutes nat | EveryHours nat | Daily nat nat | Weekly nat nat nat | Monthly nat nat nat

definition cron_error :: "string \<Rightarrow> err" where
  "cron_error m = AppError m 422"

text \<open>One or two digits; exactly two digits; \<open>HH:MM\<close>; a prefix taken off.\<close>

definition short_number :: "string \<Rightarrow> nat option" where
  "short_number s = (if digits s \<and> length s \<le> 2 then Some (digits_value s) else None)"

definition two_digits :: "string \<Rightarrow> nat option" where
  "two_digits s = (if digits s \<and> length s = 2 then Some (digits_value s) else None)"

definition clock_time :: "string \<Rightarrow> (nat \<times> nat) option" where
  "clock_time s = (if length s = 5 \<and> s ! 2 = CHR '':'' then (case (two_digits (take 2 s), two_digits (drop 3 s)) of
     (Some h, Some m) \<Rightarrow> Some (h, m) | _ \<Rightarrow> None) else None)"

definition after_prefix :: "string \<Rightarrow> string \<Rightarrow> string option" where
  "after_prefix p s = (if str_starts p s then Some (drop (length p) s) else None)"

definition weekdays :: "(string \<times> nat) list" where
  "weekdays = [(''sun'', 0), (''mon'', 1), (''tue'', 2), (''wed'', 3), (''thu'', 4), (''fri'', 5), (''sat'', 6)]"

definition every :: "char \<Rightarrow> string \<Rightarrow> nat option" where
  "every u s = (case after_prefix ''every:'' s of None \<Rightarrow> None
     | Some r \<Rightarrow> if r \<noteq> [] \<and> last r = u then short_number (butlast r) else None)"

definition daily :: "string \<Rightarrow> (nat \<times> nat) option" where
  "daily s = Option.bind (after_prefix ''daily:'' s) clock_time"

definition weekly :: "string \<Rightarrow> (nat \<times> nat \<times> nat) option" where
  "weekly s = (case after_prefix ''weekly:'' s of None \<Rightarrow> None
     | Some r \<Rightarrow> (case (map_of weekdays (take 3 r), after_prefix '':'' (drop 3 r)) of
         (Some w, Some x) \<Rightarrow> map_option (\<lambda>(h, m). (w, h, m)) (clock_time x) | _ \<Rightarrow> None))"

definition monthly :: "string \<Rightarrow> (nat \<times> nat \<times> nat) option" where
  "monthly s = (case after_prefix ''monthly:'' s of None \<Rightarrow> None
     | Some r \<Rightarrow> (let day = takeWhile (\<lambda>c. c \<noteq> CHR '':'') r in
         case (short_number day, after_prefix '':'' (drop (length day) r)) of
           (Some d, Some x) \<Rightarrow> map_option (\<lambda>(h, m). (d, h, m)) (clock_time x) | _ \<Rightarrow> None))"

definition bad_time :: "nat \<Rightarrow> nat \<Rightarrow> bool" where
  "bad_time h m \<longleftrightarrow> h > 23 \<or> m > 59"

definition parse_cron :: "string \<Rightarrow> cron res" where
  "parse_cron value = (let s = trim value in
     case every (CHR ''m'') s of Some n \<Rightarrow> if n < 1 \<or> n > 59 then Inl (cron_error ''Cron 'every:Nm' requires N between 1 and 59'') else Inr (EveryMinutes n)
   | None \<Rightarrow> (case every (CHR ''h'') s of Some n \<Rightarrow> if n < 1 \<or> n > 23 then Inl (cron_error ''Cron 'every:Nh' requires N between 1 and 23'') else Inr (EveryHours n)
   | None \<Rightarrow> (case daily s of Some (h, m) \<Rightarrow> if bad_time h m then Inl (cron_error ''Cron 'daily:HH:MM' requires valid time'') else Inr (Daily h m)
   | None \<Rightarrow> (case weekly s of Some (w, h, m) \<Rightarrow> if bad_time h m then Inl (cron_error ''Cron 'weekly:DAY:HH:MM' requires valid time'') else Inr (Weekly w h m)
   | None \<Rightarrow> (case monthly s of Some (d, h, m) \<Rightarrow>
         if d < 1 \<or> d > 28 then Inl (cron_error ''Cron 'monthly:DD:HH:MM' requires DD between 1 and 28'')
         else if bad_time h m then Inl (cron_error ''Cron 'monthly:DD:HH:MM' requires valid time'') else Inr (Monthly d h m)
   | None \<Rightarrow> Inl (cron_error (''Unsupported cron value '' @ [CHR 0x22] @ value @ [CHR 0x22]
       @ ''. Use every:Nm, every:Nh, daily:HH:MM, weekly:day:HH:MM or monthly:DD:HH:MM'')))))))"

fun cron_matches :: "cron \<Rightarrow> int \<Rightarrow> bool" where
  "cron_matches (EveryMinutes n) t \<longleftrightarrow> utc_minutes t mod int n = 0"
| "cron_matches (EveryHours n) t \<longleftrightarrow> utc_hours t mod int n = 0 \<and> utc_minutes t = 0"
| "cron_matches (Daily h m) t \<longleftrightarrow> utc_hours t = int h \<and> utc_minutes t = int m"
| "cron_matches (Weekly w h m) t \<longleftrightarrow> utc_weekday t = int w \<and> utc_hours t = int h \<and> utc_minutes t = int m"
| "cron_matches (Monthly d h m) t \<longleftrightarrow> utc_date t = int d \<and> utc_hours t = int h \<and> utc_minutes t = int m"

section \<open>Evaluation\<close>

definition trigger_field :: "json \<Rightarrow> string \<Rightarrow> string" where
  "trigger_field sop k = (case jget sop ''trigger'' of None \<Rightarrow> [] | Some t \<Rightarrow> text_or_empty t k)"

definition trigger_state :: "'s agent_env \<Rightarrow> string \<Rightarrow> string \<Rightarrow> ('s, json) op" where
  "trigger_state env ow i = then_do (get_row env ow ''sop-trigger-state'' i) (\<lambda>r.
     give (case r of None \<Rightarrow> JObj [(''id'', JStr i)] | Some st \<Rightarrow> st))"

definition cron_task :: "int \<Rightarrow> json \<Rightarrow> json" where
  "cron_task now sop = JObj [(''kind'', JStr ''sop''), (''title'', JStr (text_or_empty sop ''name'' @ '' (cron)'')),
     (''prompt'', JStr (''Scheduled trigger for '' @ text_or_empty sop ''name'' @ '' at '' @ iso_text now)),
     (''input'', JObj [(''sopId'', JStr (jid sop)), (''trigger'', JObj [(''type'', JStr ''cron''), (''firedAt'', JDate now)])])]"

definition evaluate_cron :: "'s agent_env \<Rightarrow> string \<Rightarrow> json \<Rightarrow> ('s, nat) op" where
  "evaluate_cron env ow sop = (if trim (trigger_field sop ''value'') = [] then give 0
     else case parse_cron (trigger_field sop ''value'') of Inl _ \<Rightarrow> give 0
     | Inr c \<Rightarrow> if \<not> cron_matches c (an_now env) then give 0
       else then_do (trigger_state env ow (jid sop)) (\<lambda>st. let bucket = take 16 (iso_text (an_now env)) in
         if jget st ''lastFiredAt'' = Some (JStr bucket) then give 0
         else then_do (create_task env ow (cron_task (an_now env) sop) (Some (''sop-cron:'' @ jid sop @ '':'' @ bucket)) False) (\<lambda>_.
           then_do (put_row env ow ''sop-trigger-state'' (jset ''lastFiredAt'' (JStr bucket) st)) (\<lambda>_. give 1))))"

record trigger_mail =
  tm_id :: string
  tm_subject :: string
  tm_body :: string
  tm_thread :: string

definition mail_task :: "json \<Rightarrow> trigger_mail \<Rightarrow> json" where
  "mail_task sop m = JObj [(''kind'', JStr ''sop''), (''title'', JStr (text_or_empty sop ''name'' @ '': '' @ take 80 (tm_subject m))),
     (''prompt'', JStr (''Triggered by email subject match: '' @ tm_subject m)),
     (''input'', JObj [(''sopId'', JStr (jid sop)), (''messageId'', JStr (tm_id m)), (''threadId'', JStr (tm_thread m)),
        (''trigger'', JObj [(''type'', JStr ''email_subject'')])])]"

text \<open>The loop over the mails: the messages seen, in order, and how many fired.\<close>

fun scan_mail :: "'s agent_env \<Rightarrow> string \<Rightarrow> json \<Rightarrow> (trigger_mail \<Rightarrow> bool) \<Rightarrow> trigger_mail list \<Rightarrow> string list \<Rightarrow> nat \<Rightarrow> ('s, string list \<times> nat) op" where
  "scan_mail env ow sop matches [] seen fired = give (seen, fired)"
| "scan_mail env ow sop matches (m # ms) seen fired = (if tm_id m \<in> set seen then scan_mail env ow sop matches ms seen fired
     else if \<not> matches m then scan_mail env ow sop matches ms (seen @ [tm_id m]) fired
     else then_do (create_task env ow (mail_task sop m) (Some (''sop-email:'' @ jid sop @ '':'' @ tm_id m)) False) (\<lambda>_.
       scan_mail env ow sop matches ms (seen @ [tm_id m]) (fired + 1)))"

definition seen_mails :: "json \<Rightarrow> string list" where
  "seen_mails st = first_seen (List.map_filter as_text (jarr (jget st ''seenMessageIds'')))"

text \<open>\<open>regex p\<close> is \<open>new RegExp(p, "i")\<close>, \<open>None\<close> when it throws; \<open>mails\<close> is \<open>None\<close> when the mailbox cannot be read.\<close>

definition evaluate_mail :: "'s agent_env \<Rightarrow> (string \<Rightarrow> (string \<Rightarrow> bool) option) \<Rightarrow> trigger_mail list option \<Rightarrow> bool \<Rightarrow> string \<Rightarrow> json \<Rightarrow> ('s, nat) op" where
  "evaluate_mail env regex mails body ow sop = (let p = trim (trigger_field sop ''value'') in if p = [] then give 0
     else case regex p of None \<Rightarrow> give 0
     | Some test \<Rightarrow> then_do (trigger_state env ow (jid sop)) (\<lambda>st. case mails of None \<Rightarrow> give 0
       | Some ms \<Rightarrow> then_do (scan_mail env ow sop (\<lambda>m. test (if body then tm_body m else tm_subject m)) ms (seen_mails st) 0) (\<lambda>(seen, fired).
           if seen = seen_mails st then give fired
           else then_do (put_row env ow ''sop-trigger-state'' (jset ''seenMessageIds'' (JArr (map JStr (drop (length seen - 1000) seen))) st)) (\<lambda>_. give fired))))"

definition evaluate_trigger :: "'s agent_env \<Rightarrow> (string \<Rightarrow> (string \<Rightarrow> bool) option) \<Rightarrow> (string \<Rightarrow> trigger_mail list option) \<Rightarrow> string \<Rightarrow> json \<Rightarrow> ('s, nat) op" where
  "evaluate_trigger env regex mails ow sop = (if \<not> truthy (jget sop ''active'') then give 0
     else if trigger_field sop ''type'' = ''cron'' then evaluate_cron env ow sop
     else if trigger_field sop ''type'' = ''email_subject'' then evaluate_mail env regex (mails ow) False ow sop
     else if trigger_field sop ''type'' = ''email_body_match'' then evaluate_mail env regex (mails ow) True ow sop else give 0)"

section \<open>The pass of maintenance\<close>

text \<open>\<open>first_owner\<close> is the owner of the first row of agent-settings; the procedures are the first 200 of the
  scan, since the page by status is always empty.\<close>

definition state_owner :: "json \<Rightarrow> string option" where
  "state_owner sop = given_text (case jget sop ''state'' of None \<Rightarrow> None | Some st \<Rightarrow> jtext st ''owner'')"

definition sop_owner :: "('s \<Rightarrow> string option) \<Rightarrow> json \<Rightarrow> 's \<Rightarrow> string option" where
  "sop_owner first_owner sop s = (case state_owner sop of Some ow \<Rightarrow> Some ow | None \<Rightarrow> first_owner s)"

fun evaluate_sops :: "'s agent_env \<Rightarrow> (string \<Rightarrow> (string \<Rightarrow> bool) option) \<Rightarrow> (string \<Rightarrow> trigger_mail list option) \<Rightarrow> ('s \<Rightarrow> string option)
    \<Rightarrow> (string \<times> json) list \<Rightarrow> ('s, unit) op" where
  "evaluate_sops env regex mails first_owner [] = give ()"
| "evaluate_sops env regex mails first_owner ((ow, sop) # rows) =
     (if jget sop ''active'' = Some (JBool False) then evaluate_sops env regex mails first_owner rows
      else then_do (db_read (sop_owner first_owner sop)) (\<lambda>found.
        then_do (catching (then_do (evaluate_trigger env regex mails (case found of None \<Rightarrow> ow | Some x \<Rightarrow> x) sop) (\<lambda>_. give ())) (\<lambda>_. give ())) (\<lambda>_.
        evaluate_sops env regex mails first_owner rows)))"

section \<open>Properties\<close>

lemma padded_length: "w \<le> length (padded w n)"
  by (simp add: padded_def Let_def)

lemma bucket_of_minute: "take 16 (iso_text t) = take 16 (iso_minute (t div 60000))"
proof -
  obtain y mo d where c: "civil (t div 60000 div 1440) = (y, mo, d)" by (metis prod.collapse)
  have "16 \<le> length (iso_minute (t div 60000))"
    using padded_length [of 4 y] padded_length [of 2 mo] padded_length [of 2 d]
      padded_length [of 2 "t div 60000 div 60 mod 24"] padded_length [of 2 "t div 60000 mod 60"]
    by (simp add: iso_minute_def c)
  then show ?thesis by (simp add: iso_text_def)
qed

lemma trigger_state_after:
  assumes "an_store env = plain_store" "jid st = i"
  shows "trigger_state env ow i (g\<lparr> ag_store := st_put n ow ''sop-trigger-state'' st s \<rparr>) = (Inr st, g\<lparr> ag_store := st_put n ow ''sop-trigger-state'' st s \<rparr>)"
  using assms by (simp add: trigger_state_def op_simps st_get_put give_def)

text \<open>The rows of trigger states are stored under their own identifiers.\<close>

definition states_keyed :: "string \<Rightarrow> 's agent_env \<Rightarrow> json \<Rightarrow> 's agent \<Rightarrow> bool" where
  "states_keyed ow env sop g \<longleftrightarrow> (\<forall>st. s_get (an_store env) ow ''sop-trigger-state'' (jid sop) (ag_store g) = Some st \<longrightarrow> is_obj st \<and> jid st = jid sop)"

lemma trigger_state_keyed:
  assumes "states_keyed ow env sop g" "trigger_state env ow (jid sop) g = (Inr st, g')"
  shows "g' = g \<and> is_obj st \<and> jid st = jid sop"
  using assms by (auto simp: trigger_state_def op_simps give_def states_keyed_def jid_def jtext_def split: option.splits)

lemma jid_jset: "\<lbrakk> is_obj st; k \<noteq> ''id'' \<rbrakk> \<Longrightarrow> jid (jset k v st) = jid st"
  by (simp add: jid_def jtext_def jget_jset)

text \<open>C24: a schedule fires once in a minute.  When a procedure has fired, evaluating it again within the same
  minute creates nothing and changes nothing, whatever second it is and whatever else has changed in the
  environment.\<close>
theorem cron_fires_once:
  assumes "evaluate_cron env ow sop g = (Inr 1, g')" "an_store env = plain_store" "states_keyed ow env sop g"
    and "an_store env' = plain_store" "an_now env' div 60000 = an_now env div 60000"
  shows "evaluate_cron env' ow sop g' = (Inr 0, g')"
proof -
  let ?b = "take 16 (iso_text (an_now env))"
  have b: "take 16 (iso_text (an_now env')) = ?b" using assms(5) by (simp add: bucket_of_minute)
  obtain st g1 where st: "trigger_state env ow (jid sop) g = (Inr st, g1)" by (auto simp: trigger_state_def op_simps give_def)
  have k: "is_obj st" "jid (jset ''lastFiredAt'' (JStr ?b) st) = jid sop"
    using trigger_state_keyed [OF assms(3) st] by (simp_all add: jid_jset)
  obtain s where g': "g' = g'\<lparr> ag_store := st_put (an_clock env) ow ''sop-trigger-state'' (jset ''lastFiredAt'' (JStr ?b) st) s \<rparr>"
  proof -
    obtain t g2 where c: "create_task env ow (cron_task (an_now env) sop) (Some (''sop-cron:'' @ jid sop @ '':'' @ ?b)) False g1 = (Inr t, g2)"
      "then_do (put_row env ow ''sop-trigger-state'' (jset ''lastFiredAt'' (JStr ?b) st)) (\<lambda>_. give 1) g2 = (Inr 1, g')"
      using assms(1) st by (auto simp: evaluate_cron_def Let_def then_do_ok give_def split: if_splits sum.splits)
    then show ?thesis using that [of "ag_store g2"] assms(2) by (auto simp: op_simps give_def)
  qed
  have again: "trigger_state env' ow (jid sop) g' = (Inr (jset ''lastFiredAt'' (JStr ?b) st), g')"
    using trigger_state_after [OF assms(4) k(2), where g = g' and n = "an_clock env" and s = s and ow = ow] g' by simp
  have l: "jget (jset ''lastFiredAt'' (JStr ?b) st) ''lastFiredAt'' = Some (JStr ?b)" using k(1) by (simp add: jget_jset)
  show ?thesis
    using l b by (simp add: evaluate_cron_def Let_def then_do_def [of "trigger_state _ _ _"] again give_def split: sum.split)
qed

definition sample_trigger :: "string \<Rightarrow> string \<Rightarrow> json" where
  "sample_trigger ty v = JObj [(''id'', JStr ''p1''), (''name'', JStr ''Close''), (''active'', JBool True),
     (''trigger'', JObj [(''type'', JStr ty), (''value'', JStr v)])]"

text \<open>A desk on which the tasks of both triggers were created by an earlier attempt.\<close>

definition trigger_desk :: "table agent" where
  "trigger_desk = desk [((''u1'', ''tasks'', ''htask:sop-cron:p1:1970-01-01T00:00''), JObj [(''id'', JStr ''x'')], 1),
     ((''u1'', ''tasks'', ''htask:sop-email:p1:m1''), JObj [(''id'', JStr ''y'')], 1)]"

lemma fresh_states_keyed: "states_keyed ow desk_env sop trigger_desk"
  by (simp add: states_keyed_def desk_env_store trigger_desk_def desk_def st_get_def)

lemma create_task_found:
  assumes "read_create raw = Some inp" "create_checks env ow inp g = (Inr (), g)" "k \<noteq> []"
    and "s_get (an_store env) ow ''tasks'' (an_hash env (''task:'' @ k)) (ag_store g) = Some t"
  shows "create_task env ow raw (Some k) hold g = (Inr t, g)"
  using assms by (simp add: create_task_def then_do_def [of "create_checks _ _ _"] given_text_def op_simps create_under_def give_def)

lemmas read_eval = read_create_def opt_def req_def dflt_def trimmed_in_def trim_def is_blank_def len_in_def as_enum_def enum_of_def all_task_kinds_def

lemma sample_iso: "iso_text 500 = ''1970-01-01T00:00:00.500Z''"
  by (simp add: iso_text_def iso_minute_def padded_def civil_samples nat_text.simps char_of_def bit_Suc_0_iff)

lemma cron_task_made: "create_task desk_env ''u1'' (cron_task 500 (sample_trigger ''cron'' ''every:1m'')) (Some ''sop-cron:p1:1970-01-01T00:00'') False trigger_desk
    = (Inr (JObj [(''id'', JStr ''x'')]), trigger_desk)"
  by (rule create_task_found [where inp = "\<lparr> ct_title = Some ''Close (cron)'', ct_prompt = ''Scheduled trigger for Close at 1970-01-01T00:00:00.500Z'',
       ct_kind = KSop, ct_goal = None, ct_assigned = None, ct_role = None,
       ct_input = [(''sopId'', JStr ''p1''), (''trigger'', JObj [(''type'', JStr ''cron''), (''firedAt'', JDate 500)])] \<rparr>"])
     (simp_all add: read_eval cron_task_def sample_iso sample_trigger_def text_or_empty_def jtext_def jid_def create_checks_def given_text_def op_simps
        desk_env_def trigger_desk_def desk_def st_get_def give_def)

theorem cron_fires_once_witness:
  "\<exists>g'. evaluate_cron desk_env ''u1'' (sample_trigger ''cron'' ''every:1m'') trigger_desk = (Inr 1, g')
     \<and> evaluate_cron (desk_env\<lparr> an_now := 900 \<rparr>) ''u1'' (sample_trigger ''cron'' ''every:1m'') g' = (Inr 0, g')"
proof -
  let ?sop = "sample_trigger ''cron'' ''every:1m''"
  have n: "an_now desk_env = 500" by (simp add: desk_env_def)
  have v: "trigger_field ?sop ''value'' = ''every:1m''" "jid ?sop = ''p1''" by code_simp+
  have c: "parse_cron ''every:1m'' = Inr (EveryMinutes 1)" "trim ''every:1m'' \<noteq> []" "cron_matches (EveryMinutes 1) 500" by code_simp+
  have st: "trigger_state desk_env ''u1'' ''p1'' trigger_desk = (Inr (JObj [(''id'', JStr ''p1'')]), trigger_desk)"
    by (simp add: trigger_state_def op_simps desk_env_def trigger_desk_def desk_def st_get_def give_def)
  obtain g' where r: "evaluate_cron desk_env ''u1'' ?sop trigger_desk = (Inr 1, g')"
    using c n by (simp add: evaluate_cron_def v sample_iso Let_def then_do_def [of "trigger_state _ _ _"] st then_do_def [of "create_task _ _ _ _ _"] cron_task_made
      op_simps give_def)
  have "evaluate_cron (desk_env\<lparr> an_now := 900 \<rparr>) ''u1'' ?sop g' = (Inr 0, g')"
    by (rule cron_fires_once [OF r desk_env_store fresh_states_keyed]) (simp_all add: desk_env_def)
  then show ?thesis using r by blast
qed

lemma scan_seen:
  assumes "scan_mail env ow sop matches ms seen fired g = (Inr (seen', n), g')"
  shows "set seen' = set seen \<union> tm_id ` set ms \<and> (distinct seen \<longrightarrow> distinct seen')"
  using assms
proof (induction ms arbitrary: seen fired g)
  case (Cons m ms)
  then show ?case
    by (auto simp: then_do_ok split: if_splits)
qed (auto simp: give_def)

lemma scan_nothing_new: "tm_id ` set ms \<subseteq> set seen \<Longrightarrow> scan_mail env ow sop matches ms seen fired g = (Inr (seen, fired), g)"
  by (induction ms) (auto simp: give_def)

lemma first_seen_distinct: "distinct xs \<Longrightarrow> first_seen xs = xs"
  by (simp add: first_seen_def distinct_remdups_id)

lemma seen_stored: "\<lbrakk> distinct seen; is_obj st \<rbrakk> \<Longrightarrow> seen_mails (jset ''seenMessageIds'' (JArr (map JStr seen)) st) = seen"
  by (simp add: seen_mails_def jget_jset List.map_filter_def comp_def first_seen_distinct)

definition known_mails :: "'s agent_env \<Rightarrow> string \<Rightarrow> json \<Rightarrow> 's agent \<Rightarrow> string list" where
  "known_mails env ow sop g = (case s_get (an_store env) ow ''sop-trigger-state'' (jid sop) (ag_store g) of None \<Rightarrow> [] | Some st \<Rightarrow> seen_mails st)"

text \<open>A mail fires a procedure once.  After an evaluation over a mailbox, evaluating again over mails that
  were all in it creates nothing and changes nothing, as long as no more than a thousand messages are known.\<close>
theorem mail_fires_once:
  assumes "evaluate_mail env regex (Some ms) body ow sop g = (Inr n, g')" "an_store env = plain_store" "states_keyed ow env sop g"
    and "an_store env' = plain_store" "set ms' \<subseteq> set ms" "card (set (known_mails env ow sop g) \<union> tm_id ` set ms) \<le> 1000"
  shows "evaluate_mail env' regex (Some ms') body ow sop g' = (Inr 0, g')"
proof (cases "trim (trigger_field sop ''value'') = [] \<or> regex (trim (trigger_field sop ''value'')) = None")
  case True
  then show ?thesis using assms(1) by (auto simp: evaluate_mail_def Let_def give_def)
next
  case False
  then obtain test where test: "regex (trim (trigger_field sop ''value'')) = Some test" "trim (trigger_field sop ''value'') \<noteq> []" by auto
  let ?mt = "\<lambda>m. test (if body then tm_body m else tm_subject m)"
  obtain st g1 where st: "trigger_state env ow (jid sop) g = (Inr st, g1)" by (auto simp: trigger_state_def op_simps give_def)
  note k = trigger_state_keyed [OF assms(3) st]
  have known: "seen_mails st = known_mails env ow sop g"
    using st by (auto simp: trigger_state_def known_mails_def op_simps give_def seen_mails_def first_seen_def List.map_filter_def split: option.splits)
  obtain seen f g2 where sc: "scan_mail env ow sop ?mt ms (seen_mails st) 0 g1 = (Inr (seen, f), g2)"
    and rest: "(if seen = seen_mails st then give f else then_do (put_row env ow ''sop-trigger-state'' (jset ''seenMessageIds'' (JArr (map JStr (drop (length seen - 1000) seen))) st)) (\<lambda>_. give f)) g2 = (Inr n, g')"
    using assms(1) st test by (auto simp: evaluate_mail_def Let_def then_do_ok)
  have s: "set seen = set (seen_mails st) \<union> tm_id ` set ms" "distinct seen"
    using scan_seen [OF sc] by (auto simp: seen_mails_def distinct_first_seen)
  have "length seen \<le> 1000" using s assms(6) known by (metis distinct_card)
  then have d: "drop (length seen - 1000) seen = seen" by simp
  have sub: "tm_id ` set ms' \<subseteq> set seen" using assms(5) s(1) by auto
  obtain st' where st': "trigger_state env' ow (jid sop) g' = (Inr st', g')" "seen_mails st' = seen"
  proof (cases "seen = seen_mails st")
    case True
    have g: "\<not> (\<exists>m\<in>set ms. tm_id m \<notin> set (seen_mails st))" using s(1) True by auto
    then have "g2 = g1" using sc scan_nothing_new [of ms "seen_mails st" env ow sop ?mt 0 g1] by auto
    then have "g' = g" using rest True k by (simp add: give_def)
    moreover have "trigger_state env' ow (jid sop) g = (Inr st, g)"
      using st k assms(2,4) by (simp add: trigger_state_def op_simps give_def)
    ultimately show ?thesis using that True by simp
  next
    case False
    let ?st = "jset ''seenMessageIds'' (JArr (map JStr seen)) st"
    have "g' = g2\<lparr> ag_store := st_put (an_clock env) ow ''sop-trigger-state'' ?st (ag_store g2) \<rparr>"
      using rest False d assms(2) by (simp add: op_simps give_def)
    then have "trigger_state env' ow (jid sop) g' = (Inr ?st, g')"
      using trigger_state_after [OF assms(4), of ?st "jid sop"] k by (simp add: jid_jset)
    then show ?thesis using that s(2) k by (simp add: seen_stored)
  qed
  have "scan_mail env' ow sop ?mt ms' seen 0 g' = (Inr (seen, 0), g')" by (rule scan_nothing_new [OF sub])
  then show ?thesis using test st' by (simp add: evaluate_mail_def Let_def then_do_def give_def)
qed

lemma mail_task_made: "create_task desk_env ''u1'' (mail_task (sample_trigger ''email_subject'' ''s'') \<lparr> tm_id = ''m1'', tm_subject = ''s'', tm_body = ''b'', tm_thread = ''t'' \<rparr>)
    (Some ''sop-email:p1:m1'') False trigger_desk = (Inr (JObj [(''id'', JStr ''y'')]), trigger_desk)"
  by (rule create_task_found [where inp = "\<lparr> ct_title = Some ''Close: s'', ct_prompt = ''Triggered by email subject match: s'',
       ct_kind = KSop, ct_goal = None, ct_assigned = None, ct_role = None,
       ct_input = [(''sopId'', JStr ''p1''), (''messageId'', JStr ''m1''), (''threadId'', JStr ''t''), (''trigger'', JObj [(''type'', JStr ''email_subject'')])] \<rparr>"])
     (simp_all add: read_eval mail_task_def sample_trigger_def text_or_empty_def jtext_def jid_def create_checks_def given_text_def op_simps
        desk_env_def trigger_desk_def desk_def st_get_def give_def)

theorem mail_fires_once_witness:
  "\<exists>g'. evaluate_mail desk_env (\<lambda>p. Some (\<lambda>x. True)) (Some [\<lparr> tm_id = ''m1'', tm_subject = ''s'', tm_body = ''b'', tm_thread = ''t'' \<rparr>]) False ''u1''
       (sample_trigger ''email_subject'' ''s'') trigger_desk = (Inr 1, g')
     \<and> evaluate_mail desk_env (\<lambda>p. Some (\<lambda>x. True)) (Some [\<lparr> tm_id = ''m1'', tm_subject = ''s'', tm_body = ''b'', tm_thread = ''t'' \<rparr>]) False ''u1''
       (sample_trigger ''email_subject'' ''s'') g' = (Inr 0, g')"
proof -
  let ?sop = "sample_trigger ''email_subject'' ''s''"
  let ?e = "evaluate_mail desk_env (\<lambda>p. Some (\<lambda>x. True)) (Some [\<lparr> tm_id = ''m1'', tm_subject = ''s'', tm_body = ''b'', tm_thread = ''t'' \<rparr>]) False ''u1'' ?sop"
  have v: "trim (trigger_field ?sop ''value'') \<noteq> []" "jid ?sop = ''p1''" "seen_mails (JObj [(''id'', JStr ''p1'')]) = []" by code_simp+
  have st: "trigger_state desk_env ''u1'' ''p1'' trigger_desk = (Inr (JObj [(''id'', JStr ''p1'')]), trigger_desk)"
    by (simp add: trigger_state_def op_simps desk_env_def trigger_desk_def desk_def st_get_def give_def)
  obtain g' where r: "?e trigger_desk = (Inr 1, g')"
    using v(1) by (simp add: evaluate_mail_def v Let_def then_do_def [of "trigger_state _ _ _"] st then_do_def [of "create_task _ _ _ _ _"] mail_task_made
      then_do_def [of "scan_mail _ _ _ _ _ _ _"] then_do_def [of "if _ then _ else _"] op_simps give_def)
  have "?e g' = (Inr 0, g')"
    by (rule mail_fires_once [OF r desk_env_store fresh_states_keyed desk_env_store])
       (simp_all add: known_mails_def desk_env_store trigger_desk_def desk_def st_get_def)
  then show ?thesis using r by blast
qed

section \<open>What falls short\<close>

text \<open>A procedure without an owner of its own in \<open>state\<close>, which its schema does not have, runs for the first
  owner of the settings, whoever it belongs to.\<close>

lemma trigger_runs_for_first_owner:
  assumes "jget sop ''active'' \<noteq> Some (JBool False)" "state_owner sop = None" "first_owner (ag_store g) = Some ow1"
  shows "evaluate_sops env regex mails first_owner [(ow, sop)] g = evaluate_sops env regex mails first_owner [(ow1, sop)] g"
  using assms by (simp add: op_simps sop_owner_def)

text \<open>A procedure with a long name can never be created by its schedule: the title of the task is too long.\<close>

lemma long_name_never_fires:
  assumes "length (trim (text_or_empty sop ''name'' @ '' (cron)'')) > 160"
  shows "create_task env ow (cron_task now sop) k hold g = (Inl zod_error, g)"
  using assms by (simp add: create_task_def read_create_def cron_task_def opt_def trimmed_in_def len_in_def throw_def)

end
