(* ===== verification/MemoryProps.thy ===== *)
theory MemoryProps
  imports Memory GraphProps
begin

text \<open>
  What the memory guarantees: a text is remembered once, the removal of duplicates keeps the oldest of each,
  a plan is proposed as a procedure at its fifth success, and a context stays within its budget.  And where
  it falls short: what was forgotten is still recalled.
\<close>

section \<open>Remembering\<close>

lemma jid_new_memory [simp]: "jid (new_memory env x note) = memory_id env x"
  by (simp add: new_memory_def jid_def jtext_def)

lemma take_trim_Nil: "take 500 (trim x) = [] \<longleftrightarrow> trim x = []"
  by simp

text \<open>A text is remembered once: after a text was remembered, every text with the same normal form (the
  same letters in any case, the same words in any spacing) finds the memory that is there, whatever comes
  with it, and changes nothing.\<close>
theorem remembered_once:
  assumes "remember env plain_store ow x note s = (Inr (m, new), s')" "trim y \<noteq> []"
    and "squeeze (map lower_char (take 500 (trim y))) = squeeze (map lower_char (take 500 (trim x)))" "my_hash env' = my_hash env"
  shows "remember env' plain_store ow y note' s' = (Inr (m, False), s')"
proof -
  let ?i = "memory_id env (take 500 (trim x))"
  have i: "memory_id env' (take 500 (trim y)) = ?i" using assms(3,4) by (simp add: memory_id_def)
  have "st_get ow ''memories'' ?i s' = Some m"
  proof (cases "st_get ow ''memories'' ?i s")
    case None
    then show ?thesis
      using assms(1) st_get_insert [of ow "''memories''" ?i "my_clock env" ow "''memories''" "new_memory env (take 500 (trim x)) note" s]
      by (auto simp: remember_def Let_def split: prod.splits if_splits option.splits)
  next
    case (Some old)
    then show ?thesis using assms(1) by (auto simp: remember_def Let_def split: if_splits)
  qed
  then show ?thesis using i assms(2) by (simp add: remember_def Let_def)
qed

definition plain_memory :: memory_env where
  "plain_memory = \<lparr> my_clock = 1, my_now = 1, my_hash = (\<lambda>x. x), my_log = (\<lambda>n. 0) \<rparr>"

definition no_note :: memory_note where
  "no_note = \<lparr> mn_source = None, mn_category = None, mn_tags = [] \<rparr>"

theorem remembered_once_witness:
  "\<exists>m s'. remember plain_memory plain_store ''u1'' ''A fact'' no_note [] = (Inr (m, True), s')
     \<and> remember plain_memory plain_store ''u1'' '' a  FACT'' no_note s' = (Inr (m, False), s')"
proof -
  have v: "take 500 (trim ''A fact'') = ''A fact''" "take 500 (trim '' a  FACT'') = ''a  FACT''"
    by (simp_all add: trim_def is_blank_def)
  have n: "squeeze (map lower_char ''A fact'') = ''a fact''" "squeeze (map lower_char ''a  FACT'') = ''a fact''" by code_simp+
  have "\<exists>m s'. remember plain_memory plain_store ''u1'' ''A fact'' no_note [] = (Inr (m, True), s')"
    unfolding remember_def v Let_def by (auto simp: st_get_def split: prod.split)
  then obtain m s' where r: "remember plain_memory plain_store ''u1'' ''A fact'' no_note [] = (Inr (m, True), s')" by blast
  have "remember plain_memory plain_store ''u1'' '' a  FACT'' no_note s' = (Inr (m, False), s')"
    by (rule remembered_once [OF r]) (use v n in \<open>auto simp: trim_def is_blank_def\<close>)
  then show ?thesis using r by blast
qed

section \<open>Duplicates\<close>

text \<open>The elements of a list whose key was seen before.\<close>

fun repeated :: "string set \<Rightarrow> json list \<Rightarrow> json list" where
  "repeated seen [] = []"
| "repeated seen (m # ms) = (if memory_key m \<in> seen then m # repeated seen ms else repeated (insert (memory_key m) seen) ms)"

lemma dedup_repeated: "dedup_from S ow ms seen n s
    = (n + length (repeated (set seen) ms), fold (\<lambda>m. s_remove S ow ''memories'' (jid m)) (repeated (set seen) ms) s)"
  by (induction ms arbitrary: seen n s) auto

lemma get_fold_remove: "st_get ow k i (fold (\<lambda>m. st_remove ow k (jid m)) ms d) = (if i \<in> jid ` set ms then None else st_get ow k i d)"
  by (induction ms arbitrary: d) (auto simp: st_get_remove)

lemma repeated_sub: "set (repeated seen ms) \<subseteq> set ms"
  by (induction ms arbitrary: seen) auto

lemma kept_unseen:
  assumes "distinct (map jid ms)" "b \<in> set ms" "jid b \<notin> jid ` set (repeated seen ms)"
  shows "memory_key b \<notin> seen"
  using assms by (induction ms arbitrary: seen) (auto split: if_splits)

lemma kept_once:
  assumes "distinct (map jid ms)" "a \<in> set ms" "jid a \<notin> jid ` set (repeated seen ms)"
    and "b \<in> set ms" "jid b \<notin> jid ` set (repeated seen ms)" "memory_key b = memory_key a"
  shows "b = a"
  using assms
proof (induction ms arbitrary: seen)
  case (Cons m ms)
  show ?case
  proof (cases "memory_key m \<in> seen")
    case True
    then show ?thesis using Cons.IH [of seen] Cons.prems by auto
  next
    case False
    have "memory_key c \<noteq> memory_key m" if "c \<in> set ms" "jid c \<notin> jid ` set (repeated (insert (memory_key m) seen) ms)" for c
      using kept_unseen [OF _ that] Cons.prems(1) by auto
    moreover have "a = m \<or> a \<in> set ms" "b = m \<or> b \<in> set ms" using Cons.prems by auto
    ultimately show ?thesis using Cons.IH [of "insert (memory_key m) seen"] Cons.prems False by (elim disjE) auto
  qed
qed simp

lemma kept_representative:
  assumes "distinct (map jid ms)" "a \<in> set ms"
  shows "memory_key a \<in> seen \<or> (\<exists>b\<in>set ms. jid b \<notin> jid ` set (repeated seen ms) \<and> memory_key b = memory_key a \<and> (sorted (map created_at ms) \<longrightarrow> created_at b \<le> created_at a))"
  using assms
proof (induction ms arbitrary: seen)
  case (Cons m ms)
  have own: "jid m \<notin> jid ` set (repeated s ms)" for s using Cons.prems(1) repeated_sub [of s ms] by auto
  show ?case
  proof (cases "memory_key a = memory_key m")
    case True
    show ?thesis
    proof (cases "memory_key m \<in> seen")
      case False
      then show ?thesis using own [of "insert (memory_key m) seen"] True Cons.prems(2) by (intro disjI2 bexI [of _ m]) auto
    qed (use True in simp)
  next
    case False
    then have a: "a \<in> set ms" using Cons.prems(2) by auto
    show ?thesis
    proof (cases "memory_key m \<in> seen")
      case True
      have "jid b \<noteq> jid m" if "b \<in> set ms" for b using Cons.prems(1) imageI [OF that, of jid] by auto
      then show ?thesis using Cons.IH [of seen] a Cons.prems(1) True by fastforce
    next
      case notin: False
      then show ?thesis using Cons.IH [of "insert (memory_key m) seen"] a Cons.prems(1) False by auto
    qed
  qed
qed simp

text \<open>The memories of an owner, each stored under its own identifier, few enough for one pass.\<close>

definition few_memories :: "string \<Rightarrow> table \<Rightarrow> bool" where
  "few_memories ow d \<longleftrightarrow> table_ok d \<and> st_count ow ''memories'' d \<le> 5000 \<and> (\<forall>i m. st_get ow ''memories'' i d = Some m \<longrightarrow> jid m = i)"

lemma listed_memories:
  assumes "few_memories ow d"
  defines "xs \<equiv> sort_key created_at (st_list ow ''memories'' \<lparr> lo_limit = Some 5000, lo_cursor = None \<rparr> d)"
  shows "distinct (map jid xs)" "m \<in> set xs \<longleftrightarrow> st_get ow ''memories'' (jid m) d = Some m" "sorted (map created_at xs)"
proof -
  let ?rows = "list_rows ow ''memories'' None d"
  have n: "length ?rows \<le> 5000" using assms(1) by (simp add: few_memories_def list_rows_def st_count_def after_cursor_def)
  then have l: "st_list ow ''memories'' \<lparr> lo_limit = Some 5000, lo_cursor = None \<rparr> d = map row_data ?rows" by (simp add: st_list_def)
  have row: "r \<in> set ?rows \<longleftrightarrow> r \<in> set d \<and> row_owner r = ow \<and> row_kind r = ''memories''" for r
    by (auto simp: list_rows_def after_cursor_def)
  have get: "st_get ow ''memories'' (row_id r) d = Some (row_data r)" if "r \<in> set ?rows" for r
  proof -
    have "r = ((ow, ''memories'', row_id r), row_data r, row_updated r)" using that row by (auto simp: prod_eq_iff)
    then have "map_of d (ow, ''memories'', row_id r) = Some (row_data r, row_updated r)"
      using that row assms(1) by (metis few_memories_def map_of_is_SomeI table_ok_def)
    then show ?thesis by (simp add: st_get_def)
  qed
  then have j: "jid (row_data r) = row_id r" if "r \<in> set ?rows" for r using that assms(1) by (auto simp: few_memories_def)
  have "map jid (map row_data ?rows) = map row_id ?rows" using j by simp
  moreover have "distinct (map row_id ?rows)"
  proof -
    have "distinct d" "inj_on fst (set d)" using assms(1) by (simp_all add: few_memories_def table_ok_def distinct_map)
    then have "distinct (map fst ?rows)" unfolding list_rows_def distinct_map set_sort distinct_sort
      by (meson distinct_filter filter_is_subset inj_on_subset)
    then have dr: "distinct ?rows" and inj: "inj_on fst (set ?rows)" by (simp_all only: distinct_map)
    have key: "fst r = (ow, ''memories'', row_id r)" if "r \<in> set ?rows" for r using that row by (simp add: prod_eq_iff)
    have "inj_on row_id (set ?rows)"
    proof (rule inj_onI)
      fix r q
      assume "r \<in> set ?rows" "q \<in> set ?rows" "row_id r = row_id q"
      then show "r = q" using inj_onD [OF inj, of r q] key [of r] key [of q] by simp
    qed
    with dr show ?thesis by (simp only: distinct_map)
  qed
  ultimately have "distinct (map jid (st_list ow ''memories'' \<lparr> lo_limit = Some 5000, lo_cursor = None \<rparr> d))" by (simp only: l)
  then show "distinct (map jid xs)" by (simp add: xs_def distinct_map)
  show "m \<in> set xs \<longleftrightarrow> st_get ow ''memories'' (jid m) d = Some m"
  proof
    assume "m \<in> set xs"
    then obtain r where "r \<in> set ?rows" "m = row_data r" by (auto simp: xs_def l)
    then show "st_get ow ''memories'' (jid m) d = Some m" using get j by simp
  next
    assume "st_get ow ''memories'' (jid m) d = Some m"
    then obtain u where "((ow, ''memories'', jid m), m, u) \<in> set d" by (auto simp: st_get_def dest: map_of_SomeD)
    then have "((ow, ''memories'', jid m), m, u) \<in> set ?rows" by (simp add: row)
    then show "m \<in> set xs" by (force simp: xs_def l)
  qed
  show "sorted (map created_at xs)" by (simp add: xs_def)
qed

text \<open>C29: the removal of duplicates leaves one memory of each normal form, the oldest.  Afterwards no two
  memories of the owner have the same normal form, the ones that stay are unchanged, and each that went has
  an older or equally old one with its normal form that stays.\<close>
theorem dedup_keeps_oldest:
  assumes "few_memories ow d" "dedup_memories plain_store ow d = (n, d')"
  shows "(\<forall>i j a b. st_get ow ''memories'' i d' = Some a \<and> st_get ow ''memories'' j d' = Some b \<and> memory_key a = memory_key b \<longrightarrow> i = j)
    \<and> (\<forall>i a. st_get ow ''memories'' i d' = Some a \<longrightarrow> st_get ow ''memories'' i d = Some a)
    \<and> (\<forall>i a. st_get ow ''memories'' i d = Some a \<longrightarrow> (\<exists>j b. st_get ow ''memories'' j d' = Some b \<and> memory_key b = memory_key a \<and> created_at b \<le> created_at a))"
proof -
  define xs where "xs = sort_key created_at (st_list ow ''memories'' \<lparr> lo_limit = Some 5000, lo_cursor = None \<rparr> d)"
  note l = listed_memories [OF assms(1), folded xs_def]
  have d': "d' = fold (\<lambda>m. st_remove ow ''memories'' (jid m)) (repeated {} xs) d"
    using assms(2) dedup_repeated [of plain_store ow xs "[]" 0 d] by (simp add: dedup_memories_def xs_def)
  have g: "st_get ow ''memories'' i d' = (if i \<in> jid ` set (repeated {} xs) then None else st_get ow ''memories'' i d)" for i
    unfolding d' by (rule get_fold_remove)
  have own: "jid a = i \<and> a \<in> set xs" if "st_get ow ''memories'' i d = Some a" for i a
    using that assms(1) l(2) [of a] by (auto simp: few_memories_def)
  have 1: "i = j" if "st_get ow ''memories'' i d' = Some a" "st_get ow ''memories'' j d' = Some b" "memory_key a = memory_key b" for i j a b
  proof -
    have "jid a = i" "a \<in> set xs" "jid b = j" "b \<in> set xs" "i \<notin> jid ` set (repeated {} xs)" "j \<notin> jid ` set (repeated {} xs)"
        using that own by (auto simp: g split: if_splits)
    then show ?thesis using kept_once [OF l(1), of a "{}" b] that(3) by auto
  qed
  have 3: "\<exists>j b. st_get ow ''memories'' j d' = Some b \<and> memory_key b = memory_key a \<and> created_at b \<le> created_at a"
    if assms': "st_get ow ''memories'' i d = Some a" for i a
  proof -
    obtain b where "b \<in> set xs" "jid b \<notin> jid ` set (repeated {} xs)" "memory_key b = memory_key a" "created_at b \<le> created_at a"
      using kept_representative [OF l(1), of a "{}"] own [OF assms'] l(3) by blast
    then show ?thesis using g [of "jid b"] l(2) [of b] by auto
  qed
  have 2: "st_get ow ''memories'' i d = Some a" if "st_get ow ''memories'' i d' = Some a" for i a
    using that by (simp add: g split: if_splits)
  from 1 2 3 show ?thesis by blast
qed

definition two_memories :: table where
  "two_memories = [((''u1'', ''memories'', ''a''), JObj [(''id'', JStr ''a''), (''text'', JStr ''One''), (''createdAt'', JDate 5)], 1),
     ((''u1'', ''memories'', ''b''), JObj [(''id'', JStr ''b''), (''text'', JStr ''one''), (''createdAt'', JDate 3)], 2)]"

theorem dedup_keeps_oldest_witness:
  "\<exists>n d' j b. dedup_memories plain_store ''u1'' two_memories = (n, d') \<and> st_get ''u1'' ''memories'' j d' = Some b \<and> created_at b \<le> 5"
proof -
  have f: "few_memories ''u1'' two_memories"
    by (auto simp: few_memories_def two_memories_def table_ok_def st_count_def st_get_def jid_def jtext_def split: if_splits)
  obtain n d' where r: "dedup_memories plain_store ''u1'' two_memories = (n, d')" by force
  have "st_get ''u1'' ''memories'' ''a'' two_memories = Some (JObj [(''id'', JStr ''a''), (''text'', JStr ''One''), (''createdAt'', JDate 5)])"
    by (simp add: two_memories_def st_get_def)
  with dedup_keeps_oldest [OF f r] obtain j b where "st_get ''u1'' ''memories'' j d' = Some b"
      "created_at b \<le> created_at (JObj [(''id'', JStr ''a''), (''text'', JStr ''One''), (''createdAt'', JDate 5)])" by blast
  then show ?thesis using r by (auto simp: created_at_def)
qed

section \<open>What was forgotten\<close>

text \<open>The instant that \<open>forget\<close> writes plays no part in a search: the memory passes the same filters, has the
  same words and score and the same place.\<close>

lemma forgotten_is_recalled:
  assumes "is_obj m"
  shows "memory_allowed o1 (jset ''expiresAt'' v m) = memory_allowed o1 m"
    and "memory_score env ws (jset ''expiresAt'' v m) = memory_score env ws m"
    and "created_at (jset ''expiresAt'' v m) = created_at m"
  using assms by (simp_all add: memory_allowed_def truthy_text_def memory_score_def memory_words_def text_or_empty_def jtext_def created_at_def jget_jset)

section \<open>What is recalled\<close>

lemma best_hits_confident: "\<forall>h\<in>set (best_hits hits). 4 / 10 \<le> rh_score h \<and> ((\<exists>g\<in>set hits. 7 / 10 \<le> rh_score g) \<longrightarrow> 7 / 10 \<le> rh_score h)"
  by (auto simp: best_hits_def Let_def filter_empty_conv dest!: in_set_takeD split: if_splits)

lemma embed_chunks_bound: "fst (embed_chunks env emb S ow cs n s) \<le> n + length cs"
proof (induction cs arbitrary: n s)
  case (Cons c cs)
  show ?case
  proof (cases "emb (text_or_empty c ''text'')")
    case None
    then show ?thesis using Cons [of n s] by simp
  next
    case (Some v)
    then show ?thesis using Cons [of "n + 1" "s_put S (my_clock env) ow ''rag-chunks'' (jset ''embedding'' v c) s"] by simp
  qed
qed simp

section \<open>Plans that succeed\<close>

record observation =
  ob_env :: memory_env
  ob_goal :: business_goal
  ob_plan :: plan
  ob_outcome :: goal_outcome

definition observe_all :: "(int \<Rightarrow> string) \<Rightarrow> string \<Rightarrow> observation list \<Rightarrow> table \<Rightarrow> table" where
  "observe_all show_int t obs d = fold (\<lambda>x. observe_goal (ob_env x) show_int plain_store t (ob_goal x) (ob_plan x) (ob_outcome x)) obs d"

definition successes :: "observation list \<Rightarrow> nat" where
  "successes obs = length (filter (\<lambda>x. oc_status (ob_outcome x) = Achieved) obs)"

text \<open>The pattern of a signature after \<open>k\<close> successes.\<close>

definition pattern_row_after :: "string \<Rightarrow> nat \<Rightarrow> json \<Rightarrow> bool" where
  "pattern_row_after sig k r \<longleftrightarrow> is_obj r \<and> jget r ''id'' = Some (JStr (''pattern-'' @ sig))
     \<and> jget r ''successCount'' = Some (JNum (of_nat k)) \<and> jget r ''proposedAsSop'' = Some (JBool (5 \<le> k))"

definition pattern_after :: "string \<Rightarrow> string \<Rightarrow> nat \<Rightarrow> table \<Rightarrow> bool" where
  "pattern_after t sig k d \<longleftrightarrow> (case st_get t ''learning-patterns'' (''pattern-'' @ sig) d of None \<Rightarrow> k = 0 | Some r \<Rightarrow> pattern_row_after sig k r)
     \<and> (st_get t ''procedural-learning'' (''proc-'' @ sig) d \<noteq> None \<longleftrightarrow> 5 \<le> k)"

lemma jid_field: "jget r ''id'' = Some (JStr i) \<Longrightarrow> jid r = i"
  by (simp add: jid_def jtext_def)

lemma pattern_counts:
  fixes env :: memory_env and t :: string and g :: business_goal and st :: outcome_status
  assumes "case old of None \<Rightarrow> k = 0 | Some r \<Rightarrow> pattern_row_after sig k r"
  defines "r \<equiv> pattern_row env t g sig st old"
  shows "is_obj r" "jget r ''id'' = Some (JStr (''pattern-'' @ sig))"
    "jget r ''successCount'' = Some (JNum (of_nat (if st = Achieved then k + 1 else k)))" "jget r ''proposedAsSop'' = Some (JBool (5 \<le> k))"
  using assms(1) by (auto simp: r_def pattern_row_def pattern_row_after_def jget_jset field_count_def one_if_def split: option.splits)

lemma proposed_after:
  assumes r: "st_get t ''learning-patterns'' (''pattern-'' @ sig) d = Some r" "is_obj r" "jget r ''id'' = Some (JStr (''pattern-'' @ sig))"
    and n: "jget r ''successCount'' = Some (JNum (of_nat n))" "jget r ''proposedAsSop'' = Some (JBool b)" "b \<longrightarrow> 5 \<le> n"
    and p: "st_get t ''procedural-learning'' (''proc-'' @ sig) d \<noteq> None \<longleftrightarrow> b"
  shows "pattern_after t sig n (propose_pattern env plain_store t sig d)"
proof (cases "5 \<le> n \<and> \<not> b")
  case True
  let ?new = "jmerge r (JObj [(''id'', JStr (''pattern-'' @ sig)), (''tenantId'', JStr t), (''proposedAsSop'', JBool True)])"
  have f: "is_obj ?new" "jget ?new ''id'' = Some (JStr (''pattern-'' @ sig))" "jget ?new ''successCount'' = Some (JNum (of_nat n))"
      "jget ?new ''proposedAsSop'' = Some (JBool True)"
    using r(2) n(1) by (simp_all add: jget_jmerge)
  have "(5::rat) \<le> of_nat n" using True by simp
  then show ?thesis using True r n f
    by (simp add: propose_pattern_def field_count_def truthy_def pattern_after_def pattern_row_after_def st_get_put jid_field jid_def jtext_def)
next
  case False
  have "(5::rat) \<le> of_nat n \<longleftrightarrow> 5 \<le> n" by simp
  then show ?thesis using False r n p
    by (auto simp: propose_pattern_def field_count_def truthy_def pattern_after_def pattern_row_after_def)
qed

lemma observed_once:
  assumes "pattern_after t sig k d" "plan_signature (pl_steps p) = sig"
  shows "pattern_after t sig (if oc_status oc = Achieved then k + 1 else k) (observe_goal env show_int plain_store t g p oc d)"
proof -
  let ?get = "st_get t ''learning-patterns'' (''pattern-'' @ sig)"
  have old: "case ?get d of None \<Rightarrow> k = 0 | Some r \<Rightarrow> pattern_row_after sig k r" using assms(1) by (simp add: pattern_after_def)
  note r = pattern_counts [OF old, of env t g "oc_status oc"]
  show ?thesis
    unfolding observe_goal_def Let_def assms(2) plain_store_sel
    by (rule proposed_after [where b = "5 \<le> k" and r = "pattern_row env t g sig (oc_status oc) (?get d)"])
      (use assms(1) r in \<open>auto simp: st_get_put jid_field pattern_after_def\<close>)
qed

lemma observed_all:
  assumes "pattern_after t sig k d" "\<forall>x\<in>set obs. plan_signature (pl_steps (ob_plan x)) = sig"
  shows "pattern_after t sig (k + successes obs) (observe_all show_int t obs d)"
  using assms
proof (induction obs arbitrary: k d)
  case (Cons x obs)
  show ?case
    using Cons.IH [OF observed_once [OF Cons.prems(1), of "ob_plan x" "ob_outcome x" "ob_env x" show_int "ob_goal x"]] Cons.prems(2)
    by (auto simp: observe_all_def successes_def)
qed (simp add: observe_all_def successes_def)

text \<open>A plan becomes a proposed procedure at its fifth success, and not before: however many goals are
  observed that used plans of one signature, in whatever order they succeed and fail, there is a proposal for
  the signature exactly when five of them or more were achieved.\<close>
theorem proposed_at_fifth:
  assumes "st_get t ''learning-patterns'' (''pattern-'' @ sig) d = None" "st_get t ''procedural-learning'' (''proc-'' @ sig) d = None"
    and "\<forall>x\<in>set obs. plan_signature (pl_steps (ob_plan x)) = sig"
  shows "st_get t ''procedural-learning'' (''proc-'' @ sig) (observe_all show_int t obs d) \<noteq> None \<longleftrightarrow> 5 \<le> successes obs"
proof -
  have "pattern_after t sig 0 d" using assms(1,2) by (simp add: pattern_after_def)
  then have "pattern_after t sig (0 + successes obs) (observe_all show_int t obs d)" using assms(3) by (rule observed_all)
  then show ?thesis by (simp add: pattern_after_def)
qed

definition plain_observation :: observation where
  "plain_observation = \<lparr> ob_env = plain_memory,
     ob_goal = \<lparr> bg_id = ''g1'', bg_tenant = ''t1'', bg_owner = ''o1'', bg_title = ''title'', bg_description = ''text'', bg_criteria = [] \<rparr>,
     ob_plan = \<lparr> pl_id = ''p1'', pl_tenant = ''t1'', pl_owner = ''o1'', pl_goal = ''g1'', pl_version = 1, pl_status = PDraft, pl_steps = [],
       pl_reason = None, pl_previous = None, pl_created = 0, pl_updated = 0 \<rparr>,
     ob_outcome = \<lparr> oc_status = Achieved, oc_summary = ''good'', oc_evidence = [], oc_metrics = [], oc_verified = True, oc_verified_at = None, oc_note = None \<rparr> \<rparr>"

theorem proposed_at_fifth_witness:
  "st_get ''t1'' ''procedural-learning'' ''proc-'' (observe_all (\<lambda>n. ''1'') ''t1'' (replicate 5 plain_observation) []) \<noteq> None"
proof -
  have p: "plan_signature (pl_steps (ob_plan plain_observation)) = []" by (simp add: plain_observation_def plan_signature_def)
  have n: "successes (replicate 5 plain_observation) = 5" by (simp add: successes_def plain_observation_def)
  have "st_get ''t1'' ''procedural-learning'' (''proc-'' @ []) (observe_all (\<lambda>n. ''1'') ''t1'' (replicate 5 plain_observation) []) \<noteq> None
    \<longleftrightarrow> 5 \<le> successes (replicate 5 plain_observation)"
    by (rule proposed_at_fifth) (auto simp: st_get_def p)
  then show ?thesis using n by simp
qed

section \<open>The budget of a context\<close>

abbreviation tokens_of :: "'a context_item list \<Rightarrow> nat" where
  "tokens_of xs \<equiv> sum_list (map ci_tokens xs)"

lemma fit_items_budget: "used \<le> b \<Longrightarrow> used + tokens_of (fit_items b used xs) \<le> b"
  by (induction b used xs rule: fit_items.induct) (auto simp: add.assoc)

lemma fit_items_full: "x \<in> set xs \<Longrightarrow> x \<notin> set (fit_items b used xs) \<Longrightarrow> b < used + tokens_of (fit_items b used xs) + ci_tokens x"
proof (induction b used xs rule: fit_items.induct)
  case (2 b used y ys)
  show ?case
  proof (cases "used + ci_tokens y > b")
    case True
    then show ?thesis using 2 by (cases "x = y") auto
  next
    case False
    then show ?thesis using 2 by (auto simp: add.assoc)
  qed
qed simp

text \<open>The choice of a context respects its budget and wastes none: the tokens of the chosen items are
  within the budget, they are items that were offered, and whatever was left out would not fit any more.\<close>
theorem budget_respected:
  "tokens_of (select_within_budget items b) \<le> b \<and> set (select_within_budget items b) \<subseteq> set items
   \<and> (\<forall>x\<in>set items - set (select_within_budget items b). b < tokens_of (select_within_budget items b) + ci_tokens x)"
proof -
  have sub: "set (fit_items b u xs) \<subseteq> set xs" for u and xs :: "'a context_item list" by (induction b u xs rule: fit_items.induct) auto
  show ?thesis
    using fit_items_budget [of 0 b "sort_key (\<lambda>x. - ci_score x) items"] fit_items_full [of _ "sort_key (\<lambda>x. - ci_score x) items" b 0]
      sub [of 0 "sort_key (\<lambda>x. - ci_score x) items"]
    by (auto simp: select_within_budget_def)
qed

theorem budget_respected_witness:
  "\<exists>x\<in>set [\<lparr> ci_value = (), ci_tokens = 3, ci_score = 1 \<rparr>, \<lparr> ci_value = (), ci_tokens = 2, ci_score = 0 \<rparr>]. (4 :: nat) < 3 + ci_tokens x"
proof -
  let ?xs = "[\<lparr> ci_value = (), ci_tokens = 3, ci_score = 1 \<rparr>, \<lparr> ci_value = (), ci_tokens = 2, ci_score = 0 \<rparr>]"
  have s: "select_within_budget ?xs 4 = [\<lparr> ci_value = (), ci_tokens = 3, ci_score = 1 \<rparr>]" by (simp add: select_within_budget_def)
  have "\<lparr> ci_value = (), ci_tokens = 2, ci_score = 0 \<rparr> \<in> set ?xs - set (select_within_budget ?xs 4)" by (simp add: s)
  then have "4 < tokens_of (select_within_budget ?xs 4) + 2" using budget_respected [of ?xs 4] by (metis context_item.select_convs(2))
  then show ?thesis by (simp add: s)
qed

end
