(* ===== verification/Rag.thy ===== *)
theory Rag
  imports MemoryProps
begin

text \<open>
  The index of documents (apps/server/src/engine/rag.ts): a text is cut into chunks, stored with embeddings,
  and searched by a mix of the cosine of the embeddings and of keywords.  The sizes come from the environment
  and are arguments, as are the embedding model, the cosine, the logarithm and the search in SQL.
\<close>

section \<open>Cutting a text\<close>

definition nl :: char where
  "nl = CHR 0x0A"

fun unix_lines :: "string \<Rightarrow> string" where
  "unix_lines [] = []"
| "unix_lines (c # cs) = (if c = CHR 0x0D then nl # (case cs of [] \<Rightarrow> [] | d # ds \<Rightarrow> if d = nl then unix_lines ds else unix_lines cs)
     else c # unix_lines cs)"

text \<open>\<open>split(/\n{2,}/)\<close>: cut at every run of two or more line ends.\<close>

function paragraphs :: "string \<Rightarrow> string \<Rightarrow> string list" where
  "paragraphs acc [] = [acc]"
| "paragraphs acc (c # cs) = (if c = nl \<and> takeWhile (\<lambda>d. d = nl) cs \<noteq> [] then acc # paragraphs [] (dropWhile (\<lambda>d. d = nl) cs)
     else paragraphs (acc @ [c]) cs)"
  by pat_completeness auto
termination
  by (relation "measure (length \<circ> snd)") (auto simp: less_Suc_eq_le length_dropWhile_le)

text \<open>A long paragraph, in pieces of \<open>sz\<close> characters of which \<open>ov\<close> are shared.  The start is an integer; the
  pieces from a negative start on do not matter, as such a run never ends.\<close>

partial_function (option) slices :: "nat \<Rightarrow> nat \<Rightarrow> string \<Rightarrow> int \<Rightarrow> string list option" where
  "slices sz ov para start = (if start \<ge> int (length para) then Some []
     else let e = min (start + int sz) (int (length para)); c = trim (take (nat (e - start)) (drop (nat start) para))
     in if e \<ge> int (length para) then Some [c]
        else Option.bind (slices sz ov para (e - int ov)) (\<lambda>cs. Some (c # cs)))"

definition flushed :: "string \<Rightarrow> string list" where
  "flushed buffer = (if trim buffer = [] then [] else [trim buffer])"

fun gather :: "nat \<Rightarrow> nat \<Rightarrow> string list \<Rightarrow> string \<Rightarrow> string list option" where
  "gather sz ov [] buffer = Some (flushed buffer)"
| "gather sz ov (p # ps) buffer = (let candidate = (if buffer = [] then p else buffer @ [nl, nl] @ p) in
     if length candidate \<le> sz then gather sz ov ps candidate
     else let out = (if buffer = [] then [] else flushed buffer) in
       if length p \<le> sz then map_option (\<lambda>cs. out @ cs) (gather sz ov ps p)
       else Option.bind (slices sz ov p 0) (\<lambda>xs. map_option (\<lambda>cs. out @ xs @ cs) (gather sz ov ps [])))"

definition chunk_text :: "nat \<Rightarrow> nat \<Rightarrow> string \<Rightarrow> string list option" where
  "chunk_text sz ov text0 = (let t = trim (unix_lines text0) in
     if t = [] then Some [] else map_option (filter (\<lambda>c. length c > 30)) (gather sz ov (paragraphs [] t) []))"

section \<open>Keywords\<close>

text \<open>The expression of the code is a backslash followed by letters W.\<close>

function split_pattern :: "string \<Rightarrow> string \<Rightarrow> string list" where
  "split_pattern acc [] = [acc]"
| "split_pattern acc (c # cs) = (if c = CHR 0x5C \<and> takeWhile (\<lambda>d. d = CHR ''W'') cs \<noteq> []
     then acc # split_pattern [] (dropWhile (\<lambda>d. d = CHR ''W'') cs) else split_pattern (acc @ [c]) cs)"
  by pat_completeness auto
termination
  by (relation "measure (length \<circ> snd)") (auto simp: less_Suc_eq_le length_dropWhile_le)

definition doc_words :: "string \<Rightarrow> string list" where
  "doc_words text0 = filter (\<lambda>w. w \<noteq> []) (split_pattern [] (map lower_char text0))"

definition length_norm :: "nat \<Rightarrow> rat" where
  "length_norm n = 1 - 3 / 4 + 3 / 4 * (of_nat n / 200)"

definition term_weight :: "rat \<Rightarrow> nat \<Rightarrow> rat \<Rightarrow> rat" where
  "term_weight idf f nrm = (idf * of_nat f * (6 / 5 + 1)) / (of_nat f + 6 / 5 * nrm)"

definition bm25_with_idf :: "string list \<Rightarrow> string \<Rightarrow> (string \<Rightarrow> rat) \<Rightarrow> rat" where
  "bm25_with_idf qs text0 idf = (let ws = doc_words text0 in
     if qs = [] \<or> ws = [] then 0
     else sum_list (map (\<lambda>q. let f = count_list ws q in if f > 0 then term_weight (idf q) f (length_norm (length ws)) else 0) qs))"

definition bm25_score :: "string list \<Rightarrow> string \<Rightarrow> rat" where
  "bm25_score qs text0 = bm25_with_idf qs text0 (\<lambda>q. 1)"

definition compute_idf :: "(rat \<Rightarrow> rat) \<Rightarrow> string list \<Rightarrow> string list \<Rightarrow> string \<Rightarrow> rat" where
  "compute_idf lg qs docs q = (if q \<in> set qs
     then lg ((of_nat (if docs = [] then 1 else length docs) + 1) / (of_nat (length (filter (\<lambda>d. q \<in> set (doc_words d)) docs)) + 1)) + 1 else 1)"

section \<open>The best hits\<close>

text \<open>A candidate is pushed at the end, the list is sorted, and cut at the limit.  A limit of 0 makes the code read
  the last element of an empty list.\<close>

definition keep_top :: "nat \<Rightarrow> (json \<times> rat) list \<Rightarrow> json \<times> rat \<Rightarrow> (json \<times> rat) list" where
  "keep_top limit best hit = (if length best \<ge> limit \<and> snd hit \<le> snd (last best) then best
     else take limit (sort_key (\<lambda>h. - snd h) (best @ [hit])))"

section \<open>The index\<close>

record rag_env =
  rg_clock :: int
  rg_now :: int
  rg_size :: nat
  rg_overlap :: nat
  rg_page :: nat
  rg_embed :: "string \<Rightarrow> json list option"
  rg_cosine :: "json list \<Rightarrow> json list \<Rightarrow> rat"
  rg_log :: "rat \<Rightarrow> rat"
  rg_show :: "nat \<Rightarrow> string"

definition rag_chunk :: "rag_env \<Rightarrow> string \<Rightarrow> string \<Rightarrow> nat \<Rightarrow> string \<Rightarrow> json list option \<Rightarrow> json" where
  "rag_chunk env source name i text0 vec = JObj [(''id'', JStr (source @ ''-'' @ rg_show env i)), (''sourceId'', JStr source), (''sourceName'', JStr name),
     (''chunkIndex'', JNum (of_nat i)), (''text'', JStr text0), (''embedding'', case vec of None \<Rightarrow> JNull | Some v \<Rightarrow> JArr v), (''createdAt'', JDate (rg_now env))]"

fun put_chunks :: "rag_env \<Rightarrow> 's store \<Rightarrow> string \<Rightarrow> string \<Rightarrow> string \<Rightarrow> nat \<Rightarrow> string list \<Rightarrow> 's \<Rightarrow> 's" where
  "put_chunks env S ow source name i [] s = s"
| "put_chunks env S ow source name i (c # cs) s =
     put_chunks env S ow source name (i + 1) cs (s_put S (rg_clock env) ow ''rag-chunks'' (rag_chunk env source name i c (rg_embed env c)) s)"

definition ingest_text :: "rag_env \<Rightarrow> 's store \<Rightarrow> string \<Rightarrow> string \<Rightarrow> string \<Rightarrow> string \<Rightarrow> nat \<Rightarrow> 's \<Rightarrow> ((nat \<times> nat) \<times> 's) option" where
  "ingest_text env S ow source name text0 limit s = map_option (\<lambda>all. let cs = take limit all in
     if all = [] then ((0, 0), s)
     else ((length cs, length (filter (\<lambda>c. rg_embed env c \<noteq> None) cs)), put_chunks env S ow source name 0 cs s)) (chunk_text (rg_size env) (rg_overlap env) text0)"

definition remove_source :: "'s store \<Rightarrow> string \<Rightarrow> string \<Rightarrow> 's \<Rightarrow> 's" where
  "remove_source S ow source s = fold (\<lambda>c. s_remove S ow ''rag-chunks'' (jid c))
     (filter (\<lambda>c. jtext c ''sourceId'' = Some source) (s_list S ow ''rag-chunks'' \<lparr> lo_limit = Some 20000, lo_cursor = None \<rparr> s)) s"

definition rag_stats :: "'s store \<Rightarrow> string \<Rightarrow> 's \<Rightarrow> nat \<times> nat" where
  "rag_stats S ow s = (let all = s_list S ow ''rag-chunks'' \<lparr> lo_limit = Some 20000, lo_cursor = None \<rparr> s in
     (length all, card (set (map (\<lambda>c. jget c ''sourceId'') all))))"

text \<open>All rows of a kind, page by page; \<open>n\<close> bounds the pages, and the number of rows plus one is enough.\<close>

fun all_pages :: "'s store \<Rightarrow> string \<Rightarrow> string \<Rightarrow> nat \<Rightarrow> nat \<Rightarrow> (int \<times> string) option \<Rightarrow> 's \<Rightarrow> json list" where
  "all_pages S ow k page 0 cur s = []"
| "all_pages S ow k page (Suc n) cur s = (let rows = s_list_paged S ow k \<lparr> lo_limit = Some page, lo_cursor = cur \<rparr> s in
     if rows = [] then []
     else map fst rows @ (if length rows < page then [] else all_pages S ow k page n (Some (snd (last rows), jid (fst (last rows)))) s))"

definition chunk_cosine :: "rag_env \<Rightarrow> json list option \<Rightarrow> json \<Rightarrow> rat" where
  "chunk_cosine env qv c = (case (qv, jget c ''embedding'') of
     (Some v, Some (JArr w)) \<Rightarrow> if length w = length v then rg_cosine env v w else 0 | _ \<Rightarrow> 0)"

definition candidate_chunks :: "rag_env \<Rightarrow> string option \<Rightarrow> json list option \<Rightarrow> string list \<Rightarrow> json list \<Rightarrow> json list" where
  "candidate_chunks env source qv qs rows = filter (\<lambda>c. (case given_text source of None \<Rightarrow> True | Some i \<Rightarrow> jtext c ''sourceId'' = Some i)
     \<and> \<not> (chunk_cosine env qv c \<le> 0 \<and> bm25_score qs (text_or_empty c ''text'') \<le> 0)) rows"

definition hybrid_scores :: "rag_env \<Rightarrow> json list option \<Rightarrow> string list \<Rightarrow> json list \<Rightarrow> (json \<times> rat) list" where
  "hybrid_scores env qv qs cs = (let idf = compute_idf (rg_log env) qs (map (\<lambda>c. text_or_empty c ''text'') cs);
       bm = (\<lambda>c. bm25_with_idf qs (text_or_empty c ''text'') idf); best = fold max (map bm cs) 0
     in map (\<lambda>c. (c, 7 / 10 * chunk_cosine env qv c + 3 / 10 * (if best > 0 then bm c / best else 0))) cs)"

definition search_words :: "string \<Rightarrow> string list" where
  "search_words query = filter (\<lambda>w. length w > 2) (split_pattern [] (map lower_char query))"

text \<open>\<open>vector_search\<close> answers when the database has vectors.\<close>

definition rag_search :: "rag_env \<Rightarrow> 's store \<Rightarrow> (string \<Rightarrow> json list \<Rightarrow> nat \<Rightarrow> (json \<times> rat) list option) \<Rightarrow> string \<Rightarrow> string \<Rightarrow> nat \<Rightarrow>
    string option \<Rightarrow> 's \<Rightarrow> (json \<times> rat) list" where
  "rag_search env S vector_search ow query limit source s = (let qv = rg_embed env query; qs = search_words query in
     if qv = None \<and> qs = [] then []
     else case Option.bind qv (\<lambda>v. vector_search ow v limit) of
       Some hits \<Rightarrow> hits
     | None \<Rightarrow> fold (\<lambda>h best. keep_top limit best h)
         (hybrid_scores env qv qs (candidate_chunks env source qv qs (all_pages S ow ''rag-chunks'' (rg_page env) (s_count S ow ''rag-chunks'' s + 1) None s))) [])"

definition hit_of :: "json \<times> rat \<Rightarrow> rag_hit" where
  "hit_of h = \<lparr> rh_source = text_or_empty (fst h) ''sourceName'', rh_text = text_or_empty (fst h) ''text'', rh_score = snd h \<rparr>"

end
