(* ===== verification/RagProps.thy ===== *)
theory RagProps
  imports Rag
begin

text \<open>
  What the index of documents guarantees: cutting ends whenever the pieces advance, chunks have bounded
  length, the pages cover every row, and the hits are the best candidates.  And where it falls short: the
  keyword expression never splits, so a text has one word, itself.
\<close>

section \<open>Cutting ends\<close>

lemma length_trim: "length (trim x) \<le> length x"
  using length_dropWhile_le [of is_blank x] length_dropWhile_le [of is_blank "rev (dropWhile is_blank x)"] by (simp add: trim_def)

lemma slices_end:
  assumes "ov < sz"
  shows "slices sz ov para start \<noteq> None"
proof (induction "nat (int (length para) - start)" arbitrary: start rule: less_induct)
  case less
  show ?case
  proof (cases "start \<ge> int (length para) \<or> start + int sz \<ge> int (length para)")
    case False
    then have "slices sz ov para (start + int sz - int ov) \<noteq> None" using assms by (intro less) linarith
    then show ?thesis using False by (subst slices.simps) (auto simp: Let_def min_def)
  qed (subst slices.simps, auto simp: Let_def min_def)
qed

lemma slices_loop:
  assumes ret: "slices sz ov para start = Some cs"
  shows "sz \<le> ov \<longrightarrow> \<not> start + int sz < int (length para)"
proof (rule slices.raw_induct [where P = "\<lambda>sz ov para start cs. sz \<le> ov \<longrightarrow> \<not> start + int sz < int (length para)", OF _ ret])
  fix f sz ov para start cs
  assume IH: "\<And>sz ov para start cs. f sz ov para start = Some cs \<Longrightarrow> sz \<le> ov \<longrightarrow> \<not> start + int sz < int (length para)"
    and eq: "(if start \<ge> int (length para) then Some []
      else let e = min (start + int sz) (int (length para)); c = trim (take (nat (e - start)) (drop (nat start) para))
        in if e \<ge> int (length para) then Some [c] else Option.bind (f sz ov para (e - int ov)) (\<lambda>cs. Some (c # cs))) = Some cs"
  show "sz \<le> ov \<longrightarrow> \<not> start + int sz < int (length para)"
  proof (intro impI notI)
    assume l: "sz \<le> ov" "start + int sz < int (length para)"
    then have "min (start + int sz) (int (length para)) = start + int sz" "\<not> start \<ge> int (length para)" by auto
    then obtain ds where "f sz ov para (start + int sz - int ov) = Some ds"
      using eq l(2) by (auto simp: Let_def bind_eq_Some_conv split: if_splits)
    from IH [OF this] l show False by simp
  qed
qed

lemma gather_ends: "gather sz ov ps buffer \<noteq> None \<longleftrightarrow> ov < sz \<or> (\<forall>p\<in>set ps. length p \<le> sz)"
proof (induction sz ov ps buffer rule: gather.induct)
  case (2 sz ov p ps buffer)
  let ?c = "if buffer = [] then p else buffer @ [nl, nl] @ p"
  show ?case
  proof (cases "length ?c \<le> sz")
    case True
    then have "length p \<le> sz" by (auto split: if_splits)
    then show ?thesis using 2(1) [OF refl True] True by (simp add: Let_def)
  next
    case F: False
    show ?thesis
    proof (cases "length p \<le> sz")
      case True
      then show ?thesis using 2(2) [OF refl F refl True] F by (simp add: Let_def)
    next
      case False
      have s: "slices sz ov p 0 \<noteq> None \<longleftrightarrow> ov < sz"
        using slices_end [of ov sz p 0] slices_loop [of sz ov p 0] False by (cases "slices sz ov p 0") auto
      show ?thesis
      proof (cases "ov < sz")
        case True
        then obtain xs where xs: "slices sz ov p 0 = Some xs" using s by auto
        then show ?thesis using 2(3) [OF refl F refl False xs] F False True by (simp add: Let_def)
      next
        case no: False
        then show ?thesis using s F False by (simp add: Let_def)
      qed
    qed
  qed
qed simp

text \<open>C38: cutting a text ends exactly when the pieces of a long paragraph advance, that is when the overlap is
  smaller than the size of a chunk, or when no paragraph is longer than a chunk.  Otherwise the loop pushes
  pieces for ever.\<close>
theorem chunking_ends:
  "(\<exists>cs. chunk_text sz ov t = Some cs) \<longleftrightarrow>
     ov < sz \<or> trim (unix_lines t) = [] \<or> (\<forall>p\<in>set (paragraphs [] (trim (unix_lines t))). length p \<le> sz)"
  using gather_ends [of sz ov "paragraphs [] (trim (unix_lines t))" "[]"] by (auto simp: chunk_text_def Let_def)

theorem chunking_ends_witness:
  "\<exists>p\<in>set (paragraphs [] (trim (unix_lines ''abc''))). 2 < length p \<and> (\<nexists>cs. chunk_text 2 2 ''abc'' = Some cs)"
proof -
  have p: "paragraphs [] (trim (unix_lines ''abc'')) = [''abc'']" "trim (unix_lines ''abc'') \<noteq> []" by code_simp+
  then have "\<not> (\<exists>cs. chunk_text 2 2 ''abc'' = Some cs)" unfolding chunking_ends [of 2 2 "''abc''"] by simp
  then show ?thesis using p by simp
qed

section \<open>Lengths\<close>

lemma slices_bound:
  assumes ret: "slices sz ov para start = Some cs"
  shows "\<forall>c\<in>set cs. length c \<le> sz"
proof (rule slices.raw_induct [where P = "\<lambda>sz ov para start cs. \<forall>c\<in>set cs. length c \<le> sz", OF _ ret])
  fix f sz ov para start cs
  assume IH: "\<And>sz ov para start cs. f sz ov para start = Some cs \<Longrightarrow> \<forall>c\<in>set cs. length c \<le> sz"
    and eq: "(if start \<ge> int (length para) then Some []
      else let e = min (start + int sz) (int (length para)); c = trim (take (nat (e - start)) (drop (nat start) para))
        in if e \<ge> int (length para) then Some [c] else Option.bind (f sz ov para (e - int ov)) (\<lambda>cs. Some (c # cs))) = Some cs"
  let ?e = "min (start + int sz) (int (length para))"
  let ?c = "trim (take (nat (?e - start)) (drop (nat start) para))"
  have c: "length ?c \<le> sz" by (rule order_trans [OF length_trim]) auto
  have "cs = [] \<or> cs = [?c] \<or> (\<exists>ds. f sz ov para (?e - int ov) = Some ds \<and> cs = ?c # ds)"
    using eq by (auto simp: Let_def bind_eq_Some_conv split: if_splits)
  then show "\<forall>c\<in>set cs. length c \<le> sz" using c IH by auto
qed

lemma gather_bound: "gather sz ov ps buffer = Some cs \<Longrightarrow> length buffer \<le> sz \<Longrightarrow> \<forall>c\<in>set cs. length c \<le> sz"
proof (induction sz ov ps buffer arbitrary: cs rule: gather.induct)
  case (1 sz ov buffer)
  then show ?case using length_trim [of buffer] by (auto simp: flushed_def split: if_splits)
next
  case (2 sz ov p ps buffer)
  let ?c = "if buffer = [] then p else buffer @ [nl, nl] @ p"
  let ?out = "if buffer = [] then [] else flushed buffer"
  have out: "\<forall>c\<in>set ?out. length c \<le> sz" using 2(5) length_trim [of buffer] by (auto simp: flushed_def)
  show ?case
  proof (cases "length ?c \<le> sz")
    case True
    then show ?thesis using 2(1) [OF refl True] 2(4) by (simp add: Let_def)
  next
    case F: False
    show ?thesis
    proof (cases "length p \<le> sz")
      case True
      then obtain ds where "gather sz ov ps p = Some ds" "cs = ?out @ ds" using 2(4) F by (auto simp: Let_def)
      then show ?thesis using 2(2) [OF refl F refl True] True out by auto
    next
      case False
      then obtain xs ds where x: "slices sz ov p 0 = Some xs" "gather sz ov ps [] = Some ds" "cs = ?out @ xs @ ds"
        using 2(4) F by (auto simp: Let_def bind_eq_Some_conv)
      then show ?thesis using 2(3) [OF refl F refl False x(1) x(2)] slices_bound [OF x(1)] out by auto
    qed
  qed
qed

text \<open>Every chunk has more than 30 characters and at most the size of a chunk.\<close>
theorem chunks_bounded: "chunk_text sz ov t = Some cs \<Longrightarrow> \<forall>c\<in>set cs. 30 < length c \<and> length c \<le> sz"
  using gather_bound [of sz ov "paragraphs [] (trim (unix_lines t))" "[]"] by (auto simp: chunk_text_def Let_def split: if_splits)

section \<open>Keywords\<close>

lemma split_nothing: "CHR ''W'' \<notin> set x \<Longrightarrow> split_pattern acc x = [acc @ x]"
proof (induction acc x rule: split_pattern.induct)
  case (2 acc c cs)
  have "takeWhile (\<lambda>d. d = CHR ''W'') cs = []" using 2(3) by (cases cs) auto
  then show ?case using 2 by simp
qed simp

lemma lower_char_W: "lower_char c \<noteq> CHR ''W''"
proof
  assume w: "lower_char c = CHR ''W''"
  let ?n = "of_char c :: nat"
  show False
  proof (cases "(65 \<le> ?n \<and> ?n \<le> 90) \<or> (192 \<le> ?n \<and> ?n \<le> 222 \<and> ?n \<noteq> 215)")
    case True
    then have "char_of (?n + 32) = CHR ''W''" using w by (simp add: lower_char_def Let_def)
    then have "of_char (char_of (?n + 32)) = (of_char (CHR ''W'') :: nat)" by simp
    then have "(?n + 32) mod 256 = 87" by (simp add: of_char_of)
    then show False using True by auto
  next
    case False
    have "lower_char c = c" unfolding lower_char_def Let_def by (rule if_not_P) (rule False)
    then have "c = CHR ''W''" using w by metis
    then have "?n = 87" by (simp only:) simp
    then show False using False by linarith
  qed
qed

lemma lower_no_W: "CHR ''W'' \<notin> set (map lower_char x)"
  using lower_char_W by (metis (no_types, lifting) imageE list.set_map)

lemma doc_words_whole: "doc_words x = (if x = [] then [] else [map lower_char x])"
  using split_nothing [OF lower_no_W, of "[]" x] by (simp add: doc_words_def)

lemma search_words_whole: "search_words q = (if length q > 2 then [map lower_char q] else [])"
  using split_nothing [OF lower_no_W, of "[]" q] by (simp add: search_words_def)

lemma bm25_whole:
  assumes "bm25_with_idf qs x idf \<noteq> 0"
  shows "map lower_char x \<in> set qs"
proof (rule ccontr)
  assume n: "map lower_char x \<notin> set qs"
  have "sum_list (map (\<lambda>q. let f = count_list [map lower_char x] q in if f > 0 then term_weight (idf q) f nrm else 0) qs) = 0" for nrm
    using n by (induction qs) auto
  then show False using assms by (cases "x = []") (simp_all add: bm25_with_idf_def doc_words_whole Let_def split: if_splits)
qed

text \<open>C31: without embeddings the search compares whole texts.  The expression that should cut a text into words
  never matches a text in lower case, so a text has one word, itself: when the embedding model gives nothing
  for the query, every hit is a chunk that equals the query up to the case of its letters.\<close>
theorem keyword_search_is_equality:
  assumes "rg_embed env query = None" "(c, r) \<in> set (rag_search env S vector_search ow query limit source s)"
  shows "map lower_char (text_or_empty c ''text'') = map lower_char query"
proof -
  let ?qs = "search_words query"
  let ?cs = "candidate_chunks env source None ?qs (all_pages S ow ''rag-chunks'' (rg_page env) (s_count S ow ''rag-chunks'' s + 1) None s)"
  have sub: "set (fold (\<lambda>h best. keep_top limit best h) hs acc) \<subseteq> set hs \<union> set acc" for hs acc
  proof (induction hs arbitrary: acc)
    case (Cons h hs)
    have "set (keep_top limit acc h) \<subseteq> insert h (set acc)" by (auto simp: keep_top_def dest: in_set_takeD)
    then show ?case using Cons [of "keep_top limit acc h"] by auto
  qed simp
  have "(c, r) \<in> set (hybrid_scores env None ?qs ?cs)"
    using assms sub [of "hybrid_scores env None ?qs ?cs" "[]"] by (auto simp: rag_search_def Let_def split: if_splits)
  then have "c \<in> set ?cs" by (auto simp: hybrid_scores_def Let_def)
  then have "bm25_score ?qs (text_or_empty c ''text'') \<noteq> 0" by (auto simp: candidate_chunks_def chunk_cosine_def)
  then have "map lower_char (text_or_empty c ''text'') \<in> set ?qs" unfolding bm25_score_def by (rule bm25_whole)
  then show ?thesis by (auto simp: search_words_whole split: if_splits)
qed

text \<open>A chunk that is found by its keyword.\<close>

definition equality_env :: rag_env where
  "equality_env = \<lparr> rg_clock = 1, rg_now = 1, rg_size = 900, rg_overlap = 120, rg_page = 2, rg_embed = (\<lambda>x. None), rg_cosine = (\<lambda>v w. 0),
     rg_log = (\<lambda>r. 0), rg_show = (\<lambda>n. []) \<rparr>"

definition one_chunk :: table where
  "one_chunk = [((''u1'', ''rag-chunks'', ''d-0''), JObj [(''id'', JStr ''d-0''), (''text'', JStr ''Rent'')], 1)]"

theorem keyword_search_is_equality_witness:
  "\<exists>c r. (c, r) \<in> set (rag_search equality_env plain_store (\<lambda>ow v n. None) ''u1'' ''rent'' 5 None one_chunk)
     \<and> map lower_char (text_or_empty c ''text'') = map lower_char ''rent''"
proof -
  let ?hits = "rag_search equality_env plain_store (\<lambda>ow v n. None) ''u1'' ''rent'' 5 None one_chunk"
  have "map (\<lambda>h. jid (fst h)) ?hits = [''d-0'']" by code_simp
  then obtain h where h: "h \<in> set ?hits" by (cases ?hits) auto
  have e: "rg_embed equality_env ''rent'' = None" by (simp add: equality_env_def)
  have "(fst h, snd h) \<in> set ?hits" using h by simp
  with keyword_search_is_equality [OF e this] show ?thesis by blast
qed

section \<open>The best hits\<close>

abbreviation by_score :: "(json \<times> rat) list \<Rightarrow> (json \<times> rat) list" where
  "by_score \<equiv> sort_key (\<lambda>h. - snd h)"

text \<open>The place of a new hit in a sorted list: after those with the same score.\<close>

fun placed :: "json \<times> rat \<Rightarrow> (json \<times> rat) list \<Rightarrow> (json \<times> rat) list" where
  "placed h [] = [h]"
| "placed h (x # xs) = (if snd h \<le> snd x then x # placed h xs else h # x # xs)"

lemma set_placed: "set (placed h xs) = insert h (set xs)"
  by (induction xs) auto

lemma mset_placed: "mset (placed h xs) = mset (xs @ [h])"
  by (induction xs) auto

lemma sorted_placed:
  "sorted (map (\<lambda>h. - snd h) xs) \<Longrightarrow> sorted (map (\<lambda>h. - snd h) (placed h xs))"
  by (induction xs) (fastforce simp: set_placed)+

lemma filter_placed: "sorted (map (\<lambda>h. - snd h) xs) \<Longrightarrow> filter (\<lambda>x. k = - snd x) (placed h xs) = filter (\<lambda>x. k = - snd x) (xs @ [h])"
proof (induction xs)
  case (Cons x xs)
  show ?case
  proof (cases "snd h \<le> snd x")
    case False
    then have "k = - snd h \<Longrightarrow> filter (\<lambda>y. k = - snd y) (x # xs) = []" using Cons.prems by (fastforce simp: filter_empty_conv)
    then show ?thesis using False by auto
  qed (use Cons in auto)
qed simp

lemma by_score_snoc: "by_score (xs @ [h]) = placed h (by_score xs)"
proof (rule properties_for_sort_key)
  show "mset (placed h (by_score xs)) = mset (xs @ [h])" by (simp add: mset_placed)
  show "sorted (map (\<lambda>h. - snd h) (placed h (by_score xs)))" by (rule sorted_placed) simp
  fix k
  have "filter (\<lambda>x. - snd k = - snd x) (by_score xs) = filter (\<lambda>x. - snd k = - snd x) xs"
    using sort_key_stable [of "\<lambda>h. - snd h" "- snd k" xs] by (simp add: eq_commute)
  then show "filter (\<lambda>x. - snd k = - snd x) (placed h (by_score xs)) = filter (\<lambda>x. - snd k = - snd x) (xs @ [h])"
    by (subst filter_placed) simp_all
qed

lemma take_placed: "take n (placed h (take n ys)) = take n (placed h ys)"
proof (induction n arbitrary: ys)
  case (Suc n)
  then show ?case by (cases ys) (auto simp: take_Cons' min_def)
qed simp

lemma take_placed_low: "n \<le> length ys \<Longrightarrow> \<forall>x\<in>set (take n ys). snd h \<le> snd x \<Longrightarrow> take n (placed h ys) = take n ys"
proof (induction n arbitrary: ys)
  case (Suc n)
  then show ?case by (cases ys) auto
qed simp

lemma last_is_least:
  fixes xs :: "(json \<times> rat) list"
  shows "sorted (map (\<lambda>h. - snd h) xs) \<Longrightarrow> x \<in> set xs \<Longrightarrow> snd (last xs) \<le> snd x"
proof (induction xs)
  case (Cons y ys)
  show ?case
  proof (cases "ys = []")
    case False
    have "\<forall>x\<in>set ys. - snd y \<le> - snd x" using Cons.prems(1) by simp
    then have "snd (last ys) \<le> snd y" using last_in_set [OF False] by (metis neg_le_iff_le)
    then show ?thesis using Cons False by auto
  qed (use Cons in simp)
qed simp

lemma keep_top_sorts:
  assumes "0 < n"
  shows "keep_top n (take n (by_score xs)) h = take n (by_score (xs @ [h]))"
proof -
  let ?ys = "by_score xs"
  have st: "sorted (map (\<lambda>h. - snd h) (take n ?ys))" by (simp add: sorted_wrt_take flip: take_map)
  have id: "by_score (take n ?ys) = take n ?ys" by (rule properties_for_sort_key) (use st in simp_all)
  show ?thesis
  proof (cases "length (take n ?ys) \<ge> n \<and> snd h \<le> snd (last (take n ?ys))")
    case True
    then have "\<forall>x\<in>set (take n ?ys). snd h \<le> snd x" using last_is_least [OF st] by force
    then show ?thesis using True by (simp add: keep_top_def by_score_snoc take_placed_low)
  next
    case False
    then have "keep_top n (take n ?ys) h = take n (by_score (take n ?ys @ [h]))" by (simp only: keep_top_def if_False)
    then show ?thesis by (simp only: by_score_snoc id take_placed)
  qed
qed

text \<open>C37: the bounded list of hits is the best of all candidates: inserting them one by one gives the same list,
  with equal scores in the same order, as sorting all of them and taking the first.\<close>
theorem best_hits_kept:
  assumes "0 < limit"
  shows "fold (\<lambda>h best. keep_top limit best h) hs [] = take limit (sort_key (\<lambda>h. - snd h) hs)"
proof (induction hs rule: rev_induct)
  case (snoc h hs)
  then show ?case using keep_top_sorts [OF assms, of hs h] by simp
qed simp

theorem best_hits_kept_witness:
  "fold (\<lambda>h best. keep_top 2 best h) [(JNum 1, 1), (JNum 2, 3), (JNum 3, 2)] [] = [(JNum 2, 3), (JNum 3, 2)]"
proof -
  have "(0 :: nat) < 2" by simp
  from best_hits_kept [OF this, of "[(JNum 1, 1), (JNum 2, 3), (JNum 3, 2)]"] show ?thesis by simp
qed

section \<open>The pages\<close>

definition cursor_at :: "row list \<Rightarrow> nat \<Rightarrow> (int \<times> string) option" where
  "cursor_at rs m = (case m of 0 \<Rightarrow> None | Suc i \<Rightarrow> Some (row_updated (rs ! i), row_id (rs ! i)))"

lemma page_at:
  assumes "table_ok d" "m \<le> length (list_rows ow k None d)"
  shows "st_list_paged ow k \<lparr> lo_limit = Some n, lo_cursor = cursor_at (list_rows ow k None d) m \<rparr> d
    = map (\<lambda>r. (row_data r, row_updated r)) (take n (drop m (list_rows ow k None d)))"
proof (cases m)
  case (Suc i)
  then show ?thesis using list_rows_page [OF assms(1), of i ow k] assms(2) by (simp add: cursor_at_def st_list_paged_def opt_take_def)
qed (simp add: cursor_at_def st_list_paged_def opt_take_def)

lemma pages_from:
  assumes "table_ok d" "\<forall>r\<in>set (list_rows ow k None d). jid (row_data r) = row_id r" "0 < page"
    and "m \<le> length (list_rows ow k None d)" "length (list_rows ow k None d) < n + m"
  shows "all_pages plain_store ow k page n (cursor_at (list_rows ow k None d) m) d = map row_data (drop m (list_rows ow k None d))"
  using assms(4,5)
proof (induction n arbitrary: m)
  case (Suc n)
  let ?rs = "list_rows ow k None d"
  let ?p = "take page (drop m ?rs)"
  have pg: "st_list_paged ow k \<lparr> lo_limit = Some page, lo_cursor = cursor_at ?rs m \<rparr> d = map (\<lambda>r. (row_data r, row_updated r)) ?p"
    by (rule page_at [OF assms(1) Suc.prems(1)])
  have m1: "map fst (map (\<lambda>r. (row_data r, row_updated r)) xs) = map row_data xs" for xs :: "row list" by simp
  show ?case
  proof (cases "drop m ?rs = []")
    case True
    then show ?thesis by (simp add: pg)
  next
    case False
    then have l: "m < length ?rs" by simp
    show ?thesis
    proof (cases "length ?rs - m < page")
      case True
      then have "?p = drop m ?rs" by simp
      then show ?thesis using True False l assms(3) by (simp add: pg Let_def)
    next
      case no: False
      then have len: "length ?p = page" "m + page \<le> length ?rs" "?p \<noteq> []" using assms(3) l by auto
      have lp: "last ?p = ?rs ! (m + page - 1)" using len assms(3) by (simp add: last_conv_nth)
      then have in_rs: "last ?p \<in> set ?rs" using len assms(3) by (simp add: nth_mem)
      have cur: "Some (snd (last (map (\<lambda>r. (row_data r, row_updated r)) ?p)), jid (fst (last (map (\<lambda>r. (row_data r, row_updated r)) ?p)))) = cursor_at ?rs (m + page)"
        using len(3) lp assms(2,3) in_rs by (cases page) (simp_all add: last_map cursor_at_def)
      have "all_pages plain_store ow k page n (cursor_at ?rs (m + page)) d = map row_data (drop (m + page) ?rs)"
        using Suc.IH [of "m + page"] Suc.prems(2) len(2) assms(3) by simp
      moreover have "map row_data ?p @ map row_data (drop (m + page) ?rs) = map row_data (drop m ?rs)"
        by (simp only: map_append [symmetric] add.commute [of m page] drop_drop [symmetric] append_take_drop_id)
      ultimately show ?thesis using len no by (simp only: all_pages.simps plain_store_sel pg Let_def m1 cur) simp
    qed
  qed
qed simp

text \<open>C35: the search reads the whole index.  Page by page, with the last row of a page as the cursor of the next, it
  sees each row of the owner once, in the order of the full listing, whatever the size of a page.\<close>
theorem pages_cover_index:
  assumes "table_ok d" "\<forall>r\<in>set (list_rows ow k None d). jid (row_data r) = row_id r" "0 < page"
  shows "all_pages plain_store ow k page (st_count ow k d + 1) None d = map row_data (list_rows ow k None d)"
proof -
  have "length (list_rows ow k None d) = st_count ow k d" by (simp add: list_rows_def st_count_def after_cursor_def)
  then show ?thesis using pages_from [OF assms, of 0 "st_count ow k d + 1"] by (simp add: cursor_at_def)
qed

definition three_chunks :: table where
  "three_chunks = [((''u1'', ''rag-chunks'', ''a''), JObj [(''id'', JStr ''a'')], 1), ((''u1'', ''rag-chunks'', ''b''), JObj [(''id'', JStr ''b'')], 1),
     ((''u1'', ''rag-chunks'', ''c''), JObj [(''id'', JStr ''c'')], 2)]"

theorem pages_cover_index_witness:
  "map jid (all_pages plain_store ''u1'' ''rag-chunks'' 2 (st_count ''u1'' ''rag-chunks'' three_chunks + 1) None three_chunks) = [''c'', ''a'', ''b'']"
proof -
  have t: "table_ok three_chunks" by (simp add: three_chunks_def table_ok_def)
  have l: "list_rows ''u1'' ''rag-chunks'' None three_chunks = [((''u1'', ''rag-chunks'', ''c''), JObj [(''id'', JStr ''c'')], 2),
     ((''u1'', ''rag-chunks'', ''a''), JObj [(''id'', JStr ''a'')], 1), ((''u1'', ''rag-chunks'', ''b''), JObj [(''id'', JStr ''b'')], 1)]"
    by code_simp
  have j: "\<forall>r\<in>set (list_rows ''u1'' ''rag-chunks'' None three_chunks). jid (row_data r) = row_id r" by (simp add: l jid_def jtext_def)
  have "(0 :: nat) < 2" by simp
  from pages_cover_index [OF t j this] show ?thesis by (simp add: l jid_def jtext_def)
qed

end
