(* ===== verification/Files.thy ===== *)
theory Files
  imports RagProps Accounts
begin

text \<open>
  The files of an owner (apps/server/src/files.ts): their rows in the store and their bytes on disk, in one
  directory per tenant.  Bytes are a text; the reading and filling of PDF, the decoding of UTF-8, the signing
  of links and the random identifiers are arguments.
\<close>

section \<open>Names and types\<close>

definition mime_table :: "(string \<times> string) list" where
  "mime_table = [(''pdf'', ''application/pdf''), (''png'', ''image/png''), (''jpg'', ''image/jpeg''), (''jpeg'', ''image/jpeg''), (''gif'', ''image/gif''),
     (''webp'', ''image/webp''), (''svg'', ''image/svg+xml''), (''txt'', ''text/plain''), (''md'', ''text/markdown''), (''csv'', ''text/csv''),
     (''json'', ''application/json''), (''yml'', ''text/yaml''), (''yaml'', ''text/yaml''), (''xml'', ''application/xml''), (''doc'', ''application/msword''),
     (''docx'', ''application/vnd.openxmlformats-officedocument.wordprocessingml.document''), (''xls'', ''application/vnd.ms-excel''),
     (''xlsx'', ''application/vnd.openxmlformats-officedocument.spreadsheetml.sheet''), (''ppt'', ''application/vnd.ms-powerpoint''),
     (''pptx'', ''application/vnd.openxmlformats-officedocument.presentationml.presentation''), (''odt'', ''application/vnd.oasis.opendocument.text''),
     (''ods'', ''application/vnd.oasis.opendocument.spreadsheet''), (''zip'', ''application/zip'')]"

definition extension_of :: "string \<Rightarrow> string" where
  "extension_of name = (if CHR ''.'' \<in> set name then map lower_char (rev (takeWhile (\<lambda>c. c \<noteq> CHR ''.'') (rev name))) else [])"

text \<open>The table is an object: the extensions \<open>constructor\<close> and \<open>__proto__\<close> find what every object inherits, which
  is no text, and the code then fails on it.\<close>

datatype mime_found = Mime string | NoMime | Inherited

definition mime_from_name :: "string \<Rightarrow> mime_found" where
  "mime_from_name name = (let e = extension_of name in if e \<in> {''constructor'', ''__proto__''} then Inherited
     else case map_of mime_table e of None \<Rightarrow> NoMime | Some x \<Rightarrow> Mime x)"

definition safe_name :: "string \<Rightarrow> string" where
  "safe_name name = take 180 (filter (\<lambda>c. let n = of_char c :: nat in 32 \<le> n \<and> n \<noteq> 127)
     (rev (takeWhile (\<lambda>c. c \<noteq> CHR 0x5C \<and> c \<noteq> CHR ''/'') (rev name))))"

definition text_type :: "string \<Rightarrow> bool" where
  "text_type x \<longleftrightarrow> take 5 x = ''text/'' \<or> x = ''application/json'' \<or> x = ''application/xml''"

section \<open>State\<close>

record 's files_desk =
  fk_db :: 's
  fk_disk :: "string \<times> string \<Rightarrow> string option"

record files_env =
  fe_clock :: int
  fe_now :: int
  fe_rag :: rag_env
  fe_inspect :: "string \<Rightarrow> (nat \<times> json) res"
  fe_fill :: "string \<Rightarrow> json \<Rightarrow> string res"
  fe_decode :: "string \<Rightarrow> string"
  fe_sign :: "string \<Rightarrow> string \<Rightarrow> string"

definition signed :: "files_env \<Rightarrow> string \<Rightarrow> json \<Rightarrow> json" where
  "signed env ow f = jset ''url'' (JStr (fe_sign env ow (''/api/files/'' @ jid f @ ''/content''))) f"

definition file_get :: "'s store \<Rightarrow> string \<Rightarrow> string \<Rightarrow> 's files_desk \<Rightarrow> json res" where
  "file_get S ow i u = (case s_get S ow ''files'' i (fk_db u) of None \<Rightarrow> Inl (AppError ''File not found'' 404) | Some f \<Rightarrow> Inr f)"

definition file_list :: "files_env \<Rightarrow> 's store \<Rightarrow> string \<Rightarrow> 's files_desk \<Rightarrow> json list" where
  "file_list env S ow u = map (signed env ow) (s_list S ow ''files'' no_options (fk_db u))"

definition file_bytes :: "'s store \<Rightarrow> string \<Rightarrow> string \<Rightarrow> string \<Rightarrow> 's files_desk \<Rightarrow> string res" where
  "file_bytes S ow i tenant u = (case file_get S ow i u of Inl e \<Rightarrow> Inl e
     | Inr _ \<Rightarrow> (case fk_disk u (tenant, i @ ''.bin'') of Some b \<Rightarrow> Inr b
       | None \<Rightarrow> (case fk_disk u (tenant, i @ ''.pdf'') of Some b \<Rightarrow> Inr b | None \<Rightarrow> Inl (JsError ''ENOENT''))))"

section \<open>Importing\<close>

definition artifact :: "files_env \<Rightarrow> string \<Rightarrow> string \<Rightarrow> string \<Rightarrow> nat \<Rightarrow> nat \<times> json \<Rightarrow> string \<Rightarrow> string option \<Rightarrow> json" where
  "artifact env i name mime sz pdf source parent = JObj ([(''id'', JStr i), (''name'', JStr name), (''mimeType'', JStr mime), (''size'', JNum (of_nat sz)),
     (''pageCount'', JNum (of_nat (fst pdf))), (''fields'', snd pdf), (''url'', JStr []), (''createdAt'', JDate (fe_now env)), (''source'', JStr source)]
     @ present ''parentId'' JStr parent)"

text \<open>The index of a text file: at most 1000 chunks.  \<open>None\<close> when cutting the text does not end.\<close>

definition index_file :: "files_env \<Rightarrow> 's store \<Rightarrow> string \<Rightarrow> string \<Rightarrow> string \<Rightarrow> string \<Rightarrow> string \<Rightarrow> 's \<Rightarrow> 's option" where
  "index_file env S ow i name mime bytes s = (if \<not> text_type mime then Some s
     else map_option (\<lambda>cs. put_chunks (fe_rag env) S ow i name 0 (take 1000 cs) s)
       (chunk_text (rg_size (fe_rag env)) (rg_overlap (fe_rag env)) (fe_decode env bytes)))"

definition import_file :: "files_env \<Rightarrow> 's store \<Rightarrow> string \<Rightarrow> string \<Rightarrow> string \<Rightarrow> string \<Rightarrow> string \<Rightarrow> string \<Rightarrow> string option \<Rightarrow> 's files_desk \<Rightarrow>
    (json res \<times> 's files_desk) option" where
  "import_file env S i ow name bytes source tenant parent u =
     (if bytes = [] then Some (Inl (AppError ''Empty file'' 422), u)
      else if length bytes > 10485760 then Some (Inl (AppError ''Files must be 10 MB or smaller'' 413), u)
      else case (case parent of None \<Rightarrow> Inr JNull | Some p \<Rightarrow> file_get S ow p u) of
        Inl e \<Rightarrow> Some (Inl e, u)
      | Inr _ \<Rightarrow> (case mime_from_name (safe_name name) of
          NoMime \<Rightarrow> Some (Inl (AppError (''Unsupported file type'' @ (if extension_of (safe_name name) = [] then [] else '' (.'' @ extension_of (safe_name name) @ '')'')
            @ ''. Allowed: PDF, images, text, Office docs, zip.'') 422), u)
        | Inherited \<Rightarrow> Some (Inl (JsError ''mime.startsWith is not a function''), u)
        | Mime mime \<Rightarrow> (case (if mime = ''application/pdf'' then fe_inspect env bytes else Inr (0, JArr [])) of
            Inl e \<Rightarrow> Some (Inl e, u)
          | Inr pdf \<Rightarrow> if fst pdf > 500 then Some (Inl (AppError ''PDFs must have 500 pages or fewer'' 422), u)
              else let a = artifact env i (safe_name name) mime (length bytes) pdf source parent;
                       s1 = s_put S (fe_clock env) ow ''files'' a (fk_db u);
                       disk = (fk_disk u)((tenant, i @ ''.bin'') \<mapsto> bytes)
                in map_option (\<lambda>s2. (Inr (signed env ow a), \<lparr> fk_db = s2, fk_disk = disk \<rparr>)) (index_file env S ow i (safe_name name) mime bytes s1))))"

section \<open>Filling a form\<close>

definition drop_pdf :: "string \<Rightarrow> string" where
  "drop_pdf name = (if map lower_char (drop (length name - 4) name) = ''.pdf'' then take (length name - 4) name else name)"

definition filled_before :: "'s store \<Rightarrow> string \<Rightarrow> json \<Rightarrow> 's files_desk \<Rightarrow> json option" where
  "filled_before S ow f u = find (\<lambda>g. jtext g ''parentId'' = Some (jid f) \<and> jtext g ''source'' = Some (''Filled from '' @ text_or_empty f ''name''))
     (s_list S ow ''files'' \<lparr> lo_limit = Some 500, lo_cursor = None \<rparr> (fk_db u))"

definition fill_file :: "files_env \<Rightarrow> 's store \<Rightarrow> string \<Rightarrow> string \<Rightarrow> string \<Rightarrow> json \<Rightarrow> 's files_desk \<Rightarrow> (json res \<times> 's files_desk) option" where
  "fill_file env S new ow i vals u = (case file_get S ow i u of
     Inl e \<Rightarrow> Some (Inl e, u)
   | Inr f \<Rightarrow> if jtext f ''mimeType'' \<noteq> Some ''application/pdf'' then Some (Inl (AppError ''Only PDF forms can be filled'' 422), u)
       else case filled_before S ow f u of
         Some g \<Rightarrow> Some (Inr (signed env ow g), u)
       | None \<Rightarrow> (case file_bytes S ow i ''default'' u of
           Inl e \<Rightarrow> Some (Inl e, u)
         | Inr b \<Rightarrow> (case fe_fill env b vals of
             Inl e \<Rightarrow> Some (Inl e, u)
           | Inr out \<Rightarrow> import_file env S new ow (drop_pdf (text_or_empty f ''name'') @ '' - filled.pdf'') out
               (''Filled from '' @ text_or_empty f ''name'') ''default'' (Some i) u)))"

section \<open>What is read back\<close>

lemma put_chunks_other: "k \<noteq> ''rag-chunks'' \<Longrightarrow> st_get ow' k j (put_chunks env plain_store ow source name n cs s) = st_get ow' k j s"
  by (induction cs arbitrary: n s) (simp_all add: st_get_put)

text \<open>C34: a file is read back under the tenant it was imported for, byte by byte, and under no other: there the
  reading fails, unless that tenant already had a file of the same name.\<close>
theorem file_round_trip:
  assumes "import_file env plain_store i ow name bytes source tenant parent u = Some (Inr a, u')"
    and "fk_disk u (t, i @ ''.bin'') = None" "fk_disk u (t, i @ ''.pdf'') = None"
  shows "file_bytes plain_store ow (jid a) t u' = (if t = tenant then Inr bytes else Inl (JsError ''ENOENT''))"
proof -
  obtain mime pdf s2 where a: "a = signed env ow (artifact env i (safe_name name) mime (length bytes) pdf source parent)"
    and s2: "index_file env plain_store ow i (safe_name name) mime bytes
        (st_put (fe_clock env) ow ''files'' (artifact env i (safe_name name) mime (length bytes) pdf source parent) (fk_db u)) = Some s2"
    and u': "u' = \<lparr> fk_db = s2, fk_disk = (fk_disk u)((tenant, i @ ''.bin'') \<mapsto> bytes) \<rparr>"
    using assms(1) by (auto simp: import_file_def Let_def split: if_splits sum.splits mime_found.splits option.splits)
  have j: "jid (artifact env i (safe_name name) mime (length bytes) pdf source parent) = i" "jid a = i"
    by (simp_all add: a signed_def artifact_def jid_def jtext_def)
  have "st_get ow ''files'' i s2 = Some (artifact env i (safe_name name) mime (length bytes) pdf source parent)"
    using s2 by (auto simp: index_file_def put_chunks_other st_get_put j(1) split: if_splits)
  then show ?thesis using assms(2,3) by (auto simp: file_bytes_def file_get_def j(2) u')
qed

text \<open>A form that was filled once is never filled again: other values give the first result.\<close>

lemma filled_once:
  assumes "file_get S ow i u = Inr f" "jtext f ''mimeType'' = Some ''application/pdf''" "filled_before S ow f u = Some g"
  shows "fill_file env S new ow i vals u = Some (Inr (signed env ow g), u)"
  using assms by (simp add: fill_file_def)

definition plain_files :: files_env where
  "plain_files = \<lparr> fe_clock = 1, fe_now = 1, fe_rag = equality_env, fe_inspect = (\<lambda>b. Inr (1, JArr [])), fe_fill = (\<lambda>b v. Inr b),
     fe_decode = (\<lambda>b. b), fe_sign = (\<lambda>ow p. p) \<rparr>"

theorem file_round_trip_witness:
  "\<exists>a u'. import_file plain_files plain_store ''f1'' ''u1'' ''a.png'' ''bytes'' ''Computer'' ''acme'' None \<lparr> fk_db = [], fk_disk = (\<lambda>p. None) \<rparr> = Some (Inr a, u')
     \<and> file_bytes plain_store ''u1'' (jid a) ''acme'' u' = Inr ''bytes'' \<and> file_bytes plain_store ''u1'' (jid a) ''default'' u' = Inl (JsError ''ENOENT'')"
proof -
  let ?u = "\<lparr> fk_db = [], fk_disk = (\<lambda>p. None) \<rparr>"
  have m: "safe_name ''a.png'' = ''a.png''" "mime_from_name ''a.png'' = Mime ''image/png''" by code_simp+
  have t: "\<not> text_type ''image/png''" by (simp add: text_type_def)
  have "\<exists>a u'. import_file plain_files plain_store ''f1'' ''u1'' ''a.png'' ''bytes'' ''Computer'' ''acme'' None ?u = Some (Inr a, u')"
    by (simp add: import_file_def m Let_def index_file_def t)
  then obtain a u' where r: "import_file plain_files plain_store ''f1'' ''u1'' ''a.png'' ''bytes'' ''Computer'' ''acme'' None ?u = Some (Inr a, u')" by blast
  have "file_bytes plain_store ''u1'' (jid a) ''acme'' u' = Inr ''bytes''" using file_round_trip [OF r, of "''acme''"] by simp
  moreover have "file_bytes plain_store ''u1'' (jid a) ''default'' u' = Inl (JsError ''ENOENT'')" using file_round_trip [OF r, of "''default''"] by simp
  ultimately show ?thesis using r by blast
qed

end
