(* ===== verification/GoogleAuth.thy ===== *)
theory GoogleAuth
  imports StoreContract Actions Promote
begin

text \<open>
  The connection to Google (apps/server/src/google-auth.ts): the credential of an owner with its generation,
  the consent that is asked for and comes back, the refresh of an access token, and the disconnection.  Google
  answers through arguments; \<open>seal\<close> and \<open>unseal\<close> are the encryption of the vault.  Between two calls of the
  store other requests act: those are the arguments \<open>o1\<close>, \<open>o2\<close> and \<open>os\<close>.
\<close>

section \<open>Data\<close>

record google_tokens =
  tk_connection :: string
  tk_access :: string
  tk_refresh :: "string option"
  tk_expires :: int
  tk_scopes :: "string list"
  tk_account :: string

record token_answer =
  ta_access :: string
  ta_refresh :: "string option"
  ta_seconds :: int
  ta_scopes :: "string list option"

text \<open>An answer of Google: understood, not ok, or none (a timeout or a body that does not parse).  A revocation that
  Google answers with 400 counts as understood.\<close>

datatype 'a http_answer = HttpOk 'a | HttpRefused | HttpBroken err

record google_env =
  gg_clock :: int
  gg_now :: int
  gg_configured :: bool
  gg_key :: bool
  gg_seal :: "google_tokens \<Rightarrow> string"
  gg_unseal :: "string \<Rightarrow> google_tokens option"
  gg_exchange :: "string \<Rightarrow> string \<Rightarrow> token_answer http_answer"
  gg_profile :: "string \<Rightarrow> string http_answer"
  gg_renew :: "string \<Rightarrow> token_answer http_answer"
  gg_revoke :: "string \<Rightarrow> unit http_answer"

abbreviation no_key :: err where
  "no_key \<equiv> AppError ''TOKEN_ENCRYPTION_KEY is not configured'' 503"

abbreviation signin_changed :: err where
  "signin_changed \<equiv> AppError ''Google sign-in changed or was disconnected. Connect again.'' 409"

section \<open>The credential\<close>

definition credential_of :: "'s store \<Rightarrow> string \<Rightarrow> 's \<Rightarrow> json option" where
  "credential_of S ow s = s_get S ow ''credentials'' ''google'' s"

definition decode_tokens :: "google_env \<Rightarrow> json option \<Rightarrow> google_tokens option res" where
  "decode_tokens env stored = (case Option.bind stored (\<lambda>j. truthy_text j ''secret'') of
     None \<Rightarrow> Inr None
   | Some x \<Rightarrow> if \<not> gg_key env then Inl no_key
       else (case gg_unseal env x of None \<Rightarrow> Inl (JsError ''Unable to authenticate or decrypt credential'') | Some t \<Rightarrow> Inr (Some t)))"

definition tokens :: "google_env \<Rightarrow> 's store \<Rightarrow> string \<Rightarrow> 's \<Rightarrow> google_tokens option res" where
  "tokens env S ow s = decode_tokens env (credential_of S ow s)"

definition save_tokens :: "google_env \<Rightarrow> 's store \<Rightarrow> string \<Rightarrow> google_tokens \<Rightarrow> string \<Rightarrow> string \<Rightarrow> 's \<Rightarrow> unit res \<times> 's" where
  "save_tokens env S ow t generation fresh s = (if \<not> gg_key env then (Inl no_key, s)
     else case s_cas S (gg_clock env) ow ''credentials'' ''google'' (JObj [(''generation'', JStr generation)])
            (JObj [(''generation'', JStr fresh), (''connectionId'', JStr (tk_connection t)), (''secret'', JStr (gg_seal env t))]) s of
       (None, s') \<Rightarrow> (Inl signin_changed, s')
     | (Some _, s') \<Rightarrow> (Inr (), s'))"

text \<open>One attempt to write a new generation, with what others do between its read and its write.\<close>

definition rotate_once :: "google_env \<Rightarrow> 's store \<Rightarrow> string \<Rightarrow> bool \<Rightarrow> string \<Rightarrow> ('s \<Rightarrow> 's) \<Rightarrow> 's \<Rightarrow> json option option \<times> 's" where
  "rotate_once env S ow disc generation others s = (case credential_of S ow s of
     None \<Rightarrow> (case s_insert S (gg_clock env) ow ''credentials''
          (JObj [(''id'', JStr ''google''), (''generation'', JStr generation), (''connectionId'', JNull), (''secret'', JNull)]) (others s) of
        (r, s') \<Rightarrow> (if r = None then None else Some None, s'))
   | Some prev \<Rightarrow> (case s_cas S (gg_clock env) ow ''credentials'' ''google'' prev
          (JObj ((''generation'', JStr generation) # (if disc then [(''connectionId'', JNull), (''secret'', JNull)] else []))) (others s) of
        (r, s') \<Rightarrow> (if r = None then None else Some (Some prev), s')))"

text \<open>The loop: one attempt for each disturbance in \<open>os\<close>, and one without.  \<open>None\<close> would be to try again.\<close>

fun rotate_generation :: "google_env \<Rightarrow> 's store \<Rightarrow> string \<Rightarrow> bool \<Rightarrow> string \<Rightarrow> ('s \<Rightarrow> 's) list \<Rightarrow> 's \<Rightarrow> json option option \<times> 's" where
  "rotate_generation env S ow disc generation [] s = rotate_once env S ow disc generation (\<lambda>s. s) s"
| "rotate_generation env S ow disc generation (x # xs) s = (case rotate_once env S ow disc generation x s of
     (Some r, s') \<Rightarrow> (Some r, s')
   | (None, s') \<Rightarrow> rotate_generation env S ow disc generation xs s')"

section \<open>Connecting\<close>

definition google_scope :: "string \<Rightarrow> string" where
  "google_scope x = ''https://www.googleapis.com/auth/'' @ x"

definition read_scopes :: "string list" where
  "read_scopes = map google_scope [''gmail.readonly'', ''calendar.events.readonly'', ''calendar.calendarlist.readonly'', ''drive.readonly'']"

definition write_scopes :: "string list" where
  "write_scopes = [''https://mail.google.com/''] @ map google_scope [''gmail.send'', ''gmail.modify'', ''calendar'', ''calendar.events'', ''drive'']
     @ [''openid''] @ map google_scope [''userinfo.email'', ''userinfo.profile'']"

text \<open>The answer is the state and the scopes of the URL; \<open>tenant\<close> is that of the request.\<close>

definition connect :: "google_env \<Rightarrow> 's store \<Rightarrow> 's store \<Rightarrow> string \<Rightarrow> bool \<Rightarrow> string \<Rightarrow> string \<Rightarrow> string \<Rightarrow> string option \<Rightarrow> ('s \<Rightarrow> 's) list \<Rightarrow> 's \<Rightarrow>
    (string \<times> string list) res option \<times> 's" where
  "connect env S St ow wr state verifier generation tenant os s = (if \<not> gg_configured env
     then (Some (Inl (AppError ''Configure GOOGLE_CLIENT_ID, GOOGLE_CLIENT_SECRET and TOKEN_ENCRYPTION_KEY to connect Google'' 503)), s)
     else case rotate_generation env S ow False generation os s of
       (None, s1) \<Rightarrow> (None, s1)
     | (Some previous, s1) \<Rightarrow> (case decode_tokens env previous of
         Inl e \<Rightarrow> (Some (Inl e), s1)
       | Inr existing \<Rightarrow> (let scopes = first_seen (read_scopes @ (case existing of None \<Rightarrow> [] | Some t \<Rightarrow> tk_scopes t) @ (if wr then write_scopes else [])) in
           (Some (Inr (state, scopes)), s_put St (gg_clock env) ''system'' ''oauth'' (JObj ([(''id'', JStr state), (''owner'', JStr ow)]
              @ present ''tenantId'' JStr (given_text tenant)
              @ [(''expiresAt'', JNum (of_int (gg_now env + 600000))), (''verifier'', JStr verifier), (''scopes'', JArr (map JStr scopes)), (''generation'', JStr generation)])) s1))))"

definition finish_callback :: "google_env \<Rightarrow> 's store \<Rightarrow> json \<Rightarrow> string \<Rightarrow> string \<Rightarrow> string \<Rightarrow> ('s \<Rightarrow> 's) \<Rightarrow> ('s \<Rightarrow> 's) \<Rightarrow> 's \<Rightarrow> unit res \<times> 's" where
  "finish_callback env S st code conn fresh o1 o2 s = (let ow = text_or_empty st ''owner'' in
     case truthy_text st ''generation'' of
       None \<Rightarrow> (Inl signin_changed, s)
     | Some g \<Rightarrow> if Option.bind (credential_of S ow s) (\<lambda>c. jtext c ''generation'') \<noteq> Some g then (Inl signin_changed, s)
       else case gg_exchange env code (text_or_empty st ''verifier'') of
         HttpBroken e \<Rightarrow> (Inl e, o1 s)
       | HttpRefused \<Rightarrow> (Inl (AppError ''Google could not complete sign-in. Connect again.'' 502), o1 s)
       | HttpOk a \<Rightarrow> (case gg_profile env (ta_access a) of
           HttpBroken e \<Rightarrow> (Inl e, o1 s)
         | HttpRefused \<Rightarrow> (Inl (AppError ''Google did not grant Gmail read access. Connect again.'' 403), o1 s)
         | HttpOk email \<Rightarrow> (case tokens env S ow (o1 s) of
             Inl e \<Rightarrow> (Inl e, o1 s)
           | Inr previous \<Rightarrow> save_tokens env S ow \<lparr> tk_connection = conn, tk_access = ta_access a,
                 tk_refresh = (case ta_refresh a of Some r \<Rightarrow> Some r
                   | None \<Rightarrow> (case previous of None \<Rightarrow> None | Some p \<Rightarrow> if tk_account p = email then tk_refresh p else None)),
                 tk_expires = gg_now env + ta_seconds a * 1000,
                 tk_scopes = (case ta_scopes a of Some x \<Rightarrow> x | None \<Rightarrow> List.map_filter as_text (jarr (jget st ''scopes''))),
                 tk_account = email \<rparr> g fresh (o2 (o1 s)))))"

text \<open>\<open>scope\<close> is the store of a tenant; without one it is the request's.\<close>

definition callback :: "google_env \<Rightarrow> (string option \<Rightarrow> 's store) \<Rightarrow> 's store \<Rightarrow> string \<Rightarrow> string \<Rightarrow> string \<Rightarrow> string \<Rightarrow> ('s \<Rightarrow> 's) \<Rightarrow> ('s \<Rightarrow> 's) \<Rightarrow> 's \<Rightarrow>
    unit res \<times> 's" where
  "callback env scope St state_id code conn fresh o1 o2 s = (case s_take St ''system'' ''oauth'' state_id s of
     (None, s1) \<Rightarrow> (Inl (AppError ''Google sign-in expired. Connect again.'' 400), s1)
   | (Some st, s1) \<Rightarrow> if (case jnum (jget st ''expiresAt'') of None \<Rightarrow> False | Some t \<Rightarrow> t < of_int (gg_now env))
       then (Inl (AppError ''Google sign-in expired. Connect again.'' 400), s1)
       else finish_callback env (scope (truthy_text st ''tenantId'')) st code conn fresh o1 o2 s1)"

section \<open>Access tokens\<close>

text \<open>\<open>upd\<close> is \<open>updateCredential\<close> of the store.\<close>

definition refresh :: "google_env \<Rightarrow> (int \<Rightarrow> string \<Rightarrow> string \<Rightarrow> string \<Rightarrow> 's \<Rightarrow> bool \<times> 's) \<Rightarrow> string \<Rightarrow> google_tokens \<Rightarrow> ('s \<Rightarrow> 's) \<Rightarrow> 's \<Rightarrow> string res \<times> 's" where
  "refresh env upd ow t o1 s = (case given_text (tk_refresh t) of
     None \<Rightarrow> (Inl (AppError ''Google session expired. Connect again.'' 401), s)
   | Some r \<Rightarrow> (case gg_renew env r of
       HttpBroken e \<Rightarrow> (Inl e, o1 s)
     | HttpRefused \<Rightarrow> (Inl (AppError ''Google session expired. Connect again.'' 401), o1 s)
     | HttpOk a \<Rightarrow> if \<not> gg_key env then (Inl (AppError ''Token encryption is not configured'' 503), o1 s)
         else (case upd (gg_clock env) ow (tk_connection t) (gg_seal env (t\<lparr> tk_access := ta_access a, tk_expires := gg_now env + ta_seconds a * 1000 \<rparr>)) (o1 s) of
           (ok, s') \<Rightarrow> (if ok then Inr (ta_access a) else Inl (AppError ''Google account changed or was disconnected during refresh'' 409), s'))))"

text \<open>\<open>pending\<close> is the refresh of the same connection that is under way in the process, if there is one.\<close>

definition access_token :: "google_env \<Rightarrow> 's store \<Rightarrow> (int \<Rightarrow> string \<Rightarrow> string \<Rightarrow> string \<Rightarrow> 's \<Rightarrow> bool \<times> 's) \<Rightarrow> string \<Rightarrow> string option \<Rightarrow>
    (string \<Rightarrow> string res option) \<Rightarrow> ('s \<Rightarrow> 's) \<Rightarrow> 's \<Rightarrow> string res \<times> 's" where
  "access_token env S upd ow expected pending o1 s = (case tokens env S ow s of
     Inl e \<Rightarrow> (Inl e, s)
   | Inr None \<Rightarrow> (Inl (AppError ''Google is disconnected'' 409), s)
   | Inr (Some t) \<Rightarrow>
       if (case given_text expected of None \<Rightarrow> False | Some c \<Rightarrow> tk_connection t \<noteq> c)
       then (Inl (AppError ''Google account or connection changed. Prepare a new action.'' 409), s)
       else if tk_expires t > gg_now env + 60000 then (Inr (tk_access t), s)
       else case pending (ow @ '':'' @ tk_connection t) of Some r \<Rightarrow> (r, s) | None \<Rightarrow> refresh env upd ow t o1 s)"

section \<open>Disconnecting\<close>

definition disconnect :: "google_env \<Rightarrow> 's store \<Rightarrow> string \<Rightarrow> string \<Rightarrow> ('s \<Rightarrow> 's) list \<Rightarrow> 's \<Rightarrow> unit res option \<times> 's" where
  "disconnect env S ow generation os s = (case rotate_generation env S ow True generation os s of
     (None, s1) \<Rightarrow> (None, s1)
   | (Some previous, s1) \<Rightarrow> (Some (case decode_tokens env previous of
         Inl e \<Rightarrow> Inl e
       | Inr None \<Rightarrow> Inr ()
       | Inr (Some t) \<Rightarrow> (case gg_revoke env (case tk_refresh t of Some r \<Rightarrow> r | None \<Rightarrow> tk_access t) of
           HttpOk _ \<Rightarrow> Inr ()
         | HttpRefused \<Rightarrow> Inl (AppError ''Disconnected locally. Google revocation failed; remove access in your Google account settings.'' 502)
         | HttpBroken e \<Rightarrow> Inl e)), s1))"

section \<open>Nothing brings a connection back\<close>

text \<open>The row that a disconnection leaves.\<close>

definition disconnected_row :: "string \<Rightarrow> json \<Rightarrow> bool" where
  "disconnected_row g c \<longleftrightarrow> jget c ''generation'' = Some (JStr g) \<and> jget c ''connectionId'' = Some JNull \<and> jget c ''secret'' = Some JNull"

text \<open>The row of a credential is a JSON object, as every row.\<close>

definition credential_obj :: "string \<Rightarrow> table \<Rightarrow> bool" where
  "credential_obj ow s \<longleftrightarrow> (case credential_of plain_store ow s of None \<Rightarrow> True | Some c \<Rightarrow> is_obj c)"

lemma merged_obj: "is_obj (jmerge j (JObj fs)) \<Longrightarrow> is_obj j"
  by (cases j) (simp_all add: jmerge_def is_obj_def)

lemma rotate_once_leaves:
  assumes "rotate_once env plain_store ow True g others s = (Some r, s')" "credential_obj ow s'"
  obtains c where "st_get ow ''credentials'' ''google'' s' = Some c" "disconnected_row g c"
proof (cases "st_get ow ''credentials'' ''google'' s")
  case None
  let ?new = "JObj [(''id'', JStr ''google''), (''generation'', JStr g), (''connectionId'', JNull), (''secret'', JNull)]"
  have "st_get ow ''credentials'' ''google'' s' = Some ?new"
    using assms None by (auto simp: rotate_once_def credential_of_def st_insert_def st_get_def jid_def jtext_def split: prod.splits if_splits option.splits)
  then show ?thesis using that by (auto simp: disconnected_row_def)
next
  case (Some prev)
  let ?p = "JObj [(''generation'', JStr g), (''connectionId'', JNull), (''secret'', JNull)]"
  obtain j where j: "st_get ow ''credentials'' ''google'' (others s) = Some j" "jcontains j prev" "st_get ow ''credentials'' ''google'' s' = Some (jmerge j ?p)"
    using assms Some by (auto simp: rotate_once_def credential_of_def st_cas_def Let_def st_get_def split: prod.splits if_splits option.splits)
  have "is_obj j" using assms(2) j(3) by (auto simp: credential_obj_def credential_of_def dest: merged_obj)
  then show ?thesis using that j by (auto simp: disconnected_row_def jget_jmerge)
qed

lemma rotation_leaves:
  assumes "rotate_generation env plain_store ow True g os s = (Some r, s')" "credential_obj ow s'"
  obtains c where "st_get ow ''credentials'' ''google'' s' = Some c" "disconnected_row g c"
  using assms
proof (induction os arbitrary: s)
  case Nil
  then show ?case using rotate_once_leaves [of env ow g "\<lambda>s. s" s r s'] by auto
next
  case (Cons x os)
  show ?case
  proof (cases "rotate_once env plain_store ow True g x s")
    case (Pair a t)
    then show ?thesis using Cons rotate_once_leaves [of env ow g x s r s'] by (cases a) auto
  qed
qed

lemma save_refused:
  assumes "st_get ow ''credentials'' ''google'' s = Some c" "jget c ''generation'' = Some (JStr g')" "g' \<noteq> g"
  shows "\<exists>e. save_tokens env plain_store ow t g fresh s = (Inl e, s)"
  using assms by (auto simp: save_tokens_def st_cas_def st_get_def dest!: jcontains_field simp: jcontains_JStr split: option.splits)

text \<open>C10: a disconnection is final for what was under way.  Whatever a disconnection answers, once its row is
  written no sign-in that was started before can complete, even one whose consent was already being
  exchanged, and no refresh of an earlier token can store anything: they fail and change nothing.\<close>
theorem disconnect_is_final:
  assumes "disconnect env plain_store ow g os s0 = (Some r, s)" "credential_obj ow s"
    and "text_or_empty st ''owner'' = ow" "truthy_text st ''generation'' \<noteq> Some g" "o2 (o1 s1) = s"
    and "o3 s2 = s"
  shows "(\<exists>e s'. finish_callback env' plain_store st code conn fresh o1 o2 s1 = (Inl e, s') \<and> s' \<in> {s1, o1 s1, s})
    \<and> (\<exists>e s'. refresh env' update_credential ow t o3 s2 = (Inl e, s') \<and> s' \<in> {s2, s})"
proof -
  obtain r' where "rotate_generation env plain_store ow True g os s0 = (Some r', s)"
    using assms(1) by (auto simp: disconnect_def split: prod.splits option.splits)
  then obtain c where c: "st_get ow ''credentials'' ''google'' s = Some c" "disconnected_row g c" using assms(2) by (rule rotation_leaves)
  have save: "\<exists>e. save_tokens env' plain_store ow x y fresh s = (Inl e, s)" if "y \<noteq> g" for x y
    using save_refused [OF c(1)] c(2) that by (simp add: disconnected_row_def)
  have "\<exists>e s'. finish_callback env' plain_store st code conn fresh o1 o2 s1 = (Inl e, s') \<and> s' \<in> {s1, o1 s1, s}"
    using assms(3-5) save by (fastforce simp: finish_callback_def Let_def split: option.splits http_answer.splits sum.splits)
  moreover have "update_credential k ow x y s = (False, s)" for k x y
    using c by (simp add: update_credential_def disconnected_row_def jtext_def)
  then have "\<exists>e s'. refresh env' update_credential ow t o3 s2 = (Inl e, s') \<and> s' \<in> {s2, s}"
    using assms(6) by (auto simp: refresh_def split: option.splits http_answer.splits)
  ultimately show ?thesis by blast
qed

definition google_desk :: google_env where
  "google_desk = \<lparr> gg_clock = 1, gg_now = 1, gg_configured = True, gg_key = True, gg_seal = tk_account, gg_unseal = (\<lambda>x. None),
     gg_exchange = (\<lambda>c v. HttpOk \<lparr> ta_access = ''a'', ta_refresh = None, ta_seconds = 1, ta_scopes = None \<rparr>),
     gg_profile = (\<lambda>a. HttpOk ''x@y''), gg_renew = (\<lambda>r. HttpRefused), gg_revoke = (\<lambda>r. HttpOk ()) \<rparr>"

text \<open>A sign-in that was started with the generation g1, and a disconnection that writes g2.\<close>

definition pending_state :: json where
  "pending_state = JObj [(''id'', JStr ''state''), (''owner'', JStr ''u1''), (''generation'', JStr ''g1'')]"

definition signing_in :: table where
  "signing_in = [((''u1'', ''credentials'', ''google''), JObj [(''id'', JStr ''google''), (''generation'', JStr ''g1''), (''connectionId'', JNull), (''secret'', JNull)], 0)]"

theorem disconnect_is_final_witness:
  "\<exists>s e s'. disconnect google_desk plain_store ''u1'' ''g2'' [] signing_in = (Some (Inr ()), s)
     \<and> finish_callback google_desk plain_store pending_state ''code'' ''c1'' ''g3'' (\<lambda>d. s) (\<lambda>d. d) signing_in = (Inl e, s')"
proof -
  have d: "fst (disconnect google_desk plain_store ''u1'' ''g2'' [] signing_in) = Some (Inr ())" by code_simp
  obtain s where s: "disconnect google_desk plain_store ''u1'' ''g2'' [] signing_in = (Some (Inr ()), s)"
    using d by (cases "disconnect google_desk plain_store ''u1'' ''g2'' [] signing_in") simp
  have "credential_obj ''u1'' (snd (disconnect google_desk plain_store ''u1'' ''g2'' [] signing_in))" by code_simp
  then have o': "credential_obj ''u1'' s" using s by simp
  have p: "text_or_empty pending_state ''owner'' = ''u1''" "truthy_text pending_state ''generation'' \<noteq> Some ''g2''"
    by (simp_all add: pending_state_def text_or_empty_def truthy_text_def jtext_def)
  obtain e s' where "finish_callback google_desk plain_store pending_state ''code'' ''c1'' ''g3'' (\<lambda>d. s) (\<lambda>d. d) signing_in = (Inl e, s')"
    using disconnect_is_final [OF s o' p, of "\<lambda>d. d" "\<lambda>d. s" signing_in "\<lambda>d. d" s google_desk "''code''" "''c1''" "''g3''"
        "\<lparr> tk_connection = [], tk_access = [], tk_refresh = None, tk_expires = 0, tk_scopes = [], tk_account = [] \<rparr>"] by blast
  then show ?thesis using s by blast
qed

section \<open>Progress\<close>

text \<open>The loop of \<open>rotateGeneration\<close> ends with the first attempt that nobody disturbs.\<close>

lemma rotation_ends:
  assumes "\<And>c. credential_of plain_store ow s = Some c \<Longrightarrow> wf_json c"
  shows "\<exists>r s'. rotate_generation env plain_store ow disc g [] s = (Some r, s')"
proof (cases "credential_of plain_store ow s")
  case None
  then show ?thesis by (simp add: rotate_once_def credential_of_def st_insert_def jid_def jtext_def)
next
  case (Some c)
  then have "jcontains c c" using assms by (simp add: jcontains_refl)
  then show ?thesis using Some by (simp add: rotate_once_def credential_of_def st_cas_def Let_def)
qed

text \<open>A sign-in that completes leaves the connection it was for: the new connection, with the account that Google
  named, is what the service reads.\<close>

theorem signed_in:
  assumes "finish_callback env plain_store st code conn fresh o1 o2 s = (Inr (), s')" "\<And>t. gg_unseal env (gg_seal env t) = Some t" "\<And>t. gg_seal env t \<noteq> []"
    and "credential_obj (text_or_empty st ''owner'') s'"
  shows "\<exists>t a. tokens env plain_store (text_or_empty st ''owner'') s' = Inr (Some t) \<and> tk_connection t = conn \<and> gg_profile env a = HttpOk (tk_account t)"
proof -
  let ?ow = "text_or_empty st ''owner''"
  obtain t g a where sv: "save_tokens env plain_store ?ow t g fresh (o2 (o1 s)) = (Inr (), s')" and t: "tk_connection t = conn" "gg_profile env a = HttpOk (tk_account t)"
    using assms(1) by (auto simp: finish_callback_def Let_def split: option.splits if_splits http_answer.splits sum.splits)
  let ?p = "JObj [(''generation'', JStr fresh), (''connectionId'', JStr conn), (''secret'', JStr (gg_seal env t))]"
  obtain j where j: "credential_of plain_store ?ow s' = Some (jmerge j ?p)" "gg_key env"
    using sv t(1) by (auto simp: save_tokens_def credential_of_def st_cas_def Let_def st_get_def split: prod.splits if_splits option.splits)
  then have "is_obj j" using assms(4) by (auto simp: credential_obj_def dest: merged_obj)
  then have "truthy_text (jmerge j ?p) ''secret'' = Some (gg_seal env t)" using assms(3) by (simp add: truthy_text_def jtext_def jget_jmerge)
  then show ?thesis using j t assms(2) by (auto simp: tokens_def decode_tokens_def)
qed

end
