(* ===== verification/Workspace.thy ===== *)
theory Workspace
  imports GoogleAuth
begin

text \<open>
  The workspace of an owner as the approved actions see it (apps/server/src/workspace.ts): what a proposal is
  checked against before its review, and its execution, locally in sample mode and through Google in live mode;
  with them the reading of the connection, of mail and of events.  The client of Google is an argument: it gets
  its access token from \<open>GoogleAuth\<close> and then answers.
\<close>

section \<open>Data\<close>

datatype google_call = SendEmail json "(json \<times> string) list" | TrashFile string | RenameFile string string | DeleteEvent string string "string option"
  | CreateEvent json | UpdateEvent string json "string option" | GetDriveFile string | ReviewEvent string string

text \<open>A call gives a document, or fails with a message, whether its outcome is unknown, and a status.\<close>

type_synonym google_reply = "(string \<times> bool \<times> nat option) + json"

record 's workspace_env =
  wk_store :: "'s store"
  wk_google :: google_env
  wk_update :: "int \<Rightarrow> string \<Rightarrow> string \<Rightarrow> string \<Rightarrow> 's \<Rightarrow> bool \<times> 's"
  wk_sample :: bool
  wk_clock :: int
  wk_now :: int
  wk_uuid :: string
  wk_bytes :: "string \<Rightarrow> string \<Rightarrow> 's \<Rightarrow> string res"
  wk_http :: "string \<Rightarrow> google_call \<Rightarrow> 's \<Rightarrow> google_reply"

definition failed_run :: "err \<Rightarrow> exec_outcome" where
  "failed_run e = ExecFailed (err_message e) False (err_status e)"

definition local_only :: err where
  "local_only = AppError ''Google Drive actions require live mode with a connected Google account'' 409"

definition file_row :: "'s workspace_env \<Rightarrow> string \<Rightarrow> string \<Rightarrow> 's \<Rightarrow> json res" where
  "file_row env ow i s = (case s_get (wk_store env) ow ''files'' i s of None \<Rightarrow> Inl (AppError ''File not found'' 404) | Some f \<Rightarrow> Inr f)"

text \<open>A request to Google: the access token of the connection that the action was prepared for, then the request.\<close>

definition call_google :: "'s workspace_env \<Rightarrow> string \<Rightarrow> string option \<Rightarrow> google_call \<Rightarrow> 's \<Rightarrow> google_reply \<times> 's" where
  "call_google env ow conn call s = (case access_token (wk_google env) (wk_store env) (wk_update env) ow conn (\<lambda>k. None) (\<lambda>x. x) s of
     (Inl e, s1) \<Rightarrow> (Inl (err_message e, False, err_status e), s1)
   | (Inr token, s1) \<Rightarrow> (wk_http env token call s1, s1))"

section \<open>The connection\<close>

definition google_switch :: "'s workspace_env \<Rightarrow> string \<Rightarrow> 's \<Rightarrow> json option" where
  "google_switch env ow s = s_get (wk_store env) ow ''settings'' ''google'' s"

definition switched_off :: "json option \<Rightarrow> bool" where
  "switched_off v \<longleftrightarrow> (case v of None \<Rightarrow> False | Some j \<Rightarrow> jget j ''enabled'' = Some (JBool False))"

definition connection :: "'s workspace_env \<Rightarrow> string \<Rightarrow> 's \<Rightarrow> (string \<times> string) option res" where
  "connection env ow s = (if wk_sample env
     then Inr (if switched_off (google_switch env ow s) then None
       else Some (case Option.bind (google_switch env ow s) (\<lambda>j. jtext j ''connectionId'') of None \<Rightarrow> ''sample-google'' | Some c \<Rightarrow> c, ''alex@example.com''))
     else map_sum id (map_option (\<lambda>t. (tk_connection t, tk_account t))) (tokens (wk_google env) (wk_store env) ow s))"

definition connected :: "'s workspace_env \<Rightarrow> string \<Rightarrow> 's \<Rightarrow> bool res" where
  "connected env ow s = (if wk_sample env then Inr (\<not> switched_off (google_switch env ow s))
     else map_sum id (\<lambda>t. t \<noteq> None) (tokens (wk_google env) (wk_store env) ow s))"

section \<open>Before the review\<close>

definition kind_of :: "json \<Rightarrow> string" where
  "kind_of input = text_or_empty input ''kind''"

definition data_in :: "json \<Rightarrow> json" where
  "data_in input = (case jget input ''data'' of None \<Rightarrow> JNull | Some d \<Rightarrow> d)"

definition drive_input :: "string \<Rightarrow> string \<Rightarrow> string \<Rightarrow> json" where
  "drive_input kind i name = JObj [(''kind'', JStr kind), (''data'', JObj [(''fileId'', JStr i), (''name'', JStr name)])]"

fun first_missing :: "'s workspace_env \<Rightarrow> string \<Rightarrow> string list \<Rightarrow> 's \<Rightarrow> err option" where
  "first_missing env ow [] s = None"
| "first_missing env ow (i # js) s = (case file_row env ow i s of Inl e \<Rightarrow> Some e | Inr _ \<Rightarrow> first_missing env ow js s)"

definition attachments_of :: "json \<Rightarrow> string list" where
  "attachments_of d = List.map_filter as_text (jarr (jget d ''attachmentIds''))"

definition reply_error :: "string \<times> bool \<times> nat option \<Rightarrow> err" where
  "reply_error r = (case r of (m, _, Some n) \<Rightarrow> AppError m n | (m, _, None) \<Rightarrow> JsError m)"

definition workspace_prepare :: "'s workspace_env \<Rightarrow> string \<Rightarrow> json \<Rightarrow> string option \<Rightarrow> 's \<Rightarrow> prepared_input res \<times> 's" where
  "workspace_prepare env ow input conn s = (let k = kind_of input; d = data_in input; plain = \<lparr> pi_input = input, pi_target = None, pi_version = None \<rparr> in
     if k = ''email.send'' then ((case first_missing env ow (attachments_of d) s of None \<Rightarrow> Inr plain | Some e \<Rightarrow> Inl e), s)
     else if k = ''drive.trash'' \<or> k = ''drive.rename''
     then (if wk_sample env then (Inl local_only, s)
       else case call_google env ow conn (GetDriveFile (text_or_empty d ''fileId'')) s of
         (Inl r, s1) \<Rightarrow> (Inl (reply_error r), s1)
       | (Inr f, s1) \<Rightarrow> (Inr (plain\<lparr> pi_input := drive_input k (text_or_empty d ''fileId'')
            (if k = ''drive.trash'' then text_or_empty f ''name'' else text_or_empty d ''name'') \<rparr>), s1))
     else if k = ''calendar.create'' \<or> wk_sample env then (Inr plain, s)
     else case call_google env ow conn (ReviewEvent (text_or_empty d ''calendarId'') (text_or_empty d ''eventId'')) s of
       (Inl r, s1) \<Rightarrow> (Inl (reply_error r), s1)
     | (Inr ev, s1) \<Rightarrow> (let event = (case jget ev ''event'' of None \<Rightarrow> JNull | Some e \<Rightarrow> e) in
         (Inr \<lparr> pi_input = (if k = ''calendar.delete'' then jset ''data'' (jset ''title'' (field_or_null ''title'' event) d) input else input),
            pi_target = Some event, pi_version = jtext ev ''version'' \<rparr>, s1)))"

section \<open>Executing\<close>

definition sent_mail :: "'s workspace_env \<Rightarrow> json \<Rightarrow> json" where
  "sent_mail env d = JObj [(''id'', JStr (wk_uuid env)), (''threadId'', JStr (case jtext d ''threadId'' of None \<Rightarrow> wk_uuid env | Some t \<Rightarrow> t)),
     (''sender'', JStr ''You''), (''from'', JStr ''alex@example.com''), (''to'', field_or_null ''to'' d), (''subject'', field_or_null ''subject'' d),
     (''body'', field_or_null ''body'' d), (''date'', JDate (wk_now env)), (''unread'', JBool False), (''label'', JStr ''Sent - local''),
     (''attachments'', field_or_null ''attachmentIds'' d)]"

definition execute_sample :: "'s workspace_env \<Rightarrow> string \<Rightarrow> json \<Rightarrow> 's \<Rightarrow> exec_outcome \<times> 's" where
  "execute_sample env ow input s = (let k = kind_of input; d = data_in input in
     if k = ''drive.trash'' \<or> k = ''drive.rename'' then (failed_run local_only, s)
     else if k = ''email.send'' then (ExecDone (''Saved to local sent mail - '' @ wk_uuid env), s_put (wk_store env) (wk_clock env) ow ''mail'' (sent_mail env d) s)
     else if k = ''calendar.delete'' then (ExecDone ''Removed from local calendar'', s_remove (wk_store env) ow ''events'' (text_or_empty d ''eventId'') s)
     else (let i = (if k = ''calendar.update'' then text_or_empty d ''eventId'' else wk_uuid env) in
       (ExecDone (''Saved to local calendar - '' @ i), s_put (wk_store env) (wk_clock env) ow ''events'' (jset ''id'' (JStr i) d) s)))"

definition capability_of :: "string \<Rightarrow> string" where
  "capability_of k = (if k = ''email.send'' then ''gmail.send'' else if take 6 k = ''drive.'' then ''drive'' else ''calendar.events'')"

fun attach :: "'s workspace_env \<Rightarrow> string \<Rightarrow> string list \<Rightarrow> 's \<Rightarrow> (json \<times> string) list res" where
  "attach env ow [] s = Inr []"
| "attach env ow (i # js) s = (case file_row env ow i s of Inl e \<Rightarrow> Inl e
     | Inr f \<Rightarrow> (case wk_bytes env ow i s of Inl e \<Rightarrow> Inl e
       | Inr b \<Rightarrow> map_sum id (\<lambda>xs. (f, b) # xs) (attach env ow js s)))"

definition asked :: "google_reply \<times> 's \<Rightarrow> (json \<Rightarrow> 's \<Rightarrow> exec_outcome \<times> 's) \<Rightarrow> exec_outcome \<times> 's" where
  "asked r f = (case r of (Inl (m, unknown, n), s) \<Rightarrow> (ExecFailed m unknown n, s) | (Inr j, s) \<Rightarrow> f j s)"

definition execute_live :: "'s workspace_env \<Rightarrow> string \<Rightarrow> json \<Rightarrow> string option \<Rightarrow> string option \<Rightarrow> 's \<Rightarrow> exec_outcome \<times> 's" where
  "execute_live env ow input conn version s = (let k = kind_of input; d = data_in input; call = call_google env ow conn in
     case tokens (wk_google env) (wk_store env) ow s of
       Inl e \<Rightarrow> (failed_run e, s)
     | Inr None \<Rightarrow> (failed_run (AppError ''Google is disconnected'' 409), s)
     | Inr (Some t) \<Rightarrow>
       if google_scope (capability_of k) \<notin> set (tk_scopes t) then (failed_run (AppError ''Enable Google write access in Connections before approving'' 403), s)
       else if Some (tk_connection t) \<noteq> conn then (failed_run (AppError ''Google account or connection changed. Prepare a new action.'' 409), s)
       else if (k = ''calendar.update'' \<or> k = ''calendar.delete'') \<and> given_text version = None
       then (failed_run (AppError ''This calendar review predates target-version checks. Prepare a new review.'' 409), s)
       else if k = ''email.send'' then (case attach env ow (attachments_of d) s of
           Inl e \<Rightarrow> (failed_run e, s)
         | Inr files \<Rightarrow> asked (call (SendEmail d files) s) (\<lambda>r s1. (ExecDone (''Gmail sent message - '' @ jid r), s1)))
       else if k = ''drive.trash'' then asked (call (TrashFile (text_or_empty d ''fileId'')) s)
           (\<lambda>r s1. (ExecDone (''Moved Google Drive file to trash - '' @ text_or_empty d ''name''), s1))
       else if k = ''drive.rename'' then asked (call (RenameFile (text_or_empty d ''fileId'') (text_or_empty d ''name'')) s)
           (\<lambda>r s1. (ExecDone (''Renamed Google Drive file - '' @ text_or_empty r ''name''), s1))
       else if k = ''calendar.delete'' then asked (call (DeleteEvent (text_or_empty d ''calendarId'') (text_or_empty d ''eventId'') version) s)
           (\<lambda>r s1. (ExecDone (''Deleted Google Calendar event - '' @ text_or_empty d ''eventId''), s_remove (wk_store env) ow ''events'' (text_or_empty d ''eventId'') s1))
       else asked (call (if k = ''calendar.create'' then CreateEvent d else UpdateEvent (text_or_empty d ''eventId'') d version) s)
           (\<lambda>r s1. (ExecDone (''Google Calendar event - '' @ jid r), s_put (wk_store env) (wk_clock env) ow ''events'' r s1)))"

definition workspace_execute :: "'s workspace_env \<Rightarrow> string \<Rightarrow> json \<Rightarrow> string option \<Rightarrow> string option \<Rightarrow> 's \<Rightarrow> exec_outcome \<times> 's" where
  "workspace_execute env ow input conn version s = (if wk_sample env then execute_sample env ow input s else execute_live env ow input conn version s)"

text \<open>The options that app.ts gives to the action service.  An error in reading the connection counts as no
  connection, which the service answers with a refusal too.\<close>

definition wired_actions :: "'s workspace_env \<Rightarrow> 's action_env \<Rightarrow> 's action_env" where
  "wired_actions wk env = env\<lparr> ae_execute := workspace_execute wk, ae_prepare := Some (workspace_prepare wk),
     ae_connected := (\<lambda>ow s. connected wk ow s = Inr True),
     ae_connection := Some (\<lambda>ow s. case connection wk ow s of Inr c \<Rightarrow> c | Inl _ \<Rightarrow> None) \<rparr>"

section \<open>Reading in sample mode\<close>

definition sample_events :: "'s workspace_env \<Rightarrow> string \<Rightarrow> string option \<Rightarrow> int option \<Rightarrow> int option \<Rightarrow> 's \<Rightarrow> json list" where
  "sample_events env ow cal from_t to_t s = (if switched_off (google_switch env ow s) then []
     else sort_key (\<lambda>e. case jdate (jget e ''start'') of None \<Rightarrow> 0 | Some t \<Rightarrow> t)
       (filter (\<lambda>e. jtext e ''calendarId'' = Some (case cal of None \<Rightarrow> ''primary'' | Some c \<Rightarrow> c)
          \<and> (case to_t of None \<Rightarrow> True | Some b \<Rightarrow> (case jdate (jget e ''start'') of None \<Rightarrow> False | Some t \<Rightarrow> t < b))
          \<and> (case from_t of None \<Rightarrow> True | Some a \<Rightarrow> (case jdate (jget e ''end'') of None \<Rightarrow> False | Some t \<Rightarrow> t > a)))
        (s_list (wk_store env) ow ''events'' no_options s)))"

definition sample_thread :: "'s workspace_env \<Rightarrow> string \<Rightarrow> string \<Rightarrow> 's \<Rightarrow> json list res" where
  "sample_thread env ow i s = (if switched_off (google_switch env ow s) then Inl (AppError ''Google is disconnected'' 409)
     else let ms = filter (\<lambda>m. jtext m ''threadId'' = Some i) (s_list (wk_store env) ow ''mail'' no_options s) in
       if ms = [] then Inl (AppError ''Mail thread not found'' 404)
       else Inr (sort_key (\<lambda>m. case jdate (jget m ''date'') of None \<Rightarrow> 0 | Some t \<Rightarrow> t) ms))"

section \<open>An action is executed on the connection that was reviewed\<close>

lemma failed_not_done: "failed_run e \<noteq> ExecDone r"
  by (simp add: failed_run_def)

lemma live_done:
  assumes "execute_live env ow input conn version s = (ExecDone r, s')"
  shows "\<exists>t. tokens (wk_google env) (wk_store env) ow s = Inr (Some t) \<and> conn = Some (tk_connection t)
    \<and> google_scope (capability_of (kind_of input)) \<in> set (tk_scopes t)
    \<and> (kind_of input = ''calendar.update'' \<or> kind_of input = ''calendar.delete'' \<longrightarrow> given_text version \<noteq> None)"
proof -
  obtain t where t: "tokens (wk_google env) (wk_store env) ow s = Inr (Some t)"
    using assms by (auto simp: execute_live_def Let_def failed_not_done split: sum.splits option.splits)
  have "google_scope (capability_of (kind_of input)) \<in> set (tk_scopes t)"
    using assms t by (auto simp: execute_live_def Let_def failed_not_done split: if_splits)
  moreover from this have "Some (tk_connection t) = conn"
    using assms t by (auto simp: execute_live_def Let_def failed_not_done split: if_splits)
  moreover from calculation have "kind_of input = ''calendar.update'' \<or> kind_of input = ''calendar.delete'' \<longrightarrow> given_text version \<noteq> None"
    using assms t by (auto simp: execute_live_def Let_def failed_not_done split: if_splits)
  ultimately show ?thesis using t by metis
qed

lemma wired_sel [simp]: "ae_execute (wired_actions wk env) = workspace_execute wk" "ae_parse (wired_actions wk env) = ae_parse env"
  by (simp_all add: wired_actions_def)

text \<open>C3: in live mode an approved action succeeds only on the connection it was reviewed for: when the run of a
  claimed action ends as succeeded, the owner's credential at that moment is the connection stored in the
  proposal, it has the permission that the kind of action needs, and the change or deletion of an event
  names the version that was reviewed.\<close>
theorem executed_as_reviewed:
  assumes "run_action S (wired_actions wk env) ow c s = (Inr f, s')" "jstatus f = Some ''succeeded''" "\<not> wk_sample wk" "is_obj c"
  shows "\<exists>t input. tokens (wk_google wk) (wk_store wk) ow s = Inr (Some t) \<and> jtext c ''connectionId'' = Some (tk_connection t)
    \<and> ae_parse env (JObj [(''kind'', field_or_null ''kind'' c), (''data'', field_or_null ''data'' c)]) = Inr input
    \<and> google_scope (capability_of (kind_of input)) \<in> set (tk_scopes t)
    \<and> (kind_of input = ''calendar.update'' \<or> kind_of input = ''calendar.delete'' \<longrightarrow> given_text (jtext c ''targetVersion'') \<noteq> None)"
proof -
  obtain out s1 where o: "run_outcome (wired_actions wk env) ow c s = (out, s1)" "f = finished_row c out"
    using assms(1) by (auto simp: run_action_def Let_def split: prod.splits)
  have "\<exists>r. out = ExecDone r"
    using assms(2,4) o(2) by (cases out) (auto simp: finished_row_def Let_def jstatus_def jtext_def jget_jset split: if_splits)
  then obtain r input where "out = ExecDone r" and i: "ae_parse env (JObj [(''kind'', field_or_null ''kind'' c), (''data'', field_or_null ''data'' c)]) = Inr input"
    and "execute_live wk ow input (jtext c ''connectionId'') (jtext c ''targetVersion'') s = (ExecDone r, s1)"
    using o(1) assms(3) by (auto simp: run_outcome_def workspace_execute_def split: sum.splits)
  from live_done [OF this(3)] i show ?thesis by blast
qed

definition live_tokens :: google_tokens where
  "live_tokens = \<lparr> tk_connection = ''c1'', tk_access = ''token'', tk_refresh = None, tk_expires = 900000, tk_scopes = [google_scope ''gmail.send''], tk_account = ''x@y'' \<rparr>"

definition live_workspace :: "table workspace_env" where
  "live_workspace = \<lparr> wk_store = plain_store, wk_google = google_desk\<lparr> gg_unseal := (\<lambda>x. Some live_tokens) \<rparr>, wk_update = update_credential, wk_sample = False,
     wk_clock = 1, wk_now = 1, wk_uuid = ''m1'', wk_bytes = (\<lambda>ow i d. Inr []), wk_http = (\<lambda>t call d. Inr (JObj [(''id'', JStr ''m9'')])) \<rparr>"

definition live_table :: table where
  "live_table = [((''u1'', ''credentials'', ''google''), JObj [(''id'', JStr ''google''), (''secret'', JStr ''sealed'')], 0)]"

definition claimed_mail :: json where
  "claimed_mail = JObj [(''id'', JStr ''a1''), (''kind'', JStr ''email.send''), (''data'', JObj [(''subject'', JStr ''hello'')]), (''connectionId'', JStr ''c1''), (''status'', JStr ''executing'')]"

theorem executed_as_reviewed_witness:
  "\<exists>f s'. run_action plain_store (wired_actions live_workspace sample_service) ''u1'' claimed_mail live_table = (Inr f, s') \<and> jstatus f = Some ''succeeded''
     \<and> (\<exists>t. tokens (wk_google live_workspace) plain_store ''u1'' live_table = Inr (Some t) \<and> tk_connection t = ''c1'')"
proof -
  have st: "(case fst (run_action plain_store (wired_actions live_workspace sample_service) ''u1'' claimed_mail live_table) of Inr f \<Rightarrow> jstatus f | Inl _ \<Rightarrow> None)
      = Some ''succeeded''" by code_simp
  then obtain f s' where r: "run_action plain_store (wired_actions live_workspace sample_service) ''u1'' claimed_mail live_table = (Inr f, s')" "jstatus f = Some ''succeeded''"
    by (cases "run_action plain_store (wired_actions live_workspace sample_service) ''u1'' claimed_mail live_table") (auto split: sum.splits)
  have l: "\<not> wk_sample live_workspace" "wk_store live_workspace = plain_store" by (simp_all add: live_workspace_def)
  have c: "is_obj claimed_mail" "jtext claimed_mail ''connectionId'' = Some ''c1''" by (simp_all add: claimed_mail_def jtext_def)
  obtain t where "tokens (wk_google live_workspace) plain_store ''u1'' live_table = Inr (Some t)" "tk_connection t = ''c1''"
    using executed_as_reviewed [OF r l(1) c(1)] c(2) l(2) by auto
  then show ?thesis using r by blast
qed

end
