(* ===== verification/Reactions.thy ===== *)
theory Reactions
  imports Triggers
begin

text \<open>
  Reactions to events (apps/server/src/engine/reactions): the rules of a tenant, the match of a condition, the
  actions of a rule over the operations of the agent service, and the pass over the recent events; with the
  handoffs between roles (engine/handoff/service.ts) and the alerts with their pause (alerts/service.ts).
\<close>

section \<open>Handoffs\<close>

definition create_handoff :: "'s agent_env \<Rightarrow> json \<Rightarrow> ('s, json) op" where
  "create_handoff env h = put_row env (text_or_empty h ''tenantId'') ''handoffs'' h"

definition accept_handoff :: "'s agent_env \<Rightarrow> string \<Rightarrow> string \<Rightarrow> ('s, json option) op" where
  "accept_handoff env t i = then_do (get_row env t ''handoffs'' i) (\<lambda>r. case r of
     None \<Rightarrow> give None
   | Some h \<Rightarrow> then_do (put_row env t ''handoffs'' (jset ''acceptedAt'' (JDate (an_now env)) h)) (\<lambda>u. give (Some u)))"

definition handoffs_for_role :: "'s agent_env \<Rightarrow> string \<Rightarrow> string \<Rightarrow> ('s, json list) op" where
  "handoffs_for_role env t r = then_do (db_read (s_list (an_store env) t ''handoffs'' no_options)) (\<lambda>all.
     give (filter (\<lambda>h. jtext h ''toRoleId'' = Some r \<and> \<not> truthy (jget h ''acceptedAt'')) all))"

section \<open>The condition of a rule\<close>

definition backslash :: char where
  "backslash = CHR 0x5C"

definition quote_mark :: "char \<Rightarrow> bool" where
  "quote_mark c \<longleftrightarrow> c = CHR 0x27 \<or> c = CHR 0x22"

text \<open>The value of a comparison: an optional quote, at least one character, an optional quote at the end.\<close>

definition compared_value :: "string \<Rightarrow> string" where
  "compared_value r = (let v = (case r of c # cs \<Rightarrow> if quote_mark c \<and> cs \<noteq> [] then cs else r | [] \<Rightarrow> []) in
     if length v > 1 \<and> quote_mark (last v) then butlast v else v)"

text \<open>The expression of the code, whose backslashes are doubled: a backslash, letters w, a backslash, letters s, two
  equal signs, a backslash, letters s, and the value.  The result is the name and the value.\<close>

definition parse_condition :: "string \<Rightarrow> (string \<times> string) option" where
  "parse_condition t = (case t of [] \<Rightarrow> None | c # cs \<Rightarrow> (let ws = takeWhile (\<lambda>d. d = CHR ''w'') cs; r1 = dropWhile (\<lambda>d. d = CHR ''w'') cs in
     if c \<noteq> backslash \<or> ws = [] then None
     else (case after_prefix [backslash] r1 of None \<Rightarrow> None
       | Some r2 \<Rightarrow> (case after_prefix (''=='' @ [backslash]) (dropWhile (\<lambda>d. d = CHR ''s'') r2) of None \<Rightarrow> None
         | Some r3 \<Rightarrow> (let r4 = dropWhile (\<lambda>d. d = CHR ''s'') r3; v = (if r4 = [] \<and> r3 \<noteq> [] then ''s'' else compared_value r4) in
             if v = [] \<or> CHR 0x0A \<in> set v \<or> CHR 0x0D \<in> set v then None else Some (backslash # ws, v))))))"

definition condition_holds :: "(json \<Rightarrow> string) \<Rightarrow> string \<Rightarrow> json \<Rightarrow> bool" where
  "condition_holds show_json cond payload = (let t = trim cond in
     if t = [] \<or> t = ''always'' then True else if t = ''never'' then False
     else case parse_condition t of None \<Rightarrow> False
       | Some (k, v) \<Rightarrow> (case jget payload k of None \<Rightarrow> ''undefined'' | Some x \<Rightarrow> show_json x) = v)"

section \<open>The actions of a rule\<close>

record reaction_ctx =
  rx_tenant :: string
  rx_owner :: string
  rx_task :: "string option"
  rx_goal :: "string option"

definition param :: "'s agent_env \<Rightarrow> json \<Rightarrow> string \<Rightarrow> string \<Rightarrow> string" where
  "param env ps k dflt_text = (case jget ps k of None \<Rightarrow> dflt_text | Some JNull \<Rightarrow> dflt_text | Some x \<Rightarrow> an_show env x)"

definition handoff_row :: "'s agent_env \<Rightarrow> (int \<Rightarrow> string) \<Rightarrow> reaction_ctx \<Rightarrow> json \<Rightarrow> json" where
  "handoff_row env show_int cx ps = JObj ([(''id'', JStr (''handoff-'' @ show_int (an_now env))), (''tenantId'', JStr (rx_tenant cx)),
     (''fromRoleId'', JStr (param env ps ''fromRoleId'' ''system'')), (''toRoleId'', JStr (param env ps ''toRoleId'' ''system''))]
     @ present ''goalId'' JStr (given_text (rx_goal cx)) @ present ''taskId'' JStr (given_text (rx_task cx)) @ [(''createdAt'', JDate (an_now env))])"

definition params_missing :: err where
  "params_missing = JsError ''Cannot read properties of undefined''"

definition run_reaction :: "'s agent_env \<Rightarrow> (int \<Rightarrow> string) \<Rightarrow> reaction_ctx \<Rightarrow> json \<Rightarrow> ('s, unit) op" where
  "run_reaction env show_int cx a = (let k = text_or_empty a ''kind''; ps = (case jget a ''params'' of None \<Rightarrow> JNull | Some p \<Rightarrow> p) in
     if ps = JNull \<and> k \<in> {''create_task'', ''create_goal'', ''notify'', ''handoff'', ''run_sop''} then throw params_missing
     else if k = ''create_task'' then then_do (create_task env (rx_owner cx) (JObj ([(''prompt'', JStr (param env ps ''prompt'' (''Tarea autom'' @ [CHR 0xE1] @ ''tica''))),
          (''kind'', case jget ps ''kind'' of None \<Rightarrow> JStr ''agent'' | Some JNull \<Rightarrow> JStr ''agent'' | Some x \<Rightarrow> x)] @ present ''title'' JStr (jtext ps ''title''))) None False) (\<lambda>_. give ())
     else if k = ''create_goal'' then then_do (create_goal env (rx_owner cx) (JObj [(''title'', JStr (param env ps ''title'' ''Objetivo'')),
          (''description'', JStr (param env ps ''description'' []))]) None) (\<lambda>_. give ())
     else if k = ''notify'' then notify env (rx_owner cx) (param env ps ''title'' ''Aviso'') (param env ps ''body'' []) (rx_task cx) None
     else if k = ''handoff'' then then_do (create_handoff env (handoff_row env show_int cx ps)) (\<lambda>_. give ())
     else if k = ''run_sop'' then (let i = param env ps ''sopId'' [] in if i = [] then give ()
       else then_do (create_task env (rx_owner cx) (JObj [(''kind'', JStr ''sop''), (''prompt'', JStr (''Ejecuci'' @ [CHR 0xF3] @ ''n autom'' @ [CHR 0xE1] @ ''tica de '' @ i)),
          (''input'', JObj [(''sopId'', JStr i)])]) None False) (\<lambda>_. give ()))
     else give ())"

text \<open>An action that fails is skipped.\<close>

fun run_reactions :: "'s agent_env \<Rightarrow> (int \<Rightarrow> string) \<Rightarrow> reaction_ctx \<Rightarrow> json list \<Rightarrow> ('s, unit) op" where
  "run_reactions env show_int cx [] = give ()"
| "run_reactions env show_int cx (a # acts) = then_do (catching (run_reaction env show_int cx a) (\<lambda>_. give ())) (\<lambda>_. run_reactions env show_int cx acts)"

section \<open>The rules of a tenant\<close>

text \<open>Rules are rows of the shape that their schema demands: with a trigger and an array of actions.\<close>

type_synonym reaction_rules = "string \<Rightarrow> json list option"

definition rules_for :: "reaction_rules \<Rightarrow> string \<Rightarrow> json list" where
  "rules_for rs t = (case rs t of None \<Rightarrow> [] | Some xs \<Rightarrow> xs)"

definition load_rules :: "'s store \<Rightarrow> string \<Rightarrow> 's \<Rightarrow> reaction_rules \<Rightarrow> reaction_rules" where
  "load_rules S t s rs = rs(t \<mapsto> s_list S t ''reactions'' no_options s)"

definition register_rule :: "'s store \<Rightarrow> int \<Rightarrow> string \<Rightarrow> json \<Rightarrow> reaction_rules \<times> 's \<Rightarrow> reaction_rules \<times> 's" where
  "register_rule S clock t r rs = ((fst rs)(t \<mapsto> rules_for (fst rs) t @ [r]), s_put S clock t ''reactions'' r (snd rs))"

definition rule_fires :: "(json \<Rightarrow> string) \<Rightarrow> string \<Rightarrow> json \<Rightarrow> json \<Rightarrow> bool" where
  "rule_fires show_json ty payload r \<longleftrightarrow> truthy (jget r ''enabled'') \<and> trigger_field r ''eventType'' = ty
     \<and> (case truthy_text r ''condition'' of None \<Rightarrow> True | Some c \<Rightarrow> condition_holds show_json c payload) \<and> jarr (jget r ''actions'') \<noteq> []"

fun evaluate_rules :: "'s agent_env \<Rightarrow> (int \<Rightarrow> string) \<Rightarrow> string \<Rightarrow> string \<Rightarrow> json \<Rightarrow> json list \<Rightarrow> ('s, unit) op" where
  "evaluate_rules env show_int t ty payload [] = give ()"
| "evaluate_rules env show_int t ty payload (r # rs) = then_do
     (if rule_fires (an_show env) ty payload r
      then run_reactions env show_int \<lparr> rx_tenant = t, rx_owner = t, rx_task = None, rx_goal = None \<rparr> (jarr (jget r ''actions'')) else give ())
     (\<lambda>_. evaluate_rules env show_int t ty payload rs)"

text \<open>A pass: the events that the bus lists for each tenant at its turn, every one again.  \<open>listed\<close> is the
  read of the bus; one that fails lists nothing.\<close>

fun evaluate_events :: "'s agent_env \<Rightarrow> (int \<Rightarrow> string) \<Rightarrow> string \<Rightarrow> json list \<Rightarrow> (string \<times> json option) list \<Rightarrow> ('s, unit) op" where
  "evaluate_events env show_int t rs [] = give ()"
| "evaluate_events env show_int t rs ((ty, payload) # evs) = then_do
     (evaluate_rules env show_int t ty (case payload of None \<Rightarrow> JObj [] | Some p \<Rightarrow> p) rs) (\<lambda>_. evaluate_events env show_int t rs evs)"

fun reaction_pass :: "'s agent_env \<Rightarrow> (int \<Rightarrow> string) \<Rightarrow> (string \<Rightarrow> ('s, (string \<times> json option) list) op) \<Rightarrow> reaction_rules \<Rightarrow> string list
    \<Rightarrow> ('s, unit) op" where
  "reaction_pass env show_int listed rs [] = give ()"
| "reaction_pass env show_int listed rs (t # ts) = then_do (catching (listed t) (\<lambda>_. give [])) (\<lambda>evs.
     then_do (evaluate_events env show_int t (rules_for rs t) evs) (\<lambda>_. reaction_pass env show_int listed rs ts))"

section \<open>Alerts\<close>

datatype severity = InfoAlert | WarningAlert | CriticalAlert

record alert_def =
  al_id :: string
  al_text :: string
  al_cooldown :: int
  al_severity :: severity

text \<open>The state is when each alert last fired; \<open>cond\<close> is its condition, \<open>None\<close> when it throws.\<close>

definition alert_fires :: "int \<Rightarrow> (string \<Rightarrow> bool option) \<Rightarrow> (string \<Rightarrow> int option) \<Rightarrow> alert_def \<Rightarrow> bool" where
  "alert_fires now cond fired_at x \<longleftrightarrow> \<not> now - (case fired_at (al_id x) of None \<Rightarrow> 0 | Some t \<Rightarrow> t) < al_cooldown x * 1000 \<and> cond (al_id x) = Some True"

fun evaluate_alerts :: "int \<Rightarrow> (string \<Rightarrow> bool option) \<Rightarrow> alert_def list \<Rightarrow> (string \<Rightarrow> int option) \<Rightarrow> alert_def list \<times> (string \<Rightarrow> int option)" where
  "evaluate_alerts now cond [] fired_at = ([], fired_at)"
| "evaluate_alerts now cond (x # xs) fired_at = (if alert_fires now cond fired_at x
     then (case evaluate_alerts now cond xs (fired_at(al_id x \<mapsto> now)) of (ys, f) \<Rightarrow> (x # ys, f))
     else evaluate_alerts now cond xs fired_at)"

definition register_alert :: "alert_def \<Rightarrow> alert_def list \<Rightarrow> alert_def list" where
  "register_alert x xs = (if al_id x \<in> al_id ` set xs then map (\<lambda>y. if al_id y = al_id x then x else y) xs else xs @ [x])"

section \<open>Properties\<close>

text \<open>The doubled backslashes leave no condition that a rule would contain: only one that begins with a backslash can
  hold.\<close>

lemma condition_needs_backslash:
  assumes "condition_holds show_json cond payload" "trim cond \<noteq> []" "trim cond \<noteq> ''always''"
  shows "hd (trim cond) = backslash"
  using assms by (auto simp: condition_holds_def parse_condition_def Let_def split: if_splits list.splits option.splits)

text \<open>A rule with a condition other than always reacts to nothing.  Whatever the event and the other
  rules, a rule whose condition is ordinary text, one that does not begin with a backslash, could be left out.\<close>
theorem ordinary_condition_is_dead:
  assumes "truthy_text r ''condition'' = Some c" "trim c \<noteq> []" "trim c \<noteq> ''always''" "hd (trim c) \<noteq> backslash"
  shows "evaluate_rules env show_int t ty payload (rs1 @ r # rs2) = evaluate_rules env show_int t ty payload (rs1 @ rs2)"
proof (induction rs1)
  case Nil
  have "\<not> rule_fires (an_show env) ty payload r"
    using assms condition_needs_backslash [of "an_show env" c payload] by (auto simp: rule_fires_def)
  then show ?case by (simp add: then_do_def give_def fun_eq_iff)
qed simp

text \<open>An alert pauses: what an evaluation has fired does not fire again before its pause has passed.\<close>

lemma alerts_step:
  "evaluate_alerts now cond (x # xs) f = (if alert_fires now cond f x
     then (x # fst (evaluate_alerts now cond xs (f(al_id x \<mapsto> now))), snd (evaluate_alerts now cond xs (f(al_id x \<mapsto> now))))
     else evaluate_alerts now cond xs f)"
  by (simp split: prod.splits)

lemma alerts_among: "x \<in> set (fst (evaluate_alerts now cond xs f)) \<Longrightarrow> x \<in> set xs"
  by (induction xs arbitrary: f) (auto simp: alerts_step simp del: evaluate_alerts.simps(2) split: if_splits)

lemma time_kept: "f i = Some now \<Longrightarrow> snd (evaluate_alerts now cond xs f) i = Some now"
  by (induction xs arbitrary: f) (auto simp: alerts_step simp del: evaluate_alerts.simps(2))

lemma fired_recorded: "x \<in> set (fst (evaluate_alerts now cond xs f)) \<Longrightarrow> snd (evaluate_alerts now cond xs f) (al_id x) = Some now"
  by (induction xs arbitrary: f) (auto simp: alerts_step time_kept simp del: evaluate_alerts.simps(2) split: if_splits)

lemma pausing_silent:
  assumes "distinct (map al_id zs)" "x \<in> set zs" "g (al_id x) = Some t" "now - t < al_cooldown x * 1000"
  shows "x \<notin> set (fst (evaluate_alerts now cond zs g))"
  using assms
proof (induction zs arbitrary: g)
  case (Cons z zs)
  show ?case
  proof (cases "z = x")
    case True
    have "x \<notin> set zs" using Cons.prems(1) True by auto
    then show ?thesis using Cons.prems True alerts_among [of x now cond zs g]
      by (auto simp: alerts_step alert_fires_def simp del: evaluate_alerts.simps(2))
  next
    case False
    then have "al_id z \<noteq> al_id x" using Cons.prems(1,2) by force
    then have u: "(g(al_id z \<mapsto> now)) (al_id x) = Some t" using Cons.prems(3) by simp
    have d: "distinct (map al_id zs)" "x \<in> set zs" using Cons.prems(1,2) False by auto
    show ?thesis using False Cons.IH [of "g(al_id z \<mapsto> now)", OF d u Cons.prems(4)] Cons.IH [of g, OF d Cons.prems(3,4)]
      by (simp add: alerts_step del: evaluate_alerts.simps(2) fun_upd_apply)
  qed
qed simp

theorem alerts_pause:
  assumes "evaluate_alerts now cond xs fired_at = (ys, f)" "x \<in> set ys" "now' - now < al_cooldown x * 1000" "distinct (map al_id xs')" "x \<in> set xs'"
  shows "x \<notin> set (fst (evaluate_alerts now' cond' xs' f))"
  using pausing_silent [OF assms(4,5) _ assms(3)] fired_recorded [of x now cond xs fired_at] assms(1,2) by simp

text \<open>The registered alerts keep distinct names.\<close>

lemma registered_distinct: "distinct (map al_id xs) \<Longrightarrow> distinct (map al_id (register_alert x xs))"
proof -
  assume d: "distinct (map al_id xs)"
  have "map al_id (map (\<lambda>y. if al_id y = al_id x then x else y) xs) = map al_id xs" by (induction xs) auto
  then show ?thesis using d by (auto simp: register_alert_def simp del: map_map)
qed

end
