(* ===== verification/Assignments.thy ===== *)
theory Assignments
  imports Authz BusinessGraph Idempotency
begin

text \<open>
  Assignments (apps/server/src/engine/assignments): tasks, goals, monitors, approvals and procedures seen as
  one kind of record by an adapter each (adapters/), and the service that assigns them and moves their status
  under the decision point.  The interface is that of packages/domain/src/assignment.ts.
\<close>

section \<open>Adapters\<close>

datatype assignment_kind = TaskKind | GoalKind | MonitorKind | ApprovalKind | SopKind

fun kind_name :: "assignment_kind \<Rightarrow> string" where
  "kind_name TaskKind = ''task''"
| "kind_name GoalKind = ''goal''"
| "kind_name MonitorKind = ''monitor''"
| "kind_name ApprovalKind = ''approval''"
| "kind_name SopKind = ''sop''"

text \<open>The native statuses that an adapter knows; each is its own canonical status.\<close>

fun adapter_statuses :: "assignment_kind \<Rightarrow> string list" where
  "adapter_statuses TaskKind = [''queued'', ''running'', ''waiting_input'', ''waiting_approval'', ''scheduled'', ''paused'', ''succeeded'', ''failed'', ''cancelled'']"
| "adapter_statuses GoalKind = [''active'', ''paused'', ''completed'']"
| "adapter_statuses MonitorKind = [''active'', ''paused'', ''stopped'']"
| "adapter_statuses ApprovalKind = [''awaiting_review'', ''scheduled'', ''executing'', ''succeeded'', ''failed'', ''outcome_unknown'', ''denied'', ''cancelled'', ''expired'']"
| "adapter_statuses SopKind = [''active'', ''inactive'']"

definition canonical_status :: "assignment_kind \<Rightarrow> string \<Rightarrow> string" where
  "canonical_status k native = (if k = SopKind then (if native = ''inactive'' then ''inactive'' else ''active'')
     else if native \<in> set (adapter_statuses k) then native else ''failed'')"

definition native_status :: "assignment_kind \<Rightarrow> string \<Rightarrow> string" where
  "native_status k canonical = (if k = SopKind then (if canonical = ''inactive'' then ''inactive'' else ''active'')
     else if canonical \<in> set (adapter_statuses k) then canonical else ''failed'')"

record assignment =
  as_id :: string
  as_tenant :: string
  as_kind :: assignment_kind
  as_to :: "string option"
  as_by :: "string option"
  as_status :: string
  as_native :: string
  as_evidence :: "json list"
  as_created :: "json option"
  as_updated :: "json option"

definition evidence_view :: "json \<Rightarrow> json" where
  "evidence_view e = JObj (copy_field ''id'' ''id'' e @ copy_field ''kind'' ''kind'' e @ copy_field ''title'' ''title'' e @ copy_field ''excerpt'' ''excerpt'' e @ copy_field ''url'' ''url'' e)"

definition first_field :: "json \<Rightarrow> string list \<Rightarrow> json option" where
  "first_field r ks = (case List.map_filter (\<lambda>k. case jget r k of Some JNull \<Rightarrow> None | v \<Rightarrow> v) ks of [] \<Rightarrow> None | v # _ \<Rightarrow> Some v)"

definition to_assignment :: "assignment_kind \<Rightarrow> json \<Rightarrow> string \<Rightarrow> assignment" where
  "to_assignment k r tenant = (let native = (if k = SopKind then (if truthy (jget r ''active'') then ''active'' else ''inactive'') else text_or_empty r ''status'') in
     \<lparr> as_id = kind_name k @ '':'' @ jid r, as_tenant = tenant, as_kind = k,
       as_to = (if k \<in> {MonitorKind, ApprovalKind} then None else jtext r ''assignedTo''),
       as_by = (if k = ApprovalKind then None else jtext r ''assignedBy''),
       as_status = canonical_status k native, as_native = native,
       as_evidence = (if k = TaskKind then map evidence_view (jarr (jget r ''evidence'')) else []),
       as_created = (if k = MonitorKind then first_field r [''createdAt'', ''nextCheckAt''] else jget r ''createdAt''),
       as_updated = (case k of MonitorKind \<Rightarrow> first_field r [''updatedAt'', ''lastCheckedAt'', ''nextCheckAt'']
         | GoalKind \<Rightarrow> first_field r [''updatedAt'', ''createdAt''] | ApprovalKind \<Rightarrow> jget r ''createdAt'' | _ \<Rightarrow> jget r ''updatedAt'') \<rparr>)"

text \<open>A field set to undefined is not stored.\<close>

definition set_or_drop :: "string \<Rightarrow> string option \<Rightarrow> json \<Rightarrow> json" where
  "set_or_drop k v r = (case v of Some x \<Rightarrow> jset k (JStr x) r | None \<Rightarrow> (case r of JObj fs \<Rightarrow> JObj (AList.delete k fs) | _ \<Rightarrow> r))"

definition apply_assignment :: "assignment_kind \<Rightarrow> string option \<Rightarrow> string \<Rightarrow> json \<Rightarrow> json" where
  "apply_assignment k to_actor by_actor r = (case k of
     ApprovalKind \<Rightarrow> r
   | MonitorKind \<Rightarrow> jset ''assignedBy'' (JStr by_actor) r
   | _ \<Rightarrow> jset ''assignedBy'' (JStr by_actor) (set_or_drop ''assignedTo'' to_actor r))"

definition apply_status :: "assignment_kind \<Rightarrow> string \<Rightarrow> json \<Rightarrow> json" where
  "apply_status k st r = (if k = SopKind then jset ''active'' (JBool (st = ''active'')) r
     else if st \<in> set (adapter_statuses k) then jset ''status'' (JStr st) r else r)"

section \<open>The service\<close>

definition assign_target :: "pcontext \<Rightarrow> string \<Rightarrow> target" where
  "assign_target cx by_actor = (own_target cx)\<lparr> tg_assigned_by := Some by_actor \<rparr>"

definition write_record :: "'s store \<Rightarrow> pdp \<Rightarrow> int \<Rightarrow> pcontext \<Rightarrow> assignment_kind \<Rightarrow> string \<Rightarrow> (json \<Rightarrow> json) \<Rightarrow> 's \<Rightarrow> assignment res \<times> 's" where
  "write_record S d now cx k i f s = (case with_write S d now cx (kind_name k) i
       (\<lambda>r s. (case r of None \<Rightarrow> Inl (AppError ''Not found'' 404) | Some x \<Rightarrow> Inr (f x), s)) False s of
     (r, s', _) \<Rightarrow> (map_sum id (\<lambda>x. to_assignment k x (cx_tenant cx)) r, s'))"

definition assign_record :: "'s store \<Rightarrow> pdp \<Rightarrow> int \<Rightarrow> pcontext \<Rightarrow> assignment_kind \<Rightarrow> string \<Rightarrow> string option \<Rightarrow> string \<Rightarrow> 's \<Rightarrow> assignment res \<times> 's" where
  "assign_record S d now cx k i to_actor by_actor s = (if by_actor \<noteq> ac_id (cx_actor cx) then (Inl (AppError ''assignedBy must equal ctx.actor.id'' 403), s)
     else if pdp_can d cx Assign (kind_name k) None (assign_target cx by_actor) = Deny then (Inl (AppError ''Forbidden: assign'' 403), s)
     else write_record S d now cx k i (apply_assignment k to_actor by_actor) s)"

definition move_status :: "'s store \<Rightarrow> pdp \<Rightarrow> int \<Rightarrow> pcontext \<Rightarrow> assignment_kind \<Rightarrow> string \<Rightarrow> string \<Rightarrow> 's \<Rightarrow> assignment res \<times> 's" where
  "move_status S d now cx k i st s = write_record S d now cx k i (apply_status k st) s"

datatype assignment_call = AcceptIt | RejectIt | ApproveIt | CompleteIt | EscalateIt string string | ReassignIt "string option"

fun assignment_op :: "'s store \<Rightarrow> pdp \<Rightarrow> int \<Rightarrow> pcontext \<Rightarrow> assignment_kind \<Rightarrow> string \<Rightarrow> assignment_call \<Rightarrow> 's \<Rightarrow> assignment res \<times> 's" where
  "assignment_op S d now cx k i AcceptIt s = move_status S d now cx k i ''running'' s"
| "assignment_op S d now cx k i RejectIt s = move_status S d now cx k i ''cancelled'' s"
| "assignment_op S d now cx k i ApproveIt s = move_status S d now cx k i ''succeeded'' s"
| "assignment_op S d now cx k i CompleteIt s = (if pdp_can d cx Execute (kind_name k) None (own_target cx) = Deny
     then (Inl (AppError ''Forbidden: execute'' 403), s) else move_status S d now cx k i ''succeeded'' s)"
| "assignment_op S d now cx k i (EscalateIt to_actor reason) s = (if pdp_can d cx Escalate (kind_name k) None (assign_target cx to_actor) = Deny
     then (Inl (AppError ''Forbidden: escalate'' 403), s)
     else if to_actor = [] \<or> reason = [] then (Inl (AppError ''toActorId and reason required'' 422), s)
     else move_status S d now cx k i ''running'' s)"
| "assignment_op S d now cx k i (ReassignIt to_actor) s = assign_record S d now cx k i to_actor (ac_id (cx_actor cx)) s"

text \<open>The routes below /api/assignments; \<open>show_json\<close> is \<open>String\<close> of a value of the body.\<close>

definition parse_kind :: "string \<Rightarrow> assignment_kind option" where
  "parse_kind raw = (if raw = ''task'' then Some TaskKind else if raw = ''goal'' then Some GoalKind else if raw = ''monitor'' then Some MonitorKind
     else if raw = ''approval'' then Some ApprovalKind else if raw = ''sop'' then Some SopKind else None)"

definition body_text :: "(json \<Rightarrow> string) \<Rightarrow> json \<Rightarrow> string \<Rightarrow> string" where
  "body_text show_json body k = (case jget body k of None \<Rightarrow> [] | Some JNull \<Rightarrow> [] | Some x \<Rightarrow> show_json x)"

definition body_actor :: "(json \<Rightarrow> string) \<Rightarrow> json \<Rightarrow> string option" where
  "body_actor show_json body = (if jget body ''assignedTo'' = Some JNull then None else Some (body_text show_json body ''assignedTo''))"

datatype assignment_verb = AcceptVerb | RejectVerb | ApproveVerb | CompleteVerb | EscalateVerb | ReassignVerb | AssignVerb

fun requested_call :: "(json \<Rightarrow> string) \<Rightarrow> assignment_verb \<Rightarrow> json \<Rightarrow> assignment_call" where
  "requested_call show_json AcceptVerb body = AcceptIt"
| "requested_call show_json RejectVerb body = RejectIt"
| "requested_call show_json ApproveVerb body = ApproveIt"
| "requested_call show_json CompleteVerb body = CompleteIt"
| "requested_call show_json EscalateVerb body = EscalateIt (body_text show_json body ''toActorId'') (body_text show_json body ''reason'')"
| "requested_call show_json ReassignVerb body = ReassignIt (body_actor show_json body)"
| "requested_call show_json AssignVerb body = ReassignIt (body_actor show_json body)"

definition assignment_request :: "'s store \<Rightarrow> pdp \<Rightarrow> int \<Rightarrow> (json \<Rightarrow> string) \<Rightarrow> pcontext \<Rightarrow> string \<Rightarrow> string \<Rightarrow> assignment_verb \<Rightarrow> json \<Rightarrow> 's
    \<Rightarrow> assignment res \<times> 's" where
  "assignment_request S d now show_json cx raw i verb body s = (case parse_kind raw of
     None \<Rightarrow> (Inl (AppError (''Invalid kind: '' @ raw) 422), s)
   | Some k \<Rightarrow> assignment_op S d now cx k i (requested_call show_json verb body) s)"

section \<open>What the calls do\<close>

text \<open>Under an unknown status the record stays as it is, and a procedure is switched off by every other call.\<close>

lemma complete_goal_keeps: "apply_status GoalKind ''succeeded'' r = r"
  by (simp add: apply_status_def)

lemma accept_switches_off: "is_obj r \<Longrightarrow> jget (apply_status SopKind ''running'' r) ''active'' = Some (JBool False)"
  by (simp add: apply_status_def jget_jset)

lemma status_round_trip: "st \<in> set (adapter_statuses k) \<Longrightarrow> canonical_status k (native_status k st) = st"
  by (cases k) (auto simp: canonical_status_def native_status_def)

lemma status_never_lost: "canonical_status k native \<in> set (adapter_statuses k) \<or> canonical_status k native = ''failed''"
  by (cases k) (auto simp: canonical_status_def)

text \<open>A call that answers was allowed to update, found the row of its own kind and wrote that row and no other.\<close>

lemma written_record:
  assumes "write_record S d now cx k i f s = (Inr a, s')"
  shows "pdp_can d cx Update (kind_name k) None (own_target cx) \<noteq> Deny"
    "\<exists>r. s_get S (actor_owner cx) (kind_name k) i s = Some r \<and> a = to_assignment k (f r) (cx_tenant cx)
       \<and> s' = s_put S now (actor_owner cx) (kind_name k) (f r) s"
  using assms by (auto simp: write_record_def with_write_def Let_def split: if_splits option.splits)

theorem assignment_writes_own_row:
  assumes "assignment_op S d now cx k i call s = (Inr a, s')"
  shows "pdp_can d cx Update (kind_name k) None (own_target cx) \<noteq> Deny
     \<and> (\<exists>r r'. s_get S (actor_owner cx) (kind_name k) i s = Some r \<and> a = to_assignment k r' (cx_tenant cx)
          \<and> s' = s_put S now (actor_owner cx) (kind_name k) r' s)"
proof -
  obtain f where "write_record S d now cx k i f s = (Inr a, s')"
    using assms by (cases call) (auto simp: move_status_def assign_record_def split: if_splits)
  from written_record [OF this] show ?thesis by blast
qed

text \<open>The names of the kinds are not those of the rows.  The routes read rows of the kinds task, goal, monitor,
  approval and sop; in a store without rows of these kinds, as every other part of the program leaves it
  (its kinds are tasks, goals, monitors, actions and sops), each request is refused and nothing changes.\<close>
theorem assignments_find_nothing:
  assumes "\<And>ow k. s_get S ow (kind_name k) i s = None"
  shows "\<exists>e. assignment_request S d now show_json cx raw i verb body s = (Inl e, s)"
proof -
  have w: "\<exists>e. write_record S d now cx k i f s = (Inl e, s)" for k f
    using assms by (auto simp: write_record_def with_write_def Let_def)
  have "\<exists>e. assignment_op S d now cx k i call s = (Inl e, s)" for k call
    using w by (cases call) (simp_all add: move_status_def assign_record_def)
  then show ?thesis by (simp add: assignment_request_def split: option.split)
qed

end
