(* ===== verification/Spec2Isabelle.thy ===== *)
theory Spec2Isabelle
  imports Circuit RateLimit Retry Presence Authz EventBus AuditTrail Worker WorkerLive Actions Promote KernelProps GraphProps SopRuns TaskProps AccountProps GoalProps Finance Network ModelChain Triggers MemoryProps Files Workspace Reactions Assignments
begin

text \<open>
  A verification development of the server core of OpenMuse, a multi-tenant business assistant written in
  TypeScript.  Paths are relative to the root of the repository; engine/ stands for
  apps/server/src/engine/ and kernel/ for apps/server/src/kernel/.

  \<^bold>\<open>The program.\<close>  All state that lasts is one table \<open>records(owner, kind, id, data, updated_at)\<close> of JSON
  documents (db.ts).  A request is given an owner and a tenant (auth.ts, engine/tenant.ts, app.ts), and its
  store prefixes every owner with the tenant (db-tenant.ts).  The agent service (engine/service.ts) creates
  tasks, controls and recovers them; the worker (engine/worker.ts) claims them with a lease and runs
  their handlers; the handler of a procedure (engine/sop-executor.ts) runs its steps one by one and saves its
  place after each.  An effect on the outside world is an action proposal that a person reviews
  (actions.ts), perhaps after several signatures and a waiting time (actions-deferred.ts).  Goals are planned,
  executed and verified by a cycle over capabilities (engine/orchestrator, planner, execution,
  verification).  The kernel (kernel/) keeps turns of thoughts, promotes what survives and writes an audit
  trail linked by hashes.  Events go through a bus with deduplication and retention (engine/events).

  \<^bold>\<open>Theories and sources.\<close>  Every definition is named after the function it translates; records are the
  interfaces and classes, datatypes the unions and enumerations.  In the order of the imports:

  \<^item> Prelude, Json, Rows: results and errors, sequencing (\<open>then_do\<close>, \<open>give\<close>), the JSON values with the operators
    that the SQL applies to them, and the readers of zod schemas.
  \<^item> Records (apps/server/src/db.ts), StoreContract (the interface its clients hold), TenantStore (db-tenant.ts).
  \<^item> Circuit, RateLimit, Retry, Presence, Idempotency: engine/circuit-breaker.ts, rate-limit.ts, engine/retry.ts,
    engine/edit-lock.ts and presence.ts, engine/idempotency.ts, transaction.ts and dead-letter.ts.
  \<^item> Authz, StateMachine, Guardrails: engine/authz, engine/policy, engine/guardrails.
  \<^item> Ulid, EventBus: engine/events.  AuditTrail: kernel/audit.
  \<^item> Worker, WorkerLive: engine/worker.ts.  Tasks, Goals, TaskProps, Triggers: the operations of engine/service.ts on
    tasks, goals, watches and ideas, and engine/sop-triggers.ts.
  \<^item> Deferred, Actions: actions-deferred.ts, actions.ts.
  \<^item> Thoughts, Turns, StoreTurns, TurnLaws, TurnProps, Attention, Promote: kernel/graph.  KernelContext, Kernel,
    KernelProps: kernel/context and kernel/kernel.ts.
  \<^item> BusinessGraph, GraphProps: engine/business.  SopModel, SopSteps, Sop, SopLaws, SopRuns, SopProps:
    packages/domain/src/sop.ts and engine/sop-executor.ts with the parts of the service that start a run.
  \<^item> Accounts, Access, AccountRoutes, AccountProps: users.ts, engine/tenant.ts, auth.ts, auth-routes.ts, auth-signup.ts.
  \<^item> Plans, Capability, Orchestrator, PlanLaws, GoalProps: engine/planner, execution, verification, capabilities and
    orchestrator.
  \<^item> Memory, MemoryProps: engine/memory.ts, learning.ts, learning/observer.ts, context/budget.ts.  Rag, RagProps:
    engine/rag.ts.  GoogleAuth: google-auth.ts.  Files: files.ts.  Workspace: workspace.ts, the execution of
    actions.  Finance: engine/finance.ts.  ModelChain: engine/model-chain.ts.  Network: apps/worker/src/network.ts.
    Reactions: engine/reactions, engine/handoff, alerts/service.ts.  Assignments: engine/assignments.

  \<^bold>\<open>Interfaces.\<close>  \<open>record_store\<close> states what a client of the store may rely on (a read after each kind of write); it
  is interpreted on the table (\<open>ps\<close>) and, through \<open>scoped\<close>, on the tenant's view of it (\<open>rt\<close>), and the laws of
  idempotency, actions, kernel and graph are proved in it.  \<open>deferred_store\<close> is interpreted on both of its classes (\<open>md\<close>,
  \<open>sd\<close>), \<open>turn_store\<close> and \<open>closing_turn_store\<close> on the store in memory and the persistent one (\<open>mts\<close>, \<open>sns\<close>),
  \<open>audit_sink\<close> on the persistent trail (\<open>sa\<close>), \<open>action_store\<close> on the table (\<open>pa\<close>), and \<open>steady_runner\<close>, what a
  runner of steps keeps of an invariant, on the capability runner (\<open>cr\<close>).

  \<^bold>\<open>What is proved.\<close>  The numbered properties stand in the theories of their components.  In groups: nothing outside
  happens without the review of exactly what is executed, and an approval acts once, or through a deferred
  signature that is claimed once (Actions, Deferred, GoalProps); a task is held by one run at a time, a lost
  lease or a control of the user ends the writes of a run, a dead run is started again (Worker, WorkerLive,
  TaskProps); procedures and plans run their steps in order, each once, and go on where they stopped
  (SopRuns, SopProps, GoalProps); a tenant's data and credentials stay its own in every operation that names an owner, which the two
  maintenance writes do not (TenantStore, AccountProps);
  the audit trail shows every change, a closed turn is final and every turn that is handed out obeys its schema
  (AuditTrail, TurnProps, KernelProps); decisions follow the declared policies and machines (Authz, StateMachine);
  round trips, exact bounds and equivalences of the smaller components.  Where the code does less than it
  says, the theorem states what it does: an answered run that keeps its place in the bulkhead, a denial
  whose condition fails and grants, a signature that undoes a cancellation, a flood of keys that reopens a window, a
  verdict that ignores the execution, an escalated task that cannot be answered, assignment routes that find no row, and others.

  \<^bold>\<open>Idealisations.\<close>
  \<^item> Text is compared by character code, characters have codes below 256, typographic characters of messages are
    written in ASCII, and the length of a text counts characters.  Numbers of JavaScript are rationals or integers:
    no overflow or rounding is modelled, and amounts of money are exact cents.
  \<^item> A call of an operation sees one instant of the clock unless it takes the clock as a list or as its own
    argument.  An instant written with \<open>toISOString\<close> is \<open>JDate\<close> of its milliseconds.
  \<^item> Rows with the same \<open>updated_at\<close> come in the order of the table.  The operator \<open>->>\<close> is applied to fields that
    hold texts only.
  \<^item> SHA-256, scrypt, random identifiers, \<open>JSON.stringify\<close>, regular expressions given by users, the parser of URLs,
    name resolution, language models and the clients of external services are arguments of the definitions
    that use them, and the hypotheses about them are stated in the theorems.
  \<^item> Concurrency is interleaving.  Where another process can act between two statements of the store, it is an
    argument (\<open>others\<close>, \<open>ae_between\<close>) or the definitions are single steps of a step relation, as the reads and
    writes of signatures in Deferred and the leases in Worker are; elsewhere an operation is atomic.
    Reads of the tenant's store leave out the registration of the prefix, which only writes need.
  \<^item> What an operation tells the bus is a list of notes in its result or state; log lines and metrics are left out.
    Environment variables are arguments.

  \<^bold>\<open>Bounds.\<close>  Loops over lists and pages are structural or have a measure.  The retries of the audit append (8),
  of a replanned goal (3) and of an operation with backoff are the code's own bounds, kept as numbers.  The search of
  documents reads at most one page more than there are rows, which \<open>pages_cover_index\<close> shows to be enough, and the
  cutting of a text is a partial function, whose end \<open>chunking_ends\<close> decides.  Pages
  have the sizes of the code (200, 500, 1000); where the code reads one page only, so does the model.

  \<^bold>\<open>Not modelled.\<close>  The browser client (apps/web), the container of the sandbox, declarations of workspaces, the
  clients of external services (packages/integrations), the prompts and the streaming of conversations
  (engine/conversation.ts, model.ts), the search with native vectors in SQL, Docker, browser and files,
  the token verification against remote keys, the HTTP handlers that only parse, delegate and answer, the table of
  payload schemas of events, provisioning and backups.  They are presentation, wiring or third-party behaviour; the
  models above take what they use of them as arguments.
\<close>

end
